(* ===== verification/Prelude.thy ===== *)
theory Prelude
  imports Main "HOL-Library.Word" "HOL-Library.AList"
begin

text \<open>
  The shared vocabulary of the development: bytes and Go strings, the error values of the
  program as a datatype with \<open>Error()\<close>, \<open>errors.Is\<close> and \<open>errors.Join\<close>, results as a sum
  type, decimal formatting, and the generic lemmas and fact collections the component
  theories use.

  A Go \<open>string\<close> is an immutable byte sequence, so strings, slices of bytes and payloads are
  all \<open>byte list\<close>; \<open>str\<close> embeds a literal.  A function that returns \<open>(T, error)\<close> is modelled
  with a value of \<open>T result\<close>.
\<close>

named_theorems go_defs \<open>definitions that a component's proofs unfold\<close>
named_theorems sizes \<open>the byte limits of the program as numerals\<close>

type_synonym byte = "8 word"
type_synonym bytes = "byte list"
type_synonym u16 = "16 word"
type_synonym u32 = "32 word"
type_synonym u64 = "64 word"

section \<open>Strings and decimal formatting\<close>

definition str :: "string \<Rightarrow> bytes" where
  "str s = map of_char s"

lemma length_str [simp]: "length (str s) = length s"
  by (simp add: str_def)

lemma str_Nil [simp]: "str [] = []"
  by (simp add: str_def)

lemma str_eq_Nil [simp]: "str s = [] \<longleftrightarrow> s = []"
  by (simp add: str_def)

text \<open>
  \<open>strconv.Itoa\<close> and the \<open>%d\<close> verb on a non-negative number: decimal digits, most
  significant first, no leading zero.
\<close>

fun decimal :: "nat \<Rightarrow> bytes" where
  "decimal n = (if n < 10 then [word_of_nat (48 + n)]
                else decimal (n div 10) @ [word_of_nat (48 + n mod 10)])"

declare decimal.simps [simp del]

text \<open>The \<open>%x\<close> verb on an unsigned number.\<close>

definition hex_digit :: "nat \<Rightarrow> byte" where
  "hex_digit d = word_of_nat (if d < 10 then 48 + d else 87 + d)"

fun hexadecimal :: "nat \<Rightarrow> bytes" where
  "hexadecimal n = (if n < 16 then [hex_digit n] else hexadecimal (n div 16) @ [hex_digit (n mod 16)])"

declare hexadecimal.simps [simp del]

text \<open>The number a digit string denotes, read from the left.\<close>

definition digits_value :: "bytes \<Rightarrow> nat" where
  "digits_value bs = foldl (\<lambda>a b. a * 10 + (unat b - 48)) 0 bs"

definition is_digit :: "byte \<Rightarrow> bool" where
  "is_digit b \<longleftrightarrow> 48 \<le> unat b \<and> unat b \<le> 57"

lemma unat_word_of_nat_byte: "n < 256 \<Longrightarrow> unat (word_of_nat n :: byte) = n"
  by (simp add: unat_of_nat take_bit_nat_eq_self)

lemma decimal_not_Nil [simp]: "decimal n \<noteq> []"
  by (subst decimal.simps) simp

lemma decimal_digits: "b \<in> set (decimal n) \<Longrightarrow> is_digit b"
proof (induction n rule: decimal.induct)
  case (1 n)
  have small: "is_digit (word_of_nat (48 + k))" if "k < 10" for k
    using that by (simp add: is_digit_def unat_word_of_nat_byte del: of_nat_add)
  show ?case
  proof (cases "n < 10")
    case True
    with "1.prems" small show ?thesis by (subst (asm) decimal.simps) simp
  next
    case False
    with "1.prems" have "b \<in> set (decimal (n div 10)) \<or> b = word_of_nat (48 + n mod 10)"
      by (subst (asm) decimal.simps) auto
    then show ?thesis
      using "1.IH" [OF False] small [of "n mod 10"] by auto
  qed
qed

lemma digits_value_decimal: "digits_value (decimal n) = n"
proof (induction n rule: decimal.induct)
  case (1 n)
  have last: "unat (word_of_nat (48 + k) :: byte) - 48 = k" if "k < 10" for k
    using that by (simp add: unat_word_of_nat_byte del: of_nat_add)
  show ?case
  proof (cases "n < 10")
    case True
    then show ?thesis
      by (subst decimal.simps) (simp add: digits_value_def last del: of_nat_add)
  next
    case False
    then have "digits_value (decimal n) = digits_value (decimal (n div 10)) * 10 + n mod 10"
      by (subst decimal.simps) (simp add: digits_value_def last del: of_nat_add)
    with "1.IH" [OF False] show ?thesis by simp
  qed
qed

lemma decimal_inj: "decimal m = decimal n \<Longrightarrow> m = n"
  by (metis digits_value_decimal)

section \<open>Errors and results\<close>

text \<open>
  The sentinel errors of the program and of the standard library that it compares with
  \<open>errors.Is\<close>; \<open>ErrText\<close> is \<open>errors.New\<close> or a \<open>fmt.Errorf\<close> that wraps nothing,
  \<open>ErrWrapped\<close> a \<open>fmt.Errorf\<close> with one \<open>%w\<close> (its rendered text and the wrapped error),
  \<open>ErrJoined\<close> is \<open>errors.Join\<close>.  \<open>GoPanic\<close> marks the branches on which the Go code panics.
\<close>

datatype goerr =
    ErrText bytes
  | ErrWrapped bytes goerr
  | ErrJoined goerr goerr
  | GoPanic
  | IoEOF | IoErrUnexpectedEOF | IoErrShortWrite | IoErrClosedPipe
  | ContextCanceled | ContextDeadlineExceeded | OsTimeout
  | ErrDetached | ErrLinkClosed | ErrStale | ErrNilEndpoint
  | ErrInvalidToken | ErrRegistryClosed | ErrStaleAttachment | ErrEmptyAttachToken
  | ErrRemoteAttach
  | ErrBrokerClosed | ErrRegistryFull | ErrUnknownEntry
  | ErrResourceLimit | ErrDeadlineChanged
  | ErrServerAlreadyRunning | ErrClientClosed | ErrClientAlreadyRunning
  | ErrMissingCapabilities | ErrPeerRestarted
  | NetErrClosed | OsErrNotExist | SysECONNREFUSED | IoErrShortBuffer
  | SysENOENT | SysECONNRESET | ErrInvalidConfig | IoErrNoProgress

type_synonym 'a result = "goerr + 'a"

text \<open>The text of \<open>err.Error()\<close>.\<close>

fun error_text :: "goerr \<Rightarrow> bytes" where
  "error_text (ErrText t) = t"
| "error_text (ErrWrapped t e) = t"
| "error_text (ErrJoined a b) = error_text a @ [10] @ error_text b"
| "error_text GoPanic = str ''panic''"
| "error_text IoEOF = str ''EOF''"
| "error_text IoErrUnexpectedEOF = str ''unexpected EOF''"
| "error_text IoErrShortWrite = str ''short write''"
| "error_text IoErrClosedPipe = str ''io: read/write on closed pipe''"
| "error_text ContextCanceled = str ''context canceled''"
| "error_text ContextDeadlineExceeded = str ''context deadline exceeded''"
| "error_text OsTimeout = str ''i/o timeout''"
| "error_text ErrDetached = str ''framed transport detached''"
| "error_text ErrLinkClosed = str ''framed transport closed''"
| "error_text ErrStale = str ''framed transport attachment is stale''"
| "error_text ErrNilEndpoint = str ''framed transport endpoint is nil''"
| "error_text ErrInvalidToken = str ''invalid attach token''"
| "error_text ErrRegistryClosed = str ''attach registry is closed''"
| "error_text ErrStaleAttachment = str ''attachment is stale''"
| "error_text ErrEmptyAttachToken = str ''attach token must not be empty''"
| "error_text ErrRemoteAttach = str ''remote attach rejected''"
| "error_text ErrBrokerClosed = str ''broker is closed''"
| "error_text ErrRegistryFull = str ''broker registry entry limit reached''"
| "error_text ErrUnknownEntry = str ''unknown broker entry''"
| "error_text ErrResourceLimit = str ''relay resource limit reached''"
| "error_text ErrDeadlineChanged = str ''flow window deadline changed''"
| "error_text ErrServerAlreadyRunning = str ''relay server is already running''"
| "error_text ErrClientClosed = str ''relay client is closed''"
| "error_text ErrClientAlreadyRunning = str ''relay client is already running''"
| "error_text ErrMissingCapabilities = str ''Windows relay is missing required capabilities''"
| "error_text ErrPeerRestarted = str ''relay peer broker restarted''"
| "error_text NetErrClosed = str ''use of closed network connection''"
| "error_text OsErrNotExist = str ''file does not exist''"
| "error_text SysECONNREFUSED = str ''connection refused''"
| "error_text IoErrShortBuffer = str ''short buffer''"
| "error_text SysENOENT = str ''no such file or directory''"
| "error_text SysECONNRESET = str ''connection reset by peer''"
| "error_text ErrInvalidConfig = str ''invalid connector configuration''"
| "error_text IoErrNoProgress = str ''multiple Read calls return no data or error''"

text \<open>\<open>errors.Is(err, target)\<close> for a sentinel target.\<close>

fun err_is :: "goerr \<Rightarrow> goerr \<Rightarrow> bool" where
  "err_is (ErrWrapped t e) target \<longleftrightarrow> ErrWrapped t e = target \<or> err_is e target"
| "err_is (ErrJoined a b) target \<longleftrightarrow> ErrJoined a b = target \<or> err_is a target \<or> err_is b target"
| "err_is e target \<longleftrightarrow> e = target"

text \<open>
  \<open>errors.As(err, &netErr)\<close> for a \<open>net.Error\<close>: the first error of the chain that is one, by what its
  \<open>Timeout()\<close> says.
\<close>

fun net_timeout :: "goerr \<Rightarrow> bool option" where
  "net_timeout (ErrWrapped t e) = net_timeout e"
| "net_timeout (ErrJoined a b) = (case net_timeout a of None \<Rightarrow> net_timeout b | Some x \<Rightarrow> Some x)"
| "net_timeout e =
     (if e = OsTimeout \<or> e = ContextDeadlineExceeded then Some True
      else if e = SysECONNREFUSED \<or> e = SysENOENT \<or> e = SysECONNRESET then Some False else None)"

text \<open>Sequencing of fallible calls: \<open>if err != nil { return ..., err }\<close>.\<close>

definition rbind :: "'a result \<Rightarrow> ('a \<Rightarrow> 'b result) \<Rightarrow> 'b result" where
  "rbind r f = (case r of Inl e \<Rightarrow> Inl e | Inr x \<Rightarrow> f x)"

lemma rbind_simps [simp]:
  "rbind (Inl e) f = Inl e"
  "rbind (Inr x) f = f x"
  by (simp_all add: rbind_def)

lemma rbind_eq_Inr: "rbind r f = Inr y \<longleftrightarrow> (\<exists>x. r = Inr x \<and> f x = Inr y)"
  by (cases r) auto

lemma rbind_eq_Inl: "rbind r f = Inl e \<longleftrightarrow> r = Inl e \<or> (\<exists>x. r = Inr x \<and> f x = Inl e)"
  by (cases r) auto

definition isOk :: "'a result \<Rightarrow> bool" where
  "isOk r \<longleftrightarrow> (\<exists>x. r = Inr x)"

lemma isOk_simps [simp]: "isOk (Inr x)" "\<not> isOk (Inl e)"
  by (auto simp: isOk_def)

section \<open>Finite maps with a size bound\<close>

text \<open>
  Go maps are modelled as finite partial functions; \<open>len(m)\<close> is the size of the domain.
\<close>

definition msize :: "('k \<rightharpoonup> 'v) \<Rightarrow> nat" where
  "msize m = card (dom m)"

lemma msize_empty [simp]: "msize Map.empty = 0"
  by (simp add: msize_def)

lemma msize_upd:
  assumes "finite (dom m)"
  shows "msize (m(k \<mapsto> v)) = (if k \<in> dom m then msize m else Suc (msize m))"
  using assms by (simp add: msize_def insert_absorb)

lemma msize_upd_le: "finite (dom m) \<Longrightarrow> msize (m(k \<mapsto> v)) \<le> Suc (msize m)"
  by (simp add: msize_upd)

lemma msize_upd_present: "m k = Some w \<Longrightarrow> msize (m(k \<mapsto> v)) = msize m"
  by (auto simp: msize_def insert_absorb domIff)

lemma msize_del_le: "finite (dom m) \<Longrightarrow> msize (m(k := None)) \<le> msize m"
  by (simp add: msize_def card_mono)

lemma msize_del_present:
  "finite (dom m) \<Longrightarrow> m k = Some v \<Longrightarrow> Suc (msize (m(k := None))) = msize m"
  using card.remove [of "dom m" k] by (simp add: msize_def domI)

lemma msize_bounded_insert:
  "finite (dom m) \<Longrightarrow> msize m < n \<Longrightarrow> msize (m(k \<mapsto> v)) \<le> n"
  using msize_upd_le [of m k v] by linarith

lemma msize_bounded_delete:
  "finite (dom m) \<Longrightarrow> msize m \<le> n \<Longrightarrow> msize (m(k := None)) \<le> n"
  using msize_del_le [of m k] by linarith

lemma list_all_tl: "list_all P xs \<Longrightarrow> list_all P (tl xs)"
  by (cases xs) auto

section \<open>Counters\<close>

text \<open>A 64-bit counter gives fresh numbers as long as it has not wrapped.\<close>

lemma of_nat_u64_eq: "m < 2 ^ 64 \<Longrightarrow> n < 2 ^ 64 \<Longrightarrow> (word_of_nat m :: u64) = word_of_nat n \<longleftrightarrow> m = n"
  by (simp add: word_of_nat_eq_iff take_bit_nat_eq_self)

section \<open>Association lists\<close>

text \<open>Go maps that are iterated are association lists.\<close>

lemma alist_update_new: "k \<notin> fst ` set al \<Longrightarrow> AList.update k v al = al @ [(k, v)]"
  by (induction al) auto

lemma alist_length_update: "length (AList.update k v al) \<le> Suc (length al)"
  by (induction al) auto

lemma alist_set_delete: "x \<in> set (AList.delete k al) \<Longrightarrow> x \<in> set al"
  by (auto simp: AList.delete_eq)

lemma alist_delete_keeps:
  "(i, k) \<in> set al \<Longrightarrow> distinct (map fst al) \<Longrightarrow> map_of al j \<noteq> Some k \<Longrightarrow> (i, k) \<in> set (AList.delete j al)"
  by (auto simp: AList.delete_eq)

lemma alist_distinct_snd_delete: "distinct (map snd al) \<Longrightarrow> distinct (map snd (AList.delete k al))"
  unfolding AList.delete_eq by (rule distinct_map_filter)

lemma alist_length_delete: "length (AList.delete k al) \<le> length al"
  by (simp add: AList.delete_eq)

end
