(* ===== verification/Diagnostic.thy ===== *)
theory Diagnostic
  imports Prelude "HOL-Library.Sublist"
begin

text \<open>
  Package diagnostic (src/internal/diagnostic/text.go): error text is made valid UTF-8 and
  bounded before it enters a control frame or a status file.  The standard library's
  \<open>utf8.ValidString\<close> and \<open>strings.ToValidUTF8\<close> are modelled from the UTF-8 tables they
  use: \<open>rune_width\<close> is the width of the well-formed rune a byte string starts with, 0 when
  it starts with none.
\<close>

section \<open>UTF-8 in the standard library\<close>

definition in_range :: "byte \<Rightarrow> byte \<Rightarrow> byte \<Rightarrow> bool" where
  "in_range lo hi b \<longleftrightarrow> lo \<le> b \<and> b \<le> hi"

definition cont_byte :: "byte \<Rightarrow> bool" where
  "cont_byte b \<longleftrightarrow> in_range 0x80 0xBF b"

text \<open>The accept range of the second byte after the leading byte.\<close>

definition second_ok :: "byte \<Rightarrow> byte \<Rightarrow> bool" where
  "second_ok b0 b1 \<longleftrightarrow>
     (if b0 = 0xE0 then in_range 0xA0 0xBF b1
      else if b0 = 0xED then in_range 0x80 0x9F b1
      else if b0 = 0xF0 then in_range 0x90 0xBF b1
      else if b0 = 0xF4 then in_range 0x80 0x8F b1
      else cont_byte b1)"

fun rune_width :: "bytes \<Rightarrow> nat" where
  "rune_width [] = 0"
| "rune_width (b0 # r) =
     (if b0 < 0x80 then 1
      else if in_range 0xC2 0xDF b0 then
        (case r of b1 # _ \<Rightarrow> if second_ok b0 b1 then 2 else 0 | _ \<Rightarrow> 0)
      else if in_range 0xE0 0xEF b0 then
        (case r of b1 # b2 # _ \<Rightarrow> if second_ok b0 b1 \<and> cont_byte b2 then 3 else 0 | _ \<Rightarrow> 0)
      else if in_range 0xF0 0xF4 b0 then
        (case r of b1 # b2 # b3 # _ \<Rightarrow>
           if second_ok b0 b1 \<and> cont_byte b2 \<and> cont_byte b3 then 4 else 0 | _ \<Rightarrow> 0)
      else 0)"

declare rune_width.simps(2) [simp del]

lemma rune_width_le_4: "rune_width bs \<le> 4"
  by (cases bs) (auto simp: rune_width.simps split: list.splits)

lemma rune_width_le_length: "rune_width bs \<le> length bs"
  by (cases bs) (auto simp: rune_width.simps split: list.splits)

lemma rune_width_prefix:
  assumes "0 < rune_width bs"
  shows "rune_width (take (rune_width bs) bs @ zs) = rune_width bs"
  using assms
  by (cases bs) (auto simp: rune_width.simps split: list.splits if_splits)

lemma rune_width_short:
  assumes "0 < n" and "n < rune_width bs"
  shows "rune_width (take n bs) = 0"
proof (cases bs)
  case Nil
  with assms show ?thesis by simp
next
  case (Cons b r)
  with assms show ?thesis
    by (cases n) (auto simp: rune_width.simps take_Cons' split: list.splits if_splits)
qed

text \<open>\<open>utf8.ValidString\<close>.\<close>

function ValidString :: "bytes \<Rightarrow> bool" where
  "ValidString bs =
     (if bs = [] then True
      else if rune_width bs = 0 then False
      else ValidString (drop (rune_width bs) bs))"
  by pat_completeness auto
termination
  by (relation "measure length") auto

declare ValidString.simps [simp del]

lemma ValidString_Nil [simp]: "ValidString []"
  by (simp add: ValidString.simps)

lemma ValidString_rune:
  "0 < rune_width bs \<Longrightarrow> ValidString bs \<longleftrightarrow> ValidString (drop (rune_width bs) bs)"
  by (subst ValidString.simps) simp

lemma ValidString_width: "ValidString bs \<Longrightarrow> bs \<noteq> [] \<Longrightarrow> 0 < rune_width bs"
  by (subst (asm) ValidString.simps) (simp split: if_splits)

lemma ValidString_take_rune:
  assumes "0 < rune_width bs" and "ValidString ys"
  shows "ValidString (take (rune_width bs) bs @ ys)"
proof -
  let ?w = "rune_width bs"
  have "rune_width (take ?w bs @ ys) = ?w" by (rule rune_width_prefix [OF assms(1)])
  moreover have "length (take ?w bs) = ?w" using rune_width_le_length [of bs] by simp
  ultimately show ?thesis
    using assms by (subst ValidString_rune) simp_all
qed

text \<open>
  \<open>strings.ToValidUTF8(s, "\uFFFD")\<close>: every maximal run of invalid bytes becomes one
  replacement character; the flag is the \<open>invalid\<close> variable of the library's loop.
\<close>

definition replacement_char :: bytes where
  "replacement_char = [0xEF, 0xBF, 0xBD]"

function ToValidUTF8_loop :: "bool \<Rightarrow> bytes \<Rightarrow> bytes" where
  "ToValidUTF8_loop invalid bs =
     (if bs = [] then []
      else if rune_width bs = 0
      then (if invalid then [] else replacement_char) @ ToValidUTF8_loop True (tl bs)
      else take (rune_width bs) bs @ ToValidUTF8_loop False (drop (rune_width bs) bs))"
  by pat_completeness auto
termination
  by (relation "measure (\<lambda>(invalid, bs). length bs)") auto

declare ToValidUTF8_loop.simps [simp del]

definition ToValidUTF8 :: "bytes \<Rightarrow> bytes" where
  "ToValidUTF8 bs = ToValidUTF8_loop False bs"

lemma rune_width_replacement [simp]: "rune_width (replacement_char @ ys) = 3"
  by (simp add: replacement_char_def rune_width.simps in_range_def second_ok_def cont_byte_def)

lemma ValidString_replacement: "ValidString ys \<Longrightarrow> ValidString (replacement_char @ ys)"
  by (subst ValidString_rune) (simp_all add: replacement_char_def [THEN arg_cong, of length])

lemma ValidString_ToValidUTF8_loop: "ValidString (ToValidUTF8_loop invalid bs)"
proof (induction invalid bs rule: ToValidUTF8_loop.induct)
  case (1 invalid bs)
  then show ?case
    by (subst ToValidUTF8_loop.simps)
      (auto intro: ValidString_replacement ValidString_take_rune)
qed

lemma ToValidUTF8_loop_id: "ValidString bs \<Longrightarrow> ToValidUTF8_loop invalid bs = bs"
proof (induction invalid bs rule: ToValidUTF8_loop.induct)
  case (1 invalid bs)
  show ?case
  proof (cases "bs = []")
    case True
    then show ?thesis by (simp add: ToValidUTF8_loop.simps)
  next
    case False
    with "1.prems" have w: "0 < rune_width bs" by (simp add: ValidString_width)
    with False "1" show ?thesis
      by (subst ToValidUTF8_loop.simps) (simp add: ValidString_rune)
  qed
qed

section \<open>diagnostic.UTF8 and diagnostic.SingleLine\<close>

text \<open>The trimming loop of \<open>UTF8\<close>: drop the last byte while the text is not valid.\<close>

function trim_invalid :: "bytes \<Rightarrow> bytes" where
  "trim_invalid value =
     (if 0 < length value \<and> \<not> ValidString value then trim_invalid (butlast value) else value)"
  by pat_completeness auto
termination
  by (relation "measure length") auto

declare trim_invalid.simps [simp del]

definition UTF8 :: "bytes \<Rightarrow> int \<Rightarrow> bytes" where
  "UTF8 value maxBytes =
     (if maxBytes \<le> 0 then []
      else let value = ToValidUTF8 value in
        if int (length value) \<le> maxBytes then value
        else trim_invalid (take (nat maxBytes) value))"

definition replace_newlines :: "bytes \<Rightarrow> bytes" where
  "replace_newlines = map (\<lambda>b. if b = 13 \<or> b = 10 then 32 else b)"

definition SingleLine :: "bytes \<Rightarrow> int \<Rightarrow> bytes" where
  "SingleLine value maxBytes = UTF8 (replace_newlines value) maxBytes"

subsection \<open>The trimming loop finds the longest valid prefix\<close>

lemma trim_invalid_props:
  "ValidString (trim_invalid v) \<and> prefix (trim_invalid v) v
   \<and> (\<forall>p. prefix p v \<longrightarrow> ValidString p \<longrightarrow> length p \<le> length (trim_invalid v))"
proof (induction v rule: trim_invalid.induct)
  case (1 v)
  show ?case
  proof (cases "0 < length v \<and> \<not> ValidString v")
    case True
    then have ne: "v \<noteq> []" by auto
    note IH = "1.IH" [OF True]
    have step: "trim_invalid v = trim_invalid (butlast v)"
      using True by (subst trim_invalid.simps) simp
    have "prefix p (butlast v)" if "prefix p v" "ValidString p" for p
      using that True prefix_snoc [of p "butlast v" "last v"] ne by auto
    moreover have "prefix (butlast v) v" by (metis append_butlast_last_id ne prefixI)
    ultimately show ?thesis
      using IH unfolding step by (meson prefix_order.trans)
  next
    case False
    then have "trim_invalid v = v" by (subst trim_invalid.simps) auto
    with False show ?thesis by (auto intro: prefix_length_le)
  qed
qed

text \<open>A cut through valid text loses at most three bytes: the start of one rune.\<close>

lemma valid_cut:
  "ValidString v \<Longrightarrow> n \<le> length v \<Longrightarrow> \<exists>k\<le>n. n \<le> k + 3 \<and> ValidString (take k v)"
proof (induction v arbitrary: n rule: length_induct)
  case (1 v)
  show ?case
  proof (cases "v = []")
    case True
    with "1.prems" show ?thesis by auto
  next
    case False
    let ?w = "rune_width v"
    have w: "0 < ?w" using ValidString_width "1.prems" False by blast
    show ?thesis
    proof (cases "n < ?w")
      case True
      with rune_width_le_4 [of v] have "n \<le> 0 + 3" by linarith
      then show ?thesis by (intro exI [of _ 0]) auto
    next
      case False
      have "ValidString (drop ?w v)" using "1.prems" w by (simp add: ValidString_rune)
      moreover have "length (drop ?w v) < length v" using w \<open>v \<noteq> []\<close> by simp
      moreover have "n - ?w \<le> length (drop ?w v)" using "1.prems" by simp
      ultimately obtain k where k: "k \<le> n - ?w" "n - ?w \<le> k + 3" "ValidString (take k (drop ?w v))"
        using "1.IH" by blast
      have "ValidString (take ?w v @ take k (drop ?w v))"
        by (rule ValidString_take_rune [OF w k(3)])
      then have "ValidString (take (?w + k) v)" by (simp add: take_add)
      with k False show ?thesis by (intro exI [of _ "?w + k"]) auto
    qed
  qed
qed

subsection \<open>The contract of the package\<close>

lemma UTF8_valid: "ValidString (UTF8 value m)"
  using trim_invalid_props
  by (simp add: UTF8_def Let_def ToValidUTF8_def ValidString_ToValidUTF8_loop)

lemma UTF8_length: "int (length (UTF8 value m)) \<le> max 0 m"
proof -
  have "length (trim_invalid (take (nat m) v)) \<le> nat m" for v
    using trim_invalid_props [of "take (nat m) v"] prefix_length_le by fastforce
  from this [of "ToValidUTF8 value"] show ?thesis
    by (auto simp: UTF8_def Let_def)
qed

lemma UTF8_id: "ValidString v \<Longrightarrow> int (length v) \<le> m \<Longrightarrow> UTF8 v m = v"
  by (cases v) (auto simp: UTF8_def ToValidUTF8_def ToValidUTF8_loop_id Let_def)

lemma UTF8_prefix: "prefix (UTF8 value m) (ToValidUTF8 value)"
proof -
  have "prefix (trim_invalid (take n v)) v" for n v
    using trim_invalid_props [of "take n v"] take_is_prefix prefix_order.trans by blast
  then show ?thesis by (auto simp: UTF8_def Let_def)
qed

lemma UTF8_keeps:
  assumes "0 \<le> m" and "m < int (length (ToValidUTF8 value))"
  shows "m - 3 \<le> int (length (UTF8 value m))"
proof (cases "m = 0")
  case False
  let ?v = "ToValidUTF8 value"
  have "ValidString ?v" by (simp add: ToValidUTF8_def ValidString_ToValidUTF8_loop)
  moreover have "nat m \<le> length ?v" using assms by linarith
  ultimately obtain k where k: "k \<le> nat m" "nat m \<le> k + 3" "ValidString (take k ?v)"
    using valid_cut by blast
  have "prefix (take k ?v) (take (nat m) ?v)"
    using k(1) by (metis min.absorb1 take_is_prefix take_take)
  then have "length (take k ?v) \<le> length (trim_invalid (take (nat m) ?v))"
    using trim_invalid_props k(3) by blast
  then show ?thesis using k assms False by (auto simp: UTF8_def Let_def)
qed (use assms in auto)

lemma ToValidUTF8_loop_bytes:
  "set (ToValidUTF8_loop invalid bs) \<subseteq> set bs \<union> set replacement_char"
proof (induction invalid bs rule: ToValidUTF8_loop.induct)
  case (1 invalid bs)
  have sub: "set (tl bs) \<subseteq> set bs" "set (drop n bs) \<subseteq> set bs" "set (take n bs) \<subseteq> set bs" for n
    by (cases bs) (auto dest: in_set_dropD in_set_takeD)
  consider "bs = []" | "bs \<noteq> []" "rune_width bs = 0" | "bs \<noteq> []" "0 < rune_width bs" by auto
  then show ?case
  proof cases
    case 1
    then show ?thesis by (simp add: ToValidUTF8_loop.simps)
  next
    case 2
    with "1.IH"(1) sub(1) show ?thesis by (subst ToValidUTF8_loop.simps) auto
  next
    case 3
    with "1.IH"(2) sub(2,3) show ?thesis by (subst ToValidUTF8_loop.simps) (simp, blast)
  qed
qed

lemma SingleLine_no_newline: "b \<in> set (SingleLine value m) \<Longrightarrow> b \<noteq> 10 \<and> b \<noteq> 13"
proof -
  assume "b \<in> set (SingleLine value m)"
  then have "b \<in> set (ToValidUTF8 (replace_newlines value))"
    using UTF8_prefix set_mono_prefix unfolding SingleLine_def by blast
  then have "b \<in> set (replace_newlines value) \<union> set replacement_char"
    using ToValidUTF8_loop_bytes unfolding ToValidUTF8_def by blast
  then show ?thesis by (auto simp: replace_newlines_def replacement_char_def split: if_splits)
qed

section \<open>Properties\<close>

text \<open>
  Bounded diagnostic text is valid UTF-8, fits the byte limit, is a prefix of the sanitised
  input and the longest such prefix; cutting it never loses more than three bytes below the
  limit, and text that already is valid and short enough is unchanged.
\<close>

lemma UTF8_contract:
  fixes m :: int
  assumes "0 < m"
  shows "ValidString (UTF8 value m) \<and> int (length (UTF8 value m)) \<le> m
    \<and> prefix (UTF8 value m) (ToValidUTF8 value)
    \<and> (\<forall>p. prefix p (ToValidUTF8 value) \<longrightarrow> ValidString p \<longrightarrow> int (length p) \<le> m
         \<longrightarrow> length p \<le> length (UTF8 value m))
    \<and> (m < int (length (ToValidUTF8 value)) \<longrightarrow> m - 3 \<le> int (length (UTF8 value m)))
    \<and> (ValidString value \<and> int (length value) \<le> m \<longrightarrow> UTF8 value m = value)"
proof -
  have "length p \<le> length (UTF8 value m)"
    if "prefix p (ToValidUTF8 value)" "ValidString p" "int (length p) \<le> m" for p
  proof (cases "int (length (ToValidUTF8 value)) \<le> m")
    case True
    with that assms show ?thesis by (simp add: UTF8_def Let_def prefix_length_le)
  next
    case False
    have "prefix p (take (nat m) (ToValidUTF8 value))"
      using that by (auto simp: prefix_def)
    with that trim_invalid_props have "length p \<le> length (trim_invalid (take (nat m) (ToValidUTF8 value)))"
      by blast
    with False assms show ?thesis by (simp add: UTF8_def Let_def)
  qed
  then show ?thesis
    using assms UTF8_valid UTF8_length [of "value" m] UTF8_prefix UTF8_keeps [of m "value"] UTF8_id
    by auto
qed

end
