(* ===== verification/Bytes.thy ===== *)
theory Bytes
  imports Prelude
begin

text \<open>
  Big-endian integers as \<open>encoding/binary\<close> writes and reads them.  \<open>be_bytes n x\<close> is the
  \<open>n\<close>-byte big-endian form of \<open>x mod 256 ^ n\<close> and \<open>be_value\<close> reads a byte string back; the
  \<open>Put\<close> and \<open>Get\<close> functions at 16, 32 and 64 bits are instances of them.
\<close>

fun be_bytes :: "nat \<Rightarrow> nat \<Rightarrow> bytes" where
  "be_bytes 0 x = []"
| "be_bytes (Suc n) x = be_bytes n (x div 256) @ [word_of_nat (x mod 256)]"

definition be_value :: "bytes \<Rightarrow> nat" where
  "be_value bs = foldl (\<lambda>a b. a * 256 + unat b) 0 bs"

lemma length_be_bytes [simp]: "length (be_bytes n x) = n"
  by (induction n arbitrary: x) auto

lemma be_value_snoc: "be_value (bs @ [b]) = be_value bs * 256 + unat b"
  by (simp add: be_value_def)

lemma be_value_Nil [simp]: "be_value [] = 0"
  by (simp add: be_value_def)

lemma unat_byte_lt: "unat (b :: byte) < 256"
  using unsigned_less [where 'a = nat, of b] by simp

lemma be_value_bytes: "be_value (be_bytes n x) = x mod 256 ^ n"
proof (induction n arbitrary: x)
  case 0
  then show ?case by simp
next
  case (Suc n)
  have "be_value (be_bytes (Suc n) x) = (x div 256 mod 256 ^ n) * 256 + x mod 256"
    by (simp add: be_value_snoc Suc.IH unat_word_of_nat_byte)
  also have "\<dots> = x mod 256 ^ Suc n"
    by (simp add: mod_mult2_eq [of x 256 "256 ^ n"] mult.commute)
  finally show ?case .
qed

lemma be_bytes_value: "be_bytes (length bs) (be_value bs) = bs"
proof (induction bs rule: rev_induct)
  case Nil
  then show ?case by simp
next
  case (snoc b bs)
  have b: "unat b < 256" by (rule unat_byte_lt)
  have "(be_value bs * 256 + unat b) div 256 = be_value bs"
    and "(be_value bs * 256 + unat b) mod 256 = unat b"
    using b by (simp_all add: div_add1_eq mod_add_eq)
  then show ?case by (simp add: be_value_snoc snoc.IH)
qed

lemma be_value_less: "be_value bs < 256 ^ length bs"
  by (metis be_value_bytes be_bytes_value mod_less_divisor zero_less_numeral zero_less_power)

definition PutUint16 :: "u16 \<Rightarrow> bytes" where "PutUint16 w = be_bytes 2 (unat w)"
definition PutUint32 :: "u32 \<Rightarrow> bytes" where "PutUint32 w = be_bytes 4 (unat w)"
definition PutUint64 :: "u64 \<Rightarrow> bytes" where "PutUint64 w = be_bytes 8 (unat w)"

text \<open>
  \<open>binary.BigEndian.UintNN(b)\<close> reads the first bytes of its argument.  It panics on a
  shorter slice; every call of the program is behind a length check, which the component
  theories keep.
\<close>

definition Uint16 :: "bytes \<Rightarrow> u16" where "Uint16 bs = word_of_nat (be_value (take 2 bs))"
definition Uint32 :: "bytes \<Rightarrow> u32" where "Uint32 bs = word_of_nat (be_value (take 4 bs))"
definition Uint64 :: "bytes \<Rightarrow> u64" where "Uint64 bs = word_of_nat (be_value (take 8 bs))"

lemma length_Put [simp]:
  "length (PutUint16 a) = 2" "length (PutUint32 b) = 4" "length (PutUint64 c) = 8"
  by (simp_all add: PutUint16_def PutUint32_def PutUint64_def)

lemma Uint16_Put [simp]: "Uint16 (PutUint16 w @ rest) = w"
proof -
  have "unat w < 256 ^ 2" using unsigned_less [where 'a = nat, of w] by simp
  then show ?thesis by (simp add: Uint16_def PutUint16_def be_value_bytes)
qed

lemma Uint32_Put [simp]: "Uint32 (PutUint32 w @ rest) = w"
proof -
  have "unat w < 256 ^ 4" using unsigned_less [where 'a = nat, of w] by simp
  then show ?thesis by (simp add: Uint32_def PutUint32_def be_value_bytes)
qed

lemma Uint64_Put [simp]: "Uint64 (PutUint64 w @ rest) = w"
proof -
  have "unat w < 256 ^ 8" using unsigned_less [where 'a = nat, of w] by simp
  then show ?thesis by (simp add: Uint64_def PutUint64_def be_value_bytes)
qed

lemmas Uint_Put_exact [simp] =
  Uint16_Put [where rest = "[]", simplified]
  Uint32_Put [where rest = "[]", simplified]
  Uint64_Put [where rest = "[]", simplified]

lemma Put_Uint16: "length bs = 2 \<Longrightarrow> PutUint16 (Uint16 bs) = bs"
proof -
  assume "length bs = 2"
  moreover have "be_value bs < 256 ^ length bs" by (rule be_value_less)
  ultimately show ?thesis
    using be_bytes_value [of bs]
    by (simp add: PutUint16_def Uint16_def unat_of_nat take_bit_nat_eq_self)
qed

lemma Put_Uint32: "length bs = 4 \<Longrightarrow> PutUint32 (Uint32 bs) = bs"
proof -
  assume "length bs = 4"
  moreover have "be_value bs < 256 ^ length bs" by (rule be_value_less)
  ultimately show ?thesis
    using be_bytes_value [of bs]
    by (simp add: PutUint32_def Uint32_def unat_of_nat take_bit_nat_eq_self)
qed

lemma Put_Uint64: "length bs = 8 \<Longrightarrow> PutUint64 (Uint64 bs) = bs"
proof -
  assume "length bs = 8"
  moreover have "be_value bs < 256 ^ length bs" by (rule be_value_less)
  ultimately show ?thesis
    using be_bytes_value [of bs]
    by (simp add: PutUint64_def Uint64_def unat_of_nat take_bit_nat_eq_self)
qed

lemma Uint16_take: "2 \<le> n \<Longrightarrow> Uint16 (take n bs) = Uint16 bs"
  by (simp add: Uint16_def min_def)

lemma Uint32_take: "4 \<le> n \<Longrightarrow> Uint32 (take n bs) = Uint32 bs"
  by (simp add: Uint32_def min_def)

lemma Uint64_take: "8 \<le> n \<Longrightarrow> Uint64 (take n bs) = Uint64 bs"
  by (simp add: Uint64_def min_def)

lemma unat_Uint16_less: "unat (Uint16 bs) < 65536"
  using unsigned_less [where 'a = nat, of "Uint16 bs"] by simp

lemma unat_of_nat_u16: "n < 65536 \<Longrightarrow> unat (word_of_nat n :: u16) = n"
  by (simp add: unat_of_nat take_bit_nat_eq_self)

lemma unat_of_nat_u32: "n < 4294967296 \<Longrightarrow> unat (word_of_nat n :: u32) = n"
  by (simp add: unat_of_nat take_bit_nat_eq_self)

end
