(* ===== verification/GoIO.thy ===== *)
theory GoIO
  imports Bytes
begin

text \<open>
  Byte-stream endpoints.  A \<open>conn\<close> is one end of an \<open>io.ReadWriter\<close>: the bytes the peer
  still delivers and the error that follows them, the bytes written so far, and the outcomes
  of the coming \<open>Write\<close> calls (how many bytes each accepts and with which error; when the
  script is exhausted every \<open>Write\<close> accepts its whole argument).  \<open>readFull\<close> is
  \<open>io.ReadFull\<close>.  The three retry loops of the program around \<open>Write\<close> are modelled over an
  arbitrary writer; the locale \<open>io_writer\<close> states the part of the \<open>io.Writer\<close> contract they
  rely on and holds their correctness, and it is interpreted on \<open>conn_write\<close>.
\<close>

record conn =
  inbuf :: bytes
  inerr :: goerr
  outbuf :: bytes
  wscript :: "(nat \<times> goerr option) list"

definition fresh_conn :: "bytes \<Rightarrow> conn" where
  "fresh_conn input = \<lparr>inbuf = input, inerr = IoEOF, outbuf = [], wscript = []\<rparr>"

definition readFull :: "nat \<Rightarrow> conn \<Rightarrow> conn \<times> bytes result" where
  "readFull n c =
     (if n \<le> length (inbuf c)
      then (c\<lparr>inbuf := drop n (inbuf c)\<rparr>, Inr (take n (inbuf c)))
      else (c\<lparr>inbuf := []\<rparr>,
            Inl (if inbuf c \<noteq> [] \<and> inerr c = IoEOF then IoErrUnexpectedEOF else inerr c)))"

definition conn_write :: "conn \<Rightarrow> bytes \<Rightarrow> conn \<times> int \<times> goerr option" where
  "conn_write c p =
     (case wscript c of
        [] \<Rightarrow> (c\<lparr>outbuf := outbuf c @ p\<rparr>, int (length p), None)
      | (n, e) # rest \<Rightarrow>
          (c\<lparr>outbuf := outbuf c @ take n p, wscript := rest\<rparr>, int (min n (length p)), e))"

text \<open>\<open>protocol.writeFull\<close> (src/internal/protocol/frame.go).\<close>

function writeFull ::
  "('s \<Rightarrow> bytes \<Rightarrow> 's \<times> int \<times> goerr option) \<Rightarrow> 's \<Rightarrow> bytes \<Rightarrow> 's \<times> goerr option" where
  "writeFull wr s p =
     (if p = [] then (s, None)
      else case wr s p of (s', n, err) \<Rightarrow>
        (case err of
           Some e \<Rightarrow> (s', Some e)
         | None \<Rightarrow>
             if n = 0 then (s', Some IoErrShortWrite)
             else if n < 0 \<or> int (length p) < n then (s', Some GoPanic)
             else writeFull wr s' (drop (nat n) p)))"
  by pat_completeness auto
termination
  by (relation "measure (\<lambda>(wr, s, p). length p)") auto

text \<open>\<open>attach.writeFull\<close> (src/internal/transport/attach/wire.go).\<close>

function attach_writeFull ::
  "('s \<Rightarrow> bytes \<Rightarrow> 's \<times> int \<times> goerr option) \<Rightarrow> 's \<Rightarrow> bytes \<Rightarrow> 's \<times> goerr option" where
  "attach_writeFull wr s p =
     (if p = [] then (s, None)
      else case wr s p of (s', n, err) \<Rightarrow>
        (case err of
           Some e \<Rightarrow> (s', Some e)
         | None \<Rightarrow>
             if n \<le> 0 \<or> int (length p) < n then (s', Some IoErrShortWrite)
             else attach_writeFull wr s' (drop (nat n) p)))"
  by pat_completeness auto
termination
  by (relation "measure (\<lambda>(wr, s, p). length p)") auto

declare writeFull.simps [simp del] attach_writeFull.simps [simp del]

locale io_writer =
  fixes wr :: "'s \<Rightarrow> bytes \<Rightarrow> 's \<times> int \<times> goerr option"
    and out :: "'s \<Rightarrow> bytes"
  assumes write_range: "wr s p = (s', n, e) \<Longrightarrow> 0 \<le> n \<and> n \<le> int (length p)"
    and write_out: "wr s p = (s', n, e) \<Longrightarrow> out s' = out s @ take (nat n) p"
begin

text \<open>
  One unfolding of each loop: either the argument is empty, or a call fails, or it accepts a
  non-empty prefix and the loop goes on with the rest.
\<close>

lemma writeFull_step:
  assumes "p \<noteq> []" and "wr s p = (s', n, e)"
  shows "writeFull wr s p =
    (case e of Some x \<Rightarrow> (s', Some x)
     | None \<Rightarrow> if n = 0 then (s', Some IoErrShortWrite)
               else writeFull wr s' (drop (nat n) p))"
  using assms write_range [OF assms(2)]
  by (subst writeFull.simps) (auto split: option.splits)

text \<open>Both loops agree on a writer that keeps the contract.\<close>

lemma attach_writeFull_eq: "attach_writeFull wr s p = writeFull wr s p"
proof (induction p arbitrary: s rule: length_induct)
  case (1 p)
  obtain s' n e where w: "wr s p = (s', n, e)" by (cases "wr s p") auto
  show ?case
  proof (cases "p = []")
    case True
    then show ?thesis by (simp add: writeFull.simps attach_writeFull.simps)
  next
    case False
    have "attach_writeFull wr s' (drop (nat n) p) = writeFull wr s' (drop (nat n) p)" if "0 < n"
      using "1.IH" False that by simp
    with False w write_range [OF w] show ?thesis
      by (subst attach_writeFull.simps) (auto simp: writeFull_step [OF False w] split: option.splits)
  qed
qed

text \<open>
  Whatever the outcome, what reached the writer is a prefix of the argument, and on success
  it is all of it.
\<close>

lemma writeFull_prefix:
  "writeFull wr s p = (s', r) \<Longrightarrow>
     \<exists>k\<le>length p. out s' = out s @ take k p \<and> (r = None \<longrightarrow> k = length p)"
proof (induction p arbitrary: s rule: length_induct)
  case (1 p)
  obtain s1 n e where w: "wr s p = (s1, n, e)" by (cases "wr s p") auto
  note rng = write_range [OF w] and o = write_out [OF w]
  consider "p = []" | "p \<noteq> []" "e \<noteq> None \<or> n = 0" | "p \<noteq> []" "e = None" "0 < n"
    using rng by force
  then show ?case
  proof cases
    case 1
    then show ?thesis using "1.prems" by (auto simp: writeFull.simps)
  next
    case 2
    then have "s' = s1" and "r \<noteq> None"
      using "1.prems" by (auto simp: writeFull_step [OF _ w] split: option.splits)
    then show ?thesis using o rng by (intro exI [of _ "nat n"]) auto
  next
    case 3
    then have rest: "writeFull wr s1 (drop (nat n) p) = (s', r)"
      using "1.prems" by (simp add: writeFull_step [OF _ w])
    have "length (drop (nat n) p) < length p" using 3 by simp
    then obtain k where k: "k \<le> length (drop (nat n) p)"
      "out s' = out s1 @ take k (drop (nat n) p)"
      "r = None \<longrightarrow> k = length (drop (nat n) p)"
      using "1.IH" rest by blast
    then have "out s' = out s @ take (nat n + k) p"
      using o by (simp add: take_add)
    with k rng show ?thesis by (intro exI [of _ "nat n + k"]) auto
  qed
qed

lemma writeFull_complete: "writeFull wr s p = (s', None) \<Longrightarrow> out s' = out s @ p"
  using writeFull_prefix [of s p s' None] by auto

end

interpretation conn: io_writer conn_write outbuf
proof unfold_locales
  fix s p s' n e
  assume "conn_write s p = (s', n, e)"
  then show "0 \<le> n \<and> n \<le> int (length p)"
    and "outbuf s' = outbuf s @ take (nat n) p"
    by (auto simp: conn_write_def min_def split: list.splits prod.splits)
qed

section \<open>Endpoints that accept every byte\<close>

lemma readFull_enough:
  "inbuf c = xs @ ys \<Longrightarrow> length xs = n \<Longrightarrow> readFull n c = (c\<lparr>inbuf := ys\<rparr>, Inr xs)"
  by (auto simp: readFull_def)

lemma readFull_Inr:
  "readFull n c = (c', Inr xs) \<longleftrightarrow>
     n \<le> length (inbuf c) \<and> xs = take n (inbuf c) \<and> c' = c\<lparr>inbuf := drop n (inbuf c)\<rparr>"
  by (auto simp: readFull_def)

lemma readFull_Inr_append:
  "readFull n c = (c', Inr xs) \<Longrightarrow> inbuf c = xs @ inbuf c' \<and> length xs = n"
  by (auto simp: readFull_def split: if_splits)

lemma writeFull_idle:
  assumes "wscript c = []"
  shows "writeFull conn_write c p = (c\<lparr>outbuf := outbuf c @ p\<rparr>, None)"
proof (cases "p = []")
  case True
  then show ?thesis by (simp add: writeFull.simps)
next
  case False
  with assms show ?thesis
    by (simp add: conn_write_def writeFull.simps [of _ c p] writeFull.simps [of _ _ "[]"])
qed

lemma attach_writeFull_idle:
  "wscript c = [] \<Longrightarrow> attach_writeFull conn_write c p = (c\<lparr>outbuf := outbuf c @ p\<rparr>, None)"
  by (simp add: conn.attach_writeFull_eq writeFull_idle)

text \<open>
  A transport that only fragments writes: every scripted call accepts at least one byte and
  reports no error.  The loops then deliver everything.
\<close>

definition only_fragments :: "conn \<Rightarrow> bool" where
  "only_fragments c \<longleftrightarrow> (\<forall>(n, e) \<in> set (wscript c). 0 < n \<and> e = None)"

lemma only_fragments_write:
  assumes "only_fragments c" and "p \<noteq> []"
  shows "\<exists>c' n. conn_write c p = (c', n, None) \<and> 0 < n \<and> only_fragments c'
           \<and> inbuf c' = inbuf c \<and> inerr c' = inerr c"
  using assms by (auto simp: only_fragments_def conn_write_def split: list.splits prod.splits)

lemma writeFull_only_fragments:
  "only_fragments c \<Longrightarrow> \<exists>c'. writeFull conn_write c p = (c', None) \<and> only_fragments c'
     \<and> outbuf c' = outbuf c @ p \<and> inbuf c' = inbuf c \<and> inerr c' = inerr c"
proof (induction p arbitrary: c rule: length_induct)
  case (1 p)
  show ?case
  proof (cases "p = []")
    case True
    with "1.prems" show ?thesis by (simp add: writeFull.simps)
  next
    case False
    then obtain c1 n where w: "conn_write c p = (c1, n, None)" "0 < n" "only_fragments c1"
      "inbuf c1 = inbuf c" "inerr c1 = inerr c"
      using only_fragments_write "1.prems" by blast
    have "length (drop (nat n) p) < length p" using w(2) False by simp
    then obtain c2 where c2: "writeFull conn_write c1 (drop (nat n) p) = (c2, None)"
      "only_fragments c2" "inbuf c2 = inbuf c1" "inerr c2 = inerr c1"
      using "1.IH" w(3) by blast
    have eq: "writeFull conn_write c p = (c2, None)"
      using w(2) c2(1) by (simp add: conn.writeFull_step [OF False w(1)])
    with conn.writeFull_complete [OF eq] c2 w show ?thesis by simp
  qed
qed

end
