(* ===== verification/Codec.thy ===== *)
theory Codec
  imports GoIO
begin

text \<open>
  The interface the two message layers of the program share: a message is encoded as a byte
  string and decoded by a reader that consumes exactly those bytes.  The relay frames
  (\<open>Protocol\<close>) and the attach-control messages (\<open>AttachWire\<close>) interpret this locale, so the
  facts about whole message sequences are proved once.
\<close>

text \<open>Read \<open>n\<close> messages in a row, stopping at the first error.\<close>

fun read_many :: "(conn \<Rightarrow> conn \<times> 'm result) \<Rightarrow> nat \<Rightarrow> conn \<Rightarrow> conn \<times> 'm list result" where
  "read_many dec 0 c = (c, Inr [])"
| "read_many dec (Suc n) c =
     (case dec c of
        (c1, Inl e) \<Rightarrow> (c1, Inl e)
      | (c1, Inr m) \<Rightarrow>
          (case read_many dec n c1 of
             (c2, Inl e) \<Rightarrow> (c2, Inl e)
           | (c2, Inr ms) \<Rightarrow> (c2, Inr (m # ms))))"

locale stream_codec =
  fixes enc :: "'m \<Rightarrow> bytes"
    and dec :: "conn \<Rightarrow> conn \<times> 'm result"
    and ok :: "'m \<Rightarrow> bool"
  assumes dec_enc: "ok m \<Longrightarrow> inbuf c = enc m @ rest \<Longrightarrow> dec c = (c\<lparr>inbuf := rest\<rparr>, Inr m)"
begin

text \<open>Messages written back to back are read back one by one, in order.\<close>

lemma read_many_concat:
  "(\<And>m. m \<in> set ms \<Longrightarrow> ok m) \<Longrightarrow> inbuf c = concat (map enc ms) @ rest \<Longrightarrow>
     read_many dec (length ms) c = (c\<lparr>inbuf := rest\<rparr>, Inr ms)"
proof (induction ms arbitrary: c)
  case Nil
  then show ?case by (cases c) simp
next
  case (Cons m ms)
  let ?tail = "concat (map enc ms) @ rest"
  have d: "dec c = (c\<lparr>inbuf := ?tail\<rparr>, Inr m)"
    using Cons.prems by (intro dec_enc) simp_all
  have "read_many dec (length ms) (c\<lparr>inbuf := ?tail\<rparr>)
      = (c\<lparr>inbuf := ?tail\<rparr>\<lparr>inbuf := rest\<rparr>, Inr ms)"
    using Cons.prems by (intro Cons.IH) simp_all
  with d show ?case by simp
qed

text \<open>The encoding is unambiguous: no boundary can be misread.\<close>

lemma enc_unique:
  assumes "ok m" and "ok m'" and eq: "enc m @ rest = enc m' @ rest'"
  shows "m = m' \<and> rest = rest'"
proof -
  define c where "c = fresh_conn (enc m @ rest)"
  have i: "inbuf c = enc m @ rest" and i': "inbuf c = enc m' @ rest'"
    using eq by (simp_all add: c_def fresh_conn_def)
  have "(c\<lparr>inbuf := rest\<rparr>, Inr m) = (c\<lparr>inbuf := rest'\<rparr>, Inr m' :: 'm result)"
    unfolding dec_enc [OF assms(1) i, symmetric] by (rule dec_enc [OF assms(2) i'])
  then show ?thesis by (cases c) simp
qed

end

end
