(* ===== verification/Protocol.thy ===== *)
theory Protocol
  imports Codec Diagnostic
begin

text \<open>
  Package protocol (src/internal/protocol): the relay frames that multiplex TCP streams,
  listeners and datagram associations over one byte stream, with their size rules, and the
  payload codecs for capabilities, datagrams and window updates.
\<close>

section \<open>Constants\<close>

abbreviation Version :: byte where "Version \<equiv> 1"
abbreviation HeaderSize :: nat where "HeaderSize \<equiv> 16"
abbreviation MaxPayloadSize :: nat where "MaxPayloadSize \<equiv> 1048576"
abbreviation MaxTargetSize :: nat where "MaxTargetSize \<equiv> 4096"
abbreviation MaxErrorSize :: nat where "MaxErrorSize \<equiv> 4096"
abbreviation MaxDataSize :: nat where "MaxDataSize \<equiv> 32768"
abbreviation MaxDatagramSize :: nat where "MaxDatagramSize \<equiv> 69633"
abbreviation InitialStreamWindow :: nat where "InitialStreamWindow \<equiv> 262144"

definition magic :: bytes where "magic = [87, 87, 82, 49]"

text \<open>\<open>Type\<close> is a \<open>uint8\<close> that holds any byte until it is validated.\<close>

abbreviation TypeOpen :: byte where "TypeOpen \<equiv> 1"
abbreviation TypeOpenOK :: byte where "TypeOpenOK \<equiv> 2"
abbreviation TypeOpenError :: byte where "TypeOpenError \<equiv> 3"
abbreviation TypeData :: byte where "TypeData \<equiv> 4"
abbreviation TypeHalfClose :: byte where "TypeHalfClose \<equiv> 5"
abbreviation TypeClose :: byte where "TypeClose \<equiv> 6"
abbreviation TypeReset :: byte where "TypeReset \<equiv> 7"
abbreviation TypeListenOpen :: byte where "TypeListenOpen \<equiv> 8"
abbreviation TypeListenOK :: byte where "TypeListenOK \<equiv> 9"
abbreviation TypeListenError :: byte where "TypeListenError \<equiv> 10"
abbreviation TypeInboundOpen :: byte where "TypeInboundOpen \<equiv> 11"
abbreviation TypeListenClose :: byte where "TypeListenClose \<equiv> 12"
abbreviation TypeListenCommit :: byte where "TypeListenCommit \<equiv> 13"
abbreviation TypeDatagramOpen :: byte where "TypeDatagramOpen \<equiv> 14"
abbreviation TypeDatagramOK :: byte where "TypeDatagramOK \<equiv> 15"
abbreviation TypeDatagramError :: byte where "TypeDatagramError \<equiv> 16"
abbreviation TypeDatagramData :: byte where "TypeDatagramData \<equiv> 17"
abbreviation TypeDatagramClose :: byte where "TypeDatagramClose \<equiv> 18"
abbreviation TypeWindowUpdate :: byte where "TypeWindowUpdate \<equiv> 19"
abbreviation TypeHello :: byte where "TypeHello \<equiv> 20"
abbreviation TypeHelloOK :: byte where "TypeHelloOK \<equiv> 21"
abbreviation TypeListenDatagramOpen :: byte where "TypeListenDatagramOpen \<equiv> 22"
abbreviation TypeListenDatagramOK :: byte where "TypeListenDatagramOK \<equiv> 23"
abbreviation TypeListenDatagramError :: byte where "TypeListenDatagramError \<equiv> 24"
abbreviation TypeListenDatagramData :: byte where "TypeListenDatagramData \<equiv> 25"
abbreviation TypeListenDatagramClose :: byte where "TypeListenDatagramClose \<equiv> 26"

record Frame =
  fType :: byte
  fStreamID :: u32
  fPayload :: bytes

section \<open>Frame validation\<close>

definition knownType :: "byte \<Rightarrow> bool" where
  "knownType t \<longleftrightarrow> TypeOpen \<le> t \<and> t \<le> TypeListenDatagramClose"

definition isErrorType :: "byte \<Rightarrow> bool" where
  "isErrorType kind \<longleftrightarrow>
     kind \<in> {TypeOpenError, TypeReset, TypeListenError, TypeDatagramError,
             TypeListenDatagramError}"

definition emptyPayloadType :: "byte \<Rightarrow> bool" where
  "emptyPayloadType kind \<longleftrightarrow>
     kind \<in> {TypeOpenOK, TypeHalfClose, TypeClose, TypeListenClose, TypeListenCommit,
             TypeDatagramOpen, TypeDatagramOK, TypeDatagramClose, TypeListenDatagramClose}"

definition validateFrameMetadata :: "byte \<Rightarrow> u32 \<Rightarrow> nat \<Rightarrow> goerr option" where
  "validateFrameMetadata kind streamID payloadLength =
     (if streamID = 0 \<and> kind \<noteq> TypeHello \<and> kind \<noteq> TypeHelloOK
      then Some (ErrText (str ''stream id must be non-zero''))
      else if (kind = TypeHello \<or> kind = TypeHelloOK) \<and> streamID \<noteq> 0
      then Some (ErrText (str ''hello frames must use stream id zero''))
      else if \<not> knownType kind
      then Some (ErrText (str ''unknown frame type '' @ decimal (unat kind)))
      else if MaxPayloadSize < payloadLength
      then Some (ErrText (str ''payload exceeds 1048576 bytes''))
      else if emptyPayloadType kind \<and> payloadLength \<noteq> 0
      then Some (ErrText (str ''frame type '' @ decimal (unat kind)
                          @ str '' must have an empty payload''))
      else if (kind = TypeListenOK \<or> kind = TypeListenDatagramOK) \<and> MaxTargetSize < payloadLength
      then Some (ErrText (str ''bound listen address exceeds 4096 bytes''))
      else if isErrorType kind \<and> MaxErrorSize < payloadLength
      then Some (ErrText (str ''error payload exceeds 4096 bytes''))
      else if kind = TypeOpen \<and> (payloadLength = 0 \<or> MaxTargetSize < payloadLength)
      then Some (ErrText (str ''open target must be between 1 and 4096 bytes''))
      else if kind = TypeListenOpen \<and> (payloadLength = 0 \<or> MaxTargetSize < payloadLength)
      then Some (ErrText (str ''listen address must be between 1 and 4096 bytes''))
      else if kind = TypeListenDatagramOpen \<and> (payloadLength = 0 \<or> MaxTargetSize < payloadLength)
      then Some (ErrText (str ''datagram listen address must be between 1 and 4096 bytes''))
      else if kind = TypeInboundOpen \<and> payloadLength \<noteq> 4
      then Some (ErrText (str ''inbound open must contain a listener id''))
      else if kind = TypeDatagramData \<and> (payloadLength < 3 \<or> MaxDatagramSize < payloadLength)
      then Some (ErrText (str ''datagram data must be between 3 and 69633 bytes''))
      else if kind = TypeListenDatagramData \<and> (payloadLength < 3 \<or> MaxDatagramSize < payloadLength)
      then Some (ErrText (str ''reverse datagram data must be between 3 and 69633 bytes''))
      else if kind = TypeData \<and> (payloadLength = 0 \<or> MaxDataSize < payloadLength)
      then Some (ErrText (str ''stream data must be between 1 and 32768 bytes''))
      else if kind = TypeWindowUpdate \<and> payloadLength \<noteq> 4
      then Some (ErrText (str ''window update must contain a byte count''))
      else if kind = TypeHello \<and> payloadLength \<noteq> 8
      then Some (ErrText (str ''hello frame must contain capabilities''))
      else if kind = TypeHelloOK \<and> payloadLength \<noteq> 8 \<and> payloadLength \<noteq> 16
      then Some (ErrText (str ''hello response must contain 8 or 16 bytes''))
      else None)"

definition Validate :: "Frame \<Rightarrow> goerr option" where
  "Validate f = validateFrameMetadata (fType f) (fStreamID f) (length (fPayload f))"

text \<open>\<open>ErrorPayload\<close>: the bounded text of a locally generated error (\<open>None\<close> is Go's nil).\<close>

definition ErrorPayload :: "goerr option \<Rightarrow> bytes" where
  "ErrorPayload err =
     (case err of None \<Rightarrow> [] | Some e \<Rightarrow> UTF8 (error_text e) (int MaxErrorSize))"

section \<open>Writing and reading frames\<close>

definition frame_header :: "Frame \<Rightarrow> bytes" where
  "frame_header f =
     magic @ [Version, fType f, 0, 0] @ PutUint32 (fStreamID f)
       @ PutUint32 (word_of_nat (length (fPayload f)))"

definition frame_bytes :: "Frame \<Rightarrow> bytes" where
  "frame_bytes f = frame_header f @ fPayload f"

definition protocol_Write ::
  "('s \<Rightarrow> bytes \<Rightarrow> 's \<times> int \<times> goerr option) \<Rightarrow> 's \<Rightarrow> Frame \<Rightarrow> 's \<times> goerr option" where
  "protocol_Write wr w f =
     (case Validate f of
        Some e \<Rightarrow> (w, Some e)
      | None \<Rightarrow>
          (case writeFull wr w (frame_header f) of
             (w1, Some e) \<Rightarrow> (w1, Some e)
           | (w1, None) \<Rightarrow> writeFull wr w1 (fPayload f)))"

definition protocol_Read :: "conn \<Rightarrow> conn \<times> Frame result" where
  "protocol_Read r =
     (case readFull HeaderSize r of
        (r1, Inl e) \<Rightarrow> (r1, Inl e)
      | (r1, Inr header) \<Rightarrow>
          if take 4 header \<noteq> magic
          then (r1, Inl (ErrText (str ''invalid protocol magic'')))
          else if header ! 4 \<noteq> Version
          then (r1, Inl (ErrText (str ''unsupported protocol version ''
                                  @ decimal (unat (header ! 4)))))
          else
            let kind = header ! 5;
                streamID = Uint32 (drop 8 header);
                n = unat (Uint32 (drop 12 header))
            in (case validateFrameMetadata kind streamID n of
                  Some e \<Rightarrow> (r1, Inl e)
                | None \<Rightarrow>
                    (case readFull n r1 of
                       (r2, Inl e) \<Rightarrow> (r2, Inl e)
                     | (r2, Inr payload) \<Rightarrow>
                         let f = \<lparr>fType = kind, fStreamID = streamID, fPayload = payload\<rparr>
                         in (case Validate f of
                               Some e \<Rightarrow> (r2, Inl e)
                             | None \<Rightarrow> (r2, Inr f)))))"

section \<open>Payload codecs\<close>

abbreviation CapabilityTCP :: u64 where "CapabilityTCP \<equiv> 1"
abbreviation CapabilityReverse :: u64 where "CapabilityReverse \<equiv> 2"
abbreviation CapabilityReverseUDP :: u64 where "CapabilityReverseUDP \<equiv> 4"
abbreviation CapabilityReserveCommit :: u64 where "CapabilityReserveCommit \<equiv> 8"
abbreviation CapabilityUDP :: u64 where "CapabilityUDP \<equiv> 16"
abbreviation CapabilityFlowControl :: u64 where "CapabilityFlowControl \<equiv> 32"
abbreviation CapabilityListenBoundAddress :: u64 where "CapabilityListenBoundAddress \<equiv> 64"
abbreviation CoreCapabilities :: u64 where "CoreCapabilities \<equiv> 63"
abbreviation AllCapabilities :: u64 where "AllCapabilities \<equiv> 127"

definition EncodeCapabilities :: "u64 \<Rightarrow> bytes" where
  "EncodeCapabilities capabilities = PutUint64 capabilities"

definition DecodeCapabilities :: "bytes \<Rightarrow> u64" where
  "DecodeCapabilities payload = (if length payload \<noteq> 8 then 0 else Uint64 payload)"

definition EncodeHelloOK :: "u64 \<Rightarrow> u64 \<Rightarrow> bytes" where
  "EncodeHelloOK capabilities instanceID =
     (if instanceID = 0 then EncodeCapabilities capabilities
      else PutUint64 capabilities @ PutUint64 instanceID)"

definition DecodeHelloOK :: "bytes \<Rightarrow> (u64 \<times> u64) result" where
  "DecodeHelloOK payload =
     (if length payload \<noteq> 8 \<and> length payload \<noteq> 16
      then Inl (ErrText (str ''hello response must contain capabilities and optional instance id''))
      else if length payload = 8 then Inr (Uint64 payload, 0)
      else Inr (Uint64 payload, Uint64 (drop 8 payload)))"

definition EncodeDatagram :: "bytes \<Rightarrow> bytes \<Rightarrow> bytes result" where
  "EncodeDatagram endpoint data =
     (if length endpoint = 0 \<or> MaxTargetSize < length endpoint
      then Inl (ErrText (str ''invalid datagram endpoint length''))
      else if MaxDatagramSize < length endpoint + 2 + length data
      then Inl (ErrText (str ''datagram exceeds 69633 bytes''))
      else Inr (PutUint16 (word_of_nat (length endpoint)) @ endpoint @ data))"

definition DecodeDatagram :: "bytes \<Rightarrow> (bytes \<times> bytes) result" where
  "DecodeDatagram payload =
     (if length payload < 3 then Inl (ErrText (str ''truncated datagram''))
      else if MaxDatagramSize < length payload then Inl (ErrText (str ''oversized datagram''))
      else let n = unat (Uint16 payload) in
        if n = 0 \<or> MaxTargetSize < n \<or> length payload < 2 + n
        then Inl (ErrText (str ''invalid datagram endpoint''))
        else Inr (take n (drop 2 payload), drop (2 + n) payload))"

definition EncodeWindowUpdate :: "u32 \<Rightarrow> bytes" where
  "EncodeWindowUpdate count = PutUint32 count"

definition DecodeWindowUpdate :: "bytes \<Rightarrow> u32" where
  "DecodeWindowUpdate payload = (if length payload \<noteq> 4 then 0 else Uint32 payload)"

section \<open>Validation facts\<close>

text \<open>The rule of each frame type, as the receiver and the sender enforce it.\<close>

lemma frame_rules:
  "validateFrameMetadata TypeOpen s n = None \<longleftrightarrow> s \<noteq> 0 \<and> 0 < n \<and> n \<le> MaxTargetSize"
  "validateFrameMetadata TypeOpenOK s n = None \<longleftrightarrow> s \<noteq> 0 \<and> n = 0"
  "validateFrameMetadata TypeOpenError s n = None \<longleftrightarrow> s \<noteq> 0 \<and> n \<le> MaxErrorSize"
  "validateFrameMetadata TypeData s n = None \<longleftrightarrow> s \<noteq> 0 \<and> 0 < n \<and> n \<le> MaxDataSize"
  "validateFrameMetadata TypeHalfClose s n = None \<longleftrightarrow> s \<noteq> 0 \<and> n = 0"
  "validateFrameMetadata TypeClose s n = None \<longleftrightarrow> s \<noteq> 0 \<and> n = 0"
  "validateFrameMetadata TypeReset s n = None \<longleftrightarrow> s \<noteq> 0 \<and> n \<le> MaxErrorSize"
  "validateFrameMetadata TypeListenOpen s n = None \<longleftrightarrow> s \<noteq> 0 \<and> 0 < n \<and> n \<le> MaxTargetSize"
  "validateFrameMetadata TypeListenOK s n = None \<longleftrightarrow> s \<noteq> 0 \<and> n \<le> MaxTargetSize"
  "validateFrameMetadata TypeListenError s n = None \<longleftrightarrow> s \<noteq> 0 \<and> n \<le> MaxErrorSize"
  "validateFrameMetadata TypeInboundOpen s n = None \<longleftrightarrow> s \<noteq> 0 \<and> n = 4"
  "validateFrameMetadata TypeListenClose s n = None \<longleftrightarrow> s \<noteq> 0 \<and> n = 0"
  "validateFrameMetadata TypeListenCommit s n = None \<longleftrightarrow> s \<noteq> 0 \<and> n = 0"
  "validateFrameMetadata TypeDatagramOpen s n = None \<longleftrightarrow> s \<noteq> 0 \<and> n = 0"
  "validateFrameMetadata TypeDatagramOK s n = None \<longleftrightarrow> s \<noteq> 0 \<and> n = 0"
  "validateFrameMetadata TypeDatagramError s n = None \<longleftrightarrow> s \<noteq> 0 \<and> n \<le> MaxErrorSize"
  "validateFrameMetadata TypeDatagramData s n = None \<longleftrightarrow> s \<noteq> 0 \<and> 3 \<le> n \<and> n \<le> MaxDatagramSize"
  "validateFrameMetadata TypeDatagramClose s n = None \<longleftrightarrow> s \<noteq> 0 \<and> n = 0"
  "validateFrameMetadata TypeWindowUpdate s n = None \<longleftrightarrow> s \<noteq> 0 \<and> n = 4"
  "validateFrameMetadata TypeHello s n = None \<longleftrightarrow> s = 0 \<and> n = 8"
  "validateFrameMetadata TypeHelloOK s n = None \<longleftrightarrow> s = 0 \<and> (n = 8 \<or> n = 16)"
  "validateFrameMetadata TypeListenDatagramOpen s n = None \<longleftrightarrow> s \<noteq> 0 \<and> 0 < n \<and> n \<le> MaxTargetSize"
  "validateFrameMetadata TypeListenDatagramOK s n = None \<longleftrightarrow> s \<noteq> 0 \<and> n \<le> MaxTargetSize"
  "validateFrameMetadata TypeListenDatagramError s n = None \<longleftrightarrow> s \<noteq> 0 \<and> n \<le> MaxErrorSize"
  "validateFrameMetadata TypeListenDatagramData s n = None \<longleftrightarrow> s \<noteq> 0 \<and> 3 \<le> n \<and> n \<le> MaxDatagramSize"
  "validateFrameMetadata TypeListenDatagramClose s n = None \<longleftrightarrow> s \<noteq> 0 \<and> n = 0"
  by (auto simp: validateFrameMetadata_def knownType_def isErrorType_def emptyPayloadType_def)

lemma frame_rule_unknown: "\<not> knownType k \<Longrightarrow> validateFrameMetadata k s n \<noteq> None"
  by (simp add: validateFrameMetadata_def)

lemma Validate_bound: "Validate f = None \<Longrightarrow> length (fPayload f) \<le> MaxPayloadSize"
  by (auto simp: Validate_def validateFrameMetadata_def split: if_splits)

lemma validate_bound: "validateFrameMetadata k s n = None \<Longrightarrow> n \<le> MaxPayloadSize"
  by (auto simp: validateFrameMetadata_def split: if_splits)

lemma length_header [simp]: "length (frame_header f) = 16"
  by (simp add: frame_header_def magic_def)

lemma header_parts:
  "take 4 (frame_header f) = magic"
  "frame_header f ! 4 = Version"
  "frame_header f ! 5 = fType f"
  "Uint32 (drop 8 (frame_header f)) = fStreamID f"
  "Uint32 (drop 12 (frame_header f)) = word_of_nat (length (fPayload f))"
  by (simp_all add: frame_header_def magic_def)

lemma protocol_Read_frame_bytes:
  assumes v: "Validate f = None" and i: "inbuf c = frame_bytes f @ rest"
  shows "protocol_Read c = (c\<lparr>inbuf := rest\<rparr>, Inr f)"
proof -
  have n: "unat (word_of_nat (length (fPayload f)) :: u32) = length (fPayload f)"
    using Validate_bound [OF v] by (intro unat_of_nat_u32) simp
  have h: "readFull HeaderSize c = (c\<lparr>inbuf := fPayload f @ rest\<rparr>, Inr (frame_header f))"
    using i by (intro readFull_enough) (simp_all add: frame_bytes_def)
  have p: "readFull (length (fPayload f)) (c\<lparr>inbuf := fPayload f @ rest\<rparr>)
      = (c\<lparr>inbuf := rest\<rparr>, Inr (fPayload f))"
    using readFull_enough [of "c\<lparr>inbuf := fPayload f @ rest\<rparr>" "fPayload f" rest] by simp
  have m: "validateFrameMetadata (fType f) (fStreamID f) (length (fPayload f)) = None"
    using v by (simp add: Validate_def)
  have r: "\<lparr>fType = fType f, fStreamID = fStreamID f, fPayload = fPayload f\<rparr> = f"
    by (cases f) simp
  show ?thesis
    by (simp add: protocol_Read_def h header_parts n m p Let_def r v)
qed

interpretation frames: stream_codec frame_bytes protocol_Read "\<lambda>f. Validate f = None"
  by unfold_locales (rule protocol_Read_frame_bytes)

lemma protocol_Write_only_fragments:
  assumes "only_fragments w" and "Validate f = None"
  shows "\<exists>w'. protocol_Write conn_write w f = (w', None) \<and> only_fragments w'
           \<and> outbuf w' = outbuf w @ frame_bytes f \<and> inbuf w' = inbuf w \<and> inerr w' = inerr w"
proof -
  obtain w1 where w1: "writeFull conn_write w (frame_header f) = (w1, None)" "only_fragments w1"
    "outbuf w1 = outbuf w @ frame_header f" "inbuf w1 = inbuf w" "inerr w1 = inerr w"
    using writeFull_only_fragments [OF assms(1)] by blast
  obtain w2 where w2: "writeFull conn_write w1 (fPayload f) = (w2, None)" "only_fragments w2"
    "outbuf w2 = outbuf w1 @ fPayload f" "inbuf w2 = inbuf w1" "inerr w2 = inerr w1"
    using writeFull_only_fragments [OF w1(2)] by blast
  show ?thesis
    using w1 w2 assms(2) by (simp add: protocol_Write_def frame_bytes_def)
qed

lemma protocol_Write_idle:
  "wscript w = [] \<Longrightarrow> Validate f = None \<Longrightarrow>
     protocol_Write conn_write w f = (w\<lparr>outbuf := outbuf w @ frame_bytes f\<rparr>, None)"
  by (simp add: protocol_Write_def writeFull_idle frame_bytes_def)

lemma protocol_Write_complete:
  "protocol_Write conn_write w f = (w', None) \<Longrightarrow>
     Validate f = None \<and> outbuf w' = outbuf w @ frame_bytes f"
  by (auto simp: protocol_Write_def frame_bytes_def split: option.splits prod.splits
      dest!: conn.writeFull_complete)

text \<open>Writing a list of frames, stopping at the first error.\<close>

fun write_frames :: "conn \<Rightarrow> Frame list \<Rightarrow> conn \<times> goerr option" where
  "write_frames w [] = (w, None)"
| "write_frames w (f # fs) =
     (case protocol_Write conn_write w f of
        (w1, Some e) \<Rightarrow> (w1, Some e)
      | (w1, None) \<Rightarrow> write_frames w1 fs)"

lemma write_frames_out:
  "only_fragments w \<Longrightarrow> (\<And>f. f \<in> set fs \<Longrightarrow> Validate f = None) \<Longrightarrow>
     \<exists>w'. write_frames w fs = (w', None) \<and> outbuf w' = outbuf w @ concat (map frame_bytes fs)"
proof (induction fs arbitrary: w)
  case Nil
  then show ?case by simp
next
  case (Cons f fs)
  obtain w1 where w1: "protocol_Write conn_write w f = (w1, None)" "only_fragments w1"
    "outbuf w1 = outbuf w @ frame_bytes f"
    using protocol_Write_only_fragments Cons.prems by (metis list.set_intros(1))
  obtain w2 where "write_frames w1 fs = (w2, None)"
    "outbuf w2 = outbuf w1 @ concat (map frame_bytes fs)"
    using Cons.IH [OF w1(2)] Cons.prems(2) by auto
  with w1 show ?case by simp
qed

lemma DecodeDatagram_EncodeDatagram:
  assumes "EncodeDatagram endpoint data = Inr payload"
  shows "DecodeDatagram payload = Inr (endpoint, data)"
proof -
  from assms have e: "0 < length endpoint" "length endpoint \<le> MaxTargetSize"
    "length endpoint + 2 + length data \<le> MaxDatagramSize"
    and p: "payload = PutUint16 (word_of_nat (length endpoint)) @ endpoint @ data"
    by (auto simp: EncodeDatagram_def split: if_splits)
  have "unat (word_of_nat (length endpoint) :: u16) = length endpoint"
    using e by (intro unat_of_nat_u16) simp
  with e show ?thesis
    by (simp add: DecodeDatagram_def p Let_def)
qed

lemma EncodeDatagram_DecodeDatagram:
  assumes "DecodeDatagram payload = Inr (endpoint, data)"
  shows "EncodeDatagram endpoint data = Inr payload"
proof -
  let ?n = "unat (Uint16 payload)"
  from assms have b: "3 \<le> length payload" "length payload \<le> MaxDatagramSize" "?n \<noteq> 0"
    "?n \<le> MaxTargetSize" "2 + ?n \<le> length payload"
    and e: "endpoint = take ?n (drop 2 payload)" and d: "data = drop (2 + ?n) payload"
    by (auto simp: DecodeDatagram_def Let_def split: if_splits)
  have len: "length endpoint = ?n" "length data = length payload - (2 + ?n)"
    using b by (simp_all add: e d)
  have "PutUint16 (word_of_nat ?n) = take 2 payload"
    using Put_Uint16 [of "take 2 payload"] b by (simp add: Uint16_take)
  moreover have "take 2 payload @ endpoint @ data = payload"
    unfolding e d by (metis add.commute append_take_drop_id drop_drop)
  ultimately show ?thesis
    using b len by (simp add: EncodeDatagram_def)
qed

lemma length_ErrorPayload: "length (ErrorPayload err) \<le> MaxErrorSize"
proof (cases err)
  case (Some e)
  have "int (length (UTF8 (error_text e) 4096)) \<le> 4096"
    using UTF8_length [of "error_text e" 4096] by simp
  with Some show ?thesis by (simp add: ErrorPayload_def)
qed (simp add: ErrorPayload_def)

lemma encoded_datagram_length:
  "EncodeDatagram endpoint data = Inr payload \<Longrightarrow> 3 \<le> length payload \<and> length payload \<le> MaxDatagramSize"
  by (auto simp: EncodeDatagram_def Suc_le_eq split: if_splits)

section \<open>Properties\<close>

text \<open>
  C1: a list of valid frames written one after the other to a transport that fragments writes
  arbitrarily is read back as exactly that list by the peer, whatever follows on the stream.
\<close>

theorem frame_stream_roundtrip:
  assumes "only_fragments w" and "outbuf w = []"
    and "list_all (\<lambda>f. Validate f = None) fs"
    and "inbuf r = outbuf (fst (write_frames w fs)) @ rest"
  shows "snd (write_frames w fs) = None
    \<and> read_many protocol_Read (length fs) r = (r\<lparr>inbuf := rest\<rparr>, Inr fs)"
proof -
  have ok: "Validate f = None" if "f \<in> set fs" for f
    using that assms(3) by (simp add: list_all_iff)
  obtain w' where w': "write_frames w fs = (w', None)"
    "outbuf w' = concat (map frame_bytes fs)"
    using write_frames_out [OF assms(1) ok] assms(2) by auto
  then have "read_many protocol_Read (length fs) r = (r\<lparr>inbuf := rest\<rparr>, Inr fs)"
    using assms(4) ok by (intro frames.read_many_concat) simp_all
  with w' show ?thesis by simp
qed

definition sample_frames :: "Frame list" where
  "sample_frames = [\<lparr>fType = TypeOpen, fStreamID = 1, fPayload = str ''host:1''\<rparr>,
                    \<lparr>fType = TypeHalfClose, fStreamID = 1, fPayload = []\<rparr>]"

definition sample_writer :: conn where
  "sample_writer = fresh_conn [] \<lparr>wscript := [(5, None), (1, None)]\<rparr>"

lemmas validate_defs = Validate_def validateFrameMetadata_def knownType_def isErrorType_def
  emptyPayloadType_def

theorem frame_stream_roundtrip_witness:
  "snd (write_frames sample_writer sample_frames) = None
   \<and> read_many protocol_Read (length sample_frames)
       (fresh_conn (outbuf (fst (write_frames sample_writer sample_frames)) @ [9]))
     = (fresh_conn [9], Inr sample_frames)"
proof -
  have "only_fragments sample_writer" "outbuf sample_writer = []"
    by (simp_all add: sample_writer_def only_fragments_def fresh_conn_def)
  moreover have "list_all (\<lambda>f. Validate f = None) sample_frames"
    by (simp add: sample_frames_def validate_defs)
  ultimately show ?thesis
    using frame_stream_roundtrip
      [of sample_writer sample_frames
          "fresh_conn (outbuf (fst (write_frames sample_writer sample_frames)) @ [9])" "[9]"]
    by (simp add: fresh_conn_def)
qed

text \<open>The byte strings that carry a frame: its encoding with any two reserved header bytes.\<close>

definition wire_form :: "Frame \<Rightarrow> bytes \<Rightarrow> bool" where
  "wire_form f bs \<longleftrightarrow>
     (\<exists>x y. bs = magic @ [Version, fType f, x, y] @ PutUint32 (fStreamID f)
             @ PutUint32 (word_of_nat (length (fPayload f))) @ fPayload f)"

lemma protocol_Read_wire:
  assumes "protocol_Read r = (r', Inr f)"
  shows "Validate f = None \<and> (\<exists>bs. wire_form f bs \<and> inbuf r = bs @ inbuf r')"
proof -
  from assms obtain r1 h where h: "readFull HeaderSize r = (r1, Inr h)"
    and mg: "take 4 h = magic" and ver: "h ! 4 = Version"
    and p: "readFull (unat (Uint32 (drop 12 h))) r1 = (r', Inr (fPayload f))"
    and k: "fType f = h ! 5" and s: "fStreamID f = Uint32 (drop 8 h)"
    and v: "Validate f = None"
    by (auto simp: protocol_Read_def Let_def split: prod.splits sum.splits if_splits option.splits)
  have lh: "length h = 16" and ir: "inbuf r = h @ inbuf r1"
    using readFull_Inr_append [OF h] by simp_all
  have lp: "length (fPayload f) = unat (Uint32 (drop 12 h))" and ir1: "inbuf r1 = fPayload f @ inbuf r'"
    using readFull_Inr_append [OF p] by simp_all
  have ln: "PutUint32 (word_of_nat (length (fPayload f))) = drop 12 h"
    using lh by (simp add: lp Put_Uint32)
  have sid: "PutUint32 (fStreamID f) = take 4 (drop 8 h)"
    using lh Put_Uint32 [of "take 4 (drop 8 h)"] by (simp add: s Uint32_take)
  have "h = take 4 h @ take 4 (drop 4 h) @ take 4 (drop 8 h) @ drop 12 h"
    using append_take_drop_id [of 4 h] append_take_drop_id [of 4 "drop 4 h"]
      append_take_drop_id [of 4 "drop 8 h"] by simp
  moreover have "take 4 (drop 4 h) = [h ! 4, h ! 5, h ! 6, h ! 7]"
    using lh by (simp add: take_Suc_conv_app_nth numeral_eq_Suc)
  ultimately have "h = magic @ [Version, fType f, h ! 6, h ! 7] @ PutUint32 (fStreamID f)
      @ PutUint32 (word_of_nat (length (fPayload f)))"
    using mg ver k ln sid by simp
  then have "wire_form f (h @ fPayload f)" unfolding wire_form_def by (metis append.assoc)
  with ir ir1 v show ?thesis by (metis append.assoc)
qed

text \<open>
  C2: a frame that \<open>Read\<close> returns passed validation, and the bytes it consumed are its header
  (with any two reserved bytes) followed by exactly its payload: no byte of the next frame is
  touched and no payload byte is lost.
\<close>

theorem protocol_Read_sound:
  assumes "protocol_Read r = (r', Inr f)"
  shows "Validate f = None
    \<and> (\<exists>x y. inbuf r = magic @ [Version, fType f, x, y] @ PutUint32 (fStreamID f)
             @ PutUint32 (word_of_nat (length (fPayload f))) @ fPayload f @ inbuf r')"
  using protocol_Read_wire [OF assms] by (auto simp: wire_form_def)

theorem protocol_Read_sound_witness:
  "protocol_Read (fresh_conn (frame_bytes (hd sample_frames) @ [7]))
     = (fresh_conn [7], Inr (hd sample_frames))
   \<and> Validate (hd sample_frames) = None
   \<and> (\<exists>x y. frame_bytes (hd sample_frames) @ [7]
        = magic @ [Version, TypeOpen, x, y] @ PutUint32 1 @ PutUint32 (word_of_nat 6)
          @ str ''host:1'' @ [7])"
proof -
  have v: "Validate (hd sample_frames) = None"
    by (simp add: sample_frames_def validate_defs)
  have r: "protocol_Read (fresh_conn (frame_bytes (hd sample_frames) @ [7]))
     = (fresh_conn [7], Inr (hd sample_frames))"
    using protocol_Read_frame_bytes [OF v, of "fresh_conn (frame_bytes (hd sample_frames) @ [7])" "[7]"]
    by (simp add: fresh_conn_def)
  show ?thesis
    using protocol_Read_sound [OF r] r v by (simp add: fresh_conn_def sample_frames_def)
qed

text \<open>
  A header with the wrong magic or version, or whose type, stream id and announced length
  break the frame rules, is rejected when exactly the 16 header bytes have been consumed, before
  any payload is read or allocated.
\<close>

lemma protocol_Read_rejects_header:
  assumes "inbuf r = header @ tail" and "length header = HeaderSize"
    and "take 4 header \<noteq> magic \<or> header ! 4 \<noteq> Version
         \<or> validateFrameMetadata (header ! 5) (Uint32 (drop 8 header))
             (unat (Uint32 (drop 12 header))) \<noteq> None"
  shows "\<exists>e. protocol_Read r = (r\<lparr>inbuf := tail\<rparr>, Inl e)"
proof -
  have "readFull HeaderSize r = (r\<lparr>inbuf := tail\<rparr>, Inr header)"
    by (rule readFull_enough [OF assms(1,2)])
  with assms(3) show ?thesis
    by (auto simp: protocol_Read_def Let_def split: option.splits)
qed

text \<open>
  The datagram codec is exact in both directions: a payload decodes to an endpoint and data
  precisely when encoding these two produces that payload.
\<close>

lemma datagram_codec:
  "(EncodeDatagram endpoint data = Inr payload) = (DecodeDatagram payload = Inr (endpoint, data))"
  using EncodeDatagram_DecodeDatagram DecodeDatagram_EncodeDatagram by blast

text \<open>
  An error frame built from \<open>ErrorPayload\<close> of any error always passes validation, so a local
  failure can always be reported to the peer.
\<close>

lemma error_frame_valid:
  assumes "isErrorType kind" and "sid \<noteq> 0"
  shows "Validate \<lparr>fType = kind, fStreamID = sid, fPayload = ErrorPayload err\<rparr> = None"
  using assms length_ErrorPayload [of err]
  by (auto simp: Validate_def isErrorType_def frame_rules)

text \<open>
  The capability response round-trips: the peer decodes the capabilities and the broker
  identity that were encoded, the absent identity (zero) through the short legacy form.
\<close>

lemma hello_ok_roundtrip:
  "DecodeHelloOK (EncodeHelloOK capabilities instanceID) = Inr (capabilities, instanceID)
   \<and> Validate \<lparr>fType = TypeHelloOK, fStreamID = 0,
               fPayload = EncodeHelloOK capabilities instanceID\<rparr> = None"
  by (simp add: DecodeHelloOK_def EncodeHelloOK_def EncodeCapabilities_def Validate_def frame_rules)

end
