(* ===== verification/FlowWindow.thy ===== *)
theory FlowWindow
  imports Protocol
begin

text \<open>
  The per-stream send window (src/internal/relay/window.go) and the resource limits of the relay
  (src/internal/relay/limits.go).  \<open>available\<close> is the credit in bytes, \<open>notify\<close> whether the
  one-element notification channel holds a token.  A call of \<open>take\<close> that has to wait is modelled
  over the list of its wake-ups: for each one, what the deadline check before the \<open>select\<close> found,
  which branch of the \<open>select\<close> fired, and the window as the other goroutines left it.  \<open>None\<close> is
  a call that is still waiting when the list ends.
\<close>

section \<open>Limits\<close>

abbreviation MaxConcurrentStreams :: nat where "MaxConcurrentStreams \<equiv> 512"
abbreviation MaxConcurrentListeners :: nat where "MaxConcurrentListeners \<equiv> 256"
abbreviation MaxConcurrentDatagrams :: nat where "MaxConcurrentDatagrams \<equiv> 64"
abbreviation MaxConcurrentReverseDatagrams :: nat where "MaxConcurrentReverseDatagrams \<equiv> 64"
abbreviation MaxReverseDatagramFlows :: nat where "MaxReverseDatagramFlows \<equiv> 256"
abbreviation MaxConcurrentOpenOperations :: nat where "MaxConcurrentOpenOperations \<equiv> 32"
abbreviation datagramQueueDepth :: nat where "datagramQueueDepth \<equiv> 16"

definition resourceLimitError :: "bytes \<Rightarrow> nat \<Rightarrow> goerr" where
  "resourceLimitError resource maximum =
     ErrWrapped (error_text ErrResourceLimit @ str '': maximum '' @ decimal maximum @ str '' '' @ resource)
       ErrResourceLimit"

lemma resourceLimitError_is: "err_is (resourceLimitError r n) ErrResourceLimit"
  by (simp add: resourceLimitError_def)

section \<open>The window\<close>

record flowWindow =
  available :: nat
  notify :: bool

definition newFlowWindow :: flowWindow where
  "newFlowWindow = \<lparr>available = InitialStreamWindow, notify = False\<rparr>"

definition window_add :: "flowWindow \<Rightarrow> u32 \<Rightarrow> flowWindow \<times> bool" where
  "window_add w count =
     (if count = 0 then (w, False)
      else if InitialStreamWindow < available w + unat count then (w, False)
      else (w\<lparr>available := available w + unat count, notify := True\<rparr>, True))"

datatype takeDeadline = NoDeadline | DeadlineExpired | DeadlinePending

datatype takeWake = Notified | DoneClosed | DeadlineChanged | TimerFired

fun window_take ::
  "flowWindow \<Rightarrow> nat \<Rightarrow> (takeDeadline \<times> takeWake \<times> flowWindow) list
     \<Rightarrow> (flowWindow \<times> nat result) option" where
  "window_take w most wakes =
     (if 0 < available w
      then let count = (if available w < most then available w else most)
           in Some (w\<lparr>available := available w - count\<rparr>, Inr count)
      else case wakes of
        [] \<Rightarrow> None
      | (deadline, wake, w1) # rest \<Rightarrow>
          if deadline = DeadlineExpired then Some (w, Inl OsTimeout)
          else (case wake of
              Notified \<Rightarrow> window_take (w1\<lparr>notify := False\<rparr>) most rest
            | DoneClosed \<Rightarrow> Some (w1, Inl IoErrClosedPipe)
            | DeadlineChanged \<Rightarrow> Some (w1, Inl ErrDeadlineChanged)
            | TimerFired \<Rightarrow>
                if deadline = NoDeadline then window_take w1 most rest
                else Some (w1, Inl OsTimeout)))"

declare window_take.simps [simp del]

section \<open>The credit invariant\<close>

definition window_ok :: "flowWindow \<Rightarrow> bool" where
  "window_ok w \<longleftrightarrow> available w \<le> InitialStreamWindow"

lemma window_ok_new [simp]: "window_ok newFlowWindow"
  by (simp add: window_ok_def newFlowWindow_def)

lemma window_ok_add: "window_ok w \<Longrightarrow> window_ok (fst (window_add w count))"
  by (simp add: window_ok_def window_add_def)

lemma window_add_True:
  "window_add w count = (w', True) \<longleftrightarrow>
     0 < unat count \<and> available w + unat count \<le> InitialStreamWindow
     \<and> w' = w\<lparr>available := available w + unat count, notify := True\<rparr>"
  by (auto simp: window_add_def unat_gt_0 split: if_splits)

lemma window_add_False: "window_add w count = (w', False) \<Longrightarrow> w' = w"
  by (auto simp: window_add_def split: if_splits)

lemma window_take_now:
  "0 < available w \<Longrightarrow>
     window_take w most wakes
       = Some (w\<lparr>available := available w - min most (available w)\<rparr>, Inr (min most (available w)))"
  by (subst window_take.simps) (simp add: Let_def min_def)

lemma window_take_granted:
  assumes "window_take w most wakes = Some (w', Inr count)" and "0 < most"
    and "window_ok w" and "list_all (\<lambda>(d, k, v). window_ok v) wakes"
  shows "0 < count \<and> count \<le> most \<and> available w' + count \<le> InitialStreamWindow"
  using assms
proof (induction wakes arbitrary: w)
  case Nil
  then have "0 < available w"
    by (subst (asm) window_take.simps) (auto split: if_splits)
  with Nil show ?case
    by (auto simp: window_take_now window_ok_def min_def split: if_splits)
next
  case (Cons e wakes)
  obtain d k v where e: "e = (d, k, v)" by (cases e) auto
  show ?case
  proof (cases "0 < available w")
    case True
    with Cons.prems show ?thesis
      by (auto simp: window_take_now window_ok_def min_def split: if_splits)
  next
    case False
    with Cons.prems(1) have
      "window_take (v\<lparr>notify := False\<rparr>) most wakes = Some (w', Inr count)
       \<or> window_take v most wakes = Some (w', Inr count)"
      unfolding e by (subst (asm) window_take.simps) (auto split: if_splits takeWake.splits)
    with Cons.prems Cons.IH [of "v\<lparr>notify := False\<rparr>"] Cons.IH [of v] show ?thesis
      by (auto simp: e window_ok_def)
  qed
qed

text \<open>A call that finds credit never waits, and a closed stream ends the wait.\<close>

lemma window_take_closed:
  "available w = 0 \<Longrightarrow> d \<noteq> DeadlineExpired \<Longrightarrow>
     window_take w most ((d, DoneClosed, v) # rest) = Some (v, Inl IoErrClosedPipe)"
  by (subst window_take.simps) simp

end
