(* ===== verification/Registry.thy ===== *)
theory Registry
  imports Prelude
begin

text \<open>
  The relay keeps its live objects (streams, listeners, datagram associations) in Go maps from
  stream ids to pointers.  Pointer identity matters: a goroutine can hold an object that is no
  longer in the map, and the code compares pointers.  A \<open>reg\<close> is such a map together with the
  heap of the objects it has ever pointed to; \<open>nextobj\<close> is the next fresh address.

  The locale \<open>object_registry\<close> is the interface every such map has in the relay server: a way to
  close an object, a notion of closed, a well-formedness of objects and the limit on live ones.
  Its lemmas show that inserting below the limit, updating and removing keep the invariant
  \<open>reg_inv\<close>: the map never holds more than the limit, every object in the map is open, and every
  object that has left it is closed.
\<close>

record 'o reg =
  ids :: "32 word \<rightharpoonup> nat"
  objs :: "nat \<rightharpoonup> 'o"
  nextobj :: nat

definition reg_empty :: "'o reg" where
  "reg_empty = \<lparr>ids = Map.empty, objs = Map.empty, nextobj = 0\<rparr>"

definition reg_insert :: "'o reg \<Rightarrow> u32 \<Rightarrow> 'o \<Rightarrow> 'o reg" where
  "reg_insert r i x = r\<lparr>ids := (ids r)(i \<mapsto> nextobj r), objs := (objs r)(nextobj r \<mapsto> x),
                        nextobj := Suc (nextobj r)\<rparr>"

definition reg_find :: "'o reg \<Rightarrow> u32 \<Rightarrow> (nat \<times> 'o) option" where
  "reg_find r i = (case ids r i of None \<Rightarrow> None | Some k \<Rightarrow> map_option (Pair k) (objs r k))"

definition reg_update :: "'o reg \<Rightarrow> nat \<Rightarrow> ('o \<Rightarrow> 'o) \<Rightarrow> 'o reg" where
  "reg_update r k f = r\<lparr>objs := (objs r)(k := map_option f (objs r k))\<rparr>"

definition reg_delete :: "'o reg \<Rightarrow> u32 \<Rightarrow> 'o reg" where
  "reg_delete r i = r\<lparr>ids := (ids r)(i := None)\<rparr>"

definition reg_count :: "'o reg \<Rightarrow> nat" where
  "reg_count r = msize (ids r)"

definition reg_inv :: "('o \<Rightarrow> bool) \<Rightarrow> ('o \<Rightarrow> bool) \<Rightarrow> nat \<Rightarrow> 'o reg \<Rightarrow> bool" where
  "reg_inv closed ok limit r \<longleftrightarrow>
     finite (dom (ids r)) \<and> reg_count r \<le> limit \<and>
     (\<forall>i k. ids r i = Some k \<longrightarrow> (\<exists>x. objs r k = Some x \<and> \<not> closed x)) \<and>
     (\<forall>k x. objs r k = Some x \<longrightarrow> k < nextobj r \<and> ok x \<and> (closed x \<or> (\<exists>i. ids r i = Some k))) \<and>
     (\<forall>i j k. ids r i = Some k \<longrightarrow> ids r j = Some k \<longrightarrow> i = j)"

lemma reg_inv_D:
  assumes "reg_inv closed ok limit r"
  shows "finite (dom (ids r))" and "msize (ids r) \<le> limit"
    and "ids r i = Some k \<Longrightarrow> \<exists>x. objs r k = Some x \<and> \<not> closed x"
    and "objs r k = Some x \<Longrightarrow> k < nextobj r"
    and "objs r k = Some x \<Longrightarrow> ok x"
    and "objs r k = Some x \<Longrightarrow> \<not> closed x \<Longrightarrow> \<exists>i. ids r i = Some k"
    and "ids r i = Some k \<Longrightarrow> ids r j = Some k \<Longrightarrow> i = j"
  using assms unfolding reg_inv_def reg_count_def by blast+

lemma reg_invI:
  assumes "finite (dom (ids r))" and "msize (ids r) \<le> limit"
    and "\<And>i k. ids r i = Some k \<Longrightarrow> \<exists>x. objs r k = Some x \<and> \<not> closed x"
    and "\<And>k x. objs r k = Some x \<Longrightarrow> k < nextobj r \<and> ok x"
    and "\<And>k x. objs r k = Some x \<Longrightarrow> \<not> closed x \<Longrightarrow> \<exists>i. ids r i = Some k"
    and "\<And>i j k. ids r i = Some k \<Longrightarrow> ids r j = Some k \<Longrightarrow> i = j"
  shows "reg_inv closed ok limit r"
  using assms unfolding reg_inv_def reg_count_def by blast

lemma reg_find_Some:
  "reg_find r i = Some (k, x) \<longleftrightarrow> ids r i = Some k \<and> objs r k = Some x"
  by (auto simp: reg_find_def split: option.splits)

lemma reg_find_None:
  "reg_inv closed ok limit r \<Longrightarrow> reg_find r i = None \<longleftrightarrow> ids r i = None"
  using reg_inv_D(3) by (fastforce simp: reg_find_def split: option.splits)

locale object_registry =
  fixes close :: "'o \<Rightarrow> 'o"
    and closed :: "'o \<Rightarrow> bool"
    and ok :: "'o \<Rightarrow> bool"
    and limit :: nat
  assumes closed_close: "closed (close x)"
    and ok_close: "ok x \<Longrightarrow> ok (close x)"
begin

lemma inv_empty: "reg_inv closed ok limit reg_empty"
  by (simp add: reg_inv_def reg_empty_def reg_count_def)

lemma inv_insert:
  assumes r: "reg_inv closed ok limit r" and i: "ids r i = None"
    and n: "reg_count r < limit" and x: "ok x" "\<not> closed x"
  shows "reg_inv closed ok limit (reg_insert r i x)"
proof -
  note D = reg_inv_D [OF r]
  have fresh: "objs r (nextobj r) = None" using D(4) by (metis less_irrefl not_Some_eq)
  have nran: "ids r j \<noteq> Some (nextobj r)" for j using D(3) fresh by fastforce
  show ?thesis
  proof (rule reg_invI)
    show "msize (ids (reg_insert r i x)) \<le> limit"
      using n msize_bounded_insert [OF D(1)] by (simp add: reg_insert_def reg_count_def)
    show "\<exists>y. objs (reg_insert r i x) k = Some y \<and> \<not> closed y"
      if "ids (reg_insert r i x) j = Some k" for j k
      using that D(3) [of j k] x nran [of j] by (auto simp: reg_insert_def split: if_splits)
    show "k < nextobj (reg_insert r i x) \<and> ok y" if "objs (reg_insert r i x) k = Some y" for k y
      using that D(4) [of k y] D(5) [of k y] x by (auto simp: reg_insert_def split: if_splits)
    show "\<exists>j. ids (reg_insert r i x) j = Some k"
      if "objs (reg_insert r i x) k = Some y" "\<not> closed y" for k y
      using that D(6) [of k y] i by (cases "k = nextobj r") (auto simp: reg_insert_def, metis option.distinct(1))
    show "j = j'" if "ids (reg_insert r i x) j = Some k" "ids (reg_insert r i x) j' = Some k" for j j' k
      using that D(7) [of j k j'] nran [of j] nran [of j'] by (auto simp: reg_insert_def split: if_splits)
  qed (simp add: reg_insert_def D(1))
qed

lemma inv_update:
  assumes r: "reg_inv closed ok limit r"
    and f: "\<And>x. objs r k = Some x \<Longrightarrow> ok x \<Longrightarrow> ok (f x) \<and> closed (f x) = closed x"
  shows "reg_inv closed ok limit (reg_update r k f)"
proof -
  note D = reg_inv_D [OF r]
  have okf: "ok (f x)" "closed (f x) = closed x" if "objs r k = Some x" for x
    using that D(5) f by blast+
  show ?thesis
  proof (rule reg_invI)
    show "\<exists>y. objs (reg_update r k f) k' = Some y \<and> \<not> closed y"
      if "ids (reg_update r k f) j = Some k'" for j k'
      using that D(3) [of j k'] okf by (cases "k' = k") (auto simp: reg_update_def)
    show "k' < nextobj (reg_update r k f) \<and> ok y" if "objs (reg_update r k f) k' = Some y" for k' y
      using that D(4,5) okf by (auto simp: reg_update_def split: if_splits)
    show "\<exists>j. ids (reg_update r k f) j = Some k'"
      if "objs (reg_update r k f) k' = Some y" "\<not> closed y" for k' y
      using that D(6) okf by (cases "k' = k") (auto simp: reg_update_def)
  qed (use D in \<open>auto simp: reg_update_def\<close>)
qed

text \<open>Removal: the id is forgotten and the object it named is closed.\<close>

lemma inv_remove:
  assumes r: "reg_inv closed ok limit r" and i: "ids r i = Some k"
  shows "reg_inv closed ok limit (reg_update (reg_delete r i) k close)"
proof -
  note D = reg_inv_D [OF r]
  let ?r = "reg_update (reg_delete r i) k close"
  have other: "j = i" if "ids r j = Some k" for j using that D(7) i by blast
  show ?thesis
  proof (rule reg_invI)
    show "msize (ids ?r) \<le> limit"
      using msize_bounded_delete [OF D(1,2)] by (simp add: reg_update_def reg_delete_def)
    show "\<exists>y. objs ?r k' = Some y \<and> \<not> closed y" if "ids ?r j = Some k'" for j k'
      using that D(3) [of j k'] other [of j] by (auto simp: reg_update_def reg_delete_def split: if_splits)
    show "k' < nextobj ?r \<and> ok y" if "objs ?r k' = Some y" for k' y
      using that D(4,5) ok_close by (auto simp: reg_update_def reg_delete_def split: if_splits)
    show "\<exists>j. ids ?r j = Some k'" if o: "objs ?r k' = Some y" and nc: "\<not> closed y" for k' y
    proof -
      have "k' \<noteq> k" using o nc closed_close by (auto simp: reg_update_def reg_delete_def)
      then have "objs r k' = Some y" using o by (simp add: reg_update_def reg_delete_def)
      then obtain j where "ids r j = Some k'" using D(6) nc by blast
      moreover have "j \<noteq> i" using calculation i \<open>k' \<noteq> k\<close> by auto
      ultimately show ?thesis by (auto simp: reg_update_def reg_delete_def)
    qed
    show "j = j'" if "ids ?r j = Some k'" "ids ?r j' = Some k'" for j j' k'
      using that D(7) by (auto simp: reg_update_def reg_delete_def split: if_splits)
  qed (simp add: reg_update_def reg_delete_def D(1))
qed

end

end
