(* ===== verification/RelayServer.thy ===== *)
theory RelayServer
  imports FlowWindow Registry
begin

text \<open>
  The Windows side of the relay (src/internal/relay/server.go).  The server's maps are registries
  (theory \<open>Registry\<close>).  A goroutine is a \<open>task\<close>: the code between two blocking operations
  (\<open>dial\<close>, \<open>net.Listen\<close>, \<open>Accept\<close>, socket reads and writes, waiting for credit) is one
  operation below, which takes the outcome of the blocking call as an argument and returns the new
  state with the tasks that go on.  Each operation holds \<open>s.mu\<close> where the code does, so an
  interleaving of the goroutines is a sequence of these operations.  Sockets are opaque handles.
\<close>

section \<open>The frame transport\<close>

text \<open>
  \<open>t_script\<close> lists the outcomes of the coming transport writes (the error, and whether the
  server's context is done afterwards); past its end every write succeeds.  \<open>t_sent\<close> is the
  sequence of frames that reached the transport.
\<close>

record transport =
  t_attached :: bool
  t_script :: "(goerr option \<times> bool) list"
  t_sent :: "Frame list"

text \<open>
  The retry loop of \<open>send\<close> over an attached link: a detached write is retried until it
  succeeds, fails with another error or the context ends.  A frame that fails validation inside
  \<open>protocol.Write\<close> is reported by the link as detached every time, so only the end of the
  context stops that loop.
\<close>

fun send_attached :: "(goerr option \<times> bool) list \<Rightarrow> Frame
    \<Rightarrow> (goerr option \<times> bool) list \<times> bool \<times> goerr option" where
  "send_attached [] f =
     (case Validate f of None \<Rightarrow> ([], True, None) | Some e \<Rightarrow> ([], False, Some ContextCanceled))"
| "send_attached ((outcome, ctxDone) # rest) f =
     (case (case Validate f of Some e \<Rightarrow> Some (ErrJoined ErrDetached e) | None \<Rightarrow> outcome) of
        None \<Rightarrow> (rest, True, None)
      | Some e \<Rightarrow>
          if \<not> err_is e ErrDetached then (rest, False, Some e)
          else if ctxDone then (rest, False, Some ContextCanceled)
          else send_attached rest f)"

definition transport_send :: "transport \<Rightarrow> Frame \<Rightarrow> transport \<times> goerr option" where
  "transport_send t f =
     (if t_attached t
      then case send_attached (t_script t) f of (script, ok, err) \<Rightarrow>
        (t\<lparr>t_script := script, t_sent := (if ok then t_sent t @ [f] else t_sent t)\<rparr>, err)
      else case Validate f of
          Some e \<Rightarrow> (t, Some e)
        | None \<Rightarrow>
            (case t_script t of
               [] \<Rightarrow> (t\<lparr>t_sent := t_sent t @ [f]\<rparr>, None)
             | (None, d) # rest \<Rightarrow> (t\<lparr>t_script := rest, t_sent := t_sent t @ [f]\<rparr>, None)
             | (Some e, d) # rest \<Rightarrow> (t\<lparr>t_script := rest\<rparr>, Some e)))"

section \<open>Server state\<close>

record serverStreamEvent =
  ev_data :: bytes
  ev_halfClose :: bool

record serverStream =
  st_conn :: "nat option"
  st_incoming :: "serverStreamEvent list"
  st_window :: flowWindow
  st_done :: bool

abbreviation streamQueueSize :: nat where
  "streamQueueSize \<equiv> 10"

definition newServerStream :: "nat option \<Rightarrow> serverStream" where
  "newServerStream conn =
     \<lparr>st_conn = conn, st_incoming = [], st_window = newFlowWindow, st_done = False\<rparr>"

record serverDatagram =
  sd_conn :: "nat option"
  sd_incoming :: "bytes list"
  sd_done :: bool

type_synonym serverReverseDatagram = serverDatagram

definition newServerDatagram :: serverDatagram where
  "newServerDatagram = \<lparr>sd_conn = None, sd_incoming = [], sd_done = False\<rparr>"

record serverListener =
  sl_listener :: "nat option"
  sl_commit :: bool
  sl_cancelled :: bool

definition newServerListener :: serverListener where
  "newServerListener = \<lparr>sl_listener = None, sl_commit = False, sl_cancelled = False\<rparr>"

text \<open>
  The goroutines.  The first six are the open operations, which hold an open slot: not started, or
  waiting in \<open>dial\<close>, \<open>net.Listen\<close> or \<open>packetDial\<close>.  \<open>TCopyWaiting\<close> is \<open>copyToClient\<close>
  waiting for credit with the bytes it has read.
\<close>

datatype task =
    TOpen u32 bytes
  | TDial u32 nat
  | TListen u32 bytes
  | TBind u32 nat
  | TOpenDatagram u32
  | TPacketDial u32 nat
  | TServeListener u32 nat nat
  | TWriteToRemote u32 nat
  | TCopyToClient u32 nat
  | TCopyWaiting u32 nat nat bytes "goerr option"
  | TWriteDatagrams u32 nat
  | TReadDatagrams u32 nat
  | TWriteReverse u32 nat
  | TReadReverse u32 nat

fun holds_slot :: "task \<Rightarrow> bool" where
  "holds_slot (TOpen i t) = True"
| "holds_slot (TDial i k) = True"
| "holds_slot (TListen i a) = True"
| "holds_slot (TBind i k) = True"
| "holds_slot (TOpenDatagram i) = True"
| "holds_slot (TPacketDial i k) = True"
| "holds_slot _ = False"

record server =
  sv_streams :: "serverStream reg"
  sv_listeners :: "serverListener reg"
  sv_datagrams :: "serverDatagram reg"
  sv_reverse :: "serverReverseDatagram reg"
  sv_nextStream :: u32
  sv_peerCapabilities :: u64
  sv_peerInstanceID :: u64
  sv_openSlots :: nat
  sv_tasks :: "task list"
  sv_tx :: transport
  sv_cancelled :: bool
  sv_closed :: "nat list"
  sv_remote :: "(nat \<times> bytes) list"
  sv_packets :: "(nat \<times> bytes \<times> bytes) list"

text \<open>
  \<open>sv_closed\<close> logs the sockets that have been closed, \<open>sv_remote\<close> what was written to stream
  sockets and \<open>sv_packets\<close> the datagrams handed to packet sockets (socket, target, data).
\<close>

definition NewServer :: "bool \<Rightarrow> server" where
  "NewServer attached =
     \<lparr>sv_streams = reg_empty, sv_listeners = reg_empty, sv_datagrams = reg_empty,
      sv_reverse = reg_empty, sv_nextStream = 0, sv_peerCapabilities = 0, sv_peerInstanceID = 0,
      sv_openSlots = 0, sv_tasks = [],
      sv_tx = \<lparr>t_attached = attached, t_script = [], t_sent = []\<rparr>,
      sv_cancelled = False, sv_closed = [], sv_remote = [], sv_packets = []\<rparr>"

definition SetPeerInstanceID :: "server \<Rightarrow> u64 \<Rightarrow> server" where
  "SetPeerInstanceID s instanceID = s\<lparr>sv_peerInstanceID := instanceID\<rparr>"

definition mkFrame :: "byte \<Rightarrow> u32 \<Rightarrow> bytes \<Rightarrow> Frame" where
  "mkFrame kind i payload = \<lparr>fType = kind, fStreamID = i, fPayload = payload\<rparr>"

definition send :: "server \<Rightarrow> Frame \<Rightarrow> server \<times> goerr option" where
  "send s f = (case transport_send (sv_tx s) f of (t, err) \<Rightarrow> (s\<lparr>sv_tx := t\<rparr>, err))"

abbreviation send_ignore :: "server \<Rightarrow> Frame \<Rightarrow> server" where
  "send_ignore s f \<equiv> fst (send s f)"

definition spawn :: "server \<Rightarrow> task \<Rightarrow> server" where
  "spawn s t = s\<lparr>sv_tasks := sv_tasks s @ [t]\<rparr>"

definition closeSocket :: "server \<Rightarrow> nat option \<Rightarrow> server" where
  "closeSocket s c = (case c of None \<Rightarrow> s | Some h \<Rightarrow> s\<lparr>sv_closed := sv_closed s @ [h]\<rparr>)"

section \<open>Removing objects\<close>

definition closeStream :: "serverStream \<Rightarrow> serverStream" where
  "closeStream st = st\<lparr>st_done := True\<rparr>"

definition closeDatagram :: "serverDatagram \<Rightarrow> serverDatagram" where
  "closeDatagram d = d\<lparr>sd_done := True\<rparr>"

definition cancelListener :: "serverListener \<Rightarrow> serverListener" where
  "cancelListener l = l\<lparr>sl_cancelled := True\<rparr>"

definition server_remove :: "server \<Rightarrow> u32 \<Rightarrow> server" where
  "server_remove s i =
     (case reg_find (sv_streams s) i of
        None \<Rightarrow> s\<lparr>sv_streams := reg_delete (sv_streams s) i\<rparr>
      | Some (k, st) \<Rightarrow>
          let s1 = s\<lparr>sv_streams := reg_delete (sv_streams s) i\<rparr> in
          if st_done st then s1
          else closeSocket (s1\<lparr>sv_streams := reg_update (sv_streams s1) k closeStream\<rparr>) (st_conn st))"

definition removeDatagram :: "server \<Rightarrow> u32 \<Rightarrow> server" where
  "removeDatagram s i =
     (case reg_find (sv_datagrams s) i of
        None \<Rightarrow> s\<lparr>sv_datagrams := reg_delete (sv_datagrams s) i\<rparr>
      | Some (k, d) \<Rightarrow>
          let s1 = s\<lparr>sv_datagrams := reg_delete (sv_datagrams s) i\<rparr> in
          if sd_done d then s1
          else closeSocket (s1\<lparr>sv_datagrams := reg_update (sv_datagrams s1) k closeDatagram\<rparr>) (sd_conn d))"

definition removeReverseDatagram :: "server \<Rightarrow> u32 \<Rightarrow> server" where
  "removeReverseDatagram s i =
     (case reg_find (sv_reverse s) i of
        None \<Rightarrow> s\<lparr>sv_reverse := reg_delete (sv_reverse s) i\<rparr>
      | Some (k, d) \<Rightarrow>
          let s1 = s\<lparr>sv_reverse := reg_delete (sv_reverse s) i\<rparr> in
          if sd_done d then s1
          else closeSocket (s1\<lparr>sv_reverse := reg_update (sv_reverse s1) k closeDatagram\<rparr>) (sd_conn d))"

definition removeListener :: "server \<Rightarrow> u32 \<Rightarrow> server" where
  "removeListener s i =
     (case reg_find (sv_listeners s) i of
        None \<Rightarrow> s\<lparr>sv_listeners := reg_delete (sv_listeners s) i\<rparr>
      | Some (k, l) \<Rightarrow>
          let s1 = s\<lparr>sv_listeners := reg_delete (sv_listeners s) i\<rparr> in
          closeSocket (s1\<lparr>sv_listeners := reg_update (sv_listeners s1) k cancelListener\<rparr>) (sl_listener l))"

definition commitListener :: "server \<Rightarrow> u32 \<Rightarrow> server" where
  "commitListener s i =
     (case reg_find (sv_listeners s) i of
        None \<Rightarrow> s
      | Some (k, l) \<Rightarrow>
          s\<lparr>sv_listeners := reg_update (sv_listeners s) k (\<lambda>l. l\<lparr>sl_commit := True\<rparr>)\<rparr>)"

definition server_reset :: "server \<Rightarrow> u32 \<Rightarrow> goerr \<Rightarrow> server" where
  "server_reset s i err =
     server_remove (send_ignore s (mkFrame TypeReset i (ErrorPayload (Some err)))) i"

definition datagramError :: "server \<Rightarrow> u32 \<Rightarrow> goerr \<Rightarrow> server" where
  "datagramError s i err = send_ignore s (mkFrame TypeDatagramError i (ErrorPayload (Some err)))"

definition reverseDatagramError :: "server \<Rightarrow> u32 \<Rightarrow> goerr \<Rightarrow> server" where
  "reverseDatagramError s i err =
     send_ignore s (mkFrame TypeListenDatagramError i (ErrorPayload (Some err)))"

text \<open>The address a listener reports: only to a peer that announced the capability.\<close>

definition boundAddressPayload :: "server \<Rightarrow> bytes option \<Rightarrow> bytes" where
  "boundAddressPayload s address =
     (case address of
        None \<Rightarrow> []
      | Some a \<Rightarrow>
          if and (sv_peerCapabilities s) CapabilityListenBoundAddress = 0 then [] else a)"

section \<open>Open operations\<close>

definition startOpen :: "server \<Rightarrow> byte \<Rightarrow> u32 \<Rightarrow> task \<Rightarrow> server" where
  "startOpen s errorType i t =
     (if sv_openSlots s < MaxConcurrentOpenOperations
      then spawn (s\<lparr>sv_openSlots := Suc (sv_openSlots s)\<rparr>) t
      else send_ignore s (mkFrame errorType i
             (ErrorPayload (Some (resourceLimitError (str ''concurrent open operations'')
                                    MaxConcurrentOpenOperations)))))"

definition releaseSlot :: "server \<Rightarrow> server" where
  "releaseSlot s = s\<lparr>sv_openSlots := sv_openSlots s - 1\<rparr>"

text \<open>\<open>open\<close> up to the dial.\<close>

definition open_begin :: "server \<Rightarrow> u32 \<Rightarrow> bytes \<Rightarrow> server" where
  "open_begin s i target =
     (if i = 0 \<or> target = []
      then releaseSlot (send_ignore s (mkFrame TypeOpenError i (str ''invalid open request'')))
      else if ids (sv_streams s) i \<noteq> None then releaseSlot s
      else if MaxConcurrentStreams \<le> reg_count (sv_streams s)
      then releaseSlot (send_ignore s (mkFrame TypeOpenError i
             (ErrorPayload (Some (resourceLimitError (str ''TCP streams'') MaxConcurrentStreams)))))
      else spawn (s\<lparr>sv_streams := reg_insert (sv_streams s) i (newServerStream None)\<rparr>)
             (TDial i (nextobj (sv_streams s))))"

text \<open>\<open>open\<close> after the dial returned an error or a socket.\<close>

definition open_finish :: "server \<Rightarrow> u32 \<Rightarrow> nat result \<Rightarrow> server" where
  "open_finish s i dialed =
     releaseSlot (case dialed of
        Inl err \<Rightarrow>
          send_ignore (server_remove s i) (mkFrame TypeOpenError i (ErrorPayload (Some err)))
      | Inr conn \<Rightarrow>
          (case reg_find (sv_streams s) i of
             None \<Rightarrow> closeSocket s (Some conn)
           | Some (k, st) \<Rightarrow>
               let s1 = s\<lparr>sv_streams := reg_update (sv_streams s) k (\<lambda>st. st\<lparr>st_conn := Some conn\<rparr>)\<rparr>;
                   s2 = spawn s1 (TWriteToRemote i k)
               in (case send s2 (mkFrame TypeOpenOK i []) of
                     (s3, Some err) \<Rightarrow> server_remove s3 i
                   | (s3, None) \<Rightarrow> spawn s3 (TCopyToClient i conn))))"

definition openListener_begin :: "server \<Rightarrow> u32 \<Rightarrow> bytes \<Rightarrow> server" where
  "openListener_begin s i addr =
     (if i = 0 \<or> addr = []
      then releaseSlot (send_ignore s (mkFrame TypeListenError i (str ''invalid listen request'')))
      else if ids (sv_listeners s) i \<noteq> None then releaseSlot s
      else if MaxConcurrentListeners \<le> reg_count (sv_listeners s)
      then releaseSlot (send_ignore s (mkFrame TypeListenError i
             (ErrorPayload (Some (resourceLimitError (str ''TCP listeners'') MaxConcurrentListeners)))))
      else spawn (s\<lparr>sv_listeners := reg_insert (sv_listeners s) i newServerListener\<rparr>)
             (TBind i (nextobj (sv_listeners s))))"

text \<open>
  \<open>openListener\<close> after \<open>net.Listen\<close>: the outcome is an error or the listener's handle and
  address; \<open>k\<close> is the object this goroutine created.
\<close>

definition listener_cancelled :: "server \<Rightarrow> nat \<Rightarrow> bool" where
  "listener_cancelled s k \<longleftrightarrow>
     sv_cancelled s \<or> (case objs (sv_listeners s) k of None \<Rightarrow> False | Some l \<Rightarrow> sl_cancelled l)"

definition openListener_finish :: "server \<Rightarrow> u32 \<Rightarrow> nat \<Rightarrow> (nat \<times> bytes) result \<Rightarrow> server" where
  "openListener_finish s i k bound =
     releaseSlot (case bound of
        Inl err \<Rightarrow>
          let s1 = (if ids (sv_listeners s) i = Some k
                    then s\<lparr>sv_listeners := reg_delete (sv_listeners s) i\<rparr> else s);
              s2 = s1\<lparr>sv_listeners := reg_update (sv_listeners s1) k cancelListener\<rparr>
          in send_ignore s2 (mkFrame TypeListenError i (ErrorPayload (Some err)))
      | Inr (ln, address) \<Rightarrow>
          if ids (sv_listeners s) i \<noteq> Some k \<or> listener_cancelled s k
          then closeSocket
                 (s\<lparr>sv_listeners := reg_update (sv_listeners s) k cancelListener\<rparr>) (Some ln)
          else
            let s1 = s\<lparr>sv_listeners :=
                       reg_update (sv_listeners s) k (\<lambda>l. l\<lparr>sl_listener := Some ln\<rparr>)\<rparr>
            in (case send s1 (mkFrame TypeListenOK i (boundAddressPayload s1 (Some address))) of
                  (s2, Some err) \<Rightarrow> removeListener s2 i
                | (s2, None) \<Rightarrow> spawn s2 (TServeListener i k ln)))"

definition openDatagram_begin :: "server \<Rightarrow> u32 \<Rightarrow> server" where
  "openDatagram_begin s i =
     (if ids (sv_datagrams s) i \<noteq> None then releaseSlot s
      else if MaxConcurrentDatagrams \<le> reg_count (sv_datagrams s)
      then releaseSlot (send_ignore s (mkFrame TypeDatagramError i
             (ErrorPayload (Some (resourceLimitError (str ''UDP associations'') MaxConcurrentDatagrams)))))
      else spawn (s\<lparr>sv_datagrams := reg_insert (sv_datagrams s) i newServerDatagram\<rparr>)
             (TPacketDial i (nextobj (sv_datagrams s))))"

definition datagram_done :: "server \<Rightarrow> serverDatagram reg \<Rightarrow> nat \<Rightarrow> bool" where
  "datagram_done s r k \<longleftrightarrow>
     sv_cancelled s \<or> (case objs r k of None \<Rightarrow> False | Some d \<Rightarrow> sd_done d)"

definition openDatagram_finish :: "server \<Rightarrow> u32 \<Rightarrow> nat \<Rightarrow> nat result \<Rightarrow> server" where
  "openDatagram_finish s i k dialed =
     releaseSlot (case dialed of
        Inl err \<Rightarrow>
          send_ignore (removeDatagram s i) (mkFrame TypeDatagramError i (ErrorPayload (Some err)))
      | Inr conn \<Rightarrow>
          if ids (sv_datagrams s) i \<noteq> Some k \<or> datagram_done s (sv_datagrams s) k
          then closeSocket s (Some conn)
          else
            let s1 = s\<lparr>sv_datagrams :=
                       reg_update (sv_datagrams s) k (\<lambda>d. d\<lparr>sd_conn := Some conn\<rparr>)\<rparr>
            in (case send s1 (mkFrame TypeDatagramOK i []) of
                  (s2, Some err) \<Rightarrow> removeDatagram s2 i
                | (s2, None) \<Rightarrow> spawn (spawn s2 (TWriteDatagrams i k)) (TReadDatagrams i conn)))"

text \<open>
  \<open>openReverseDatagram\<close> runs inside the dispatcher.  \<open>resolve\<close> and \<open>listen\<close> are
  \<open>s.resolveUDP\<close> and \<open>net.ListenUDP\<close>.
\<close>

definition openReverseDatagram ::
  "(bytes \<Rightarrow> bytes result) \<Rightarrow> (bytes \<Rightarrow> (nat \<times> bytes) result) \<Rightarrow> server \<Rightarrow> u32 \<Rightarrow> bytes \<Rightarrow> server" where
  "openReverseDatagram resolve listen s i addr =
     (if i = 0 \<or> addr = []
      then send_ignore s (mkFrame TypeListenDatagramError i (str ''invalid datagram listen request''))
      else if ids (sv_reverse s) i \<noteq> None then s
      else if MaxConcurrentReverseDatagrams \<le> reg_count (sv_reverse s)
      then send_ignore s (mkFrame TypeListenDatagramError i
             (ErrorPayload (Some (resourceLimitError (str ''reverse UDP listeners'')
                                    MaxConcurrentReverseDatagrams))))
      else
        let k = nextobj (sv_reverse s);
            s1 = s\<lparr>sv_reverse := reg_insert (sv_reverse s) i newServerDatagram\<rparr>
        in (case rbind (resolve addr) listen of
              Inl err \<Rightarrow>
                send_ignore (removeReverseDatagram s1 i)
                  (mkFrame TypeListenDatagramError i (ErrorPayload (Some err)))
            | Inr (conn, local) \<Rightarrow>
                if ids (sv_reverse s1) i \<noteq> Some k \<or> datagram_done s1 (sv_reverse s1) k
                then closeSocket s1 (Some conn)
                else
                  let s2 = s1\<lparr>sv_reverse :=
                             reg_update (sv_reverse s1) k (\<lambda>d. d\<lparr>sd_conn := Some conn\<rparr>)\<rparr>
                  in (case send s2 (mkFrame TypeListenDatagramOK i
                                      (boundAddressPayload s2 (Some local))) of
                        (s3, Some err) \<Rightarrow> removeReverseDatagram s3 i
                      | (s3, None) \<Rightarrow>
                          spawn (spawn s3 (TWriteReverse i k)) (TReadReverse i k))))"

section \<open>Frame dispatch\<close>

text \<open>Datagram payloads are queued without blocking: a full queue drops the packet.\<close>

definition enqueue_packet :: "bytes \<Rightarrow> serverDatagram \<Rightarrow> serverDatagram" where
  "enqueue_packet payload d =
     (if length (sd_incoming d) < datagramQueueDepth
      then d\<lparr>sd_incoming := sd_incoming d @ [payload]\<rparr> else d)"

definition writeDatagram :: "server \<Rightarrow> u32 \<Rightarrow> bytes \<Rightarrow> server" where
  "writeDatagram s i payload =
     (case reg_find (sv_datagrams s) i of
        None \<Rightarrow> s
      | Some (k, d) \<Rightarrow> s\<lparr>sv_datagrams := reg_update (sv_datagrams s) k (enqueue_packet payload)\<rparr>)"

definition writeReverseDatagram :: "server \<Rightarrow> u32 \<Rightarrow> bytes \<Rightarrow> server" where
  "writeReverseDatagram s i payload =
     (case reg_find (sv_reverse s) i of
        None \<Rightarrow> s
      | Some (k, d) \<Rightarrow> s\<lparr>sv_reverse := reg_update (sv_reverse s) k (enqueue_packet payload)\<rparr>)"

definition push_event :: "serverStreamEvent \<Rightarrow> serverStream \<Rightarrow> serverStream" where
  "push_event ev st = st\<lparr>st_incoming := st_incoming st @ [ev]\<rparr>"

text \<open>
  \<open>handle\<close>; \<open>None\<close> is a dispatcher that blocks.  That happens in one branch only: HALF_CLOSE
  sends to the stream's event channel in a \<open>select\<close> without a default, so it waits while the
  channel is full and the stream is open.
\<close>

definition handle_data :: "server \<Rightarrow> u32 \<Rightarrow> bytes \<Rightarrow> server" where
  "handle_data s i payload =
     (case reg_find (sv_streams s) i of
        None \<Rightarrow> s
      | Some (k, st) \<Rightarrow>
          if length (st_incoming st) < streamQueueSize
          then s\<lparr>sv_streams := reg_update (sv_streams s) k
                   (push_event \<lparr>ev_data = payload, ev_halfClose = False\<rparr>)\<rparr>
          else if st_done st then s
          else server_reset s i (ErrText (str ''stream receive window exceeded'')))"

definition handle_half_close :: "server \<Rightarrow> u32 \<Rightarrow> server option" where
  "handle_half_close s i =
     (case reg_find (sv_streams s) i of
        None \<Rightarrow> Some s
      | Some (k, st) \<Rightarrow>
          if length (st_incoming st) < streamQueueSize
          then Some (s\<lparr>sv_streams := reg_update (sv_streams s) k
                        (push_event \<lparr>ev_data = [], ev_halfClose = True\<rparr>)\<rparr>)
          else if st_done st then Some s
          else None)"

definition handle_window_update :: "server \<Rightarrow> u32 \<Rightarrow> bytes \<Rightarrow> server" where
  "handle_window_update s i payload =
     (case reg_find (sv_streams s) i of
        None \<Rightarrow> s
      | Some (k, st) \<Rightarrow>
          (case window_add (st_window st) (DecodeWindowUpdate payload) of
             (w, True) \<Rightarrow>
               s\<lparr>sv_streams := reg_update (sv_streams s) k (\<lambda>st. st\<lparr>st_window := w\<rparr>)\<rparr>
           | (w, False) \<Rightarrow>
               server_reset s i (ErrText (str ''invalid stream window update''))))"

definition server_handle ::
  "(bytes \<Rightarrow> bytes result) \<Rightarrow> (bytes \<Rightarrow> (nat \<times> bytes) result) \<Rightarrow> server \<Rightarrow> Frame \<Rightarrow> server option" where
  "server_handle resolve listen s f =
     (let kind = fType f; i = fStreamID f; payload = fPayload f in
      if kind = TypeHello then
        Some (send_ignore (s\<lparr>sv_peerCapabilities := DecodeCapabilities payload\<rparr>)
               (mkFrame TypeHelloOK 0 (EncodeHelloOK AllCapabilities (sv_peerInstanceID s))))
      else if kind = TypeOpen then Some (startOpen s TypeOpenError i (TOpen i payload))
      else if kind = TypeListenOpen then Some (startOpen s TypeListenError i (TListen i payload))
      else if kind = TypeListenClose then Some (removeListener s i)
      else if kind = TypeListenCommit then Some (commitListener s i)
      else if kind = TypeListenDatagramOpen then Some (openReverseDatagram resolve listen s i payload)
      else if kind = TypeListenDatagramData then Some (writeReverseDatagram s i payload)
      else if kind = TypeListenDatagramClose then Some (removeReverseDatagram s i)
      else if kind = TypeDatagramOpen then Some (startOpen s TypeDatagramError i (TOpenDatagram i))
      else if kind = TypeDatagramData then Some (writeDatagram s i payload)
      else if kind = TypeDatagramClose then Some (removeDatagram s i)
      else if kind = TypeData then Some (handle_data s i payload)
      else if kind = TypeHalfClose then handle_half_close s i
      else if kind = TypeWindowUpdate then Some (handle_window_update s i payload)
      else if kind = TypeClose \<or> kind = TypeReset then Some (server_remove s i)
      else Some s)"

section \<open>Workers\<close>

text \<open>
  \<open>serveListener\<close>: before the commit it only waits; afterwards every \<open>Accept\<close> outcome is an
  error or a new socket.  The result is the new state and whether the goroutine goes on.
\<close>

definition registerInboundStream :: "server \<Rightarrow> nat \<Rightarrow> server \<times> (u32 \<times> nat) option" where
  "registerInboundStream s conn =
     (if MaxConcurrentStreams \<le> reg_count (sv_streams s) then (s, None)
      else
        let i = sv_nextStream s + 2; s1 = s\<lparr>sv_nextStream := i\<rparr> in
        if ids (sv_streams s1) i \<noteq> None then (s1, None)
        else (s1\<lparr>sv_streams := reg_insert (sv_streams s1) i (newServerStream (Some conn))\<rparr>,
              Some (i, nextobj (sv_streams s1))))"

definition serveListener_accept :: "server \<Rightarrow> u32 \<Rightarrow> nat result \<Rightarrow> server \<times> bool" where
  "serveListener_accept s i accepted =
     (case accepted of
        Inl err \<Rightarrow> (send_ignore (removeListener s i) (mkFrame TypeListenClose i []), False)
      | Inr conn \<Rightarrow>
          (case registerInboundStream s conn of
             (s1, None) \<Rightarrow> (closeSocket s1 (Some conn), True)
           | (s1, Some (streamID, k)) \<Rightarrow>
               let s2 = spawn s1 (TWriteToRemote streamID k) in
               (case send s2 (mkFrame TypeInboundOpen streamID (PutUint32 i)) of
                  (s3, Some err) \<Rightarrow> (server_remove s3 streamID, False)
                | (s3, None) \<Rightarrow> (spawn s3 (TCopyToClient streamID conn), True))))"

text \<open>
  One round of \<open>copyToClient\<close> after a read of \<open>buf\<close> with error \<open>rerr\<close>.  Credit is taken with
  \<open>take(len(buf))\<close>, whose result is only checked for an error, and then all of \<open>buf\<close> is sent.
  The result is the new state and the task that goes on, if any.
\<close>

definition copy_after_data :: "server \<Rightarrow> u32 \<Rightarrow> nat \<Rightarrow> goerr option \<Rightarrow> server \<times> task option" where
  "copy_after_data s i conn rerr =
     (case rerr of
        Some err \<Rightarrow> (send_ignore s (mkFrame TypeHalfClose i []), None)
      | None \<Rightarrow> (s, Some (TCopyToClient i conn)))"

definition copy_send :: "server \<Rightarrow> u32 \<Rightarrow> nat \<Rightarrow> nat \<Rightarrow> bytes \<Rightarrow> goerr option \<Rightarrow> server \<times> task option" where
  "copy_send s i conn k buf rerr =
     (case objs (sv_streams s) k of
        None \<Rightarrow> (s, None)
      | Some st \<Rightarrow>
          (case window_take (st_window st) (length buf)
                  (if st_done st then [(NoDeadline, DoneClosed, st_window st)] else []) of
             None \<Rightarrow> (s, Some (TCopyWaiting i conn k buf rerr))
           | Some (w, Inl err) \<Rightarrow> (s, None)
           | Some (w, Inr count) \<Rightarrow>
               let s1 = s\<lparr>sv_streams := reg_update (sv_streams s) k (\<lambda>st. st\<lparr>st_window := w\<rparr>)\<rparr> in
               (case send s1 (mkFrame TypeData i buf) of
                  (s2, Some err) \<Rightarrow> (server_remove s2 i, None)
                | (s2, None) \<Rightarrow> copy_after_data s2 i conn rerr)))"

definition copyToClient :: "server \<Rightarrow> u32 \<Rightarrow> nat \<Rightarrow> bytes \<Rightarrow> goerr option \<Rightarrow> server \<times> task option" where
  "copyToClient s i conn buf rerr =
     (if buf = [] then copy_after_data s i conn rerr
      else (case ids (sv_streams s) i of
              None \<Rightarrow> (s, None)
            | Some k \<Rightarrow> copy_send s i conn k buf rerr))"

text \<open>
  \<open>writeToRemote\<close>: the write loop over one data event.  \<open>outcomes\<close> are the results of the
  \<open>conn.Write\<close> calls; past their end a write accepts everything.  The boolean says whether the
  goroutine goes on with the next event.
\<close>

function remote_write_loop ::
  "server \<Rightarrow> u32 \<Rightarrow> nat \<Rightarrow> bytes \<Rightarrow> (nat \<times> goerr option) list \<Rightarrow> server \<times> bool" where
  "remote_write_loop s i conn buf outcomes =
     (if buf = [] then (s, True)
      else
        let (n, err) = (case outcomes of [] \<Rightarrow> (length buf, None) | p # _ \<Rightarrow> p);
            count = min n (length buf);
            s1 = s\<lparr>sv_remote := sv_remote s @ [(conn, take count buf)]\<rparr>
        in (case (if 0 < count
                  then send s1 (mkFrame TypeWindowUpdate i (EncodeWindowUpdate (word_of_nat count)))
                  else (s1, None)) of
              (s2, Some e) \<Rightarrow> (server_remove s2 i, False)
            | (s2, None) \<Rightarrow>
                (case err of
                   Some e \<Rightarrow> (server_reset s2 i e, False)
                 | None \<Rightarrow>
                     if count = 0 then (server_reset s2 i IoErrShortWrite, False)
                     else remote_write_loop s2 i conn (drop count buf) (tl outcomes))))"
  by pat_completeness auto
termination
  by (relation "measure (\<lambda>(s, i, conn, buf, outcomes). length buf)") (auto split: list.splits)

declare remote_write_loop.simps [simp del]

text \<open>
  One event of \<open>writeToRemote\<close>.  \<open>closeWrite\<close> is \<open>None\<close> when the socket has no
  \<open>CloseWrite\<close>, otherwise its error result.
\<close>

definition writeToRemote ::
  "server \<Rightarrow> u32 \<Rightarrow> nat \<Rightarrow> goerr option option \<Rightarrow> (nat \<times> goerr option) list \<Rightarrow> server \<times> bool" where
  "writeToRemote s i k closeWrite outcomes =
     (case objs (sv_streams s) k of
        None \<Rightarrow> (s, False)
      | Some st \<Rightarrow>
          (case st_incoming st of
             [] \<Rightarrow> (s, \<not> st_done st)
           | ev # rest \<Rightarrow>
               let s1 = s\<lparr>sv_streams := reg_update (sv_streams s) k (\<lambda>st. st\<lparr>st_incoming := rest\<rparr>)\<rparr> in
               if ev_halfClose ev
               then (case closeWrite of
                       Some (Some err) \<Rightarrow> (server_reset s1 i err, False)
                     | _ \<Rightarrow> (s1, True))
               else (case st_conn st of
                       None \<Rightarrow> (s1, False)
                     | Some conn \<Rightarrow> remote_write_loop s1 i conn (ev_data ev) outcomes)))"

text \<open>The packet workers; \<open>deliver\<close> is the outcome of resolving the target and writing.\<close>

definition writeDatagrams :: "server \<Rightarrow> u32 \<Rightarrow> nat \<Rightarrow> (bytes \<Rightarrow> bytes \<Rightarrow> goerr option) \<Rightarrow> server \<times> bool" where
  "writeDatagrams s i k deliver =
     (case objs (sv_datagrams s) k of
        None \<Rightarrow> (s, False)
      | Some d \<Rightarrow>
          (case sd_incoming d of
             [] \<Rightarrow> (s, \<not> sd_done d)
           | payload # rest \<Rightarrow>
               let s1 = s\<lparr>sv_datagrams := reg_update (sv_datagrams s) k (\<lambda>d. d\<lparr>sd_incoming := rest\<rparr>)\<rparr> in
               (case DecodeDatagram payload of
                  Inl err \<Rightarrow> (datagramError s1 i err, True)
                | Inr (target, data) \<Rightarrow>
                    (case deliver target data of
                       Some err \<Rightarrow> (datagramError s1 i err, True)
                     | None \<Rightarrow>
                         (case sd_conn d of
                            None \<Rightarrow> (s1, True)
                          | Some conn \<Rightarrow> (s1\<lparr>sv_packets := sv_packets s1 @ [(conn, target, data)]\<rparr>, True))))))"

definition writeReverseDatagrams :: "server \<Rightarrow> u32 \<Rightarrow> nat \<Rightarrow> (bytes \<Rightarrow> bytes \<Rightarrow> goerr option) \<Rightarrow> server \<times> bool" where
  "writeReverseDatagrams s i k deliver =
     (case objs (sv_reverse s) k of
        None \<Rightarrow> (s, False)
      | Some d \<Rightarrow>
          (case sd_incoming d of
             [] \<Rightarrow> (s, \<not> sd_done d)
           | payload # rest \<Rightarrow>
               let s1 = s\<lparr>sv_reverse := reg_update (sv_reverse s) k (\<lambda>d. d\<lparr>sd_incoming := rest\<rparr>)\<rparr> in
               (case DecodeDatagram payload of
                  Inl err \<Rightarrow> (reverseDatagramError s1 i err, True)
                | Inr (target, data) \<Rightarrow>
                    (case deliver target data of
                       Some err \<Rightarrow> (reverseDatagramError s1 i err, True)
                     | None \<Rightarrow>
                         (case sd_conn d of
                            None \<Rightarrow> (s1, True)
                          | Some conn \<Rightarrow> (s1\<lparr>sv_packets := sv_packets s1 @ [(conn, target, data)]\<rparr>, True))))))"

text \<open>The packet readers: one \<open>ReadFrom\<close>, an error or a source address with data.\<close>

definition readDatagrams :: "server \<Rightarrow> u32 \<Rightarrow> (bytes \<times> bytes) result \<Rightarrow> server \<times> bool" where
  "readDatagrams s i received =
     (case received of
        Inl err \<Rightarrow> (removeDatagram s i, False)
      | Inr (source, data) \<Rightarrow>
          (case EncodeDatagram source data of
             Inl err \<Rightarrow> (s, True)
           | Inr payload \<Rightarrow>
               (case send s (mkFrame TypeDatagramData i payload) of
                  (s1, Some err) \<Rightarrow> (removeDatagram s1 i, False)
                | (s1, None) \<Rightarrow> (s1, True))))"

definition readReverseDatagrams :: "server \<Rightarrow> u32 \<Rightarrow> (bytes \<times> bytes) result \<Rightarrow> server \<times> bool" where
  "readReverseDatagrams s i received =
     (case received of
        Inl err \<Rightarrow>
          (send_ignore (removeReverseDatagram s i) (mkFrame TypeListenDatagramClose i []), False)
      | Inr (source, data) \<Rightarrow>
          (case EncodeDatagram source data of
             Inl err \<Rightarrow> (s, True)
           | Inr payload \<Rightarrow>
               (case send s (mkFrame TypeListenDatagramData i payload) of
                  (s1, Some err) \<Rightarrow> (removeReverseDatagram s1 i, False)
                | (s1, None) \<Rightarrow> (s1, True))))"

section \<open>Shutdown and the serve loops\<close>

text \<open>\<open>shutdown\<close>; the id lists are the keys of the maps in the order the iteration yields them.\<close>

definition shutdown :: "server \<Rightarrow> u32 list \<Rightarrow> u32 list \<Rightarrow> u32 list \<Rightarrow> u32 list \<Rightarrow> server" where
  "shutdown s listenerIDs datagramIDs reverseIDs streamIDs =
     foldl server_remove
       (foldl removeReverseDatagram
         (foldl removeDatagram
           (foldl removeListener (s\<lparr>sv_cancelled := True\<rparr>) listenerIDs) datagramIDs) reverseIDs)
       streamIDs"

text \<open>
  \<open>Serve\<close> and \<open>ServeAttached\<close> over the results of the coming frame reads: the loop ends with the
  error that is returned.  \<open>ServeAttached\<close> goes on after a detached read.  \<open>None\<close>: still
  running (or blocked) when the list ends.
\<close>

fun Serve_loop ::
  "(bytes \<Rightarrow> bytes result) \<Rightarrow> (bytes \<Rightarrow> (nat \<times> bytes) result) \<Rightarrow> server \<Rightarrow> Frame result list
     \<Rightarrow> server \<times> goerr option" where
  "Serve_loop resolve listen s [] = (s, None)"
| "Serve_loop resolve listen s (Inl err # reads) =
     (s, Some (if sv_cancelled s then ContextCanceled else err))"
| "Serve_loop resolve listen s (Inr f # reads) =
     (case server_handle resolve listen s f of
        None \<Rightarrow> (s, None)
      | Some s1 \<Rightarrow> Serve_loop resolve listen s1 reads)"

fun ServeAttached_loop ::
  "(bytes \<Rightarrow> bytes result) \<Rightarrow> (bytes \<Rightarrow> (nat \<times> bytes) result) \<Rightarrow> server \<Rightarrow> Frame result list
     \<Rightarrow> server \<times> goerr option" where
  "ServeAttached_loop resolve listen s [] = (s, None)"
| "ServeAttached_loop resolve listen s (Inl err # reads) =
     (if sv_cancelled s then (s, Some ContextCanceled)
      else if err_is err ErrDetached then ServeAttached_loop resolve listen s reads
      else (s, Some err))"
| "ServeAttached_loop resolve listen s (Inr f # reads) =
     (case server_handle resolve listen s f of
        None \<Rightarrow> (s, None)
      | Some s1 \<Rightarrow> ServeAttached_loop resolve listen s1 reads)"

end
