(* ===== verification/RelayServerInv.thy ===== *)
theory RelayServerInv
  imports RelayServer
begin

text \<open>
  The interleaving semantics of the relay server and its resource invariant.  A step is the
  dispatch of one valid frame or one round of one goroutine with an arbitrary outcome of its
  blocking call.  The invariant \<open>server_inv\<close> bounds every registry, queue and window, says that
  every object outside its map is closed and its socket released, and accounts for the open slots.
\<close>

named_theorems core_intro \<open>operations that keep the registry part of the invariant\<close>

section \<open>What each primitive leaves alone\<close>

lemma send_fields [simp]:
  "sv_streams (fst (send s f)) = sv_streams s" "sv_listeners (fst (send s f)) = sv_listeners s"
  "sv_datagrams (fst (send s f)) = sv_datagrams s" "sv_reverse (fst (send s f)) = sv_reverse s"
  "sv_nextStream (fst (send s f)) = sv_nextStream s" "sv_openSlots (fst (send s f)) = sv_openSlots s"
  "sv_tasks (fst (send s f)) = sv_tasks s" "sv_cancelled (fst (send s f)) = sv_cancelled s"
  "sv_closed (fst (send s f)) = sv_closed s" "sv_remote (fst (send s f)) = sv_remote s"
  "sv_packets (fst (send s f)) = sv_packets s"
  "sv_peerCapabilities (fst (send s f)) = sv_peerCapabilities s"
  by (simp_all add: send_def split: prod.splits)

lemma closeSocket_fields [simp]:
  "sv_streams (closeSocket s c) = sv_streams s" "sv_listeners (closeSocket s c) = sv_listeners s"
  "sv_datagrams (closeSocket s c) = sv_datagrams s" "sv_reverse (closeSocket s c) = sv_reverse s"
  "sv_openSlots (closeSocket s c) = sv_openSlots s" "sv_tasks (closeSocket s c) = sv_tasks s"
  "sv_cancelled (closeSocket s c) = sv_cancelled s" "sv_tx (closeSocket s c) = sv_tx s"
  "set (sv_closed (closeSocket s c)) = set (sv_closed s) \<union> set_option c"
  by (auto simp: closeSocket_def split: option.splits)

lemma spawn_fields [simp]:
  "sv_streams (spawn s t) = sv_streams s" "sv_listeners (spawn s t) = sv_listeners s"
  "sv_datagrams (spawn s t) = sv_datagrams s" "sv_reverse (spawn s t) = sv_reverse s"
  "sv_openSlots (spawn s t) = sv_openSlots s" "sv_tasks (spawn s t) = sv_tasks s @ [t]"
  "sv_cancelled (spawn s t) = sv_cancelled s" "sv_closed (spawn s t) = sv_closed s"
  "sv_tx (spawn s t) = sv_tx s" "sv_peerCapabilities (spawn s t) = sv_peerCapabilities s"
  by (simp_all add: spawn_def)

lemma releaseSlot_fields [simp]:
  "sv_streams (releaseSlot s) = sv_streams s" "sv_listeners (releaseSlot s) = sv_listeners s"
  "sv_datagrams (releaseSlot s) = sv_datagrams s" "sv_reverse (releaseSlot s) = sv_reverse s"
  "sv_openSlots (releaseSlot s) = sv_openSlots s - 1" "sv_tasks (releaseSlot s) = sv_tasks s"
  "sv_cancelled (releaseSlot s) = sv_cancelled s" "sv_closed (releaseSlot s) = sv_closed s"
  "sv_tx (releaseSlot s) = sv_tx s"
  by (simp_all add: releaseSlot_def)

text \<open>The removal operations touch their own registry and the log of closed sockets only.\<close>

lemma server_remove_fields [simp]:
  "sv_listeners (server_remove s i) = sv_listeners s" "sv_datagrams (server_remove s i) = sv_datagrams s"
  "sv_reverse (server_remove s i) = sv_reverse s" "sv_tasks (server_remove s i) = sv_tasks s"
  "sv_openSlots (server_remove s i) = sv_openSlots s" "sv_cancelled (server_remove s i) = sv_cancelled s"
  "sv_tx (server_remove s i) = sv_tx s"
  by (simp_all add: server_remove_def Let_def split: option.splits prod.splits)

lemma removeDatagram_fields [simp]:
  "sv_listeners (removeDatagram s i) = sv_listeners s" "sv_streams (removeDatagram s i) = sv_streams s"
  "sv_reverse (removeDatagram s i) = sv_reverse s" "sv_tasks (removeDatagram s i) = sv_tasks s"
  "sv_openSlots (removeDatagram s i) = sv_openSlots s" "sv_cancelled (removeDatagram s i) = sv_cancelled s"
  "sv_tx (removeDatagram s i) = sv_tx s"
  by (simp_all add: removeDatagram_def Let_def split: option.splits prod.splits)

lemma removeReverseDatagram_fields [simp]:
  "sv_listeners (removeReverseDatagram s i) = sv_listeners s"
  "sv_streams (removeReverseDatagram s i) = sv_streams s"
  "sv_datagrams (removeReverseDatagram s i) = sv_datagrams s"
  "sv_tasks (removeReverseDatagram s i) = sv_tasks s"
  "sv_openSlots (removeReverseDatagram s i) = sv_openSlots s"
  "sv_cancelled (removeReverseDatagram s i) = sv_cancelled s"
  "sv_tx (removeReverseDatagram s i) = sv_tx s"
  by (simp_all add: removeReverseDatagram_def Let_def split: option.splits prod.splits)

lemma removeListener_fields [simp]:
  "sv_streams (removeListener s i) = sv_streams s" "sv_datagrams (removeListener s i) = sv_datagrams s"
  "sv_reverse (removeListener s i) = sv_reverse s" "sv_tasks (removeListener s i) = sv_tasks s"
  "sv_openSlots (removeListener s i) = sv_openSlots s" "sv_cancelled (removeListener s i) = sv_cancelled s"
  "sv_tx (removeListener s i) = sv_tx s"
  by (simp_all add: removeListener_def Let_def split: option.splits prod.splits)

section \<open>The registries\<close>

definition stream_ok :: "serverStream \<Rightarrow> bool" where
  "stream_ok st \<longleftrightarrow> length (st_incoming st) \<le> streamQueueSize \<and> window_ok (st_window st)"

definition packets_ok :: "serverDatagram \<Rightarrow> bool" where
  "packets_ok d \<longleftrightarrow> length (sd_incoming d) \<le> datagramQueueDepth"

interpretation stream_reg: object_registry closeStream st_done stream_ok MaxConcurrentStreams
  by unfold_locales (simp_all add: closeStream_def stream_ok_def)

interpretation listener_reg: object_registry cancelListener sl_cancelled "\<lambda>_. True" MaxConcurrentListeners
  by unfold_locales (simp_all add: cancelListener_def)

interpretation datagram_reg: object_registry closeDatagram sd_done packets_ok MaxConcurrentDatagrams
  by unfold_locales (simp_all add: closeDatagram_def packets_ok_def)

text \<open>A closed object has given its socket back.\<close>

definition released :: "('o \<Rightarrow> bool) \<Rightarrow> ('o \<Rightarrow> nat option) \<Rightarrow> nat set \<Rightarrow> 'o reg \<Rightarrow> bool" where
  "released closed sock log r \<longleftrightarrow>
     (\<forall>k x c. objs r k = Some x \<longrightarrow> closed x \<longrightarrow> sock x = Some c \<longrightarrow> c \<in> log)"

lemma released_mono: "released closed sock log r \<Longrightarrow> log \<subseteq> log' \<Longrightarrow> released closed sock log' r"
  by (auto simp: released_def)

lemma released_insert: "released closed sock log r \<Longrightarrow> \<not> closed x \<Longrightarrow> released closed sock log (reg_insert r i x)"
  by (auto simp: released_def reg_insert_def)

lemma released_delete: "released closed sock log r \<Longrightarrow> released closed sock log (reg_delete r i)"
  by (auto simp: released_def reg_delete_def)

lemma released_update:
  assumes "released closed sock log r"
    and "\<And>x c. objs r k = Some x \<Longrightarrow> closed (f x) \<Longrightarrow> sock (f x) = Some c \<Longrightarrow> c \<in> log"
  shows "released closed sock log (reg_update r k f)"
  using assms by (auto simp: released_def reg_update_def split: if_splits)

definition core :: "server \<Rightarrow> bool" where
  "core s \<longleftrightarrow>
     reg_inv st_done stream_ok MaxConcurrentStreams (sv_streams s) \<and>
     reg_inv sl_cancelled (\<lambda>_. True) MaxConcurrentListeners (sv_listeners s) \<and>
     reg_inv sd_done packets_ok MaxConcurrentDatagrams (sv_datagrams s) \<and>
     reg_inv sd_done packets_ok MaxConcurrentReverseDatagrams (sv_reverse s) \<and>
     released st_done st_conn (set (sv_closed s)) (sv_streams s) \<and>
     released sl_cancelled sl_listener (set (sv_closed s)) (sv_listeners s) \<and>
     released sd_done sd_conn (set (sv_closed s)) (sv_datagrams s) \<and>
     released sd_done sd_conn (set (sv_closed s)) (sv_reverse s) \<and>
     \<not> sv_cancelled s"

lemma core_D:
  assumes "core s"
  shows "reg_inv st_done stream_ok MaxConcurrentStreams (sv_streams s)"
    and "reg_inv sl_cancelled (\<lambda>_. True) MaxConcurrentListeners (sv_listeners s)"
    and "reg_inv sd_done packets_ok MaxConcurrentDatagrams (sv_datagrams s)"
    and "reg_inv sd_done packets_ok MaxConcurrentReverseDatagrams (sv_reverse s)"
    and "released st_done st_conn (set (sv_closed s)) (sv_streams s)"
    and "released sl_cancelled sl_listener (set (sv_closed s)) (sv_listeners s)"
    and "released sd_done sd_conn (set (sv_closed s)) (sv_datagrams s)"
    and "released sd_done sd_conn (set (sv_closed s)) (sv_reverse s)"
    and "\<not> sv_cancelled s"
  using assms by (simp_all add: core_def)

lemma core_cong:
  "core s \<Longrightarrow> sv_streams t = sv_streams s \<Longrightarrow> sv_listeners t = sv_listeners s \<Longrightarrow>
   sv_datagrams t = sv_datagrams s \<Longrightarrow> sv_reverse t = sv_reverse s \<Longrightarrow>
   sv_closed t = sv_closed s \<Longrightarrow> sv_cancelled t = sv_cancelled s \<Longrightarrow> core t"
  by (simp add: core_def)

lemma core_send [core_intro]: "core s \<Longrightarrow> core (fst (send s f))"
  by (erule core_cong) simp_all

lemma core_send_pair: "core s \<Longrightarrow> send s f = (s', e) \<Longrightarrow> core s'"
  using core_send [of s f] by simp

lemma core_spawn [core_intro]: "core s \<Longrightarrow> core (spawn s t)"
  by (erule core_cong) simp_all

lemma core_releaseSlot [core_intro]: "core s \<Longrightarrow> core (releaseSlot s)"
  by (erule core_cong) simp_all

lemma core_closeSocket [core_intro]: "core s \<Longrightarrow> core (closeSocket s c)"
  by (auto simp: core_def elim!: released_mono)

lemma core_others [core_intro]:
  "core s \<Longrightarrow> core (s\<lparr>sv_tasks := ts\<rparr>)" "core s \<Longrightarrow> core (s\<lparr>sv_openSlots := n\<rparr>)"
  "core s \<Longrightarrow> core (s\<lparr>sv_remote := rm\<rparr>)" "core s \<Longrightarrow> core (s\<lparr>sv_packets := ps\<rparr>)"
  "core s \<Longrightarrow> core (s\<lparr>sv_nextStream := ns\<rparr>)" "core s \<Longrightarrow> core (s\<lparr>sv_peerCapabilities := c\<rparr>)"
  by (simp_all add: core_def)

text \<open>Updates of one object that keep it well-formed and open or closed as it was.\<close>

lemma core_streams_update:
  assumes "core s"
    and f: "\<And>x. objs (sv_streams s) k = Some x \<Longrightarrow> stream_ok x \<Longrightarrow> stream_ok (f x) \<and> st_done (f x) = st_done x"
    and c: "\<And>x. objs (sv_streams s) k = Some x \<Longrightarrow> st_done x \<Longrightarrow> st_conn (f x) = st_conn x"
  shows "core (s\<lparr>sv_streams := reg_update (sv_streams s) k f\<rparr>)"
proof -
  note D = core_D [OF assms(1)]
  have "reg_inv st_done stream_ok MaxConcurrentStreams (reg_update (sv_streams s) k f)"
    by (rule stream_reg.inv_update [OF D(1) f])
  moreover have "released st_done st_conn (set (sv_closed s)) (reg_update (sv_streams s) k f)"
    using D(5) c f reg_inv_D(5) [OF D(1)] by (intro released_update) (auto simp: released_def)
  ultimately show ?thesis using D by (simp add: core_def)
qed

lemma core_listeners_update:
  assumes "core s"
    and f: "\<And>x. objs (sv_listeners s) k = Some x \<Longrightarrow> sl_cancelled (f x) = sl_cancelled x"
    and c: "\<And>x. objs (sv_listeners s) k = Some x \<Longrightarrow> sl_cancelled x \<Longrightarrow> sl_listener (f x) = sl_listener x"
  shows "core (s\<lparr>sv_listeners := reg_update (sv_listeners s) k f\<rparr>)"
proof -
  note D = core_D [OF assms(1)]
  have "reg_inv sl_cancelled (\<lambda>_. True) MaxConcurrentListeners (reg_update (sv_listeners s) k f)"
    using f by (intro listener_reg.inv_update [OF D(2)]) simp
  moreover have "released sl_cancelled sl_listener (set (sv_closed s)) (reg_update (sv_listeners s) k f)"
    using D(6) c f by (intro released_update) (auto simp: released_def)
  ultimately show ?thesis using D by (simp add: core_def)
qed

lemma core_datagrams_update:
  assumes "core s"
    and f: "\<And>x. objs (sv_datagrams s) k = Some x \<Longrightarrow> packets_ok x \<Longrightarrow> packets_ok (f x) \<and> sd_done (f x) = sd_done x"
    and c: "\<And>x. objs (sv_datagrams s) k = Some x \<Longrightarrow> sd_done x \<Longrightarrow> sd_conn (f x) = sd_conn x"
  shows "core (s\<lparr>sv_datagrams := reg_update (sv_datagrams s) k f\<rparr>)"
proof -
  note D = core_D [OF assms(1)]
  have "reg_inv sd_done packets_ok MaxConcurrentDatagrams (reg_update (sv_datagrams s) k f)"
    by (rule datagram_reg.inv_update [OF D(3) f])
  moreover have "released sd_done sd_conn (set (sv_closed s)) (reg_update (sv_datagrams s) k f)"
    using D(7) c f reg_inv_D(5) [OF D(3)] by (intro released_update) (auto simp: released_def)
  ultimately show ?thesis using D by (simp add: core_def)
qed

lemma core_reverse_update:
  assumes "core s"
    and f: "\<And>x. objs (sv_reverse s) k = Some x \<Longrightarrow> packets_ok x \<Longrightarrow> packets_ok (f x) \<and> sd_done (f x) = sd_done x"
    and c: "\<And>x. objs (sv_reverse s) k = Some x \<Longrightarrow> sd_done x \<Longrightarrow> sd_conn (f x) = sd_conn x"
  shows "core (s\<lparr>sv_reverse := reg_update (sv_reverse s) k f\<rparr>)"
proof -
  note D = core_D [OF assms(1)]
  have "reg_inv sd_done packets_ok MaxConcurrentReverseDatagrams (reg_update (sv_reverse s) k f)"
    by (rule datagram_reg.inv_update [OF D(4) f])
  moreover have "released sd_done sd_conn (set (sv_closed s)) (reg_update (sv_reverse s) k f)"
    using D(8) c f reg_inv_D(5) [OF D(4)] by (intro released_update) (auto simp: released_def)
  ultimately show ?thesis using D by (simp add: core_def)
qed

text \<open>Insertions below the limit and removals.\<close>

lemma core_streams_insert:
  assumes "core s" and "ids (sv_streams s) i = None" and "reg_count (sv_streams s) < MaxConcurrentStreams"
  shows "core (s\<lparr>sv_streams := reg_insert (sv_streams s) i (newServerStream c)\<rparr>)"
proof -
  note D = core_D [OF assms(1)]
  have x: "stream_ok (newServerStream c)" "\<not> st_done (newServerStream c)"
    by (simp_all add: stream_ok_def newServerStream_def)
  show ?thesis
    using D stream_reg.inv_insert [OF D(1) assms(2,3) x] released_insert [where closed = st_done, OF D(5) x(2)]
    by (simp add: core_def)
qed

lemma core_listeners_insert:
  assumes "core s" and "ids (sv_listeners s) i = None" and "reg_count (sv_listeners s) < MaxConcurrentListeners"
  shows "core (s\<lparr>sv_listeners := reg_insert (sv_listeners s) i newServerListener\<rparr>)"
proof -
  note D = core_D [OF assms(1)]
  have x: "\<not> sl_cancelled newServerListener" by (simp add: newServerListener_def)
  show ?thesis
    using D listener_reg.inv_insert [OF D(2) assms(2,3) TrueI x]
      released_insert [where closed = sl_cancelled, OF D(6) x]
    by (simp add: core_def)
qed

lemma core_datagrams_insert:
  assumes "core s" and "ids (sv_datagrams s) i = None" and "reg_count (sv_datagrams s) < MaxConcurrentDatagrams"
  shows "core (s\<lparr>sv_datagrams := reg_insert (sv_datagrams s) i newServerDatagram\<rparr>)"
proof -
  note D = core_D [OF assms(1)]
  have x: "packets_ok newServerDatagram" "\<not> sd_done newServerDatagram"
    by (simp_all add: packets_ok_def newServerDatagram_def)
  show ?thesis
    using D datagram_reg.inv_insert [OF D(3) assms(2,3) x] released_insert [where closed = sd_done, OF D(7) x(2)]
    by (simp add: core_def)
qed

lemma core_reverse_insert:
  assumes "core s" and "ids (sv_reverse s) i = None" and "reg_count (sv_reverse s) < MaxConcurrentReverseDatagrams"
  shows "core (s\<lparr>sv_reverse := reg_insert (sv_reverse s) i newServerDatagram\<rparr>)"
proof -
  note D = core_D [OF assms(1)]
  have x: "packets_ok newServerDatagram" "\<not> sd_done newServerDatagram"
    by (simp_all add: packets_ok_def newServerDatagram_def)
  show ?thesis
    using D datagram_reg.inv_insert [OF D(4) assms(2,3) x] released_insert [where closed = sd_done, OF D(8) x(2)]
    by (simp add: core_def)
qed


text \<open>Removal closes the object and logs its socket.\<close>

lemma reg_delete_absent: "ids r i = None \<Longrightarrow> reg_delete r i = r"
  by (simp add: reg_delete_def fun_upd_idem)

lemma released_remove:
  assumes "released closed sock log r" and "objs r k = Some x" and "\<And>x. sock (close x) = sock x"
  shows "released closed sock (log \<union> set_option (sock x)) (reg_update (reg_delete r i) k close)"
  using assms by (auto simp: released_def reg_update_def reg_delete_def split: if_splits)

lemma core_server_remove [core_intro]:
  assumes "core s"
  shows "core (server_remove s i)"
proof (cases "reg_find (sv_streams s) i")
  case None
  note D = core_D [OF assms]
  have "ids (sv_streams s) i = None" using None reg_find_None [OF D(1)] by simp
  then show ?thesis using None assms by (simp add: server_remove_def reg_delete_absent)
next
  case (Some p)
  obtain k st where p: "p = (k, st)" by (cases p)
  note D = core_D [OF assms]
  have i: "ids (sv_streams s) i = Some k" and o: "objs (sv_streams s) k = Some st"
    using Some by (simp_all add: p reg_find_Some)
  have nd: "\<not> st_done st" using reg_inv_D(3) [OF D(1) i] o by simp
  have "released st_done st_conn (set (sv_closed s) \<union> set_option (st_conn st))
          (reg_update (reg_delete (sv_streams s) i) k closeStream)"
    by (rule released_remove [where sock = st_conn, OF D(5) o]) (simp add: closeStream_def)
  with D nd stream_reg.inv_remove [OF D(1) i] show ?thesis
    by (auto simp: server_remove_def Some p Let_def core_def intro: released_mono)
qed

lemma core_removeListener [core_intro]:
  assumes "core s"
  shows "core (removeListener s i)"
proof (cases "reg_find (sv_listeners s) i")
  case None
  note D = core_D [OF assms]
  have "ids (sv_listeners s) i = None" using None reg_find_None [OF D(2)] by simp
  then show ?thesis using None assms by (simp add: removeListener_def reg_delete_absent)
next
  case (Some p)
  obtain k l where p: "p = (k, l)" by (cases p)
  note D = core_D [OF assms]
  have i: "ids (sv_listeners s) i = Some k" and o: "objs (sv_listeners s) k = Some l"
    using Some by (simp_all add: p reg_find_Some)
  have "released sl_cancelled sl_listener (set (sv_closed s) \<union> set_option (sl_listener l))
          (reg_update (reg_delete (sv_listeners s) i) k cancelListener)"
    by (rule released_remove [where sock = sl_listener, OF D(6) o]) (simp add: cancelListener_def)
  with D listener_reg.inv_remove [OF D(2) i] show ?thesis
    by (auto simp: removeListener_def Some p Let_def core_def intro: released_mono)
qed

lemma core_removeDatagram [core_intro]:
  assumes "core s"
  shows "core (removeDatagram s i)"
proof (cases "reg_find (sv_datagrams s) i")
  case None
  note D = core_D [OF assms]
  have "ids (sv_datagrams s) i = None" using None reg_find_None [OF D(3)] by simp
  then show ?thesis using None assms by (simp add: removeDatagram_def reg_delete_absent)
next
  case (Some p)
  obtain k d where p: "p = (k, d)" by (cases p)
  note D = core_D [OF assms]
  have i: "ids (sv_datagrams s) i = Some k" and o: "objs (sv_datagrams s) k = Some d"
    using Some by (simp_all add: p reg_find_Some)
  have nd: "\<not> sd_done d" using reg_inv_D(3) [OF D(3) i] o by simp
  have "released sd_done sd_conn (set (sv_closed s) \<union> set_option (sd_conn d))
          (reg_update (reg_delete (sv_datagrams s) i) k closeDatagram)"
    by (rule released_remove [where sock = sd_conn, OF D(7) o]) (simp add: closeDatagram_def)
  with D nd datagram_reg.inv_remove [OF D(3) i] show ?thesis
    by (auto simp: removeDatagram_def Some p Let_def core_def intro: released_mono)
qed

lemma core_removeReverseDatagram [core_intro]:
  assumes "core s"
  shows "core (removeReverseDatagram s i)"
proof (cases "reg_find (sv_reverse s) i")
  case None
  note D = core_D [OF assms]
  have "ids (sv_reverse s) i = None" using None reg_find_None [OF D(4)] by simp
  then show ?thesis using None assms by (simp add: removeReverseDatagram_def reg_delete_absent)
next
  case (Some p)
  obtain k d where p: "p = (k, d)" by (cases p)
  note D = core_D [OF assms]
  have i: "ids (sv_reverse s) i = Some k" and o: "objs (sv_reverse s) k = Some d"
    using Some by (simp_all add: p reg_find_Some)
  have nd: "\<not> sd_done d" using reg_inv_D(3) [OF D(4) i] o by simp
  have "released sd_done sd_conn (set (sv_closed s) \<union> set_option (sd_conn d))
          (reg_update (reg_delete (sv_reverse s) i) k closeDatagram)"
    by (rule released_remove [where sock = sd_conn, OF D(8) o]) (simp add: closeDatagram_def)
  with D nd datagram_reg.inv_remove [OF D(4) i] show ?thesis
    by (auto simp: removeReverseDatagram_def Some p Let_def core_def intro: released_mono)
qed

lemma core_commitListener [core_intro]: "core s \<Longrightarrow> core (commitListener s i)"
  by (auto simp: commitListener_def split: option.splits intro!: core_listeners_update)

end
