(* ===== verification/RelayServerSafety.thy ===== *)
theory RelayServerSafety
  imports RelayServerInv
begin

text \<open>
  The interleavings of the relay server.  \<open>sinv n\<close> is the whole invariant while the running code
  holds \<open>n\<close> open slots of its own: the registry invariant \<open>core\<close>, the accounting of the open slots
  and what is known about a listener whose \<open>net.Listen\<close> is under way.  \<open>server_step\<close> has one
  rule per frame dispatch and per round of a goroutine, with any outcome of its blocking call.
\<close>

named_theorems sinv_intro \<open>operations that keep the server invariant\<close>

section \<open>Open slots and pending binds\<close>

definition held :: "server \<Rightarrow> nat" where
  "held s = length (filter holds_slot (sv_tasks s))"

definition slots_ok :: "nat \<Rightarrow> server \<Rightarrow> bool" where
  "slots_ok n s \<longleftrightarrow> sv_openSlots s = held s + n \<and> sv_openSlots s \<le> MaxConcurrentOpenOperations"

fun bind_keys :: "task list \<Rightarrow> (u32 \<times> nat) list" where
  "bind_keys [] = []"
| "bind_keys (TBind i k # ts) = (i, k) # bind_keys ts"
| "bind_keys (t # ts) = bind_keys ts"

definition is_bind :: "task \<Rightarrow> bool" where
  "is_bind t \<longleftrightarrow> bind_keys [t] \<noteq> []"

lemma is_bind_simps [simp]:
  "is_bind (TBind i k)" "\<not> is_bind (TOpen i p)" "\<not> is_bind (TDial i k)" "\<not> is_bind (TListen i p)"
  "\<not> is_bind (TOpenDatagram i)" "\<not> is_bind (TPacketDial i k)" "\<not> is_bind (TServeListener i k h)"
  "\<not> is_bind (TWriteToRemote i k)" "\<not> is_bind (TCopyToClient i k)" "\<not> is_bind (TCopyWaiting i h k b e)"
  "\<not> is_bind (TWriteDatagrams i k)" "\<not> is_bind (TReadDatagrams i k)" "\<not> is_bind (TWriteReverse i k)"
  "\<not> is_bind (TReadReverse i k)"
  by (simp_all add: is_bind_def)

lemma bind_keys_append: "bind_keys (xs @ ys) = bind_keys xs @ bind_keys ys"
  by (induction xs rule: bind_keys.induct) simp_all

lemma bind_keys_Cons: "bind_keys (t # ts) = bind_keys [t] @ bind_keys ts"
  using bind_keys_append [of "[t]" ts] by simp

lemma bind_keys_remove1_other:
  assumes "\<not> is_bind t"
  shows "bind_keys (remove1 t ts) = bind_keys ts"
proof (induction ts)
  case (Cons u ts)
  with assms show ?case
    using bind_keys_Cons [of u ts] bind_keys_Cons [of u "remove1 t ts"]
    by (cases "u = t") (simp_all add: is_bind_def)
qed simp

lemma bind_keys_remove1: "bind_keys (remove1 (TBind i k) ts) = remove1 (i, k) (bind_keys ts)"
proof (induction ts)
  case (Cons u ts)
  then show ?case by (cases u) simp_all
qed simp

lemma bind_keys_mem: "TBind i k \<in> set ts \<longleftrightarrow> (i, k) \<in> set (bind_keys ts)"
  by (induction ts rule: bind_keys.induct) auto

text \<open>
  A pending bind owns its listener object: no other pending bind has it, it can only be in the map
  under the bind's own id, and it has no socket yet.
\<close>

definition bind_ok :: "serverListener reg \<Rightarrow> u32 \<times> nat \<Rightarrow> bool" where
  "bind_ok r p \<longleftrightarrow> snd p < nextobj r \<and> (\<forall>j. ids r j = Some (snd p) \<longrightarrow> j = fst p)
     \<and> (\<forall>l. objs r (snd p) = Some l \<longrightarrow> sl_listener l = None)"

definition binds_ok :: "serverListener reg \<Rightarrow> (u32 \<times> nat) list \<Rightarrow> bool" where
  "binds_ok r ps \<longleftrightarrow> distinct (map snd ps) \<and> list_all (bind_ok r) ps"

definition sinv :: "nat \<Rightarrow> server \<Rightarrow> bool" where
  "sinv n s \<longleftrightarrow> core s \<and> slots_ok n s \<and> binds_ok (sv_listeners s) (bind_keys (sv_tasks s))"

lemma sinv_D:
  assumes "sinv n s"
  shows "core s" and "slots_ok n s" and "binds_ok (sv_listeners s) (bind_keys (sv_tasks s))"
  using assms by (simp_all add: sinv_def)

lemma sinv_cong:
  assumes "sinv n s" and "core s \<Longrightarrow> core t" and "sv_listeners t = sv_listeners s"
    and "sv_tasks t = sv_tasks s" and "sv_openSlots t = sv_openSlots s"
  shows "sinv n t"
  using assms by (simp add: sinv_def slots_ok_def held_def)

lemma sinv_send [sinv_intro]: "sinv n s \<Longrightarrow> sinv n (fst (send s f))"
  by (erule sinv_cong) (simp_all add: core_intro)

lemma sinv_send_pair: "send s f = (s', e) \<Longrightarrow> sinv n s \<Longrightarrow> sinv n s'"
  using sinv_send [of n s f] by simp

lemma sinv_closeSocket [sinv_intro]: "sinv n s \<Longrightarrow> sinv n (closeSocket s c)"
  by (erule sinv_cong) (simp_all add: core_intro)

lemma sinv_removals [sinv_intro]:
  "sinv n s \<Longrightarrow> sinv n (server_remove s i)"
  "sinv n s \<Longrightarrow> sinv n (removeDatagram s i)"
  "sinv n s \<Longrightarrow> sinv n (removeReverseDatagram s i)"
  by (auto elim!: sinv_cong intro: core_intro)

lemma sinv_others [sinv_intro]:
  "sinv n s \<Longrightarrow> sinv n (s\<lparr>sv_remote := rm\<rparr>)" "sinv n s \<Longrightarrow> sinv n (s\<lparr>sv_packets := ps\<rparr>)"
  "sinv n s \<Longrightarrow> sinv n (s\<lparr>sv_nextStream := ns\<rparr>)" "sinv n s \<Longrightarrow> sinv n (s\<lparr>sv_peerCapabilities := c\<rparr>)"
  by (auto elim!: sinv_cong intro: core_intro)

lemma sinv_streams:
  "sinv n s \<Longrightarrow> core (s\<lparr>sv_streams := r\<rparr>) \<Longrightarrow> sinv n (s\<lparr>sv_streams := r\<rparr>)"
  by (erule sinv_cong) simp_all

lemma sinv_datagrams:
  "sinv n s \<Longrightarrow> core (s\<lparr>sv_datagrams := r\<rparr>) \<Longrightarrow> sinv n (s\<lparr>sv_datagrams := r\<rparr>)"
  by (erule sinv_cong) simp_all

lemma sinv_reverse:
  "sinv n s \<Longrightarrow> core (s\<lparr>sv_reverse := r\<rparr>) \<Longrightarrow> sinv n (s\<lparr>sv_reverse := r\<rparr>)"
  by (erule sinv_cong) simp_all

lemma sinv_releaseSlot [sinv_intro]: "sinv (Suc 0) s \<Longrightarrow> sinv 0 (releaseSlot s)"
  by (auto simp: sinv_def slots_ok_def held_def intro: core_intro)

lemma sinv_spawn [sinv_intro]:
  "sinv (n + (if holds_slot t then 1 else 0)) s \<Longrightarrow> \<not> is_bind t \<Longrightarrow> sinv n (spawn s t)"
  by (cases t) (auto simp: sinv_def slots_ok_def held_def bind_keys_append intro: core_intro)

section \<open>Listeners\<close>

lemma bind_ok_update:
  "bind_ok r p \<Longrightarrow> (\<And>l. objs r k = Some l \<Longrightarrow> k = snd p \<Longrightarrow> sl_listener (f l) = sl_listener l) \<Longrightarrow>
     bind_ok (reg_update r k f) p"
  by (auto simp: bind_ok_def reg_update_def split: if_splits)

lemma bind_ok_delete: "bind_ok r p \<Longrightarrow> bind_ok (reg_delete r i) p"
  by (auto simp: bind_ok_def reg_delete_def)

lemma bind_ok_insert: "bind_ok r p \<Longrightarrow> bind_ok (reg_insert r i newServerListener) p"
  by (auto simp: bind_ok_def reg_insert_def newServerListener_def split: if_splits)

lemma binds_ok_mono:
  "binds_ok r ps \<Longrightarrow> (\<And>p. p \<in> set ps \<Longrightarrow> bind_ok r p \<Longrightarrow> bind_ok r' p) \<Longrightarrow> binds_ok r' ps"
  by (auto simp: binds_ok_def list_all_iff)

lemma sinv_listeners:
  assumes "sinv n s" and "core (s\<lparr>sv_listeners := r\<rparr>)"
    and "\<And>p. p \<in> set (bind_keys (sv_tasks s)) \<Longrightarrow> bind_ok (sv_listeners s) p \<Longrightarrow> bind_ok r p"
  shows "sinv n (s\<lparr>sv_listeners := r\<rparr>)"
  using assms binds_ok_mono [of "sv_listeners s" "bind_keys (sv_tasks s)" r]
  by (auto simp: sinv_def slots_ok_def held_def)

lemma removeListener_binds:
  "bind_ok (sv_listeners s) p \<Longrightarrow> bind_ok (sv_listeners (removeListener s i)) p"
  by (auto simp: removeListener_def Let_def cancelListener_def split: option.splits
      intro!: bind_ok_update bind_ok_delete)

lemma sinv_removeListener [sinv_intro]: "sinv n s \<Longrightarrow> sinv n (removeListener s i)"
  using core_removeListener [of s i] binds_ok_mono [OF _ removeListener_binds]
  by (auto simp: sinv_def slots_ok_def held_def)

lemma sinv_commitListener [sinv_intro]:
  assumes "sinv n s"
  shows "sinv n (commitListener s i)"
proof (cases "reg_find (sv_listeners s) i")
  case None
  then show ?thesis using assms by (simp add: commitListener_def)
next
  case (Some p)
  then have "commitListener s i =
      s\<lparr>sv_listeners := reg_update (sv_listeners s) (fst p) (\<lambda>l. l\<lparr>sl_commit := True\<rparr>)\<rparr>"
    by (simp add: commitListener_def split: prod.splits)
  then show ?thesis
    using assms sinv_D(1) [OF assms] core_listeners_update
    by (auto intro!: sinv_listeners bind_ok_update)
qed


section \<open>Every operation keeps the invariant\<close>

lemmas core_of = sinv_D(1)

lemma stream_live:
  assumes "sinv n s" and "reg_find (sv_streams s) i = Some (k, st)"
  shows "objs (sv_streams s) k = Some st" and "stream_ok st" and "\<not> st_done st"
  using assms(2) reg_inv_D(3,5) [OF core_D(1) [OF core_of [OF assms(1)]]]
  by (fastforce simp: reg_find_Some)+

lemma sinv_streams_update [sinv_intro]:
  assumes "sinv n s"
    and "\<And>x. objs (sv_streams s) k = Some x \<Longrightarrow> stream_ok x \<Longrightarrow> stream_ok (f x) \<and> st_done (f x) = st_done x"
    and "\<And>x. objs (sv_streams s) k = Some x \<Longrightarrow> st_done x \<Longrightarrow> st_conn (f x) = st_conn x"
  shows "sinv n (s\<lparr>sv_streams := reg_update (sv_streams s) k f\<rparr>)"
  by (intro sinv_streams assms core_streams_update core_of [OF assms(1)])

lemma sinv_datagrams_update [sinv_intro]:
  assumes "sinv n s"
    and "\<And>x. objs (sv_datagrams s) k = Some x \<Longrightarrow> packets_ok x \<Longrightarrow> packets_ok (f x) \<and> sd_done (f x) = sd_done x"
    and "\<And>x. objs (sv_datagrams s) k = Some x \<Longrightarrow> sd_done x \<Longrightarrow> sd_conn (f x) = sd_conn x"
  shows "sinv n (s\<lparr>sv_datagrams := reg_update (sv_datagrams s) k f\<rparr>)"
  by (intro sinv_datagrams assms core_datagrams_update core_of [OF assms(1)])

lemma sinv_reverse_update [sinv_intro]:
  assumes "sinv n s"
    and "\<And>x. objs (sv_reverse s) k = Some x \<Longrightarrow> packets_ok x \<Longrightarrow> packets_ok (f x) \<and> sd_done (f x) = sd_done x"
    and "\<And>x. objs (sv_reverse s) k = Some x \<Longrightarrow> sd_done x \<Longrightarrow> sd_conn (f x) = sd_conn x"
  shows "sinv n (s\<lparr>sv_reverse := reg_update (sv_reverse s) k f\<rparr>)"
  by (intro sinv_reverse assms core_reverse_update core_of [OF assms(1)])

lemma sinv_reset [sinv_intro]: "sinv n s \<Longrightarrow> sinv n (server_reset s i e)"
  by (simp add: server_reset_def sinv_intro)

lemma sinv_errors [sinv_intro]:
  "sinv n s \<Longrightarrow> sinv n (datagramError s i e)" "sinv n s \<Longrightarrow> sinv n (reverseDatagramError s i e)"
  by (simp_all add: datagramError_def reverseDatagramError_def sinv_intro)

lemma sinv_open_begin [sinv_intro]: "sinv (Suc 0) s \<Longrightarrow> sinv 0 (open_begin s i target)"
  unfolding open_begin_def
  by (auto intro!: sinv_intro sinv_streams core_streams_insert dest: core_of)

lemma datagram_done_D: "\<not> datagram_done s r k \<Longrightarrow> objs r k = Some d \<Longrightarrow> \<not> sd_done d"
  by (simp add: datagram_done_def)

lemma sinv_open_finish [sinv_intro]:
  assumes "sinv (Suc 0) s"
  shows "sinv 0 (open_finish s i dialed)"
proof -
  have upd: "sinv (Suc 0) t"
    if "send (spawn (s\<lparr>sv_streams := reg_update (sv_streams s) k (st_conn_update (\<lambda>_. Some c))\<rparr>)
                (TWriteToRemote i k)) f = (t, e)"
      and "reg_find (sv_streams s) i = Some (k, st)" for t k st c f e
    using assms stream_live [OF assms that(2)]
    by (intro sinv_send_pair [OF that(1)] sinv_intro) (auto simp: stream_ok_def)
  show ?thesis unfolding open_finish_def Let_def
    using assms
    by (auto intro!: sinv_intro dest: upd split: sum.splits option.splits prod.splits)
qed

lemma sinv_openDatagram_begin [sinv_intro]: "sinv (Suc 0) s \<Longrightarrow> sinv 0 (openDatagram_begin s i)"
  unfolding openDatagram_begin_def
  by (auto intro!: sinv_intro sinv_datagrams core_datagrams_insert dest: core_of)

lemma sinv_openDatagram_finish [sinv_intro]:
  assumes "sinv (Suc 0) s"
  shows "sinv 0 (openDatagram_finish s i k dialed)"
proof -
  have upd: "sinv (Suc 0) t"
    if "send (s\<lparr>sv_datagrams := reg_update (sv_datagrams s) k (sd_conn_update (\<lambda>_. Some c))\<rparr>) f = (t, e)"
      and "\<not> datagram_done s (sv_datagrams s) k" for t c f e
    using assms datagram_done_D [OF that(2)]
    by (intro sinv_send_pair [OF that(1)] sinv_intro) (auto simp: packets_ok_def)
  show ?thesis unfolding openDatagram_finish_def Let_def
    using assms
    by (auto intro!: sinv_intro dest: upd split: sum.splits option.splits prod.splits)
qed

lemma sinv_openReverseDatagram [sinv_intro]:
  assumes "sinv 0 s"
  shows "sinv 0 (openReverseDatagram resolve listen s i addr)"
proof -
  let ?s1 = "s\<lparr>sv_reverse := reg_insert (sv_reverse s) i newServerDatagram\<rparr>"
  have ins: "sinv 0 ?s1"
    if "ids (sv_reverse s) i = None" "\<not> MaxConcurrentReverseDatagrams \<le> reg_count (sv_reverse s)"
    using assms that by (auto intro!: sinv_reverse core_reverse_insert dest: core_of)
  have upd: "sinv 0 t"
    if "send (s\<lparr>sv_reverse := reg_update (reg_insert (sv_reverse s) i newServerDatagram) k
                  (sd_conn_update (\<lambda>_. Some c))\<rparr>) f = (t, e)"
      and "\<not> datagram_done ?s1 (reg_insert (sv_reverse s) i newServerDatagram) k" and "sinv 0 ?s1" for t k c f e
    using that(3) datagram_done_D [OF that(2)]
      sinv_reverse_update [of 0 ?s1 k "sd_conn_update (\<lambda>_. Some c)"]
    by (intro sinv_send_pair [OF that(1)]) (auto simp: packets_ok_def)
  show ?thesis
    unfolding openReverseDatagram_def Let_def
    by (auto intro!: sinv_intro ins assms split: sum.splits option.splits prod.splits dest!: upd)
qed

text \<open>The listener's bind, which owns its object.\<close>

lemma sinv_openListener_begin [sinv_intro]:
  assumes "sinv (Suc 0) s"
  shows "sinv 0 (openListener_begin s i addr)"
proof -
  let ?r = "reg_insert (sv_listeners s) i newServerListener"
  let ?k = "nextobj (sv_listeners s)"
  have "sinv 0 (spawn (s\<lparr>sv_listeners := ?r\<rparr>) (TBind i ?k))"
    if free: "ids (sv_listeners s) i = None" "\<not> MaxConcurrentListeners \<le> reg_count (sv_listeners s)"
  proof -
    note D = sinv_D [OF assms]
    note R = reg_inv_D [OF core_D(2) [OF D(1)]]
    have "core (s\<lparr>sv_listeners := ?r\<rparr>)" using free D(1) by (intro core_listeners_insert) auto
    moreover have "bind_ok ?r (i, ?k)"
      using R(3,4) by (fastforce simp: bind_ok_def reg_insert_def newServerListener_def)
    moreover have "?k \<notin> snd ` set (bind_keys (sv_tasks s))"
      using D(3) by (fastforce simp: binds_ok_def bind_ok_def list_all_iff)
    moreover have "list_all (bind_ok ?r) (bind_keys (sv_tasks s))"
      using D(3) by (auto simp: binds_ok_def list_all_iff intro: bind_ok_insert)
    ultimately show ?thesis
      using D by (auto simp: sinv_def binds_ok_def slots_ok_def held_def bind_keys_append intro: core_intro)
  qed
  then show ?thesis using assms unfolding openListener_begin_def by (auto intro!: sinv_intro)
qed

text \<open>\<open>owns s i k\<close>: the running code is the bind of object \<open>k\<close>, no longer among the tasks.\<close>

definition owns :: "server \<Rightarrow> u32 \<Rightarrow> nat \<Rightarrow> bool" where
  "owns s i k \<longleftrightarrow> bind_ok (sv_listeners s) (i, k) \<and> k \<notin> snd ` set (bind_keys (sv_tasks s))"

lemma core_owned_cancel:
  assumes "core s" and "owns s i k"
  shows "core (s\<lparr>sv_listeners := reg_update (if ids (sv_listeners s) i = Some k
           then reg_delete (sv_listeners s) i else sv_listeners s) k cancelListener\<rparr>)"
proof -
  note D = core_D [OF assms(1)]
  let ?r = "sv_listeners s"
  let ?r' = "reg_update (if ids ?r i = Some k then reg_delete ?r i else ?r) k cancelListener"
  have b: "\<And>j. ids ?r j = Some k \<Longrightarrow> j = i" "\<And>l. objs ?r k = Some l \<Longrightarrow> sl_listener l = None"
    using assms(2) by (auto simp: owns_def bind_ok_def)
  have rel: "released sl_cancelled sl_listener (set (sv_closed s)) ?r'"
    using D(6) b(2) by (auto simp: released_def reg_update_def reg_delete_def cancelListener_def split: if_splits)
  have inv: "reg_inv sl_cancelled (\<lambda>_. True) MaxConcurrentListeners ?r'"
  proof (cases "ids ?r i = Some k")
    case True
    then show ?thesis using listener_reg.inv_remove [OF D(2)] by simp
  next
    case False
    then have "ids ?r j \<noteq> Some k" for j using b(1) by metis
    then have "objs ?r k = Some l \<Longrightarrow> sl_cancelled l" for l using reg_inv_D(6) [OF D(2)] by blast
    then show ?thesis using False by (auto simp: cancelListener_def intro!: listener_reg.inv_update [OF D(2)])
  qed
  show ?thesis using D rel inv by (simp add: core_def)
qed

lemma owned_update_others:
  assumes "owns s i k" and "p \<in> set (bind_keys (sv_tasks s))" and "bind_ok r p"
  shows "bind_ok (reg_update r k f) p"
  using assms by (auto intro!: bind_ok_update simp: owns_def)

lemma sinv_openListener_finish:
  assumes s: "sinv (Suc 0) s" and k: "owns s i k"
  shows "sinv 0 (openListener_finish s i k bound)"
proof -
  note D = sinv_D [OF s]
  have cancel: "sinv (Suc 0) (s\<lparr>sv_listeners := reg_update (if ids (sv_listeners s) i = Some k
           then reg_delete (sv_listeners s) i else sv_listeners s) k cancelListener\<rparr>)"
    by (intro sinv_listeners [OF s core_owned_cancel [OF D(1) k]] owned_update_others [OF k])
       (auto intro: bind_ok_delete)
  have stale: "ids (sv_listeners s) i \<noteq> Some k"
    if "ids (sv_listeners s) i \<noteq> Some k \<or> listener_cancelled s k"
    using that core_D(9) [OF D(1)] reg_inv_D(3) [OF core_D(2) [OF D(1)], of i k]
    by (auto simp: listener_cancelled_def)
  have upd: "sinv (Suc 0) t"
    if "send (s\<lparr>sv_listeners := reg_update (sv_listeners s) k (sl_listener_update (\<lambda>_. Some c))\<rparr>) f = (t, e)"
      and "\<not> listener_cancelled s k" for t c f e
    using that(2) owned_update_others [OF k]
    by (intro sinv_send_pair [OF that(1)] sinv_listeners [OF s] core_listeners_update [OF D(1)])
       (auto simp: listener_cancelled_def)
  show ?thesis unfolding openListener_finish_def Let_def
    using s cancel stale
    by (auto intro!: sinv_intro dest: upd split: sum.splits option.splits prod.splits if_splits)
qed

lemma sinv_startOpen [sinv_intro]:
  "sinv 0 s \<Longrightarrow> holds_slot t \<Longrightarrow> \<not> is_bind t \<Longrightarrow> sinv 0 (startOpen s e i t)"
  by (cases t) (auto simp: startOpen_def sinv_def slots_ok_def held_def bind_keys_append intro: core_intro)

section \<open>Dispatch\<close>

lemma packets_ok_enqueue: "packets_ok d \<Longrightarrow> packets_ok (enqueue_packet p d)"
  by (simp add: packets_ok_def enqueue_packet_def)

lemma enqueue_packet_fields [simp]:
  "sd_done (enqueue_packet p d) = sd_done d" "sd_conn (enqueue_packet p d) = sd_conn d"
  by (simp_all add: enqueue_packet_def)

lemma sinv_writes [sinv_intro]:
  "sinv n s \<Longrightarrow> sinv n (writeDatagram s i p)" "sinv n s \<Longrightarrow> sinv n (writeReverseDatagram s i p)"
  by (auto simp: writeDatagram_def writeReverseDatagram_def packets_ok_enqueue
      intro!: sinv_intro split: option.splits)

lemma sinv_push_event:
  assumes "sinv n s" and "reg_find (sv_streams s) i = Some (k, st)"
    and "length (st_incoming st) < streamQueueSize"
  shows "sinv n (s\<lparr>sv_streams := reg_update (sv_streams s) k (push_event ev)\<rparr>)"
  using assms stream_live [OF assms(1,2)]
  by (auto intro!: sinv_intro simp: push_event_def stream_ok_def)

lemma sinv_handle_data [sinv_intro]: "sinv n s \<Longrightarrow> sinv n (handle_data s i p)"
  by (auto simp: handle_data_def intro!: sinv_intro sinv_push_event split: option.splits)

lemma sinv_handle_half_close: "sinv n s \<Longrightarrow> handle_half_close s i = Some s' \<Longrightarrow> sinv n s'"
  by (auto simp: handle_half_close_def intro: sinv_push_event split: option.splits if_splits)

lemma sinv_handle_window_update [sinv_intro]: "sinv n s \<Longrightarrow> sinv n (handle_window_update s i p)"
  by (auto simp: handle_window_update_def stream_ok_def window_add_True window_ok_def
      intro!: sinv_intro split: option.splits prod.splits bool.splits)

lemma sinv_server_handle:
  assumes "sinv 0 s" and "server_handle resolve listen s f = Some s'"
  shows "sinv 0 s'"
  using assms sinv_handle_half_close [OF assms(1)]
  unfolding server_handle_def Let_def
  by (auto split: if_splits intro!: sinv_intro)

section \<open>Workers\<close>

lemma sinv_registerInboundStream:
  assumes "sinv n s" and "registerInboundStream s conn = (s', r)"
  shows "sinv n s'"
proof -
  have "sinv n (s\<lparr>sv_nextStream := i,
      sv_streams := reg_insert (sv_streams s) i (newServerStream (Some conn))\<rparr>)"
    if "ids (sv_streams s) i = None" "\<not> MaxConcurrentStreams \<le> reg_count (sv_streams s)" for i
    using that assms(1) core_streams_insert [of "s\<lparr>sv_nextStream := i\<rparr>" i "Some conn"]
    by (intro sinv_cong [OF assms(1)]) (auto dest: core_of intro: core_intro)
  with assms show ?thesis
    by (auto simp: registerInboundStream_def Let_def sinv_intro split: if_splits)
qed

lemma sinv_serveListener_accept:
  assumes "sinv n s" and "serveListener_accept s i accepted = (s', b)"
  shows "sinv n s'"
  using assms unfolding serveListener_accept_def Let_def
  by (auto split: sum.splits prod.splits option.splits intro!: sinv_intro
      dest!: sinv_registerInboundStream [OF assms(1)] sinv_send_pair)

lemma sinv_copy_after_data:
  "sinv n s \<Longrightarrow> copy_after_data s i c rerr = (s', t) \<Longrightarrow> sinv n s'"
  by (auto simp: copy_after_data_def sinv_intro split: option.splits)

lemma window_take_once_ok:
  assumes "window_ok w" and "wakes = [] \<or> wakes = [(NoDeadline, DoneClosed, w)]"
    and "window_take w n wakes = Some (w', r)"
  shows "window_ok w'"
proof (cases "0 < available w")
  case True
  with assms show ?thesis by (auto simp: window_take_now window_ok_def)
next
  case False
  with assms show ?thesis by (subst (asm) window_take.simps) auto
qed

lemma sinv_copy_send:
  assumes s: "sinv n s" and r: "copy_send s i c k buf rerr = (s', t)"
  shows "sinv n s'"
proof (cases "objs (sv_streams s) k")
  case None
  with s r show ?thesis by (simp add: copy_send_def)
next
  case (Some st)
  define wakes where
    "wakes = (if st_done st then [(NoDeadline, DoneClosed, st_window st)] else [])"
  have st: "stream_ok st" using reg_inv_D(5) [OF core_D(1) [OF core_of [OF s]] Some] .
  show ?thesis
  proof (cases "\<exists>w count. window_take (st_window st) (length buf) wakes = Some (w, Inr count)")
    case False
    with s r Some show ?thesis
      by (auto simp: copy_send_def wakes_def [symmetric] split: option.splits sum.splits)
  next
    case True
    then obtain w count where w: "window_take (st_window st) (length buf) wakes = Some (w, Inr count)"
      by blast
    have "window_ok w"
      using w st by (intro window_take_once_ok [OF _ _ w]) (auto simp: wakes_def stream_ok_def)
    then have upd: "sinv n (s\<lparr>sv_streams := reg_update (sv_streams s) k (\<lambda>st. st\<lparr>st_window := w\<rparr>)\<rparr>)"
      using s by (auto intro!: sinv_intro simp: stream_ok_def)
    have "copy_send s i c k buf rerr =
        (case send (s\<lparr>sv_streams := reg_update (sv_streams s) k (\<lambda>st. st\<lparr>st_window := w\<rparr>)\<rparr>)
                (mkFrame TypeData i buf) of
           (s2, Some err) \<Rightarrow> (server_remove s2 i, None)
         | (s2, None) \<Rightarrow> copy_after_data s2 i c rerr)"
      using Some w by (simp add: copy_send_def wakes_def)
    with r show ?thesis
      by (auto simp: Let_def sinv_intro split: prod.splits option.splits dest!: sinv_send_pair [OF _ upd]
          dest: sinv_copy_after_data)
  qed
qed

lemma sinv_copyToClient:
  "sinv n s \<Longrightarrow> copyToClient s i c buf rerr = (s', t) \<Longrightarrow> sinv n s'"
  by (auto simp: copyToClient_def split: if_splits option.splits
      dest: sinv_copy_send sinv_copy_after_data)

lemma sinv_remote_write_loop:
  "sinv n s \<Longrightarrow> sinv n (fst (remote_write_loop s i c buf outcomes))"
proof (induction s i c buf outcomes rule: remote_write_loop.induct)
  case (1 s i c buf outcomes)
  obtain m err where o: "(case outcomes of [] \<Rightarrow> (length buf, None) | p # _ \<Rightarrow> p) = (m, err)"
    by (cases "case outcomes of [] \<Rightarrow> (length buf, None) | p # _ \<Rightarrow> p")
  let ?s1 = "s\<lparr>sv_remote := sv_remote s @ [(c, take (min m (length buf)) buf)]\<rparr>"
  define p where "p = (if 0 < min m (length buf)
      then send ?s1 (mkFrame TypeWindowUpdate i (EncodeWindowUpdate (word_of_nat (min m (length buf)))))
      else (?s1, None))"
  obtain s2 e where p2: "p = (s2, e)" by (cases p)
  have "sinv n (fst p)" using "1.prems" by (auto simp: p_def intro!: sinv_intro)
  then have s2: "sinv n s2" by (simp add: p2)
  note IH = "1.IH" [OF _ refl o [symmetric] refl refl p2 [symmetric, unfolded p_def], simplified]
  have step: "remote_write_loop s i c buf outcomes =
      (case p of (s2, Some e) \<Rightarrow> (server_remove s2 i, False)
       | (s2, None) \<Rightarrow> (case err of Some e \<Rightarrow> (server_reset s2 i e, False)
           | None \<Rightarrow> if min m (length buf) = 0 then (server_reset s2 i IoErrShortWrite, False)
                     else remote_write_loop s2 i c (drop (min m (length buf)) buf) (tl outcomes)))"
    if "buf \<noteq> []"
    using that by (subst remote_write_loop.simps) (simp add: o Let_def p_def)
  show ?case
  proof (cases "buf = []")
    case True
    with "1.prems" show ?thesis by (subst remote_write_loop.simps) simp
  next
    case False
    with step s2 IH show ?thesis by (auto simp: p2 sinv_intro split: option.splits)
  qed
qed

lemma sinv_remote_write_pair:
  "remote_write_loop s i c buf outcomes = (s', b) \<Longrightarrow> sinv n s \<Longrightarrow> sinv n s'"
  using sinv_remote_write_loop [of n s i c buf outcomes] by simp

lemma sinv_writeToRemote:
  "writeToRemote s i k closeWrite outcomes = (s', b) \<Longrightarrow> sinv n s \<Longrightarrow> sinv n s'"
  unfolding writeToRemote_def Let_def
  by (auto intro!: sinv_intro simp: stream_ok_def split: option.splits list.splits if_splits
      dest!: sinv_remote_write_pair)

lemma sinv_writeDatagrams:
  "writeDatagrams s i k deliver = (s', b) \<Longrightarrow> sinv n s \<Longrightarrow> sinv n s'"
  unfolding writeDatagrams_def Let_def
  by (auto intro!: sinv_intro simp: packets_ok_def split: option.splits list.splits if_splits sum.splits)

lemma sinv_writeReverseDatagrams:
  "writeReverseDatagrams s i k deliver = (s', b) \<Longrightarrow> sinv n s \<Longrightarrow> sinv n s'"
  unfolding writeReverseDatagrams_def Let_def
  by (auto intro!: sinv_intro simp: packets_ok_def split: option.splits list.splits if_splits sum.splits)

lemma sinv_readDatagrams:
  "readDatagrams s i received = (s', b) \<Longrightarrow> sinv n s \<Longrightarrow> sinv n s'"
  unfolding readDatagrams_def
  by (auto intro!: sinv_intro split: option.splits prod.splits sum.splits dest: sinv_send_pair)

lemma sinv_readReverseDatagrams:
  "readReverseDatagrams s i received = (s', b) \<Longrightarrow> sinv n s \<Longrightarrow> sinv n s'"
  unfolding readReverseDatagrams_def
  by (auto intro!: sinv_intro split: option.splits prod.splits sum.splits dest: sinv_send_pair)

section \<open>The step relation\<close>

definition drop_task :: "task \<Rightarrow> server \<Rightarrow> server" where
  "drop_task t s = s\<lparr>sv_tasks := remove1 t (sv_tasks s)\<rparr>"

definition goes_on :: "task \<Rightarrow> server \<times> bool \<Rightarrow> server" where
  "goes_on t r = (if snd r then spawn (fst r) t else fst r)"

definition continues :: "server \<times> task option \<Rightarrow> server" where
  "continues r = (case snd r of None \<Rightarrow> fst r | Some t \<Rightarrow> spawn (fst r) t)"

text \<open>
  \<open>resolve\<close> and \<open>listen\<close> are the resolver and \<open>net.ListenUDP\<close>, which the dispatcher calls
  itself.  All other outcomes (of dialling, binding, accepting, reading and writing) are arbitrary.
  \<open>serveListener\<close> waits for the commit or the cancellation before its first \<open>Accept\<close>.
\<close>

inductive server_step ::
  "(bytes \<Rightarrow> bytes result) \<Rightarrow> (bytes \<Rightarrow> (nat \<times> bytes) result) \<Rightarrow> server \<Rightarrow> server \<Rightarrow> bool"
  for resolve :: "bytes \<Rightarrow> bytes result" and listen :: "bytes \<Rightarrow> (nat \<times> bytes) result" where
  dispatch: "Validate f = None \<Longrightarrow> server_handle resolve listen s f = Some s' \<Longrightarrow>
    server_step resolve listen s s'"
| run_open: "t = TOpen i target \<Longrightarrow> t \<in> set (sv_tasks s) \<Longrightarrow>
    server_step resolve listen s (open_begin (drop_task t s) i target)"
| run_dial: "t = TDial i k \<Longrightarrow> t \<in> set (sv_tasks s) \<Longrightarrow>
    server_step resolve listen s (open_finish (drop_task t s) i dialed)"
| run_listen: "t = TListen i addr \<Longrightarrow> t \<in> set (sv_tasks s) \<Longrightarrow>
    server_step resolve listen s (openListener_begin (drop_task t s) i addr)"
| run_bind: "t = TBind i k \<Longrightarrow> t \<in> set (sv_tasks s) \<Longrightarrow>
    server_step resolve listen s (openListener_finish (drop_task t s) i k bound)"
| run_open_datagram: "t = TOpenDatagram i \<Longrightarrow> t \<in> set (sv_tasks s) \<Longrightarrow>
    server_step resolve listen s (openDatagram_begin (drop_task t s) i)"
| run_packet_dial: "t = TPacketDial i k \<Longrightarrow> t \<in> set (sv_tasks s) \<Longrightarrow>
    server_step resolve listen s (openDatagram_finish (drop_task t s) i k packet)"
| run_accept: "t = TServeListener i k ln \<Longrightarrow> t \<in> set (sv_tasks s) \<Longrightarrow>
    objs (sv_listeners s) k = Some l \<Longrightarrow> sl_commit l \<Longrightarrow>
    server_step resolve listen s (goes_on t (serveListener_accept (drop_task t s) i accepted))"
| run_listener_end: "t = TServeListener i k ln \<Longrightarrow> t \<in> set (sv_tasks s) \<Longrightarrow>
    objs (sv_listeners s) k = Some l \<Longrightarrow> sl_cancelled l \<Longrightarrow>
    server_step resolve listen s (drop_task t s)"
| run_write_remote: "t = TWriteToRemote i k \<Longrightarrow> t \<in> set (sv_tasks s) \<Longrightarrow>
    server_step resolve listen s (goes_on t (writeToRemote (drop_task t s) i k closeWrite outcomes))"
| run_copy: "t = TCopyToClient i conn \<Longrightarrow> t \<in> set (sv_tasks s) \<Longrightarrow>
    server_step resolve listen s (continues (copyToClient (drop_task t s) i conn buf rerr))"
| run_copy_waiting: "t = TCopyWaiting i conn k buf rerr \<Longrightarrow> t \<in> set (sv_tasks s) \<Longrightarrow>
    server_step resolve listen s (continues (copy_send (drop_task t s) i conn k buf rerr))"
| run_write_datagrams: "t = TWriteDatagrams i k \<Longrightarrow> t \<in> set (sv_tasks s) \<Longrightarrow>
    server_step resolve listen s (goes_on t (writeDatagrams (drop_task t s) i k deliver))"
| run_read_datagrams: "t = TReadDatagrams i conn \<Longrightarrow> t \<in> set (sv_tasks s) \<Longrightarrow>
    server_step resolve listen s (goes_on t (readDatagrams (drop_task t s) i received))"
| run_write_reverse: "t = TWriteReverse i k \<Longrightarrow> t \<in> set (sv_tasks s) \<Longrightarrow>
    server_step resolve listen s (goes_on t (writeReverseDatagrams (drop_task t s) i k deliver))"
| run_read_reverse: "t = TReadReverse i k \<Longrightarrow> t \<in> set (sv_tasks s) \<Longrightarrow>
    server_step resolve listen s (goes_on t (readReverseDatagrams (drop_task t s) i received))"

inductive server_reachable ::
  "(bytes \<Rightarrow> bytes result) \<Rightarrow> (bytes \<Rightarrow> (nat \<times> bytes) result) \<Rightarrow> server \<Rightarrow> bool"
  for resolve :: "bytes \<Rightarrow> bytes result" and listen :: "bytes \<Rightarrow> (nat \<times> bytes) result" where
  start: "server_reachable resolve listen
    ((NewServer attached)\<lparr>sv_tx := \<lparr>t_attached = attached, t_script = script, t_sent = []\<rparr>\<rparr>)"
| more: "server_reachable resolve listen s \<Longrightarrow> server_step resolve listen s s' \<Longrightarrow>
    server_reachable resolve listen s'"

lemma sinv_start: "sinv 0 ((NewServer attached)\<lparr>sv_tx := tx\<rparr>)"
  using stream_reg.inv_empty listener_reg.inv_empty datagram_reg.inv_empty
  by (simp add: sinv_def core_def slots_ok_def held_def binds_ok_def NewServer_def released_def
      reg_empty_def reg_inv_def reg_count_def)

lemma length_filter_remove1:
  "t \<in> set ts \<Longrightarrow> length (filter P ts) = length (filter P (remove1 t ts)) + (if P t then Suc 0 else 0)"
  by (induction ts) auto

lemma held_drop:
  "t \<in> set (sv_tasks s) \<Longrightarrow> held s = held (drop_task t s) + (if holds_slot t then Suc 0 else 0)"
  by (simp add: held_def drop_task_def length_filter_remove1)

lemma distinct_snd_remove1:
  assumes "distinct (map snd ps)" and "(i, k) \<in> set ps"
  shows "distinct (map snd (remove1 (i, k) ps)) \<and> k \<notin> snd ` set (remove1 (i, k) ps)"
proof -
  obtain xs ys where ps: "ps = xs @ (i, k) # ys" "(i, k) \<notin> set xs"
    using split_list_first [OF assms(2)] by blast
  then have "remove1 (i, k) ps = xs @ ys" by (simp add: remove1_append)
  with assms(1) ps show ?thesis by auto
qed

lemma core_drop_task [core_intro]: "core s \<Longrightarrow> core (drop_task t s)"
  by (simp add: drop_task_def core_others)

lemma sinv_drop_task:
  assumes "sinv 0 s" and "t \<in> set (sv_tasks s)" and "\<not> is_bind t"
  shows "sinv (if holds_slot t then Suc 0 else 0) (drop_task t s)"
  using assms held_drop [OF assms(2)]
  by (auto simp: sinv_def slots_ok_def core_drop_task)
     (auto simp: drop_task_def bind_keys_remove1_other)

lemma sinv_drop_opener:
  "sinv 0 s \<Longrightarrow> t \<in> set (sv_tasks s) \<Longrightarrow> holds_slot t \<Longrightarrow> \<not> is_bind t \<Longrightarrow> sinv (Suc 0) (drop_task t s)"
  using sinv_drop_task [of s t] by simp

lemma sinv_drop_worker:
  "sinv 0 s \<Longrightarrow> t \<in> set (sv_tasks s) \<Longrightarrow> \<not> holds_slot t \<Longrightarrow> \<not> is_bind t \<Longrightarrow> sinv 0 (drop_task t s)"
  using sinv_drop_task [of s t] by simp

lemma sinv_drop_bind:
  assumes s: "sinv 0 s" and t: "TBind i k \<in> set (sv_tasks s)"
  shows "sinv (Suc 0) (drop_task (TBind i k) s)" and "owns (drop_task (TBind i k) s) i k"
proof -
  note D = sinv_D [OF s]
  let ?ps = "bind_keys (sv_tasks s)"
  have mem: "(i, k) \<in> set ?ps" using t by (simp add: bind_keys_mem)
  have keys: "bind_keys (sv_tasks (drop_task (TBind i k) s)) = remove1 (i, k) ?ps"
    by (simp add: drop_task_def bind_keys_remove1)
  have d: "distinct (map snd ?ps)" and a: "list_all (bind_ok (sv_listeners s)) ?ps"
    using D(3) by (simp_all add: binds_ok_def)
  have "distinct (map snd (remove1 (i, k) ?ps))" "k \<notin> snd ` set (remove1 (i, k) ?ps)"
    using distinct_snd_remove1 [OF d mem] by simp_all
  then show "sinv (Suc 0) (drop_task (TBind i k) s)" and "owns (drop_task (TBind i k) s) i k"
    using D a mem held_drop [OF t] set_remove1_subset [of "(i, k)" ?ps]
    by (auto simp: sinv_def owns_def binds_ok_def slots_ok_def keys core_drop_task list_all_iff)
       (auto simp: drop_task_def)
qed

lemma sinv_goes_on:
  "(\<And>s' b. r = (s', b) \<Longrightarrow> sinv 0 s') \<Longrightarrow> \<not> holds_slot t \<Longrightarrow> \<not> is_bind t \<Longrightarrow> sinv 0 (goes_on t r)"
  by (cases r) (simp add: goes_on_def sinv_intro)

lemma continues_task:
  "copy_send s i c k buf rerr = (s', Some t) \<Longrightarrow> \<not> holds_slot t \<and> \<not> is_bind t"
  "copyToClient s i c buf rerr = (s', Some t) \<Longrightarrow> \<not> holds_slot t \<and> \<not> is_bind t"
  by (auto simp: copy_send_def copyToClient_def copy_after_data_def Let_def
      split: option.splits prod.splits sum.splits if_splits)

lemma sinv_step:
  assumes "server_step resolve listen s s'" and "sinv 0 s"
  shows "sinv 0 s'"
  using assms
proof (induction rule: server_step.induct)
  case (run_copy t i conn s buf rerr)
  then have d: "sinv 0 (drop_task t s)" using sinv_drop_task [of s t] by simp
  show ?case
    using sinv_copyToClient [OF d] continues_task(2) [of "drop_task t s"]
    by (cases "copyToClient (drop_task t s) i conn buf rerr")
       (auto simp: continues_def sinv_intro split: option.splits)
next
  case (run_copy_waiting t i conn k buf rerr s)
  then have d: "sinv 0 (drop_task t s)" using sinv_drop_task [of s t] by simp
  show ?case
    using sinv_copy_send [OF d] continues_task(1) [of "drop_task t s"]
    by (cases "copy_send (drop_task t s) i conn k buf rerr")
       (auto simp: continues_def sinv_intro split: option.splits)
next
  case (dispatch f s s')
  then show ?case by (blast intro: sinv_server_handle)
next
  case (run_bind t i k s bound)
  then show ?case using sinv_drop_bind [of s i k] by (auto intro: sinv_openListener_finish)
next
  case (run_accept t i k ln s l accepted)
  then show ?case using sinv_drop_task [of s t] sinv_serveListener_accept [of 0 "drop_task t s" i accepted]
    by (auto intro!: sinv_goes_on)
next
  case (run_write_remote t i k s closeWrite outcomes)
  then show ?case using sinv_drop_task [of s t] sinv_writeToRemote [of "drop_task t s" i k closeWrite outcomes]
    by (auto intro!: sinv_goes_on)
next
  case (run_write_datagrams t i k s deliver)
  then show ?case using sinv_drop_task [of s t] sinv_writeDatagrams [of "drop_task t s" i k deliver]
    by (auto intro!: sinv_goes_on)
next
  case (run_read_datagrams t i conn s received)
  then show ?case using sinv_drop_task [of s t] sinv_readDatagrams [of "drop_task t s" i received]
    by (auto intro!: sinv_goes_on)
next
  case (run_write_reverse t i k s deliver)
  then show ?case using sinv_drop_task [of s t] sinv_writeReverseDatagrams [of "drop_task t s" i k deliver]
    by (auto intro!: sinv_goes_on)
next
  case (run_read_reverse t i k s received)
  then show ?case using sinv_drop_task [of s t] sinv_readReverseDatagrams [of "drop_task t s" i received]
    by (auto intro!: sinv_goes_on)
qed (auto intro!: sinv_open_begin sinv_open_finish sinv_openListener_begin sinv_openDatagram_begin
    sinv_openDatagram_finish sinv_drop_opener sinv_drop_worker)

lemma sinv_reachable: "server_reachable resolve listen s \<Longrightarrow> sinv 0 s"
  by (induction rule: server_reachable.induct) (blast intro: sinv_start sinv_step)+

section \<open>Shutdown\<close>

lemma ids_removals [simp]:
  "ids (sv_streams (server_remove s i)) = (ids (sv_streams s))(i := None)"
  "ids (sv_listeners (removeListener s i)) = (ids (sv_listeners s))(i := None)"
  "ids (sv_datagrams (removeDatagram s i)) = (ids (sv_datagrams s))(i := None)"
  "ids (sv_reverse (removeReverseDatagram s i)) = (ids (sv_reverse s))(i := None)"
  by (auto simp: server_remove_def removeListener_def removeDatagram_def removeReverseDatagram_def
      Let_def closeSocket_def reg_delete_def reg_update_def split: option.splits)

text \<open>Folding a removal over the keys of its map empties that map.\<close>

lemma foldl_remove_ids:
  assumes "\<And>s i. get (rm s i) = (get s)(i := None)" and "dom (get s) \<subseteq> set keys"
  shows "get (foldl rm s keys) = Map.empty"
  using assms(2)
proof (induction keys arbitrary: s)
  case (Cons k keys)
  have "dom (get (rm s k)) \<subseteq> set keys" using Cons.prems by (auto simp: assms(1))
  with Cons.IH show ?case by simp
qed simp

lemma foldl_remove_keeps:
  "(\<And>s i. get (rm s i) = get s) \<Longrightarrow> get (foldl rm s keys) = get s"
  by (induction keys arbitrary: s) simp_all

text \<open>The removals do not look at the cancellation flag, which shutdown sets first.\<close>

lemma cancelled_commutes:
  "server_remove (s\<lparr>sv_cancelled := b\<rparr>) i = (server_remove s i)\<lparr>sv_cancelled := b\<rparr>"
  "removeListener (s\<lparr>sv_cancelled := b\<rparr>) i = (removeListener s i)\<lparr>sv_cancelled := b\<rparr>"
  "removeDatagram (s\<lparr>sv_cancelled := b\<rparr>) i = (removeDatagram s i)\<lparr>sv_cancelled := b\<rparr>"
  "removeReverseDatagram (s\<lparr>sv_cancelled := b\<rparr>) i = (removeReverseDatagram s i)\<lparr>sv_cancelled := b\<rparr>"
  by (auto simp: server_remove_def removeListener_def removeDatagram_def removeReverseDatagram_def
      Let_def closeSocket_def split: option.splits)

lemma foldl_commutes:
  "(\<And>s i. rm (f s) i = f (rm s i)) \<Longrightarrow> foldl rm (f s) keys = f (foldl rm s keys)"
  by (induction keys arbitrary: s) simp_all

definition remove_all :: "server \<Rightarrow> u32 list \<Rightarrow> u32 list \<Rightarrow> u32 list \<Rightarrow> u32 list \<Rightarrow> server" where
  "remove_all s ls ds rs ss =
     foldl server_remove (foldl removeReverseDatagram (foldl removeDatagram (foldl removeListener s ls) ds) rs) ss"

lemma shutdown_remove_all: "shutdown s ls ds rs ss = (remove_all s ls ds rs ss)\<lparr>sv_cancelled := True\<rparr>"
  by (simp add: shutdown_def remove_all_def cancelled_commutes
      foldl_commutes [where f = "\<lambda>s. s\<lparr>sv_cancelled := True\<rparr>"])

lemma sinv_foldl: "(\<And>s i. sinv n s \<Longrightarrow> sinv n (rm s i)) \<Longrightarrow> sinv n s \<Longrightarrow> sinv n (foldl rm s keys)"
  by (induction keys arbitrary: s) simp_all

lemma sinv_remove_all: "sinv n s \<Longrightarrow> sinv n (remove_all s ls ds rs ss)"
  by (simp add: remove_all_def sinv_foldl sinv_intro)

lemma foldl_other_fields [simp]:
  "sv_listeners (foldl server_remove s ks) = sv_listeners s"
  "sv_datagrams (foldl server_remove s ks) = sv_datagrams s"
  "sv_reverse (foldl server_remove s ks) = sv_reverse s"
  "sv_listeners (foldl removeReverseDatagram s ks) = sv_listeners s"
  "sv_datagrams (foldl removeReverseDatagram s ks) = sv_datagrams s"
  "sv_streams (foldl removeReverseDatagram s ks) = sv_streams s"
  "sv_listeners (foldl removeDatagram s ks) = sv_listeners s"
  "sv_reverse (foldl removeDatagram s ks) = sv_reverse s"
  "sv_streams (foldl removeDatagram s ks) = sv_streams s"
  "sv_datagrams (foldl removeListener s ks) = sv_datagrams s"
  "sv_reverse (foldl removeListener s ks) = sv_reverse s"
  "sv_streams (foldl removeListener s ks) = sv_streams s"
  by (simp_all add: foldl_remove_keeps)

lemma remove_all_ids:
  assumes "set ls = dom (ids (sv_listeners s))" and "set ds = dom (ids (sv_datagrams s))"
    and "set rs = dom (ids (sv_reverse s))" and "set ss = dom (ids (sv_streams s))"
  shows "ids (sv_listeners (remove_all s ls ds rs ss)) = Map.empty"
    and "ids (sv_datagrams (remove_all s ls ds rs ss)) = Map.empty"
    and "ids (sv_reverse (remove_all s ls ds rs ss)) = Map.empty"
    and "ids (sv_streams (remove_all s ls ds rs ss)) = Map.empty"
  using assms
    foldl_remove_ids [where get = "\<lambda>s. ids (sv_listeners s)" and rm = removeListener and s = s and keys = ls]
    foldl_remove_ids [where get = "\<lambda>s. ids (sv_datagrams s)" and rm = removeDatagram and keys = ds
      and s = "foldl removeListener s ls"]
    foldl_remove_ids [where get = "\<lambda>s. ids (sv_reverse s)" and rm = removeReverseDatagram and keys = rs
      and s = "foldl removeDatagram (foldl removeListener s ls) ds"]
    foldl_remove_ids [where get = "\<lambda>s. ids (sv_streams s)" and rm = server_remove and keys = ss
      and s = "foldl removeReverseDatagram (foldl removeDatagram (foldl removeListener s ls) ds) rs"]
  by (simp_all add: remove_all_def)

text \<open>With an empty map every object is closed, and a closed object's socket is released.\<close>

lemma gone_released:
  assumes "reg_inv closed ok limit r" and "released closed sock log r" and "k \<notin> ran (ids r)"
    and "objs r k = Some x" and "sock x = Some c"
  shows "c \<in> log"
  using assms reg_inv_D(6) [OF assms(1,4)] by (auto simp: released_def ran_def)

lemma all_released:
  assumes "reg_inv closed ok limit r" and "released closed sock log r" and "ids r = Map.empty"
    and "objs r k = Some x" and "sock x = Some c"
  shows "c \<in> log"
  using assms reg_inv_D(6) [OF assms(1,4)] by (auto simp: released_def)

section \<open>A run of the server\<close>

text \<open>
  A stream is opened, dialled (socket 7) and closed by the client: the states of that run are
  reachable, so the theorems below apply to them.
\<close>

definition sample_target :: bytes where
  "sample_target = str ''h:1''"

definition sample_opening :: server where
  "sample_opening = startOpen (NewServer False) TypeOpenError 1 (TOpen 1 sample_target)"

definition sample_dialling :: server where
  "sample_dialling = open_begin (drop_task (TOpen 1 sample_target) sample_opening) 1 sample_target"

definition sample_connected :: server where
  "sample_connected = open_finish (drop_task (TDial 1 0) sample_dialling) 1 (Inr 7)"

definition sample_closed :: server where
  "sample_closed = server_remove sample_connected 1"

lemma sample_opening_eq:
  "sample_opening = (NewServer False)\<lparr>sv_openSlots := 1, sv_tasks := [TOpen 1 sample_target]\<rparr>"
  by (simp add: sample_opening_def startOpen_def NewServer_def spawn_def)

lemma sample_dialling_eq:
  "sample_dialling = (NewServer False)\<lparr>sv_openSlots := 1, sv_tasks := [TDial 1 0],
     sv_streams := reg_insert reg_empty 1 (newServerStream None)\<rparr>"
  by (simp add: sample_dialling_def sample_opening_eq drop_task_def open_begin_def NewServer_def
      spawn_def sample_target_def reg_empty_def reg_count_def)

lemma sample_frames_valid:
  "Validate (mkFrame TypeOpenOK 1 []) = None" "Validate (mkFrame TypeOpen 1 sample_target) = None"
  "Validate (mkFrame TypeClose 1 []) = None"
  by (simp_all add: Validate_def mkFrame_def frame_rules sample_target_def)

lemma sample_connected_eq:
  "sample_connected = (NewServer False)\<lparr>sv_openSlots := 0,
     sv_tasks := [TWriteToRemote 1 0, TCopyToClient 1 7],
     sv_streams := reg_insert reg_empty 1 (newServerStream (Some 7)),
     sv_tx := \<lparr>t_attached = False, t_script = [], t_sent = [mkFrame TypeOpenOK 1 []]\<rparr>\<rparr>"
  by (simp add: sample_connected_def sample_dialling_eq drop_task_def open_finish_def NewServer_def
      spawn_def reg_empty_def reg_find_def reg_insert_def reg_update_def send_def transport_send_def
      sample_frames_valid releaseSlot_def newServerStream_def)

lemma sample_closed_eq:
  "sample_closed = (sample_connected)\<lparr>sv_closed := [7],
     sv_streams := reg_delete (reg_insert reg_empty 1 ((newServerStream (Some 7))\<lparr>st_done := True\<rparr>)) 1\<rparr>"
  by (simp add: sample_closed_def sample_connected_eq server_remove_def NewServer_def reg_empty_def
      reg_find_def reg_insert_def reg_delete_def reg_update_def closeSocket_def closeStream_def
      newServerStream_def)

lemma sample_reachable:
  "server_reachable resolve listen sample_connected" "server_reachable resolve listen sample_closed"
proof -
  have "server_reachable resolve listen (NewServer False)"
    using server_reachable.start [of resolve listen False "[]"] by (simp add: NewServer_def)
  moreover have "server_step resolve listen (NewServer False) sample_opening"
    by (rule server_step.dispatch [OF sample_frames_valid(2)])
       (simp add: server_handle_def sample_opening_def mkFrame_def Let_def)
  ultimately have o: "server_reachable resolve listen sample_opening" by (rule server_reachable.more)
  have "server_step resolve listen sample_opening sample_dialling"
    unfolding sample_dialling_def by (rule server_step.run_open) (simp_all add: sample_opening_eq)
  with o have d: "server_reachable resolve listen sample_dialling" by (rule server_reachable.more)
  have "server_step resolve listen sample_dialling sample_connected"
    unfolding sample_connected_def by (rule server_step.run_dial) (simp_all add: sample_dialling_eq)
  with d show c: "server_reachable resolve listen sample_connected" by (rule server_reachable.more)
  have "server_step resolve listen sample_connected sample_closed"
    by (rule server_step.dispatch [OF sample_frames_valid(3)])
       (simp add: server_handle_def sample_closed_def mkFrame_def Let_def)
  with c show "server_reachable resolve listen sample_closed" by (rule server_reachable.more)
qed

section \<open>What the server guarantees\<close>

text \<open>
  C3: In every state the relay server can reach, under any interleaving of its goroutines, any
  outcomes of its network calls and any transport failures, every resource is bounded: at most 512
  streams, 256 listeners, 64 datagram associations and 64 reverse datagram listeners are in the
  maps, every stream holds at most 10 queued events and its send credit never exceeds the initial
  window, every association holds at most 16 queued packets, and the open-operation semaphore is
  taken exactly once per open operation under way, at most 32 times.
\<close>

theorem server_resources_bounded:
  assumes "server_reachable resolve listen s"
  shows "reg_count (sv_streams s) \<le> MaxConcurrentStreams
       \<and> reg_count (sv_listeners s) \<le> MaxConcurrentListeners
       \<and> reg_count (sv_datagrams s) \<le> MaxConcurrentDatagrams
       \<and> reg_count (sv_reverse s) \<le> MaxConcurrentReverseDatagrams
       \<and> (\<forall>k st. objs (sv_streams s) k = Some st \<longrightarrow>
            length (st_incoming st) \<le> streamQueueSize \<and> available (st_window st) \<le> InitialStreamWindow)
       \<and> (\<forall>k d. objs (sv_datagrams s) k = Some d \<or> objs (sv_reverse s) k = Some d \<longrightarrow>
            length (sd_incoming d) \<le> datagramQueueDepth)
       \<and> sv_openSlots s = length (filter holds_slot (sv_tasks s))
       \<and> sv_openSlots s \<le> MaxConcurrentOpenOperations"
proof -
  note S = sinv_D [OF sinv_reachable [OF assms]]
  note D = core_D [OF S(1)]
  have "stream_ok st" if "objs (sv_streams s) k = Some st" for k st
    using reg_inv_D(5) [OF D(1)] that .
  moreover have "packets_ok d" if "objs (sv_datagrams s) k = Some d \<or> objs (sv_reverse s) k = Some d" for k d
    using reg_inv_D(5) [OF D(3)] reg_inv_D(5) [OF D(4)] that by blast
  ultimately show ?thesis
    using D(1-4) S(2)
    by (auto simp: reg_inv_def slots_ok_def held_def stream_ok_def window_ok_def packets_ok_def)
qed

theorem server_resources_bounded_witness:
  "server_reachable Inr (\<lambda>a. Inr (9, a)) sample_connected
     \<and> objs (sv_streams sample_connected) 0 = Some (newServerStream (Some 7))
     \<and> available (st_window (newServerStream (Some 7))) \<le> InitialStreamWindow
     \<and> reg_count (sv_streams sample_connected) \<le> MaxConcurrentStreams
     \<and> sv_openSlots sample_connected = length (filter holds_slot (sv_tasks sample_connected))"
proof -
  have "objs (sv_streams sample_connected) 0 = Some (newServerStream (Some 7))"
    by (simp add: sample_connected_eq reg_insert_def reg_empty_def)
  with server_resources_bounded [OF sample_reachable(1) [of Inr "\<lambda>a. Inr (9, a)"]] sample_reachable(1)
  show ?thesis by blast
qed

text \<open>
  C4: No socket is leaked: in every reachable state, an object that is no longer in its map (a
  stream, a listener, a datagram association or a reverse datagram listener) has had its socket
  closed, and an object in the map is open.
\<close>

theorem server_sockets_released:
  assumes "server_reachable resolve listen s"
  shows "(\<forall>k st c. objs (sv_streams s) k = Some st \<longrightarrow> k \<notin> ran (ids (sv_streams s)) \<longrightarrow>
            st_conn st = Some c \<longrightarrow> c \<in> set (sv_closed s))
       \<and> (\<forall>k l c. objs (sv_listeners s) k = Some l \<longrightarrow> k \<notin> ran (ids (sv_listeners s)) \<longrightarrow>
            sl_listener l = Some c \<longrightarrow> c \<in> set (sv_closed s))
       \<and> (\<forall>k d c. objs (sv_datagrams s) k = Some d \<longrightarrow> k \<notin> ran (ids (sv_datagrams s)) \<longrightarrow>
            sd_conn d = Some c \<longrightarrow> c \<in> set (sv_closed s))
       \<and> (\<forall>k d c. objs (sv_reverse s) k = Some d \<longrightarrow> k \<notin> ran (ids (sv_reverse s)) \<longrightarrow>
            sd_conn d = Some c \<longrightarrow> c \<in> set (sv_closed s))
       \<and> (\<forall>i k. ids (sv_streams s) i = Some k \<longrightarrow> (\<exists>st. objs (sv_streams s) k = Some st \<and> \<not> st_done st))"
proof -
  note D = core_D [OF sinv_D(1) [OF sinv_reachable [OF assms]]]
  show ?thesis
    using gone_released [OF D(1,5)] gone_released [OF D(2,6)] gone_released [OF D(3,7)]
      gone_released [OF D(4,8)] reg_inv_D(3) [OF D(1)] by blast
qed

theorem server_sockets_released_witness:
  "server_reachable Inr (\<lambda>a. Inr (9, a)) sample_closed \<and> 7 \<in> set (sv_closed sample_closed)"
proof -
  have "objs (sv_streams sample_closed) 0 = Some ((newServerStream (Some 7))\<lparr>st_done := True\<rparr>)"
    and "0 \<notin> ran (ids (sv_streams sample_closed))"
    by (simp_all add: sample_closed_eq reg_insert_def reg_delete_def reg_empty_def ran_def)
  then show ?thesis
    using server_sockets_released [OF sample_reachable(2) [of Inr "\<lambda>a. Inr (9, a)"]] sample_reachable(2)
    by (auto simp: newServerStream_def)
qed

text \<open>
  Shutting the server down in any reachable state, with the map keys enumerated in any order,
  empties the four maps and closes every socket of every object the server ever created.
\<close>

lemma shutdown_releases_all:
  assumes "server_reachable resolve listen s"
    and "set ls = dom (ids (sv_listeners s))" and "set ds = dom (ids (sv_datagrams s))"
    and "set rs = dom (ids (sv_reverse s))" and "set ss = dom (ids (sv_streams s))"
    and "s' = shutdown s ls ds rs ss"
  shows "ids (sv_listeners s') = Map.empty \<and> ids (sv_datagrams s') = Map.empty
       \<and> ids (sv_reverse s') = Map.empty \<and> ids (sv_streams s') = Map.empty
       \<and> (\<forall>k st c. objs (sv_streams s') k = Some st \<longrightarrow> st_conn st = Some c \<longrightarrow> c \<in> set (sv_closed s'))
       \<and> (\<forall>k l c. objs (sv_listeners s') k = Some l \<longrightarrow> sl_listener l = Some c \<longrightarrow> c \<in> set (sv_closed s'))
       \<and> (\<forall>k d c. objs (sv_datagrams s') k = Some d \<longrightarrow> sd_conn d = Some c \<longrightarrow> c \<in> set (sv_closed s'))
       \<and> (\<forall>k d c. objs (sv_reverse s') k = Some d \<longrightarrow> sd_conn d = Some c \<longrightarrow> c \<in> set (sv_closed s'))"
proof -
  note I = remove_all_ids [OF assms(2-5)]
  note D = core_D [OF sinv_D(1) [OF sinv_remove_all [OF sinv_reachable [OF assms(1)], of ls ds rs ss]]]
  note R = all_released [OF D(1,5) I(4)] all_released [OF D(2,6) I(1)]
    all_released [OF D(3,7) I(2)] all_released [OF D(4,8) I(3)]
  show ?thesis unfolding assms(6) shutdown_remove_all using I R by simp
qed

text \<open>
  The queues of the streams make the dispatcher wait in one case only: a HALF_CLOSE for an open stream whose event queue is
  full.  (Writing a frame to the peer, resolving an address and opening a socket complete within one step of the model, so
  waiting for those is not covered.)
\<close>

lemma server_handle_blocks_iff:
  "server_handle resolve listen s f = None \<longleftrightarrow>
     fType f = TypeHalfClose \<and>
     (\<exists>k st. reg_find (sv_streams s) (fStreamID f) = Some (k, st) \<and>
             streamQueueSize \<le> length (st_incoming st) \<and> \<not> st_done st)"
  by (auto simp: server_handle_def Let_def handle_half_close_def split: option.splits)

end
