(* ===== verification/Generations.thy ===== *)
theory Generations
  imports Prelude
begin

text \<open>
  The ownership rule that the replaceable transport link and the attach registry share.  A slot
  has at most one current owner; owners are numbered by the order of their creation, so a handle
  is never reused.  A delayed cleanup of an old owner must not affect its successor.  The locale
  states the laws of one such slot; its lemmas follow a whole sequence of cleanups.
\<close>

locale generation_slot =
  fixes inv :: "'s \<Rightarrow> bool"
    and current :: "'s \<Rightarrow> nat option"
    and detach :: "'s \<Rightarrow> nat \<Rightarrow> 's"
  assumes inv_detach: "inv s \<Longrightarrow> inv (detach s a)"
    and detach_own: "inv s \<Longrightarrow> current s = Some a \<Longrightarrow> current (detach s a) = None"
    and detach_other: "inv s \<Longrightarrow> current s \<noteq> Some a \<Longrightarrow> current (detach s a) = current s"
begin

lemma inv_detaches: "inv s \<Longrightarrow> inv (foldl detach s as)"
  by (induction as arbitrary: s) (simp_all add: inv_detach)

lemma detached_stays: "inv s \<Longrightarrow> current s = None \<Longrightarrow> current (foldl detach s as) = None"
  by (induction as arbitrary: s) (simp_all add: inv_detach detach_other)

text \<open>Any number of cleanups of other owners leaves the current owner; its own removes it.\<close>

lemma current_detaches:
  "inv s \<Longrightarrow> current (foldl detach s as) =
     (case current s of None \<Rightarrow> None | Some a \<Rightarrow> if a \<in> set as then None else Some a)"
proof (induction as arbitrary: s)
  case Nil
  then show ?case by (simp split: option.splits)
next
  case (Cons b as)
  show ?case
  proof (cases "current s = Some b")
    case True
    then show ?thesis using Cons.prems detached_stays [OF inv_detach] detach_own by simp
  next
    case False
    then show ?thesis using Cons.IH [OF inv_detach [OF Cons.prems], of b] detach_other [OF Cons.prems]
      by (auto split: option.splits)
  qed
qed

end

end
