(* ===== verification/AttachRegistry.thy ===== *)
theory AttachRegistry
  imports Bytes Generations
begin

text \<open>
  The generation-safe ownership state of a reconnectable transport
  (src/internal/transport/attach/registry.go).  Attachments are numbered by creation, so pointer
  comparison is comparison of handles.  The epoch is a 64-bit counter that skips zero when it
  wraps.  The random bytes are arguments; \<open>hmac.Equal\<close> is equality of byte strings.
\<close>

abbreviation tokenSize :: nat where "tokenSize \<equiv> 32"

record regAttachment =
  ra_epoch :: u64
  ra_once :: bool
  ra_err :: "goerr option"

record attachRegistry =
  ar_token :: bytes
  ar_instanceID :: u64
  ar_epoch :: u64
  ar_current :: "nat option"
  ar_closed :: bool
  ar_atts :: "regAttachment list"

definition NewWithToken :: "bytes \<Rightarrow> bytes result \<Rightarrow> attachRegistry result" where
  "NewWithToken token identity =
     (if token = [] then Inl ErrEmptyAttachToken
      else rbind identity (\<lambda>bs.
        let n = Uint64 bs; instanceID = (if n = 0 then 1 else n) in
        Inr \<lparr>ar_token = token, ar_instanceID = instanceID, ar_epoch = 0, ar_current = None,
             ar_closed = False, ar_atts = []\<rparr>))"

definition registry_New :: "bytes result \<Rightarrow> bytes result \<Rightarrow> attachRegistry result" where
  "registry_New token identity = rbind token (\<lambda>bs. NewWithToken bs identity)"

definition registry_Token :: "attachRegistry \<Rightarrow> bytes" where
  "registry_Token r = ar_token r"

definition InstanceID :: "attachRegistry \<Rightarrow> u64" where
  "InstanceID r = ar_instanceID r"

definition next_epoch :: "u64 \<Rightarrow> u64" where
  "next_epoch e = (if e + 1 = 0 then e + 1 + 1 else e + 1)"

definition registry_Attach :: "attachRegistry \<Rightarrow> bytes \<Rightarrow> attachRegistry \<times> nat result" where
  "registry_Attach r token =
     (if ar_closed r then (r, Inl ErrRegistryClosed)
      else if token = [] \<or> token \<noteq> ar_token r then (r, Inl ErrInvalidToken)
      else
        let e = next_epoch (ar_epoch r); a = length (ar_atts r) in
        (r\<lparr>ar_epoch := e, ar_current := Some a,
           ar_atts := ar_atts r @ [\<lparr>ra_epoch = e, ra_once = False, ra_err = None\<rparr>]\<rparr>, Inr a))"

definition registry_Close :: "attachRegistry \<Rightarrow> attachRegistry" where
  "registry_Close r = r\<lparr>ar_closed := True, ar_current := None\<rparr>"

definition CurrentEpoch :: "attachRegistry \<Rightarrow> u64" where
  "CurrentEpoch r = (case ar_current r of None \<Rightarrow> 0 | Some a \<Rightarrow> ra_epoch (ar_atts r ! a))"

definition registry_Epoch :: "attachRegistry \<Rightarrow> nat \<Rightarrow> u64" where
  "registry_Epoch r a = ra_epoch (ar_atts r ! a)"

definition registry_Current :: "attachRegistry \<Rightarrow> nat \<Rightarrow> bool" where
  "registry_Current r a \<longleftrightarrow> \<not> ar_closed r \<and> ar_current r = Some a"

definition registry_Detach :: "attachRegistry \<Rightarrow> nat \<Rightarrow> attachRegistry \<times> goerr option" where
  "registry_Detach r a =
     (if length (ar_atts r) \<le> a then (r, None)
      else if ra_once (ar_atts r ! a) then (r, ra_err (ar_atts r ! a))
      else if ar_current r \<noteq> Some a
      then (r\<lparr>ar_atts := (ar_atts r)[a := (ar_atts r ! a)\<lparr>ra_once := True, ra_err := Some ErrStaleAttachment\<rparr>]\<rparr>,
            Some ErrStaleAttachment)
      else (r\<lparr>ar_atts := (ar_atts r)[a := (ar_atts r ! a)\<lparr>ra_once := True\<rparr>], ar_current := None\<rparr>,
            ra_err (ar_atts r ! a)))"

section \<open>Invariant\<close>

text \<open>
  The current attachment exists, has not been detached and carries the registry's epoch; no
  generation has the epoch zero; before the counter wraps, later generations have larger epochs;
  a closed registry has no owner.
\<close>

definition ar_inv :: "attachRegistry \<Rightarrow> bool" where
  "ar_inv r \<longleftrightarrow>
     (case ar_current r of None \<Rightarrow> True
      | Some a \<Rightarrow> a < length (ar_atts r) \<and> \<not> ra_once (ar_atts r ! a) \<and> ra_epoch (ar_atts r ! a) = ar_epoch r
                  \<and> \<not> ar_closed r) \<and>
     list_all (\<lambda>t. ra_epoch t \<noteq> 0) (ar_atts r) \<and> ar_instanceID r \<noteq> 0 \<and> ar_token r \<noteq> []"

lemma next_epoch_nonzero: "next_epoch e \<noteq> 0"
  by (auto simp: next_epoch_def)

lemma ar_inv_New: "NewWithToken token identity = Inr r \<Longrightarrow> ar_inv r"
  by (auto simp: NewWithToken_def ar_inv_def rbind_eq_Inr Let_def split: if_splits)

lemma ar_inv_Attach: "ar_inv r \<Longrightarrow> ar_inv (fst (registry_Attach r token))"
  by (auto simp: registry_Attach_def Let_def) (simp_all add: ar_inv_def next_epoch_nonzero)

lemma ar_inv_Close: "ar_inv r \<Longrightarrow> ar_inv (registry_Close r)"
  by (simp add: ar_inv_def registry_Close_def)

lemma ar_inv_Detach:
  assumes "ar_inv r"
  shows "ar_inv (fst (registry_Detach r a))"
proof -
  have z: "list_all (\<lambda>t. ra_epoch t \<noteq> 0) ((ar_atts r)[a := (ar_atts r ! a)\<lparr>ra_once := True, ra_err := e\<rparr>])"
    if "a < length (ar_atts r)" for e
    using assms that set_update_subset_insert [of "ar_atts r" a]
    by (fastforce simp: ar_inv_def list_all_iff)
  moreover have "list_all (\<lambda>t. ra_epoch t \<noteq> 0) ((ar_atts r)[a := (ar_atts r ! a)\<lparr>ra_once := True\<rparr>])"
    if "a < length (ar_atts r)"
    using z [OF that, of "ra_err (ar_atts r ! a)"] by simp
  ultimately show ?thesis using assms
    by (auto simp: ar_inv_def registry_Detach_def nth_list_update split: option.splits)
qed

interpretation registry_slot: generation_slot ar_inv ar_current "\<lambda>r a. fst (registry_Detach r a)"
proof unfold_locales
  show "ar_current (fst (registry_Detach r a)) = None" if "ar_inv r" "ar_current r = Some a" for r a
    using that by (simp add: registry_Detach_def ar_inv_def)
  show "ar_current (fst (registry_Detach r a)) = ar_current r" if "ar_current r \<noteq> Some a" for r a
    using that by (simp add: registry_Detach_def)
qed (rule ar_inv_Detach)

section \<open>Histories\<close>

datatype registry_op = OpAttach bytes | OpDetach nat | OpClose

fun registry_exec :: "attachRegistry \<Rightarrow> registry_op \<Rightarrow> attachRegistry" where
  "registry_exec r (OpAttach token) = fst (registry_Attach r token)"
| "registry_exec r (OpDetach a) = fst (registry_Detach r a)"
| "registry_exec r OpClose = registry_Close r"

lemma registry_exec_inv: "ar_inv r \<Longrightarrow> ar_inv (registry_exec r op)"
  by (cases op) (simp_all add: ar_inv_Attach ar_inv_Detach ar_inv_Close)

lemma registry_run_inv: "ar_inv r \<Longrightarrow> ar_inv (foldl registry_exec r ops)"
  by (induction ops arbitrary: r) (simp_all add: registry_exec_inv)

text \<open>The epochs handed out are consecutive numbers until the counter wraps.\<close>

definition epochs_ok :: "attachRegistry \<Rightarrow> bool" where
  "epochs_ok r \<longleftrightarrow> unat (ar_epoch r) = length (ar_atts r) \<and>
     (\<forall>a < length (ar_atts r). unat (ra_epoch (ar_atts r ! a)) = Suc a)"

lemma unat_next_epoch:
  assumes "unat e < 2 ^ 64 - 1"
  shows "unat (next_epoch e) = Suc (unat e)"
proof -
  have n: "unat (e + 1) = Suc (unat e)"
    using assms by (simp add: unat_word_ariths)
  then have "e + 1 \<noteq> 0" by (metis nat.distinct(1) unat_0)
  with n show ?thesis by (simp add: next_epoch_def)
qed

lemma epochs_ok_exec:
  assumes r: "epochs_ok r" and few: "length (ar_atts r) < 2 ^ 64 - 1"
  shows "epochs_ok (registry_exec r op)"
proof (cases op)
  case (OpAttach token)
  then show ?thesis
    using r few unat_next_epoch [of "ar_epoch r"]
    by (auto simp: epochs_ok_def registry_Attach_def Let_def nth_append less_Suc_eq)
next
  case (OpDetach a)
  then show ?thesis using r by (auto simp: epochs_ok_def registry_Detach_def nth_list_update)
next
  case OpClose
  then show ?thesis using r by (simp add: epochs_ok_def registry_Close_def)
qed

lemma atts_exec: "length (ar_atts (registry_exec r op)) \<le> Suc (length (ar_atts r))"
  by (cases op) (auto simp: registry_Attach_def registry_Detach_def registry_Close_def Let_def)

lemma epochs_ok_run:
  "epochs_ok r \<Longrightarrow> length (ar_atts r) + length ops \<le> 2 ^ 64 - 1 \<Longrightarrow> epochs_ok (foldl registry_exec r ops)"
proof (induction ops arbitrary: r)
  case (Cons op ops)
  have "epochs_ok (registry_exec r op)" using Cons.prems by (intro epochs_ok_exec) simp_all
  moreover have "length (ar_atts (registry_exec r op)) + length ops \<le> 2 ^ 64 - 1"
    using Cons.prems atts_exec [of r op] by simp
  ultimately show ?case using Cons.IH by simp
qed simp

text \<open>
  C7: In every state a registry reaches by attaches, detaches and closing, at most one generation
  owns it; the owner has not been detached, carries the newest epoch, and the epoch is never zero.
  As long as fewer than two to the 64 operations have run, generation number n has epoch n, so
  epochs are strictly increasing and never reused.
\<close>

theorem registry_generations:
  assumes "NewWithToken token identity = Inr r0" and "r = foldl registry_exec r0 ops"
    and "length ops < 2 ^ 64"
  shows "(\<forall>a. ar_current r = Some a \<longrightarrow>
             a < length (ar_atts r) \<and> \<not> ra_once (ar_atts r ! a) \<and> registry_Current r a
             \<and> CurrentEpoch r = ar_epoch r \<and> CurrentEpoch r \<noteq> 0)
       \<and> (ar_current r = None \<longrightarrow> CurrentEpoch r = 0)
       \<and> (\<forall>a < length (ar_atts r). unat (registry_Epoch r a) = Suc a)"
proof -
  have "epochs_ok r0" using assms(1) by (auto simp: NewWithToken_def rbind_eq_Inr epochs_ok_def Let_def split: if_splits)
  moreover have "ar_atts r0 = []" using assms(1) by (auto simp: NewWithToken_def rbind_eq_Inr Let_def split: if_splits)
  ultimately have "epochs_ok r" unfolding assms(2) using assms(3) by (intro epochs_ok_run) simp_all
  moreover have "ar_inv r" unfolding assms(2) by (intro registry_run_inv ar_inv_New [OF assms(1)])
  ultimately show ?thesis
    by (auto simp: ar_inv_def epochs_ok_def registry_Current_def CurrentEpoch_def registry_Epoch_def list_all_length)
qed

definition sample_registry :: attachRegistry where
  "sample_registry = \<lparr>ar_token = [1, 2], ar_instanceID = 5, ar_epoch = 0, ar_current = None,
     ar_closed = False, ar_atts = []\<rparr>"

lemma sample_registry_New: "NewWithToken [1, 2] (Inr [0, 0, 0, 0, 0, 0, 0, 5]) = Inr sample_registry"
  by (simp add: NewWithToken_def sample_registry_def Uint64_def be_value_def Let_def)

definition sample_history :: "registry_op list" where
  "sample_history = [OpAttach [1, 2], OpAttach [1, 2], OpDetach 0]"

theorem registry_generations_witness:
  "ar_current (foldl registry_exec sample_registry sample_history) = Some 1
     \<and> registry_Current (foldl registry_exec sample_registry sample_history) 1
     \<and> unat (registry_Epoch (foldl registry_exec sample_registry sample_history) 1) = 2"
proof -
  have "ar_current (foldl registry_exec sample_registry sample_history) = Some 1"
    "length (ar_atts (foldl registry_exec sample_registry sample_history)) = 2"
    by (simp_all add: sample_history_def sample_registry_def registry_Attach_def registry_Detach_def Let_def)
  moreover have "length sample_history < 2 ^ 64" by (simp add: sample_history_def)
  ultimately show ?thesis
    using registry_generations [OF sample_registry_New refl, of sample_history] by auto
qed

text \<open>
  A stale generation cannot release its successor: after any number of detaches of other
  generations the owner is unchanged, a stale detach reports \<open>ErrStaleAttachment\<close>, and repeating
  a detach changes nothing and returns the same answer.
\<close>

lemma registry_stale_detach:
  assumes "ar_inv r" and "ar_current r = Some a" and "a \<notin> set as"
  shows "ar_current (foldl (\<lambda>r a. fst (registry_Detach r a)) r as) = Some a
       \<and> (\<forall>b < length (ar_atts r). b \<noteq> a \<longrightarrow> \<not> ra_once (ar_atts r ! b) \<longrightarrow>
            snd (registry_Detach r b) = Some ErrStaleAttachment)
       \<and> (\<forall>b < length (ar_atts r). case registry_Detach r b of (r', e) \<Rightarrow> registry_Detach r' b = (r', e))"
proof -
  have "ar_current (foldl (\<lambda>r a. fst (registry_Detach r a)) r as) = Some a"
    using registry_slot.current_detaches [OF assms(1), of as] assms by simp
  moreover have "snd (registry_Detach r b) = Some ErrStaleAttachment"
    if "b < length (ar_atts r)" "b \<noteq> a" "\<not> ra_once (ar_atts r ! b)" for b
    using that assms by (simp add: registry_Detach_def)
  moreover have "case registry_Detach r b of (r', e) \<Rightarrow> registry_Detach r' b = (r', e)"
    if "b < length (ar_atts r)" for b
    using that by (auto simp: registry_Detach_def)
  ultimately show ?thesis by blast
qed

end
