(* ===== verification/SortedTable.thy ===== *)
theory SortedTable
  imports Bytes
begin

text \<open>
  Tables of fixed-size records with strictly increasing keys, the shape that registry summaries
  and resume acknowledgements share on the wire (src/internal/transport/attach/wire.go).  The
  loops of the encoder and the decoder are \<open>table_encode\<close> and \<open>table_decode\<close>; the locale says what
  a record codec has to provide and shows that the loops then invert each other.
\<close>

text \<open>\<open>previous\<close> is the key of the record before, \<open>None\<close> at index 0.\<close>

fun table_encode :: "('a \<Rightarrow> goerr option) \<Rightarrow> ('a \<Rightarrow> u64) \<Rightarrow> goerr \<Rightarrow> ('a \<Rightarrow> bytes) \<Rightarrow> u64 option
    \<Rightarrow> 'a list \<Rightarrow> bytes result" where
  "table_encode check key orderErr enc previous [] = Inr []"
| "table_encode check key orderErr enc previous (x # xs) =
     (case check x of
        Some err \<Rightarrow> Inl err
      | None \<Rightarrow>
          if (case previous of None \<Rightarrow> False | Some p \<Rightarrow> key x \<le> p) then Inl orderErr
          else rbind (table_encode check key orderErr enc (Some (key x)) xs) (\<lambda>bs. Inr (enc x @ bs)))"

fun table_decode :: "('a \<Rightarrow> goerr option) \<Rightarrow> ('a \<Rightarrow> u64) \<Rightarrow> goerr \<Rightarrow> nat \<Rightarrow> (bytes \<Rightarrow> 'a) \<Rightarrow> u64 option
    \<Rightarrow> nat \<Rightarrow> bytes \<Rightarrow> 'a list result" where
  "table_decode check key orderErr width dec previous 0 bs = Inr []"
| "table_decode check key orderErr width dec previous (Suc n) bs =
     (let x = dec bs in
      case check x of
        Some err \<Rightarrow> Inl err
      | None \<Rightarrow>
          if (case previous of None \<Rightarrow> False | Some p \<Rightarrow> key x \<le> p) then Inl orderErr
          else rbind (table_decode check key orderErr width dec (Some (key x)) n (drop width bs))
                 (\<lambda>xs. Inr (x # xs)))"

fun table_ok :: "('a \<Rightarrow> goerr option) \<Rightarrow> ('a \<Rightarrow> u64) \<Rightarrow> u64 option \<Rightarrow> 'a list \<Rightarrow> bool" where
  "table_ok check key previous [] \<longleftrightarrow> True"
| "table_ok check key previous (x # xs) \<longleftrightarrow>
     check x = None \<and> (case previous of None \<Rightarrow> True | Some p \<Rightarrow> p < key x) \<and> table_ok check key (Some (key x)) xs"

lemma table_ok_weaken: "table_ok check key previous xs \<Longrightarrow> table_ok check key None xs"
  by (cases xs) auto

lemma table_ok_bound: "table_ok check key (Some p) xs \<Longrightarrow> x \<in> set xs \<Longrightarrow> p < key x"
  by (induction xs arbitrary: p) force+

lemma table_ok_iff:
  "table_ok check key None xs \<longleftrightarrow> list_all (\<lambda>x. check x = None) xs \<and> sorted_wrt (<) (map key xs)"
proof (induction xs)
  case (Cons x xs)
  have "table_ok check key (Some (key x)) xs \<longleftrightarrow> table_ok check key None xs \<and> (\<forall>y \<in> set xs. key x < key y)"
    (is "?l \<longleftrightarrow> ?r")
  proof
    assume ?l
    then show ?r using table_ok_bound [of check key "key x" xs] table_ok_weaken by blast
  next
    assume ?r
    then show ?l by (cases xs) auto
  qed
  with Cons show ?case by auto
qed simp

lemma table_encode_Inr:
  "table_encode check key e enc previous xs = Inr bs \<longleftrightarrow>
     table_ok check key previous xs \<and> bs = concat (map enc xs)"
  by (induction xs arbitrary: previous bs) (auto simp: rbind_eq_Inr not_le split: option.splits)

locale record_codec =
  fixes enc :: "'a \<Rightarrow> bytes" and dec :: "bytes \<Rightarrow> 'a" and width :: nat
  assumes length_enc: "length (enc x) = width"
    and dec_enc: "dec (enc x @ rest) = x"
    and enc_dec: "width \<le> length bs \<Longrightarrow> enc (dec bs) = take width bs"
begin

lemma decode_encoded:
  "table_ok check key previous xs \<Longrightarrow>
     table_decode check key e width dec previous (length xs) (concat (map enc xs) @ rest) = Inr xs"
proof (induction xs arbitrary: previous)
  case (Cons x xs)
  then show ?case by (auto simp: Let_def dec_enc length_enc not_le split: option.splits)
qed simp

lemma decode_Inr:
  "table_decode check key e width dec previous n bs = Inr xs \<Longrightarrow> n * width \<le> length bs \<Longrightarrow>
     table_ok check key previous xs \<and> length xs = n \<and> concat (map enc xs) = take (n * width) bs"
proof (induction n arbitrary: previous bs xs)
  case (Suc n)
  let ?x = "dec bs"
  from Suc.prems(1) obtain ys where ys: "xs = ?x # ys" "check ?x = None"
    "case previous of None \<Rightarrow> True | Some p \<Rightarrow> p < key ?x"
    "table_decode check key e width dec (Some (key ?x)) n (drop width bs) = Inr ys"
    by (auto simp: Let_def rbind_eq_Inr not_le split: option.splits if_splits)
  have "n * width \<le> length (drop width bs)" using Suc.prems(2) by simp
  from Suc.IH [OF ys(4) this] ys Suc.prems(2) show ?case
    by (simp add: enc_dec take_add)
qed simp

lemma length_concat_enc: "length (concat (map enc xs)) = length xs * width"
  by (induction xs) (simp_all add: length_enc)

end

end
