(* ===== verification/AttachWire.thy ===== *)
theory AttachWire
  imports Codec Diagnostic AttachRegistry SortedTable
begin

text \<open>
  The attach-control protocol between broker and connector
  (src/internal/transport/attach/wire.go): the bounded control messages and their codecs, the
  registry summary and the resume acknowledgement, and both sides of the attach and resume
  handshakes.  A handshake runs over one end of a connection; its reads take the bytes the peer
  sends.  A pointer to a registry may be nil, so it is an \<open>option\<close> argument.
\<close>

section \<open>Constants and data\<close>

abbreviation wireVersion :: byte where "wireVersion \<equiv> 1"
abbreviation wireHeaderSize :: nat where "wireHeaderSize \<equiv> 12"
abbreviation maxWirePayload :: nat where "maxWirePayload \<equiv> 65536"
abbreviation maxWireToken :: nat where "maxWireToken \<equiv> 256"
abbreviation maxWireError :: nat where "maxWireError \<equiv> 4096"

definition wireMagic :: bytes where
  "wireMagic = str ''WWA1''"

abbreviation MessageHello :: byte where "MessageHello \<equiv> 1"
abbreviation MessageAttach :: byte where "MessageAttach \<equiv> 2"
abbreviation MessageAttachOK :: byte where "MessageAttachOK \<equiv> 3"
abbreviation MessageAttachError :: byte where "MessageAttachError \<equiv> 4"
abbreviation MessageRegistrySummary :: byte where "MessageRegistrySummary \<equiv> 5"
abbreviation MessageResumeAck :: byte where "MessageResumeAck \<equiv> 6"

record Message =
  mType :: byte
  mPayload :: bytes

abbreviation EntryStream :: byte where "EntryStream \<equiv> 1"
abbreviation EntryReverseListener :: byte where "EntryReverseListener \<equiv> 2"
abbreviation EntryDatagram :: byte where "EntryDatagram \<equiv> 3"
abbreviation EntryActive :: byte where "EntryActive \<equiv> 1"
abbreviation EntryClosed :: byte where "EntryClosed \<equiv> 2"

record RegistryEntry =
  re_ID :: u64
  re_Kind :: byte
  re_State :: byte

record Summary =
  su_Epoch :: u64
  su_Entries :: "RegistryEntry list"

abbreviation MaxSummaryEntries :: nat where "MaxSummaryEntries \<equiv> 4096"
abbreviation summaryHeaderSize :: nat where "summaryHeaderSize \<equiv> 10"
abbreviation summaryEntrySize :: nat where "summaryEntrySize \<equiv> 10"

definition summary_IDs :: "Summary \<Rightarrow> u64 list" where
  "summary_IDs s = map re_ID (su_Entries s)"

section \<open>Payload codecs\<close>

definition attach_EncodeCapabilities :: "u64 \<Rightarrow> bytes" where
  "attach_EncodeCapabilities capabilities = PutUint64 capabilities"

definition attach_DecodeCapabilities :: "bytes \<Rightarrow> u64 result" where
  "attach_DecodeCapabilities payload =
     (if length payload \<noteq> 8 then Inl (ErrText (str ''capabilities payload must contain 8 bytes''))
      else Inr (Uint64 payload))"

definition EncodeAttach :: "bytes \<Rightarrow> u64 \<Rightarrow> bytes result" where
  "EncodeAttach token lastEpoch =
     (if length token = 0 \<or> maxWireToken < length token then Inl ErrInvalidToken
      else Inr (PutUint16 (word_of_nat (length token)) @ token @ PutUint64 lastEpoch))"

definition DecodeAttach :: "bytes \<Rightarrow> (bytes \<times> u64) result" where
  "DecodeAttach payload =
     (if length payload < 10 then Inl (ErrText (str ''attach payload is truncated''))
      else let tokenLength = unat (Uint16 payload) in
        if tokenLength = 0 \<or> maxWireToken < tokenLength \<or> length payload \<noteq> 2 + tokenLength + 8
        then Inl (ErrText (str ''attach payload has invalid token length''))
        else Inr (take tokenLength (drop 2 payload), Uint64 (drop (2 + tokenLength) payload)))"

definition EncodeAttachOK :: "u64 \<Rightarrow> u64 \<Rightarrow> bytes" where
  "EncodeAttachOK epoch capabilities = PutUint64 epoch @ PutUint64 capabilities"

definition EncodeAttachOKWithInstance :: "u64 \<Rightarrow> u64 \<Rightarrow> u64 \<Rightarrow> bytes" where
  "EncodeAttachOKWithInstance epoch capabilities instanceID =
     PutUint64 epoch @ PutUint64 capabilities @ PutUint64 instanceID"

definition DecodeAttachOK :: "bytes \<Rightarrow> (u64 \<times> u64) result" where
  "DecodeAttachOK payload =
     (if length payload \<noteq> 16 \<and> length payload \<noteq> 24
      then Inl (ErrText (str ''attach ok payload must contain 16 or 24 bytes''))
      else Inr (Uint64 payload, Uint64 (drop 8 payload)))"

definition DecodeAttachOKWithInstance :: "bytes \<Rightarrow> (u64 \<times> u64 \<times> u64) result" where
  "DecodeAttachOKWithInstance payload =
     rbind (DecodeAttachOK payload) (\<lambda>(epoch, capabilities).
       if length payload \<noteq> 24 then Inr (epoch, capabilities, 0)
       else Inr (epoch, capabilities, Uint64 (drop 16 payload)))"

definition entry_validate :: "RegistryEntry \<Rightarrow> goerr option" where
  "entry_validate e =
     (if re_ID e = 0 then Some (ErrText (str ''registry entry id must be non-zero''))
      else if re_Kind e < EntryStream \<or> EntryDatagram < re_Kind e
      then Some (ErrText (str ''unknown registry entry kind '' @ decimal (unat (re_Kind e))))
      else if re_State e < EntryActive \<or> EntryClosed < re_State e
      then Some (ErrText (str ''unknown registry entry state '' @ decimal (unat (re_State e))))
      else None)"

definition entry_bytes :: "RegistryEntry \<Rightarrow> bytes" where
  "entry_bytes e = PutUint64 (re_ID e) @ [re_Kind e, re_State e]"

definition entry_of :: "bytes \<Rightarrow> RegistryEntry" where
  "entry_of bs = \<lparr>re_ID = Uint64 bs, re_Kind = bs ! 8, re_State = bs ! 9\<rparr>"

definition EncodeSummary :: "Summary \<Rightarrow> bytes result" where
  "EncodeSummary s =
     (if MaxSummaryEntries < length (su_Entries s)
         \<or> (maxWirePayload - summaryHeaderSize) div summaryEntrySize < length (su_Entries s)
      then Inl (ErrText (str ''registry summary contains too many entries''))
      else rbind (table_encode entry_validate re_ID
                    (ErrText (str ''registry summary entry ids must be strictly increasing''))
                    entry_bytes None (su_Entries s))
             (\<lambda>bs. Inr (PutUint64 (su_Epoch s) @ PutUint16 (word_of_nat (length (su_Entries s))) @ bs)))"

definition DecodeSummary :: "bytes \<Rightarrow> Summary result" where
  "DecodeSummary payload =
     (if length payload < summaryHeaderSize \<or> (length payload - summaryHeaderSize) mod summaryEntrySize \<noteq> 0
      then Inl (ErrText (str ''registry summary has invalid length''))
      else let count = unat (Uint16 (drop 8 payload)) in
        if MaxSummaryEntries < count \<or> length payload \<noteq> summaryHeaderSize + summaryEntrySize * count
        then Inl (ErrText (str ''registry summary has invalid entry count''))
        else rbind (table_decode entry_validate re_ID
                      (ErrText (str ''registry summary entry ids are not strictly increasing''))
                      summaryEntrySize entry_of None count (drop summaryHeaderSize payload))
               (\<lambda>es. Inr \<lparr>su_Epoch = Uint64 payload, su_Entries = es\<rparr>))"

text \<open>The check of an acknowledged id; zero and disorder give the same error.\<close>

definition id_check :: "goerr \<Rightarrow> u64 \<Rightarrow> goerr option" where
  "id_check err i = (if i = 0 then Some err else None)"

definition EncodeResumeAck :: "u64 \<Rightarrow> u64 list \<Rightarrow> bytes result" where
  "EncodeResumeAck epoch ids =
     (if MaxSummaryEntries < length ids \<or> (maxWirePayload - 10) div 8 < length ids
      then Inl (ErrText (str ''resume acknowledgement contains too many entries''))
      else let err = ErrText (str ''resume acknowledgement ids must be strictly increasing and non-zero'') in
        rbind (table_encode (id_check err) (\<lambda>i. i) err PutUint64 None ids)
          (\<lambda>bs. Inr (PutUint64 epoch @ PutUint16 (word_of_nat (length ids)) @ bs)))"

definition DecodeResumeAck :: "bytes \<Rightarrow> (u64 \<times> u64 list) result" where
  "DecodeResumeAck payload =
     (if length payload < 10 \<or> (length payload - 10) mod 8 \<noteq> 0
      then Inl (ErrText (str ''resume acknowledgement has invalid length''))
      else let count = unat (Uint16 (drop 8 payload)) in
        if MaxSummaryEntries < count \<or> length payload \<noteq> 10 + 8 * count
        then Inl (ErrText (str ''resume acknowledgement has invalid entry count''))
        else let err = ErrText (str ''resume acknowledgement ids are not strictly increasing and non-zero'') in
          rbind (table_decode (id_check err) (\<lambda>i. i) err 8 Uint64 None count (drop 10 payload))
            (\<lambda>ids. Inr (Uint64 payload, ids)))"

text \<open>
  \<open>validateResumeAck\<close>: the entry index only moves forward, so the entries not yet passed are a
  suffix of the summary.
\<close>

fun ack_loop :: "RegistryEntry list \<Rightarrow> u64 list \<Rightarrow> goerr option" where
  "ack_loop es [] = None"
| "ack_loop es (i # ids) =
     (case dropWhile (\<lambda>e. re_ID e < i) es of
        [] \<Rightarrow> Some (ErrText (str ''resume acknowledgement references unknown entry '' @ decimal (unat i)))
      | e # rest \<Rightarrow>
          if re_ID e \<noteq> i
          then Some (ErrText (str ''resume acknowledgement references unknown entry '' @ decimal (unat i)))
          else ack_loop rest ids)"

definition validateResumeAck :: "Summary \<Rightarrow> u64 \<Rightarrow> u64 list \<Rightarrow> goerr option" where
  "validateResumeAck s epoch ids =
     (if epoch \<noteq> su_Epoch s
      then Some (ErrText (str ''resume epoch '' @ decimal (unat epoch)
                          @ str '' does not match summary epoch '' @ decimal (unat (su_Epoch s))))
      else if length (su_Entries s) < length ids
      then Some (ErrText (str ''resume acknowledgement contains unknown entries''))
      else ack_loop (su_Entries s) ids)"

section \<open>Messages\<close>

definition error_of :: "'a result \<Rightarrow> goerr option" where
  "error_of r = (case r of Inl e \<Rightarrow> Some e | Inr x \<Rightarrow> None)"

definition message_validate :: "Message \<Rightarrow> goerr option" where
  "message_validate m =
     (if mType m < MessageHello \<or> MessageResumeAck < mType m
      then Some (ErrText (str ''unknown attach message type '' @ decimal (unat (mType m))))
      else if maxWirePayload < length (mPayload m)
      then Some (ErrText (str ''attach payload exceeds 65536 bytes''))
      else if mType m = MessageHello then
        (if length (mPayload m) \<noteq> 8 then Some (ErrText (str ''hello payload must contain capabilities'')) else None)
      else if mType m = MessageAttach then error_of (DecodeAttach (mPayload m))
      else if mType m = MessageAttachOK then
        (if length (mPayload m) \<noteq> 16 \<and> length (mPayload m) \<noteq> 24
         then Some (ErrText (str ''attach ok payload must contain epoch, capabilities, and optional instance id''))
         else None)
      else if mType m = MessageAttachError then
        (if length (mPayload m) = 0 \<or> maxWireError < length (mPayload m)
         then Some (ErrText (str ''attach error payload has invalid length'')) else None)
      else if mType m = MessageRegistrySummary then error_of (DecodeSummary (mPayload m))
      else error_of (DecodeResumeAck (mPayload m)))"

definition message_header :: "Message \<Rightarrow> bytes" where
  "message_header m =
     wireMagic @ [wireVersion, mType m, 0, 0] @ PutUint32 (word_of_nat (length (mPayload m)))"

definition attach_Write :: "conn \<Rightarrow> Message \<Rightarrow> conn \<times> goerr option" where
  "attach_Write w m =
     (case message_validate m of
        Some err \<Rightarrow> (w, Some err)
      | None \<Rightarrow>
          (case attach_writeFull conn_write w (message_header m) of
             (w1, Some err) \<Rightarrow> (w1, Some err)
           | (w1, None) \<Rightarrow> attach_writeFull conn_write w1 (mPayload m)))"

definition attach_Read :: "conn \<Rightarrow> conn \<times> Message result" where
  "attach_Read r =
     (case readFull wireHeaderSize r of
        (r1, Inl err) \<Rightarrow> (r1, Inl err)
      | (r1, Inr header) \<Rightarrow>
          if take 4 header \<noteq> wireMagic
          then (r1, Inl (ErrText (str ''invalid attach protocol magic'')))
          else if header ! 4 \<noteq> wireVersion
          then (r1, Inl (ErrText (str ''unsupported attach protocol version '' @ decimal (unat (header ! 4)))))
          else let n = unat (Uint32 (drop 8 header)) in
            if maxWirePayload < n then (r1, Inl (ErrText (str ''attach payload exceeds 65536 bytes'')))
            else (case readFull n r1 of
                (r2, Inl err) \<Rightarrow> (r2, Inl err)
              | (r2, Inr payload) \<Rightarrow>
                  let m = \<lparr>mType = header ! 5, mPayload = payload\<rparr>
                  in (case message_validate m of
                        Some err \<Rightarrow> (r2, Inl err)
                      | None \<Rightarrow> (r2, Inr m))))"

section \<open>Handshakes\<close>

definition ClientHandshakeWithInstance ::
  "conn \<Rightarrow> bytes \<Rightarrow> u64 \<Rightarrow> u64 \<Rightarrow> conn \<times> (u64 \<times> u64 \<times> u64) result" where
  "ClientHandshakeWithInstance rw token capabilities lastEpoch =
     (case EncodeAttach token lastEpoch of
        Inl err \<Rightarrow> (rw, Inl err)
      | Inr payload \<Rightarrow>
          (case attach_Write rw \<lparr>mType = MessageHello, mPayload = attach_EncodeCapabilities capabilities\<rparr> of
             (c1, Some err) \<Rightarrow> (c1, Inl err)
           | (c1, None) \<Rightarrow>
               (case attach_Write c1 \<lparr>mType = MessageAttach, mPayload = payload\<rparr> of
                  (c2, Some err) \<Rightarrow> (c2, Inl err)
                | (c2, None) \<Rightarrow>
                    (case attach_Read c2 of
                       (c3, Inl err) \<Rightarrow> (c3, Inl err)
                     | (c3, Inr response) \<Rightarrow>
                         if mType response = MessageAttachError
                         then (c3, Inl (ErrWrapped (error_text ErrRemoteAttach @ str '': '' @ mPayload response)
                                          ErrRemoteAttach))
                         else if mType response \<noteq> MessageAttachOK
                         then (c3, Inl (ErrText (str ''unexpected attach response ''
                                                 @ decimal (unat (mType response)))))
                         else (c3, DecodeAttachOKWithInstance (mPayload response))))))"

definition ClientHandshake :: "conn \<Rightarrow> bytes \<Rightarrow> u64 \<Rightarrow> u64 \<Rightarrow> conn \<times> (u64 \<times> u64) result" where
  "ClientHandshake rw token capabilities lastEpoch =
     (case ClientHandshakeWithInstance rw token capabilities lastEpoch of
        (c, r) \<Rightarrow> (c, rbind r (\<lambda>(epoch, peerCapabilities, instanceID). Inr (epoch, peerCapabilities))))"

definition ClientResumeHandshakeWithInstance ::
  "conn \<Rightarrow> bytes \<Rightarrow> u64 \<Rightarrow> u64 \<Rightarrow> conn \<times> (u64 \<times> u64 \<times> u64 \<times> Summary) result" where
  "ClientResumeHandshakeWithInstance rw token capabilities lastEpoch =
     (case ClientHandshakeWithInstance rw token capabilities lastEpoch of
        (c1, Inl err) \<Rightarrow> (c1, Inl err)
      | (c1, Inr (epoch, peerCapabilities, instanceID)) \<Rightarrow>
          (case attach_Read c1 of
             (c2, Inl err) \<Rightarrow> (c2, Inl err)
           | (c2, Inr message) \<Rightarrow>
               if mType message \<noteq> MessageRegistrySummary
               then (c2, Inl (ErrText (str ''expected registry summary, got '' @ decimal (unat (mType message)))))
               else (case DecodeSummary (mPayload message) of
                   Inl err \<Rightarrow> (c2, Inl err)
                 | Inr summary \<Rightarrow>
                     (case validateResumeAck summary epoch (summary_IDs summary) of
                        Some err \<Rightarrow> (c2, Inl err)
                      | None \<Rightarrow>
                          (case EncodeResumeAck epoch (summary_IDs summary) of
                             Inl err \<Rightarrow> (c2, Inl err)
                           | Inr payload \<Rightarrow>
                               (case attach_Write c2 \<lparr>mType = MessageResumeAck, mPayload = payload\<rparr> of
                                  (c3, Some err) \<Rightarrow> (c3, Inl err)
                                | (c3, None) \<Rightarrow>
                                    (c3, Inr (epoch, peerCapabilities, instanceID, summary))))))))"

definition ClientResumeHandshake ::
  "conn \<Rightarrow> bytes \<Rightarrow> u64 \<Rightarrow> u64 \<Rightarrow> conn \<times> (u64 \<times> u64 \<times> Summary) result" where
  "ClientResumeHandshake rw token capabilities lastEpoch =
     (case ClientResumeHandshakeWithInstance rw token capabilities lastEpoch of
        (c, r) \<Rightarrow> (c, rbind r (\<lambda>(epoch, peerCapabilities, instanceID, summary).
                               Inr (epoch, peerCapabilities, summary))))"

record ServerAttachRequest =
  rq_Token :: bytes
  rq_PeerCapabilities :: u64
  rq_LastEpoch :: u64

definition ReadServerAttachRequest :: "conn \<Rightarrow> conn \<times> ServerAttachRequest result" where
  "ReadServerAttachRequest rw =
     (case attach_Read rw of
        (c1, Inl err) \<Rightarrow> (c1, Inl err)
      | (c1, Inr hello) \<Rightarrow>
          if mType hello \<noteq> MessageHello
          then (c1, Inl (ErrText (str ''expected hello, got '' @ decimal (unat (mType hello)))))
          else (case attach_DecodeCapabilities (mPayload hello) of
              Inl err \<Rightarrow> (c1, Inl err)
            | Inr peerCapabilities \<Rightarrow>
                (case attach_Read c1 of
                   (c2, Inl err) \<Rightarrow> (c2, Inl err)
                 | (c2, Inr attachMessage) \<Rightarrow>
                     if mType attachMessage \<noteq> MessageAttach
                     then (c2, Inl (ErrText (str ''expected attach, got ''
                                             @ decimal (unat (mType attachMessage)))))
                     else (case DecodeAttach (mPayload attachMessage) of
                         Inl err \<Rightarrow> (c2, Inl err)
                       | Inr (token, lastEpoch) \<Rightarrow>
                           (c2, Inr \<lparr>rq_Token = token, rq_PeerCapabilities = peerCapabilities,
                                     rq_LastEpoch = lastEpoch\<rparr>)))))"

text \<open>
  The five results of the server side: attachment (nil is \<open>None\<close>), peer capabilities, last
  epoch, broker identity and error.
\<close>

record serverHandshake =
  sh_attachment :: "nat option"
  sh_capabilities :: u64
  sh_lastEpoch :: u64
  sh_instanceID :: u64
  sh_err :: "goerr option"

definition attachErrorPayload :: "goerr option \<Rightarrow> bytes" where
  "attachErrorPayload err =
     (case err of None \<Rightarrow> [] | Some e \<Rightarrow> SingleLine (error_text e) (int maxWireError))"

definition completeServerHandshakeWithInstance ::
  "conn \<Rightarrow> attachRegistry option \<Rightarrow> u64 \<Rightarrow> ServerAttachRequest
     \<Rightarrow> conn \<times> attachRegistry option \<times> serverHandshake" where
  "completeServerHandshakeWithInstance rw registry capabilities request =
     (let fail = (\<lambda>err. \<lparr>sh_attachment = None, sh_capabilities = rq_PeerCapabilities request,
                         sh_lastEpoch = rq_LastEpoch request, sh_instanceID = 0, sh_err = Some err\<rparr>) in
      case registry of
        None \<Rightarrow> (rw, None, fail (ErrText (str ''attach registry is nil'')))
      | Some r \<Rightarrow>
          (case registry_Attach r (rq_Token request) of
             (r1, Inl err) \<Rightarrow>
               (fst (attach_Write rw \<lparr>mType = MessageAttachError, mPayload = attachErrorPayload (Some err)\<rparr>),
                Some r1, fail err)
           | (r1, Inr a) \<Rightarrow>
               (case attach_Write rw \<lparr>mType = MessageAttachOK,
                        mPayload = EncodeAttachOKWithInstance (registry_Epoch r1 a) capabilities (InstanceID r1)\<rparr> of
                  (c1, Some err) \<Rightarrow> (c1, Some (fst (registry_Detach r1 a)), fail err)
                | (c1, None) \<Rightarrow>
                    (c1, Some r1, \<lparr>sh_attachment = Some a, sh_capabilities = rq_PeerCapabilities request,
                                  sh_lastEpoch = rq_LastEpoch request, sh_instanceID = InstanceID r1,
                                  sh_err = None\<rparr>))))"

definition noHandshake :: "goerr \<Rightarrow> serverHandshake" where
  "noHandshake err = \<lparr>sh_attachment = None, sh_capabilities = 0, sh_lastEpoch = 0, sh_instanceID = 0,
                      sh_err = Some err\<rparr>"

definition ServerHandshakeWithInstance ::
  "conn \<Rightarrow> attachRegistry option \<Rightarrow> u64 \<Rightarrow> conn \<times> attachRegistry option \<times> serverHandshake" where
  "ServerHandshakeWithInstance rw registry capabilities =
     (case registry of
        None \<Rightarrow> (rw, None, noHandshake (ErrText (str ''attach registry is nil'')))
      | Some r \<Rightarrow>
          (case ReadServerAttachRequest rw of
             (c1, Inl err) \<Rightarrow> (c1, Some r, noHandshake err)
           | (c1, Inr request) \<Rightarrow> completeServerHandshakeWithInstance c1 (Some r) capabilities request))"

definition CompleteServerResumeHandshakeWithInstance ::
  "conn \<Rightarrow> attachRegistry option \<Rightarrow> u64 \<Rightarrow> Summary \<Rightarrow> ServerAttachRequest
     \<Rightarrow> conn \<times> attachRegistry option \<times> serverHandshake" where
  "CompleteServerResumeHandshakeWithInstance rw registry capabilities summary request =
     (case completeServerHandshakeWithInstance rw registry capabilities request of
        (c1, Some r1, sh) \<Rightarrow>
          (case sh_attachment sh of
             None \<Rightarrow> (c1, Some r1, sh\<lparr>sh_instanceID := 0\<rparr>)
           | Some a \<Rightarrow>
               let give_up = (\<lambda>c err. (c, Some (fst (registry_Detach r1 a)),
                                sh\<lparr>sh_attachment := None, sh_err := Some err\<rparr>));
                   summary1 = summary\<lparr>su_Epoch := registry_Epoch r1 a\<rparr>
               in (case EncodeSummary summary1 of
                     Inl err \<Rightarrow> give_up c1 err
                   | Inr payload \<Rightarrow>
                       (case attach_Write c1 \<lparr>mType = MessageRegistrySummary, mPayload = payload\<rparr> of
                          (c2, Some err) \<Rightarrow> give_up c2 err
                        | (c2, None) \<Rightarrow>
                            (case attach_Read c2 of
                               (c3, Inl err) \<Rightarrow> give_up c3 err
                             | (c3, Inr message) \<Rightarrow>
                                 if mType message \<noteq> MessageResumeAck
                                 then give_up c3 (ErrText (str ''expected resume acknowledgement, got ''
                                                           @ decimal (unat (mType message))))
                                 else (case DecodeResumeAck (mPayload message) of
                                     Inl err \<Rightarrow> give_up c3 err
                                   | Inr (ackEpoch, ids) \<Rightarrow>
                                       (case validateResumeAck summary1 ackEpoch ids of
                                          Some err \<Rightarrow> give_up c3 err
                                        | None \<Rightarrow> (c3, Some r1, sh)))))))
      | (c1, None, sh) \<Rightarrow> (c1, None, sh\<lparr>sh_instanceID := 0\<rparr>))"

definition ServerResumeHandshakeWithInstance ::
  "conn \<Rightarrow> attachRegistry option \<Rightarrow> u64 \<Rightarrow> Summary \<Rightarrow> conn \<times> attachRegistry option \<times> serverHandshake" where
  "ServerResumeHandshakeWithInstance rw registry capabilities summary =
     (case registry of
        None \<Rightarrow> (rw, None, noHandshake (ErrText (str ''attach registry is nil'')))
      | Some r \<Rightarrow>
          (case ReadServerAttachRequest rw of
             (c1, Inl err) \<Rightarrow> (c1, Some r, noHandshake err)
           | (c1, Inr request) \<Rightarrow>
               CompleteServerResumeHandshakeWithInstance c1 (Some r) capabilities summary request))"

text \<open>\<open>ServerHandshake\<close> and \<open>ServerResumeHandshake\<close> drop the broker identity.\<close>

definition ServerHandshake ::
  "conn \<Rightarrow> attachRegistry option \<Rightarrow> u64 \<Rightarrow> conn \<times> attachRegistry option \<times> nat option \<times> u64 \<times> u64 \<times> goerr option" where
  "ServerHandshake rw registry capabilities =
     (case ServerHandshakeWithInstance rw registry capabilities of (c, r, sh) \<Rightarrow>
        (c, r, sh_attachment sh, sh_capabilities sh, sh_lastEpoch sh, sh_err sh))"

definition ServerResumeHandshake ::
  "conn \<Rightarrow> attachRegistry option \<Rightarrow> u64 \<Rightarrow> Summary
     \<Rightarrow> conn \<times> attachRegistry option \<times> nat option \<times> u64 \<times> u64 \<times> goerr option" where
  "ServerResumeHandshake rw registry capabilities summary =
     (case ServerResumeHandshakeWithInstance rw registry capabilities summary of (c, r, sh) \<Rightarrow>
        (c, r, sh_attachment sh, sh_capabilities sh, sh_lastEpoch sh, sh_err sh))"

end
