(* ===== verification/AttachHandshake.thy ===== *)
theory AttachHandshake
  imports AttachWire
begin

text \<open>
  Correctness of the attach-control protocol: the payload codecs are exact inverses, control
  messages survive any sequence on the wire, the resume acknowledgement check accepts exactly the
  subsets of a summary, and the two sides of the handshake agree on epoch, identity and summary,
  or the server rejects the connector and keeps its registry.
\<close>

section \<open>Codecs\<close>

lemma take_split2: "n + 2 \<le> length bs \<Longrightarrow> take (n + 2) bs = take n bs @ [bs ! n, bs ! Suc n]"
  by (simp add: take_Suc_conv_app_nth)

interpretation entries: record_codec entry_bytes entry_of summaryEntrySize
proof unfold_locales
  fix e :: RegistryEntry and bs rest :: bytes
  show "length (entry_bytes e) = summaryEntrySize" by (simp add: entry_bytes_def)
  show "entry_of (entry_bytes e @ rest) = e"
    by (cases e) (simp add: entry_bytes_def entry_of_def nth_append)
  show "entry_bytes (entry_of bs) = take summaryEntrySize bs" if "summaryEntrySize \<le> length bs"
    using that take_split2 [of 8 bs] Put_Uint64 [of "take 8 bs"]
    by (simp add: entry_bytes_def entry_of_def Uint64_take)
qed

interpretation ack_ids: record_codec PutUint64 Uint64 8
proof unfold_locales
  fix i :: u64 and bs rest :: bytes
  show "PutUint64 (Uint64 bs) = take 8 bs" if "8 \<le> length bs"
    using that Put_Uint64 [of "take 8 bs"] by (simp add: Uint64_take)
qed simp_all

lemma Put_parts:
  assumes "10 \<le> length p"
  shows "PutUint64 (Uint64 p) @ PutUint16 (Uint16 (drop 8 p)) @ drop 10 p = p"
proof -
  have "PutUint64 (Uint64 p) = take 8 p" using assms Put_Uint64 [of "take 8 p"] by (simp add: Uint64_take)
  moreover have "PutUint16 (Uint16 (drop 8 p)) = take 2 (drop 8 p)"
    using assms Put_Uint16 [of "take 2 (drop 8 p)"] by (simp add: Uint16_take)
  moreover have "take 8 p @ take 2 (drop 8 p) @ drop 10 p = p"
    using append_take_drop_id [of 8 p] append_take_drop_id [of 2 "drop 8 p"] by (simp add: drop_drop)
  ultimately show ?thesis by simp
qed

lemma Uint16_nat: "n < 65536 \<Longrightarrow> unat (word_of_nat n :: u16) = n"
  by (rule unat_of_nat_u16)

lemma EncodeSummary_Inr:
  "EncodeSummary s = Inr p \<longleftrightarrow>
     length (su_Entries s) \<le> MaxSummaryEntries \<and> table_ok entry_validate re_ID None (su_Entries s) \<and>
     p = PutUint64 (su_Epoch s) @ PutUint16 (word_of_nat (length (su_Entries s)))
         @ concat (map entry_bytes (su_Entries s))"
  by (auto simp: EncodeSummary_def rbind_eq_Inr table_encode_Inr)

lemma DecodeSummary_Encode:
  assumes "EncodeSummary s = Inr p"
  shows "DecodeSummary p = Inr s"
proof -
  from assms have n: "length (su_Entries s) \<le> MaxSummaryEntries"
    and ok: "table_ok entry_validate re_ID None (su_Entries s)"
    and p: "p = PutUint64 (su_Epoch s) @ PutUint16 (word_of_nat (length (su_Entries s)))
         @ concat (map entry_bytes (su_Entries s))" by (simp_all add: EncodeSummary_Inr)
  have "length p = 10 + 10 * length (su_Entries s)"
    by (simp add: p entries.length_concat_enc)
  moreover have "unat (Uint16 (drop 8 p)) = length (su_Entries s)"
    using n by (simp add: p unat_of_nat_u16)
  moreover have "drop 10 p = concat (map entry_bytes (su_Entries s))" by (simp add: p)
  ultimately show ?thesis
    using n entries.decode_encoded [OF ok, where rest = "[]"]
    by (simp add: DecodeSummary_def Let_def, simp add: p)
qed

lemma guarded_Inr:
  "(if A then Inl e else if B then Inl e' else rbind r f) = Inr s \<longleftrightarrow>
     \<not> A \<and> \<not> B \<and> (\<exists>x. r = Inr x \<and> f x = Inr s)"
  by (auto simp: rbind_eq_Inr)

lemma EncodeSummary_Decode:
  assumes "DecodeSummary p = Inr s"
  shows "EncodeSummary s = Inr p"
proof -
  define n where "n = unat (Uint16 (drop 8 p))"
  note D = assms [unfolded DecodeSummary_def Let_def guarded_Inr n_def [symmetric]]
  have len: "length p = 10 + 10 * n" "n \<le> MaxSummaryEntries"
    using D by (blast, meson not_le)
  from D obtain es where es: "table_decode entry_validate re_ID
        (ErrText (str ''registry summary entry ids are not strictly increasing''))
        summaryEntrySize entry_of None n (drop 10 p) = Inr es"
    and s: "s = \<lparr>su_Epoch = Uint64 p, su_Entries = es\<rparr>"
    by (metis sum.inject(2))
  have R: "table_ok entry_validate re_ID None es" "length es = n" "concat (map entry_bytes es) = drop 10 p"
    using entries.decode_Inr [OF es] len(1) by simp_all
  have "PutUint16 (word_of_nat n) = PutUint16 (Uint16 (drop 8 p))" by (simp add: n_def)
  with R len Put_parts [of p] show ?thesis by (simp add: s EncodeSummary_Inr)
qed

definition ack_ok :: "u64 list \<Rightarrow> bool" where
  "ack_ok is \<longleftrightarrow> list_all (\<lambda>i. i \<noteq> 0) is \<and> sorted_wrt (<) is"

lemma table_ok_ack: "table_ok (id_check e) (\<lambda>i. i) None is = ack_ok is"
  by (simp add: table_ok_iff ack_ok_def id_check_def)

lemma EncodeResumeAck_Inr:
  "EncodeResumeAck epoch is = Inr p \<longleftrightarrow>
     length is \<le> MaxSummaryEntries \<and> ack_ok is \<and>
     p = PutUint64 epoch @ PutUint16 (word_of_nat (length is)) @ concat (map PutUint64 is)"
  by (auto simp: EncodeResumeAck_def Let_def rbind_eq_Inr table_encode_Inr table_ok_ack)

lemma DecodeResumeAck_Encode:
  assumes "EncodeResumeAck epoch is = Inr p"
  shows "DecodeResumeAck p = Inr (epoch, is)"
proof -
  from assms have n: "length is \<le> MaxSummaryEntries"
    and p: "p = PutUint64 epoch @ PutUint16 (word_of_nat (length is)) @ concat (map PutUint64 is)"
    by (simp_all add: EncodeResumeAck_Inr)
  have ok: "table_ok (id_check e) (\<lambda>i. i) None is" for e
    using assms by (simp add: EncodeResumeAck_Inr table_ok_ack)
  have "length p = 10 + 8 * length is"
    by (simp add: p ack_ids.length_concat_enc)
  moreover have "unat (Uint16 (drop 8 p)) = length is" using n by (simp add: p unat_of_nat_u16)
  moreover have "drop 10 p = concat (map PutUint64 is)" by (simp add: p)
  ultimately show ?thesis
    using n ack_ids.decode_encoded [OF ok, where rest = "[]"]
    by (simp add: DecodeResumeAck_def Let_def, simp add: p)
qed

lemma EncodeResumeAck_Decode:
  assumes "DecodeResumeAck p = Inr (epoch, is)"
  shows "EncodeResumeAck epoch is = Inr p"
proof -
  define n where "n = unat (Uint16 (drop 8 p))"
  note D = assms [unfolded DecodeResumeAck_def Let_def guarded_Inr n_def [symmetric]]
  have len: "length p = 10 + 8 * n" "n \<le> MaxSummaryEntries"
    using D by (blast, meson not_le)
  from D obtain e where es: "table_decode (id_check e) (\<lambda>i. i) e 8 Uint64 None n (drop 10 p) = Inr is"
    and s: "epoch = Uint64 p" by (metis prod.inject sum.inject(2))
  have R: "table_ok (id_check e) (\<lambda>i. i) None is" "length is = n" "concat (map PutUint64 is) = drop 10 p"
    using ack_ids.decode_Inr [OF es] len(1) by simp_all
  have "PutUint16 (word_of_nat n) = PutUint16 (Uint16 (drop 8 p))" by (simp add: n_def)
  with R len Put_parts [of p] show ?thesis
    by (simp add: s EncodeResumeAck_Inr table_ok_ack)
qed

lemma DecodeAttach_Encode: "EncodeAttach token e = Inr p \<Longrightarrow> DecodeAttach p = Inr (token, e)"
  by (auto simp: EncodeAttach_def DecodeAttach_def Let_def unat_of_nat_u16 not_less split: if_splits)

lemma EncodeAttach_Decode:
  assumes "DecodeAttach p = Inr (token, e)"
  shows "EncodeAttach token e = Inr p"
proof -
  define n where "n = unat (Uint16 p)"
  have len: "length p = 2 + n + 8" "0 < n" "n \<le> 256"
    and token: "token = take n (drop 2 p)" and e: "e = Uint64 (drop (2 + n) p)"
    using assms by (auto simp: DecodeAttach_def Let_def n_def [symmetric] split: if_splits)
  have "PutUint16 (word_of_nat n) = take 2 p"
    using len Put_Uint16 [of "take 2 p"] by (simp add: n_def Uint16_take)
  moreover have "PutUint64 e = drop (2 + n) p" using len Put_Uint64 [of "drop (2 + n) p"] by (simp add: e)
  moreover have "take 2 p @ take n (drop 2 p) @ drop (2 + n) p = p"
    using append_take_drop_id [of 2 p] append_take_drop_id [of n "drop 2 p"] by (simp add: add.commute)
  moreover have "length token = n" using len by (simp add: token)
  ultimately show ?thesis using len by (simp add: EncodeAttach_def token)
qed

text \<open>
  The attach payload codecs are exact inverses on the whole domain: a payload is the encoding
  of a token and epoch, of a summary, or of an acknowledgement if and only if it decodes to it.
  Only tokens of 1 to 256 bytes and tables of at most 4096 valid entries with strictly increasing
  identifiers have an encoding.
\<close>

lemma attach_payload_codecs:
  "(EncodeAttach token epoch = Inr p \<longleftrightarrow> DecodeAttach p = Inr (token, epoch))
   \<and> (EncodeSummary s = Inr p \<longleftrightarrow> DecodeSummary p = Inr s)
   \<and> (EncodeResumeAck epoch is = Inr p \<longleftrightarrow> DecodeResumeAck p = Inr (epoch, is))
   \<and> (isOk (EncodeSummary s) \<longleftrightarrow> length (su_Entries s) \<le> MaxSummaryEntries
        \<and> list_all (\<lambda>e. entry_validate e = None) (su_Entries s) \<and> sorted_wrt (<) (summary_IDs s))"
proof (intro conjI)
  show "EncodeAttach token epoch = Inr p \<longleftrightarrow> DecodeAttach p = Inr (token, epoch)"
    using DecodeAttach_Encode EncodeAttach_Decode by blast
  show "EncodeSummary s = Inr p \<longleftrightarrow> DecodeSummary p = Inr s"
    using DecodeSummary_Encode EncodeSummary_Decode by blast
  show "EncodeResumeAck epoch is = Inr p \<longleftrightarrow> DecodeResumeAck p = Inr (epoch, is)"
    using DecodeResumeAck_Encode EncodeResumeAck_Decode by blast
  show "isOk (EncodeSummary s) \<longleftrightarrow> length (su_Entries s) \<le> MaxSummaryEntries
        \<and> list_all (\<lambda>e. entry_validate e = None) (su_Entries s) \<and> sorted_wrt (<) (summary_IDs s)"
    by (simp add: isOk_def EncodeSummary_Inr table_ok_iff summary_IDs_def)
qed

section \<open>Messages\<close>

definition message_bytes :: "Message \<Rightarrow> bytes" where
  "message_bytes m = message_header m @ mPayload m"

lemma message_bound: "message_validate m = None \<Longrightarrow> length (mPayload m) \<le> maxWirePayload"
  by (auto simp: message_validate_def split: if_splits)

lemma message_header_parts:
  "length (message_header m) = 12"
  "take 4 (message_header m) = wireMagic"
  "message_header m ! 4 = wireVersion"
  "message_header m ! 5 = mType m"
  "Uint32 (drop 8 (message_header m)) = word_of_nat (length (mPayload m))"
  by (simp_all add: message_header_def wireMagic_def str_def)

lemma attach_Read_message:
  assumes v: "message_validate m = None" and i: "inbuf c = message_bytes m @ rest"
  shows "attach_Read c = (c\<lparr>inbuf := rest\<rparr>, Inr m)"
proof -
  have n: "unat (word_of_nat (length (mPayload m)) :: u32) = length (mPayload m)"
    using message_bound [OF v] by (intro unat_of_nat_u32) simp
  have h: "readFull wireHeaderSize c = (c\<lparr>inbuf := mPayload m @ rest\<rparr>, Inr (message_header m))"
    using i by (intro readFull_enough) (simp_all add: message_bytes_def message_header_parts)
  have p: "readFull (length (mPayload m)) (c\<lparr>inbuf := mPayload m @ rest\<rparr>)
      = (c\<lparr>inbuf := rest\<rparr>, Inr (mPayload m))"
    using readFull_enough [of "c\<lparr>inbuf := mPayload m @ rest\<rparr>" "mPayload m" rest] by simp
  have r: "\<lparr>mType = mType m, mPayload = mPayload m\<rparr> = m" by (cases m) simp
  show ?thesis using message_bound [OF v]
    by (simp add: attach_Read_def h message_header_parts n p Let_def r v)
qed

interpretation messages: stream_codec message_bytes attach_Read "\<lambda>m. message_validate m = None"
  by unfold_locales (rule attach_Read_message)

lemma attach_Write_idle:
  "wscript w = [] \<Longrightarrow> message_validate m = None \<Longrightarrow>
     attach_Write w m = (w\<lparr>outbuf := outbuf w @ message_bytes m\<rparr>, None)"
  by (simp add: attach_Write_def attach_writeFull_idle message_bytes_def)

fun write_messages :: "conn \<Rightarrow> Message list \<Rightarrow> conn \<times> goerr option" where
  "write_messages w [] = (w, None)"
| "write_messages w (m # ms) =
     (case attach_Write w m of
        (w1, Some e) \<Rightarrow> (w1, Some e)
      | (w1, None) \<Rightarrow> write_messages w1 ms)"

lemma attach_Write_complete:
  "attach_Write w m = (w', None) \<Longrightarrow> message_validate m = None \<and> outbuf w' = outbuf w @ message_bytes m"
  by (auto simp: attach_Write_def message_bytes_def conn.attach_writeFull_eq split: option.splits prod.splits
      dest!: conn.writeFull_complete)

lemma write_messages_complete:
  "write_messages w ms = (w', None) \<Longrightarrow>
     list_all (\<lambda>m. message_validate m = None) ms \<and> outbuf w' = outbuf w @ concat (map message_bytes ms)"
  by (induction ms arbitrary: w) (auto split: prod.splits option.splits dest!: attach_Write_complete)

text \<open>
  Control messages that were written without an error, over any transport and in any number,
  are read back one by one unchanged, and nothing beyond them is consumed.
\<close>

lemma attach_stream_roundtrip:
  assumes "write_messages w ms = (w', None)" and "outbuf w = []" and "inbuf r = outbuf w' @ rest"
  shows "read_many attach_Read (length ms) r = (r\<lparr>inbuf := rest\<rparr>, Inr ms)"
  using messages.read_many_concat [of ms r rest] write_messages_complete [OF assms(1)] assms(2,3)
  by (auto simp: list_all_iff)

definition sample_messages :: "Message list" where
  "sample_messages = [\<lparr>mType = MessageHello, mPayload = PutUint64 7\<rparr>,
                      \<lparr>mType = MessageAttachError, mPayload = [65]\<rparr>]"

section \<open>Acknowledgements\<close>

lemma ack_loop_sorted:
  "sorted_wrt (<) (map re_ID es) \<Longrightarrow> sorted_wrt (<) is \<Longrightarrow>
     ack_loop es is = None \<longleftrightarrow> set is \<subseteq> re_ID ` set es"
proof (induction "is" arbitrary: es)
  case (Cons i "is")
  define high where "high = dropWhile (\<lambda>e. re_ID e < i) es"
  obtain low where es: "es = low @ high" and low: "\<And>e. e \<in> set low \<Longrightarrow> re_ID e < i"
  proof
    show "es = takeWhile (\<lambda>e. re_ID e < i) es @ high" by (simp add: high_def)
    show "re_ID e < i" if "e \<in> set (takeWhile (\<lambda>e. re_ID e < i) es)" for e
      using set_takeWhileD [OF that] by simp
  qed
  have srt: "sorted_wrt (<) (map re_ID high)" using Cons.prems(1) by (simp add: es sorted_wrt_append)
  show ?case
  proof (cases high)
    case Nil
    then have "i \<notin> re_ID ` set es" using low by (auto simp: es)
    with Nil show ?thesis by (auto simp: high_def [symmetric])
  next
    case high: (Cons e rest)
    have e: "\<not> re_ID e < i" using hd_dropWhile [of "\<lambda>e. re_ID e < i" es] high by (simp add: high_def [symmetric])
    have rest: "sorted_wrt (<) (map re_ID rest)" "\<And>x. x \<in> set rest \<Longrightarrow> re_ID e < re_ID x"
      using srt high by auto
    show ?thesis
    proof (cases "re_ID e = i")
      case True
      have up: "i < j" if "j \<in> set is" for j using Cons.prems that by simp
      have "set is \<subseteq> re_ID ` set es \<longleftrightarrow> set is \<subseteq> re_ID ` set rest"
        using True up low by (fastforce simp: es high)
      moreover have "i \<in> re_ID ` set es" using True by (auto simp: es high)
      ultimately show ?thesis
        using high True Cons.IH [OF rest(1)] Cons.prems by (simp add: high_def [symmetric])
    next
      case False
      then have "i \<notin> re_ID ` set es" using low rest(2) e by (force simp: es high)
      with high False show ?thesis by (simp add: high_def [symmetric])
    qed
  qed
qed simp

lemma ack_loop_all: "sorted_wrt (<) (map re_ID es) \<Longrightarrow> ack_loop es (map re_ID es) = None"
  by (subst ack_loop_sorted) auto

text \<open>
  An acknowledgement with strictly increasing identifiers is accepted for a summary with
  strictly increasing identifiers exactly when it names the summary's epoch and only entries of
  the summary.
\<close>

lemma validateResumeAck_iff:
  assumes "sorted_wrt (<) (summary_IDs s)" and "sorted_wrt (<) is"
  shows "validateResumeAck s epoch is = None \<longleftrightarrow> epoch = su_Epoch s \<and> set is \<subseteq> set (summary_IDs s)"
proof -
  have "length is \<le> length (su_Entries s)" if "set is \<subseteq> re_ID ` set (su_Entries s)"
  proof -
    have "length is = card (set is)"
      using assms(2) by (simp add: distinct_card strict_sorted_iff)
    also have "\<dots> \<le> card (re_ID ` set (su_Entries s))" using that by (intro card_mono) simp_all
    also have "\<dots> \<le> length (su_Entries s)" by (metis card_image_le card_length finite_set le_trans)
    finally show ?thesis .
  qed
  with ack_loop_sorted [OF assms(1) [unfolded summary_IDs_def] assms(2)] show ?thesis
    by (auto simp: validateResumeAck_def summary_IDs_def not_less)
qed

definition sample_summary :: Summary where
  "sample_summary = \<lparr>su_Epoch = 4, su_Entries =
     [\<lparr>re_ID = 2, re_Kind = EntryStream, re_State = EntryActive\<rparr>,
      \<lparr>re_ID = 9, re_Kind = EntryDatagram, re_State = EntryClosed\<rparr>]\<rparr>"

section \<open>The handshakes\<close>

abbreviation hello_msg :: "u64 \<Rightarrow> Message" where
  "hello_msg caps \<equiv> \<lparr>mType = MessageHello, mPayload = attach_EncodeCapabilities caps\<rparr>"
abbreviation attach_msg :: "bytes \<Rightarrow> Message" where
  "attach_msg p \<equiv> \<lparr>mType = MessageAttach, mPayload = p\<rparr>"
abbreviation ok_msg :: "u64 \<Rightarrow> u64 \<Rightarrow> u64 \<Rightarrow> Message" where
  "ok_msg e caps inst \<equiv> \<lparr>mType = MessageAttachOK, mPayload = EncodeAttachOKWithInstance e caps inst\<rparr>"
abbreviation error_msg :: "goerr \<Rightarrow> Message" where
  "error_msg e \<equiv> \<lparr>mType = MessageAttachError, mPayload = attachErrorPayload (Some e)\<rparr>"
abbreviation summary_msg :: "bytes \<Rightarrow> Message" where
  "summary_msg p \<equiv> \<lparr>mType = MessageRegistrySummary, mPayload = p\<rparr>"
abbreviation ack_msg :: "bytes \<Rightarrow> Message" where
  "ack_msg p \<equiv> \<lparr>mType = MessageResumeAck, mPayload = p\<rparr>"

lemma handshake_messages_valid:
  "message_validate (hello_msg caps) = None"
  "message_validate (ok_msg e caps inst) = None"
  "EncodeAttach token lastE = Inr p \<Longrightarrow> message_validate (attach_msg p) = None"
  "EncodeSummary summ = Inr p \<Longrightarrow> message_validate (summary_msg p) = None"
  "EncodeResumeAck e is = Inr p \<Longrightarrow> message_validate (ack_msg p) = None"
proof -
  show "message_validate (hello_msg caps) = None" "message_validate (ok_msg e caps inst) = None"
    by (simp_all add: message_validate_def attach_EncodeCapabilities_def EncodeAttachOKWithInstance_def)
  show "message_validate (attach_msg p) = None" if e: "EncodeAttach token lastE = Inr p"
  proof -
    have "length p \<le> 266" using e by (auto simp: EncodeAttach_def split: if_splits)
    then show ?thesis using DecodeAttach_Encode [OF e] by (simp add: message_validate_def error_of_def)
  qed
  show "message_validate (summary_msg p) = None" if e: "EncodeSummary summ = Inr p"
  proof -
    have "length p \<le> 40970" using e by (auto simp: EncodeSummary_Inr entries.length_concat_enc)
    then show ?thesis using DecodeSummary_Encode [OF e] by (simp add: message_validate_def error_of_def)
  qed
  show "message_validate (ack_msg p) = None" if e: "EncodeResumeAck e is = Inr p"
  proof -
    have "length p \<le> 32778" using e by (auto simp: EncodeResumeAck_Inr ack_ids.length_concat_enc)
    then show ?thesis using DecodeResumeAck_Encode [OF e] by (simp add: message_validate_def error_of_def)
  qed
qed

lemma attach_Read_at:
  "message_validate m = None \<Longrightarrow>
     attach_Read \<lparr>inbuf = message_bytes m @ rest, inerr = e, outbuf = out, wscript = ws\<rparr>
       = (\<lparr>inbuf = rest, inerr = e, outbuf = out, wscript = ws\<rparr>, Inr m)"
  using attach_Read_message [of m "\<lparr>inbuf = message_bytes m @ rest, inerr = e, outbuf = out, wscript = ws\<rparr>" rest]
  by simp

lemma attach_Write_at:
  "message_validate m = None \<Longrightarrow>
     attach_Write \<lparr>inbuf = i, inerr = e, outbuf = out, wscript = []\<rparr> m
       = (\<lparr>inbuf = i, inerr = e, outbuf = out @ message_bytes m, wscript = []\<rparr>, None)"
  using attach_Write_idle [of "\<lparr>inbuf = i, inerr = e, outbuf = out, wscript = []\<rparr>" m] by simp

lemma capabilities_roundtrip [simp]:
  "attach_DecodeCapabilities (attach_EncodeCapabilities caps) = Inr caps"
  by (simp add: attach_DecodeCapabilities_def attach_EncodeCapabilities_def)

lemma attach_ok_roundtrip [simp]:
  "DecodeAttachOKWithInstance (EncodeAttachOKWithInstance e caps inst) = Inr (e, caps, inst)"
  by (simp add: DecodeAttachOKWithInstance_def DecodeAttachOK_def EncodeAttachOKWithInstance_def)

lemmas handshake_exec = attach_Read_at attach_Write_at handshake_messages_valid(1,2)

lemma read_request:
  assumes "EncodeAttach token lastE = Inr p"
  shows "ReadServerAttachRequest \<lparr>inbuf = message_bytes (hello_msg caps) @ message_bytes (attach_msg p) @ rest,
            inerr = e, outbuf = out, wscript = []\<rparr>
       = (\<lparr>inbuf = rest, inerr = e, outbuf = out, wscript = []\<rparr>,
          Inr \<lparr>rq_Token = token, rq_PeerCapabilities = caps, rq_LastEpoch = lastE\<rparr>)"
  using DecodeAttach_Encode [OF assms] handshake_messages_valid(3) [OF assms]
  by (simp add: ReadServerAttachRequest_def handshake_exec)

lemma ack_of_summary:
  assumes "EncodeSummary summ = Inr p"
  shows "\<exists>q. EncodeResumeAck e (summary_IDs summ) = Inr q"
    and "e = su_Epoch summ \<Longrightarrow> validateResumeAck summ e (summary_IDs summ) = None"
proof -
  have t: "table_ok entry_validate re_ID None (su_Entries summ)" "length (su_Entries summ) \<le> MaxSummaryEntries"
    using assms by (simp_all add: EncodeSummary_Inr)
  have "re_ID x \<noteq> 0" if "x \<in> set (su_Entries summ)" for x
    using t(1) that by (auto simp: table_ok_iff list_all_iff entry_validate_def split: if_splits)
  then have "ack_ok (summary_IDs summ)"
    using t(1) by (auto simp: ack_ok_def summary_IDs_def table_ok_iff list_all_iff)
  then show "\<exists>q. EncodeResumeAck e (summary_IDs summ) = Inr q"
    using t(2) by (simp add: EncodeResumeAck_Inr summary_IDs_def)
  show "e = su_Epoch summ \<Longrightarrow> validateResumeAck summ e (summary_IDs summ) = None"
    using t(1) ack_loop_all by (simp add: validateResumeAck_def summary_IDs_def table_ok_iff)
qed

text \<open>
  C8: The two sides of a resume handshake agree.  For a connector that presents the registry's
  token and a broker whose entries can be summarised there is an exchange of byte streams on which
  both sides succeed: each side's output is the other side's input and is consumed completely, the
  connector learns the broker's new epoch, capabilities, identity and summary, the broker learns
  the connector's capabilities and last epoch, and the new generation owns the registry.
\<close>

theorem resume_handshake_agrees:
  assumes "\<not> ar_closed r" and "token = ar_token r" and "0 < length token" and "length token \<le> maxWireToken"
    and "EncodeSummary (summ\<lparr>su_Epoch := next_epoch (ar_epoch r)\<rparr>) = Inr sp"
  shows "\<exists>toServer toClient c s r'.
    ClientResumeHandshakeWithInstance (fresh_conn toClient) token caps lastE
      = (c, Inr (next_epoch (ar_epoch r), brokerCaps, InstanceID r, summ\<lparr>su_Epoch := next_epoch (ar_epoch r)\<rparr>))
    \<and> outbuf c = toServer \<and> inbuf c = []
    \<and> ServerResumeHandshakeWithInstance (fresh_conn toServer) (Some r) brokerCaps summ
      = (s, Some r', \<lparr>sh_attachment = Some (length (ar_atts r)), sh_capabilities = caps,
                      sh_lastEpoch = lastE, sh_instanceID = InstanceID r, sh_err = None\<rparr>)
    \<and> outbuf s = toClient \<and> inbuf s = []
    \<and> registry_Current r' (length (ar_atts r)) \<and> CurrentEpoch r' = next_epoch (ar_epoch r)"
proof -
  let ?e = "next_epoch (ar_epoch r)" and ?a = "length (ar_atts r)"
  let ?summ = "summ\<lparr>su_Epoch := ?e\<rparr>"
  obtain p where p: "EncodeAttach token lastE = Inr p" using assms(3,4) by (simp add: EncodeAttach_def)
  obtain q where q: "EncodeResumeAck ?e (summary_IDs ?summ) = Inr q" using ack_of_summary(1) [OF assms(5)] by blast
  have v: "validateResumeAck ?summ ?e (summary_IDs ?summ) = None" using ack_of_summary(2) [OF assms(5)] by simp
  obtain r' where r': "registry_Attach r token = (r', Inr ?a)" "registry_Epoch r' ?a = ?e" "InstanceID r' = InstanceID r"
    "registry_Current r' ?a" "CurrentEpoch r' = ?e"
    using assms(1,2,3)
    by (simp add: registry_Attach_def Let_def registry_Epoch_def InstanceID_def registry_Current_def CurrentEpoch_def)
  note valid = handshake_messages_valid(3) [OF p] handshake_messages_valid(4) [OF assms(5)]
    handshake_messages_valid(5) [OF q]
  let ?toServer = "message_bytes (hello_msg caps) @ message_bytes (attach_msg p) @ message_bytes (ack_msg q)"
  let ?toClient = "message_bytes (ok_msg ?e brokerCaps (InstanceID r)) @ message_bytes (summary_msg sp)"
  have "ClientResumeHandshakeWithInstance (fresh_conn ?toClient) token caps lastE
      = (\<lparr>inbuf = [], inerr = IoEOF, outbuf = ?toServer, wscript = []\<rparr>, Inr (?e, brokerCaps, InstanceID r, ?summ))"
    using p q v valid DecodeSummary_Encode [OF assms(5)] attach_Read_at [where rest = "[]"]
    by (simp add: ClientResumeHandshakeWithInstance_def ClientHandshakeWithInstance_def fresh_conn_def handshake_exec)
  moreover have "ServerResumeHandshakeWithInstance (fresh_conn ?toServer) (Some r) brokerCaps summ
      = (\<lparr>inbuf = [], inerr = IoEOF, outbuf = ?toClient, wscript = []\<rparr>, Some r',
         \<lparr>sh_attachment = Some ?a, sh_capabilities = caps, sh_lastEpoch = lastE,
          sh_instanceID = InstanceID r, sh_err = None\<rparr>)"
    using read_request [OF p] r' v valid assms(5) DecodeResumeAck_Encode [OF q] attach_Read_at [where rest = "[]"]
    by (simp add: ServerResumeHandshakeWithInstance_def CompleteServerResumeHandshakeWithInstance_def
        completeServerHandshakeWithInstance_def fresh_conn_def handshake_exec Let_def)
  ultimately show ?thesis using r'(4,5)
    by (intro exI [of _ ?toServer] exI [of _ ?toClient]) simp
qed

theorem resume_handshake_agrees_witness:
  "\<exists>toServer toClient c s r'.
    ClientResumeHandshakeWithInstance (fresh_conn toClient) [1, 2] 63 0
      = (c, Inr (1, 127, 5, sample_summary\<lparr>su_Epoch := 1\<rparr>))
    \<and> outbuf c = toServer
    \<and> ServerResumeHandshakeWithInstance (fresh_conn toServer) (Some sample_registry) 127 sample_summary
      = (s, Some r', \<lparr>sh_attachment = Some 0, sh_capabilities = 63, sh_lastEpoch = 0, sh_instanceID = 5,
                      sh_err = None\<rparr>)
    \<and> outbuf s = toClient \<and> CurrentEpoch r' = 1"
proof -
  have e: "next_epoch (ar_epoch sample_registry) = 1" by (simp add: sample_registry_def next_epoch_def)
  have "\<exists>sp. EncodeSummary (sample_summary\<lparr>su_Epoch := next_epoch (ar_epoch sample_registry)\<rparr>) = Inr sp"
    by (simp add: EncodeSummary_Inr sample_summary_def entry_validate_def)
  then obtain sp where sp: "EncodeSummary (sample_summary\<lparr>su_Epoch := next_epoch (ar_epoch sample_registry)\<rparr>) = Inr sp"
    by blast
  have "\<not> ar_closed sample_registry" "[1, 2] = ar_token sample_registry" "0 < length [1, 2 :: byte]"
    "length [1, 2 :: byte] \<le> maxWireToken"
    by (simp_all add: sample_registry_def)
  from resume_handshake_agrees [OF this sp, of 63 0 127] show ?thesis
    unfolding e by (simp add: sample_registry_def InstanceID_def) blast
qed

text \<open>
  A connector with a token of acceptable length that is not the registry's, or that comes
  after the registry was closed, is rejected: there is an exchange on which the connector ends
  with an error that is \<open>ErrRemoteAttach\<close> and carries the broker's reason, the broker reports that
  reason, and the registry is exactly what it was.
\<close>

lemma attach_rejected:
  assumes "0 < length token" and "length token \<le> maxWireToken"
    and "reason = (if ar_closed r then ErrRegistryClosed else ErrInvalidToken)"
    and "ar_closed r \<or> token \<noteq> ar_token r"
  shows "\<exists>toServer toClient c s err.
    ClientHandshakeWithInstance (fresh_conn toClient) token caps lastE = (c, Inl err)
    \<and> err_is err ErrRemoteAttach
    \<and> error_text err = error_text ErrRemoteAttach @ str '': '' @ error_text reason
    \<and> outbuf c = toServer
    \<and> ServerHandshakeWithInstance (fresh_conn toServer) (Some r) brokerCaps
      = (s, Some r, \<lparr>sh_attachment = None, sh_capabilities = caps, sh_lastEpoch = lastE,
                     sh_instanceID = 0, sh_err = Some reason\<rparr>)
    \<and> outbuf s = toClient"
proof -
  obtain p where p: "EncodeAttach token lastE = Inr p" using assms(1,2) by (simp add: EncodeAttach_def)
  have r: "registry_Attach r token = (r, Inl reason)"
    using assms by (auto simp: registry_Attach_def)
  have t: "attachErrorPayload (Some reason) = error_text reason"
    using assms(3) by (auto simp: attachErrorPayload_def) (code_simp+)
  have ev: "message_validate (error_msg reason) = None"
  proof -
    have "error_text reason \<noteq> [] \<and> length (error_text reason) \<le> maxWireError" using assms(3) by simp
    then show ?thesis by (simp add: message_validate_def t)
  qed
  note valid = handshake_messages_valid(3) [OF p] ev
  let ?toServer = "message_bytes (hello_msg caps) @ message_bytes (attach_msg p)"
  let ?toClient = "message_bytes (error_msg reason)"
  let ?err = "ErrWrapped (error_text ErrRemoteAttach @ str '': '' @ error_text reason) ErrRemoteAttach"
  have "ClientHandshakeWithInstance (fresh_conn ?toClient) token caps lastE
      = (\<lparr>inbuf = [], inerr = IoEOF, outbuf = ?toServer, wscript = []\<rparr>, Inl ?err)"
    using p valid attach_Read_at [where rest = "[]"]
    by (simp add: ClientHandshakeWithInstance_def fresh_conn_def handshake_exec t)
  moreover have "ServerHandshakeWithInstance (fresh_conn ?toServer) (Some r) brokerCaps
      = (\<lparr>inbuf = [], inerr = IoEOF, outbuf = ?toClient, wscript = []\<rparr>, Some r,
         \<lparr>sh_attachment = None, sh_capabilities = caps, sh_lastEpoch = lastE, sh_instanceID = 0, sh_err = Some reason\<rparr>)"
    using read_request [OF p, where rest = "[]"] r valid
    by (simp add: ServerHandshakeWithInstance_def completeServerHandshakeWithInstance_def fresh_conn_def
        handshake_exec Let_def)
  ultimately show ?thesis by (intro exI [of _ ?toServer] exI [of _ ?toClient]) simp
qed

lemma complete_resume_safe:
  assumes "ar_inv r"
    and "CompleteServerResumeHandshakeWithInstance rw (Some r) caps summ request = (c, reg, sh)"
  shows "\<exists>r'. reg = Some r' \<and> ar_inv r'
    \<and> (case sh_attachment sh of
         Some a \<Rightarrow> sh_err sh = None \<and> registry_Current r' a \<and> rq_Token request = ar_token r
       | None \<Rightarrow> sh_err sh \<noteq> None \<and> (r' = r \<or> ar_current r' = None \<and> rq_Token request = ar_token r))"
proof (cases "ar_closed r \<or> rq_Token request = [] \<or> rq_Token request \<noteq> ar_token r")
  case True
  then obtain e where "registry_Attach r (rq_Token request) = (r, Inl e)"
    by (cases "ar_closed r") (auto simp: registry_Attach_def)
  then show ?thesis using assms
    by (auto simp: CompleteServerResumeHandshakeWithInstance_def completeServerHandshakeWithInstance_def Let_def)
next
  case False
  then obtain r1 where r1: "registry_Attach r (rq_Token request) = (r1, Inr (length (ar_atts r)))"
    "registry_Current r1 (length (ar_atts r))" "ar_inv r1"
    using ar_inv_Attach [OF assms(1), of "rq_Token request"]
    by (auto simp: registry_Attach_def Let_def registry_Current_def)
  have d: "ar_inv (fst (registry_Detach r1 (length (ar_atts r))))"
    "ar_current (fst (registry_Detach r1 (length (ar_atts r)))) = None"
    using r1 ar_inv_Detach registry_slot.detach_own by (auto simp: registry_Current_def)
  show ?thesis using assms(2) r1 d False
    by (auto simp: CompleteServerResumeHandshakeWithInstance_def completeServerHandshakeWithInstance_def Let_def
        split: prod.splits option.splits sum.splits if_splits)
qed

text \<open>
  C9: Whatever bytes a peer sends, the broker's resume handshake gives out an attachment only to
  a peer that presented the registry's token, and then that attachment owns the registry; on any
  failure it gives out none, and the registry is unchanged or has no owner.  The connector that is
  rejected before authentication never disturbs the current owner.
\<close>

theorem server_handshake_safe:
  assumes "ar_inv r"
    and "ServerResumeHandshakeWithInstance rw (Some r) caps summ = (c, reg, sh)"
  shows "\<exists>r'. reg = Some r' \<and> ar_inv r'
    \<and> (case sh_attachment sh of
         Some a \<Rightarrow> sh_err sh = None \<and> registry_Current r' a
                   \<and> (\<exists>c1 request. ReadServerAttachRequest rw = (c1, Inr request) \<and> rq_Token request = ar_token r)
       | None \<Rightarrow> sh_err sh \<noteq> None
                 \<and> (r' = r \<or> ar_current r' = None
                            \<and> (\<exists>c1 request. ReadServerAttachRequest rw = (c1, Inr request)
                                            \<and> rq_Token request = ar_token r)))"
proof (cases "snd (ReadServerAttachRequest rw)")
  case (Inl err)
  then show ?thesis using assms
    by (cases "ReadServerAttachRequest rw")
       (auto simp: ServerResumeHandshakeWithInstance_def noHandshake_def)
next
  case (Inr request)
  then obtain c1 where rd: "ReadServerAttachRequest rw = (c1, Inr request)"
    by (cases "ReadServerAttachRequest rw") auto
  have "CompleteServerResumeHandshakeWithInstance c1 (Some r) caps summ request = (c, reg, sh)"
    using assms(2) by (simp add: ServerResumeHandshakeWithInstance_def rd)
  from complete_resume_safe [OF assms(1) this] rd show ?thesis by (auto split: option.splits)
qed

theorem server_handshake_safe_witness:
  "\<exists>c r' sh. ServerResumeHandshakeWithInstance (fresh_conn [1, 2, 3]) (Some sample_registry) 127 sample_summary
       = (c, Some r', sh) \<and> sh_attachment sh = None \<and> sh_err sh \<noteq> None
     \<and> (r' = sample_registry \<or> ar_current r' = None)"
proof -
  have i: "ar_inv sample_registry" using ar_inv_New [OF sample_registry_New] .
  have rd: "ReadServerAttachRequest (fresh_conn [1, 2, 3])
      = ((fresh_conn [1, 2, 3])\<lparr>inbuf := []\<rparr>, Inl IoErrUnexpectedEOF)"
    by (simp add: ReadServerAttachRequest_def attach_Read_def readFull_def fresh_conn_def)
  obtain c reg sh where h: "ServerResumeHandshakeWithInstance (fresh_conn [1, 2, 3]) (Some sample_registry) 127
      sample_summary = (c, reg, sh)" by (cases "ServerResumeHandshakeWithInstance (fresh_conn [1, 2, 3])
      (Some sample_registry) 127 sample_summary") auto
  have "sh_attachment sh = None" using h rd by (auto simp: ServerResumeHandshakeWithInstance_def noHandshake_def)
  with server_handshake_safe [OF i h] h show ?thesis by auto
qed

end
