(* ===== verification/FramedLink.thy ===== *)
theory FramedLink
  imports Protocol Generations
begin

text \<open>
  The replaceable frame transport (src/internal/transport/framed/link.go).  Attachments live in a
  list, a handle is an index, so pointer comparison is comparison of indices and a handle is never
  reused.  \<open>lk_changed\<close> counts the replacements of the \<open>changed\<close> channel.  A call that waits is
  given the list of its wake-ups with the link as the other goroutines left it; \<open>None\<close> is a call
  that still waits when the list ends.  An endpoint is a byte stream that may or may not implement
  \<open>io.Closer\<close>.
\<close>

section \<open>State\<close>

record endpoint =
  ep_conn :: conn
  ep_closer :: bool
  ep_closeErr :: "goerr option"
  ep_closed :: bool

record linkAttachment =
  la_rw :: endpoint
  la_once :: bool
  la_err :: "goerr option"

record link =
  lk_atts :: "linkAttachment list"
  lk_current :: "nat option"
  lk_changed :: nat
  lk_closed :: bool

definition link_New :: link where
  "link_New = \<lparr>lk_atts = [], lk_current = None, lk_changed = 0, lk_closed = False\<rparr>"

definition update_att :: "link \<Rightarrow> nat \<Rightarrow> (linkAttachment \<Rightarrow> linkAttachment) \<Rightarrow> link" where
  "update_att l a f =
     (if a < length (lk_atts l) then l\<lparr>lk_atts := (lk_atts l)[a := f (lk_atts l ! a)]\<rparr> else l)"

text \<open>\<open>if closer, ok := rw.(io.Closer); ok { closer.Close() }\<close>\<close>

definition closeEndpoint :: "link \<Rightarrow> nat \<Rightarrow> link" where
  "closeEndpoint l a =
     update_att l a (\<lambda>t. if ep_closer (la_rw t) then t\<lparr>la_rw := (la_rw t)\<lparr>ep_closed := True\<rparr>\<rparr> else t)"

definition signalLocked :: "link \<Rightarrow> link" where
  "signalLocked l = l\<lparr>lk_changed := Suc (lk_changed l)\<rparr>"

section \<open>Operations\<close>

definition link_Attach :: "link \<Rightarrow> endpoint option \<Rightarrow> link \<times> nat result" where
  "link_Attach l rw =
     (case rw of
        None \<Rightarrow> (l, Inl ErrNilEndpoint)
      | Some ep \<Rightarrow>
          if lk_closed l then (l, Inl ErrLinkClosed)
          else
            let a = length (lk_atts l);
                l1 = signalLocked (l\<lparr>lk_atts := lk_atts l @ [\<lparr>la_rw = ep, la_once = False, la_err = None\<rparr>],
                                     lk_current := Some a\<rparr>)
            in (case lk_current l of
                  None \<Rightarrow> (l1, Inr a)
                | Some old \<Rightarrow> (closeEndpoint l1 old, Inr a)))"

datatype snap = Attached nat | WaitFor nat

definition snapshot :: "link \<Rightarrow> snap result" where
  "snapshot l =
     (if lk_closed l then Inl ErrLinkClosed
      else case lk_current l of None \<Rightarrow> Inr (WaitFor (lk_changed l)) | Some a \<Rightarrow> Inr (Attached a))"

definition detachIfCurrent :: "link \<Rightarrow> nat \<Rightarrow> link" where
  "detachIfCurrent l a =
     (if lk_current l \<noteq> Some a then l else signalLocked (l\<lparr>lk_current := None\<rparr>))"

text \<open>
  \<open>ReadFrame\<close> after its snapshot returned attachment \<open>a\<close>; the link may have changed since.
\<close>

definition readAttached :: "link \<Rightarrow> nat \<Rightarrow> link \<times> Frame result" where
  "readAttached l a =
     (case protocol_Read (ep_conn (la_rw (lk_atts l ! a))) of (c, r) \<Rightarrow>
        let l1 = update_att l a (\<lambda>t. t\<lparr>la_rw := (la_rw t)\<lparr>ep_conn := c\<rparr>\<rparr>)
        in (case r of
              Inr f \<Rightarrow> (l1, Inr f)
            | Inl err \<Rightarrow> (detachIfCurrent l1 a, Inl (ErrJoined ErrDetached err))))"

fun ReadFrame :: "link \<Rightarrow> link list \<Rightarrow> (link \<times> Frame result) option" where
  "ReadFrame l wakes =
     (case snapshot l of
        Inl err \<Rightarrow> Some (l, Inl err)
      | Inr (Attached a) \<Rightarrow> Some (readAttached l a)
      | Inr (WaitFor g) \<Rightarrow>
          (case wakes of
             [] \<Rightarrow> None
           | l1 # rest \<Rightarrow> if lk_closed l1 then Some (l1, Inl ErrLinkClosed) else ReadFrame l1 rest))"

definition writeAttached :: "link \<Rightarrow> nat \<Rightarrow> Frame \<Rightarrow> link \<times> goerr option" where
  "writeAttached l a f =
     (case protocol_Write conn_write (ep_conn (la_rw (lk_atts l ! a))) f of (c, err) \<Rightarrow>
        let l1 = update_att l a (\<lambda>t. t\<lparr>la_rw := (la_rw t)\<lparr>ep_conn := c\<rparr>\<rparr>)
        in (case err of
              None \<Rightarrow> (l1, None)
            | Some e \<Rightarrow> (detachIfCurrent l1 a, Some (ErrJoined ErrDetached e))))"

text \<open>
  \<open>WriteFrameContext\<close>: an event is what ended a wait (the \<open>changed\<close> channel, or the context with
  its error) or, after a snapshot with an attachment, only the link as it is once the write mutex
  is held.  \<open>WriteFrame\<close> is the same with a context that never ends.
\<close>

datatype writeWake = LinkChanged | CtxDone goerr

fun WriteFrameContext :: "link \<Rightarrow> Frame \<Rightarrow> (writeWake \<times> link) list \<Rightarrow> (link \<times> goerr option) option" where
  "WriteFrameContext l f events =
     (case snapshot l of
        Inl err \<Rightarrow> Some (l, Some err)
      | Inr (WaitFor g) \<Rightarrow>
          (case events of
             [] \<Rightarrow> None
           | (CtxDone e, l1) # rest \<Rightarrow> Some (l1, Some e)
           | (LinkChanged, l1) # rest \<Rightarrow>
               if lk_closed l1 then Some (l1, Some ErrLinkClosed) else WriteFrameContext l1 f rest)
      | Inr (Attached a) \<Rightarrow>
          (case events of
             [] \<Rightarrow> Some (writeAttached l a f)
           | (w, l1) # rest \<Rightarrow>
               if lk_current l1 \<noteq> Some a then WriteFrameContext l1 f rest
               else Some (writeAttached l1 a f)))"

declare ReadFrame.simps [simp del] WriteFrameContext.simps [simp del]

definition link_Close :: "link \<Rightarrow> link" where
  "link_Close l =
     (if lk_closed l then l
      else
        let l1 = signalLocked (l\<lparr>lk_closed := True, lk_current := None\<rparr>)
        in (case lk_current l of None \<Rightarrow> l1 | Some a \<Rightarrow> closeEndpoint l1 a))"

definition attachment_Detach :: "link \<Rightarrow> nat \<Rightarrow> link \<times> goerr option" where
  "attachment_Detach l a =
     (let t = lk_atts l ! a in
      if la_once t then (l, la_err t)
      else if lk_current l \<noteq> Some a
      then (update_att l a (\<lambda>t. t\<lparr>la_once := True, la_err := Some ErrStale\<rparr>), Some ErrStale)
      else (signalLocked ((update_att l a (\<lambda>t. t\<lparr>la_once := True\<rparr>))\<lparr>lk_current := None\<rparr>), la_err t))"

definition attachment_Close :: "link \<Rightarrow> nat \<Rightarrow> link \<times> goerr option" where
  "attachment_Close l a =
     (case attachment_Detach l a of (l1, err) \<Rightarrow>
        let ep = la_rw (lk_atts l1 ! a) in
        if ep_closer ep then (closeEndpoint l1 a, if err = None then ep_closeErr ep else err)
        else (l1, err))"

definition attachment_Current :: "link \<Rightarrow> nat \<Rightarrow> bool" where
  "attachment_Current l a \<longleftrightarrow> lk_current l = Some a"

section \<open>Invariant\<close>

text \<open>The current attachment exists and has not been detached; a closed link has none.\<close>

definition link_inv :: "link \<Rightarrow> bool" where
  "link_inv l \<longleftrightarrow>
     (case lk_current l of None \<Rightarrow> True
      | Some a \<Rightarrow> a < length (lk_atts l) \<and> \<not> la_once (lk_atts l ! a) \<and> \<not> lk_closed l)"

lemma link_inv_New: "link_inv link_New"
  by (simp add: link_inv_def link_New_def)

lemma update_att_fields [simp]:
  "lk_current (update_att l a f) = lk_current l" "lk_closed (update_att l a f) = lk_closed l"
  "lk_changed (update_att l a f) = lk_changed l" "length (lk_atts (update_att l a f)) = length (lk_atts l)"
  by (simp_all add: update_att_def)

lemma update_att_nth:
  "b < length (lk_atts l) \<Longrightarrow>
     lk_atts (update_att l a f) ! b = (if a = b then f (lk_atts l ! b) else lk_atts l ! b)"
  by (auto simp: update_att_def)

lemma closeEndpoint_fields [simp]:
  "lk_current (closeEndpoint l a) = lk_current l" "lk_closed (closeEndpoint l a) = lk_closed l"
  "lk_changed (closeEndpoint l a) = lk_changed l"
  "length (lk_atts (closeEndpoint l a)) = length (lk_atts l)"
  by (simp_all add: closeEndpoint_def)

lemma signalLocked_fields [simp]:
  "lk_current (signalLocked l) = lk_current l" "lk_closed (signalLocked l) = lk_closed l"
  "lk_atts (signalLocked l) = lk_atts l"
  by (simp_all add: signalLocked_def)

lemma link_inv_update:
  "link_inv l \<Longrightarrow> (\<And>t. lk_current l = Some a \<Longrightarrow> la_once (f t) = la_once t) \<Longrightarrow> link_inv (update_att l a f)"
  by (auto simp: link_inv_def update_att_nth split: option.splits)

lemma link_inv_closeEndpoint: "link_inv l \<Longrightarrow> link_inv (closeEndpoint l a)"
  by (simp add: closeEndpoint_def link_inv_update)

lemma link_inv_signal: "link_inv (signalLocked l) = link_inv l"
  by (cases "lk_current l") (simp_all add: link_inv_def)

lemma link_inv_current_None: "lk_current l = None \<Longrightarrow> link_inv l"
  by (simp add: link_inv_def)

lemma link_inv_detachIfCurrent: "link_inv l \<Longrightarrow> link_inv (detachIfCurrent l a)"
  by (simp add: detachIfCurrent_def link_inv_signal link_inv_current_None)

lemma link_inv_Detach: "link_inv l \<Longrightarrow> link_inv (fst (attachment_Detach l a))"
  by (auto simp: attachment_Detach_def Let_def link_inv_signal link_inv_current_None intro!: link_inv_update)

lemma link_inv_install:
  "\<not> lk_closed l \<Longrightarrow> \<not> la_once t \<Longrightarrow>
     link_inv (signalLocked (l\<lparr>lk_atts := lk_atts l @ [t], lk_current := Some (length (lk_atts l))\<rparr>))"
  by (simp add: link_inv_def)

lemma link_inv_Attach: "link_inv l \<Longrightarrow> link_inv (fst (link_Attach l rw))"
  by (auto simp: link_Attach_def Let_def intro!: link_inv_closeEndpoint link_inv_install split: option.splits)

lemma link_inv_Close: "link_inv l \<Longrightarrow> link_inv (link_Close l)"
  by (auto simp: link_Close_def Let_def intro!: link_inv_current_None split: option.splits)

lemma link_inv_readAttached: "link_inv l \<Longrightarrow> link_inv (fst (readAttached l a))"
  by (auto simp: readAttached_def Let_def intro!: link_inv_update link_inv_detachIfCurrent
      split: prod.splits sum.splits)

lemma link_inv_writeAttached: "link_inv l \<Longrightarrow> link_inv (fst (writeAttached l a f))"
  by (auto simp: writeAttached_def Let_def intro!: link_inv_update link_inv_detachIfCurrent
      split: prod.splits option.splits)

text \<open>Both ways a transport is given up obey the rule of the shared slot.\<close>

interpretation link_detach: generation_slot link_inv lk_current "\<lambda>l a. fst (attachment_Detach l a)"
proof unfold_locales
  show "lk_current (fst (attachment_Detach l a)) = None" if "link_inv l" "lk_current l = Some a" for l a
    using that by (simp add: attachment_Detach_def Let_def link_inv_def)
  show "lk_current (fst (attachment_Detach l a)) = lk_current l" if "lk_current l \<noteq> Some a" for l a
    using that by (simp add: attachment_Detach_def Let_def)
qed (rule link_inv_Detach)

interpretation link_fail: generation_slot link_inv lk_current detachIfCurrent
  by unfold_locales (simp_all add: link_inv_detachIfCurrent, simp_all add: detachIfCurrent_def)

section \<open>Frames never mix transports\<close>

text \<open>
  The link under concurrent use: attachments come and go, a reader takes its snapshot and reads
  later (\<open>readMu\<close> admits one reader at a time), writers write, endpoints fail.  The system keeps
  the input each attachment started with and the log of the frames the reader returned with the
  attachment they came from.
\<close>

datatype link_action =
    LAttach endpoint
  | LSnapshot
  | LRead
  | LWrite nat Frame
  | LDetach nat
  | LCloseAttachment nat
  | LClose

record link_system =
  ls_link :: link
  ls_reading :: "nat option"
  ls_inputs :: "bytes list"
  ls_log :: "(nat \<times> Frame) list"

definition link_start :: link_system where
  "link_start = \<lparr>ls_link = link_New, ls_reading = None, ls_inputs = [], ls_log = []\<rparr>"

fun link_exec :: "link_system \<Rightarrow> link_action \<Rightarrow> link_system" where
  "link_exec s (LAttach ep) =
     (case link_Attach (ls_link s) (Some ep) of
        (l, Inl e) \<Rightarrow> s
      | (l, Inr a) \<Rightarrow> s\<lparr>ls_link := l, ls_inputs := ls_inputs s @ [inbuf (ep_conn ep)]\<rparr>)"
| "link_exec s LSnapshot =
     (case (ls_reading s, snapshot (ls_link s)) of
        (None, Inr (Attached a)) \<Rightarrow> s\<lparr>ls_reading := Some a\<rparr>
      | _ \<Rightarrow> s)"
| "link_exec s LRead =
     (case ls_reading s of
        None \<Rightarrow> s
      | Some a \<Rightarrow>
          (case readAttached (ls_link s) a of
             (l, Inr f) \<Rightarrow> s\<lparr>ls_link := l, ls_reading := None, ls_log := ls_log s @ [(a, f)]\<rparr>
           | (l, Inl e) \<Rightarrow> s\<lparr>ls_link := l, ls_reading := None\<rparr>))"
| "link_exec s (LWrite a f) =
     (if a < length (lk_atts (ls_link s)) then s\<lparr>ls_link := fst (writeAttached (ls_link s) a f)\<rparr> else s)"
| "link_exec s (LDetach a) =
     (if a < length (lk_atts (ls_link s)) then s\<lparr>ls_link := fst (attachment_Detach (ls_link s) a)\<rparr> else s)"
| "link_exec s (LCloseAttachment a) =
     (if a < length (lk_atts (ls_link s)) then s\<lparr>ls_link := fst (attachment_Close (ls_link s) a)\<rparr> else s)"
| "link_exec s LClose = s\<lparr>ls_link := link_Close (ls_link s)\<rparr>"

definition frames_from :: "nat \<Rightarrow> (nat \<times> Frame) list \<Rightarrow> Frame list" where
  "frames_from a xs = map snd (filter (\<lambda>p. fst p = a) xs)"

definition pending :: "link \<Rightarrow> nat \<Rightarrow> bytes" where
  "pending l a = inbuf (ep_conn (la_rw (lk_atts l ! a)))"

text \<open>What came from \<open>a\<close> so far is a sequence of whole frames, the rest is still unread.\<close>

definition in_step :: "link_system \<Rightarrow> nat \<Rightarrow> bytes \<Rightarrow> bool" where
  "in_step s a rest \<longleftrightarrow>
     (\<exists>chunks. list_all2 wire_form (frames_from a (ls_log s)) chunks \<and> ls_inputs s ! a = concat chunks @ rest)"

text \<open>
  An attachment that may still be read is in step with its unread input; any other is in step up
  to the read that failed.
\<close>

definition link_sys_inv :: "link_system \<Rightarrow> bool" where
  "link_sys_inv s \<longleftrightarrow>
     link_inv (ls_link s) \<and> length (ls_inputs s) = length (lk_atts (ls_link s)) \<and>
     (\<forall>p \<in> set (ls_log s). fst p < length (ls_inputs s) \<and> Validate (snd p) = None) \<and>
     (\<forall>a < length (ls_inputs s). \<exists>rest. in_step s a rest) \<and>
     (\<forall>a. lk_current (ls_link s) = Some a \<or> ls_reading s = Some a \<longrightarrow>
          a < length (ls_inputs s) \<and> in_step s a (pending (ls_link s) a))"

lemma in_step_link [simp]: "in_step (s\<lparr>ls_link := l\<rparr>) a rest = in_step s a rest"
  "in_step (s\<lparr>ls_reading := r\<rparr>) a rest = in_step s a rest"
  "in_step (s\<lparr>ls_link := l, ls_reading := r\<rparr>) a rest = in_step s a rest"
  by (simp_all add: in_step_def)

lemma pending_signal [simp]: "pending (signalLocked l) a = pending l a"
  by (simp add: pending_def)

lemma pending_update:
  "(\<And>t. inbuf (ep_conn (la_rw (f t))) = inbuf (ep_conn (la_rw t))) \<Longrightarrow> pending (update_att l b f) a = pending l a"
  by (cases "b < length (lk_atts l)"; cases "a = b") (simp_all add: pending_def update_att_def)

lemma pending_closeEndpoint [simp]: "pending (closeEndpoint l b) a = pending l a"
  unfolding closeEndpoint_def by (rule pending_update) simp

lemma pending_current [simp]: "pending (l\<lparr>lk_current := c\<rparr>) a = pending l a"
  by (simp add: pending_def)

lemma pending_detachIfCurrent [simp]: "pending (detachIfCurrent l b) a = pending l a"
  by (simp add: detachIfCurrent_def)

lemma writeFull_inbuf: "writeFull conn_write c p = (c', e) \<Longrightarrow> inbuf c' = inbuf c"
proof (induction p arbitrary: c rule: length_induct)
  case (1 p)
  obtain c1 n err where w: "conn_write c p = (c1, n, err)" by (cases "conn_write c p") auto
  have i: "inbuf c1 = inbuf c" using w by (auto simp: conn_write_def split: list.splits)
  show ?case
  proof (cases "p = [] \<or> err \<noteq> None \<or> n = 0 \<or> n < 0 \<or> int (length p) < n")
    case True
    with "1.prems" w i show ?thesis by (subst (asm) writeFull.simps) (auto split: option.splits if_splits)
  next
    case False
    with "1.prems" w have "writeFull conn_write c1 (drop (nat n) p) = (c', e)"
      by (subst (asm) writeFull.simps) auto
    with "1.IH" False i show ?thesis by (metis diff_less length_drop length_greater_0_conv nat_0_iff not_gr_zero not_le order_antisym_conv linear)
  qed
qed

lemma protocol_Write_inbuf: "protocol_Write conn_write c f = (c', e) \<Longrightarrow> inbuf c' = inbuf c"
  by (auto simp: protocol_Write_def split: option.splits prod.splits dest!: writeFull_inbuf)

lemma pending_writeAttached: "pending (fst (writeAttached l b f)) a = pending l a"
proof -
  obtain c e where w: "protocol_Write conn_write (ep_conn (la_rw (lk_atts l ! b))) f = (c, e)"
    by (cases "protocol_Write conn_write (ep_conn (la_rw (lk_atts l ! b))) f")
  have "pending (update_att l b (\<lambda>t. t\<lparr>la_rw := (la_rw t)\<lparr>ep_conn := c\<rparr>\<rparr>)) a = pending l a"
    using protocol_Write_inbuf [OF w] by (auto simp: pending_def update_att_def nth_list_update)
  with w show ?thesis by (simp add: writeAttached_def Let_def split: option.splits)
qed

lemma pending_Detach: "pending (fst (attachment_Detach l b)) a = pending l a"
  by (simp add: attachment_Detach_def Let_def pending_update)

text \<open>Actions that leave every unread input alone and at most drop the current attachment.\<close>

lemma link_sys_keep:
  assumes "link_sys_inv s" and "link_inv l" and "length (lk_atts l) = length (lk_atts (ls_link s))"
    and "\<And>a. pending l a = pending (ls_link s) a"
    and "lk_current l = None \<or> lk_current l = lk_current (ls_link s)"
  shows "link_sys_inv (s\<lparr>ls_link := l\<rparr>)"
  using assms by (auto simp: link_sys_inv_def)

lemma keep_lengths [simp]:
  "length (lk_atts (fst (writeAttached l a f))) = length (lk_atts l)"
  "length (lk_atts (fst (attachment_Detach l a))) = length (lk_atts l)"
  "length (lk_atts (detachIfCurrent l a)) = length (lk_atts l)"
  by (auto simp: writeAttached_def attachment_Detach_def detachIfCurrent_def Let_def
      split: prod.splits option.splits)

lemma keep_current:
  "lk_current (fst (writeAttached l a f)) = None \<or> lk_current (fst (writeAttached l a f)) = lk_current l"
  "lk_current (fst (attachment_Detach l a)) = None \<or> lk_current (fst (attachment_Detach l a)) = lk_current l"
  by (auto simp: writeAttached_def attachment_Detach_def detachIfCurrent_def Let_def
      split: prod.splits option.splits)

lemma link_sys_attach:
  assumes s: "link_sys_inv s"
  shows "link_sys_inv (link_exec s (LAttach ep))"
proof (cases "lk_closed (ls_link s)")
  case True
  then show ?thesis using s by (simp add: link_Attach_def)
next
  case False
  let ?l = "ls_link s" and ?n = "length (lk_atts (ls_link s))"
  define l where "l = fst (link_Attach ?l (Some ep))"
  have ex: "link_exec s (LAttach ep) = s\<lparr>ls_link := l, ls_inputs := ls_inputs s @ [inbuf (ep_conn ep)]\<rparr>"
    using False by (auto simp: l_def link_Attach_def Let_def split: option.splits)
  have inv: "link_inv l" using s by (simp add: l_def link_inv_Attach link_sys_inv_def)
  have cur: "lk_current l = Some ?n" and len: "length (lk_atts l) = Suc ?n"
    using False by (auto simp: l_def link_Attach_def Let_def split: option.splits)
  have old: "pending l a = pending ?l a" if "a < ?n" for a
    using False that by (auto simp: l_def link_Attach_def Let_def split: option.splits)
      (simp_all add: pending_def nth_append)
  have new: "pending l ?n = inbuf (ep_conn ep)"
    using False by (auto simp: l_def link_Attach_def Let_def split: option.splits)
      (simp_all add: pending_def nth_append)
  have none: "frames_from ?n (ls_log s) = []"
    using s by (auto simp: frames_from_def filter_empty_conv link_sys_inv_def)
  have keep: "in_step (link_exec s (LAttach ep)) a = in_step s a" if "a < ?n" for a
    using that s unfolding ex by (simp add: fun_eq_iff in_step_def link_sys_inv_def nth_append)
  have fresh: "in_step (link_exec s (LAttach ep)) ?n (inbuf (ep_conn ep))"
    using none s unfolding ex by (auto simp: in_step_def link_sys_inv_def nth_append)
  show ?thesis
    using s inv cur len old new keep fresh
    unfolding link_sys_inv_def ex
    by (auto simp: less_Suc_eq)
qed

lemma frames_from_snoc:
  "frames_from a (xs @ [(b, f)]) = (if a = b then frames_from a xs @ [f] else frames_from a xs)"
  by (simp add: frames_from_def)

lemma readAttached_Inr:
  assumes "readAttached l a = (l', Inr f)" and "a < length (lk_atts l)"
  shows "Validate f = None" and "\<exists>bs. wire_form f bs \<and> pending l a = bs @ pending l' a"
    and "b \<noteq> a \<Longrightarrow> pending l' b = pending l b" and "lk_current l' = lk_current l"
    and "length (lk_atts l') = length (lk_atts l)"
proof -
  obtain c where r: "protocol_Read (ep_conn (la_rw (lk_atts l ! a))) = (c, Inr f)"
    and l': "l' = update_att l a (\<lambda>t. t\<lparr>la_rw := (la_rw t)\<lparr>ep_conn := c\<rparr>\<rparr>)"
    using assms(1) by (auto simp: readAttached_def Let_def split: prod.splits sum.splits)
  show "Validate f = None" and "\<exists>bs. wire_form f bs \<and> pending l a = bs @ pending l' a"
    using protocol_Read_wire [OF r] assms(2) by (auto simp: l' pending_def update_att_def)
  show "b \<noteq> a \<Longrightarrow> pending l' b = pending l b" and "lk_current l' = lk_current l"
    and "length (lk_atts l') = length (lk_atts l)"
    by (auto simp: l' pending_def update_att_def)
qed

lemma readAttached_Inl:
  assumes "readAttached l a = (l', Inl e)"
  shows "lk_current l' \<noteq> Some a" and "lk_current l' = None \<or> lk_current l' = lk_current l"
    and "b \<noteq> a \<Longrightarrow> pending l' b = pending l b" and "length (lk_atts l') = length (lk_atts l)"
  using assms by (auto simp: readAttached_def Let_def detachIfCurrent_def pending_def update_att_def
      split: prod.splits sum.splits if_splits)

lemma link_sys_read:
  assumes s: "link_sys_inv s"
  shows "link_sys_inv (link_exec s LRead)"
proof (cases "ls_reading s")
  case None
  then show ?thesis using s by simp
next
  case (Some a)
  let ?l = "ls_link s"
  have a: "a < length (ls_inputs s)" "in_step s a (pending ?l a)" and len: "length (ls_inputs s) = length (lk_atts ?l)"
    using s Some by (auto simp: link_sys_inv_def)
  obtain l r where rd: "readAttached ?l a = (l, r)" by (cases "readAttached ?l a")
  have inv: "link_inv l" using link_inv_readAttached [of ?l a] s rd by (simp add: link_sys_inv_def)
  show ?thesis
  proof (cases r)
    case (Inl e)
    note R = readAttached_Inl [OF rd [unfolded Inl]]
    show ?thesis using s inv R len by (auto simp: Some rd Inl link_sys_inv_def)
  next
    case (Inr f)
    note R = readAttached_Inr [OF rd [unfolded Inr] a(1) [unfolded len]]
    let ?t = "s\<lparr>ls_link := l, ls_reading := None, ls_log := ls_log s @ [(a, f)]\<rparr>"
    have own: "in_step ?t a (pending l a)"
    proof -
      obtain chunks where c: "list_all2 wire_form (frames_from a (ls_log s)) chunks"
          "ls_inputs s ! a = concat chunks @ pending ?l a" using a(2) by (auto simp: in_step_def)
      obtain bs where bs: "wire_form f bs" "pending ?l a = bs @ pending l a" using R(2) by blast
      show ?thesis unfolding in_step_def
        using c bs by (intro exI [of _ "chunks @ [bs]"]) (auto simp: frames_from_snoc intro: list_all2_appendI)
    qed
    have other: "in_step ?t b rest = in_step s b rest" if "b \<noteq> a" for b rest
      using that by (simp add: in_step_def frames_from_snoc)
    have "link_sys_inv ?t"
      using s inv R a own other len unfolding link_sys_inv_def
      by (auto, metis, metis)
    then show ?thesis by (simp add: Some rd Inr)
  qed
qed

lemma link_sys_exec:
  assumes s: "link_sys_inv s"
  shows "link_sys_inv (link_exec s act)"
proof -
  have inv: "link_inv (ls_link s)" using s by (simp add: link_sys_inv_def)
  show ?thesis
  proof (cases act)
    case (LAttach ep)
    then show ?thesis using link_sys_attach [OF s] by simp
  next
    case LSnapshot
    then show ?thesis using s
      by (auto simp: snapshot_def link_sys_inv_def split: option.splits)
  next
    case LRead
    then show ?thesis using link_sys_read [OF s] by simp
  next
    case (LWrite a f)
    then show ?thesis
      using s link_sys_keep [OF s link_inv_writeAttached [OF inv] _ pending_writeAttached keep_current(1)] by simp
  next
    case (LDetach a)
    then show ?thesis
      using s link_sys_keep [OF s link_inv_Detach [OF inv] _ pending_Detach keep_current(2)] by simp
  next
    case (LCloseAttachment a)
    have "link_sys_inv (s\<lparr>ls_link := closeEndpoint (fst (attachment_Detach (ls_link s) a)) a\<rparr>)"
      using keep_current(2) by (intro link_sys_keep [OF s link_inv_closeEndpoint [OF link_inv_Detach [OF inv]]])
        (simp_all add: pending_Detach)
    then show ?thesis
      using LCloseAttachment s link_sys_keep [OF s link_inv_Detach [OF inv] keep_lengths(2) pending_Detach keep_current(2), of a]
      by (cases "attachment_Detach (ls_link s) a") (simp add: attachment_Close_def Let_def)
  next
    case LClose
    have "pending (link_Close l) a = pending l a" "length (lk_atts (link_Close l)) = length (lk_atts l)"
      "lk_current (link_Close l) = None \<or> lk_current (link_Close l) = lk_current l" for l a
      by (auto simp: link_Close_def Let_def pending_def closeEndpoint_def update_att_def nth_list_update split: option.splits)
    with LClose show ?thesis using link_sys_keep [OF s link_inv_Close [OF inv]] by simp
  qed
qed

lemma link_sys_start: "link_sys_inv link_start"
  by (simp add: link_sys_inv_def link_start_def link_inv_New link_New_def link_inv_def)

lemma link_sys_run: "link_sys_inv (foldl link_exec link_start acts)"
  using link_sys_start link_sys_exec by (induction acts rule: rev_induct) simp_all

text \<open>
  C5: However attachments are installed, replaced, detached, closed and written to while a reader
  is between its snapshot and its read, the frames the link returns never mix transports: for
  every attachment, the frames returned from it are valid and their wire forms, in order, are a
  prefix of the bytes that this attachment alone delivered.
\<close>

theorem link_frames_whole:
  "let s = foldl link_exec link_start acts in
     list_all (\<lambda>a. \<exists>chunks rest. list_all2 wire_form (frames_from a (ls_log s)) chunks
                      \<and> ls_inputs s ! a = concat chunks @ rest)
       [0..<length (lk_atts (ls_link s))]
     \<and> list_all (\<lambda>(a, f). a < length (lk_atts (ls_link s)) \<and> Validate f = None) (ls_log s)"
  using link_sys_run [of acts]
  by (fastforce simp: Let_def list_all_iff link_sys_inv_def in_step_def)

text \<open>
  C6: A cleanup that comes late never takes the transport away from its successor: after any
  sequence of detaches and of failed reads and writes on attachments, the current attachment is
  the one it was unless its own handle is among them, and then there is none.
\<close>

theorem link_stale_cleanup:
  assumes "link_inv l"
  shows "lk_current (foldl (\<lambda>l a. fst (attachment_Detach l a)) l as)
      = (case lk_current l of None \<Rightarrow> None | Some a \<Rightarrow> if a \<in> set as then None else Some a)
    \<and> lk_current (foldl detachIfCurrent l as)
      = (case lk_current l of None \<Rightarrow> None | Some a \<Rightarrow> if a \<in> set as then None else Some a)"
  using link_detach.current_detaches [OF assms] link_fail.current_detaches [OF assms] by simp

definition sample_endpoint :: endpoint where
  "sample_endpoint = \<lparr>ep_conn = fresh_conn [], ep_closer = True, ep_closeErr = None, ep_closed = False\<rparr>"

definition sample_link :: link where
  "sample_link = fst (link_Attach (fst (link_Attach link_New (Some sample_endpoint))) (Some sample_endpoint))"

theorem link_stale_cleanup_witness:
  "link_inv sample_link \<and> lk_current sample_link = Some 1
     \<and> lk_current (foldl (\<lambda>l a. fst (attachment_Detach l a)) sample_link [0, 0]) = Some 1
     \<and> lk_current (foldl detachIfCurrent sample_link [0, 1]) = None"
proof -
  have i: "link_inv sample_link" unfolding sample_link_def by (intro link_inv_Attach link_inv_New)
  have c: "lk_current sample_link = Some 1"
    by (simp add: sample_link_def link_Attach_def link_New_def Let_def)
  show ?thesis
    using i c link_stale_cleanup [OF i, of "[0, 0]"] link_stale_cleanup [OF i, of "[0, 1]"] by simp
qed

section \<open>Waiting\<close>

text \<open>A healthy link delivers a frame that is waiting, and a closed one answers at once.\<close>

lemma ReadFrame_closed: "lk_closed l \<Longrightarrow> ReadFrame l wakes = Some (l, Inl ErrLinkClosed)"
  by (subst ReadFrame.simps) (simp add: snapshot_def)

lemma WriteFrameContext_closed: "lk_closed l \<Longrightarrow> WriteFrameContext l f events = Some (l, Some ErrLinkClosed)"
  by (subst WriteFrameContext.simps) (simp add: snapshot_def)

text \<open>
  A frame that fails validation is never written, but the link reports it as a detached
  transport and drops the healthy attachment it was about to use.
\<close>

lemma invalid_frame_detaches:
  assumes "lk_current l = Some a" and "\<not> lk_closed l" and "a < length (lk_atts l)" and "Validate f = Some e"
  shows "\<exists>l'. WriteFrameContext l f [] = Some (l', Some (ErrJoined ErrDetached e))
           \<and> lk_current l' = None
           \<and> outbuf (ep_conn (la_rw (lk_atts l' ! a))) = outbuf (ep_conn (la_rw (lk_atts l ! a)))"
  using assms
  by (subst WriteFrameContext.simps)
     (simp add: snapshot_def writeAttached_def protocol_Write_def detachIfCurrent_def update_att_def)

end
