(* ===== verification/Broker.thy ===== *)
theory Broker
  imports AttachHandshake FramedLink "HOL-Library.Multiset"
begin

text \<open>
  The Windows broker state (src/internal/broker/broker.go): the stable registry entries, the
  tracked connections and the attach registry, the accept loops and the installation of a
  connector's transport into the frame link.  The order in which Go iterates over the entries map
  is an argument of the operations that iterate (\<open>enumerates\<close> says what it may be).  A connection is
  a handle, \<open>br_closedConns\<close> logs the handles that were closed.  Deadlines and callbacks have no
  effect on this state and are left out.
\<close>

abbreviation MaxConcurrentConnections :: nat where "MaxConcurrentConnections \<equiv> 32"
abbreviation MaxConcurrentAttachHandshakes :: nat where "MaxConcurrentAttachHandshakes \<equiv> 16"
abbreviation MaxRegistryEntries :: nat where "MaxRegistryEntries \<equiv> MaxSummaryEntries"

record broker =
  br_registry :: "attachRegistry option"
  br_capabilities :: u64
  br_nextID :: u64
  br_entries :: "64 word \<rightharpoonup> RegistryEntry"
  br_connections :: "nat list"
  br_closed :: bool
  br_closedConns :: "nat list"

definition NewWithRegistry :: "attachRegistry option \<Rightarrow> u64 \<Rightarrow> broker" where
  "NewWithRegistry registry capabilities =
     \<lparr>br_registry = registry, br_capabilities = capabilities, br_nextID = 0, br_entries = Map.empty,
      br_connections = [], br_closed = False, br_closedConns = []\<rparr>"

definition broker_New :: "bytes result \<Rightarrow> bytes result \<Rightarrow> u64 \<Rightarrow> broker result" where
  "broker_New token identity capabilities =
     rbind (registry_New token identity) (\<lambda>r. Inr (NewWithRegistry (Some r) capabilities))"

definition broker_Token :: "broker \<Rightarrow> bytes" where
  "broker_Token b = (case br_registry b of None \<Rightarrow> [] | Some r \<Rightarrow> registry_Token r)"

definition broker_down :: "broker \<Rightarrow> bool" where
  "broker_down b \<longleftrightarrow> br_closed b \<or> br_registry b = None"

text \<open>The \<open>for\<close> loop that skips the identifier zero is the step of the epoch counter.\<close>

definition Register :: "broker \<Rightarrow> byte \<Rightarrow> broker \<times> u64 result" where
  "Register b kind =
     (if broker_down b then (b, Inl ErrBrokerClosed)
      else if MaxRegistryEntries \<le> msize (br_entries b) then (b, Inl ErrRegistryFull)
      else
        let i = next_epoch (br_nextID b);
            b1 = b\<lparr>br_nextID := i\<rparr>;
            entry = \<lparr>re_ID = i, re_Kind = kind, re_State = EntryActive\<rparr>
        in (case EncodeSummary \<lparr>su_Epoch = 0, su_Entries = [entry]\<rparr> of
              Inl err \<Rightarrow> (b1, Inl err)
            | Inr p \<Rightarrow> (b1\<lparr>br_entries := (br_entries b1)(i \<mapsto> entry)\<rparr>, Inr i)))"

definition SetState :: "broker \<Rightarrow> u64 \<Rightarrow> byte \<Rightarrow> broker \<times> goerr option" where
  "SetState b i state =
     (if broker_down b then (b, Some ErrBrokerClosed)
      else case br_entries b i of
        None \<Rightarrow> (b, Some ErrUnknownEntry)
      | Some entry \<Rightarrow>
          let entry1 = entry\<lparr>re_State := state\<rparr> in
          (case EncodeSummary \<lparr>su_Epoch = 0, su_Entries = [entry1]\<rparr> of
             Inl err \<Rightarrow> (b, Some err)
           | Inr p \<Rightarrow> (b\<lparr>br_entries := (br_entries b)(i \<mapsto> entry1)\<rparr>, None)))"

definition broker_Remove :: "broker \<Rightarrow> u64 \<Rightarrow> broker \<times> goerr option" where
  "broker_Remove b i =
     (if broker_down b then (b, Some ErrBrokerClosed)
      else if br_entries b i = None then (b, Some ErrUnknownEntry)
      else (b\<lparr>br_entries := (br_entries b)(i := None)\<rparr>, None))"

section \<open>Summaries\<close>

definition enumerates :: "RegistryEntry list \<Rightarrow> (64 word \<rightharpoonup> RegistryEntry) \<Rightarrow> bool" where
  "enumerates es m \<longleftrightarrow> distinct es \<and> set es = ran m"

text \<open>
  The insertion sort of \<open>Summary\<close>: the inner loop moves entry \<open>j\<close> down while it is smaller than its
  left neighbour, the outer loop runs over \<open>i = 1, 2, ...\<close>.
\<close>

fun sift :: "RegistryEntry list \<Rightarrow> nat \<Rightarrow> RegistryEntry list" where
  "sift es 0 = es"
| "sift es (Suc j) =
     (if re_ID (es ! Suc j) < re_ID (es ! j)
      then sift (es[Suc j := es ! j, j := es ! Suc j]) j else es)"

definition sort_entries :: "RegistryEntry list \<Rightarrow> RegistryEntry list" where
  "sort_entries es = foldl sift es [1..<length es]"

definition broker_Summary :: "broker \<Rightarrow> RegistryEntry list \<Rightarrow> Summary" where
  "broker_Summary b order =
     (case br_registry b of
        None \<Rightarrow> \<lparr>su_Epoch = 0, su_Entries = []\<rparr>
      | Some r \<Rightarrow> \<lparr>su_Epoch = CurrentEpoch r, su_Entries = sort_entries order\<rparr>)"

text \<open>\<open>Accept\<close> and \<open>serveAttachConnection\<close> sort with \<open>sort.Slice\<close>.\<close>

definition summary_for :: "RegistryEntry list \<Rightarrow> Summary" where
  "summary_for order = \<lparr>su_Epoch = 0, su_Entries = sort_key re_ID order\<rparr>"

section \<open>Sessions and connections\<close>

record Session =
  se_attachment :: nat
  se_capabilities :: u64
  se_lastEpoch :: u64
  se_instanceID :: u64
  se_once :: bool
  se_closeErr :: "goerr option"

definition session_of :: "serverHandshake \<Rightarrow> nat \<Rightarrow> Session" where
  "session_of sh a = \<lparr>se_attachment = a, se_capabilities = sh_capabilities sh, se_lastEpoch = sh_lastEpoch sh,
                      se_instanceID = sh_instanceID sh, se_once = False, se_closeErr = None\<rparr>"

definition broker_detach :: "broker \<Rightarrow> nat \<Rightarrow> broker" where
  "broker_detach b a = b\<lparr>br_registry := map_option (\<lambda>r. fst (registry_Detach r a)) (br_registry b)\<rparr>"

definition session_Close :: "broker \<Rightarrow> Session \<Rightarrow> broker \<times> Session \<times> goerr option" where
  "session_Close b se =
     (if se_once se then (b, se, se_closeErr se)
      else
        let err = (case br_registry b of None \<Rightarrow> None | Some r \<Rightarrow> snd (registry_Detach r (se_attachment se)))
        in (broker_detach b (se_attachment se), se\<lparr>se_once := True, se_closeErr := err\<rparr>, err))"

definition session_Current :: "broker \<Rightarrow> Session \<Rightarrow> bool" where
  "session_Current b se =
     (case br_registry b of None \<Rightarrow> False | Some r \<Rightarrow> registry_Current r (se_attachment se))"

definition session_Epoch :: "broker \<Rightarrow> Session \<Rightarrow> u64" where
  "session_Epoch b se =
     (case br_registry b of None \<Rightarrow> 0 | Some r \<Rightarrow> registry_Epoch r (se_attachment se))"

text \<open>
  \<open>Accept\<close>; \<open>during\<close> is what other goroutines did to the broker before its last check.
\<close>

definition broker_Accept ::
  "broker \<Rightarrow> conn \<Rightarrow> RegistryEntry list \<Rightarrow> (broker \<Rightarrow> broker) \<Rightarrow> broker \<times> conn \<times> Session result" where
  "broker_Accept b rw order during =
     (if broker_down b then (b, rw, Inl ErrBrokerClosed)
      else case ServerResumeHandshakeWithInstance rw (br_registry b) (br_capabilities b) (summary_for order) of
        (c1, reg, sh) \<Rightarrow>
          let b1 = b\<lparr>br_registry := reg\<rparr> in
          (case (sh_err sh, sh_attachment sh) of
             (None, Some a) \<Rightarrow>
               let b2 = during b1 in
               if br_closed b2 then (broker_detach b2 a, c1, Inl ErrBrokerClosed)
               else (b2, c1, Inr (session_of sh a))
           | (Some err, _) \<Rightarrow> (b1, c1, Inl err)
           | (None, None) \<Rightarrow> (b1, c1, Inl GoPanic)))"

definition trackConnection :: "broker \<Rightarrow> nat \<Rightarrow> nat \<Rightarrow> broker \<times> bool" where
  "trackConnection b h maximum =
     (if br_closed b \<or> maximum \<le> length (br_connections b) then (b, False)
      else (b\<lparr>br_connections := List.insert h (br_connections b)\<rparr>, True))"

definition untrackConnection :: "broker \<Rightarrow> nat \<Rightarrow> broker" where
  "untrackConnection b h = b\<lparr>br_connections := removeAll h (br_connections b)\<rparr>"

definition closeConn :: "broker \<Rightarrow> nat \<Rightarrow> broker" where
  "closeConn b h = b\<lparr>br_closedConns := br_closedConns b @ [h]\<rparr>"

definition closeConnections :: "broker \<Rightarrow> broker" where
  "closeConnections b = b\<lparr>br_closedConns := br_closedConns b @ br_connections b\<rparr>"

definition broker_Close :: "broker \<Rightarrow> broker" where
  "broker_Close b =
     (if br_closed b then b
      else
        let b1 = closeConnections (b\<lparr>br_closed := True\<rparr>)
        in b1\<lparr>br_registry := map_option registry_Close (br_registry b1)\<rparr>)"

text \<open>
  \<open>serveAttachConnection\<close> for connection \<open>h\<close> with endpoint \<open>ep\<close>.  The result says whether the
  connection is kept and the session handed to the callback.  \<open>locked\<close> is the broker once the
  install mutex is held, after the request was read.
\<close>

definition serveAttachConnection ::
  "broker \<Rightarrow> link \<Rightarrow> nat \<Rightarrow> endpoint \<Rightarrow> RegistryEntry list \<Rightarrow> (broker \<Rightarrow> broker)
     \<Rightarrow> broker \<times> link \<times> bool \<times> Session option" where
  "serveAttachConnection b l h ep order locked =
     (let drop_conn = (\<lambda>b l. (closeConn (untrackConnection b h) h, l, False, None :: Session option)) in
      case ReadServerAttachRequest (ep_conn ep) of
        (c1, Inl err) \<Rightarrow> drop_conn b l
      | (c1, Inr request) \<Rightarrow>
          let b1 = locked b in
          if broker_down b1 then drop_conn b1 l
          else case CompleteServerResumeHandshakeWithInstance c1 (br_registry b1) (br_capabilities b1)
                      (summary_for order) request of
            (c2, reg, sh) \<Rightarrow>
              let b2 = b1\<lparr>br_registry := reg\<rparr> in
              (case (sh_err sh, sh_attachment sh) of
                 (None, Some a) \<Rightarrow>
                   let se = session_of sh a in
                   (case link_Attach l (Some (ep\<lparr>ep_conn := c2\<rparr>)) of
                      (l1, Inl err) \<Rightarrow>
                        (case session_Close b2 se of (b3, se1, e) \<Rightarrow>
                           (closeConn (untrackConnection b3 h) h, l1, False, Some se1))
                    | (l1, Inr t) \<Rightarrow> (untrackConnection b2 h, l1, True, Some se))
               | _ \<Rightarrow> drop_conn b2 l))"

text \<open>
  \<open>serveConnection\<close>: the deferred calls close the session first, then forget and close the
  connection.  \<open>handled\<close> is what happened to the broker while the handler ran or, without a handler,
  until the context ended.
\<close>

definition serveConnection ::
  "broker \<Rightarrow> nat \<Rightarrow> conn \<Rightarrow> RegistryEntry list \<Rightarrow> (broker \<Rightarrow> broker) \<Rightarrow> (broker \<Rightarrow> broker) \<Rightarrow> broker" where
  "serveConnection b h rw order during handled =
     (case broker_Accept b rw order during of
        (b1, c1, Inl err) \<Rightarrow> closeConn (untrackConnection b1 h) h
      | (b1, c1, Inr se) \<Rightarrow>
          (case session_Close (handled b1) se of (b2, se1, e) \<Rightarrow> closeConn (untrackConnection b2 h) h))"

section \<open>Accept loops\<close>

text \<open>
  Both accept loops, with their connection limit.  An event is the list of connections whose
  handler has finished since the last one (they have been untracked and closed, or kept by the
  link) and the outcome of \<open>Accept\<close>: an error and whether it is temporary, or a connection.
  The result lists the connections given to handlers and the error the loop returns; on return
  every tracked connection is closed.  \<open>ctxErr\<close> is the error of the serve context at that moment.
\<close>

datatype acceptEvent = AcceptError goerr bool "goerr option" | Accepted nat

fun accept_loop :: "nat \<Rightarrow> broker \<Rightarrow> (nat list \<times> acceptEvent) list \<Rightarrow> broker \<times> nat list \<times> goerr option" where
  "accept_loop maximum b [] = (b, [], None)"
| "accept_loop maximum b ((finished, ev) # events) =
     (let b0 = foldl untrackConnection b finished in
      case ev of
        AcceptError err temporary ctxErr \<Rightarrow>
          (case ctxErr of
             Some e \<Rightarrow> (closeConnections b0, [], Some e)
           | None \<Rightarrow> if temporary then accept_loop maximum b0 events
                     else (closeConnections b0, [], Some err))
      | Accepted h \<Rightarrow>
          (case trackConnection b0 h maximum of
             (b1, False) \<Rightarrow> accept_loop maximum (closeConn b1 h) events
           | (b1, True) \<Rightarrow>
               (case accept_loop maximum b1 events of (b2, hs, r) \<Rightarrow> (b2, h # hs, r))))"

definition broker_Serve :: "broker \<Rightarrow> bool \<Rightarrow> (nat list \<times> acceptEvent) list \<Rightarrow> broker \<times> nat list \<times> goerr option" where
  "broker_Serve b listenerNil events =
     (if listenerNil then (b, [], Some (ErrText (str ''broker listener is nil'')))
      else accept_loop MaxConcurrentConnections b events)"

definition ServeAttachedWith ::
  "broker \<Rightarrow> link option \<Rightarrow> bool \<Rightarrow> (nat list \<times> acceptEvent) list
     \<Rightarrow> broker \<times> link option \<times> nat list \<times> goerr option" where
  "ServeAttachedWith b l listenerNil events =
     (if listenerNil then (b, l, [], Some (ErrText (str ''broker listener is nil'')))
      else case l of
        None \<Rightarrow> (b, None, [], Some (ErrText (str ''broker frame link is nil'')))
      | Some l0 \<Rightarrow>
          (case accept_loop MaxConcurrentAttachHandshakes b events of
             (b1, hs, None) \<Rightarrow> (b1, Some l0, hs, None)
           | (b1, hs, Some err) \<Rightarrow> (b1, Some (link_Close l0), hs, Some err)))"

section \<open>The insertion sort\<close>

lemma sift_insert:
  "sorted (map re_ID ys) \<Longrightarrow>
     sift (ys @ x # zs) (length ys)
       = filter (\<lambda>y. re_ID y \<le> re_ID x) ys @ x # filter (\<lambda>y. re_ID x < re_ID y) ys @ zs"
proof (induction ys arbitrary: zs rule: rev_induct)
  case (snoc y us)
  have low: "re_ID u \<le> re_ID y" if "u \<in> set us" for u using snoc.prems that by (auto simp: sorted_append)
  show ?case
  proof (cases "re_ID x < re_ID y")
    case True
    have "sift ((us @ [y]) @ x # zs) (length (us @ [y])) = sift (us @ x # y # zs) (length us)"
      using True by (simp add: nth_append list_update_append)
    then show ?thesis using snoc True by (simp add: sorted_append)
  next
    case False
    have "filter (\<lambda>y. re_ID y \<le> re_ID x) us = us" "filter (\<lambda>y. re_ID x < re_ID y) us = []"
      using False low by (force simp: filter_id_conv filter_empty_conv)+
    with False show ?thesis by (simp add: nth_append)
  qed
qed simp

lemma sorted_insert_middle:
  assumes "sorted (map re_ID ys)"
  shows "sorted (map re_ID (filter (\<lambda>y. re_ID y \<le> re_ID x) ys @ x # filter (\<lambda>y. re_ID x < re_ID y) ys))"
proof -
  have "sorted (map re_ID (filter P ys))" for P using assms by (rule sorted_filter)
  then show ?thesis by (auto simp: sorted_append)
qed

lemma mset_insert_middle:
  "mset (filter (\<lambda>y. re_ID y \<le> re_ID x) ys @ x # filter (\<lambda>y. re_ID x < re_ID y) ys) = add_mset x (mset ys)"
  by (induction ys) auto

lemma length_insert_middle:
  "length (filter (\<lambda>y. re_ID y \<le> re_ID x) ys @ x # filter (\<lambda>y. re_ID x < re_ID y) ys) = Suc (length ys)"
  by (induction ys) auto

text \<open>After the outer loop has reached \<open>k\<close>, the first \<open>k\<close> entries are sorted and the rest untouched.\<close>

lemma sort_loop:
  "0 < k \<Longrightarrow> k \<le> length es \<Longrightarrow>
     \<exists>ys. foldl sift es [1..<k] = ys @ drop k es \<and> sorted (map re_ID ys) \<and> mset ys = mset (take k es) \<and> length ys = k"
proof (induction k)
  case (Suc k)
  show ?case
  proof (cases "k = 0")
    case True
    with Suc.prems have "es \<noteq> []" by auto
    with True show ?thesis by (intro exI [of _ "take 1 es"]) (cases es; simp)
  next
    case False
    then obtain ys where ys: "foldl sift es [1..<k] = ys @ drop k es" "sorted (map re_ID ys)"
      "mset ys = mset (take k es)" "length ys = k"
      using Suc by auto
    let ?zs = "filter (\<lambda>y. re_ID y \<le> re_ID (es ! k)) ys @ es ! k # filter (\<lambda>y. re_ID (es ! k) < re_ID y) ys"
    have "foldl sift es [1..<Suc k] = sift (ys @ es ! k # drop (Suc k) es) (length ys)"
      using False ys Suc.prems by (simp add: Cons_nth_drop_Suc)
    also have "\<dots> = ?zs @ drop (Suc k) es" using sift_insert [OF ys(2)] by simp
    finally have "foldl sift es [1..<Suc k] = ?zs @ drop (Suc k) es" .
    moreover have "mset ?zs = mset (take (Suc k) es)"
      using Suc.prems ys(3) by (simp only: mset_insert_middle) (simp add: take_Suc_conv_app_nth)
    moreover have "length ?zs = Suc k"
      using length_insert_middle ys(4) by blast
    ultimately show ?thesis using sorted_insert_middle [OF ys(2)] by blast
  qed
qed simp

lemma sort_entries_spec: "sorted (map re_ID (sort_entries es)) \<and> mset (sort_entries es) = mset es"
proof (cases "es = []")
  case False
  then show ?thesis using sort_loop [of "length es" es] by (auto simp: sort_entries_def)
qed (simp add: sort_entries_def)

lemma sort_entries_sort_key:
  assumes "distinct (map re_ID es)"
  shows "sort_entries es = sort_key re_ID es"
proof (rule sym, rule properties_for_sort_key)
  show m: "mset (sort_entries es) = mset es" and "sorted (map re_ID (sort_entries es))"
    using sort_entries_spec by simp_all
  fix k
  assume k: "k \<in> set (sort_entries es)"
  have one: "filter (\<lambda>x. re_ID k = re_ID x) xs = [k]" if "distinct (map re_ID xs)" "k \<in> set xs" for xs
    using that by (induction xs) (auto simp: filter_empty_conv image_iff)
  have "distinct (map re_ID (sort_entries es))"
    using assms m by (metis mset_map mset_eq_imp_distinct_iff)
  moreover have "k \<in> set es" using k m by (metis set_mset_mset)
  ultimately show "filter (\<lambda>x. re_ID k = re_ID x) (sort_entries es) = filter (\<lambda>x. re_ID k = re_ID x) es"
    using one [of es] one [of "sort_entries es"] k assms by simp
qed

section \<open>Invariant\<close>

definition entries_ok :: "(64 word \<rightharpoonup> RegistryEntry) \<Rightarrow> bool" where
  "entries_ok m \<longleftrightarrow> finite (dom m) \<and> msize m \<le> MaxRegistryEntries \<and>
     (\<forall>i e. m i = Some e \<longrightarrow> re_ID e = i \<and> entry_validate e = None)"

definition broker_inv :: "broker \<Rightarrow> bool" where
  "broker_inv b \<longleftrightarrow> entries_ok (br_entries b) \<and> (\<forall>r. br_registry b = Some r \<longrightarrow> ar_inv r) \<and>
     distinct (br_connections b)"

lemma EncodeSummary_single:
  "EncodeSummary \<lparr>su_Epoch = e, su_Entries = [x]\<rparr> = Inr p \<Longrightarrow> entry_validate x = None"
  by (simp add: EncodeSummary_Inr)

lemma entries_ok_insert:
  "entries_ok m \<Longrightarrow> entry_validate e = None \<Longrightarrow> re_ID e = i \<Longrightarrow>
     msize m < MaxRegistryEntries \<or> m i \<noteq> None \<Longrightarrow> entries_ok (m(i \<mapsto> e))"
  by (auto simp: entries_ok_def msize_upd_present intro: msize_bounded_insert)

lemma entries_ok_delete: "entries_ok m \<Longrightarrow> entries_ok (m(i := None))"
  by (auto simp: entries_ok_def intro: msize_bounded_delete)

lemma broker_inv_New: "(\<And>r. registry = Some r \<Longrightarrow> ar_inv r) \<Longrightarrow> broker_inv (NewWithRegistry registry caps)"
  by (simp add: broker_inv_def NewWithRegistry_def entries_ok_def)

lemma broker_inv_Register: "broker_inv b \<Longrightarrow> broker_inv (fst (Register b kind))"
  by (auto simp: broker_inv_def Register_def Let_def not_le split: sum.splits
      dest!: EncodeSummary_single intro!: entries_ok_insert)

lemma broker_inv_SetState: "broker_inv b \<Longrightarrow> broker_inv (fst (SetState b i st))"
  by (auto simp: broker_inv_def SetState_def Let_def split: sum.splits option.splits
      dest!: EncodeSummary_single intro!: entries_ok_insert) (simp add: entries_ok_def)

lemma broker_inv_Remove: "broker_inv b \<Longrightarrow> broker_inv (fst (broker_Remove b i))"
  by (auto simp: broker_inv_def broker_Remove_def entries_ok_delete)

lemma broker_inv_Close: "broker_inv b \<Longrightarrow> broker_inv (broker_Close b)"
  by (auto simp: broker_inv_def broker_Close_def closeConnections_def Let_def ar_inv_Close)

lemma broker_inv_track: "broker_inv b \<Longrightarrow> broker_inv (fst (trackConnection b h n))"
  by (simp add: broker_inv_def trackConnection_def)

lemma broker_inv_untrack: "broker_inv b \<Longrightarrow> broker_inv (untrackConnection b h)"
  by (simp add: broker_inv_def untrackConnection_def distinct_removeAll)

datatype broker_op = BRegister byte | BSetState u64 byte | BRemove u64 | BTrack nat nat | BUntrack nat | BClose

fun broker_exec :: "broker \<Rightarrow> broker_op \<Rightarrow> broker" where
  "broker_exec b (BRegister kind) = fst (Register b kind)"
| "broker_exec b (BSetState i st) = fst (SetState b i st)"
| "broker_exec b (BRemove i) = fst (broker_Remove b i)"
| "broker_exec b (BTrack h n) = fst (trackConnection b h n)"
| "broker_exec b (BUntrack h) = untrackConnection b h"
| "broker_exec b BClose = broker_Close b"

lemma broker_inv_run: "broker_inv b \<Longrightarrow> broker_inv (foldl broker_exec b ops)"
proof (induction ops arbitrary: b)
  case (Cons op ops)
  then have "broker_inv (broker_exec b op)"
    by (cases op) (simp_all add: broker_inv_Register broker_inv_SetState broker_inv_Remove broker_inv_track
        broker_inv_untrack broker_inv_Close)
  with Cons.IH show ?case by simp
qed simp

section \<open>Summaries can always be sent\<close>

lemma enumerates_keys:
  assumes "entries_ok m" and "enumerates es m"
  shows "distinct (map re_ID es)" and "length es \<le> MaxRegistryEntries"
    and "list_all (\<lambda>e. entry_validate e = None) es"
proof -
  have e: "m (re_ID x) = Some x \<and> entry_validate x = None" if "x \<in> set es" for x
    using assms that by (auto simp: enumerates_def entries_ok_def ran_def)
  then have inj: "inj_on re_ID (set es)" by (metis inj_onI option.inject)
  then show d: "distinct (map re_ID es)" using assms(2) by (simp add: distinct_map enumerates_def)
  have "re_ID ` set es \<subseteq> dom m" using e by blast
  then have "card (re_ID ` set es) \<le> msize m" using assms(1) by (simp add: msize_def card_mono entries_ok_def)
  moreover have "length es = card (re_ID ` set es)"
    using d by (metis distinct_card length_map set_map)
  ultimately show "length es \<le> MaxRegistryEntries" using assms(1) by (simp add: entries_ok_def)
  show "list_all (\<lambda>e. entry_validate e = None) es" using e by (simp add: list_all_iff)
qed

lemma sort_key_encodable:
  assumes "entries_ok m" and "enumerates es m"
  shows "isOk (EncodeSummary \<lparr>su_Epoch = e, su_Entries = sort_key re_ID es\<rparr>)"
proof -
  note K = enumerates_keys [OF assms]
  have "distinct (map re_ID (sort_key re_ID es))"
    using K(1) by (metis mset_map mset_sort mset_eq_imp_distinct_iff)
  moreover have "sorted (map re_ID (sort_key re_ID es))" by simp
  ultimately have "sorted_wrt (<) (map re_ID (sort_key re_ID es))"
    using strict_sorted_iff by blast
  then show ?thesis using K(2,3) by (simp add: isOk_def EncodeSummary_Inr table_ok_iff list_all_iff)
qed

lemma enumerations_agree:
  assumes "entries_ok m" and "enumerates es m" and "enumerates es' m"
  shows "sort_key re_ID es = sort_key re_ID es'"
proof (rule map_sorted_distinct_set_unique)
  note K = enumerates_keys [OF assms(1,2)] and K' = enumerates_keys [OF assms(1,3)]
  have "inj_on re_ID (ran m)" using assms(1) by (auto simp: entries_ok_def inj_on_def ran_def)
  then show "inj_on re_ID (set (sort_key re_ID es) \<union> set (sort_key re_ID es'))"
    using assms by (simp add: enumerates_def)
  show "distinct (map re_ID (sort_key re_ID es))" "distinct (map re_ID (sort_key re_ID es'))"
    using K(1) K'(1) by (metis mset_map mset_sort mset_eq_imp_distinct_iff)+
  show "set (sort_key re_ID es) = set (sort_key re_ID es')" using assms by (simp add: enumerates_def)
qed simp_all

text \<open>
  C10: Every summary the broker produces can be sent: after any sequence of registrations, state
  changes, removals and connection changes, and for every order in which the map is iterated, the
  summary of \<open>Summary\<close> and the one \<open>Accept\<close> and \<open>serveAttachConnection\<close> build encode without
  error, both contain exactly the registered entries, and neither depends on the order.
\<close>

theorem broker_summary_sendable:
  assumes "ar_inv r" and "b = foldl broker_exec (NewWithRegistry (Some r) caps) ops"
    and "enumerates order (br_entries b)" and "enumerates order' (br_entries b)"
  shows "isOk (EncodeSummary (broker_Summary b order))
       \<and> isOk (EncodeSummary ((summary_for order)\<lparr>su_Epoch := e\<rparr>))
       \<and> su_Entries (summary_for order) = su_Entries (broker_Summary b order)
       \<and> set (su_Entries (broker_Summary b order)) = ran (br_entries b)
       \<and> broker_Summary b order' = broker_Summary b order"
proof -
  have inv: "broker_inv b" unfolding assms(2) using assms(1) by (intro broker_inv_run broker_inv_New) simp
  have ok: "entries_ok (br_entries b)" using inv by (simp add: broker_inv_def)
  have keep: "br_registry (broker_exec x op) = None \<longleftrightarrow> br_registry x = None" for x op
    by (cases op) (auto simp: Register_def SetState_def broker_Remove_def trackConnection_def untrackConnection_def
        broker_Close_def closeConnections_def Let_def split: option.splits sum.splits)
  have "br_registry (foldl broker_exec x ops) = None \<longleftrightarrow> br_registry x = None" for x
    by (induction ops arbitrary: x) (simp_all add: keep)
  then have "br_registry b \<noteq> None" by (simp add: assms(2) NewWithRegistry_def)
  then obtain r' where r': "br_registry b = Some r'" by blast
  have s: "sort_entries es = sort_key re_ID es" if "enumerates es (br_entries b)" for es
    by (rule sort_entries_sort_key [OF enumerates_keys(1) [OF ok that]])
  show ?thesis
    using sort_key_encodable [OF ok assms(3)] enumerations_agree [OF ok assms(3,4)] assms(3,4)
    by (simp add: broker_Summary_def r' s [OF assms(3)] s [OF assms(4)] summary_for_def enumerates_def)
qed

definition sample_broker_ops :: "broker_op list" where
  "sample_broker_ops = [BRegister EntryStream, BRegister EntryDatagram, BSetState 1 EntryClosed]"

definition sample_entries :: "RegistryEntry list" where
  "sample_entries = [\<lparr>re_ID = 2, re_Kind = EntryDatagram, re_State = EntryActive\<rparr>,
                     \<lparr>re_ID = 1, re_Kind = EntryStream, re_State = EntryClosed\<rparr>]"

lemma sample_broker_entries:
  "br_entries (foldl broker_exec (NewWithRegistry (Some sample_registry) 127) sample_broker_ops)
     = [1 \<mapsto> \<lparr>re_ID = 1, re_Kind = EntryStream, re_State = EntryClosed\<rparr>,
        2 \<mapsto> \<lparr>re_ID = 2, re_Kind = EntryDatagram, re_State = EntryActive\<rparr>]"
proof -
  have ok: "\<exists>p. EncodeSummary \<lparr>su_Epoch = 0, su_Entries = [x]\<rparr> = Inr p" if "entry_validate x = None" for x
    using that by (simp add: EncodeSummary_Inr)
  obtain p q t where
    "EncodeSummary \<lparr>su_Epoch = 0, su_Entries = [\<lparr>re_ID = 1, re_Kind = EntryStream, re_State = EntryActive\<rparr>]\<rparr> = Inr p"
    "EncodeSummary \<lparr>su_Epoch = 0, su_Entries = [\<lparr>re_ID = 2, re_Kind = EntryDatagram, re_State = EntryActive\<rparr>]\<rparr> = Inr q"
    "EncodeSummary \<lparr>su_Epoch = 0, su_Entries = [\<lparr>re_ID = 1, re_Kind = EntryStream, re_State = EntryClosed\<rparr>]\<rparr> = Inr t"
    using ok [of "\<lparr>re_ID = 1, re_Kind = EntryStream, re_State = EntryActive\<rparr>"]
      ok [of "\<lparr>re_ID = 2, re_Kind = EntryDatagram, re_State = EntryActive\<rparr>"]
      ok [of "\<lparr>re_ID = 1, re_Kind = EntryStream, re_State = EntryClosed\<rparr>"]
    by (auto simp: entry_validate_def)
  then show ?thesis
    by (simp add: sample_broker_ops_def Register_def SetState_def NewWithRegistry_def broker_down_def
        next_epoch_def msize_def Let_def fun_upd_twist)
qed

theorem broker_summary_sendable_witness:
  "isOk (EncodeSummary (broker_Summary
     (foldl broker_exec (NewWithRegistry (Some sample_registry) 127) sample_broker_ops) sample_entries))"
proof -
  have "enumerates sample_entries
      (br_entries (foldl broker_exec (NewWithRegistry (Some sample_registry) 127) sample_broker_ops))"
    by (auto simp: sample_broker_entries enumerates_def sample_entries_def)
  from broker_summary_sendable [OF ar_inv_New [OF sample_registry_New] refl this this] show ?thesis by blast
qed

section \<open>Installing a connector\<close>

text \<open>
  A connector's connection is handled all or nothing.  Afterwards it is not tracked any more;
  either it is kept, the session's generation owns the registry and its transport is the link's
  current attachment, or it is closed, the link is untouched and no generation of this connection
  is left as the owner.
\<close>

lemma attach_connection_outcome:
  assumes "broker_inv (locked b)" and "link_inv l"
    and "serveAttachConnection b l h ep order locked = (b', l', keep, se)"
  shows "h \<notin> set (br_connections b') \<and>
    (if keep then lk_current l' = Some (length (lk_atts l)) \<and> (\<exists>s. se = Some s \<and> session_Current b' s)
     else h \<in> set (br_closedConns b') \<and> l' = l
          \<and> (\<forall>s r. se = Some s \<longrightarrow> br_registry b' = Some r \<longrightarrow> ar_current r = None))"
proof (cases "snd (ReadServerAttachRequest (ep_conn ep))")
  case (Inl err)
  then show ?thesis using assms(3)
    by (cases "ReadServerAttachRequest (ep_conn ep)")
       (auto simp: serveAttachConnection_def untrackConnection_def closeConn_def)
next
  case (Inr request)
  then obtain c1 where rd: "ReadServerAttachRequest (ep_conn ep) = (c1, Inr request)"
    by (cases "ReadServerAttachRequest (ep_conn ep)") auto
  show ?thesis
  proof (cases "broker_down (locked b)")
    case True
    then show ?thesis using assms(3)
      by (auto simp: serveAttachConnection_def rd Let_def untrackConnection_def closeConn_def)
  next
    case False
    then obtain r where r: "br_registry (locked b) = Some r" by (auto simp: broker_down_def)
    obtain c2 reg sh where h: "CompleteServerResumeHandshakeWithInstance c1 (Some r) (br_capabilities (locked b))
        (summary_for order) request = (c2, reg, sh)" by (metis prod_cases3)
    have "ar_inv r" using assms(1) r by (simp add: broker_inv_def)
    from complete_resume_safe [OF this h] obtain r' where r': "reg = Some r'" "ar_inv r'"
      "case sh_attachment sh of Some a \<Rightarrow> sh_err sh = None \<and> registry_Current r' a | None \<Rightarrow> sh_err sh \<noteq> None"
      by (auto split: option.splits)
    show ?thesis
    proof (cases "sh_attachment sh")
      case None
      then show ?thesis using assms(3) r' False
        by (auto simp: serveAttachConnection_def rd r h Let_def untrackConnection_def closeConn_def)
    next
      case (Some a)
      have d: "ar_current (fst (registry_Detach r' a)) = None"
        using r' Some registry_slot.detach_own by (auto simp: registry_Current_def)
      have l: "(lk_closed l \<and> link_Attach l (Some e) = (l, Inl ErrLinkClosed))
          \<or> (\<exists>l1. link_Attach l (Some e) = (l1, Inr (length (lk_atts l))) \<and> lk_current l1 = Some (length (lk_atts l)))" for e
        by (auto simp: link_Attach_def Let_def split: option.splits)
      show ?thesis using assms(3) r' Some False d l [of "ep\<lparr>ep_conn := c2\<rparr>"]
        by (auto simp: serveAttachConnection_def rd r h Let_def untrackConnection_def closeConn_def
            session_Close_def session_of_def session_Current_def broker_detach_def)
    qed
  qed
qed

lemma untrack_all:
  "length (br_connections (foldl untrackConnection b hs)) \<le> length (br_connections b)"
  "br_closedConns (foldl untrackConnection b hs) = br_closedConns b"
proof (induction hs arbitrary: b)
  case (Cons h hs)
  case 1
  have "length (br_connections (untrackConnection b h)) \<le> length (br_connections b)"
    by (simp add: untrackConnection_def removeAll_filter_not_eq)
  then show ?case using Cons(1) [of "untrackConnection b h"] by simp
  case 2
  show ?case using Cons(2) [of "untrackConnection b h"] by (simp add: untrackConnection_def)
qed simp_all

lemma accept_loop_ok:
  "length (br_connections b) \<le> maximum \<Longrightarrow> accept_loop maximum b events = (b', hs, r) \<Longrightarrow>
     length (br_connections b') \<le> maximum
     \<and> (r \<noteq> None \<longrightarrow> set (br_connections b') \<subseteq> set (br_closedConns b'))
     \<and> set (br_closedConns b) \<subseteq> set (br_closedConns b')
     \<and> (r = None \<longrightarrow> (\<forall>f h. (f, Accepted h) \<in> set events \<longrightarrow> h \<in> set hs \<union> set (br_closedConns b')))"
proof (induction maximum b events arbitrary: b' hs r rule: accept_loop.induct)
  case (2 maximum b finished ev events)
  define b0 where "b0 = foldl untrackConnection b finished"
  have b0: "length (br_connections b0) \<le> maximum" "br_closedConns b0 = br_closedConns b"
    using untrack_all [of b finished] "2.prems"(1) by (simp_all add: b0_def)
  show ?case
  proof (cases ev)
    case (AcceptError err temporary ctxErr)
    show ?thesis
    proof (cases "ctxErr = None \<and> temporary")
      case True
      with AcceptError "2.prems" have "accept_loop maximum b0 events = (b', hs, r)"
        by (simp add: b0_def)
      from "2.IH"(1) [OF b0_def AcceptError _ _ b0(1) this] True show ?thesis
        by (simp add: b0(2) AcceptError)
    next
      case False
      with AcceptError "2.prems" b0 show ?thesis
        by (auto simp: b0_def [symmetric] closeConnections_def split: option.splits if_splits)
    qed
  next
    case (Accepted h)
    show ?thesis
    proof (cases "snd (trackConnection b0 h maximum)")
      case False
      then have t: "trackConnection b0 h maximum = (b0, False)" by (auto simp: trackConnection_def split: if_splits)
      have run: "accept_loop maximum (closeConn b0 h) events = (b', hs, r)"
        using "2.prems"(2) by (simp add: b0_def [symmetric] Accepted t)
      have "length (br_connections (closeConn b0 h)) \<le> maximum" using b0 by (simp add: closeConn_def)
      from "2.IH"(3) [OF b0_def Accepted t [symmetric] _ this run] show ?thesis
        by (auto simp: Accepted closeConn_def b0(2))
    next
      case True
      then obtain b1 where t: "trackConnection b0 h maximum = (b1, True)" by (cases "trackConnection b0 h maximum") auto
      have b1: "length (br_connections b1) \<le> maximum" "br_closedConns b1 = br_closedConns b"
        using t b0 by (auto simp: trackConnection_def List.insert_def split: if_splits)
      obtain hs' where run: "accept_loop maximum b1 events = (b', hs', r)" and hs: "hs = h # hs'"
        using "2.prems"(2) by (auto simp: b0_def [symmetric] Accepted t split: prod.splits)
      from "2.IH"(2) [OF b0_def Accepted t [symmetric] _ b1(1) run] show ?thesis
        by (auto simp: Accepted hs b1(2))
    qed
  qed
qed auto

text \<open>The accept outcomes that end the loop.\<close>

fun fatal :: "acceptEvent \<Rightarrow> bool" where
  "fatal (AcceptError err temporary ctxErr) \<longleftrightarrow> ctxErr \<noteq> None \<or> \<not> temporary"
| "fatal (Accepted h) \<longleftrightarrow> False"

lemma accept_loop_ends:
  "snd (snd (accept_loop maximum b events)) \<noteq> None \<longleftrightarrow> list_ex (\<lambda>(f, ev). fatal ev) events"
proof (induction events arbitrary: b)
  case (Cons p events)
  obtain f ev where p: "p = (f, ev)" by (cases p)
  show ?case
  proof (cases ev)
    case (AcceptError err temporary ctxErr)
    then show ?thesis using Cons by (cases ctxErr) (simp_all add: p Let_def)
  next
    case (Accepted h)
    obtain b1 ok where t: "trackConnection (foldl untrackConnection b f) h maximum = (b1, ok)"
      by (cases "trackConnection (foldl untrackConnection b f) h maximum")
    show ?thesis using Cons [of "closeConn b1 h"] Cons [of b1]
      by (cases ok; cases "accept_loop maximum b1 events") (simp_all add: p Accepted t Let_def)
  qed
qed simp

text \<open>
  The broker's accept loop never tracks more connections than its limit; a connection it
  accepts is given to a handler or closed; a temporary accept error does not end it; and when it
  returns an error every connection that is still tracked has been closed.
\<close>

lemma broker_accept_loop:
  assumes "length (br_connections b) \<le> MaxConcurrentConnections"
    and "broker_Serve b False events = (b', hs, r)"
  shows "length (br_connections b') \<le> MaxConcurrentConnections
       \<and> (r \<noteq> None \<longrightarrow> set (br_connections b') \<subseteq> set (br_closedConns b'))
       \<and> (r = None \<longrightarrow> (\<forall>f h. (f, Accepted h) \<in> set events \<longrightarrow> h \<in> set hs \<union> set (br_closedConns b')))
       \<and> (list_ex (\<lambda>(f, ev). fatal ev) events \<longleftrightarrow> r \<noteq> None)"
proof -
  have run: "accept_loop MaxConcurrentConnections b events = (b', hs, r)" using assms(2) by (simp add: broker_Serve_def)
  have "list_ex (\<lambda>(f, ev). fatal ev) events \<longleftrightarrow> r \<noteq> None"
    using accept_loop_ends [of MaxConcurrentConnections b events] run by simp
  with accept_loop_ok [OF assms(1) run] show ?thesis by blast
qed

text \<open>
  Closing the broker is final: the tracked connections are closed, the attach registry is
  closed without an owner, and every later registration, state change, removal, accept and
  connection is refused and changes nothing.
\<close>

lemma broker_close_final:
  "let c = broker_Close b in
     br_closed c
     \<and> (\<not> br_closed b \<longrightarrow> set (br_connections b) \<subseteq> set (br_closedConns c)
          \<and> (case br_registry c of None \<Rightarrow> True | Some r \<Rightarrow> ar_closed r \<and> ar_current r = None))
     \<and> Register c kind = (c, Inl ErrBrokerClosed) \<and> SetState c i st = (c, Some ErrBrokerClosed)
     \<and> broker_Remove c i = (c, Some ErrBrokerClosed)
     \<and> broker_Accept c rw order during = (c, rw, Inl ErrBrokerClosed)
     \<and> trackConnection c h n = (c, False) \<and> broker_Close c = c"
  by (auto simp: Let_def broker_Close_def closeConnections_def Register_def SetState_def broker_Remove_def
      broker_Accept_def trackConnection_def broker_down_def registry_Close_def split: option.splits)

end
