(* ===== verification/RelayClient.thy ===== *)
theory RelayClient
  imports FlowWindow Registry
begin

text \<open>
  The WSL side of the relay (src/internal/relay/client.go).  Like the server, the client keeps its
  objects in registries, so an object that left its map is still there for the goroutines that
  hold it.  A buffered channel of size one with its \<open>sync.Once\<close> is an option with a flag.  A call
  that blocks is split where it waits: the part before, and the part after with what its \<open>select\<close>
  chose.  Wherever the code iterates over a map the keys are an argument.
\<close>

section \<open>The frame transport\<close>

text \<open>
  \<open>ct_script\<close> lists the coming transport writes: the error, and what the \<open>select\<close> after a detached
  write returned (the client was closed or the context ended), if anything.  Past its end every
  valid frame is written.  A frame that fails validation is reported as detached again and again,
  which only the closing of the client ends.  \<open>ct_sent\<close> logs the frames that went out, \<open>ct_tried\<close>
  those that were handed to \<open>writeContext\<close>.
\<close>

record ctransport =
  ct_attached :: bool
  ct_script :: "(goerr option \<times> goerr option) list"
  ct_sent :: "Frame list"
  ct_tried :: "Frame list"

fun cwrite_attached :: "(goerr option \<times> goerr option) list \<Rightarrow> Frame
    \<Rightarrow> (goerr option \<times> goerr option) list \<times> goerr option" where
  "cwrite_attached [] f = ([], case Validate f of None \<Rightarrow> None | Some e \<Rightarrow> Some ErrClientClosed)"
| "cwrite_attached ((outcome, stop) # rest) f =
     (case (case Validate f of Some e \<Rightarrow> Some (ErrJoined ErrDetached e) | None \<Rightarrow> outcome) of
        None \<Rightarrow> (rest, None)
      | Some e \<Rightarrow>
          if \<not> err_is e ErrDetached then (rest, Some e)
          else (case stop of Some why \<Rightarrow> (rest, Some why) | None \<Rightarrow> cwrite_attached rest f))"

fun cwrite_direct :: "(goerr option \<times> goerr option) list \<Rightarrow> Frame
    \<Rightarrow> (goerr option \<times> goerr option) list \<times> goerr option" where
  "cwrite_direct script f =
     (case Validate f of
        Some e \<Rightarrow> (script, Some e)
      | None \<Rightarrow> (case script of [] \<Rightarrow> ([], None) | (outcome, stop) # rest \<Rightarrow> (rest, outcome)))"

section \<open>State\<close>

record streamEvent =
  se_data :: bytes
  se_err :: "goerr option"

record clientStream =
  cs_id :: u32
  cs_target :: bytes
  cs_incoming :: "streamEvent list"
  cs_openDone :: "goerr option option"
  cs_openOnce :: bool
  cs_closeOnce :: bool
  cs_closedRemote :: bool
  cs_readEOF :: bool
  cs_readBuf :: bytes
  cs_readDeadline :: "nat option"
  cs_writeDeadline :: "nat option"
  cs_deadlineChanged :: nat
  cs_terminalErr :: "goerr option"
  cs_window :: flowWindow
  cs_done :: bool
  cs_halfCloseOnce :: bool

abbreviation clientQueueSize :: nat where "clientQueueSize \<equiv> 10"

definition newClientStream :: "u32 \<Rightarrow> bytes \<Rightarrow> clientStream" where
  "newClientStream i target =
     \<lparr>cs_id = i, cs_target = target, cs_incoming = [], cs_openDone = None, cs_openOnce = False,
      cs_closeOnce = False, cs_closedRemote = False, cs_readEOF = False, cs_readBuf = [],
      cs_readDeadline = None, cs_writeDeadline = None, cs_deadlineChanged = 0, cs_terminalErr = None,
      cs_window = newFlowWindow, cs_done = False, cs_halfCloseOnce = False\<rparr>"

record packetEvent =
  pe_endpoint :: bytes
  pe_data :: bytes
  pe_err :: "goerr option"

record clientPacketConn =
  cp_id :: u32
  cp_ready :: "goerr option option"
  cp_readyOnce :: bool
  cp_incoming :: "packetEvent list"
  cp_closeOnce :: bool
  cp_done :: bool
  cp_terminalErr :: "goerr option"
  cp_readDeadline :: "nat option"
  cp_writeDeadline :: "nat option"
  cp_deadlineChanged :: nat

definition newPacketConn :: "u32 \<Rightarrow> clientPacketConn" where
  "newPacketConn i =
     \<lparr>cp_id = i, cp_ready = None, cp_readyOnce = False, cp_incoming = [], cp_closeOnce = False,
      cp_done = False, cp_terminalErr = None, cp_readDeadline = None, cp_writeDeadline = None,
      cp_deadlineChanged = 0\<rparr>"

record clientListener =
  cl_id :: u32
  cl_requestedAddress :: bytes
  cl_boundAddress :: bytes
  cl_target :: bytes
  cl_cancelled :: bool
  cl_ready :: "bytes result option"
  cl_readyOnce :: bool
  cl_once :: bool

definition newClientListener :: "u32 \<Rightarrow> bytes \<Rightarrow> bytes \<Rightarrow> clientListener" where
  "newClientListener i windowsAddr target =
     \<lparr>cl_id = i, cl_requestedAddress = windowsAddr, cl_boundAddress = [], cl_target = target,
      cl_cancelled = False, cl_ready = None, cl_readyOnce = False, cl_once = False\<rparr>"

record reverseDatagramFlow =
  fl_key :: bytes
  fl_remote :: bytes
  fl_conn :: nat
  fl_closed :: bool

record clientReverseDatagram =
  cr_id :: u32
  cr_requestedAddress :: bytes
  cr_boundAddress :: bytes
  cr_target :: bytes
  cr_cancelled :: bool
  cr_ready :: "bytes result option"
  cr_readyOnce :: bool
  cr_incoming :: "bytes list"
  cr_done :: bool
  cr_closeOnce :: bool
  cr_flows :: "bytes \<rightharpoonup> nat"
  cr_flowObjs :: "reverseDatagramFlow list"

definition newClientReverseDatagram :: "u32 \<Rightarrow> bytes \<Rightarrow> bytes \<Rightarrow> clientReverseDatagram" where
  "newClientReverseDatagram i requestedAddress target =
     \<lparr>cr_id = i, cr_requestedAddress = requestedAddress, cr_boundAddress = [], cr_target = target,
      cr_cancelled = False, cr_ready = None, cr_readyOnce = False, cr_incoming = [], cr_done = False,
      cr_closeOnce = False, cr_flows = Map.empty, cr_flowObjs = []\<rparr>"

type_synonym helloResult = "(u64 \<times> u64) result"

record client =
  cc_streams :: "clientStream reg"
  cc_listeners :: "clientListener reg"
  cc_datagrams :: "clientPacketConn reg"
  cc_reverse :: "clientReverseDatagram reg"
  cc_nextID :: u32
  cc_closed :: bool
  cc_closeErr :: "goerr option"
  cc_transportClosed :: bool
  cc_running :: bool
  cc_helloDone :: "helloResult option"
  cc_helloOnce :: bool
  cc_peerCapabilities :: u64
  cc_peerInstanceID :: u64
  cc_handshakeComplete :: bool
  cc_tx :: ctransport
  cc_inbound :: "(nat \<times> nat) list"
  cc_closedFlows :: "nat list"
  cc_cleared :: bool
  cc_arriving :: "(u32 \<times> nat \<times> bytes) option"

text \<open>
  \<open>cc_inbound\<close> lists the \<open>acceptInbound\<close> goroutines by listener and stream object;
  \<open>cc_closedFlows\<close> logs the closed flow sockets.  \<open>cc_cleared\<close> says that \<open>fail\<close> has emptied the maps, which
  it does after it has closed the channel \<open>closed\<close>.  \<open>cc_arriving\<close> is the inbound stream (its id, the object of
  its listener and the target) for which the reader is between the two lock sections of \<open>dispatch\<close>.
\<close>

definition NewClient :: "bool \<Rightarrow> client" where
  "NewClient attached =
     \<lparr>cc_streams = reg_empty, cc_listeners = reg_empty, cc_datagrams = reg_empty, cc_reverse = reg_empty,
      cc_nextID = - 1, cc_closed = False, cc_closeErr = None, cc_transportClosed = False,
      cc_running = False, cc_helloDone = None, cc_helloOnce = False, cc_peerCapabilities = 0,
      cc_peerInstanceID = 0, cc_handshakeComplete = False,
      cc_tx = \<lparr>ct_attached = attached, ct_script = [], ct_sent = [], ct_tried = []\<rparr>, cc_inbound = [], cc_closedFlows = [],
      cc_cleared = False, cc_arriving = None\<rparr>"

definition cframe :: "byte \<Rightarrow> u32 \<Rightarrow> bytes \<Rightarrow> Frame" where
  "cframe kind i payload = \<lparr>fType = kind, fStreamID = i, fPayload = payload\<rparr>"

definition client_write :: "client \<Rightarrow> Frame \<Rightarrow> client \<times> goerr option" where
  "client_write c f =
     (let t = cc_tx c in
      case (if ct_attached t then cwrite_attached (ct_script t) f else cwrite_direct (ct_script t) f) of
        (script, err) \<Rightarrow>
          (c\<lparr>cc_tx := t\<lparr>ct_script := script,
                        ct_sent := (if err = None then ct_sent t @ [f] else ct_sent t),
                        ct_tried := ct_tried t @ [f]\<rparr>\<rparr>, err))"

text \<open>\<open>writeClose\<close> bounds the attempt by a timeout and ignores the result.\<close>

definition writeClose :: "client \<Rightarrow> Frame \<Rightarrow> client" where
  "writeClose c f = fst (client_write c f)"

definition nextStreamID :: "client \<Rightarrow> client \<times> u32" where
  "nextStreamID c = (c\<lparr>cc_nextID := cc_nextID c + 2\<rparr>, cc_nextID c + 2)"

section \<open>Handshake\<close>

definition missingCapabilities :: "u64 \<Rightarrow> u64 \<Rightarrow> bool" where
  "missingCapabilities capabilities required \<longleftrightarrow> and capabilities required \<noteq> required"

definition capabilityError :: "u64 \<Rightarrow> u64 \<Rightarrow> goerr option" where
  "capabilityError capabilities required =
     (if missingCapabilities capabilities required
      then Some (ErrWrapped (error_text ErrMissingCapabilities @ str '': required 0x'' @ hexadecimal (unat required)
                             @ str '', peer 0x'' @ hexadecimal (unat capabilities)) ErrMissingCapabilities)
      else None)"

datatype helloWait = HelloArrived | HelloCtx goerr | HelloClosed

text \<open>\<open>Handshake\<close> up to the wait: \<open>Inl\<close> is its answer, \<open>Inr\<close> means that it waits.\<close>

definition Handshake_begin :: "client \<Rightarrow> u64 \<Rightarrow> client \<times> (u64 \<times> goerr option) option" where
  "Handshake_begin c required =
     (if cc_handshakeComplete c
      then (c, Some (cc_peerCapabilities c, capabilityError (cc_peerCapabilities c) required))
      else case client_write c (cframe TypeHello 0 (EncodeCapabilities required)) of
        (c1, Some err) \<Rightarrow> (c1, Some (0, Some err))
      | (c1, None) \<Rightarrow> (c1, None))"

definition Handshake_finish :: "client \<Rightarrow> u64 \<Rightarrow> helloWait \<Rightarrow> (client \<times> u64 \<times> goerr option) option" where
  "Handshake_finish c required w =
     (case w of
        HelloArrived \<Rightarrow>
          (case cc_helloDone c of
             None \<Rightarrow> None
           | Some (Inl err) \<Rightarrow> Some (c\<lparr>cc_helloDone := None\<rparr>, 0, Some err)
           | Some (Inr (capabilities, instanceID)) \<Rightarrow>
               Some (c\<lparr>cc_helloDone := None, cc_peerCapabilities := capabilities, cc_handshakeComplete := True,
                       cc_peerInstanceID := instanceID\<rparr>, capabilities,
                     capabilityError capabilities required))
      | HelloCtx err \<Rightarrow> Some (c, 0, Some err)
      | HelloClosed \<Rightarrow> if cc_closed c then Some (c, 0, Some ErrClientClosed) else None)"

definition Rehandshake_begin :: "client \<Rightarrow> u64 \<Rightarrow> client \<times> (u64 \<times> goerr option) option" where
  "Rehandshake_begin c required =
     Handshake_begin (c\<lparr>cc_handshakeComplete := False, cc_peerCapabilities := 0, cc_peerInstanceID := 0,
                        cc_helloDone := None, cc_helloOnce := False\<rparr>) required"

definition PeerInstanceID :: "client \<Rightarrow> u64" where
  "PeerInstanceID c = cc_peerInstanceID c"

section \<open>Failing objects\<close>

definition stream_openDone :: "goerr option \<Rightarrow> clientStream \<Rightarrow> clientStream" where
  "stream_openDone r s = (if cs_openOnce s then s else s\<lparr>cs_openOnce := True, cs_openDone := Some r\<rparr>)"

definition stream_fail :: "goerr \<Rightarrow> clientStream \<Rightarrow> clientStream" where
  "stream_fail err s =
     (let s1 = stream_openDone (Some err) s;
          s2 = (if cs_terminalErr s1 = None then s1\<lparr>cs_terminalErr := Some err\<rparr> else s1);
          s3 = s2\<lparr>cs_done := True\<rparr>
      in if cs_closedRemote s3 then s3
         else (if length (cs_incoming s3) < clientQueueSize
               then s3\<lparr>cs_closedRemote := True, cs_incoming := cs_incoming s3 @ [\<lparr>se_data = [], se_err = Some err\<rparr>]\<rparr>
               else s3\<lparr>cs_closedRemote := True\<rparr>))"

definition stream_terminalError :: "clientStream \<Rightarrow> goerr" where
  "stream_terminalError s = (case cs_terminalErr s of None \<Rightarrow> IoEOF | Some e \<Rightarrow> e)"

definition packet_ready :: "goerr option \<Rightarrow> clientPacketConn \<Rightarrow> clientPacketConn" where
  "packet_ready r p = (if cp_readyOnce p then p else p\<lparr>cp_readyOnce := True, cp_ready := Some r\<rparr>)"

definition packet_fail :: "goerr \<Rightarrow> clientPacketConn \<Rightarrow> clientPacketConn" where
  "packet_fail err p =
     (let p1 = packet_ready (Some err) p;
          p2 = (if cp_terminalErr p1 = None then p1\<lparr>cp_terminalErr := Some err\<rparr> else p1);
          p3 = p2\<lparr>cp_done := True\<rparr>
      in if length (cp_incoming p3) < datagramQueueDepth
         then p3\<lparr>cp_incoming := cp_incoming p3 @ [\<lparr>pe_endpoint = [], pe_data = [], pe_err = Some err\<rparr>]\<rparr>
         else p3)"

definition packet_terminalError :: "clientPacketConn \<Rightarrow> goerr" where
  "packet_terminalError p = (case cp_terminalErr p of None \<Rightarrow> IoEOF | Some e \<Rightarrow> e)"

definition removeStream :: "client \<Rightarrow> u32 \<Rightarrow> client" where
  "removeStream c i = c\<lparr>cc_streams := reg_delete (cc_streams c) i\<rparr>"

definition client_removeDatagram :: "client \<Rightarrow> u32 \<Rightarrow> client" where
  "client_removeDatagram c i = c\<lparr>cc_datagrams := reg_delete (cc_datagrams c) i\<rparr>"

definition client_removeReverseDatagram :: "client \<Rightarrow> u32 \<Rightarrow> client" where
  "client_removeReverseDatagram c i = c\<lparr>cc_reverse := reg_delete (cc_reverse c) i\<rparr>"

definition client_removeListener :: "client \<Rightarrow> u32 \<Rightarrow> client" where
  "client_removeListener c i = c\<lparr>cc_listeners := reg_delete (cc_listeners c) i\<rparr>"

definition listener_invalidate :: "client \<Rightarrow> nat \<Rightarrow> client" where
  "listener_invalidate c k =
     (case objs (cc_listeners c) k of
        None \<Rightarrow> c
      | Some l \<Rightarrow>
          if cl_once l then c
          else client_removeListener
                 (c\<lparr>cc_listeners := reg_update (cc_listeners c) k (\<lambda>l. l\<lparr>cl_once := True, cl_cancelled := True\<rparr>)\<rparr>)
                 (cl_id l))"

text \<open>The common part of \<open>clientReverseDatagram.fail\<close> and \<open>Close\<close>: it runs once.\<close>

definition open_flows :: "clientReverseDatagram \<Rightarrow> nat list" where
  "open_flows r = [fl_conn f. (x, f) \<leftarrow> enumerate 0 (cr_flowObjs r), \<not> fl_closed f, cr_flows r (fl_key f) = Some x]"

definition reverse_shut :: "clientReverseDatagram \<Rightarrow> clientReverseDatagram" where
  "reverse_shut r =
     r\<lparr>cr_done := True, cr_closeOnce := True, cr_cancelled := True,
       cr_flowObjs := map (\<lambda>(x, f). if cr_flows r (fl_key f) = Some x then f\<lparr>fl_closed := True\<rparr> else f)
                        (enumerate 0 (cr_flowObjs r)),
       cr_flows := Map.empty\<rparr>"

definition reverse_close_once :: "client \<Rightarrow> nat \<Rightarrow> client \<times> bool" where
  "reverse_close_once c k =
     (case objs (cc_reverse c) k of
        None \<Rightarrow> (c, False)
      | Some r \<Rightarrow>
          if cr_closeOnce r then (c, False)
          else (client_removeReverseDatagram
                  (c\<lparr>cc_reverse := reg_update (cc_reverse c) k reverse_shut,
                     cc_closedFlows := cc_closedFlows c @ open_flows r\<rparr>) (cr_id r), True))"

definition reverse_ready :: "bytes result \<Rightarrow> clientReverseDatagram \<Rightarrow> clientReverseDatagram" where
  "reverse_ready x r = (if cr_readyOnce r then r else r\<lparr>cr_readyOnce := True, cr_ready := Some x\<rparr>)"

definition reverse_fail :: "client \<Rightarrow> nat \<Rightarrow> goerr \<Rightarrow> client" where
  "reverse_fail c k err =
     fst (reverse_close_once (c\<lparr>cc_reverse := reg_update (cc_reverse c) k (reverse_ready (Inl err))\<rparr>) k)"

text \<open>
  \<open>fail\<close> and \<open>ResetPeerState\<close> take every object out of the maps and then fail it; the objects are
  given in the order of the map iterations.
\<close>

record clientObjects =
  co_streams :: "nat list"
  co_listeners :: "nat list"
  co_datagrams :: "nat list"
  co_reverse :: "nat list"

definition fail_objects :: "client \<Rightarrow> clientObjects \<Rightarrow> goerr \<Rightarrow> client" where
  "fail_objects c os err =
     (let c1 = c\<lparr>cc_streams := (cc_streams c)\<lparr>ids := Map.empty\<rparr>, cc_listeners := (cc_listeners c)\<lparr>ids := Map.empty\<rparr>,
                 cc_datagrams := (cc_datagrams c)\<lparr>ids := Map.empty\<rparr>, cc_reverse := (cc_reverse c)\<lparr>ids := Map.empty\<rparr>\<rparr>;
          c2 = foldl (\<lambda>c k. c\<lparr>cc_streams := reg_update (cc_streams c) k (stream_fail err)\<rparr>) c1 (co_streams os);
          c3 = foldl listener_invalidate c2 (co_listeners os);
          c4 = foldl (\<lambda>c k. c\<lparr>cc_datagrams := reg_update (cc_datagrams c) k (packet_fail err)\<rparr>) c3 (co_datagrams os)
      in foldl (\<lambda>c k. reverse_fail c k err) c4 (co_reverse os))"

definition ResetPeerState :: "client \<Rightarrow> clientObjects \<Rightarrow> goerr option \<Rightarrow> client" where
  "ResetPeerState c os cause =
     fail_objects c os (case cause of None \<Rightarrow> ErrPeerRestarted | Some e \<Rightarrow> e)"

definition hello_result :: "helloResult \<Rightarrow> client \<Rightarrow> client" where
  "hello_result r c = (if cc_helloOnce c then c else c\<lparr>cc_helloOnce := True, cc_helloDone := Some r\<rparr>)"

text \<open>
  \<open>fail\<close> first closes the channel \<open>closed\<close> and answers the handshake, and then takes the lock to empty the maps; other
  goroutines may run in between.
\<close>

definition fail_mark :: "client \<Rightarrow> goerr \<Rightarrow> client" where
  "fail_mark c err = hello_result (Inl err) (c\<lparr>cc_closeErr := Some err, cc_closed := True\<rparr>)"

definition fail_clear :: "client \<Rightarrow> clientObjects \<Rightarrow> goerr \<Rightarrow> client" where
  "fail_clear c os err = fail_objects (c\<lparr>cc_cleared := True\<rparr>) os err"

definition client_fail :: "client \<Rightarrow> clientObjects \<Rightarrow> goerr \<Rightarrow> client" where
  "client_fail c os err = (if cc_closed c then c else fail_clear (fail_mark c err) os err)"

definition closeTransport :: "client \<Rightarrow> client" where
  "closeTransport c = c\<lparr>cc_transportClosed := True\<rparr>"

definition client_Close :: "client \<Rightarrow> clientObjects \<Rightarrow> client \<times> goerr option" where
  "client_Close c os = (let c1 = closeTransport (client_fail c os ErrClientClosed) in (c1, cc_closeErr c1))"

section \<open>Opening objects\<close>

text \<open>What ended the wait of an open call; \<open>WaitClosed\<close> is possible only once the client is closed.\<close>

datatype openWait = WaitReady | WaitCtx goerr | WaitClosed

definition OpenPacketContext_begin :: "client \<Rightarrow> client \<times> (u32 \<times> nat) result" where
  "OpenPacketContext_begin c0 =
     (case nextStreamID c0 of (c, i) \<Rightarrow>
        if cc_closed c then (c, Inl ErrClientClosed)
        else if MaxConcurrentDatagrams \<le> reg_count (cc_datagrams c)
        then (c, Inl (resourceLimitError (str ''UDP associations'') MaxConcurrentDatagrams))
        else
          let k = nextobj (cc_datagrams c);
              c1 = c\<lparr>cc_datagrams := reg_insert (cc_datagrams c) i (newPacketConn i)\<rparr>
          in (case client_write c1 (cframe TypeDatagramOpen i []) of
                (c2, Some err) \<Rightarrow> (client_removeDatagram c2 i, Inl err)
              | (c2, None) \<Rightarrow> (c2, Inr (i, k))))"

definition packet_Close :: "client \<Rightarrow> nat \<Rightarrow> client" where
  "packet_Close c k =
     (case objs (cc_datagrams c) k of
        None \<Rightarrow> c
      | Some p \<Rightarrow>
          if cp_closeOnce p then c
          else
            let c1 = c\<lparr>cc_datagrams := reg_update (cc_datagrams c) k (\<lambda>p. p\<lparr>cp_closeOnce := True\<rparr>)\<rparr>;
                c2 = client_removeDatagram c1 (cp_id p);
                c3 = c2\<lparr>cc_datagrams := reg_update (cc_datagrams c2) k (packet_fail IoEOF)\<rparr>
            in writeClose c3 (cframe TypeDatagramClose (cp_id p) []))"

definition OpenPacketContext_finish :: "client \<Rightarrow> u32 \<Rightarrow> nat \<Rightarrow> openWait \<Rightarrow> (client \<times> nat result) option" where
  "OpenPacketContext_finish c i k w =
     (case w of
        WaitReady \<Rightarrow>
          (case map_option cp_ready (objs (cc_datagrams c) k) of
             Some (Some r) \<Rightarrow>
               let c1 = c\<lparr>cc_datagrams := reg_update (cc_datagrams c) k (\<lambda>p. p\<lparr>cp_ready := None\<rparr>)\<rparr> in
               (case r of
                  Some err \<Rightarrow> Some (client_removeDatagram c1 i, Inl err)
                | None \<Rightarrow> Some (c1, Inr k))
           | _ \<Rightarrow> None)
      | WaitCtx err \<Rightarrow> Some (packet_Close c k, Inl err)
      | WaitClosed \<Rightarrow> if cc_closed c then Some (c, Inl ErrClientClosed) else None)"

definition DialContext_begin :: "client \<Rightarrow> bytes \<Rightarrow> client \<times> (u32 \<times> nat) result" where
  "DialContext_begin c0 target =
     (if length target = 0 \<or> MaxTargetSize < length target
      then (c0, Inl (ErrText (str ''invalid target length'')))
      else case nextStreamID c0 of (c, i) \<Rightarrow>
        if cc_closed c then (c, Inl ErrClientClosed)
        else if MaxConcurrentStreams \<le> reg_count (cc_streams c)
        then (c, Inl (resourceLimitError (str ''TCP streams'') MaxConcurrentStreams))
        else
          let k = nextobj (cc_streams c);
              c1 = c\<lparr>cc_streams := reg_insert (cc_streams c) i (newClientStream i target)\<rparr>
          in (case client_write c1 (cframe TypeOpen i target) of
                (c2, Some err) \<Rightarrow> (removeStream c2 i, Inl err)
              | (c2, None) \<Rightarrow> (c2, Inr (i, k))))"

definition stream_Close :: "client \<Rightarrow> nat \<Rightarrow> client" where
  "stream_Close c k =
     (case objs (cc_streams c) k of
        None \<Rightarrow> c
      | Some s \<Rightarrow>
          if cs_closeOnce s then c
          else
            let c1 = c\<lparr>cc_streams := reg_update (cc_streams c) k (\<lambda>s. s\<lparr>cs_closeOnce := True\<rparr>)\<rparr>;
                c2 = removeStream c1 (cs_id s);
                c3 = c2\<lparr>cc_streams := reg_update (cc_streams c2) k (stream_fail IoEOF)\<rparr>
            in writeClose c3 (cframe TypeClose (cs_id s) []))"

definition DialContext_finish :: "client \<Rightarrow> u32 \<Rightarrow> nat \<Rightarrow> openWait \<Rightarrow> (client \<times> nat result) option" where
  "DialContext_finish c i k w =
     (case w of
        WaitReady \<Rightarrow>
          (case map_option cs_openDone (objs (cc_streams c) k) of
             Some (Some r) \<Rightarrow>
               let c1 = c\<lparr>cc_streams := reg_update (cc_streams c) k (\<lambda>s. s\<lparr>cs_openDone := None\<rparr>)\<rparr> in
               (case r of
                  Some err \<Rightarrow> Some (removeStream c1 i, Inl err)
                | None \<Rightarrow> Some (c1, Inr k))
           | _ \<Rightarrow> None)
      | WaitCtx err \<Rightarrow> Some (stream_Close c k, Inl err)
      | WaitClosed \<Rightarrow> if cc_closed c then Some (c, Inl ErrClientClosed) else None)"

definition listener_Close :: "client \<Rightarrow> nat \<Rightarrow> client" where
  "listener_Close c k =
     (case objs (cc_listeners c) k of
        None \<Rightarrow> c
      | Some l \<Rightarrow>
          if cl_once l then c
          else writeClose (listener_invalidate c k) (cframe TypeListenClose (cl_id l) []))"

text \<open>\<open>listenerCancel()\<close> on the paths that give the listener up.\<close>

definition listener_cancel :: "client \<Rightarrow> nat \<Rightarrow> client" where
  "listener_cancel c k = c\<lparr>cc_listeners := reg_update (cc_listeners c) k (\<lambda>l. l\<lparr>cl_cancelled := True\<rparr>)\<rparr>"

definition ReserveReverseForward_begin :: "client \<Rightarrow> bytes \<Rightarrow> bytes \<Rightarrow> client \<times> (u32 \<times> nat) result" where
  "ReserveReverseForward_begin c0 windowsAddr target =
     (if windowsAddr = [] \<or> target = [] \<or> MaxTargetSize < length windowsAddr \<or> MaxTargetSize < length target
      then (c0, Inl (ErrText (str ''invalid reverse-forward address'')))
      else case nextStreamID c0 of (c, i) \<Rightarrow>
        if cc_closed c then (c, Inl ErrClientClosed)
        else if MaxConcurrentListeners \<le> reg_count (cc_listeners c)
        then (c, Inl (resourceLimitError (str ''TCP listeners'') MaxConcurrentListeners))
        else
          let k = nextobj (cc_listeners c);
              c1 = c\<lparr>cc_listeners := reg_insert (cc_listeners c) i (newClientListener i windowsAddr target)\<rparr>
          in (case client_write c1 (cframe TypeListenOpen i windowsAddr) of
                (c2, Some err) \<Rightarrow> (client_removeListener (listener_cancel c2 k) i, Inl err)
              | (c2, None) \<Rightarrow> (c2, Inr (i, k))))"

definition ReserveReverseForward_finish ::
  "client \<Rightarrow> u32 \<Rightarrow> nat \<Rightarrow> openWait \<Rightarrow> (client \<times> nat result) option" where
  "ReserveReverseForward_finish c i k w =
     (case w of
        WaitReady \<Rightarrow>
          (case map_option cl_ready (objs (cc_listeners c) k) of
             Some (Some (Inl err)) \<Rightarrow>
               Some (client_removeListener (listener_cancel
                 (c\<lparr>cc_listeners := reg_update (cc_listeners c) k (\<lambda>l. l\<lparr>cl_ready := None\<rparr>)\<rparr>) k) i, Inl err)
           | Some (Some (Inr address)) \<Rightarrow>
               Some (c\<lparr>cc_listeners := reg_update (cc_listeners c) k
                       (\<lambda>l. l\<lparr>cl_ready := None, cl_boundAddress := address\<rparr>)\<rparr>, Inr k)
           | _ \<Rightarrow> None)
      | WaitCtx err \<Rightarrow> Some (listener_Close c k, Inl err)
      | WaitClosed \<Rightarrow> if cc_closed c then Some (listener_cancel c k, Inl ErrClientClosed) else None)"

record ReverseReservation =
  rr_listener :: nat
  rr_commitOnce :: bool
  rr_commitErr :: "goerr option"

definition reservation_Commit :: "client \<Rightarrow> ReverseReservation \<Rightarrow> client \<times> ReverseReservation \<times> goerr option" where
  "reservation_Commit c r =
     (if rr_commitOnce r then (c, r, rr_commitErr r)
      else case objs (cc_listeners c) (rr_listener r) of
        None \<Rightarrow> (c, r, Some GoPanic)
      | Some l \<Rightarrow>
          (case client_write c (cframe TypeListenCommit (cl_id l) []) of (c1, err) \<Rightarrow>
             (c1, r\<lparr>rr_commitOnce := True, rr_commitErr := err\<rparr>, err)))"

definition reservation_Close :: "client \<Rightarrow> ReverseReservation \<Rightarrow> client" where
  "reservation_Close c r = listener_Close c (rr_listener r)"

definition reservation_BoundAddress :: "client \<Rightarrow> ReverseReservation \<Rightarrow> bytes option" where
  "reservation_BoundAddress c r = map_option cl_boundAddress (objs (cc_listeners c) (rr_listener r))"

text \<open>\<open>ReverseForward\<close> after the reservation was obtained.\<close>

definition ReverseForward_finish :: "client \<Rightarrow> nat result \<Rightarrow> client \<times> ReverseReservation result" where
  "ReverseForward_finish c reserved =
     (case reserved of
        Inl err \<Rightarrow> (c, Inl err)
      | Inr k \<Rightarrow>
          (case reservation_Commit c \<lparr>rr_listener = k, rr_commitOnce = False, rr_commitErr = None\<rparr> of
             (c1, r, Some err) \<Rightarrow> (reservation_Close c1 r, Inl err)
           | (c1, r, None) \<Rightarrow> (c1, Inr r)))"

definition reverse_Close :: "client \<Rightarrow> nat \<Rightarrow> client" where
  "reverse_Close c k =
     (case objs (cc_reverse c) k of
        None \<Rightarrow> c
      | Some r \<Rightarrow>
          (case reverse_close_once c k of
             (c1, True) \<Rightarrow> writeClose c1 (cframe TypeListenDatagramClose (cr_id r) [])
           | (c1, False) \<Rightarrow> c1))"

definition reverse_cancel :: "client \<Rightarrow> nat \<Rightarrow> client" where
  "reverse_cancel c k = c\<lparr>cc_reverse := reg_update (cc_reverse c) k (\<lambda>r. r\<lparr>cr_cancelled := True\<rparr>)\<rparr>"

text \<open>\<open>resolve\<close> is \<open>netutil.ResolveUDPAddr\<close> applied to the target.\<close>

definition ReverseDatagramForward_begin ::
  "(bytes \<Rightarrow> bytes result) \<Rightarrow> client \<Rightarrow> bytes \<Rightarrow> bytes \<Rightarrow> client \<times> (u32 \<times> nat) result" where
  "ReverseDatagramForward_begin resolve c0 windowsAddr target =
     (if windowsAddr = [] \<or> target = [] \<or> MaxTargetSize < length windowsAddr \<or> MaxTargetSize < length target
      then (c0, Inl (ErrText (str ''invalid reverse datagram address'')))
      else case resolve target of
        Inl err \<Rightarrow>
          (c0, Inl (ErrWrapped (str ''resolve reverse datagram target: '' @ error_text err) err))
      | Inr targetAddr \<Rightarrow>
          (case nextStreamID c0 of (c, i) \<Rightarrow>
             if cc_closed c then (c, Inl ErrClientClosed)
             else if MaxConcurrentReverseDatagrams \<le> reg_count (cc_reverse c)
             then (c, Inl (resourceLimitError (str ''reverse UDP listeners'') MaxConcurrentReverseDatagrams))
             else
               let k = nextobj (cc_reverse c);
                   c1 = c\<lparr>cc_reverse := reg_insert (cc_reverse c) i (newClientReverseDatagram i windowsAddr targetAddr)\<rparr>
               in (case client_write c1 (cframe TypeListenDatagramOpen i windowsAddr) of
                     (c2, Some err) \<Rightarrow> (client_removeReverseDatagram (reverse_cancel c2 k) i, Inl err)
                   | (c2, None) \<Rightarrow> (c2, Inr (i, k)))))"

definition ReverseDatagramForward_finish ::
  "client \<Rightarrow> u32 \<Rightarrow> nat \<Rightarrow> openWait \<Rightarrow> (client \<times> nat result) option" where
  "ReverseDatagramForward_finish c i k w =
     (case w of
        WaitReady \<Rightarrow>
          (case map_option cr_ready (objs (cc_reverse c) k) of
             Some (Some (Inl err)) \<Rightarrow>
               Some (client_removeReverseDatagram (reverse_cancel
                 (c\<lparr>cc_reverse := reg_update (cc_reverse c) k (\<lambda>r. r\<lparr>cr_ready := None\<rparr>)\<rparr>) k) i, Inl err)
           | Some (Some (Inr address)) \<Rightarrow>
               Some (c\<lparr>cc_reverse := reg_update (cc_reverse c) k
                       (\<lambda>r. r\<lparr>cr_ready := None, cr_boundAddress := address\<rparr>)\<rparr>, Inr k)
           | _ \<Rightarrow> None)
      | WaitCtx err \<Rightarrow> Some (reverse_Close c k, Inl err)
      | WaitClosed \<Rightarrow> if cc_closed c then Some (c, Inl ErrClientClosed) else None)"

section \<open>Dispatch\<close>

definition packet_handle :: "client \<Rightarrow> nat \<Rightarrow> Frame \<Rightarrow> client" where
  "packet_handle c k f =
     (let upd = (\<lambda>g. c\<lparr>cc_datagrams := reg_update (cc_datagrams c) k g\<rparr>) in
      if fType f = TypeDatagramOK then upd (packet_ready None)
      else if fType f = TypeDatagramError then
        (let err = ErrText (fPayload f) in upd (\<lambda>p. packet_fail err (packet_ready (Some err) p)))
      else if fType f = TypeDatagramData then
        (case DecodeDatagram (fPayload f) of
           Inl err \<Rightarrow> upd (packet_fail err)
         | Inr (endpoint, data) \<Rightarrow>
             upd (\<lambda>p. if length (cp_incoming p) < datagramQueueDepth
                      then p\<lparr>cp_incoming := cp_incoming p @ [\<lparr>pe_endpoint = endpoint, pe_data = data, pe_err = None\<rparr>]\<rparr>
                      else p))
      else if fType f = TypeDatagramClose then upd (packet_fail IoEOF)
      else c)"

definition listener_ready :: "bytes result \<Rightarrow> clientListener \<Rightarrow> clientListener" where
  "listener_ready x l = (if cl_readyOnce l then l else l\<lparr>cl_readyOnce := True, cl_ready := Some x\<rparr>)"

definition reverse_handle :: "client \<Rightarrow> nat \<Rightarrow> Frame \<Rightarrow> client" where
  "reverse_handle c k f =
     (let upd = (\<lambda>g. c\<lparr>cc_reverse := reg_update (cc_reverse c) k g\<rparr>) in
      if fType f = TypeListenDatagramOK then
        upd (\<lambda>r. reverse_ready (Inr (if fPayload f = [] then cr_requestedAddress r else fPayload f)) r)
      else if fType f = TypeListenDatagramError then
        (let err = ErrText (fPayload f) in reverse_fail (upd (reverse_ready (Inl err))) k err)
      else if fType f = TypeListenDatagramClose then reverse_fail c k IoEOF
      else if fType f = TypeListenDatagramData then
        upd (\<lambda>r. if length (cr_incoming r) < datagramQueueDepth
                 then r\<lparr>cr_incoming := cr_incoming r @ [fPayload f]\<rparr> else r)
      else c)"

text \<open>
  \<open>clientStream.handle\<close>.  In the DATA branch the queue takes the event while it has room.
\<close>

definition stream_handle :: "client \<Rightarrow> nat \<Rightarrow> clientStream \<Rightarrow> Frame \<Rightarrow> client" where
  "stream_handle c k s f =
     (let upd = (\<lambda>c g. c\<lparr>cc_streams := reg_update (cc_streams c) k g\<rparr>) in
      if fType f = TypeOpenOK then upd c (stream_openDone None)
      else if fType f = TypeOpenError then
        (let err = ErrText (fPayload f) in upd c (\<lambda>s. stream_fail err (stream_openDone (Some err) s)))
      else if fType f = TypeData then
        (if length (cs_incoming s) < clientQueueSize
         then upd c (\<lambda>s. s\<lparr>cs_incoming := cs_incoming s @ [\<lparr>se_data = fPayload f, se_err = None\<rparr>]\<rparr>)
         else if cc_closed c then c
         else
           let err = ErrText (str ''stream receive window exceeded'');
               c1 = fst (client_write c (cframe TypeReset (cs_id s) (ErrorPayload (Some err))))
           in upd c1 (stream_fail err))
      else if fType f = TypeWindowUpdate then
        (case window_add (cs_window s) (DecodeWindowUpdate (fPayload f)) of
           (w, True) \<Rightarrow> upd c (\<lambda>s. s\<lparr>cs_window := w\<rparr>)
         | (w, False) \<Rightarrow> upd c (stream_fail (ErrText (str ''invalid stream window update''))))
      else if fType f = TypeHalfClose then upd c (\<lambda>s. s\<lparr>cs_readEOF := True\<rparr>)
      else if fType f = TypeClose then upd c (stream_fail IoEOF)
      else if fType f = TypeReset then upd c (stream_fail (ErrText (fPayload f)))
      else c)"

text \<open>
  An inbound stream: the reader looks the listener up in one lock section and inserts the stream in another, which
  does not look whether the client has been closed or the listener is gone meanwhile.
\<close>

definition inbound_lookup :: "client \<Rightarrow> u32 \<Rightarrow> bytes \<Rightarrow> client" where
  "inbound_lookup c i payload =
     (if length payload \<noteq> 4 then c
      else case reg_find (cc_listeners c) (Uint32 payload) of
        None \<Rightarrow> fst (client_write c (cframe TypeReset i (str ''unknown reverse listener'')))
      | Some (l, lst) \<Rightarrow> c\<lparr>cc_arriving := Some (i, l, cl_target lst)\<rparr>)"

definition inbound_insert :: "client \<Rightarrow> client" where
  "inbound_insert c0 =
     (case cc_arriving c0 of
        None \<Rightarrow> c0
      | Some (i, l, target) \<Rightarrow>
          let c = c0\<lparr>cc_arriving := None\<rparr> in
          if ids (cc_streams c) i \<noteq> None
          then fst (client_write c (cframe TypeReset i (str ''duplicate inbound stream id'')))
          else if MaxConcurrentStreams \<le> reg_count (cc_streams c)
          then fst (client_write c (cframe TypeReset i
                 (ErrorPayload (Some (resourceLimitError (str ''TCP streams'') MaxConcurrentStreams)))))
          else c\<lparr>cc_streams := reg_insert (cc_streams c) i (stream_openDone None (newClientStream i target)),
                 cc_inbound := cc_inbound c @ [(l, nextobj (cc_streams c))]\<rparr>)"

definition inboundOpen :: "client \<Rightarrow> u32 \<Rightarrow> bytes \<Rightarrow> client" where
  "inboundOpen c i payload = inbound_insert (inbound_lookup c i payload)"

definition client_dispatch :: "client \<Rightarrow> Frame \<Rightarrow> client" where
  "client_dispatch c f =
     (let kind = fType f; i = fStreamID f in
      if kind = TypeHelloOK then hello_result (DecodeHelloOK (fPayload f)) c
      else if kind = TypeListenDatagramOK \<or> kind = TypeListenDatagramError \<or> kind = TypeListenDatagramData
              \<or> kind = TypeListenDatagramClose then
        (case reg_find (cc_reverse c) i of None \<Rightarrow> c | Some (k, r) \<Rightarrow> reverse_handle c k f)
      else if kind = TypeDatagramOK \<or> kind = TypeDatagramError \<or> kind = TypeDatagramData \<or> kind = TypeDatagramClose then
        (case reg_find (cc_datagrams c) i of None \<Rightarrow> c | Some (k, p) \<Rightarrow> packet_handle c k f)
      else if kind = TypeListenOK \<or> kind = TypeListenError then
        (case reg_find (cc_listeners c) i of
           None \<Rightarrow> c
         | Some (k, l) \<Rightarrow>
             c\<lparr>cc_listeners := reg_update (cc_listeners c) k
                 (listener_ready
                    (if kind = TypeListenOK
                     then Inr (if fPayload f = [] then cl_requestedAddress l else fPayload f)
                     else Inl (ErrText (fPayload f))))\<rparr>)
      else if kind = TypeInboundOpen then inboundOpen c i (fPayload f)
      else (case reg_find (cc_streams c) i of None \<Rightarrow> c | Some (k, s) \<Rightarrow> stream_handle c k s f))"

section \<open>Streams\<close>

text \<open>
  \<open>clientStream.Read\<close> with a buffer of \<open>n\<close> bytes.  A wake-up gives what the \<open>select\<close> chose and the
  client as it was then; a deadline that has passed is \<open>ReadExpired\<close>.  At the end of the list the
  call takes a queued event if there is one and otherwise still waits (\<open>None\<close>).  The answer is the
  bytes delivered and the error.
\<close>

datatype readWake = ReadIncoming | ReadTimer | ReadExpired | ReadRetry | ReadDone | ReadClientClosed

definition pop_event :: "client \<Rightarrow> nat \<Rightarrow> client" where
  "pop_event c k = c\<lparr>cc_streams := reg_update (cc_streams c) k (\<lambda>s. s\<lparr>cs_incoming := tl (cs_incoming s)\<rparr>)\<rparr>"

definition stream_deliver :: "client \<Rightarrow> nat \<Rightarrow> clientStream \<Rightarrow> nat \<Rightarrow> client \<times> bytes \<times> goerr option" where
  "stream_deliver c k s n =
     (let out = take n (cs_readBuf s);
          c1 = c\<lparr>cc_streams := reg_update (cc_streams c) k (\<lambda>s. s\<lparr>cs_readBuf := drop n (cs_readBuf s)\<rparr>)\<rparr>
      in case client_write c1 (cframe TypeWindowUpdate (cs_id s) (EncodeWindowUpdate (word_of_nat (length out)))) of
           (c2, err) \<Rightarrow> (c2, out, err))"

text \<open>
  Data moves to the read buffer and the loop goes on; an error event ends the call.  Every queued
  event carries data or an error, because a DATA frame is never empty.
\<close>

definition stream_event :: "client \<Rightarrow> nat \<Rightarrow> streamEvent \<Rightarrow> bool \<Rightarrow> client \<times> (bytes \<times> goerr option) option" where
  "stream_event c k ev drained =
     (let c1 = pop_event c k in
      if se_data ev \<noteq> []
      then (c1\<lparr>cc_streams := reg_update (cc_streams c1) k (\<lambda>s. s\<lparr>cs_readBuf := se_data ev\<rparr>)\<rparr>, None)
      else case se_err ev of
        None \<Rightarrow> (c1, None)
      | Some err \<Rightarrow>
          (if err_is err IoEOF \<and> \<not> drained
           then c1\<lparr>cc_streams := reg_update (cc_streams c1) k (\<lambda>s. s\<lparr>cs_readEOF := True\<rparr>)\<rparr> else c1,
           Some ([], Some err)))"

definition queued :: "client \<Rightarrow> nat \<Rightarrow> nat" where
  "queued c k = (case objs (cc_streams c) k of None \<Rightarrow> 0 | Some s \<Rightarrow> length (cs_incoming s))"

lemma queued_event: "queued (fst (stream_event c k ev drained)) k = queued c k - 1"
  by (auto simp: queued_def stream_event_def pop_event_def reg_update_def Let_def split: option.splits)

lemma queued_event_less:
  "(c1, r) = stream_event c k ev drained \<Longrightarrow> objs (cc_streams c) k = Some s \<Longrightarrow> cs_incoming s \<noteq> [] \<Longrightarrow>
     queued c1 k < queued c k"
  using queued_event [of c k ev drained] by (cases "stream_event c k ev drained") (auto simp: queued_def)

function stream_Read :: "client \<Rightarrow> nat \<Rightarrow> nat \<Rightarrow> (readWake \<times> client) list \<Rightarrow> (client \<times> bytes \<times> goerr option) option" where
  "stream_Read c k n wakes =
     (if n = 0 then Some (c, [], None)
      else case objs (cc_streams c) k of
        None \<Rightarrow> None
      | Some s \<Rightarrow>
          if cs_readBuf s \<noteq> [] then Some (stream_deliver c k s n)
          else if cs_readEOF s \<and> cs_incoming s = [] then Some (c, [], Some IoEOF)
          else if cs_readEOF s then
            (case stream_event c k (hd (cs_incoming s)) True of
               (c1, Some (out, err)) \<Rightarrow> Some (c1, out, err)
             | (c1, None) \<Rightarrow> stream_Read c1 k n wakes)
          else (case wakes of
              [] \<Rightarrow>
                if cs_incoming s = [] then None
                else (case stream_event c k (hd (cs_incoming s)) False of
                    (c1, Some (out, err)) \<Rightarrow> Some (c1, out, err)
                  | (c1, None) \<Rightarrow> stream_Read c1 k n [])
            | (ReadExpired, c1) # rest \<Rightarrow> Some (c, [], Some OsTimeout)
            | (ReadTimer, c1) # rest \<Rightarrow> Some (c1, [], Some OsTimeout)
            | (ReadRetry, c1) # rest \<Rightarrow> stream_Read c1 k n rest
            | (ReadDone, c1) # rest \<Rightarrow>
                (case objs (cc_streams c1) k of
                   None \<Rightarrow> None
                 | Some s1 \<Rightarrow> if cs_done s1 then Some (c1, [], Some (stream_terminalError s1)) else stream_Read c1 k n rest)
            | (ReadClientClosed, c1) # rest \<Rightarrow>
                if cc_closed c1 then Some (c1, [], Some ErrClientClosed) else stream_Read c1 k n rest
            | (ReadIncoming, c1) # rest \<Rightarrow>
                (case objs (cc_streams c1) k of
                   None \<Rightarrow> None
                 | Some s1 \<Rightarrow>
                     (case cs_incoming s1 of
                        [] \<Rightarrow> stream_Read c1 k n rest
                      | ev # evs \<Rightarrow>
                          (case stream_event c1 k ev False of
                             (c2, Some (out, err)) \<Rightarrow> Some (c2, out, err)
                           | (c2, None) \<Rightarrow> stream_Read c2 k n rest)))))"
  by pat_completeness auto
termination
  by (relation "measures [\<lambda>(c, k, n, wakes). length wakes, \<lambda>(c, k, n, wakes). queued c k]")
     (auto dest: queued_event_less)

declare stream_Read.simps [simp del]

text \<open>
  \<open>clientStream.Write\<close>.  \<open>waits\<close> gives the wake-ups of each call of \<open>take\<close>.  The answer is the
  number of bytes written and the error; \<open>None\<close> is a call that still waits for credit.
\<close>

function stream_Write ::
  "client \<Rightarrow> nat \<Rightarrow> bytes \<Rightarrow> nat \<Rightarrow> (takeDeadline \<times> takeWake \<times> flowWindow) list list
     \<Rightarrow> (client \<times> nat \<times> goerr option) option" where
  "stream_Write c k p written waits =
     (if p = [] then Some (c, written, None)
      else case objs (cc_streams c) k of
        None \<Rightarrow> None
      | Some s \<Rightarrow>
          let n = (if MaxDataSize < length p then MaxDataSize else length p);
              wakes = (case waits of [] \<Rightarrow> [] | w # ws \<Rightarrow> w)
          in (case window_take (cs_window s) n wakes of
                None \<Rightarrow> None
              | Some (w, Inl err) \<Rightarrow>
                  let c1 = c\<lparr>cc_streams := reg_update (cc_streams c) k (\<lambda>s. s\<lparr>cs_window := w\<rparr>)\<rparr> in
                  if err_is err ErrDeadlineChanged \<and> waits \<noteq> [] then stream_Write c1 k p written (tl waits)
                  else Some (c1, written, Some err)
              | Some (w, Inr count) \<Rightarrow>
                  let c1 = c\<lparr>cc_streams := reg_update (cc_streams c) k (\<lambda>s. s\<lparr>cs_window := w\<rparr>)\<rparr> in
                  (case client_write c1 (cframe TypeData (cs_id s) (take count p)) of
                     (c2, Some err) \<Rightarrow> Some (c2, written, Some err)
                   | (c2, None) \<Rightarrow>
                       if count = 0 then Some (c2, written, Some GoPanic)
                       else stream_Write c2 k (drop count p) (written + count) (tl waits))))"
  by pat_completeness auto
termination
  by (relation "measures [\<lambda>(c, k, p, written, waits). length p, \<lambda>(c, k, p, written, waits). length waits]") auto

declare stream_Write.simps [simp del]

definition CloseWrite :: "client \<Rightarrow> nat \<Rightarrow> client \<times> goerr option" where
  "CloseWrite c k =
     (case objs (cc_streams c) k of
        None \<Rightarrow> (c, Some GoPanic)
      | Some s \<Rightarrow>
          if cs_halfCloseOnce s then (c, None)
          else client_write
                 (c\<lparr>cc_streams := reg_update (cc_streams c) k (\<lambda>s. s\<lparr>cs_halfCloseOnce := True\<rparr>)\<rparr>)
                 (cframe TypeHalfClose (cs_id s) []))"

text \<open>The deadline setters: the deadline is a time or none; the old \<open>deadlineChanged\<close> channel is closed.\<close>

definition stream_SetReadDeadline :: "nat option \<Rightarrow> clientStream \<Rightarrow> clientStream" where
  "stream_SetReadDeadline t s = s\<lparr>cs_readDeadline := t, cs_deadlineChanged := Suc (cs_deadlineChanged s)\<rparr>"

definition stream_SetWriteDeadline :: "nat option \<Rightarrow> clientStream \<Rightarrow> clientStream" where
  "stream_SetWriteDeadline t s = s\<lparr>cs_writeDeadline := t, cs_deadlineChanged := Suc (cs_deadlineChanged s)\<rparr>"

definition stream_SetDeadline :: "nat option \<Rightarrow> clientStream \<Rightarrow> clientStream" where
  "stream_SetDeadline t s =
     s\<lparr>cs_readDeadline := t, cs_writeDeadline := t, cs_deadlineChanged := Suc (cs_deadlineChanged s)\<rparr>"

text \<open>\<open>acceptInbound\<close>: the dial of the local target failed, or the bridge has ended.\<close>

definition acceptInbound :: "client \<Rightarrow> nat \<Rightarrow> goerr option \<Rightarrow> client" where
  "acceptInbound c k dialErr =
     (case objs (cc_streams c) k of
        None \<Rightarrow> c
      | Some s \<Rightarrow>
          (case dialErr of
             Some err \<Rightarrow>
               removeStream (fst (client_write c (cframe TypeReset (cs_id s) (ErrorPayload (Some err))))) (cs_id s)
           | None \<Rightarrow> removeStream (stream_Close c k) (cs_id s)))"

section \<open>Packet connections\<close>

datatype packetWake = PacketIncoming | PacketTimer | PacketExpired | PacketRetry | PacketDone | PacketClientClosed

definition pop_packet :: "client \<Rightarrow> nat \<Rightarrow> client" where
  "pop_packet c k = c\<lparr>cc_datagrams := reg_update (cc_datagrams c) k (\<lambda>p. p\<lparr>cp_incoming := tl (cp_incoming p)\<rparr>)\<rparr>"

definition packet_deliver :: "nat \<Rightarrow> packetEvent \<Rightarrow> bytes \<times> bytes \<times> goerr option" where
  "packet_deliver n ev =
     (case pe_err ev of
        Some err \<Rightarrow> ([], [], Some err)
      | None \<Rightarrow>
          if n < length (pe_data ev) then (take n (pe_data ev), pe_endpoint ev, Some IoErrShortBuffer)
          else (pe_data ev, pe_endpoint ev, None))"

text \<open>\<open>ReadFrom\<close>: the data, the endpoint and the error.\<close>

fun packet_ReadFrom :: "client \<Rightarrow> nat \<Rightarrow> nat \<Rightarrow> (packetWake \<times> client) list
    \<Rightarrow> (client \<times> bytes \<times> bytes \<times> goerr option) option" where
  "packet_ReadFrom c k n [] =
     (case objs (cc_datagrams c) k of
        None \<Rightarrow> None
      | Some p \<Rightarrow> (case cp_incoming p of [] \<Rightarrow> None | ev # evs \<Rightarrow> Some (pop_packet c k, packet_deliver n ev)))"
| "packet_ReadFrom c k n ((w, c1) # rest) =
     (case w of
        PacketExpired \<Rightarrow> Some (c, [], [], Some OsTimeout)
      | PacketTimer \<Rightarrow> Some (c1, [], [], Some OsTimeout)
      | PacketRetry \<Rightarrow> packet_ReadFrom c1 k n rest
      | PacketDone \<Rightarrow>
          (case objs (cc_datagrams c1) k of
             None \<Rightarrow> None
           | Some p \<Rightarrow> if cp_done p then Some (c1, [], [], Some (packet_terminalError p)) else packet_ReadFrom c1 k n rest)
      | PacketClientClosed \<Rightarrow>
          if cc_closed c1 then Some (c1, [], [], Some ErrClientClosed) else packet_ReadFrom c1 k n rest
      | PacketIncoming \<Rightarrow>
          (case objs (cc_datagrams c1) k of
             None \<Rightarrow> None
           | Some p \<Rightarrow>
               (case cp_incoming p of
                  [] \<Rightarrow> packet_ReadFrom c1 k n rest
                | ev # evs \<Rightarrow> Some (pop_packet c1 k, packet_deliver n ev))))"

text \<open>\<open>WriteTo\<close>; \<open>now\<close> is the current time.\<close>

definition packet_WriteTo :: "client \<Rightarrow> nat \<Rightarrow> nat \<Rightarrow> bytes \<Rightarrow> bytes option \<Rightarrow> client \<times> nat \<times> goerr option" where
  "packet_WriteTo c k now data address =
     (case (address, objs (cc_datagrams c) k) of
        (None, _) \<Rightarrow> (c, 0, Some (ErrText (str ''datagram destination is required'')))
      | (_, None) \<Rightarrow> (c, 0, Some GoPanic)
      | (Some a, Some p) \<Rightarrow>
          if (case cp_writeDeadline p of None \<Rightarrow> False | Some d \<Rightarrow> d < now) then (c, 0, Some OsTimeout)
          else (case EncodeDatagram a data of
              Inl err \<Rightarrow> (c, 0, Some err)
            | Inr payload \<Rightarrow>
                if cp_done p then (c, 0, Some (packet_terminalError p))
                else (case client_write c (cframe TypeDatagramData (cp_id p) payload) of
                    (c1, Some err) \<Rightarrow> (c1, 0, Some err)
                  | (c1, None) \<Rightarrow> (c1, length data, None))))"

definition packet_SetReadDeadline :: "nat option \<Rightarrow> clientPacketConn \<Rightarrow> clientPacketConn" where
  "packet_SetReadDeadline t p = p\<lparr>cp_readDeadline := t, cp_deadlineChanged := Suc (cp_deadlineChanged p)\<rparr>"

definition packet_SetWriteDeadline :: "nat option \<Rightarrow> clientPacketConn \<Rightarrow> clientPacketConn" where
  "packet_SetWriteDeadline t p = p\<lparr>cp_writeDeadline := t, cp_deadlineChanged := Suc (cp_deadlineChanged p)\<rparr>"

definition packet_SetDeadline :: "nat option \<Rightarrow> clientPacketConn \<Rightarrow> clientPacketConn" where
  "packet_SetDeadline t p =
     p\<lparr>cp_readDeadline := t, cp_writeDeadline := t, cp_deadlineChanged := Suc (cp_deadlineChanged p)\<rparr>"

section \<open>Reverse datagram listeners\<close>

text \<open>\<open>removeFlow\<close>: a flow leaves the table only if it is still the one for its key.\<close>

definition removeFlow :: "client \<Rightarrow> nat \<Rightarrow> nat \<Rightarrow> client" where
  "removeFlow c k x =
     (case objs (cc_reverse c) k of
        None \<Rightarrow> c
      | Some r \<Rightarrow>
          if length (cr_flowObjs r) \<le> x then c
          else
            let f = cr_flowObjs r ! x;
                r1 = (if cr_flows r (fl_key f) = Some x then r\<lparr>cr_flows := (cr_flows r)(fl_key f := None)\<rparr> else r);
                r2 = r1\<lparr>cr_flowObjs := (cr_flowObjs r1)[x := f\<lparr>fl_closed := True\<rparr>]\<rparr>
            in c\<lparr>cc_reverse := reg_update (cc_reverse c) k (\<lambda>_. r2),
                 cc_closedFlows := (if fl_closed f then cc_closedFlows c else cc_closedFlows c @ [fl_conn f])\<rparr>)"

text \<open>
  \<open>writeDatagram\<close>.  \<open>resolve\<close> gives the canonical text of the remote address, \<open>dial\<close> the outcome
  of \<open>net.DialUDP\<close>, \<open>writeErr\<close> the outcome of the write on the flow's socket.
\<close>

definition reverse_writeDatagram ::
  "(bytes \<Rightarrow> bytes result) \<Rightarrow> nat result \<Rightarrow> goerr option \<Rightarrow> client \<Rightarrow> nat \<Rightarrow> bytes \<Rightarrow> client" where
  "reverse_writeDatagram resolve dial writeErr c k payload =
     (case DecodeDatagram payload of
        Inl err \<Rightarrow> reverse_fail c k err
      | Inr (endpoint, data) \<Rightarrow>
          (case resolve endpoint of
             Inl err \<Rightarrow> reverse_fail c k err
           | Inr key \<Rightarrow>
               (case objs (cc_reverse c) k of
                  None \<Rightarrow> c
                | Some r \<Rightarrow>
                    if cr_done r then c
                    else
                      let finish = (\<lambda>c x. if writeErr = None then c else removeFlow c k x) in
                      (case cr_flows r key of
                         Some x \<Rightarrow> finish c x
                       | None \<Rightarrow>
                           if MaxReverseDatagramFlows \<le> msize (cr_flows r) then c
                           else (case dial of
                               Inl err \<Rightarrow> reverse_fail c k err
                             | Inr conn \<Rightarrow>
                                 let x = length (cr_flowObjs r);
                                     flow = \<lparr>fl_key = key, fl_remote = endpoint, fl_conn = conn, fl_closed = False\<rparr>;
                                     r1 = r\<lparr>cr_flowObjs := cr_flowObjs r @ [flow], cr_flows := (cr_flows r)(key \<mapsto> x)\<rparr>
                                 in finish (c\<lparr>cc_reverse := reg_update (cc_reverse c) k (\<lambda>_. r1)\<rparr>) x)))))"

text \<open>One round of \<open>writeDatagrams\<close>; the boolean says whether the goroutine goes on.\<close>

definition reverse_writeDatagrams ::
  "(bytes \<Rightarrow> bytes result) \<Rightarrow> nat result \<Rightarrow> goerr option \<Rightarrow> client \<Rightarrow> nat \<Rightarrow> client \<times> bool" where
  "reverse_writeDatagrams resolve dial writeErr c k =
     (case objs (cc_reverse c) k of
        None \<Rightarrow> (c, False)
      | Some r \<Rightarrow>
          if cr_done r \<or> cr_cancelled r then (c, False)
          else (case cr_incoming r of
              [] \<Rightarrow> (c, True)
            | payload # rest \<Rightarrow>
                (reverse_writeDatagram resolve dial writeErr
                   (c\<lparr>cc_reverse := reg_update (cc_reverse c) k (\<lambda>r. r\<lparr>cr_incoming := rest\<rparr>)\<rparr>) k payload, True)))"

text \<open>One round of \<open>readLoop\<close> of flow \<open>x\<close>: a read error or a datagram.\<close>

definition flow_readLoop :: "client \<Rightarrow> nat \<Rightarrow> nat \<Rightarrow> bytes result \<Rightarrow> client \<times> bool" where
  "flow_readLoop c k x received =
     (case objs (cc_reverse c) k of
        None \<Rightarrow> (c, False)
      | Some r \<Rightarrow>
          if length (cr_flowObjs r) \<le> x then (c, False)
          else (case rbind received (EncodeDatagram (fl_remote (cr_flowObjs r ! x))) of
              Inl err \<Rightarrow> (removeFlow c k x, False)
            | Inr payload \<Rightarrow>
                (case client_write c (cframe TypeListenDatagramData (cr_id r) payload) of
                   (c1, Some err) \<Rightarrow> (removeFlow c1 k x, False)
                 | (c1, None) \<Rightarrow> (c1, True))))"

section \<open>The read loops\<close>

text \<open>
  The loop of \<open>Run\<close> over what happens next: the reader goroutine read a frame and dispatched it or
  its read failed, the context ended, or the client was closed by someone else (possible only once
  \<open>closed\<close> is).  A list that ends is a call that is still running.  \<open>os\<close> are the objects in the maps
  when the client fails.
\<close>

datatype runEvent = RunRead "Frame result" | RunCtx goerr | RunClosed

fun Run_loop :: "client \<Rightarrow> runEvent list \<Rightarrow> clientObjects \<Rightarrow> (client \<times> goerr option) option" where
  "Run_loop c [] os = None"
| "Run_loop c (RunRead (Inr f) # events) os = Run_loop (client_dispatch c f) events os"
| "Run_loop c (RunRead (Inl err) # events) os = Some (client_fail c os err, Some err)"
| "Run_loop c (RunCtx err # events) os = Some (client_fail (closeTransport c) os err, Some err)"
| "Run_loop c (RunClosed # events) os =
     (if cc_closed c then Some (closeTransport c, cc_closeErr c) else Run_loop c events os)"

definition client_Run :: "client \<Rightarrow> runEvent list \<Rightarrow> clientObjects \<Rightarrow> (client \<times> goerr option) option" where
  "client_Run c events os =
     (if ct_attached (cc_tx c) then Some (c, Some (ErrText (str ''attached relay client requires RunAttached'')))
      else if cc_running c then Some (c, Some ErrClientAlreadyRunning)
      else Run_loop (c\<lparr>cc_running := True\<rparr>) events os)"

text \<open>
  \<open>RunAttached\<close>: the result of each read with the error of the context at that moment, if it ended.
\<close>

fun RunAttached_loop :: "client \<Rightarrow> (Frame result \<times> goerr option) list \<Rightarrow> clientObjects \<Rightarrow> (client \<times> goerr option) option" where
  "RunAttached_loop c [] os = None"
| "RunAttached_loop c ((Inl err, ctxErr) # reads) os =
     (case ctxErr of
        Some e \<Rightarrow> Some (client_fail c os e, Some e)
      | None \<Rightarrow>
          if err_is err ErrDetached then RunAttached_loop c reads os
          else Some (client_fail c os err, Some err))"
| "RunAttached_loop c ((Inr f, ctxErr) # reads) os = RunAttached_loop (client_dispatch c f) reads os"

definition client_RunAttached ::
  "client \<Rightarrow> (Frame result \<times> goerr option) list \<Rightarrow> clientObjects \<Rightarrow> (client \<times> goerr option) option" where
  "client_RunAttached c reads os =
     (if \<not> ct_attached (cc_tx c) then Some (c, Some (ErrText (str ''attached relay client requires a frame transport'')))
      else if cc_running c then Some (c, Some ErrClientAlreadyRunning)
      else RunAttached_loop (c\<lparr>cc_running := True\<rparr>) reads os)"

end
