(* ===== verification/ClientTables.thy ===== *)
theory ClientTables
  imports RelayClient
begin

text \<open>
  The four maps of the client (streams, listeners, packet connections, reverse datagram listeners)
  and their invariants.  The locale \<open>id_table\<close> is what the client relies on for each of them: an
  object carries the non-zero id it is filed under, the map never holds more than its limit, and
  every object ever created stays well formed.  It is interpreted for the four kinds of objects.
\<close>

section \<open>Tables of objects that carry their id\<close>

definition table_inv :: "('o \<Rightarrow> u32) \<Rightarrow> ('o \<Rightarrow> bool) \<Rightarrow> nat \<Rightarrow> 'o reg \<Rightarrow> bool" where
  "table_inv idof ok limit r \<longleftrightarrow>
     finite (dom (ids r)) \<and> reg_count r \<le> limit \<and>
     (\<forall>i k. ids r i = Some k \<longrightarrow> (\<exists>x. objs r k = Some x \<and> idof x = i)) \<and>
     (\<forall>k x. objs r k = Some x \<longrightarrow> k < nextobj r \<and> ok x)"

lemma table_inv_D:
  assumes "table_inv idof ok limit r"
  shows "finite (dom (ids r))" and "reg_count r \<le> limit"
    and "ids r i = Some k \<Longrightarrow> \<exists>x. objs r k = Some x \<and> idof x = i"
    and "objs r k = Some x \<Longrightarrow> k < nextobj r" and "objs r k = Some x \<Longrightarrow> ok x"
  using assms unfolding table_inv_def by blast+

locale id_table =
  fixes idof :: "'o \<Rightarrow> u32"
    and ok :: "'o \<Rightarrow> bool"
    and limit :: nat
  assumes ok_id: "ok x \<Longrightarrow> idof x \<noteq> 0"
begin

lemma table_empty: "table_inv idof ok limit reg_empty"
  by (simp add: table_inv_def reg_empty_def reg_count_def)

lemma table_clear: "table_inv idof ok limit r \<Longrightarrow> table_inv idof ok limit (r\<lparr>ids := Map.empty\<rparr>)"
  by (simp add: table_inv_def reg_count_def)

lemma table_delete: "table_inv idof ok limit r \<Longrightarrow> table_inv idof ok limit (reg_delete r i)"
  using msize_bounded_delete [of "ids r" limit i]
  by (simp add: table_inv_def reg_delete_def reg_count_def)

lemma table_update:
  assumes "table_inv idof ok limit r"
    and "\<And>x. objs r k = Some x \<Longrightarrow> ok x \<Longrightarrow> ok (f x) \<and> idof (f x) = idof x"
  shows "table_inv idof ok limit (reg_update r k f)"
proof -
  note D = table_inv_D [OF assms(1)]
  have f: "ok (f x)" "idof (f x) = idof x" if "objs r k = Some x" for x
    using that assms(2) D(5) by blast+
  show ?thesis
    unfolding table_inv_def reg_count_def
  proof (intro conjI allI impI)
    show "\<exists>y. objs (reg_update r k f) k' = Some y \<and> idof y = i"
      if "ids (reg_update r k f) i = Some k'" for i k'
      using that D(3) [of i k'] f by (cases "k' = k") (auto simp: reg_update_def)
    show "k' < nextobj (reg_update r k f)" "ok y" if "objs (reg_update r k f) k' = Some y" for k' y
      using that D(4,5) f by (auto simp: reg_update_def split: if_splits)
  qed (use D(1,2) in \<open>auto simp: reg_update_def reg_count_def\<close>)
qed

lemma table_insert:
  assumes r: "table_inv idof ok limit r" and n: "reg_count r < limit" and x: "ok x" "idof x = i"
  shows "table_inv idof ok limit (reg_insert r i x)"
proof -
  note D = table_inv_D [OF r]
  have fresh: "objs r (nextobj r) = None"
    using D(4) by (metis less_irrefl not_Some_eq)
  show ?thesis
    unfolding table_inv_def
  proof (intro conjI allI impI)
    show "reg_count (reg_insert r i x) \<le> limit"
      using n msize_bounded_insert [OF D(1)] by (simp add: reg_insert_def reg_count_def)
    show "\<exists>y. objs (reg_insert r i x) k = Some y \<and> idof y = j"
      if "ids (reg_insert r i x) j = Some k" for j k
      using that D(3) [of j k] x fresh by (auto simp: reg_insert_def split: if_splits)
    show "k < nextobj (reg_insert r i x)" "ok y" if "objs (reg_insert r i x) k = Some y" for k y
      using that D(4) [of k y] D(5) [of k y] x by (auto simp: reg_insert_def split: if_splits)
  qed (simp add: reg_insert_def D(1))
qed

lemma table_no_zero: "table_inv idof ok limit r \<Longrightarrow> ids r 0 = None"
  using table_inv_D(3) [of idof ok limit r 0] table_inv_D(5) [of idof ok limit r] ok_id
  by (metis not_Some_eq)

lemma table_distinct:
  "table_inv idof ok limit r \<Longrightarrow> ids r i = Some k \<Longrightarrow> ids r j = Some k \<Longrightarrow> i = j"
  using table_inv_D(3) [of idof ok limit r i k] table_inv_D(3) [of idof ok limit r j k] by auto

end

section \<open>Well-formed objects\<close>

text \<open>
  A queued event carries data or an error; queues are bounded; a socket of a reverse datagram
  listener is open exactly while its flow is in the table.
\<close>

definition event_ok :: "streamEvent \<Rightarrow> bool" where
  "event_ok ev \<longleftrightarrow> length (se_data ev) \<le> MaxDataSize \<and> (se_data ev = [] \<longleftrightarrow> se_err ev \<noteq> None)"

definition stream_ok :: "clientStream \<Rightarrow> bool" where
  "stream_ok s \<longleftrightarrow>
     cs_id s \<noteq> 0 \<and> length (cs_incoming s) \<le> clientQueueSize \<and> list_all event_ok (cs_incoming s)
     \<and> window_ok (cs_window s) \<and> length (cs_readBuf s) \<le> MaxDataSize"

definition listener_ok :: "clientListener \<Rightarrow> bool" where
  "listener_ok l \<longleftrightarrow> cl_id l \<noteq> 0"

definition packet_ok :: "clientPacketConn \<Rightarrow> bool" where
  "packet_ok p \<longleftrightarrow> cp_id p \<noteq> 0 \<and> length (cp_incoming p) \<le> datagramQueueDepth"

definition flows_ok :: "clientReverseDatagram \<Rightarrow> bool" where
  "flows_ok r \<longleftrightarrow>
     finite (dom (cr_flows r)) \<and> msize (cr_flows r) \<le> MaxReverseDatagramFlows
     \<and> (\<forall>key x. cr_flows r key = Some x \<longrightarrow> x < length (cr_flowObjs r) \<and> fl_key (cr_flowObjs r ! x) = key)
     \<and> (\<forall>x < length (cr_flowObjs r).
          fl_closed (cr_flowObjs r ! x) \<longleftrightarrow> cr_flows r (fl_key (cr_flowObjs r ! x)) \<noteq> Some x)
     \<and> (cr_done r \<longrightarrow> cr_flows r = Map.empty)"

definition reverse_ok :: "clientReverseDatagram \<Rightarrow> bool" where
  "reverse_ok r \<longleftrightarrow>
     cr_id r \<noteq> 0 \<and> length (cr_incoming r) \<le> datagramQueueDepth \<and> flows_ok r \<and> (cr_closeOnce r \<longleftrightarrow> cr_done r)"

lemmas object_ok_defs = stream_ok_def listener_ok_def packet_ok_def reverse_ok_def

interpretation ctab_s: id_table cs_id stream_ok MaxConcurrentStreams
  by unfold_locales (simp add: stream_ok_def)

interpretation ctab_l: id_table cl_id listener_ok MaxConcurrentListeners
  by unfold_locales (simp add: listener_ok_def)

interpretation ctab_p: id_table cp_id packet_ok MaxConcurrentDatagrams
  by unfold_locales (simp add: packet_ok_def)

interpretation ctab_r: id_table cr_id reverse_ok MaxConcurrentReverseDatagrams
  by unfold_locales (simp add: reverse_ok_def)

abbreviation "stream_table \<equiv> table_inv cs_id stream_ok MaxConcurrentStreams"
abbreviation "listener_table \<equiv> table_inv cl_id listener_ok MaxConcurrentListeners"
abbreviation "packet_table \<equiv> table_inv cp_id packet_ok MaxConcurrentDatagrams"
abbreviation "reverse_table \<equiv> table_inv cr_id reverse_ok MaxConcurrentReverseDatagrams"

section \<open>Operations on objects keep them well formed\<close>

lemma new_objects_ok [simp]:
  "i \<noteq> 0 \<Longrightarrow> stream_ok (newClientStream i t)" "i \<noteq> 0 \<Longrightarrow> packet_ok (newPacketConn i)"
  "i \<noteq> 0 \<Longrightarrow> listener_ok (newClientListener i a t)" "i \<noteq> 0 \<Longrightarrow> reverse_ok (newClientReverseDatagram i a t)"
  by (simp_all add: object_ok_defs flows_ok_def newClientStream_def newPacketConn_def
      newClientListener_def newClientReverseDatagram_def)

lemma new_objects_id [simp]:
  "cs_id (newClientStream i t) = i" "cp_id (newPacketConn i) = i"
  "cl_id (newClientListener i a t) = i" "cr_id (newClientReverseDatagram i a t) = i"
  by (simp_all add: newClientStream_def newPacketConn_def newClientListener_def newClientReverseDatagram_def)

lemma stream_openDone_ok [simp]:
  "stream_ok (stream_openDone r s) = stream_ok s" "cs_id (stream_openDone r s) = cs_id s"
  "cs_incoming (stream_openDone r s) = cs_incoming s" "cs_openOnce (stream_openDone r s)"
  by (simp_all add: stream_openDone_def stream_ok_def)

lemma stream_fail_id [simp]: "cs_id (stream_fail err s) = cs_id s"
  by (simp add: stream_fail_def Let_def)

lemma stream_fail_ok [simp]: "stream_ok s \<Longrightarrow> stream_ok (stream_fail err s)"
  by (auto simp: stream_fail_def Let_def stream_ok_def event_ok_def stream_openDone_def)

lemma packet_ready_ok [simp]:
  "packet_ok (packet_ready r p) = packet_ok p" "cp_id (packet_ready r p) = cp_id p"
  by (simp_all add: packet_ready_def packet_ok_def)

lemma packet_fail_ok [simp]:
  "cp_id (packet_fail err p) = cp_id p" "packet_ok p \<Longrightarrow> packet_ok (packet_fail err p)"
  by (auto simp: packet_fail_def Let_def packet_ok_def packet_ready_def)

lemma listener_ready_ok [simp]:
  "listener_ok (listener_ready x l) = listener_ok l" "cl_id (listener_ready x l) = cl_id l"
  by (simp_all add: listener_ready_def listener_ok_def)

lemma reverse_ready_ok [simp]:
  "reverse_ok (reverse_ready x r) = reverse_ok r" "cr_id (reverse_ready x r) = cr_id r"
  by (simp_all add: reverse_ready_def reverse_ok_def flows_ok_def)

lemma reverse_shut_ok [simp]:
  "cr_id (reverse_shut r) = cr_id r" "reverse_ok r \<Longrightarrow> reverse_ok (reverse_shut r)"
  by (auto simp: reverse_shut_def reverse_ok_def flows_ok_def nth_enumerate_eq split: if_splits)

text \<open>A flow that leaves the table closes its socket, a new flow takes a fresh slot.\<close>

lemma flows_ok_D:
  assumes "flows_ok r"
  shows "finite (dom (cr_flows r))" and "msize (cr_flows r) \<le> MaxReverseDatagramFlows"
    and "cr_flows r key = Some x \<Longrightarrow> x < length (cr_flowObjs r)"
    and "cr_flows r key = Some x \<Longrightarrow> fl_key (cr_flowObjs r ! x) = key"
    and "x < length (cr_flowObjs r) \<Longrightarrow>
           fl_closed (cr_flowObjs r ! x) \<longleftrightarrow> cr_flows r (fl_key (cr_flowObjs r ! x)) \<noteq> Some x"
    and "cr_done r \<Longrightarrow> cr_flows r = Map.empty"
  using assms unfolding flows_ok_def by blast+

lemma flows_okI:
  assumes "finite (dom (cr_flows r))" and "msize (cr_flows r) \<le> MaxReverseDatagramFlows"
    and "\<And>key x. cr_flows r key = Some x \<Longrightarrow> x < length (cr_flowObjs r) \<and> fl_key (cr_flowObjs r ! x) = key"
    and "\<And>x. x < length (cr_flowObjs r) \<Longrightarrow>
           fl_closed (cr_flowObjs r ! x) \<longleftrightarrow> cr_flows r (fl_key (cr_flowObjs r ! x)) \<noteq> Some x"
    and "cr_done r \<Longrightarrow> cr_flows r = Map.empty"
  shows "flows_ok r"
  using assms unfolding flows_ok_def by blast

lemma flows_close:
  assumes r: "flows_ok r" and x: "cr_flows r (fl_key (cr_flowObjs r ! x)) = Some x"
  shows "flows_ok (r\<lparr>cr_flows := (cr_flows r)(fl_key (cr_flowObjs r ! x) := None),
                    cr_flowObjs := (cr_flowObjs r)[x := (cr_flowObjs r ! x)\<lparr>fl_closed := True\<rparr>]\<rparr>)"
    (is "flows_ok ?r")
proof (rule flows_okI)
  note D = flows_ok_D [OF r]
  show "finite (dom (cr_flows ?r))" using D(1) by simp
  show "msize (cr_flows ?r) \<le> MaxReverseDatagramFlows"
    using msize_bounded_delete [OF D(1,2)] by simp
  show "y < length (cr_flowObjs ?r) \<and> fl_key (cr_flowObjs ?r ! y) = key" if "cr_flows ?r key = Some y" for key y
    using that D(3) [of key y] D(4) [of key y] by (cases "y = x") (auto split: if_splits)
  show "fl_closed (cr_flowObjs ?r ! y) \<longleftrightarrow> cr_flows ?r (fl_key (cr_flowObjs ?r ! y)) \<noteq> Some y"
    if "y < length (cr_flowObjs ?r)" for y
    using that D(5) [of y] x by (cases "y = x") auto
  show "cr_flows ?r = Map.empty" if "cr_done ?r"
    using that D(6) by simp
qed

lemma flows_add:
  assumes r: "flows_ok r" and k: "cr_flows r key = None" and n: "msize (cr_flows r) < MaxReverseDatagramFlows"
    and d: "\<not> cr_done r" and f: "fl_key f = key" "\<not> fl_closed f"
  shows "flows_ok (r\<lparr>cr_flowObjs := cr_flowObjs r @ [f], cr_flows := (cr_flows r)(key \<mapsto> length (cr_flowObjs r))\<rparr>)"
    (is "flows_ok ?r")
proof (rule flows_okI)
  note D = flows_ok_D [OF r]
  show "finite (dom (cr_flows ?r))" using D(1) by simp
  show "msize (cr_flows ?r) \<le> MaxReverseDatagramFlows"
    using msize_bounded_insert [OF D(1) n] by simp
  show "y < length (cr_flowObjs ?r) \<and> fl_key (cr_flowObjs ?r ! y) = key'" if "cr_flows ?r key' = Some y" for key' y
    using that D(3) [of key' y] D(4) [of key' y] f by (auto simp: nth_append split: if_splits)
  show "fl_closed (cr_flowObjs ?r ! y) \<longleftrightarrow> cr_flows ?r (fl_key (cr_flowObjs ?r ! y)) \<noteq> Some y"
    if "y < length (cr_flowObjs ?r)" for y
  proof (cases "y < length (cr_flowObjs r)")
    case True
    with D(5) [of y] k show ?thesis by (auto simp: nth_append)
  next
    case False
    with that have "y = length (cr_flowObjs r)" by simp
    with f show ?thesis by (simp add: nth_append)
  qed
qed (use d in simp)

lemma flows_absent:
  assumes "flows_ok r" and "x < length (cr_flowObjs r)" and "cr_flows r (fl_key (cr_flowObjs r ! x)) \<noteq> Some x"
  shows "(cr_flowObjs r)[x := (cr_flowObjs r ! x)\<lparr>fl_closed := True\<rparr>] = cr_flowObjs r"
  using flows_ok_D(5) [OF assms(1,2)] assms(2,3) by (intro nth_equalityI) (auto simp: nth_list_update)

end
