(* ===== verification/RelayClientInv.thy ===== *)
theory RelayClientInv
  imports ClientTables
begin

text \<open>
  The invariant of the relay client and that every operation of src/internal/relay/client.go keeps
  it: the four maps are well formed and within their limits, a client that was cleared holds no objects but
  possibly one inbound stream that arrived meanwhile, the id counter stays odd, and every frame the client ever handed to its transport is valid, so that
  no write can be rejected by the frame validation.
\<close>

text \<open>
  The stream map once \<open>fail\<close> has emptied it: the reader may still insert the one inbound stream whose listener it had
  looked up before.
\<close>

definition emptied :: "(u32 \<rightharpoonup> nat) \<Rightarrow> (u32 \<times> nat \<times> bytes) option \<Rightarrow> (nat \<times> nat) list \<Rightarrow> bool" where
  "emptied streams arriving inbound \<longleftrightarrow>
     msize streams + (if arriving = None then 0 else 1) \<le> 1 \<and> ran streams \<subseteq> snd ` set inbound"

definition client_inv :: "client \<Rightarrow> bool" where
  "client_inv c \<longleftrightarrow>
     stream_table (cc_streams c) \<and> listener_table (cc_listeners c)
     \<and> packet_table (cc_datagrams c) \<and> reverse_table (cc_reverse c)
     \<and> odd (cc_nextID c) \<and> list_all (\<lambda>f. Validate f = None) (ct_tried (cc_tx c))
     \<and> (\<forall>i l t. cc_arriving c = Some (i, l, t) \<longrightarrow> i \<noteq> 0)
     \<and> (cc_cleared c \<longrightarrow> cc_closed c \<and> emptied (ids (cc_streams c)) (cc_arriving c) (cc_inbound c)
          \<and> ids (cc_listeners c) = Map.empty \<and> ids (cc_datagrams c) = Map.empty \<and> ids (cc_reverse c) = Map.empty)"

lemma client_inv_D:
  assumes "client_inv c"
  shows "stream_table (cc_streams c)" and "listener_table (cc_listeners c)"
    and "packet_table (cc_datagrams c)" and "reverse_table (cc_reverse c)"
    and "odd (cc_nextID c)" and "list_all (\<lambda>f. Validate f = None) (ct_tried (cc_tx c))"
    and "cc_cleared c \<Longrightarrow> cc_closed c" and "cc_cleared c \<Longrightarrow> ids (cc_listeners c) = Map.empty"
    and "cc_cleared c \<Longrightarrow> ids (cc_datagrams c) = Map.empty" and "cc_cleared c \<Longrightarrow> ids (cc_reverse c) = Map.empty"
    and "cc_cleared c \<Longrightarrow> emptied (ids (cc_streams c)) (cc_arriving c) (cc_inbound c)"
  using assms unfolding client_inv_def by blast+

lemma emptied_simps [simp]:
  "emptied Map.empty arriving inbound" "emptied m (Some a) inbound \<longleftrightarrow> msize m = 0 \<and> ran m \<subseteq> snd ` set inbound"
  by (simp_all add: emptied_def)

lemma emptied_delete: "emptied m arriving inbound \<Longrightarrow> finite (dom m) \<Longrightarrow> emptied (m(i := None)) arriving inbound"
  using msize_del_le [of m i] by (auto simp: emptied_def ran_def split: if_splits)

lemma emptied_insert:
  "emptied m (Some a) inbound \<Longrightarrow> finite (dom m) \<Longrightarrow> emptied (m(i \<mapsto> k)) None (inbound @ [(l, k)])"
  by (auto simp: emptied_def msize_def ran_def)

lemma emptied_arrived: "emptied m (Some a) inbound \<Longrightarrow> emptied m None inbound"
  by (simp add: emptied_def)

named_theorems client_keep \<open>operations that keep the client invariant\<close>

section \<open>Single updates\<close>

lemma ids_update [simp]: "ids (reg_update r k f) = ids r"
  by (simp add: reg_update_def)

lemma client_inv_new: "client_inv (NewClient attached)"
  by (simp add: client_inv_def NewClient_def ctab_s.table_empty ctab_l.table_empty ctab_p.table_empty
      ctab_r.table_empty)

lemma keep_stream_update [client_keep]:
  assumes "client_inv c"
    and "\<And>s. objs (cc_streams c) k = Some s \<Longrightarrow> stream_ok s \<Longrightarrow> stream_ok (f s) \<and> cs_id (f s) = cs_id s"
  shows "client_inv (c\<lparr>cc_streams := reg_update (cc_streams c) k f\<rparr>)"
  using assms ctab_s.table_update [of "cc_streams c" k f] by (simp add: client_inv_def)

lemma keep_listener_update [client_keep]:
  assumes "client_inv c"
    and "\<And>l. objs (cc_listeners c) k = Some l \<Longrightarrow> listener_ok l \<Longrightarrow> listener_ok (f l) \<and> cl_id (f l) = cl_id l"
  shows "client_inv (c\<lparr>cc_listeners := reg_update (cc_listeners c) k f\<rparr>)"
  using assms ctab_l.table_update [of "cc_listeners c" k f] by (simp add: client_inv_def)

lemma keep_packet_update [client_keep]:
  assumes "client_inv c"
    and "\<And>p. objs (cc_datagrams c) k = Some p \<Longrightarrow> packet_ok p \<Longrightarrow> packet_ok (f p) \<and> cp_id (f p) = cp_id p"
  shows "client_inv (c\<lparr>cc_datagrams := reg_update (cc_datagrams c) k f\<rparr>)"
  using assms ctab_p.table_update [of "cc_datagrams c" k f] by (simp add: client_inv_def)

lemma keep_reverse_update [client_keep]:
  assumes "client_inv c"
    and "\<And>r. objs (cc_reverse c) k = Some r \<Longrightarrow> reverse_ok r \<Longrightarrow> reverse_ok (f r) \<and> cr_id (f r) = cr_id r"
  shows "client_inv (c\<lparr>cc_reverse := reg_update (cc_reverse c) k f\<rparr>)"
  using assms ctab_r.table_update [of "cc_reverse c" k f] by (simp add: client_inv_def)

lemma keep_remove [client_keep]:
  assumes "client_inv c"
  shows "client_inv (removeStream c i)" and "client_inv (client_removeDatagram c i)"
    and "client_inv (client_removeReverseDatagram c i)" and "client_inv (client_removeListener c i)"
  using assms ctab_s.table_delete ctab_l.table_delete ctab_p.table_delete ctab_r.table_delete
    table_inv_D(1) [OF client_inv_D(1) [OF assms]]
  by (auto simp: client_inv_def removeStream_def client_removeDatagram_def
      client_removeReverseDatagram_def client_removeListener_def reg_delete_def emptied_delete)

text \<open>Fields outside the invariant.\<close>

lemma keep_fields [simp]:
  "client_inv (c\<lparr>cc_helloDone := x\<rparr>) = client_inv c"
  "client_inv (c\<lparr>cc_helloOnce := b\<rparr>) = client_inv c"
  "client_inv (c\<lparr>cc_handshakeComplete := b\<rparr>) = client_inv c"
  "client_inv (c\<lparr>cc_peerCapabilities := n\<rparr>) = client_inv c"
  "client_inv (c\<lparr>cc_peerInstanceID := n\<rparr>) = client_inv c"
  "client_inv (c\<lparr>cc_running := b\<rparr>) = client_inv c"
  "client_inv (c\<lparr>cc_transportClosed := b\<rparr>) = client_inv c"
  "client_inv (c\<lparr>cc_closeErr := e\<rparr>) = client_inv c"
  "client_inv (c\<lparr>cc_closedFlows := x2\<rparr>) = client_inv c"
  "client_inv (c\<lparr>cc_tx := (cc_tx c)\<lparr>ct_script := x3\<rparr>\<rparr>) = client_inv c"
  by (simp_all add: client_inv_def)

lemma keep_write [client_keep]:
  "client_inv c \<Longrightarrow> Validate f = None \<Longrightarrow> client_inv (fst (client_write c f))"
  by (simp add: client_inv_def client_write_def Let_def split: prod.splits)

lemma client_write_inv:
  "client_write c f = (c', r) \<Longrightarrow> client_inv c \<Longrightarrow> Validate f = None \<Longrightarrow> client_inv c'"
  using keep_write [of c f] by simp

lemma client_write_keeps [simp]:
  "cc_streams (fst (client_write c f)) = cc_streams c" "cc_listeners (fst (client_write c f)) = cc_listeners c"
  "cc_datagrams (fst (client_write c f)) = cc_datagrams c" "cc_reverse (fst (client_write c f)) = cc_reverse c"
  "cc_closed (fst (client_write c f)) = cc_closed c" "cc_nextID (fst (client_write c f)) = cc_nextID c"
  by (simp_all add: client_write_def Let_def split: prod.splits)

lemma client_write_same:
  assumes "client_write c f = (c', r)"
  shows "cc_streams c' = cc_streams c" "cc_listeners c' = cc_listeners c" "cc_datagrams c' = cc_datagrams c"
    "cc_reverse c' = cc_reverse c" "cc_closed c' = cc_closed c" "cc_nextID c' = cc_nextID c"
  using client_write_keeps [of c f] assms by simp_all

section \<open>Valid frames\<close>

lemma cframe_valid [simp]:
  "Validate (cframe TypeHello 0 (EncodeCapabilities caps)) = None"
  "i \<noteq> 0 \<Longrightarrow> 0 < length p \<Longrightarrow> length p \<le> MaxTargetSize \<Longrightarrow> Validate (cframe TypeOpen i p) = None"
  "i \<noteq> 0 \<Longrightarrow> 0 < length p \<Longrightarrow> length p \<le> MaxTargetSize \<Longrightarrow> Validate (cframe TypeListenOpen i p) = None"
  "i \<noteq> 0 \<Longrightarrow> 0 < length p \<Longrightarrow> length p \<le> MaxTargetSize \<Longrightarrow> Validate (cframe TypeListenDatagramOpen i p) = None"
  "i \<noteq> 0 \<Longrightarrow> Validate (cframe TypeDatagramOpen i []) = None"
  "i \<noteq> 0 \<Longrightarrow> Validate (cframe TypeDatagramClose i []) = None"
  "i \<noteq> 0 \<Longrightarrow> Validate (cframe TypeListenDatagramClose i []) = None"
  "i \<noteq> 0 \<Longrightarrow> Validate (cframe TypeClose i []) = None"
  "i \<noteq> 0 \<Longrightarrow> Validate (cframe TypeHalfClose i []) = None"
  "i \<noteq> 0 \<Longrightarrow> Validate (cframe TypeListenClose i []) = None"
  "i \<noteq> 0 \<Longrightarrow> Validate (cframe TypeListenCommit i []) = None"
  "i \<noteq> 0 \<Longrightarrow> Validate (cframe TypeWindowUpdate i (EncodeWindowUpdate n)) = None"
  "i \<noteq> 0 \<Longrightarrow> 0 < length p \<Longrightarrow> length p \<le> MaxDataSize \<Longrightarrow> Validate (cframe TypeData i p) = None"
  "i \<noteq> 0 \<Longrightarrow> length p \<le> MaxErrorSize \<Longrightarrow> Validate (cframe TypeReset i p) = None"
  "i \<noteq> 0 \<Longrightarrow> Validate (cframe TypeReset i (ErrorPayload e)) = None"
  using length_ErrorPayload [of e]
  by (simp_all add: cframe_def Validate_def frame_rules EncodeCapabilities_def EncodeWindowUpdate_def)

lemma datagram_frame_valid:
  "i \<noteq> 0 \<Longrightarrow> EncodeDatagram a d = Inr p \<Longrightarrow>
     Validate (cframe TypeDatagramData i p) = None \<and> Validate (cframe TypeListenDatagramData i p) = None"
  using encoded_datagram_length [of a d p] by (simp add: cframe_def Validate_def frame_rules)


section \<open>Failing objects\<close>

lemma keep_writeClose [client_keep]: "client_inv c \<Longrightarrow> Validate f = None \<Longrightarrow> client_inv (writeClose c f)"
  by (simp add: writeClose_def keep_write)

lemma keep_hello [client_keep]: "client_inv c \<Longrightarrow> client_inv (hello_result r c)"
  by (simp add: hello_result_def)

lemma keep_invalidate [client_keep]: "client_inv c \<Longrightarrow> client_inv (listener_invalidate c k)"
  unfolding listener_invalidate_def
  by (auto intro!: client_keep simp: listener_ok_def split: option.splits)

lemma keep_close_once [client_keep]: "client_inv c \<Longrightarrow> client_inv (fst (reverse_close_once c k))"
  unfolding reverse_close_once_def
  by (auto intro!: client_keep split: option.splits)

lemma keep_reverse_fail [client_keep]: "client_inv c \<Longrightarrow> client_inv (reverse_fail c k err)"
  unfolding reverse_fail_def by (auto intro!: client_keep)

lemma keep_foldl: "client_inv c \<Longrightarrow> (\<And>c k. client_inv c \<Longrightarrow> client_inv (f c k)) \<Longrightarrow> client_inv (foldl f c ks)"
  by (induction ks arbitrary: c) auto

text \<open>The flag \<open>cc_cleared\<close> is set with the maps still full; the invariant holds again once they are empty.\<close>

lemma keep_uncleared: "client_inv c \<Longrightarrow> client_inv (c\<lparr>cc_cleared := False\<rparr>)"
  by (simp add: client_inv_def)

lemma clear_inv:
  "client_inv (c\<lparr>cc_cleared := False\<rparr>) \<Longrightarrow> (cc_cleared c \<Longrightarrow> cc_closed c) \<Longrightarrow>
     client_inv (c\<lparr>cc_streams := (cc_streams c)\<lparr>ids := Map.empty\<rparr>, cc_listeners := (cc_listeners c)\<lparr>ids := Map.empty\<rparr>,
                 cc_datagrams := (cc_datagrams c)\<lparr>ids := Map.empty\<rparr>, cc_reverse := (cc_reverse c)\<lparr>ids := Map.empty\<rparr>\<rparr>)"
  by (simp add: client_inv_def ctab_s.table_clear ctab_l.table_clear ctab_p.table_clear ctab_r.table_clear)

lemma fail_objects_inv:
  "client_inv (c\<lparr>cc_cleared := False\<rparr>) \<Longrightarrow> (cc_cleared c \<Longrightarrow> cc_closed c) \<Longrightarrow> client_inv (fail_objects c os err)"
  unfolding fail_objects_def Let_def by (intro keep_foldl clear_inv) (auto intro!: client_keep)

lemma keep_reset_peer [client_keep]: "client_inv c \<Longrightarrow> client_inv (ResetPeerState c os cause)"
  by (simp add: ResetPeerState_def fail_objects_inv keep_uncleared client_inv_D(7))

lemma keep_fail_mark [client_keep]: "client_inv c \<Longrightarrow> client_inv (fail_mark c err)"
  by (simp add: fail_mark_def hello_result_def client_inv_def)

lemma keep_fail_clear: "client_inv c \<Longrightarrow> cc_closed c \<Longrightarrow> client_inv (fail_clear c os err)"
  unfolding fail_clear_def by (intro fail_objects_inv) (simp_all add: client_inv_def)

lemma fail_mark_closed: "cc_closed (fail_mark c err)"
  by (simp add: fail_mark_def hello_result_def)

lemma keep_client_fail [client_keep]: "client_inv c \<Longrightarrow> client_inv (client_fail c os err)"
  by (simp add: client_fail_def keep_fail_mark keep_fail_clear fail_mark_closed)

lemma keep_client_close [client_keep]: "client_inv c \<Longrightarrow> client_inv (fst (client_Close c os))"
  by (simp add: client_Close_def closeTransport_def Let_def keep_client_fail)

section \<open>Opening and closing objects\<close>

lemma keep_next [client_keep]: "client_inv c \<Longrightarrow> client_inv (fst (nextStreamID c))"
  by (simp add: client_inv_def nextStreamID_def)

lemma next_id: "client_inv c \<Longrightarrow> cc_nextID c + 2 \<noteq> 0"
proof -
  assume "client_inv c"
  then have "odd (cc_nextID c + 2)" by (simp add: client_inv_def)
  then show ?thesis by (metis even_zero)
qed

lemma insert_inv:
  assumes "client_inv c" and "\<not> cc_closed c"
  shows "reg_count (cc_streams c) < MaxConcurrentStreams \<Longrightarrow> stream_ok s \<Longrightarrow>
           client_inv (c\<lparr>cc_streams := reg_insert (cc_streams c) (cs_id s) s\<rparr>)"
    and "reg_count (cc_listeners c) < MaxConcurrentListeners \<Longrightarrow> listener_ok l \<Longrightarrow>
           client_inv (c\<lparr>cc_listeners := reg_insert (cc_listeners c) (cl_id l) l\<rparr>)"
    and "reg_count (cc_datagrams c) < MaxConcurrentDatagrams \<Longrightarrow> packet_ok p \<Longrightarrow>
           client_inv (c\<lparr>cc_datagrams := reg_insert (cc_datagrams c) (cp_id p) p\<rparr>)"
    and "reg_count (cc_reverse c) < MaxConcurrentReverseDatagrams \<Longrightarrow> reverse_ok r \<Longrightarrow>
           client_inv (c\<lparr>cc_reverse := reg_insert (cc_reverse c) (cr_id r) r\<rparr>)"
  using assms ctab_s.table_insert ctab_l.table_insert ctab_p.table_insert ctab_r.table_insert
  by (simp_all add: client_inv_def)

lemma keep_dial_begin [client_keep]:
  assumes "client_inv c" shows "client_inv (fst (DialContext_begin c target))"
proof -
  let ?c = "fst (nextStreamID c)" and ?i = "cc_nextID c + 2"
  have c: "client_inv ?c" and i: "?i \<noteq> 0" using assms by (simp_all add: keep_next next_id)
  have "client_inv (?c\<lparr>cc_streams := reg_insert (cc_streams ?c) ?i (newClientStream ?i target)\<rparr>)"
    if "\<not> cc_closed ?c" "\<not> MaxConcurrentStreams \<le> reg_count (cc_streams ?c)"
    using insert_inv(1) [OF c that(1), of "newClientStream ?i target"] that i by simp
  then show ?thesis
    using c i assms
    by (auto simp: DialContext_begin_def nextStreamID_def Let_def client_write_inv keep_remove
        split: prod.splits option.splits)
qed

lemma keep_packet_begin [client_keep]:
  assumes "client_inv c" shows "client_inv (fst (OpenPacketContext_begin c))"
proof -
  let ?c = "fst (nextStreamID c)" and ?i = "cc_nextID c + 2"
  have c: "client_inv ?c" and i: "?i \<noteq> 0" using assms by (simp_all add: keep_next next_id)
  have "client_inv (?c\<lparr>cc_datagrams := reg_insert (cc_datagrams ?c) ?i (newPacketConn ?i)\<rparr>)"
    if "\<not> cc_closed ?c" "\<not> MaxConcurrentDatagrams \<le> reg_count (cc_datagrams ?c)"
    using insert_inv(3) [OF c that(1), of "newPacketConn ?i"] that i by simp
  then show ?thesis
    using c i
    by (auto simp: OpenPacketContext_begin_def nextStreamID_def Let_def client_write_inv keep_remove
        split: prod.splits option.splits)
qed

lemma keep_listener_cancel [client_keep]: "client_inv c \<Longrightarrow> client_inv (listener_cancel c k)"
  unfolding listener_cancel_def by (auto intro!: client_keep simp: listener_ok_def)

lemma keep_reverse_cancel [client_keep]: "client_inv c \<Longrightarrow> client_inv (reverse_cancel c k)"
  unfolding reverse_cancel_def by (auto intro!: client_keep simp: reverse_ok_def flows_ok_def)

lemma keep_reserve_begin [client_keep]:
  assumes "client_inv c" shows "client_inv (fst (ReserveReverseForward_begin c windowsAddr target))"
proof -
  let ?c = "fst (nextStreamID c)" and ?i = "cc_nextID c + 2"
  have c: "client_inv ?c" and i: "?i \<noteq> 0" using assms by (simp_all add: keep_next next_id)
  have "client_inv (?c\<lparr>cc_listeners := reg_insert (cc_listeners ?c) ?i (newClientListener ?i windowsAddr target)\<rparr>)"
    if "\<not> cc_closed ?c" "\<not> MaxConcurrentListeners \<le> reg_count (cc_listeners ?c)"
    using insert_inv(2) [OF c that(1), of "newClientListener ?i windowsAddr target"] that i by simp
  then show ?thesis
    using c i assms
    by (auto simp: ReserveReverseForward_begin_def nextStreamID_def Let_def client_write_inv
        keep_remove keep_listener_cancel split: prod.splits option.splits)
qed

lemma keep_reverse_begin [client_keep]:
  assumes "client_inv c" shows "client_inv (fst (ReverseDatagramForward_begin resolve c windowsAddr target))"
proof -
  let ?c = "fst (nextStreamID c)" and ?i = "cc_nextID c + 2"
  have c: "client_inv ?c" and i: "?i \<noteq> 0" using assms by (simp_all add: keep_next next_id)
  have "client_inv (?c\<lparr>cc_reverse := reg_insert (cc_reverse ?c) ?i (newClientReverseDatagram ?i windowsAddr t)\<rparr>)"
    if "\<not> cc_closed ?c" "\<not> MaxConcurrentReverseDatagrams \<le> reg_count (cc_reverse ?c)" for t
    using insert_inv(4) [OF c that(1), of "newClientReverseDatagram ?i windowsAddr t"] that i by simp
  then show ?thesis
    using c i assms
    by (auto simp: ReverseDatagramForward_begin_def nextStreamID_def Let_def client_write_inv
        keep_remove keep_reverse_cancel split: prod.splits option.splits sum.splits)
qed

text \<open>The id of a stored object is never zero, so the frames about it are valid.\<close>

lemma object_ids:
  assumes "client_inv c"
  shows "objs (cc_streams c) k = Some s \<Longrightarrow> cs_id s \<noteq> 0" and "objs (cc_listeners c) k = Some l \<Longrightarrow> cl_id l \<noteq> 0"
    and "objs (cc_datagrams c) k = Some p \<Longrightarrow> cp_id p \<noteq> 0" and "objs (cc_reverse c) k = Some r \<Longrightarrow> cr_id r \<noteq> 0"
  using table_inv_D(5) [OF client_inv_D(1) [OF assms], of k s] table_inv_D(5) [OF client_inv_D(2) [OF assms], of k l]
    table_inv_D(5) [OF client_inv_D(3) [OF assms], of k p] table_inv_D(5) [OF client_inv_D(4) [OF assms], of k r]
  by (auto simp: object_ok_defs)

lemma objects_ok:
  assumes "client_inv c"
  shows "objs (cc_streams c) k = Some s \<Longrightarrow> stream_ok s" and "objs (cc_reverse c) k = Some r \<Longrightarrow> reverse_ok r"
  using table_inv_D(5) [OF client_inv_D(1) [OF assms], of k s] table_inv_D(5) [OF client_inv_D(4) [OF assms], of k r]
  by auto

lemma keep_packet_close [client_keep]: "client_inv c \<Longrightarrow> client_inv (packet_Close c k)"
  unfolding packet_Close_def Let_def
  by (auto intro!: client_keep simp: packet_ok_def object_ids split: option.splits)
     (simp_all add: packet_fail_def packet_ready_def Let_def)

lemma keep_stream_close [client_keep]: "client_inv c \<Longrightarrow> client_inv (stream_Close c k)"
  unfolding stream_Close_def Let_def
  by (auto intro!: client_keep simp: object_ids split: option.splits) (simp_all add: stream_ok_def)

lemma keep_listener_close [client_keep]: "client_inv c \<Longrightarrow> client_inv (listener_Close c k)"
  unfolding listener_Close_def by (auto intro!: client_keep simp: object_ids split: option.splits)

lemma keep_reverse_close [client_keep]: "client_inv c \<Longrightarrow> client_inv (reverse_Close c k)"
  using keep_close_once [of c k] unfolding reverse_Close_def
  by (auto intro!: keep_writeClose simp: object_ids split: option.splits prod.splits bool.splits)

lemma keep_packet_finish:
  "client_inv c \<Longrightarrow> OpenPacketContext_finish c i k w = Some (c', r) \<Longrightarrow> client_inv c'"
  unfolding OpenPacketContext_finish_def
  by (auto intro!: client_keep simp: packet_ok_def Let_def split: openWait.splits option.splits if_splits)

lemma keep_dial_finish:
  "client_inv c \<Longrightarrow> DialContext_finish c i k w = Some (c', r) \<Longrightarrow> client_inv c'"
  unfolding DialContext_finish_def
  by (auto intro!: client_keep simp: stream_ok_def Let_def split: openWait.splits option.splits if_splits)

lemma keep_reserve_finish:
  "client_inv c \<Longrightarrow> ReserveReverseForward_finish c i k w = Some (c', r) \<Longrightarrow> client_inv c'"
  unfolding ReserveReverseForward_finish_def
  by (auto intro!: client_keep simp: listener_ok_def Let_def
      split: openWait.splits option.splits if_splits sum.splits)

lemma keep_reverse_finish:
  "client_inv c \<Longrightarrow> ReverseDatagramForward_finish c i k w = Some (c', r) \<Longrightarrow> client_inv c'"
  unfolding ReverseDatagramForward_finish_def
  by (auto intro!: client_keep simp: reverse_ok_def flows_ok_def Let_def
      split: openWait.splits option.splits if_splits sum.splits)

lemma keep_commit [client_keep]: "client_inv c \<Longrightarrow> client_inv (fst (reservation_Commit c r))"
  unfolding reservation_Commit_def
  by (auto intro: client_write_inv simp: object_ids split: option.splits prod.splits)

lemma keep_handshake_begin [client_keep]: "client_inv c \<Longrightarrow> client_inv (fst (Handshake_begin c required))"
  unfolding Handshake_begin_def
  by (auto intro: client_write_inv split: option.splits prod.splits)

lemma keep_rehandshake [client_keep]: "client_inv c \<Longrightarrow> client_inv (fst (Rehandshake_begin c required))"
  unfolding Rehandshake_begin_def by (rule keep_handshake_begin) (simp add: client_inv_def)

lemma keep_handshake_finish:
  "client_inv c \<Longrightarrow> Handshake_finish c required w = Some (c', r) \<Longrightarrow> client_inv c'"
  unfolding Handshake_finish_def
  by (auto simp: client_inv_def split: helloWait.splits option.splits sum.splits if_splits)

section \<open>Dispatch\<close>

lemma keep_packet_handle [client_keep]: "client_inv c \<Longrightarrow> client_inv (packet_handle c k f)"
  unfolding packet_handle_def Let_def
  by (auto intro!: client_keep simp: packet_ok_def split: sum.splits)
     (simp_all add: packet_fail_def packet_ready_def Let_def)

lemma reverse_queue_ok [simp]:
  "reverse_ok r \<Longrightarrow> length ps \<le> datagramQueueDepth \<Longrightarrow> reverse_ok (r\<lparr>cr_incoming := ps\<rparr>)"
  by (simp add: reverse_ok_def flows_ok_def)

lemma reverse_queue_bound: "reverse_ok r \<Longrightarrow> length (cr_incoming r) \<le> datagramQueueDepth"
  by (simp add: reverse_ok_def)

lemma keep_reverse_handle [client_keep]: "client_inv c \<Longrightarrow> client_inv (reverse_handle c k f)"
  unfolding reverse_handle_def Let_def by (auto intro!: client_keep)

lemma keep_write_stream_update:
  assumes "client_inv c" and "Validate f = None"
    and "\<And>s. objs (cc_streams c) k = Some s \<Longrightarrow> stream_ok s \<Longrightarrow> stream_ok (g s) \<and> cs_id (g s) = cs_id s"
  shows "client_inv ((fst (client_write c f))\<lparr>cc_streams := reg_update (cc_streams c) k g\<rparr>)"
  using keep_stream_update [OF keep_write [OF assms(1,2)], of k g] assms(3) by simp

lemma keep_stream_handle [client_keep]:
  assumes c: "client_inv c" and k: "objs (cc_streams c) k = Some s" and f: "Validate f = None"
  shows "client_inv (stream_handle c k s f)"
proof -
  have s: "stream_ok s" by (rule objects_ok(1) [OF c k])
  have data: "event_ok \<lparr>se_data = fPayload f, se_err = None\<rparr>" if "fType f = TypeData"
    using f that by (auto simp: event_ok_def Validate_def frame_rules)
  have win: "stream_ok (s'\<lparr>cs_window := w\<rparr>)" if "window_add (cs_window s) n = (w, True)" "stream_ok s'" for w n s'
    using that window_ok_add [of "cs_window s" n] s by (simp add: stream_ok_def)
  show ?thesis
    unfolding stream_handle_def Let_def using c k s
    by (auto intro!: client_keep keep_write_stream_update simp: data win object_ids split: prod.splits bool.splits)
       (auto simp: stream_ok_def data)
qed

text \<open>A cleared client has no listeners, so no further inbound stream arrives.\<close>

lemma keep_inbound_lookup [client_keep]:
  assumes c: "client_inv c" and i: "i \<noteq> 0" shows "client_inv (inbound_lookup c i payload)"
proof -
  have "client_inv (c\<lparr>cc_arriving := Some (i, l, t)\<rparr>)" if "ids (cc_listeners c) j = Some l" for l j t
    using c i that client_inv_D(8) [OF c] by (auto simp: client_inv_def)
  then show ?thesis
    unfolding inbound_lookup_def using c i
    by (auto intro!: keep_write simp: reg_find_Some length_str split: option.splits prod.splits)
qed

lemma keep_arrived:
  assumes c: "client_inv c" shows "client_inv (c\<lparr>cc_arriving := None\<rparr>)"
  using c by (auto simp: client_inv_def emptied_def split: if_splits)

lemma keep_arrive_insert:
  assumes c: "client_inv c" and a: "cc_arriving c = Some (i, l, t)" and n: "\<not> MaxConcurrentStreams \<le> reg_count (cc_streams c)"
  shows "client_inv (c\<lparr>cc_arriving := None, cc_streams := reg_insert (cc_streams c) i (stream_openDone None (newClientStream i t)),
           cc_inbound := cc_inbound c @ [(l, nextobj (cc_streams c))]\<rparr>)"
proof -
  let ?s = "stream_openDone None (newClientStream i t)"
  have i: "i \<noteq> 0" using c a by (simp add: client_inv_def)
  have ok: "stream_ok ?s" "cs_id ?s = i" using i by simp_all
  have t: "stream_table (reg_insert (cc_streams c) i ?s)"
    using ctab_s.table_insert [of "cc_streams c" ?s] client_inv_D(1) [OF c] n ok by simp
  have "emptied ((ids (cc_streams c))(i \<mapsto> nextobj (cc_streams c))) None (cc_inbound c @ [(l, nextobj (cc_streams c))])"
    if "cc_cleared c"
    using emptied_insert [of "ids (cc_streams c)" "(i, l, t)" "cc_inbound c"] client_inv_D(11) [OF c that] a
      table_inv_D(1) [OF client_inv_D(1) [OF c]] by simp
  then show ?thesis using c t by (simp add: client_inv_def reg_insert_def)
qed

lemma keep_inbound_insert [client_keep]:
  assumes c: "client_inv c" shows "client_inv (inbound_insert c)"
proof (cases "cc_arriving c")
  case (Some a)
  obtain i l t where a: "cc_arriving c = Some (i, l, t)" using Some by (cases a) auto
  then have i: "i \<noteq> 0" using c by (simp add: client_inv_def)
  show ?thesis
    unfolding inbound_insert_def a using keep_arrived [OF c] keep_arrive_insert [OF c a] i
    by (auto intro!: keep_write simp: Let_def length_str)
qed (use c in \<open>simp add: inbound_insert_def\<close>)

lemma keep_inbound [client_keep]: "client_inv c \<Longrightarrow> i \<noteq> 0 \<Longrightarrow> client_inv (inboundOpen c i payload)"
  unfolding inboundOpen_def by (intro keep_inbound_insert keep_inbound_lookup)

lemma keep_dispatch [client_keep]:
  assumes c: "client_inv c" and f: "Validate f = None" shows "client_inv (client_dispatch c f)"
proof -
  have "fStreamID f \<noteq> 0" if "fType f = TypeInboundOpen"
    using f that by (simp add: Validate_def frame_rules)
  then show ?thesis
    unfolding client_dispatch_def Let_def using c f
    by (auto intro!: client_keep simp: reg_find_Some split: option.splits prod.splits)
qed

section \<open>Streams\<close>

lemma keep_deliver [client_keep]:
  assumes c: "client_inv c" and k: "objs (cc_streams c) k = Some s"
  shows "client_inv (fst (stream_deliver c k s n))"
proof -
  have "client_inv (c\<lparr>cc_streams := reg_update (cc_streams c) k (\<lambda>s. s\<lparr>cs_readBuf := drop n (cs_readBuf s)\<rparr>)\<rparr>)"
    using c by (auto intro!: client_keep simp: stream_ok_def)
  then show ?thesis
    unfolding stream_deliver_def Let_def using object_ids(1) [OF c k]
    by (auto intro: client_write_inv split: prod.splits)
qed

lemma keep_event [client_keep]:
  assumes c: "client_inv c" and ev: "event_ok ev"
  shows "client_inv (fst (stream_event c k ev drained))"
proof -
  have "client_inv (pop_event c k)"
    unfolding pop_event_def using c by (intro keep_stream_update) (auto simp: stream_ok_def list_all_tl)
  with ev show ?thesis
    unfolding stream_event_def Let_def
    by (auto intro!: keep_stream_update simp: stream_ok_def event_ok_def split: option.splits)
qed

lemma event_result_inv:
  "stream_event c k ev drained = (c1, r) \<Longrightarrow> client_inv c \<Longrightarrow> event_ok ev \<Longrightarrow> client_inv c1"
  using keep_event [of c ev k drained] by simp

text \<open>One round of \<open>Read\<close>: a call that need not wait, or one whose stream was half-closed.\<close>

lemma Read_buffered:
  "n \<noteq> 0 \<Longrightarrow> objs (cc_streams c) k = Some s \<Longrightarrow> cs_readBuf s \<noteq> [] \<Longrightarrow>
     stream_Read c k n wakes = Some (stream_deliver c k s n)"
  by (subst stream_Read.simps) simp

lemma Read_empty:
  "n \<noteq> 0 \<Longrightarrow> objs (cc_streams c) k = Some s \<Longrightarrow> cs_readBuf s = [] \<Longrightarrow> cs_incoming s = [] \<Longrightarrow>
     cs_readEOF s \<or> wakes = [] \<Longrightarrow>
     stream_Read c k n wakes = (if cs_readEOF s then Some (c, [], Some IoEOF) else None)"
  by (subst stream_Read.simps) auto

lemma Read_event:
  "n \<noteq> 0 \<Longrightarrow> objs (cc_streams c) k = Some s \<Longrightarrow> cs_readBuf s = [] \<Longrightarrow> cs_incoming s = ev # evs \<Longrightarrow>
     cs_readEOF s \<or> wakes = [] \<Longrightarrow>
     stream_Read c k n wakes =
       (case stream_event c k ev (cs_readEOF s) of
          (c1, Some (out, err)) \<Rightarrow> Some (c1, out, err)
        | (c1, None) \<Rightarrow> stream_Read c1 k n wakes)"
  by (subst stream_Read.simps) auto

lemma keep_read:
  "client_inv c \<Longrightarrow> stream_Read c k n [] = Some (c', r) \<Longrightarrow> client_inv c'"
proof (induction "queued c k" arbitrary: c rule: less_induct)
  case less
  show ?case
  proof (cases "n = 0 \<or> objs (cc_streams c) k = None")
    case True
    show ?thesis using less(2,3) True by (subst (asm) stream_Read.simps) (auto split: if_splits)
  next
    case False
    then obtain s where n: "n \<noteq> 0" and s: "objs (cc_streams c) k = Some s" by auto
    consider "cs_readBuf s \<noteq> []" | "cs_readBuf s = []" "cs_incoming s = []"
      | ev evs where "cs_readBuf s = []" "cs_incoming s = ev # evs"
      by (cases "cs_incoming s") auto
    then show ?thesis
    proof cases
      case 1
      then show ?thesis
        using less(3) keep_deliver [OF less(2) s, of n] Read_buffered [OF n s] by simp
    next
      case 2
      then show ?thesis
        using less(2,3) Read_empty [OF n s, of "[]"] by (auto split: if_splits)
    next
      case 3
      obtain c1 o1 where e: "stream_event c k ev (cs_readEOF s) = (c1, o1)"
        by (cases "stream_event c k ev (cs_readEOF s)")
      have "event_ok ev" using objects_ok(1) [OF less(2) s] 3 by (simp add: stream_ok_def)
      then have "client_inv c1" by (rule event_result_inv [OF e less(2)])
      then show ?thesis
        using less(1) [of c1] less(3) e Read_event [OF n s 3, of "[]"] queued_event_less [OF e [symmetric] s] 3
        by (cases o1) auto
    qed
  qed
qed

text \<open>One round of \<open>Write\<close>: with credit it sends the next chunk, without it waits.\<close>

lemma Write_chunk:
  assumes p: "p \<noteq> []" and s: "objs (cc_streams c) k = Some s" and a: "0 < available (cs_window s)"
    and m: "m = min (min MaxDataSize (length p)) (available (cs_window s))"
    and cw: "client_write (c\<lparr>cc_streams := reg_update (cc_streams c) k
                 (\<lambda>s. s\<lparr>cs_window := (cs_window s)\<lparr>available := available (cs_window s) - m\<rparr>\<rparr>)\<rparr>)
               (cframe TypeData (cs_id s) (take m p)) = (c2, e)"
  shows "stream_Write c k p written waits =
           (if e = None then stream_Write c2 k (drop m p) (written + m) (tl waits) else Some (c2, written, e))"
proof -
  let ?n = "if MaxDataSize < length p then MaxDataSize else length p"
  have n: "min ?n (available (cs_window s)) = m" "0 < m" using m p a by auto
  have t: "window_take (cs_window s) ?n ws
             = Some ((cs_window s)\<lparr>available := available (cs_window s) - m\<rparr>, Inr m)" for ws
    using window_take_now [OF a, of ?n ws] n(1) by simp
  have u: "reg_update (cc_streams c) k (\<lambda>s. s\<lparr>cs_window := (cs_window s)\<lparr>available := available (cs_window s) - m\<rparr>\<rparr>)
      = reg_update (cc_streams c) k (cs_window_update (\<lambda>_. (cs_window s)\<lparr>available := available (cs_window s) - m\<rparr>))"
    using s by (simp add: reg_update_def)
  show ?thesis
    using p s t cw n(2) unfolding u
    by (subst stream_Write.simps) (auto simp: Let_def split: option.splits)
qed

lemma Write_starved:
  "p \<noteq> [] \<Longrightarrow> objs (cc_streams c) k = Some s \<Longrightarrow> available (cs_window s) = 0 \<Longrightarrow>
     stream_Write c k p written [] = None"
  by (subst stream_Write.simps) (simp add: Let_def window_take.simps)

lemma keep_stream_write:
  "client_inv c \<Longrightarrow> stream_Write c k p written [] = Some (c', r) \<Longrightarrow> client_inv c'"
proof (induction "length p" arbitrary: c p written rule: less_induct)
  case less
  show ?case
  proof (cases "p = [] \<or> objs (cc_streams c) k = None")
    case True
    show ?thesis using less(2,3) True by (subst (asm) stream_Write.simps) (auto split: if_splits)
  next
    case False
    then obtain s where p: "p \<noteq> []" and s: "objs (cc_streams c) k = Some s" by auto
    have a: "0 < available (cs_window s)"
      using less(3) Write_starved [OF p s] by (cases "available (cs_window s)") auto
    define m where m: "m = min (min MaxDataSize (length p)) (available (cs_window s))"
    let ?c = "c\<lparr>cc_streams := reg_update (cc_streams c) k
                 (\<lambda>s. s\<lparr>cs_window := (cs_window s)\<lparr>available := available (cs_window s) - m\<rparr>\<rparr>)\<rparr>"
    let ?f = "cframe TypeData (cs_id s) (take m p)"
    obtain c2 e where cw: "client_write ?c ?f = (c2, e)" by (cases "client_write ?c ?f")
    have m0: "0 < m" "m \<le> length p" "m \<le> MaxDataSize" using m a p by auto
    have "client_inv ?c"
      using less(2) by (intro keep_stream_update) (auto simp: stream_ok_def window_ok_def)
    then have "client_inv c2"
      by (rule client_write_inv [OF cw]) (use object_ids(1) [OF less(2) s] m0 p in simp)
    then show ?thesis
      using less(1) [of "drop m p" c2 "written + m"] less(3) Write_chunk [OF p s a m cw, of written "[]"] m0 p
      by (auto split: if_splits)
  qed
qed

lemma keep_close_write [client_keep]: "client_inv c \<Longrightarrow> client_inv (fst (CloseWrite c k))"
  unfolding CloseWrite_def
  by (auto intro!: client_keep simp: stream_ok_def object_ids split: option.splits)

lemma keep_accept_inbound [client_keep]: "client_inv c \<Longrightarrow> client_inv (acceptInbound c k dialErr)"
  unfolding acceptInbound_def by (auto intro!: client_keep simp: object_ids split: option.splits)

lemma keep_deadline [client_keep]:
  "client_inv c \<Longrightarrow> client_inv (c\<lparr>cc_streams := reg_update (cc_streams c) k (stream_SetDeadline t)\<rparr>)"
  "client_inv c \<Longrightarrow> client_inv (c\<lparr>cc_streams := reg_update (cc_streams c) k (stream_SetReadDeadline t)\<rparr>)"
  "client_inv c \<Longrightarrow> client_inv (c\<lparr>cc_streams := reg_update (cc_streams c) k (stream_SetWriteDeadline t)\<rparr>)"
  "client_inv c \<Longrightarrow> client_inv (c\<lparr>cc_datagrams := reg_update (cc_datagrams c) k (packet_SetDeadline t)\<rparr>)"
  "client_inv c \<Longrightarrow> client_inv (c\<lparr>cc_datagrams := reg_update (cc_datagrams c) k (packet_SetReadDeadline t)\<rparr>)"
  "client_inv c \<Longrightarrow> client_inv (c\<lparr>cc_datagrams := reg_update (cc_datagrams c) k (packet_SetWriteDeadline t)\<rparr>)"
  by (auto intro!: keep_stream_update keep_packet_update simp: stream_ok_def packet_ok_def
      stream_SetDeadline_def stream_SetReadDeadline_def stream_SetWriteDeadline_def
      packet_SetDeadline_def packet_SetReadDeadline_def packet_SetWriteDeadline_def)

section \<open>Datagrams\<close>

lemma keep_packet_read:
  "client_inv c \<Longrightarrow> packet_ReadFrom c k n [] = Some (c', r) \<Longrightarrow> client_inv c'"
  by (auto intro!: client_keep simp: pop_packet_def packet_ok_def split: option.splits list.splits)

lemma keep_packet_write [client_keep]: "client_inv c \<Longrightarrow> client_inv (fst (packet_WriteTo c k now data address))"
  unfolding packet_WriteTo_def
  by (auto intro: client_write_inv simp: object_ids datagram_frame_valid split: option.splits prod.splits sum.splits)

lemma keep_remove_flow [client_keep]:
  assumes c: "client_inv c" shows "client_inv (removeFlow c k x)"
proof (cases "objs (cc_reverse c) k")
  case (Some r)
  have r: "reverse_ok r" by (rule objects_ok(2) [OF c Some])
  show ?thesis
  proof (cases "length (cr_flowObjs r) \<le> x")
    case False
    let ?r = "(if cr_flows r (fl_key (cr_flowObjs r ! x)) = Some x
               then r\<lparr>cr_flows := (cr_flows r)(fl_key (cr_flowObjs r ! x) := None)\<rparr> else r)
              \<lparr>cr_flowObjs := (cr_flowObjs r)[x := (cr_flowObjs r ! x)\<lparr>fl_closed := True\<rparr>]\<rparr>"
    have "flows_ok ?r"
      using r False flows_close [of r x] flows_absent [of r x] by (auto simp: reverse_ok_def)
    then have "reverse_ok ?r" using r by (simp add: reverse_ok_def)
    then have "client_inv (c\<lparr>cc_reverse := reg_update (cc_reverse c) k (\<lambda>_. ?r)\<rparr>)"
      using c Some by (intro keep_reverse_update) auto
    then show ?thesis
      using Some False by (cases "cr_flows r (fl_key (cr_flowObjs r ! x)) = Some x")
        (simp_all add: removeFlow_def Let_def client_inv_def)
  qed (use c Some in \<open>simp add: removeFlow_def\<close>)
qed (use c in \<open>simp add: removeFlow_def\<close>)

lemma keep_reverse_write [client_keep]:
  assumes c: "client_inv c" shows "client_inv (reverse_writeDatagram resolve dial writeErr c k payload)"
proof -
  have add: "client_inv (c\<lparr>cc_reverse := reg_update (cc_reverse c) k (\<lambda>_. r\<lparr>cr_flowObjs := cr_flowObjs r @ [f],
               cr_flows := (cr_flows r)(key \<mapsto> length (cr_flowObjs r))\<rparr>)\<rparr>)"
    if "objs (cc_reverse c) k = Some r" "\<not> cr_done r" "cr_flows r key = None"
      "\<not> MaxReverseDatagramFlows \<le> msize (cr_flows r)" "fl_key f = key" "\<not> fl_closed f" for r key f
    using objects_ok(2) [OF c that(1)] flows_add [of r key f] that c
    by (intro keep_reverse_update) (auto simp: reverse_ok_def)
  show ?thesis
    unfolding reverse_writeDatagram_def Let_def using c
    by (auto intro!: keep_remove_flow add keep_reverse_fail split: sum.splits prod.splits option.splits)
qed

lemma keep_reverse_writes [client_keep]:
  "client_inv c \<Longrightarrow> client_inv (fst (reverse_writeDatagrams resolve dial writeErr c k))"
  unfolding reverse_writeDatagrams_def
  by (auto intro!: keep_reverse_write keep_reverse_update reverse_queue_ok simp: objects_ok
      dest: reverse_queue_bound split: option.splits list.splits)

lemma keep_flow_read [client_keep]: "client_inv c \<Longrightarrow> client_inv (fst (flow_readLoop c k x received))"
proof -
  assume c: "client_inv c"
  have "client_inv c1"
    if "objs (cc_reverse c) k = Some r" "rbind received (EncodeDatagram a) = Inr payload"
      "client_write c (cframe TypeListenDatagramData (cr_id r) payload) = (c1, e)" for r a payload c1 e
    using that object_ids(4) [OF c] datagram_frame_valid client_write_inv [OF that(3) c]
    by (auto simp: rbind_def split: sum.splits)
  then show ?thesis
    unfolding flow_readLoop_def using c
    by (auto intro!: keep_remove_flow split: option.splits sum.splits prod.splits)
qed

end
