(* ===== verification/RelayClientSafety.thy ===== *)
theory RelayClientSafety
  imports RelayClientInv
begin

text \<open>
  Properties of the relay client: what holds in every state it can reach, what its streams deliver
  and send, and that failing the client or resetting the peer state releases every caller.
\<close>

section \<open>Reachable states\<close>

text \<open>
  A step is an operation of the API, a frame read from the transport (which the codec has
  validated), a round of one of the goroutines, or a change of what the transport will answer.
  A \<open>Read\<close> or \<open>Write\<close> that waits is covered by the calls that do not: it is resumed in the state
  in which it wakes up, and what it has written before is a call of its own.  There is one reader (\<open>Run\<close>
  refuses a second one), which may be interrupted between its lock sections: after it has looked up the listener of an
  inbound stream, and before a frame is handled by an object that has left its map meanwhile.  \<open>fail\<close> may be
  interrupted before it empties the maps.
\<close>

inductive client_step :: "client \<Rightarrow> client \<Rightarrow> bool" where
  transport: "client_step c (c\<lparr>cc_tx := (cc_tx c)\<lparr>ct_script := script\<rparr>\<rparr>)"
| handshake: "client_step c (fst (Handshake_begin c required))"
| rehandshake: "client_step c (fst (Rehandshake_begin c required))"
| hello: "Handshake_finish c required w = Some (c', r) \<Longrightarrow> client_step c c'"
| reset: "client_step c (ResetPeerState c os cause)"
| fail_mark: "\<not> cc_closed c \<Longrightarrow> client_step c (fail_mark c err)"
| fail_clear: "cc_closed c \<Longrightarrow> client_step c (fail_clear c os err)"
| fail: "client_step c (client_fail c os err)"
| close: "client_step c (fst (client_Close c os))"
| dial: "client_step c (fst (DialContext_begin c target))"
| dialled: "DialContext_finish c i k wait = Some (c', r') \<Longrightarrow> client_step c c'"
| packet: "client_step c (fst (OpenPacketContext_begin c))"
| packet_opened: "OpenPacketContext_finish c i k wait = Some (c', r') \<Longrightarrow> client_step c c'"
| reserve: "client_step c (fst (ReserveReverseForward_begin c windowsAddr target))"
| reserved: "ReserveReverseForward_finish c i k wait = Some (c', r') \<Longrightarrow> client_step c c'"
| commit: "client_step c (fst (reservation_Commit c res))"
| reverse: "client_step c (fst (ReverseDatagramForward_begin resolve c windowsAddr target))"
| reversed: "ReverseDatagramForward_finish c i k wait = Some (c', r') \<Longrightarrow> client_step c c'"
| dispatch: "cc_arriving c = None \<Longrightarrow> Validate f = None \<Longrightarrow> client_step c (client_dispatch c f)"
| inbound: "cc_arriving c = None \<Longrightarrow> i \<noteq> 0 \<Longrightarrow> client_step c (inbound_lookup c i payload)"
| arrived: "client_step c (inbound_insert c)"
| stream_frame: "cc_arriving c = None \<Longrightarrow> objs (cc_streams c) k = Some s \<Longrightarrow> Validate f = None \<Longrightarrow> client_step c (stream_handle c k s f)"
| packet_frame: "cc_arriving c = None \<Longrightarrow> client_step c (packet_handle c k f)"
| reverse_frame: "cc_arriving c = None \<Longrightarrow> client_step c (reverse_handle c k f)"
| read: "stream_Read c k n [] = Some (c', got) \<Longrightarrow> client_step c c'"
| send: "stream_Write c k p 0 [] = Some (c', sent) \<Longrightarrow> client_step c c'"
| half_close: "client_step c (fst (CloseWrite c k))"
| stream_close: "client_step c (stream_Close c k)"
| accepted: "client_step c (acceptInbound c k dialErr)"
| listener_close: "client_step c (listener_Close c k)"
| reverse_close: "client_step c (reverse_Close c k)"
| packet_close: "client_step c (packet_Close c k)"
| packet_read: "packet_ReadFrom c k n [] = Some (c', pgot) \<Longrightarrow> client_step c c'"
| packet_send: "client_step c (fst (packet_WriteTo c k now data address))"
| reverse_send: "client_step c (fst (reverse_writeDatagrams resolve dialled writeErr c k))"
| flow_read: "client_step c (fst (flow_readLoop c k x received))"
| deadline: "client_step c (c\<lparr>cc_streams := reg_update (cc_streams c) k (stream_SetDeadline t)\<rparr>)"
| read_deadline: "client_step c (c\<lparr>cc_streams := reg_update (cc_streams c) k (stream_SetReadDeadline t)\<rparr>)"
| write_deadline: "client_step c (c\<lparr>cc_streams := reg_update (cc_streams c) k (stream_SetWriteDeadline t)\<rparr>)"

inductive client_reachable :: "bool \<Rightarrow> client \<Rightarrow> bool" for attached where
  start: "client_reachable attached (NewClient attached)"
| step: "client_reachable attached c \<Longrightarrow> client_step c c' \<Longrightarrow> client_reachable attached c'"

lemmas finish_keeps = keep_handshake_finish keep_dial_finish keep_packet_finish keep_reserve_finish
  keep_reverse_finish keep_read keep_stream_write keep_packet_read

lemma client_step_inv: "client_step c c' \<Longrightarrow> client_inv c \<Longrightarrow> client_inv c'"
  by (induction rule: client_step.induct)
     ((rule client_keep keep_fail_clear; assumption) | (rule finish_keeps; assumption) | simp)+

lemma client_reachable_inv: "client_reachable attached c \<Longrightarrow> client_inv c"
  by (induction rule: client_reachable.induct) (auto intro: client_inv_new client_step_inv)

section \<open>Sending\<close>

definition data_frames :: "u32 \<Rightarrow> Frame list \<Rightarrow> bool" where
  "data_frames i fs \<longleftrightarrow>
     list_all (\<lambda>f. fType f = TypeData \<and> fStreamID f = i \<and> fPayload f \<noteq> [] \<and> length (fPayload f) \<le> MaxDataSize) fs"

lemma data_frames_simps [simp]:
  "data_frames i []"
  "data_frames i (f # fs) \<longleftrightarrow> fType f = TypeData \<and> fStreamID f = i \<and> fPayload f \<noteq> []
     \<and> length (fPayload f) \<le> MaxDataSize \<and> data_frames i fs"
  by (simp_all add: data_frames_def)

lemma take_positive: "window_take w n wakes = Some (w', Inr m) \<Longrightarrow> 0 < n \<Longrightarrow> 0 < m \<and> m \<le> n"
proof (induction wakes arbitrary: w)
  case Nil
  then show ?case by (subst (asm) window_take.simps) (auto split: if_splits)
next
  case (Cons e wakes)
  obtain d x v where e: "e = (d, x, v)" by (cases e) auto
  show ?case
  proof (cases "0 < available w")
    case True
    with Cons.prems window_take_now [OF True, of n "e # wakes"] show ?thesis by auto
  next
    case False
    with Cons.prems(1) have "window_take (v\<lparr>notify := False\<rparr>) n wakes = Some (w', Inr m)
        \<or> window_take v n wakes = Some (w', Inr m)"
      unfolding e by (subst (asm) window_take.simps) (auto split: if_splits takeWake.splits)
    with Cons.IH Cons.prems(2) show ?thesis by blast
  qed
qed

lemma client_write_sent:
  assumes "client_write c f = (c', e)"
  shows "ct_sent (cc_tx c') = ct_sent (cc_tx c) @ (if e = None then [f] else [])"
  using assms by (auto simp: client_write_def Let_def split: prod.splits)

text \<open>One round of \<open>Write\<close> in general: credit is granted, the call is interrupted, or it ends.\<close>

lemma Write_round:
  assumes "p \<noteq> []" and "objs (cc_streams c) k = Some s" and "stream_Write c k p written waits = Some (c', n, err)"
  obtains (sent) m w c2 where "0 < m" "m \<le> length p" "m \<le> MaxDataSize"
      "client_write (c\<lparr>cc_streams := reg_update (cc_streams c) k (\<lambda>s. s\<lparr>cs_window := w\<rparr>)\<rparr>)
         (cframe TypeData (cs_id s) (take m p)) = (c2, None)"
      "stream_Write c2 k (drop m p) (written + m) (tl waits) = Some (c', n, err)"
  | (retry) w where "waits \<noteq> []"
      "stream_Write (c\<lparr>cc_streams := reg_update (cc_streams c) k (\<lambda>s. s\<lparr>cs_window := w\<rparr>)\<rparr>) k p written (tl waits)
         = Some (c', n, err)"
  | (failed) "n = written" "err \<noteq> None" "ct_sent (cc_tx c') = ct_sent (cc_tx c)"
proof -
  let ?n = "if MaxDataSize < length p then MaxDataSize else length p"
  let ?wakes = "case waits of [] \<Rightarrow> [] | w # ws \<Rightarrow> w"
  let ?c = "\<lambda>w. c\<lparr>cc_streams := reg_update (cc_streams c) k (\<lambda>s. s\<lparr>cs_window := w\<rparr>)\<rparr>"
  obtain w r where t: "window_take (cs_window s) ?n ?wakes = Some (w, r)"
    using assms(3,1,2) by (subst (asm) stream_Write.simps) (auto simp: Let_def split: option.splits)
  show ?thesis
  proof (cases r)
    case (Inl e)
    then show ?thesis
      using assms(3) assms(1,2) t retry [of w] failed
      by (subst (asm) stream_Write.simps) (auto simp: Let_def split: if_splits)
  next
    case (Inr m)
    have m: "0 < m" "m \<le> ?n" using take_positive [of "cs_window s" ?n ?wakes w m] t Inr assms(1) by auto
    obtain c2 e where cw: "client_write (?c w) (cframe TypeData (cs_id s) (take m p)) = (c2, e)"
      by (cases "client_write (?c w) (cframe TypeData (cs_id s) (take m p))")
    show ?thesis
    proof (cases e)
      case None
      then show ?thesis
        using assms(3) assms(1,2) t Inr cw m sent [of m w c2]
        by (subst (asm) stream_Write.simps) (auto simp: Let_def split: if_splits)
    next
      case (Some x)
      then show ?thesis
        using assms(3) assms(1,2) t Inr cw failed client_write_sent [OF cw]
        by (subst (asm) stream_Write.simps) (auto simp: Let_def)
    qed
  qed
qed

lemma Write_frames:
  "stream_Write c k p written waits = Some (c', n, err) \<Longrightarrow> objs (cc_streams c) k = Some s \<Longrightarrow> cs_id s = i \<Longrightarrow>
     \<exists>fs. ct_sent (cc_tx c') = ct_sent (cc_tx c) @ fs \<and> data_frames i fs \<and> written \<le> n
       \<and> n \<le> written + length p \<and> concat (map fPayload fs) = take (n - written) p
       \<and> (err = None \<longrightarrow> n = written + length p)"
proof (induction "length p + length waits" arbitrary: c p written waits s rule: less_induct)
  case less
  show ?case
  proof (cases "p = []")
    case True
    then show ?thesis using less(2) by (subst (asm) stream_Write.simps) (auto intro: exI [of _ "[]"])
  next
    case False
    from False less(3,2) show ?thesis
    proof (cases rule: Write_round)
      case (sent m w c2)
      let ?s = "s\<lparr>cs_window := w\<rparr>"
      have c2: "objs (cc_streams c2) k = Some ?s"
        using client_write_same(1) [OF sent(4)] less(3) by (simp add: reg_update_def)
      have "length (drop m p) + length (tl waits) < length p + length waits" using sent(1) False
        by (cases p) auto
      from less(1) [OF this sent(5) c2] obtain fs where fs: "ct_sent (cc_tx c') = ct_sent (cc_tx c2) @ fs"
        "data_frames i fs" "written + m \<le> n" "n \<le> written + length p"
        "concat (map fPayload fs) = take (n - (written + m)) (drop m p)"
        "err = None \<longrightarrow> n = written + length p"
        using less(4) sent(2) by auto
      let ?f = "cframe TypeData (cs_id s) (take m p)"
      have "take m p @ take (n - (written + m)) (drop m p) = take (n - written) p"
        using fs(3) by (simp add: take_add [symmetric])
      then show ?thesis
        using fs client_write_sent [OF sent(4)] less(4) sent(1-3) False
        by (intro exI [of _ "?f # fs"]) (auto simp: cframe_def)
    next
      case (retry w)
      have "length p + length (tl waits) < length p + length waits" using retry(1) by simp
      from less(1) [OF this retry(2)] less(3,4) show ?thesis by (simp add: reg_update_def)
    next
      case failed
      then show ?thesis by (intro exI [of _ "[]"]) auto
    qed
  qed
qed

text \<open>With enough credit and a healthy transport a \<open>Write\<close> never waits.\<close>

lemma client_write_healthy:
  "ct_script (cc_tx c) = [] \<Longrightarrow> Validate f = None \<Longrightarrow>
     client_write c f = (c\<lparr>cc_tx := (cc_tx c)\<lparr>ct_sent := ct_sent (cc_tx c) @ [f], ct_tried := ct_tried (cc_tx c) @ [f]\<rparr>\<rparr>, None)"
  by (cases "cc_tx c") (simp add: client_write_def Let_def)

lemma Write_complete:
  "objs (cc_streams c) k = Some s \<Longrightarrow> cs_id s \<noteq> 0 \<Longrightarrow> ct_script (cc_tx c) = [] \<Longrightarrow>
     length p \<le> available (cs_window s) \<Longrightarrow>
     \<exists>c'. stream_Write c k p written [] = Some (c', written + length p, None)
       \<and> objs (cc_streams c') k
           = Some (s\<lparr>cs_window := (cs_window s)\<lparr>available := available (cs_window s) - length p\<rparr>\<rparr>)"
proof (induction "length p" arbitrary: c s p written rule: less_induct)
  case less
  show ?case
  proof (cases "p = []")
    case True
    then show ?thesis using less(2) by (subst stream_Write.simps) simp
  next
    case False
    define m where m: "m = min (min MaxDataSize (length p)) (available (cs_window s))"
    have a: "0 < available (cs_window s)" using less(5) False by (cases p) auto
    have m0: "0 < m" "m \<le> length p" "m \<le> MaxDataSize" using m a False by auto
    let ?s = "s\<lparr>cs_window := (cs_window s)\<lparr>available := available (cs_window s) - m\<rparr>\<rparr>"
    let ?c = "c\<lparr>cc_streams := reg_update (cc_streams c) k
                 (\<lambda>s. s\<lparr>cs_window := (cs_window s)\<lparr>available := available (cs_window s) - m\<rparr>\<rparr>)\<rparr>"
    let ?f = "cframe TypeData (cs_id s) (take m p)"
    define c2 where "c2 = fst (client_write ?c ?f)"
    have cw: "client_write ?c ?f = (c2, None)"
      using client_write_healthy [of ?c ?f] less(3,4) m0 False by (simp add: c2_def)
    have "length (drop m p) < length p" using m0(1) False by (cases p) auto
    moreover have "objs (cc_streams c2) k = Some ?s" "ct_script (cc_tx c2) = []"
      using client_write_healthy [of ?c ?f] less(2-4) m0 False by (simp_all add: c2_def reg_update_def)
    ultimately show ?thesis
      using less(1) [of "drop m p" c2 ?s "written + m"] less(3,5) m0 Write_chunk [OF False less(2) a m cw, of written "[]"]
      by simp
  qed
qed

section \<open>Receiving\<close>

text \<open>What the peer sent on a stream and the reader has not seen yet.\<close>

definition unread :: "clientStream \<Rightarrow> bytes" where
  "unread s = cs_readBuf s @ concat (map se_data (cs_incoming s))"

text \<open>Repeated calls of \<open>Read\<close> with the given buffer sizes: the bytes delivered.\<close>

fun reads :: "client \<Rightarrow> nat \<Rightarrow> nat list \<Rightarrow> (client \<times> bytes) option" where
  "reads c k [] = Some (c, [])"
| "reads c k (n # ns) =
     (case stream_Read c k n [] of
        None \<Rightarrow> None
      | Some (c1, out, err) \<Rightarrow> map_option (\<lambda>(c2, rest). (c2, out @ rest)) (reads c1 k ns))"

lemma deliver_result:
  assumes "objs (cc_streams c) k = Some s" and "stream_deliver c k s n = (c', out, err)"
  shows "out = take n (cs_readBuf s)" and "objs (cc_streams c') k = Some (s\<lparr>cs_readBuf := drop n (cs_readBuf s)\<rparr>)"
    and "ct_tried (cc_tx c') = ct_tried (cc_tx c)
           @ [cframe TypeWindowUpdate (cs_id s) (EncodeWindowUpdate (word_of_nat (length out)))]"
  using assms by (auto simp: stream_deliver_def client_write_def reg_update_def Let_def split: prod.splits)

text \<open>A read delivers the oldest unread bytes and acknowledges exactly those.\<close>

lemma Read_data:
  assumes s: "objs (cc_streams c) k = Some s" and n: "n \<noteq> 0" and u: "unread s \<noteq> []"
    and ok: "list_all event_ok (cs_incoming s)" "list_all (\<lambda>ev. se_err ev = None) (cs_incoming s)"
    and w: "cs_readEOF s \<or> wakes = []"
  shows "\<exists>c' s' out err. stream_Read c k n wakes = Some (c', out, err) \<and> objs (cc_streams c') k = Some s'
    \<and> out \<noteq> [] \<and> length out \<le> n \<and> unread s = out @ unread s' \<and> cs_readEOF s' = cs_readEOF s
    \<and> list_all event_ok (cs_incoming s') \<and> list_all (\<lambda>ev. se_err ev = None) (cs_incoming s')
    \<and> ct_tried (cc_tx c') = ct_tried (cc_tx c)
         @ [cframe TypeWindowUpdate (cs_id s) (EncodeWindowUpdate (word_of_nat (length out)))]"
proof -
  have buffered: "\<exists>c' s' out err. stream_Read c k n wakes = Some (c', out, err) \<and> objs (cc_streams c') k = Some s'
      \<and> out \<noteq> [] \<and> length out \<le> n \<and> unread s = out @ unread s' \<and> cs_readEOF s' = cs_readEOF s
      \<and> cs_incoming s' = cs_incoming s \<and> ct_tried (cc_tx c') = ct_tried (cc_tx c)
         @ [cframe TypeWindowUpdate (cs_id s) (EncodeWindowUpdate (word_of_nat (length out)))]"
    if "objs (cc_streams c) k = Some s" "cs_readBuf s \<noteq> []" for c s
  proof -
    obtain c' out err where d: "stream_deliver c k s n = (c', out, err)" by (cases "stream_deliver c k s n")
    show ?thesis
      using Read_buffered [OF n that, of wakes] deliver_result [OF that(1) d] d that(2) n
      by (auto simp: unread_def)
  qed
  show ?thesis
  proof (cases "cs_readBuf s = []")
    case False
    with buffered [OF s] ok show ?thesis by fastforce
  next
    case True
    then obtain ev evs where q: "cs_incoming s = ev # evs" using u by (cases "cs_incoming s") (auto simp: unread_def)
    then have ev: "se_data ev \<noteq> []" using ok by (auto simp: event_ok_def)
    let ?s = "s\<lparr>cs_incoming := evs, cs_readBuf := se_data ev\<rparr>"
    obtain c1 where c1: "stream_event c k ev (cs_readEOF s) = (c1, None)"
        "objs (cc_streams c1) k = Some ?s" "cc_tx c1 = cc_tx c"
      using s q ev by (auto simp: stream_event_def pop_event_def reg_update_def Let_def)
    have "stream_Read c k n wakes = stream_Read c1 k n wakes"
      using Read_event [OF n s True q w] c1(1) by simp
    then show ?thesis
      using buffered [OF c1(2)] ev c1(3) True q ok by (auto simp: unread_def)
  qed
qed

lemma reads_drain:
  "objs (cc_streams c) k = Some s \<Longrightarrow> cs_readEOF s \<Longrightarrow> list_all event_ok (cs_incoming s) \<Longrightarrow>
   list_all (\<lambda>ev. se_err ev = None) (cs_incoming s) \<Longrightarrow> list_all (\<lambda>n. n \<noteq> 0) ns \<Longrightarrow>
     \<exists>c' s' out. reads c k ns = Some (c', out) \<and> objs (cc_streams c') k = Some s' \<and> unread s = out @ unread s'
       \<and> cs_readEOF s' \<and> (length (unread s) \<le> length ns \<longrightarrow> unread s' = [])
       \<and> list_all event_ok (cs_incoming s') \<and> list_all (\<lambda>ev. se_err ev = None) (cs_incoming s')"
proof (induction ns arbitrary: c s)
  case (Cons n ns)
  then have n: "n \<noteq> 0" by simp
  show ?case
  proof (cases "unread s = []")
    case False
    obtain c1 s1 o1 e where r: "stream_Read c k n [] = Some (c1, o1, e)" "objs (cc_streams c1) k = Some s1"
      "o1 \<noteq> []" "unread s = o1 @ unread s1" "cs_readEOF s1 = cs_readEOF s"
      "list_all event_ok (cs_incoming s1)" "list_all (\<lambda>ev. se_err ev = None) (cs_incoming s1)"
      using Read_data [OF Cons.prems(1) n False Cons.prems(3,4), of "[]"] by auto
    obtain c' s' out where "reads c1 k ns = Some (c', out)" "objs (cc_streams c') k = Some s'"
        "unread s1 = out @ unread s'" "cs_readEOF s'" "length (unread s1) \<le> length ns \<longrightarrow> unread s' = []"
        "list_all event_ok (cs_incoming s')" "list_all (\<lambda>ev. se_err ev = None) (cs_incoming s')"
      using Cons.IH [OF r(2)] r(5-7) Cons.prems(2,5) by auto
    with r(1,3,4) show ?thesis by (cases o1) auto
  next
    case True
    then have q: "cs_readBuf s = []" "cs_incoming s = []"
      using Cons.prems(3,4) by (cases "cs_incoming s"; auto simp: unread_def event_ok_def)+
    have "stream_Read c k n [] = Some (c, [], Some IoEOF)"
      using Read_empty [OF n Cons.prems(1) q] Cons.prems(2) by simp
    with Cons.IH [OF Cons.prems(1-4)] Cons.prems(5) True show ?thesis by auto
  qed
qed auto

section \<open>Failing the client and resetting the peer\<close>

text \<open>The objects a loop over the maps visits: each object in a map once, in some order.\<close>

definition visits :: "client \<Rightarrow> clientObjects \<Rightarrow> bool" where
  "visits c os \<longleftrightarrow>
     distinct (co_streams os) \<and> set (co_streams os) = ran (ids (cc_streams c))
     \<and> distinct (co_listeners os) \<and> set (co_listeners os) = ran (ids (cc_listeners c))
     \<and> distinct (co_datagrams os) \<and> set (co_datagrams os) = ran (ids (cc_datagrams c))
     \<and> distinct (co_reverse os) \<and> set (co_reverse os) = ran (ids (cc_reverse c))"

text \<open>A loop that updates one map object by object.\<close>

lemma foldl_objs:
  assumes step: "\<And>c k. t (f c k) = (t c)(k := map_option g (t c k))" and "distinct ks"
  shows "t (foldl f c ks) = (\<lambda>k. if k \<in> set ks then map_option g (t c k) else t c k)"
  using \<open>distinct ks\<close>
proof (induction ks arbitrary: c)
  case (Cons k ks)
  then show ?case by (auto simp: step fun_eq_iff)
qed simp

lemma foldl_same:
  assumes "\<And>c k. t (f c k) = t c" shows "t (foldl f c ks) = t c"
  using assms by (induction ks arbitrary: c) auto

definition listener_gone :: "clientListener \<Rightarrow> clientListener" where
  "listener_gone l = (if cl_once l then l else l\<lparr>cl_once := True, cl_cancelled := True\<rparr>)"

definition reverse_gone :: "goerr \<Rightarrow> clientReverseDatagram \<Rightarrow> clientReverseDatagram" where
  "reverse_gone err r =
     (let r1 = reverse_ready (Inl err) r in if cr_closeOnce r1 then r1 else reverse_shut r1)"

lemma invalidate_effect [simp]:
  "objs (cc_listeners (listener_invalidate c k)) = (objs (cc_listeners c))(k := map_option listener_gone (objs (cc_listeners c) k))"
  "cc_streams (listener_invalidate c k) = cc_streams c" "cc_datagrams (listener_invalidate c k) = cc_datagrams c"
  "cc_reverse (listener_invalidate c k) = cc_reverse c" "cc_closeErr (listener_invalidate c k) = cc_closeErr c"
  "cc_closed (listener_invalidate c k) = cc_closed c"
  "ids (cc_listeners c) = Map.empty \<Longrightarrow> ids (cc_listeners (listener_invalidate c k)) = Map.empty"
  by (auto simp: listener_invalidate_def listener_gone_def client_removeListener_def reg_update_def reg_delete_def
      fun_eq_iff split: option.splits)

lemma reverse_fail_effect [simp]:
  "objs (cc_reverse (reverse_fail c k err)) = (objs (cc_reverse c))(k := map_option (reverse_gone err) (objs (cc_reverse c) k))"
  "cc_streams (reverse_fail c k err) = cc_streams c" "cc_datagrams (reverse_fail c k err) = cc_datagrams c"
  "cc_listeners (reverse_fail c k err) = cc_listeners c" "cc_closeErr (reverse_fail c k err) = cc_closeErr c"
  "cc_closed (reverse_fail c k err) = cc_closed c"
  "ids (cc_reverse c) = Map.empty \<Longrightarrow> ids (cc_reverse (reverse_fail c k err)) = Map.empty"
  by (auto simp: reverse_fail_def reverse_close_once_def reverse_gone_def client_removeReverseDatagram_def
      reg_update_def reg_delete_def Let_def fun_eq_iff split: option.splits)

text \<open>The effect of \<open>fail_objects\<close> on each of the four heaps and on the maps.\<close>

lemma fail_objects_effect:
  assumes "visits c os"
  shows "objs (cc_streams (fail_objects c os err)) k
           = (if k \<in> set (co_streams os) then map_option (stream_fail err) (objs (cc_streams c) k) else objs (cc_streams c) k)"
    and "objs (cc_listeners (fail_objects c os err)) k
           = (if k \<in> set (co_listeners os) then map_option listener_gone (objs (cc_listeners c) k) else objs (cc_listeners c) k)"
    and "objs (cc_datagrams (fail_objects c os err)) k
           = (if k \<in> set (co_datagrams os) then map_option (packet_fail err) (objs (cc_datagrams c) k) else objs (cc_datagrams c) k)"
    and "objs (cc_reverse (fail_objects c os err)) k
           = (if k \<in> set (co_reverse os) then map_option (reverse_gone err) (objs (cc_reverse c) k) else objs (cc_reverse c) k)"
    and "ids (cc_streams (fail_objects c os err)) = Map.empty" and "ids (cc_listeners (fail_objects c os err)) = Map.empty"
    and "ids (cc_datagrams (fail_objects c os err)) = Map.empty" and "ids (cc_reverse (fail_objects c os err)) = Map.empty"
    and "cc_closed (fail_objects c os err) = cc_closed c"
    and "cc_closeErr (fail_objects c os err) = cc_closeErr c"
proof -
  let ?fs = "foldl (\<lambda>c k. c\<lparr>cc_streams := reg_update (cc_streams c) k (stream_fail err)\<rparr>)"
  let ?fl = "foldl listener_invalidate"
  let ?fp = "foldl (\<lambda>c k. c\<lparr>cc_datagrams := reg_update (cc_datagrams c) k (packet_fail err)\<rparr>)"
  let ?fr = "foldl (\<lambda>c k. reverse_fail c k err)"
  have s: "objs (cc_streams (?fs d ks)) = (\<lambda>k. if k \<in> set ks then map_option (stream_fail err) (objs (cc_streams d) k) else objs (cc_streams d) k)"
    if "distinct ks" for d ks by (rule foldl_objs [where t = "\<lambda>c. objs (cc_streams c)", OF _ that]) (simp add: reg_update_def)
  have l: "objs (cc_listeners (?fl d ks)) = (\<lambda>k. if k \<in> set ks then map_option listener_gone (objs (cc_listeners d) k) else objs (cc_listeners d) k)"
    if "distinct ks" for d ks by (rule foldl_objs [where t = "\<lambda>c. objs (cc_listeners c)", OF _ that]) simp
  have p: "objs (cc_datagrams (?fp d ks)) = (\<lambda>k. if k \<in> set ks then map_option (packet_fail err) (objs (cc_datagrams d) k) else objs (cc_datagrams d) k)"
    if "distinct ks" for d ks by (rule foldl_objs [where t = "\<lambda>c. objs (cc_datagrams c)", OF _ that]) (simp add: reg_update_def)
  have r: "objs (cc_reverse (?fr d ks)) = (\<lambda>k. if k \<in> set ks then map_option (reverse_gone err) (objs (cc_reverse d) k) else objs (cc_reverse d) k)"
    if "distinct ks" for d ks by (rule foldl_objs [where t = "\<lambda>c. objs (cc_reverse c)", OF _ that]) simp
  have same: "cc_streams (?fl d ks) = cc_streams d" "cc_streams (?fp d ks) = cc_streams d" "cc_streams (?fr d ks) = cc_streams d"
    "cc_listeners (?fs d ks) = cc_listeners d" "cc_listeners (?fp d ks) = cc_listeners d" "cc_listeners (?fr d ks) = cc_listeners d"
    "cc_datagrams (?fs d ks) = cc_datagrams d" "cc_datagrams (?fl d ks) = cc_datagrams d" "cc_datagrams (?fr d ks) = cc_datagrams d"
    "cc_reverse (?fs d ks) = cc_reverse d" "cc_reverse (?fl d ks) = cc_reverse d" "cc_reverse (?fp d ks) = cc_reverse d"
    "cc_closed (?fs d ks) = cc_closed d" "cc_closed (?fl d ks) = cc_closed d" "cc_closed (?fp d ks) = cc_closed d"
    "cc_closed (?fr d ks) = cc_closed d" "cc_closeErr (?fs d ks) = cc_closeErr d" "cc_closeErr (?fl d ks) = cc_closeErr d"
    "cc_closeErr (?fp d ks) = cc_closeErr d" "cc_closeErr (?fr d ks) = cc_closeErr d" "ids (cc_streams (?fs d ks)) = ids (cc_streams d)"
    "ids (cc_datagrams (?fp d ks)) = ids (cc_datagrams d)" for d ks
    by (rule foldl_same, simp)+
  have el: "ids (cc_listeners (?fl d ks)) = Map.empty" if "ids (cc_listeners d) = Map.empty" for d ks
    using that by (induction ks arbitrary: d) auto
  have er: "ids (cc_reverse (?fr d ks)) = Map.empty" if "ids (cc_reverse d) = Map.empty" for d ks
    using that by (induction ks arbitrary: d) auto
  note all = fail_objects_def Let_def s l p r same el er
  show "objs (cc_streams (fail_objects c os err)) k
           = (if k \<in> set (co_streams os) then map_option (stream_fail err) (objs (cc_streams c) k) else objs (cc_streams c) k)"
    "objs (cc_listeners (fail_objects c os err)) k
           = (if k \<in> set (co_listeners os) then map_option listener_gone (objs (cc_listeners c) k) else objs (cc_listeners c) k)"
    "objs (cc_datagrams (fail_objects c os err)) k
           = (if k \<in> set (co_datagrams os) then map_option (packet_fail err) (objs (cc_datagrams c) k) else objs (cc_datagrams c) k)"
    "objs (cc_reverse (fail_objects c os err)) k
           = (if k \<in> set (co_reverse os) then map_option (reverse_gone err) (objs (cc_reverse c) k) else objs (cc_reverse c) k)"
    using assms by (simp_all add: visits_def all)
  show "ids (cc_streams (fail_objects c os err)) = Map.empty" "ids (cc_listeners (fail_objects c os err)) = Map.empty"
    "ids (cc_datagrams (fail_objects c os err)) = Map.empty" "ids (cc_reverse (fail_objects c os err)) = Map.empty"
    "cc_closed (fail_objects c os err) = cc_closed c" "cc_closeErr (fail_objects c os err) = cc_closeErr c"
    by (simp_all add: all)
qed

text \<open>What a failed object looks like to those who wait for it.\<close>

lemma stream_fail_state:
  "cs_done (stream_fail err s)" "cs_terminalErr (stream_fail err s) \<noteq> None"
  "\<not> cs_openOnce s \<Longrightarrow> cs_openDone (stream_fail err s) = Some (Some err)"
  by (auto simp: stream_fail_def Let_def stream_openDone_def)

lemma packet_fail_state:
  "cp_done (packet_fail err p)" "cp_terminalErr (packet_fail err p) \<noteq> None"
  "\<not> cp_readyOnce p \<Longrightarrow> cp_ready (packet_fail err p) = Some (Some err)"
  by (auto simp: packet_fail_def Let_def packet_ready_def)

lemma reverse_gone_state:
  assumes r: "reverse_ok r"
  shows "cr_done (reverse_gone err r)" and "list_all fl_closed (cr_flowObjs (reverse_gone err r))"
    and "\<not> cr_readyOnce r \<Longrightarrow> cr_ready (reverse_gone err r) = Some (Inl err)"
proof -
  have f: "flows_ok r" "cr_closeOnce r = cr_done r" using r by (auto simp: reverse_ok_def)
  have ready: "cr_closeOnce (reverse_ready x r) = cr_closeOnce r" "cr_flows (reverse_ready x r) = cr_flows r"
    "cr_flowObjs (reverse_ready x r) = cr_flowObjs r" "cr_done (reverse_ready x r) = cr_done r" for x
    by (simp_all add: reverse_ready_def)
  show "cr_done (reverse_gone err r)"
    using f(2) by (simp add: reverse_gone_def Let_def reverse_shut_def ready)
  show "list_all fl_closed (cr_flowObjs (reverse_gone err r))"
    using flows_ok_D(5,6) [OF f(1)] f(2)
    by (auto simp: reverse_gone_def Let_def reverse_shut_def ready list_all_length nth_enumerate_eq)
  show "cr_ready (reverse_gone err r) = Some (Inl err)" if "\<not> cr_readyOnce r"
    using that by (simp add: reverse_gone_def Let_def reverse_shut_def reverse_ready_def)
qed

lemma fail_objects_release:
  assumes v: "visits c os" and c: "client_inv c"
    and S: "objs (cc_streams d) = objs (cc_streams (fail_objects c os err))"
    and P: "objs (cc_datagrams d) = objs (cc_datagrams (fail_objects c os err))"
    and R: "objs (cc_reverse d) = objs (cc_reverse (fail_objects c os err))"
  shows "reg_find (cc_streams c) i = Some (k, s) \<Longrightarrow>
           \<exists>s'. objs (cc_streams d) k = Some s' \<and> cs_done s' \<and> cs_terminalErr s' \<noteq> None
            \<and> (\<not> cs_openOnce s \<longrightarrow> (\<exists>c''. DialContext_finish d i k WaitReady = Some (c'', Inl err)))"
    and "reg_find (cc_datagrams c) i = Some (k, p) \<Longrightarrow>
           \<exists>p'. objs (cc_datagrams d) k = Some p' \<and> cp_done p' \<and> cp_terminalErr p' \<noteq> None
            \<and> (\<not> cp_readyOnce p \<longrightarrow> (\<exists>c''. OpenPacketContext_finish d i k WaitReady = Some (c'', Inl err)))"
    and "reg_find (cc_reverse c) i = Some (k, r) \<Longrightarrow>
           \<exists>r'. objs (cc_reverse d) k = Some r' \<and> cr_done r' \<and> list_all fl_closed (cr_flowObjs r')
            \<and> (\<not> cr_readyOnce r \<longrightarrow> (\<exists>c''. ReverseDatagramForward_finish d i k WaitReady = Some (c'', Inl err)))"
proof -
  note E = fail_objects_effect [OF v, where err = err]
  have in_os: "ids (cc_streams c) i = Some k \<Longrightarrow> k \<in> set (co_streams os)"
    "ids (cc_datagrams c) i = Some k \<Longrightarrow> k \<in> set (co_datagrams os)"
    "ids (cc_reverse c) i = Some k \<Longrightarrow> k \<in> set (co_reverse os)"
    using v by (auto simp: visits_def ranI)
  show "\<exists>s'. objs (cc_streams d) k = Some s' \<and> cs_done s' \<and> cs_terminalErr s' \<noteq> None
            \<and> (\<not> cs_openOnce s \<longrightarrow> (\<exists>c''. DialContext_finish d i k WaitReady = Some (c'', Inl err)))"
    if "reg_find (cc_streams c) i = Some (k, s)"
    using that E(1) [of k] in_os(1) stream_fail_state [where err = err and s = s]
    by (auto simp: reg_find_Some S DialContext_finish_def Let_def)
  show "\<exists>p'. objs (cc_datagrams d) k = Some p' \<and> cp_done p' \<and> cp_terminalErr p' \<noteq> None
            \<and> (\<not> cp_readyOnce p \<longrightarrow> (\<exists>c''. OpenPacketContext_finish d i k WaitReady = Some (c'', Inl err)))"
    if "reg_find (cc_datagrams c) i = Some (k, p)"
    using that E(3) [of k] in_os(2) packet_fail_state [where err = err and p = p]
    by (auto simp: reg_find_Some P OpenPacketContext_finish_def Let_def)
  show "\<exists>r'. objs (cc_reverse d) k = Some r' \<and> cr_done r' \<and> list_all fl_closed (cr_flowObjs r')
            \<and> (\<not> cr_readyOnce r \<longrightarrow> (\<exists>c''. ReverseDatagramForward_finish d i k WaitReady = Some (c'', Inl err)))"
    if "reg_find (cc_reverse c) i = Some (k, r)"
    using that E(4) [of k] in_os(3) reverse_gone_state [of r err] objects_ok(2) [OF c, of k r]
    by (auto simp: reg_find_Some R ReverseDatagramForward_finish_def Let_def)
qed

lemma inbound_keeps:
  "cc_listeners (inboundOpen c i payload) = cc_listeners c" "cc_closed (inboundOpen c i payload) = cc_closed c"
proof -
  have l: "cc_listeners (inbound_lookup c i payload) = cc_listeners c" "cc_closed (inbound_lookup c i payload) = cc_closed c"
    by (auto simp: inbound_lookup_def split: option.splits)
  have "cc_listeners (inbound_insert d) = cc_listeners d \<and> cc_closed (inbound_insert d) = cc_closed d" for d
    by (cases "cc_arriving d") (auto simp: inbound_insert_def Let_def split: if_splits)
  with l show "cc_listeners (inboundOpen c i payload) = cc_listeners c" "cc_closed (inboundOpen c i payload) = cc_closed c"
    by (simp_all add: inboundOpen_def)
qed

text \<open>Without listeners in the map no frame changes a listener.\<close>

lemma dispatch_listeners:
  assumes "ids (cc_listeners c) = Map.empty"
  shows "cc_listeners (client_dispatch c f) = cc_listeners c" and "cc_closed (client_dispatch c f) = cc_closed c"
proof -
  have "reg_find (cc_listeners c) i = None" for i using assms by (simp add: reg_find_def)
  then show "cc_listeners (client_dispatch c f) = cc_listeners c" "cc_closed (client_dispatch c f) = cc_closed c"
    by (auto simp: client_dispatch_def Let_def hello_result_def inbound_keeps stream_handle_def packet_handle_def
        reverse_handle_def split: option.splits prod.splits bool.splits sum.splits)
qed

lemma emptied_streams:
  assumes "emptied (ids r) arriving inbound"
  shows "reg_count r \<le> 1" and "ids r i = Some k \<Longrightarrow> \<exists>l. (l, k) \<in> set inbound"
  using assms by (force simp: emptied_def reg_count_def ran_def)+

section \<open>Properties\<close>

text \<open>
  C11: In every state the client can reach, whatever its callers, its goroutines and the peer do,
  its maps and queues respect their limits, the credit of no stream exceeds the initial window, a
  reverse datagram listener has an open socket exactly for the flows in its table, and every frame it
  handed to its transport is valid.  Once a failing client has emptied its maps it is closed and holds no listener,
  packet connection or reverse datagram listener, and no stream but at most one: an inbound stream whose
  listener the reader had looked up before, and whose \<open>acceptInbound\<close> goroutine has been started.
\<close>

theorem client_state_bounded:
  assumes "client_reachable attached c"
  shows "reg_count (cc_streams c) \<le> MaxConcurrentStreams \<and> reg_count (cc_listeners c) \<le> MaxConcurrentListeners
    \<and> reg_count (cc_datagrams c) \<le> MaxConcurrentDatagrams \<and> reg_count (cc_reverse c) \<le> MaxConcurrentReverseDatagrams
    \<and> (\<forall>k s. objs (cc_streams c) k = Some s \<longrightarrow>
         length (cs_incoming s) \<le> clientQueueSize \<and> available (cs_window s) \<le> InitialStreamWindow)
    \<and> (\<forall>k p. objs (cc_datagrams c) k = Some p \<longrightarrow> length (cp_incoming p) \<le> datagramQueueDepth)
    \<and> (\<forall>k r. objs (cc_reverse c) k = Some r \<longrightarrow>
         length (cr_incoming r) \<le> datagramQueueDepth \<and> msize (cr_flows r) \<le> MaxReverseDatagramFlows
         \<and> (\<forall>x < length (cr_flowObjs r).
              fl_closed (cr_flowObjs r ! x) \<longleftrightarrow> cr_flows r (fl_key (cr_flowObjs r ! x)) \<noteq> Some x))
    \<and> (cc_cleared c \<longrightarrow> cc_closed c \<and> ids (cc_listeners c) = Map.empty \<and> ids (cc_datagrams c) = Map.empty
         \<and> ids (cc_reverse c) = Map.empty \<and> reg_count (cc_streams c) \<le> 1
         \<and> (\<forall>i k. ids (cc_streams c) i = Some k \<longrightarrow> (\<exists>l. (l, k) \<in> set (cc_inbound c))))
    \<and> (\<forall>f \<in> set (ct_tried (cc_tx c)). Validate f = None)"
proof -
  note c = client_reachable_inv [OF assms]
  note D = client_inv_D [OF c]
  have "\<forall>k s. objs (cc_streams c) k = Some s \<longrightarrow>
      length (cs_incoming s) \<le> clientQueueSize \<and> available (cs_window s) \<le> InitialStreamWindow"
    using table_inv_D(5) [OF D(1)] by (auto simp: stream_ok_def window_ok_def)
  moreover have "\<forall>k p. objs (cc_datagrams c) k = Some p \<longrightarrow> length (cp_incoming p) \<le> datagramQueueDepth"
    using table_inv_D(5) [OF D(3)] by (auto simp: packet_ok_def)
  moreover have "\<forall>k r. objs (cc_reverse c) k = Some r \<longrightarrow>
      length (cr_incoming r) \<le> datagramQueueDepth \<and> msize (cr_flows r) \<le> MaxReverseDatagramFlows
      \<and> (\<forall>x < length (cr_flowObjs r).
           fl_closed (cr_flowObjs r ! x) \<longleftrightarrow> cr_flows r (fl_key (cr_flowObjs r ! x)) \<noteq> Some x)"
    using table_inv_D(5) [OF D(4)] flows_ok_D(2,5) unfolding reverse_ok_def by blast
  ultimately show ?thesis
    using table_inv_D(2) [OF D(1)] table_inv_D(2) [OF D(2)] table_inv_D(2) [OF D(3)] table_inv_D(2) [OF D(4)]
      D(6-10) emptied_streams [OF D(11)] by (auto simp: list_all_iff)
qed

definition sample_dialled :: client where
  "sample_dialled = fst (DialContext_begin (NewClient False) (str ''db:5432''))"

lemma sample_dialled_reachable: "client_reachable False sample_dialled"
  unfolding sample_dialled_def by (rule client_reachable.step [OF client_reachable.start client_step.dial])

lemma sample_dialled_value:
  "sample_dialled = (NewClient False)
     \<lparr>cc_nextID := 1, cc_streams := reg_insert reg_empty 1 (newClientStream 1 (str ''db:5432'')),
      cc_tx := \<lparr>ct_attached = False, ct_script = [], ct_sent = [cframe TypeOpen 1 (str ''db:5432'')],
               ct_tried = [cframe TypeOpen 1 (str ''db:5432'')]\<rparr>\<rparr>"
  by (simp add: sample_dialled_def DialContext_begin_def nextStreamID_def NewClient_def reg_count_def reg_empty_def
      client_write_healthy)

definition sample_reserving :: client where
  "sample_reserving = fst (ReserveReverseForward_begin (NewClient False) (str '':80'') (str '':8080''))"

lemma sample_reserving_value:
  "sample_reserving = (NewClient False)
     \<lparr>cc_nextID := 1, cc_listeners := reg_insert reg_empty 1 (newClientListener 1 (str '':80'') (str '':8080'')),
      cc_tx := \<lparr>ct_attached = False, ct_script = [], ct_sent = [cframe TypeListenOpen 1 (str '':80'')],
               ct_tried = [cframe TypeListenOpen 1 (str '':80'')]\<rparr>\<rparr>"
  by (simp add: sample_reserving_def ReserveReverseForward_begin_def nextStreamID_def NewClient_def reg_count_def
      reg_empty_def client_write_healthy)

text \<open>An inbound stream whose listener was looked up just before the client was closed.\<close>

definition sample_late :: client where
  "sample_late = inbound_insert (fail_clear (fail_mark (inbound_lookup sample_reserving 2 [0, 0, 0, 1]) IoEOF)
     \<lparr>co_streams = [], co_listeners = [0], co_datagrams = [], co_reverse = []\<rparr> IoEOF)"

lemma sample_late_reachable: "client_reachable False sample_late"
proof -
  let ?os = "\<lparr>co_streams = [], co_listeners = [0], co_datagrams = [], co_reverse = []\<rparr>"
  have r: "client_reachable False sample_reserving"
    unfolding sample_reserving_def by (rule client_reachable.step [OF client_reachable.start client_step.reserve])
  let ?c1 = "inbound_lookup sample_reserving 2 [0, 0, 0, 1]"
  have s1: "client_step sample_reserving ?c1"
    by (rule client_step.inbound) (simp_all add: sample_reserving_value NewClient_def)
  have s2: "client_step ?c1 (fail_mark ?c1 IoEOF)"
    by (rule client_step.fail_mark)
       (auto simp: sample_reserving_value NewClient_def inbound_lookup_def split: option.splits)
  have s3: "client_step (fail_mark ?c1 IoEOF) (fail_clear (fail_mark ?c1 IoEOF) ?os IoEOF)"
    by (rule client_step.fail_clear) (rule fail_mark_closed)
  show ?thesis
    unfolding sample_late_def
    by (rule client_reachable.step [OF client_reachable.step [OF client_reachable.step [OF client_reachable.step [OF r s1] s2] s3] client_step.arrived])
qed

lemma sample_late_values:
  "cc_cleared sample_late" "ids (cc_streams sample_late) = [2 \<mapsto> 0]"
proof -
  have "Uint32 [0, 0, 0, 1] = 1" by code_simp
  then have "cc_cleared sample_late \<and> ids (cc_streams sample_late) = [2 \<mapsto> 0]"
    by (simp add: sample_late_def sample_reserving_value inbound_lookup_def reg_find_def reg_insert_def reg_empty_def
        fail_mark_def hello_result_def fail_clear_def fail_objects_def listener_invalidate_def inbound_insert_def
        newClientListener_def NewClient_def reg_count_def reg_update_def client_removeListener_def reg_delete_def)
  then show "cc_cleared sample_late" "ids (cc_streams sample_late) = [2 \<mapsto> 0]" by auto
qed

theorem client_state_bounded_witness:
  "client_reachable False sample_late \<and> cc_cleared sample_late \<and> cc_closed sample_late
     \<and> ids (cc_streams sample_late) = [2 \<mapsto> 0] \<and> ids (cc_listeners sample_late) = Map.empty
     \<and> reg_count (cc_streams sample_late) \<le> 1 \<and> (\<exists>l. (l, 0) \<in> set (cc_inbound sample_late))"
  using client_state_bounded [OF sample_late_reachable] sample_late_reachable sample_late_values
  by (simp add: split: if_splits)

text \<open>
  C12: A \<open>Write\<close> on a stream, however it waits for credit and however often its deadline changes,
  sends only DATA frames of that stream with 1 to 32768 bytes, whose payloads are, in order, exactly
  the first \<open>n\<close> bytes of the buffer, where \<open>n\<close> is the count it reports; without an error that is the
  whole buffer.
\<close>

theorem client_write_frames:
  assumes "objs (cc_streams c) k = Some s" and "stream_Write c k p 0 waits = Some (c', n, err)"
  shows "\<exists>fs. ct_sent (cc_tx c') = ct_sent (cc_tx c) @ fs \<and> data_frames (cs_id s) fs
           \<and> concat (map fPayload fs) = take n p \<and> n \<le> length p \<and> (err = None \<longrightarrow> n = length p)"
  using Write_frames [OF assms(2,1) refl] by auto

theorem client_write_frames_witness:
  "\<exists>c' n err fs. stream_Write sample_dialled 0 [7, 8, 9] 0 [] = Some (c', n, err)
     \<and> data_frames 1 fs \<and> concat (map fPayload fs) = [7, 8, 9]"
proof -
  have s: "objs (cc_streams sample_dialled) 0 = Some (newClientStream 1 (str ''db:5432''))"
    by (simp add: sample_dialled_value reg_insert_def reg_empty_def)
  obtain c' where w: "stream_Write sample_dialled 0 [7, 8, 9] 0 [] = Some (c', 3, None)"
    using Write_complete [OF s, of "[7, 8, 9]" 0]
    by (auto simp: sample_dialled_value newClientStream_def newFlowWindow_def)
  from client_write_frames [OF s w] w show ?thesis by auto
qed

text \<open>
  A \<open>Write\<close> within the credit of a stream always completes on a healthy transport, in the state
  in which it was called, and consumes exactly its length of the credit.
\<close>

lemma client_write_completes:
  assumes "objs (cc_streams c) k = Some s" and "cs_id s \<noteq> 0" and "ct_script (cc_tx c) = []"
    and "length p \<le> available (cs_window s)"
  shows "\<exists>c' s'. stream_Write c k p 0 [] = Some (c', length p, None) \<and> objs (cc_streams c') k = Some s'
           \<and> available (cs_window s') + length p = available (cs_window s)"
  using Write_complete [OF assms, of 0] assms(4) by auto

text \<open>
  Nothing that was received before a half-close is lost.  Once the peer has half-closed a stream,
  reads with any positive buffer sizes return the unread bytes in order, each read at least one, even
  if the stream or the client has been closed meanwhile; after them, and only then, comes the end of
  file.
\<close>

lemma client_drains_after_half_close:
  assumes "objs (cc_streams c) k = Some s" and "cs_readEOF s" and "list_all event_ok (cs_incoming s)"
    and "list_all (\<lambda>ev. se_err ev = None) (cs_incoming s)" and "list_all (\<lambda>n. n \<noteq> 0) ns" and "n \<noteq> 0"
  shows "(\<exists>c' out rest. reads c k ns = Some (c', out) \<and> unread s = out @ rest
            \<and> (length (unread s) \<le> length ns \<longrightarrow>
                 out = unread s \<and> stream_Read c' k n wakes = Some (c', [], Some IoEOF)))
         \<and> (unread s \<noteq> [] \<longrightarrow> (\<exists>c' out err. stream_Read c k n wakes = Some (c', out, err) \<and> out \<noteq> []))"
proof (intro conjI impI)
  obtain c' s' out where r: "reads c k ns = Some (c', out)" "objs (cc_streams c') k = Some s'"
      "unread s = out @ unread s'" "cs_readEOF s'" "length (unread s) \<le> length ns \<longrightarrow> unread s' = []"
      "list_all event_ok (cs_incoming s')" "list_all (\<lambda>ev. se_err ev = None) (cs_incoming s')"
    using reads_drain [OF assms(1-5)] by auto
  have "stream_Read c' k n wakes = Some (c', [], Some IoEOF)" if "unread s' = []"
  proof -
    have "cs_incoming s' = []" using that r(6,7) by (cases "cs_incoming s'") (auto simp: unread_def event_ok_def)
    then show ?thesis using Read_empty [OF assms(6) r(2)] that r(4) by (simp add: unread_def)
  qed
  then show "\<exists>c' out rest. reads c k ns = Some (c', out) \<and> unread s = out @ rest
      \<and> (length (unread s) \<le> length ns \<longrightarrow> out = unread s \<and> stream_Read c' k n wakes = Some (c', [], Some IoEOF))"
    using r by auto
  show "\<exists>c' out err. stream_Read c k n wakes = Some (c', out, err) \<and> out \<noteq> []" if "unread s \<noteq> []"
    using Read_data [OF assms(1,6) that assms(3,4)] assms(2) by blast
qed

text \<open>
  C13: When the client fails, nobody is left waiting: the client is closed and its maps are empty, a
  second failure changes nothing, and for every object that was in a map, a caller that is still
  waiting for its open gets an error, readers and writers find the object done with a terminal error,
  and all sockets of the reverse datagram listeners are closed.
\<close>

theorem client_fail_releases:
  assumes "client_inv c" and "\<not> cc_closed c" and "visits c os" and "c' = client_fail c os err"
  shows "cc_closed c' \<and> cc_closeErr c' = Some err \<and> (\<forall>os' err'. client_fail c' os' err' = c')
    \<and> ids (cc_streams c') = Map.empty \<and> ids (cc_listeners c') = Map.empty
    \<and> ids (cc_datagrams c') = Map.empty \<and> ids (cc_reverse c') = Map.empty
    \<and> (\<forall>i k s. reg_find (cc_streams c) i = Some (k, s) \<longrightarrow>
         (\<exists>s'. objs (cc_streams c') k = Some s' \<and> cs_done s' \<and> cs_terminalErr s' \<noteq> None
            \<and> (\<not> cs_openOnce s \<longrightarrow> (\<exists>c''. DialContext_finish c' i k WaitReady = Some (c'', Inl err)))))
    \<and> (\<forall>i k p. reg_find (cc_datagrams c) i = Some (k, p) \<longrightarrow>
         (\<exists>p'. objs (cc_datagrams c') k = Some p' \<and> cp_done p' \<and> cp_terminalErr p' \<noteq> None
            \<and> (\<not> cp_readyOnce p \<longrightarrow> (\<exists>c''. OpenPacketContext_finish c' i k WaitReady = Some (c'', Inl err)))))
    \<and> (\<forall>i k l. reg_find (cc_listeners c) i = Some (k, l) \<longrightarrow>
         (\<exists>c''. ReserveReverseForward_finish c' i k WaitClosed = Some (c'', Inl ErrClientClosed)))
    \<and> (\<forall>i k r. reg_find (cc_reverse c) i = Some (k, r) \<longrightarrow>
         (\<exists>r'. objs (cc_reverse c') k = Some r' \<and> cr_done r' \<and> list_all fl_closed (cr_flowObjs r')
            \<and> (\<not> cr_readyOnce r \<longrightarrow> (\<exists>c''. ReverseDatagramForward_finish c' i k WaitReady = Some (c'', Inl err)))))"
proof -
  define d where "d = (fail_mark c err)\<lparr>cc_cleared := True\<rparr>"
  have d: "cc_streams d = cc_streams c" "cc_listeners d = cc_listeners c" "cc_datagrams d = cc_datagrams c"
    "cc_reverse d = cc_reverse c" "cc_closed d" "cc_closeErr d = Some err"
    by (simp_all add: hello_result_def fail_mark_def d_def)
  have c': "c' = fail_objects d os err" using assms(2,4) by (simp add: client_fail_def fail_clear_def d_def)
  have v: "visits d os" using assms(3) by (simp add: visits_def d)
  note E = fail_objects_effect [OF v, where err = err, folded c']
  have E2: "objs (cc_streams c') k = objs (cc_streams (fail_objects c os err)) k"
    "objs (cc_datagrams c') k = objs (cc_datagrams (fail_objects c os err)) k"
    "objs (cc_reverse c') k = objs (cc_reverse (fail_objects c os err)) k"
    "objs (cc_listeners c') k = objs (cc_listeners (fail_objects c os err)) k" for k
    using E(1-4) fail_objects_effect(1-4) [OF assms(3), where err = err] by (simp_all add: d)
  note R = fail_objects_release [OF assms(3,1), where d = c' and err = err, OF ext ext ext, OF E2(1-3)]
  have "\<forall>os' err'. client_fail c' os' err' = c'" using E(9) d(5) by (simp add: client_fail_def)
  moreover have "\<exists>c''. ReserveReverseForward_finish c' i k WaitClosed = Some (c'', Inl ErrClientClosed)" for i k
    using E(9) d(5) by (simp add: ReserveReverseForward_finish_def)
  ultimately show ?thesis
    using E(5-10) d(5,6) R by (intro conjI allI impI) auto
qed

definition sample_objects :: clientObjects where
  "sample_objects = \<lparr>co_streams = [0], co_listeners = [], co_datagrams = [], co_reverse = []\<rparr>"

lemma sample_visits: "visits sample_dialled sample_objects"
  by (simp add: visits_def sample_objects_def sample_dialled_value reg_insert_def reg_empty_def NewClient_def)

theorem client_fail_releases_witness:
  "\<exists>c''. DialContext_finish (client_fail sample_dialled sample_objects IoEOF) 1 0 WaitReady = Some (c'', Inl IoEOF)"
proof -
  have "reg_find (cc_streams sample_dialled) 1 = Some (0, newClientStream 1 (str ''db:5432''))"
    and "\<not> cc_closed sample_dialled" and "\<not> cs_openOnce (newClientStream 1 (str ''db:5432''))"
    by (simp_all add: sample_dialled_value reg_find_def reg_insert_def reg_empty_def NewClient_def newClientStream_def)
  then show ?thesis
    using client_fail_releases [OF client_reachable_inv [OF sample_dialled_reachable] _ sample_visits refl, of IoEOF]
    by blast
qed

text \<open>
  C14: Resetting the peer state strands a reservation.  After \<open>ResetPeerState\<close> every other pending
  open gets the cause as its error, but a \<open>ReserveReverseForward\<close> that is waiting for its answer
  keeps waiting: the reset does not answer it, and no sequence of frames from the new peer can,
  because the listener has left the map.  Only its own context or the closing of the client ends it.
\<close>

theorem reset_strands_reservation:
  assumes "visits c os" and "reg_find (cc_listeners c) i = Some (k, l)" and "cl_ready l = None" and "\<not> cc_closed c"
  shows "ReserveReverseForward_finish (foldl client_dispatch (ResetPeerState c os cause) fs) i k WaitReady = None
       \<and> ReserveReverseForward_finish (foldl client_dispatch (ResetPeerState c os cause) fs) i k WaitClosed = None"
proof -
  let ?d = "ResetPeerState c os cause"
  let ?stuck = "\<lambda>d. \<not> cc_closed d \<and> ids (cc_listeners d) = Map.empty
                  \<and> (\<exists>l'. objs (cc_listeners d) k = Some l' \<and> cl_ready l' = None)"
  note E = fail_objects_effect [OF assms(1), where err = "case cause of None \<Rightarrow> ErrPeerRestarted | Some e \<Rightarrow> e",
      folded ResetPeerState_def]
  have "?stuck ?d"
    using E(2) [of k] E(6,9) assms(2-4) by (auto simp: reg_find_Some listener_gone_def)
  moreover have "?stuck (client_dispatch d f)" if "?stuck d" for d f
    using that dispatch_listeners [of d f] by auto
  ultimately have "?stuck (foldl client_dispatch ?d fs)"
    by (induction fs rule: rev_induct) auto
  then show ?thesis by (auto simp: ReserveReverseForward_finish_def)
qed

theorem reset_strands_reservation_witness:
  "ReserveReverseForward_finish
     (foldl client_dispatch
        (ResetPeerState sample_reserving \<lparr>co_streams = [], co_listeners = [0], co_datagrams = [], co_reverse = []\<rparr> None)
        [cframe TypeListenOK 1 []]) 1 0 WaitReady = None"
proof -
  let ?os = "\<lparr>co_streams = [], co_listeners = [0], co_datagrams = [], co_reverse = []\<rparr>"
  have "visits sample_reserving ?os" "\<not> cc_closed sample_reserving"
    "reg_find (cc_listeners sample_reserving) 1 = Some (0, newClientListener 1 (str '':80'') (str '':8080''))"
    "cl_ready (newClientListener 1 (str '':80'') (str '':8080'')) = None"
    by (simp_all add: sample_reserving_value visits_def reg_find_def reg_insert_def reg_empty_def NewClient_def
        newClientListener_def)
  from reset_strands_reservation [OF this(1,3,4,2)] show ?thesis by blast
qed

end
