(* ===== verification/FlowControl.thy ===== *)
theory FlowControl
  imports RelayClientSafety RelayServerInv
begin

text \<open>
  Flow control between the two ends of a stream.  The system is one stream: the client that writes
  it, the server whose worker writes it on to its target, and the frames in flight in both
  directions.  Credit is never created: what the client may still send, what is on its way, what
  waits in the server's queue and what is being acknowledged never exceeds the initial window.
\<close>

section \<open>Counting bytes\<close>

definition acked :: "Frame \<Rightarrow> nat" where
  "acked f = (if fType f = TypeWindowUpdate then unat (DecodeWindowUpdate (fPayload f)) else 0)"

definition down_ok :: "u32 \<Rightarrow> Frame \<Rightarrow> bool" where
  "down_ok i f \<longleftrightarrow> fStreamID f = i \<and> (fType f = TypeWindowUpdate \<and> 0 < acked f \<or> fType f = TypeReset)"

definition total_acked :: "Frame list \<Rightarrow> nat" where
  "total_acked fs = sum_list (map acked fs)"

definition total_data :: "Frame list \<Rightarrow> nat" where
  "total_data fs = sum_list (map (length \<circ> fPayload) fs)"

definition queued_bytes :: "serverStreamEvent list \<Rightarrow> nat" where
  "queued_bytes evs = sum_list (map (length \<circ> ev_data) evs)"

lemma total_simps [simp]:
  "total_acked [] = 0" "total_acked (f # fs) = acked f + total_acked fs" "total_acked (fs @ gs) = total_acked fs + total_acked gs"
  "total_data [] = 0" "total_data (f # fs) = length (fPayload f) + total_data fs" "total_data (fs @ gs) = total_data fs + total_data gs"
  "queued_bytes [] = 0" "queued_bytes (ev # evs) = length (ev_data ev) + queued_bytes evs"
  "queued_bytes (evs @ evs') = queued_bytes evs + queued_bytes evs'"
  by (simp_all add: total_acked_def total_data_def queued_bytes_def)

lemma total_data_concat: "total_data fs = length (concat (map fPayload fs))"
  by (induction fs) auto

section \<open>The server's side\<close>

text \<open>What an operation of the server about stream \<open>i\<close> may do: send control frames, drop the id.\<close>

definition server_effect :: "u32 \<Rightarrow> server \<Rightarrow> server \<Rightarrow> Frame list \<Rightarrow> bool" where
  "server_effect i s s' fs \<longleftrightarrow>
     t_sent (sv_tx s') = t_sent (sv_tx s) @ fs \<and> list_all (down_ok i) fs
     \<and> (\<forall>k. map_option st_incoming (objs (sv_streams s') k) = map_option st_incoming (objs (sv_streams s) k))
     \<and> (ids (sv_streams s') i = ids (sv_streams s) i \<or> ids (sv_streams s') i = None)"

lemma server_effect_trans:
  "server_effect i s s1 fs \<Longrightarrow> server_effect i s1 s2 gs \<Longrightarrow> server_effect i s s2 (fs @ gs)"
  by (auto simp: server_effect_def)

lemma server_effect_refl [simp]: "server_effect i s s []"
  by (simp add: server_effect_def)

lemma server_effect_obj:
  assumes "server_effect i s s' fs" and "objs (sv_streams s) k = Some st"
  obtains st' where "objs (sv_streams s') k = Some st'" "st_incoming st' = st_incoming st"
proof -
  have "map_option st_incoming (objs (sv_streams s') k) = Some (st_incoming st)"
    using assms unfolding server_effect_def by simp
  then show ?thesis using that by auto
qed

lemma transport_send_sent:
  "transport_send t f = (t', e) \<Longrightarrow> t_sent t' = t_sent t @ [f] \<or> t_sent t' = t_sent t"
  by (auto simp: transport_send_def split: if_splits prod.splits option.splits list.splits)

lemma send_effect:
  assumes "send s f = (s', e)" and "down_ok i f"
  obtains fs where "server_effect i s s' fs" "fs = [f] \<or> fs = []"
  using assms transport_send_sent [of "sv_tx s" f] that
  by (fastforce simp: send_def server_effect_def split: prod.splits)

lemma remove_effect: "server_effect i s (server_remove s i) []"
  by (auto simp: server_effect_def server_remove_def reg_delete_def reg_update_def closeStream_def Let_def reg_find_Some
      split: option.splits)

lemma reset_frame_ok [simp]: "down_ok i (mkFrame TypeReset i p)" "acked (mkFrame TypeReset i p) = 0"
  by (simp_all add: down_ok_def acked_def mkFrame_def)

lemma reset_effect:
  obtains fs where "server_effect i s (server_reset s i err) fs" "total_acked fs = 0"
proof -
  let ?f = "mkFrame TypeReset i (ErrorPayload (Some err))"
  obtain s1 e where s1: "send s ?f = (s1, e)" by (cases "send s ?f")
  obtain fs where "server_effect i s s1 fs" "fs = [?f] \<or> fs = []"
    by (rule send_effect [OF s1, of i]) auto
  then show ?thesis
    using that [of fs] server_effect_trans [OF _ remove_effect, of i s s1 fs] s1
    by (auto simp: server_reset_def)
qed

lemma window_update_frame:
  assumes "0 < n" and "n < 4294967296"
  shows "down_ok i (mkFrame TypeWindowUpdate i (EncodeWindowUpdate (word_of_nat n)))"
    and "acked (mkFrame TypeWindowUpdate i (EncodeWindowUpdate (word_of_nat n))) = n"
proof -
  have "unat (word_of_nat n :: u32) = n" using assms(2) by (simp add: unsigned_of_nat take_bit_nat_eq_self)
  then show "down_ok i (mkFrame TypeWindowUpdate i (EncodeWindowUpdate (word_of_nat n)))"
    "acked (mkFrame TypeWindowUpdate i (EncodeWindowUpdate (word_of_nat n))) = n"
    using assms(1) Uint32_Put [of "word_of_nat n" "[]"]
    by (simp_all add: down_ok_def acked_def mkFrame_def EncodeWindowUpdate_def DecodeWindowUpdate_def)
qed

text \<open>The worker acknowledges at most the bytes it was given.\<close>

lemma remote_loop_effect:
  "length buf < 4294967296 \<Longrightarrow> remote_write_loop s i conn buf outcomes = (s', go) \<Longrightarrow>
     \<exists>fs. server_effect i s s' fs \<and> total_acked fs \<le> length buf"
proof (induction "length buf" arbitrary: s buf outcomes rule: less_induct)
  case (less buf s outcomes)
  show ?case
  proof (cases "buf = []")
    case True
    then show ?thesis using less(3) by (subst (asm) remote_write_loop.simps) (auto intro: exI [of _ "[]"])
  next
    case False
    obtain n err where o: "(case outcomes of [] \<Rightarrow> (length buf, None) | p # _ \<Rightarrow> p) = (n, err)"
      by (cases "case outcomes of [] \<Rightarrow> (length buf, None) | p # _ \<Rightarrow> p")
    define count where count: "count = min n (length buf)"
    define s1 where s1: "s1 = s\<lparr>sv_remote := sv_remote s @ [(conn, take count buf)]\<rparr>"
    let ?f = "mkFrame TypeWindowUpdate i (EncodeWindowUpdate (word_of_nat count))"
    obtain s2 e where s2: "(if 0 < count then send s1 ?f else (s1, None)) = (s2, e)"
      by (cases "if 0 < count then send s1 ?f else (s1, None)")
    have b: "count \<le> length buf" "count < 4294967296" using less(2) by (auto simp: count)
    have eff1: "server_effect i s s1 []" by (simp add: s1 server_effect_def)
    have "\<exists>fs. server_effect i s1 s2 fs \<and> total_acked fs \<le> count"
    proof (cases "0 < count")
      case True
      with s2 have "send s1 ?f = (s2, e)" by simp
      then obtain fs where "server_effect i s1 s2 fs" "fs = [?f] \<or> fs = []"
        by (rule send_effect) (rule window_update_frame(1) [OF True b(2)])
      then show ?thesis using window_update_frame(2) [OF True b(2)] by auto
    qed (use s2 in \<open>auto intro: exI [of _ "[]"]\<close>)
    then obtain fs where fs: "server_effect i s s2 fs" "total_acked fs \<le> count"
      using server_effect_trans [OF eff1] by fastforce
    have end_case: ?thesis if "server_effect i s2 s' gs" "total_acked gs \<le> length buf - count" for gs
      using server_effect_trans [OF fs(1) that(1)] fs(2) that(2) b(1) by (intro exI [of _ "fs @ gs"]) simp
    have res: "(case e of Some x \<Rightarrow> (server_remove s2 i, False)
              | None \<Rightarrow> (case err of Some x \<Rightarrow> (server_reset s2 i x, False)
                 | None \<Rightarrow> if count = 0 then (server_reset s2 i IoErrShortWrite, False)
                          else remote_write_loop s2 i conn (drop count buf) (tl outcomes))) = (s', go)"
      using less(3) by (subst (asm) remote_write_loop.simps)
        (simp only: False if_False Let_def o prod.case count [symmetric] s1 [symmetric] s2)
    consider "e \<noteq> None" | x where "e = None" "err = Some x" | "e = None" "err = None" "count = 0"
      | "e = None" "err = None" "count \<noteq> 0" by (cases e; cases err; auto)
    then show ?thesis
    proof cases
      case 1
      with res show ?thesis using end_case [of "[]"] remove_effect [of i s2] by auto
    next
      case 2
      obtain gs where "server_effect i s2 (server_reset s2 i x) gs" "total_acked gs = 0" by (rule reset_effect)
      with res 2 show ?thesis using end_case [of gs] by simp
    next
      case 3
      obtain gs where "server_effect i s2 (server_reset s2 i IoErrShortWrite) gs" "total_acked gs = 0"
        by (rule reset_effect)
      with res 3 show ?thesis using end_case [of gs] by simp
    next
      case 4
      with res have l: "remote_write_loop s2 i conn (drop count buf) (tl outcomes) = (s', go)" by simp
      have "\<exists>gs. server_effect i s2 s' gs \<and> total_acked gs \<le> length (drop count buf)"
        by (rule less(1) [OF _ _ l]) (use less(2) False 4(3) in \<open>auto\<close>)
      then show ?thesis using end_case by auto
    qed
  qed
qed

text \<open>One event of the worker, and the arrival of a DATA frame.\<close>

lemma worker_effect:
  assumes w: "writeToRemote s i k closeWrite outcomes = (s', go)" and st: "objs (sv_streams s) k = Some st"
    and small: "queued_bytes (st_incoming st) < 4294967296"
  shows "\<exists>fs st'. t_sent (sv_tx s') = t_sent (sv_tx s) @ fs \<and> list_all (down_ok i) fs
    \<and> objs (sv_streams s') k = Some st' \<and> queued_bytes (st_incoming st') + total_acked fs \<le> queued_bytes (st_incoming st)
    \<and> (ids (sv_streams s') i = ids (sv_streams s) i \<or> ids (sv_streams s') i = None)"
proof (cases "st_incoming st")
  case Nil
  then show ?thesis using w st by (auto simp: writeToRemote_def intro: exI [of _ "[]"])
next
  case (Cons ev rest)
  define s1 where s1: "s1 = s\<lparr>sv_streams := reg_update (sv_streams s) k (\<lambda>st. st\<lparr>st_incoming := rest\<rparr>)\<rparr>"
  have s1': "objs (sv_streams s1) k = Some (st\<lparr>st_incoming := rest\<rparr>)" "sv_tx s1 = sv_tx s"
    "ids (sv_streams s1) = ids (sv_streams s)"
    using st by (simp_all add: s1 reg_update_def)
  have fin: ?thesis if eff: "server_effect i s1 s' fs" and le: "total_acked fs \<le> length (ev_data ev)" for fs
  proof -
    obtain st' where "objs (sv_streams s') k = Some st'" "st_incoming st' = rest"
      using server_effect_obj [OF eff s1'(1)] by auto
    then show ?thesis
      using eff le s1'(2,3) Cons by (intro exI [of _ fs] exI [of _ st']) (auto simp: server_effect_def)
  qed
  show ?thesis
  proof (cases "ev_halfClose ev")
    case True
    show ?thesis
    proof (cases "\<exists>err. closeWrite = Some (Some err)")
      case True
      then obtain err where cw: "closeWrite = Some (Some err)" by blast
      obtain gs where "server_effect i s1 (server_reset s1 i err) gs" "total_acked gs = 0" by (rule reset_effect)
      moreover have "s' = server_reset s1 i err"
        using w st Cons \<open>ev_halfClose ev\<close> s1 cw by (simp add: writeToRemote_def Let_def)
      ultimately show ?thesis using fin [of gs] by simp
    next
      case False
      then have "s' = s1"
        using w st Cons \<open>ev_halfClose ev\<close> s1 by (auto simp: writeToRemote_def Let_def split: option.splits)
      then show ?thesis using fin [of "[]"] by simp
    qed
  next
    case False
    show ?thesis
    proof (cases "st_conn st")
      case None
      then show ?thesis using w st Cons False s1 fin [of "[]"] by (simp add: writeToRemote_def Let_def)
    next
      case (Some conn)
      have "remote_write_loop s1 i conn (ev_data ev) outcomes = (s', go)"
        using w st Cons False Some s1 by (simp add: writeToRemote_def Let_def)
      then show ?thesis
        using remote_loop_effect [of "ev_data ev" s1 i conn outcomes s' go] small Cons fin by auto
    qed
  qed
qed

lemma arrival_effect:
  assumes h: "handle_data s i p = s'" and st: "objs (sv_streams s) k = Some st"
    and id: "ids (sv_streams s) i = Some k \<or> ids (sv_streams s) i = None"
  shows "\<exists>fs st'. t_sent (sv_tx s') = t_sent (sv_tx s) @ fs \<and> list_all (down_ok i) fs
    \<and> objs (sv_streams s') k = Some st'
    \<and> queued_bytes (st_incoming st') + total_acked fs \<le> queued_bytes (st_incoming st) + length p
    \<and> (ids (sv_streams s') i = ids (sv_streams s) i \<or> ids (sv_streams s') i = None)"
proof (cases "ids (sv_streams s) i = Some k \<and> \<not> (length (st_incoming st) < streamQueueSize) \<and> \<not> st_done st")
  case True
  let ?e = "ErrText (str ''stream receive window exceeded'')"
  obtain fs where fs: "server_effect i s (server_reset s i ?e) fs" "total_acked fs = 0" by (rule reset_effect)
  have "s' = server_reset s i ?e" using h True st by (auto simp: handle_data_def reg_find_def)
  then obtain st' where "objs (sv_streams s') k = Some st'" "st_incoming st' = st_incoming st"
    using server_effect_obj [OF fs(1) st] by auto
  then show ?thesis using fs \<open>s' = server_reset s i ?e\<close> by (intro exI [of _ fs] exI [of _ st']) (auto simp: server_effect_def)
next
  case False
  then show ?thesis
    using h st id
    by (intro exI [of _ "[]"]) (auto simp: handle_data_def reg_find_def reg_update_def push_event_def)
qed

section \<open>The system\<close>

record flow_system =
  fs_client :: client
  fs_server :: server
  fs_up :: "Frame list"
  fs_down :: "Frame list"

text \<open>
  The steps: the client writes (the part of a \<open>Write\<close> that need not wait), a frame arrives at the
  server, the server's worker handles one event with arbitrary outcomes of its writes, a frame
  arrives at the client, and the transports change what they will answer.  \<open>kc\<close> and \<open>ks\<close> are the
  stream's objects on the two sides.
\<close>

inductive flow_step :: "u32 \<Rightarrow> nat \<Rightarrow> nat \<Rightarrow> flow_system \<Rightarrow> flow_system \<Rightarrow> bool" for i kc ks where
  write_up: "stream_Write (fs_client y) kc p 0 [] = Some (c', n, err) \<Longrightarrow>
     ct_sent (cc_tx c') = ct_sent (cc_tx (fs_client y)) @ fs \<Longrightarrow>
     flow_step i kc ks y (y\<lparr>fs_client := c', fs_up := fs_up y @ fs\<rparr>)"
| arrive_up: "fs_up y = f # rest \<Longrightarrow> server_handle resolve listen (fs_server y) f = Some s' \<Longrightarrow>
     t_sent (sv_tx s') = t_sent (sv_tx (fs_server y)) @ fs \<Longrightarrow>
     flow_step i kc ks y (y\<lparr>fs_server := s', fs_up := rest, fs_down := fs_down y @ fs\<rparr>)"
| work: "writeToRemote (fs_server y) i ks closeWrite outcomes = (s', go) \<Longrightarrow>
     t_sent (sv_tx s') = t_sent (sv_tx (fs_server y)) @ fs \<Longrightarrow>
     flow_step i kc ks y (y\<lparr>fs_server := s', fs_down := fs_down y @ fs\<rparr>)"
| arrive_down: "fs_down y = f # rest \<Longrightarrow>
     ct_sent (cc_tx (client_dispatch (fs_client y) f)) = ct_sent (cc_tx (fs_client y)) @ fs \<Longrightarrow>
     flow_step i kc ks y (y\<lparr>fs_client := client_dispatch (fs_client y) f, fs_down := rest, fs_up := fs_up y @ fs\<rparr>)"
| client_transport:
     "flow_step i kc ks y (y\<lparr>fs_client := (fs_client y)\<lparr>cc_tx := (cc_tx (fs_client y))\<lparr>ct_script := script\<rparr>\<rparr>\<rparr>)"
| server_transport:
     "flow_step i kc ks y (y\<lparr>fs_server := (fs_server y)\<lparr>sv_tx := (sv_tx (fs_server y))\<lparr>t_script := script'\<rparr>\<rparr>\<rparr>)"

text \<open>A fresh stream: both ends have it under its id, nothing is in flight, the window is full.\<close>

definition flow_start :: "u32 \<Rightarrow> nat \<Rightarrow> nat \<Rightarrow> flow_system \<Rightarrow> bool" where
  "flow_start i kc ks y \<longleftrightarrow>
     i \<noteq> 0 \<and> fs_up y = [] \<and> fs_down y = []
     \<and> (\<exists>t. reg_find (cc_streams (fs_client y)) i = Some (kc, newClientStream i t))
     \<and> (\<exists>conn. reg_find (sv_streams (fs_server y)) i = Some (ks, newServerStream conn))"

inductive flow_reachable :: "u32 \<Rightarrow> nat \<Rightarrow> nat \<Rightarrow> flow_system \<Rightarrow> bool" for i kc ks where
  fresh: "flow_start i kc ks y \<Longrightarrow> flow_reachable i kc ks y"
| next_step: "flow_reachable i kc ks y \<Longrightarrow> flow_step i kc ks y y' \<Longrightarrow> flow_reachable i kc ks y'"

definition flow_inv :: "u32 \<Rightarrow> nat \<Rightarrow> nat \<Rightarrow> flow_system \<Rightarrow> bool" where
  "flow_inv i kc ks y \<longleftrightarrow>
     i \<noteq> 0 \<and> data_frames i (fs_up y) \<and> list_all (down_ok i) (fs_down y)
     \<and> (\<exists>cs st. reg_find (cc_streams (fs_client y)) i = Some (kc, cs) \<and> cs_id cs = i
          \<and> objs (sv_streams (fs_server y)) ks = Some st
          \<and> (ids (sv_streams (fs_server y)) i = Some ks \<or> ids (sv_streams (fs_server y)) i = None)
          \<and> available (cs_window cs) + total_data (fs_up y) + queued_bytes (st_incoming st) + total_acked (fs_down y)
              \<le> InitialStreamWindow)"

lemma flow_start_inv: "flow_start i kc ks y \<Longrightarrow> flow_inv i kc ks y"
  by (auto simp: flow_start_def flow_inv_def reg_find_Some newClientStream_def newServerStream_def newFlowWindow_def)

text \<open>The credit a \<open>Write\<close> consumes covers what it sends.\<close>

lemma write_consumes:
  "stream_Write c k p written [] = Some (c', n, err) \<Longrightarrow> objs (cc_streams c) k = Some s \<Longrightarrow>
     \<exists>s'. objs (cc_streams c') k = Some s' \<and> cs_id s' = cs_id s \<and> ids (cc_streams c') = ids (cc_streams c)
       \<and> available (cs_window s') + (n - written) \<le> available (cs_window s) \<and> written \<le> n"
proof (induction "length p" arbitrary: c p written s rule: less_induct)
  case less
  show ?case
  proof (cases "p = []")
    case True
    then show ?thesis using less(2,3) by (subst (asm) stream_Write.simps) auto
  next
    case False
    have a: "0 < available (cs_window s)"
      using less(2) Write_starved [OF False less(3)] by (cases "available (cs_window s)") auto
    define m where m: "m = min (min MaxDataSize (length p)) (available (cs_window s))"
    have m0: "0 < m" "m \<le> available (cs_window s)" using m a False by auto
    let ?s = "s\<lparr>cs_window := (cs_window s)\<lparr>available := available (cs_window s) - m\<rparr>\<rparr>"
    let ?c = "c\<lparr>cc_streams := reg_update (cc_streams c) k
                 (\<lambda>s. s\<lparr>cs_window := (cs_window s)\<lparr>available := available (cs_window s) - m\<rparr>\<rparr>)\<rparr>"
    obtain c2 e where cw: "client_write ?c (cframe TypeData (cs_id s) (take m p)) = (c2, e)"
      by (cases "client_write ?c (cframe TypeData (cs_id s) (take m p))")
    have c2: "objs (cc_streams c2) k = Some ?s" "ids (cc_streams c2) = ids (cc_streams c)"
      using client_write_same(1) [OF cw] less(3) by (simp_all add: reg_update_def)
    have step: "(if e = None then stream_Write c2 k (drop m p) (written + m) [] else Some (c2, written, e)) = Some (c', n, err)"
      using less(2) Write_chunk [OF False less(3) a m cw, of written "[]"]
      by (auto split: if_splits)
    show ?thesis
    proof (cases "e = None")
      case True
      have "length (drop m p) < length p" using m0(1) False by (cases p) auto
      from less(1) [OF this _ c2(1), of "written + m"] True step c2(2) m0 show ?thesis by fastforce
    qed (use step c2 in auto)
  qed
qed

text \<open>A frame of the server's worker at the client: credit comes back, or the stream fails.\<close>

lemma dispatch_down:
  assumes f: "down_ok i f" and i: "i \<noteq> 0" and c: "reg_find (cc_streams c) i = Some (k, cs)" "cs_id cs = i"
    and room: "available (cs_window cs) + acked f \<le> InitialStreamWindow"
  shows "\<exists>cs'. reg_find (cc_streams (client_dispatch c f)) i = Some (k, cs') \<and> cs_id cs' = i
    \<and> available (cs_window cs') = available (cs_window cs) + acked f \<and> cc_tx (client_dispatch c f) = cc_tx c"
proof -
  have c': "ids (cc_streams c) i = Some k" "objs (cc_streams c) k = Some cs" using c(1) by (simp_all add: reg_find_Some)
  show ?thesis
  proof (cases "fType f = TypeWindowUpdate")
    case True
    then have n: "0 < unat (DecodeWindowUpdate (fPayload f))" using f by (simp add: down_ok_def acked_def)
    have "window_add (cs_window cs) (DecodeWindowUpdate (fPayload f))
        = ((cs_window cs)\<lparr>available := available (cs_window cs) + acked f, notify := True\<rparr>, True)"
      unfolding window_add_True using n room True by (simp add: acked_def)
    then show ?thesis
      using True f c' c(2) by (auto simp: client_dispatch_def stream_handle_def down_ok_def reg_find_def reg_update_def Let_def)
  next
    case False
    then have t: "fType f = TypeReset" "fStreamID f = i" "acked f = 0" using f by (auto simp: down_ok_def acked_def)
    have "cs_window (stream_fail e s) = cs_window s" for e s
      by (simp add: stream_fail_def Let_def stream_openDone_def)
    with t c' c(2) show ?thesis
      by (auto simp: client_dispatch_def stream_handle_def reg_find_def reg_update_def Let_def)
  qed
qed

lemma flow_step_inv:
  assumes "flow_step i kc ks y y'" and "flow_inv i kc ks y" shows "flow_inv i kc ks y'"
proof -
  from assms(2) obtain cs st where inv: "i \<noteq> 0" "data_frames i (fs_up y)" "list_all (down_ok i) (fs_down y)"
      "reg_find (cc_streams (fs_client y)) i = Some (kc, cs)" "cs_id cs = i" "objs (sv_streams (fs_server y)) ks = Some st"
      "ids (sv_streams (fs_server y)) i = Some ks \<or> ids (sv_streams (fs_server y)) i = None"
      "available (cs_window cs) + total_data (fs_up y) + queued_bytes (st_incoming st) + total_acked (fs_down y)
         \<le> InitialStreamWindow"
    unfolding flow_inv_def by blast
  have cs: "objs (cc_streams (fs_client y)) kc = Some cs" "ids (cc_streams (fs_client y)) i = Some kc"
    using inv(4) by (simp_all add: reg_find_Some)
  from assms(1) show ?thesis
  proof cases
    case (write_up p c' n err fs)
    obtain s' where s': "objs (cc_streams c') kc = Some s'" "cs_id s' = i" "ids (cc_streams c') = ids (cc_streams (fs_client y))"
        "available (cs_window s') + n \<le> available (cs_window cs)"
      using write_consumes [OF write_up(2) cs(1)] inv(5) by auto
    have "data_frames i fs" "total_data fs \<le> n"
      using Write_frames [OF write_up(2) cs(1) inv(5)] write_up(3) by (auto simp: total_data_concat)
    with s' inv cs write_up(1) show ?thesis
      by (auto simp: flow_inv_def reg_find_Some data_frames_def intro!: exI [of _ s'] exI [of _ st])
  next
    case (arrive_up f rest resolve listen s' fs)
    have f: "fType f = TypeData" "fStreamID f = i" using inv(2) arrive_up(2) by auto
    then have "handle_data (fs_server y) i (fPayload f) = s'"
      using arrive_up(3) by (simp add: server_handle_def Let_def)
    from arrival_effect [OF this inv(6,7)] arrive_up(4) obtain st' where
      "list_all (down_ok i) fs" "objs (sv_streams s') ks = Some st'"
      "queued_bytes (st_incoming st') + total_acked fs \<le> queued_bytes (st_incoming st) + length (fPayload f)"
      "ids (sv_streams s') i = ids (sv_streams (fs_server y)) i \<or> ids (sv_streams s') i = None" by auto
    with inv arrive_up(1,2) show ?thesis
      by (auto simp: flow_inv_def intro!: exI [of _ cs] exI [of _ st'])
  next
    case (work closeWrite outcomes s' go fs)
    have "queued_bytes (st_incoming st) < 4294967296" using inv(8) by simp
    from worker_effect [OF work(2) inv(6) this] work(3) obtain st' where
      "list_all (down_ok i) fs" "objs (sv_streams s') ks = Some st'"
      "queued_bytes (st_incoming st') + total_acked fs \<le> queued_bytes (st_incoming st)"
      "ids (sv_streams s') i = ids (sv_streams (fs_server y)) i \<or> ids (sv_streams s') i = None" by auto
    with inv work(1) show ?thesis
      by (auto simp: flow_inv_def intro!: exI [of _ cs] exI [of _ st'])
  next
    case (arrive_down f rest fs)
    have f: "down_ok i f" "available (cs_window cs) + acked f \<le> InitialStreamWindow"
      using inv(3,8) arrive_down(2) by auto
    obtain cs' where "reg_find (cc_streams (client_dispatch (fs_client y) f)) i = Some (kc, cs')" "cs_id cs' = i"
      "available (cs_window cs') = available (cs_window cs) + acked f" "fs = []"
      using dispatch_down [OF f(1) inv(1,4,5) f(2)] arrive_down(3) by auto
    with inv arrive_down(1,2) show ?thesis
      by (auto simp: flow_inv_def intro!: exI [of _ cs'] exI [of _ st])
  next
    case (client_transport script)
    with inv show ?thesis by (auto simp: flow_inv_def)
  next
    case (server_transport script')
    with inv show ?thesis by (auto simp: flow_inv_def)
  qed
qed

lemma flow_reachable_inv: "flow_reachable i kc ks y \<Longrightarrow> flow_inv i kc ks y"
  by (induction rule: flow_reachable.induct) (auto intro: flow_start_inv flow_step_inv)

section \<open>From the server to the client\<close>

text \<open>The window updates of the client at the server.\<close>

definition acknowledge :: "u32 \<Rightarrow> server \<Rightarrow> nat \<Rightarrow> server" where
  "acknowledge i s n = handle_window_update s i (EncodeWindowUpdate (word_of_nat n))"

lemma acknowledge_result:
  assumes st: "reg_find (sv_streams s) i = Some (k, st)" and n: "0 < n" "n < 4294967296"
  shows "acknowledge i s n =
    (if available (st_window st) + n \<le> InitialStreamWindow
     then s\<lparr>sv_streams := reg_update (sv_streams s) k
            (\<lambda>st'. st'\<lparr>st_window := (st_window st)\<lparr>available := available (st_window st) + n, notify := True\<rparr>\<rparr>)\<rparr>
     else server_reset s i (ErrText (str ''invalid stream window update'')))"
proof -
  have u: "unat (word_of_nat n :: u32) = n" using n(2) by (simp add: unsigned_of_nat take_bit_nat_eq_self)
  have d: "DecodeWindowUpdate (EncodeWindowUpdate (word_of_nat n)) = word_of_nat n"
    using Uint32_Put [of "word_of_nat n" "[]"] by (simp add: DecodeWindowUpdate_def EncodeWindowUpdate_def)
  have "(word_of_nat n :: u32) \<noteq> 0" using u n(1) by auto
  with u d st show ?thesis
    by (auto simp: acknowledge_def handle_window_update_def window_add_def)
qed

lemma acknowledge_all:
  "reg_find (sv_streams s) i = Some (k, st) \<Longrightarrow> list_all (\<lambda>n. 0 < n) ns \<Longrightarrow>
     available (st_window st) + sum_list ns \<le> InitialStreamWindow \<Longrightarrow>
     \<exists>st'. reg_find (sv_streams (foldl (acknowledge i) s ns)) i = Some (k, st')
       \<and> available (st_window st') = available (st_window st) + sum_list ns
       \<and> sv_tx (foldl (acknowledge i) s ns) = sv_tx s"
proof (induction ns arbitrary: s st)
  case (Cons n ns)
  let ?st = "st\<lparr>st_window := (st_window st)\<lparr>available := available (st_window st) + n, notify := True\<rparr>\<rparr>"
  let ?s = "acknowledge i s n"
  have r: "reg_find (sv_streams ?s) i = Some (k, ?st)" "sv_tx ?s = sv_tx s"
    using acknowledge_result [OF Cons.prems(1), of n] Cons.prems by (auto simp: reg_find_Some reg_update_def)
  show ?case using Cons.IH [OF r(1)] Cons.prems r(2) by auto
qed simp

lemma server_remove_gone: "reg_find (sv_streams (server_remove s i)) i = None"
  by (auto simp: server_remove_def reg_find_def reg_delete_def reg_update_def Let_def split: option.splits)

lemma send_healthy:
  "t_script (sv_tx s) = [] \<Longrightarrow> Validate f = None \<Longrightarrow>
     send s f = (s\<lparr>sv_tx := (sv_tx s)\<lparr>t_sent := t_sent (sv_tx s) @ [f]\<rparr>\<rparr>, None)"
  by (cases "sv_tx s") (simp add: send_def transport_send_def)

section \<open>Properties\<close>

text \<open>
  C15: Flow control from the client to the server is sound.  In every state of the system of a
  client, a server and the frames between them, the credit the client still has, the data in
  flight, the data waiting in the server's queue and the credit on its way back together never
  exceed the initial window.  So the server never holds more than a window of data for a stream,
  and the client accepts every window update the server sends.
\<close>

theorem upstream_credit_conserved:
  assumes "flow_reachable i kc ks y"
  shows "\<exists>cs st. objs (cc_streams (fs_client y)) kc = Some cs \<and> objs (sv_streams (fs_server y)) ks = Some st
    \<and> available (cs_window cs) + total_data (fs_up y) + queued_bytes (st_incoming st) + total_acked (fs_down y)
        \<le> InitialStreamWindow
    \<and> (\<forall>f \<in> set (fs_down y). fType f = TypeWindowUpdate \<longrightarrow>
         snd (window_add (cs_window cs) (DecodeWindowUpdate (fPayload f))))"
proof -
  from flow_reachable_inv [OF assms] obtain cs st where inv: "list_all (down_ok i) (fs_down y)"
      "reg_find (cc_streams (fs_client y)) i = Some (kc, cs)" "objs (sv_streams (fs_server y)) ks = Some st"
      "available (cs_window cs) + total_data (fs_up y) + queued_bytes (st_incoming st) + total_acked (fs_down y)
         \<le> InitialStreamWindow"
    unfolding flow_inv_def by blast
  have "snd (window_add (cs_window cs) (DecodeWindowUpdate (fPayload f)))"
    if f: "f \<in> set (fs_down y)" "fType f = TypeWindowUpdate" for f
  proof -
    have "acked f \<le> total_acked (fs_down y)" using f(1) by (simp add: total_acked_def member_le_sum_list)
    moreover have "0 < acked f" using inv(1) f by (auto simp: list_all_iff down_ok_def)
    ultimately show ?thesis
      using inv(4) f(2) by (auto simp: window_add_def acked_def)
  qed
  then show ?thesis
    using inv by (intro exI [of _ cs] exI [of _ st]) (auto simp: reg_find_Some)
qed

definition sample_flow_start :: flow_system where
  "sample_flow_start =
     \<lparr>fs_client = sample_dialled,
      fs_server = (NewServer False)\<lparr>sv_streams := reg_insert reg_empty 1 (newServerStream (Some 7))\<rparr>,
      fs_up = [], fs_down = []\<rparr>"

theorem upstream_credit_conserved_witness:
  "\<exists>y cs st. flow_reachable 1 0 0 y \<and> total_data (fs_up y) = 3
     \<and> objs (cc_streams (fs_client y)) 0 = Some cs \<and> objs (sv_streams (fs_server y)) 0 = Some st
     \<and> available (cs_window cs) + 3 + queued_bytes (st_incoming st) + total_acked (fs_down y) \<le> InitialStreamWindow"
proof -
  have "flow_start 1 0 0 sample_flow_start"
    by (simp add: flow_start_def sample_flow_start_def sample_dialled_value reg_find_def reg_insert_def reg_empty_def)
       blast
  then have r0: "flow_reachable 1 0 0 sample_flow_start" by (rule flow_reachable.fresh)
  have s: "objs (cc_streams sample_dialled) 0 = Some (newClientStream 1 (str ''db:5432''))"
    by (simp add: sample_dialled_value reg_insert_def reg_empty_def)
  obtain c' where w: "stream_Write sample_dialled 0 [7, 8, 9] 0 [] = Some (c', 3, None)"
    using Write_complete [OF s, of "[7, 8, 9]" 0]
    by (auto simp: sample_dialled_value newClientStream_def newFlowWindow_def)
  obtain fs where fs: "ct_sent (cc_tx c') = ct_sent (cc_tx sample_dialled) @ fs" "concat (map fPayload fs) = [7, 8, 9]"
    using Write_frames [OF w s refl] by auto
  let ?y = "sample_flow_start\<lparr>fs_client := c', fs_up := fs\<rparr>"
  have r: "flow_reachable 1 0 0 ?y"
    using flow_reachable.next_step [OF r0 flow_step.write_up [of sample_flow_start 0 "[7, 8, 9]" c' 3 None fs]] w fs(1)
    by (simp add: sample_flow_start_def)
  have "total_data fs = 3" using fs(2) by (simp add: total_data_concat)
  then show ?thesis using upstream_credit_conserved [OF r] r by (intro exI [of _ ?y]) auto
qed

text \<open>
  C16: Flow control from the server to the client is not.  When the server has less credit than the
  bytes it has just read, it sends all of them although it was granted only the rest of its credit.
  After the client has acknowledged everything that was outstanding, its acknowledgement of those
  bytes exceeds the window: the server answers a correct client with a RESET and drops the stream.
\<close>

theorem downstream_overdraft_resets:
  assumes "reg_find (sv_streams s) i = Some (k, st)" and "i \<noteq> 0" and "t_script (sv_tx s) = []"
    and "0 < available (st_window st)" and "available (st_window st) < length buf" and "length buf \<le> MaxDataSize"
    and "list_all (\<lambda>n. 0 < n) ns" and "available (st_window st) + sum_list ns = InitialStreamWindow"
    and "s1 = fst (copyToClient s i conn buf None)" and "s2 = foldl (acknowledge i) s1 (ns @ [length buf])"
  shows "t_sent (sv_tx s1) = t_sent (sv_tx s) @ [mkFrame TypeData i buf]
    \<and> reg_find (sv_streams s2) i = None
    \<and> t_sent (sv_tx s2) = t_sent (sv_tx s1)
        @ [mkFrame TypeReset i (ErrorPayload (Some (ErrText (str ''invalid stream window update''))))]"
proof -
  let ?st = "st\<lparr>st_window := (st_window st)\<lparr>available := 0\<rparr>\<rparr>"
  have st: "ids (sv_streams s) i = Some k" "objs (sv_streams s) k = Some st" using assms(1) by (simp_all add: reg_find_Some)
  have f: "Validate (mkFrame TypeData i buf) = None"
    using assms(2,5,6) by (auto simp: mkFrame_def Validate_def frame_rules)
  have t: "window_take (st_window st) (length buf) ws = Some ((st_window st)\<lparr>available := 0\<rparr>, Inr (available (st_window st)))" for ws
    using window_take_now [OF assms(4), of "length buf" ws] assms(5) by simp
  have s1: "t_sent (sv_tx s1) = t_sent (sv_tx s) @ [mkFrame TypeData i buf]" "t_script (sv_tx s1) = []"
    "reg_find (sv_streams s1) i = Some (k, ?st)"
    using assms(3,5,9) st t f
    by (auto simp: copyToClient_def copy_send_def copy_after_data_def send_healthy reg_find_Some reg_update_def Let_def)
  have "sum_list ns \<le> InitialStreamWindow" using assms(8) by simp
  then obtain st' where m: "reg_find (sv_streams (foldl (acknowledge i) s1 ns)) i = Some (k, st')"
      "available (st_window st') = sum_list ns" "sv_tx (foldl (acknowledge i) s1 ns) = sv_tx s1"
    using acknowledge_all [OF s1(3) assms(7)] by auto
  let ?m = "foldl (acknowledge i) s1 ns"
  let ?e = "ErrText (str ''invalid stream window update'')"
  have "s2 = server_reset ?m i ?e"
    using acknowledge_result [OF m(1), of "length buf"] m(2) assms(5,6,8,10) by (cases buf) auto
  moreover have "Validate (mkFrame TypeReset i (ErrorPayload (Some ?e))) = None"
    using assms(2) length_ErrorPayload [of "Some ?e"] by (simp add: mkFrame_def Validate_def frame_rules)
  ultimately show ?thesis
    using s1 m(3) send_healthy [of ?m "mkFrame TypeReset i (ErrorPayload (Some ?e))"]
    by (simp add: server_reset_def server_remove_gone)
qed

definition sample_low_credit :: server where
  "sample_low_credit = (NewServer False)\<lparr>sv_streams :=
     reg_insert reg_empty 1 ((newServerStream (Some 7))\<lparr>st_window := \<lparr>available = 2, notify = False\<rparr>\<rparr>)\<rparr>"

theorem downstream_overdraft_resets_witness:
  "reg_find (sv_streams (foldl (acknowledge 1) (fst (copyToClient sample_low_credit 1 7 [5, 6, 7] None)) [262142, 3])) 1 = None"
  using downstream_overdraft_resets [of sample_low_credit 1 0
      "(newServerStream (Some 7))\<lparr>st_window := \<lparr>available = 2, notify = False\<rparr>\<rparr>" "[5, 6, 7]" "[262142]" _ 7, OF _ _ _ _ _ _ _ _ refl refl]
  by (simp add: sample_low_credit_def NewServer_def reg_find_def reg_insert_def reg_empty_def newServerStream_def
      numeral_3_eq_3)

end
