(* ===== verification/GoText.thy ===== *)
theory GoText
  imports Prelude
begin

text \<open>
  The parts of the Go standard library for text that the program uses: \<open>strings\<close> (prefixes, byte
  searches, \<open>SplitN\<close> with a one-byte separator, \<open>Fields\<close>, \<open>TrimSpace\<close>, \<open>Join\<close>), \<open>strconv\<close>
  (\<open>Atoi\<close>, \<open>ParseUint\<close>) and \<open>encoding/hex\<close>.  \<open>Fields\<close> and \<open>TrimSpace\<close> are the functions on ASCII
  text; the program applies them to the kernel's socket tables and to option values.
\<close>

section \<open>Searching and splitting\<close>

definition HasPrefix :: "bytes \<Rightarrow> bytes \<Rightarrow> bool" where
  "HasPrefix s p \<longleftrightarrow> take (length p) s = p"

definition HasSuffix :: "bytes \<Rightarrow> bytes \<Rightarrow> bool" where
  "HasSuffix s p \<longleftrightarrow> length p \<le> length s \<and> drop (length s - length p) s = p"

definition TrimPrefix :: "bytes \<Rightarrow> bytes \<Rightarrow> bytes" where
  "TrimPrefix s p = (if HasPrefix s p then drop (length p) s else s)"

fun IndexByte :: "bytes \<Rightarrow> byte \<Rightarrow> nat option" where
  "IndexByte [] c = None"
| "IndexByte (b # s) c = (if b = c then Some 0 else map_option Suc (IndexByte s c))"

fun LastIndexByte :: "bytes \<Rightarrow> byte \<Rightarrow> nat option" where
  "LastIndexByte [] c = None"
| "LastIndexByte (b # s) c =
     (case LastIndexByte s c of Some n \<Rightarrow> Some (Suc n) | None \<Rightarrow> if b = c then Some 0 else None)"

text \<open>\<open>strings.SplitN(s, sep, 2)\<close>.\<close>

definition SplitN2 :: "bytes \<Rightarrow> byte \<Rightarrow> bytes list" where
  "SplitN2 s c = (case IndexByte s c of None \<Rightarrow> [s] | Some n \<Rightarrow> [take n s, drop (Suc n) s])"

fun strings_Join :: "bytes list \<Rightarrow> bytes \<Rightarrow> bytes" where
  "strings_Join [] sep = []"
| "strings_Join [s] sep = s"
| "strings_Join (s # ss) sep = s @ sep @ strings_Join ss sep"

definition is_space :: "byte \<Rightarrow> bool" where
  "is_space b \<longleftrightarrow> b \<in> {9, 10, 11, 12, 13, 32}"

lemma dropWhile_shorter: "t \<noteq> [] \<Longrightarrow> P (hd t) \<Longrightarrow> length (dropWhile P t) < length t"
  using length_dropWhile_le [of P "tl t"] by (cases t) auto

function Fields :: "bytes \<Rightarrow> bytes list" where
  "Fields s =
     (let t = dropWhile is_space s in
      if t = [] then [] else takeWhile (\<lambda>b. \<not> is_space b) t # Fields (dropWhile (\<lambda>b. \<not> is_space b) t))"
  by pat_completeness auto
termination
proof (relation "measure length")
  fix s t :: bytes
  assume t: "t = dropWhile is_space s" "t \<noteq> []"
  then have "\<not> is_space (hd t)" using hd_dropWhile [of is_space s] by blast
  then have "length (dropWhile (\<lambda>b. \<not> is_space b) t) < length t"
    using dropWhile_shorter [OF t(2), of "\<lambda>b. \<not> is_space b"] by simp
  also have "length t \<le> length s" using t(1) by (simp add: length_dropWhile_le)
  finally show "(dropWhile (\<lambda>b. \<not> is_space b) t, s) \<in> measure length" by simp
qed simp

declare Fields.simps [simp del]

definition TrimSpace :: "bytes \<Rightarrow> bytes" where
  "TrimSpace s = rev (dropWhile is_space (rev (dropWhile is_space s)))"

text \<open>
  The \<open>%q\<close> verb on ASCII text.  A byte above 127 is written as the escape of an invalid byte; what the
  verb prints for other Unicode text is not modelled.
\<close>

definition quote_byte :: "byte \<Rightarrow> bytes" where
  "quote_byte b =
     (if b = 34 \<or> b = 92 then [92, b]
      else if 32 \<le> b \<and> b < 127 then [b]
      else case map_of [(7, 97), (8, 98), (9, 116), (10, 110), (11, 118), (12, 102), (13, 114)] b of
             Some e \<Rightarrow> [92, e]
           | None \<Rightarrow> [92, 120, hex_digit (unat b div 16), hex_digit (unat b mod 16)])"

definition Quote :: "bytes \<Rightarrow> bytes" where
  "Quote s = [34] @ concat (map quote_byte s) @ [34]"

lemma IndexByte_None: "IndexByte s c = None \<longleftrightarrow> c \<notin> set s"
  by (induction s) auto

lemma IndexByte_Some: "IndexByte s c = Some n \<Longrightarrow> n < length s \<and> s ! n = c \<and> c \<notin> set (take n s)"
  by (induction s arbitrary: n) (auto split: if_splits)

lemma IndexByte_append: "c \<notin> set s \<Longrightarrow> IndexByte (s @ c # t) c = Some (length s)"
  by (induction s) auto

lemma LastIndexByte_None: "LastIndexByte s c = None \<longleftrightarrow> c \<notin> set s"
  by (induction s) (auto split: option.splits)

lemma LastIndexByte_append: "c \<notin> set t \<Longrightarrow> LastIndexByte (s @ c # t) c = Some (length s)"
proof (induction s)
  case Nil
  then have "LastIndexByte t c = None" by (simp add: LastIndexByte_None)
  then show ?case by simp
qed simp

lemma SplitN2_append: "c \<notin> set s \<Longrightarrow> SplitN2 (s @ c # t) c = [s, t]"
  by (simp add: SplitN2_def IndexByte_append)

lemma SplitN2_two: "SplitN2 s c = [a, b] \<longleftrightarrow> s = a @ c # b \<and> c \<notin> set a"
proof
  assume "SplitN2 s c = [a, b]"
  then obtain n where n: "IndexByte s c = Some n" "a = take n s" "b = drop (Suc n) s"
    by (auto simp: SplitN2_def split: option.splits)
  from IndexByte_Some [OF n(1)] n(2,3) show "s = a @ c # b \<and> c \<notin> set a"
    by (metis id_take_nth_drop)
qed (auto simp: SplitN2_append)

lemma dropWhile_none: "(\<And>b. b \<in> set s \<Longrightarrow> \<not> P b) \<Longrightarrow> dropWhile P s = s"
  by (cases s) auto

lemma TrimSpace_none: "(\<And>b. b \<in> set s \<Longrightarrow> \<not> is_space b) \<Longrightarrow> TrimSpace s = s"
  using dropWhile_none [of s is_space] dropWhile_none [of "rev s" is_space] by (simp add: TrimSpace_def)

section \<open>Numbers\<close>

text \<open>\<open>strconv.Atoi\<close>: an optional sign and decimal digits within the range of \<open>int\<close>.\<close>

definition Atoi :: "bytes \<Rightarrow> int option" where
  "Atoi s =
     (let neg = (s \<noteq> [] \<and> hd s = 45);
          ds = (if s \<noteq> [] \<and> (hd s = 45 \<or> hd s = 43) then tl s else s);
          v = int (digits_value ds)
      in if ds = [] \<or> \<not> list_all is_digit ds then None
         else if neg then (if 9223372036854775808 < v then None else Some (- v))
         else (if 9223372036854775807 < v then None else Some v))"

text \<open>The number \<open>Atoi\<close> returns together with an error: the nearest \<open>int\<close> when out of range, else 0.\<close>

definition Atoi_number :: "bytes \<Rightarrow> int" where
  "Atoi_number s =
     (case Atoi s of
        Some v \<Rightarrow> v
      | None \<Rightarrow>
          let ds = (if s \<noteq> [] \<and> (hd s = 45 \<or> hd s = 43) then tl s else s) in
          if ds = [] \<or> \<not> list_all is_digit ds then 0
          else if hd s = 45 then - 9223372036854775808 else 9223372036854775807)"

text \<open>The value of a digit in a base of at most 36.\<close>

definition digit_of :: "byte \<Rightarrow> nat option" where
  "digit_of b =
     (if 48 \<le> unat b \<and> unat b \<le> 57 then Some (unat b - 48)
      else if 97 \<le> unat b \<and> unat b \<le> 122 then Some (unat b - 87)
      else if 65 \<le> unat b \<and> unat b \<le> 90 then Some (unat b - 55)
      else None)"

fun base_value :: "nat \<Rightarrow> nat \<Rightarrow> bytes \<Rightarrow> nat option" where
  "base_value base acc [] = Some acc"
| "base_value base acc (b # s) =
     (case digit_of b of
        None \<Rightarrow> None
      | Some d \<Rightarrow> if d < base then base_value base (acc * base + d) s else None)"

text \<open>\<open>strconv.ParseUint(s, base, bits)\<close> with an explicit base.\<close>

definition ParseUint :: "bytes \<Rightarrow> nat \<Rightarrow> nat \<Rightarrow> nat option" where
  "ParseUint s base bits =
     (if s = [] then None
      else case base_value base 0 s of
        None \<Rightarrow> None
      | Some v \<Rightarrow> if int v < 2 ^ bits then Some v else None)"

text \<open>\<open>hex.DecodeString\<close>.\<close>

fun hex_DecodeString :: "bytes \<Rightarrow> bytes option" where
  "hex_DecodeString [] = Some []"
| "hex_DecodeString [b] = None"
| "hex_DecodeString (a # b # s) =
     (case (digit_of a, digit_of b, hex_DecodeString s) of
        (Some x, Some y, Some r) \<Rightarrow> if x < 16 \<and> y < 16 then Some (word_of_nat (16 * x + y) # r) else None
      | _ \<Rightarrow> None)"

lemma digit_of_decimal: "is_digit b \<Longrightarrow> digit_of b = Some (unat b - 48)"
  by (simp add: digit_of_def is_digit_def)

lemma base_value_digits:
  "list_all is_digit s \<Longrightarrow> base_value 10 acc s = Some (foldl (\<lambda>a b. a * 10 + (unat b - 48)) acc s)"
  by (induction s arbitrary: acc) (auto simp: digit_of_decimal is_digit_def)

lemma list_all_decimal: "list_all is_digit (decimal n)"
  using decimal_digits by (auto simp: list_all_iff)

lemma ParseUint_decimal: "n < 2 ^ bits \<Longrightarrow> ParseUint (decimal n) 10 bits = Some n"
  using digits_value_decimal [of n]
  by (simp add: ParseUint_def base_value_digits list_all_decimal digits_value_def)

lemma Atoi_decimal:
  assumes "n \<le> 9223372036854775807"
  shows "Atoi (decimal n) = Some (int n)"
proof -
  have "is_digit (hd (decimal n))" using decimal_digits [of "hd (decimal n)" n] by simp
  then have "hd (decimal n) \<noteq> 45" "hd (decimal n) \<noteq> 43" by (auto simp: is_digit_def)
  with assms show ?thesis
    by (simp add: Atoi_def Let_def list_all_decimal digits_value_decimal)
qed

lemma decimal_no_byte: "\<not> is_digit c \<Longrightarrow> c \<notin> set (decimal n)"
  using decimal_digits by blast

end
