(* ===== verification/GoNet.thy ===== *)
theory GoNet
  imports GoText
begin

text \<open>
  The parts of the Go standard library package \<open>net\<close> that the program uses on addresses:
  \<open>JoinHostPort\<close>, \<open>SplitHostPort\<close>, \<open>ParseIP\<close>, \<open>To4\<close>, \<open>To16\<close> and \<open>IP.String\<close>.  A \<open>net.IP\<close> is a byte
  slice, the empty list is \<open>nil\<close>.
\<close>

section \<open>Host and port\<close>

abbreviation colon :: byte where "colon \<equiv> 58"
abbreviation dot :: byte where "dot \<equiv> 46"
abbreviation lbracket :: byte where "lbracket \<equiv> 91"
abbreviation rbracket :: byte where "rbracket \<equiv> 93"

definition JoinHostPort :: "bytes \<Rightarrow> bytes \<Rightarrow> bytes" where
  "JoinHostPort host port =
     (if IndexByte host colon \<noteq> None then [lbracket] @ host @ [rbracket, colon] @ port
      else host @ [colon] @ port)"

definition addrErr :: "bytes \<Rightarrow> bytes \<Rightarrow> goerr" where
  "addrErr addr why = ErrText (str ''address '' @ addr @ str '': '' @ why)"

definition SplitHostPort :: "bytes \<Rightarrow> (bytes \<times> bytes) result" where
  "SplitHostPort hostport =
     (case LastIndexByte hostport colon of
        None \<Rightarrow> Inl (addrErr hostport (str ''missing port in address''))
      | Some i \<Rightarrow>
          let finish = (\<lambda>host j k.
                if IndexByte (drop j hostport) lbracket \<noteq> None
                then Inl (addrErr hostport (str ''unexpected '' @ [39, lbracket, 39] @ str '' in address''))
                else if IndexByte (drop k hostport) rbracket \<noteq> None
                then Inl (addrErr hostport (str ''unexpected '' @ [39, rbracket, 39] @ str '' in address''))
                else Inr (host, drop (Suc i) hostport))
          in
          if hd hostport = lbracket
          then (case IndexByte hostport rbracket of
                  None \<Rightarrow> Inl (addrErr hostport (str ''missing '' @ [39, rbracket, 39] @ str '' in address''))
                | Some e \<Rightarrow>
                    if Suc e = length hostport then Inl (addrErr hostport (str ''missing port in address''))
                    else if Suc e = i then finish (take (e - 1) (drop 1 hostport)) 1 (Suc e)
                    else if hostport ! Suc e = colon then Inl (addrErr hostport (str ''too many colons in address''))
                    else Inl (addrErr hostport (str ''missing port in address'')))
          else if IndexByte (take i hostport) colon \<noteq> None
          then Inl (addrErr hostport (str ''too many colons in address''))
          else finish (take i hostport) 0 0)"

lemma SplitHostPort_Join:
  assumes h: "lbracket \<notin> set host" "rbracket \<notin> set host"
    and p: "colon \<notin> set port" "lbracket \<notin> set port" "rbracket \<notin> set port"
  shows "SplitHostPort (JoinHostPort host port) = Inr (host, port)"
proof (cases "colon \<in> set host")
  case False
  then have j: "JoinHostPort host port = host @ colon # port" by (simp add: JoinHostPort_def IndexByte_None)
  have "hd (host @ colon # port) \<noteq> lbracket" using h by (cases host) auto
  moreover have "LastIndexByte (host @ colon # port) colon = Some (length host)" by (rule LastIndexByte_append [OF p(1)])
  ultimately show ?thesis
    using False h p by (simp add: SplitHostPort_def j IndexByte_None Let_def)
next
  case True
  let ?s = "lbracket # host @ rbracket # colon # port"
  have j: "JoinHostPort host port = ?s" using True by (simp add: JoinHostPort_def IndexByte_None)
  have "LastIndexByte ((lbracket # host @ [rbracket]) @ colon # port) colon = Some (length (lbracket # host @ [rbracket]))"
    by (rule LastIndexByte_append [OF p(1)])
  then have l: "LastIndexByte ?s colon = Some (Suc (Suc (length host)))" by simp
  have "IndexByte ((lbracket # host) @ rbracket # colon # port) rbracket = Some (length (lbracket # host))"
    by (rule IndexByte_append) (use h in simp)
  then have e: "IndexByte ?s rbracket = Some (Suc (length host))" by simp
  show ?thesis
    unfolding j SplitHostPort_def l option.case Let_def e
    using h p by (simp add: IndexByte_None)
qed

section \<open>IP addresses\<close>

definition v4InV6Prefix :: bytes where
  "v4InV6Prefix = replicate 10 0 @ [255, 255]"

definition To4 :: "bytes \<Rightarrow> bytes" where
  "To4 ip =
     (if length ip = 4 then ip
      else if length ip = 16 \<and> take 12 ip = v4InV6Prefix then drop 12 ip
      else [])"

definition To16 :: "bytes \<Rightarrow> bytes" where
  "To16 ip = (if length ip = 4 then v4InV6Prefix @ ip else if length ip = 16 then ip else [])"

definition dotted :: "bytes \<Rightarrow> bytes" where
  "dotted ip = strings_Join (map (\<lambda>b. decimal (unat b)) ip) [dot]"

text \<open>\<open>netip.Addr.String\<close> for IPv6: the first longest run of at least two zero groups is elided.\<close>

fun groups16 :: "bytes \<Rightarrow> nat list" where
  "groups16 (a # b # s) = (256 * unat a + unat b) # groups16 s"
| "groups16 _ = []"

definition zero_run :: "nat list \<Rightarrow> nat \<Rightarrow> nat" where
  "zero_run gs i = length (takeWhile (\<lambda>g. g = 0) (drop i gs))"

fun longest_zeros :: "nat list \<Rightarrow> nat list \<Rightarrow> (nat \<times> nat) option \<Rightarrow> (nat \<times> nat) option" where
  "longest_zeros gs [] best = best"
| "longest_zeros gs (i # is) best =
     (let l = zero_run gs i in
      longest_zeros gs is
        (if 2 \<le> l \<and> (case best of None \<Rightarrow> True | Some (s, n) \<Rightarrow> n < l) then Some (i, l) else best))"

definition ip6_text :: "nat list \<Rightarrow> bytes" where
  "ip6_text gs =
     (case longest_zeros gs [0..<length gs] None of
        None \<Rightarrow> strings_Join (map hexadecimal gs) [colon]
      | Some (s, n) \<Rightarrow>
          strings_Join (map hexadecimal (take s gs)) [colon] @ [colon, colon]
          @ strings_Join (map hexadecimal (drop (s + n) gs)) [colon])"

definition IP_String :: "bytes \<Rightarrow> bytes" where
  "IP_String ip =
     (if ip = [] then str ''<nil>''
      else if length ip \<noteq> 4 \<and> length ip \<noteq> 16
      then str ''?'' @ concat (map (\<lambda>b. [hex_digit (unat b div 16), hex_digit (unat b mod 16)]) ip)
      else if To4 ip \<noteq> [] then dotted (To4 ip)
      else ip6_text (groups16 ip))"

text \<open>
  \<open>netip.parseIPv4Fields\<close>: the loop over the bytes with the fields so far, the value and the number
  of digits of the current field.
\<close>

fun ipv4_fields :: "bytes \<Rightarrow> bytes \<Rightarrow> nat \<Rightarrow> nat \<Rightarrow> bytes option" where
  "ipv4_fields [] fs val digits =
     (if length fs < 3 \<or> digits = 0 then None else Some (fs @ [word_of_nat val]))"
| "ipv4_fields (b # s) fs val digits =
     (if is_digit b then
        if digits = 1 \<and> val = 0 then None
        else let v = val * 10 + (unat b - 48) in if 255 < v then None else ipv4_fields s fs v (Suc digits)
      else if b = dot then
        if digits = 0 \<or> s = [] \<or> length fs = 3 then None
        else ipv4_fields s (fs @ [word_of_nat val]) 0 0
      else None)"

definition parseIPv4 :: "bytes \<Rightarrow> bytes option" where
  "parseIPv4 s = ipv4_fields s [] 0 0"

text \<open>
  \<open>netip.parseIPv6\<close>: the hexadecimal digits at the start of a string (at most four), and the loop
  over the groups with the bytes so far and the position of the ellipsis.  An address with a zone
  is not a \<open>net.IP\<close>, so \<open>ParseIP\<close> rejects every string with a percent sign.
\<close>

fun hex_group :: "bytes \<Rightarrow> nat \<Rightarrow> nat \<Rightarrow> (nat \<times> nat) option" where
  "hex_group [] acc off = Some (acc, off)"
| "hex_group (b # s) acc off =
     (case digit_of b of
        Some d \<Rightarrow> if d < 16 then (if 3 < off then None else hex_group s (acc * 16 + d) (Suc off)) else Some (acc, off)
      | None \<Rightarrow> Some (acc, off))"

lemma hex_group_off: "hex_group s acc off = Some (v, n) \<Longrightarrow> off \<le> n"
  by (induction s acc off rule: hex_group.induct) (auto split: option.splits if_splits)

function ipv6_groups :: "bytes \<Rightarrow> bytes \<Rightarrow> nat option \<Rightarrow> (bytes \<times> bytes \<times> nat option) option" where
  "ipv6_groups s ip ellipsis =
     (if 16 \<le> length ip then Some (s, ip, ellipsis)
      else case hex_group s 0 0 of
        None \<Rightarrow> None
      | Some (acc, off) \<Rightarrow>
          if off = 0 then None
          else if off < length s \<and> s ! off = dot then
            (if (ellipsis = None \<and> length ip \<noteq> 12) \<or> 16 < length ip + 4 then None
             else map_option (\<lambda>q. ([], ip @ q, ellipsis)) (ipv4_fields s [] 0 0))
          else
            let ip1 = ip @ [word_of_nat (acc div 256), word_of_nat acc]; s1 = drop off s in
            (case s1 of
               [] \<Rightarrow> Some ([], ip1, ellipsis)
             | [b] \<Rightarrow> None
             | b # c # s2 \<Rightarrow>
                 if b \<noteq> colon then None
                 else if c = colon then
                   if ellipsis \<noteq> None then None
                   else if s2 = [] then Some ([], ip1, Some (length ip1))
                   else ipv6_groups s2 ip1 (Some (length ip1))
                 else ipv6_groups (c # s2) ip1 ellipsis))"
  by pat_completeness auto
termination
  by (relation "measure (\<lambda>(s, ip, e). 16 - length ip)") auto

declare ipv6_groups.simps [simp del]

definition ipv6_expand :: "bytes \<times> bytes \<times> nat option \<Rightarrow> bytes option" where
  "ipv6_expand r =
     (case r of (s, ip, ellipsis) \<Rightarrow>
        if s \<noteq> [] then None
        else if length ip < 16 then
          (case ellipsis of
             None \<Rightarrow> None
           | Some e \<Rightarrow> Some (take e ip @ replicate (16 - length ip) 0 @ drop e ip))
        else if ellipsis \<noteq> None then None
        else Some ip)"

definition parseIPv6 :: "bytes \<Rightarrow> bytes option" where
  "parseIPv6 s =
     (if 37 \<in> set s then None
      else if take 2 s = [colon, colon]
      then (if drop 2 s = [] then Some (replicate 16 0)
            else Option.bind (ipv6_groups (drop 2 s) [] (Some 0)) ipv6_expand)
      else Option.bind (ipv6_groups s [] None) ipv6_expand)"

text \<open>\<open>netip.ParseAddr\<close> looks for the first dot, colon or percent sign.\<close>

definition ParseIP :: "bytes \<Rightarrow> bytes" where
  "ParseIP s =
     (case dropWhile (\<lambda>b. b \<notin> {dot, colon, 37}) s of
        [] \<Rightarrow> []
      | b # t \<Rightarrow>
          if b = dot then (case parseIPv4 s of None \<Rightarrow> [] | Some q \<Rightarrow> v4InV6Prefix @ q)
          else if b = colon then (case parseIPv6 s of None \<Rightarrow> [] | Some ip \<Rightarrow> ip)
          else [])"

section \<open>IPv4 text\<close>

lemma digit_byte: "d < 10 \<Longrightarrow> is_digit (word_of_nat (48 + d)) \<and> unat (word_of_nat (48 + d) :: byte) = 48 + d"
  by (simp add: is_digit_def unat_word_of_nat_byte del: of_nat_add)

lemma ipv4_digit:
  assumes "d < 10" and "\<not> (digits = 1 \<and> val = 0)" and "val * 10 + d \<le> 255"
  shows "ipv4_fields (word_of_nat (48 + d) # s) fs val digits = ipv4_fields s fs (val * 10 + d) (Suc digits)"
  using assms digit_byte [OF assms(1)] by (auto simp: Let_def simp del: of_nat_add)

lemma ipv4_fields_decimal:
  assumes "n \<le> 255"
  shows "ipv4_fields (decimal n @ s) fs 0 0 = ipv4_fields s fs n (length (decimal n))"
proof -
  let ?d = "\<lambda>k. word_of_nat (48 + k) :: byte"
  consider "n < 10" | "10 \<le> n" "n < 100" | "100 \<le> n" by linarith
  then show ?thesis
  proof cases
    case 1
    then have "decimal n = [?d n]" by (subst decimal.simps) simp
    with 1 show ?thesis using ipv4_digit [of n 0 0 s fs] by (simp del: ipv4_fields.simps of_nat_add)
  next
    case 2
    then have "decimal n = [?d (n div 10), ?d (n mod 10)]"
      by (subst decimal.simps) (simp add: decimal.simps [of "n div 10"])
    with 2 show ?thesis
      using ipv4_digit [of "n div 10" 0 0 "?d (n mod 10) # s" fs] ipv4_digit [of "n mod 10" 1 "n div 10" s fs] assms
      by (simp del: ipv4_fields.simps of_nat_add)
  next
    case 3
    then have "\<not> n div 10 < 10" "n div 10 div 10 < 10" using assms by linarith+
    with 3 have "decimal n = [?d (n div 10 div 10), ?d (n div 10 mod 10), ?d (n mod 10)]"
      by (subst decimal.simps) (simp add: decimal.simps [of "n div 10"] decimal.simps [of "n div 10 div 10"])
    moreover have "n div 10 div 10 * 10 + n div 10 mod 10 = n div 10" "0 < n div 10 div 10" "n div 10 div 10 < 10"
      using 3 assms by (simp_all add: div_mult_mod_eq)
    ultimately show ?thesis
      using ipv4_digit [of "n div 10 div 10" 0 0 "?d (n div 10 mod 10) # ?d (n mod 10) # s" fs]
        ipv4_digit [of "n div 10 mod 10" "Suc 0" "n div 10 div 10" "?d (n mod 10) # s" fs]
        ipv4_digit [of "n mod 10" "Suc (Suc 0)" "n div 10" s fs] assms
      by (simp del: ipv4_fields.simps of_nat_add)
  qed
qed

lemma byte_le_255: "unat (b :: byte) \<le> 255"
  using unsigned_less [where 'a = nat, of b] by simp

lemma parseIPv4_dotted:
  assumes "length ip = 4" shows "parseIPv4 (dotted ip) = Some ip"
proof -
  obtain a b c d where ip: "ip = [a, b, c, d]"
    using assms by (auto simp: length_Suc_conv eval_nat_numeral)
  have last: "ipv4_fields (decimal (unat d)) fs 0 0 = ipv4_fields [] fs (unat d) (length (decimal (unat d)))" for fs
    using ipv4_fields_decimal [OF byte_le_255 [of d], of "[]" fs] by simp
  show ?thesis
    by (simp add: parseIPv4_def dotted_def ip ipv4_fields_decimal byte_le_255 last is_digit_def)
qed

lemma ParseIP_dotted:
  assumes "length ip = 4" shows "ParseIP (dotted ip) = v4InV6Prefix @ ip"
proof -
  obtain a b c d where ip: "ip = [a, b, c, d]"
    using assms by (auto simp: length_Suc_conv eval_nat_numeral)
  have "\<forall>x \<in> set (decimal (unat a)). x \<notin> {dot, colon, 37}"
    using decimal_no_byte [of dot "unat a"] decimal_no_byte [of colon "unat a"] decimal_no_byte [of 37 "unat a"]
    by (auto simp: is_digit_def)
  then have "dropWhile (\<lambda>x. x \<notin> {dot, colon, 37}) (decimal (unat a) @ dot # t) = dot # t" for t
    by (subst dropWhile_append2) auto
  then show ?thesis
    using parseIPv4_dotted [OF assms] by (simp add: ParseIP_def dotted_def ip)
qed

lemma IP_String_v4: "length ip = 4 \<Longrightarrow> IP_String ip = dotted ip"
  by (auto simp: IP_String_def To4_def)

lemma dotted_bytes: "x \<in> set (dotted ip) \<Longrightarrow> length ip = 4 \<Longrightarrow> is_digit x \<or> x = dot"
  by (auto simp: dotted_def length_Suc_conv eval_nat_numeral dest: decimal_digits)

end
