(* ===== verification/Socks5.thy ===== *)
theory Socks5
  imports GoIO GoNet
begin

text \<open>
  The SOCKS5 front end (src/internal/socks5/server.go).  A client connection is a \<open>conn\<close> of the
  input/output theory.  What the dialers, the operating system and the deadline calls answer is in
  \<open>socksEnv\<close>.  The copying of a proxied connection and of a UDP association starts where
  \<open>ServeConn\<close> ends here; the two packet loops of an association are modelled round by round.
\<close>

abbreviation commandConnect :: byte where "commandConnect \<equiv> 1"
abbreviation commandUDPAssociate :: byte where "commandUDPAssociate \<equiv> 3"
abbreviation replySucceeded :: byte where "replySucceeded \<equiv> 0"
abbreviation replyGeneralFailure :: byte where "replyGeneralFailure \<equiv> 1"
abbreviation replyHostUnreachable :: byte where "replyHostUnreachable \<equiv> 4"
abbreviation replyConnectionRefused :: byte where "replyConnectionRefused \<equiv> 5"
abbreviation replyCommandNotSupported :: byte where "replyCommandNotSupported \<equiv> 7"

section \<open>Addresses\<close>

definition read_port :: "bytes \<Rightarrow> conn \<Rightarrow> conn \<times> bytes result" where
  "read_port host c =
     (case readFull 2 c of
        (c1, Inl err) \<Rightarrow> (c1, Inl err)
      | (c1, Inr portBytes) \<Rightarrow> (c1, Inr (JoinHostPort host (decimal (unat (Uint16 portBytes))))))"

definition readAddress :: "conn \<Rightarrow> byte \<Rightarrow> conn \<times> bytes result" where
  "readAddress c addressType =
     (if addressType = 1 then
        (case readFull 4 c of
           (c1, Inl err) \<Rightarrow> (c1, Inl err)
         | (c1, Inr b) \<Rightarrow> read_port (IP_String b) c1)
      else if addressType = 3 then
        (case readFull 1 c of
           (c1, Inl err) \<Rightarrow> (c1, Inl err)
         | (c1, Inr b) \<Rightarrow>
             if hd b = 0 then (c1, Inl (ErrText (str ''empty domain'')))
             else (case readFull (unat (hd b)) c1 of
                 (c2, Inl err) \<Rightarrow> (c2, Inl err)
               | (c2, Inr name) \<Rightarrow> read_port name c2))
      else if addressType = 4 then
        (case readFull 16 c of
           (c1, Inl err) \<Rightarrow> (c1, Inl err)
         | (c1, Inr b) \<Rightarrow> read_port (IP_String b) c1)
      else (c, Inl (ErrText (str ''unsupported address type''))))"

text \<open>The last failure cannot name the cause of \<open>ParseUint\<close> here: its text is not modelled further.\<close>

definition encodeAddress :: "bytes \<Rightarrow> bytes result" where
  "encodeAddress address =
     rbind (SplitHostPort address) (\<lambda>(host, rawPort).
       case ParseUint rawPort 10 16 of
         None \<Rightarrow> Inl (ErrText (str ''strconv.ParseUint: parsing '' @ rawPort))
       | Some port \<Rightarrow>
           let ip = ParseIP host; tail = [word_of_nat (port div 256), word_of_nat port] in
           if To4 ip \<noteq> [] then Inr (1 # To4 ip @ tail)
           else if To16 ip \<noteq> [] then Inr (4 # To16 ip @ tail)
           else if length host = 0 \<or> 255 < length host then Inl (ErrText (str ''invalid domain length''))
           else Inr (3 # word_of_nat (length host) # host @ tail))"

definition parseUDPRequest :: "bytes \<Rightarrow> (bytes \<times> bytes) result" where
  "parseUDPRequest packet =
     (if length packet < 4 \<or> packet ! 0 \<noteq> 0 \<or> packet ! 1 \<noteq> 0
      then Inl (ErrText (str ''invalid UDP reserved field''))
      else if packet ! 2 \<noteq> 0 then Inl (ErrText (str ''fragmented UDP packets are unsupported''))
      else case readAddress (fresh_conn (drop 4 packet)) (packet ! 3) of
        (c1, Inl err) \<Rightarrow> Inl err
      | (c1, Inr target) \<Rightarrow>
          let consumed = length (drop 4 packet) - length (inbuf c1)
          in Inr (target, drop (4 + consumed) packet))"

definition encodeUDPResponse :: "bytes \<Rightarrow> bytes \<Rightarrow> bytes result" where
  "encodeUDPResponse source data = rbind (encodeAddress source) (\<lambda>address. Inr ([0, 0, 0] @ address @ data))"

text \<open>
  \<open>sameClientIP\<close>; the source address of a packet is given by its \<open>net.IP\<close>.  \<open>IP.Equal\<close> identifies
  an IPv4 address with its IPv6 form.
\<close>

definition IP_Equal :: "bytes \<Rightarrow> bytes \<Rightarrow> bool" where
  "IP_Equal a b \<longleftrightarrow> (if length a = length b then a = b else To16 a = To16 b \<and> To4 a \<noteq> [] \<and> To4 b \<noteq> [])"

definition sameClientIP :: "bytes \<Rightarrow> bytes \<Rightarrow> bool" where
  "sameClientIP control udpIP =
     (case SplitHostPort control of
        Inl err \<Rightarrow> True
      | Inr (host, port) \<Rightarrow> ParseIP host = [] \<or> IP_Equal (ParseIP host) udpIP)"

section \<open>Handshake\<close>

definition negotiate :: "conn \<Rightarrow> conn \<times> goerr option" where
  "negotiate c =
     (case readFull 2 c of
        (c1, Inl err) \<Rightarrow> (c1, Some err)
      | (c1, Inr header) \<Rightarrow>
          if header ! 0 \<noteq> 5 then (c1, Some (ErrText (str ''unsupported SOCKS version'')))
          else (case readFull (unat (header ! 1)) c1 of
              (c2, Inl err) \<Rightarrow> (c2, Some err)
            | (c2, Inr methods) \<Rightarrow>
                if 0 \<in> set methods
                then (case conn_write c2 [5, 0] of (c3, n, err) \<Rightarrow> (c3, err))
                else (case conn_write c2 [5, 255] of (c3, n, err) \<Rightarrow>
                        (c3, if err = None then Some (ErrText (str ''no supported SOCKS authentication method''))
                             else err))))"

record request =
  rq_command :: byte
  rq_target :: bytes

definition readRequest :: "conn \<Rightarrow> conn \<times> request result" where
  "readRequest c =
     (case readFull 4 c of
        (c1, Inl err) \<Rightarrow> (c1, Inl err)
      | (c1, Inr header) \<Rightarrow>
          if header ! 0 \<noteq> 5 then (c1, Inl (ErrText (str ''unsupported SOCKS version'')))
          else (case readAddress c1 (header ! 3) of
              (c2, Inl err) \<Rightarrow> (c2, Inl err)
            | (c2, Inr target) \<Rightarrow> (c2, Inr \<lparr>rq_command = header ! 1, rq_target = target\<rparr>)))"

text \<open>\<open>writeReply\<close>; the address is the text of a \<open>net.Addr\<close>, if there is one.\<close>

definition reply_bytes :: "byte \<Rightarrow> bytes option \<Rightarrow> bytes" where
  "reply_bytes code addr =
     (let (host, port) = (case addr of
            None \<Rightarrow> ([], 0)
          | Some a \<Rightarrow> (case SplitHostPort a of Inl err \<Rightarrow> ([], 0) | Inr (h, p) \<Rightarrow> (h, Atoi_number p)));
          ip = (if ParseIP host = [] then v4InV6Prefix @ [0, 0, 0, 0] else ParseIP host);
          tail = [word_of_int (port div 256), word_of_int port]
      in if To4 ip \<noteq> [] then [5, code, 0, 1] @ To4 ip @ tail
         else [5, code, 0, 4] @ (if To16 ip = [] then replicate 16 0 else To16 ip) @ tail)"

definition writeReply :: "conn \<Rightarrow> byte \<Rightarrow> bytes option \<Rightarrow> conn \<times> goerr option" where
  "writeReply c code addr = (case conn_write c (reply_bytes code addr) of (c1, n, err) \<Rightarrow> (c1, err))"

definition mapDialError :: "goerr \<Rightarrow> byte" where
  "mapDialError err =
     (if err_is err ContextCanceled then replyGeneralFailure
      else if net_timeout err = Some True then replyHostUnreachable
      else if err_is err SysECONNREFUSED then replyConnectionRefused
      else replyGeneralFailure)"

section \<open>Connections\<close>

text \<open>
  The answers of the environment: the two \<open>SetDeadline\<close> calls, the dial of a target (the local
  address of the connection), the packet dialer if there is one, and the local UDP socket.
\<close>

record socksEnv =
  sx_deadline :: "goerr option"
  sx_clear :: "goerr option"
  sx_dial :: "bytes \<Rightarrow> bytes result"
  sx_packet :: "unit result option"
  sx_listen :: "bytes result"

datatype socksOutcome = SocksFailed goerr | SocksProxy bytes | SocksAssociate bytes

definition serveUDPAssociateWithPacket :: "socksEnv \<Rightarrow> conn \<Rightarrow> conn \<times> socksOutcome" where
  "serveUDPAssociateWithPacket env c =
     (case sx_listen env of
        Inl err \<Rightarrow> (fst (writeReply c replyGeneralFailure None), SocksFailed err)
      | Inr local \<Rightarrow>
          (case writeReply c replySucceeded (Some local) of
             (c1, Some err) \<Rightarrow> (c1, SocksFailed err)
           | (c1, None) \<Rightarrow> (c1, SocksAssociate local)))"

definition serveUDPAssociate :: "socksEnv \<Rightarrow> unit result \<Rightarrow> conn \<Rightarrow> conn \<times> socksOutcome" where
  "serveUDPAssociate env opened c =
     (case opened of
        Inl err \<Rightarrow> (fst (writeReply c (mapDialError err) None), SocksFailed err)
      | Inr u \<Rightarrow> serveUDPAssociateWithPacket env c)"

definition ServeConn :: "socksEnv \<Rightarrow> conn \<Rightarrow> conn \<times> socksOutcome" where
  "ServeConn env c =
     (case sx_deadline env of
        Some err \<Rightarrow> (c, SocksFailed err)
      | None \<Rightarrow>
          (case negotiate c of
             (c1, Some err) \<Rightarrow> (c1, SocksFailed err)
           | (c1, None) \<Rightarrow>
               (case readRequest c1 of
                  (c2, Inl err) \<Rightarrow> (fst (writeReply c2 replyGeneralFailure None), SocksFailed err)
                | (c2, Inr rq) \<Rightarrow>
                    (case sx_clear env of
                       Some err \<Rightarrow> (c2, SocksFailed err)
                     | None \<Rightarrow>
                         if rq_command rq = commandUDPAssociate then
                           (case sx_packet env of
                              None \<Rightarrow>
                                (fst (writeReply c2 replyCommandNotSupported None),
                                 SocksFailed (ErrText (str ''UDP relay is unavailable'')))
                            | Some opened \<Rightarrow> serveUDPAssociate env opened c2)
                         else if rq_command rq \<noteq> commandConnect then
                           (fst (writeReply c2 replyCommandNotSupported None),
                            SocksFailed (ErrText (str ''unsupported SOCKS command'')))
                         else (case sx_dial env (rq_target rq) of
                             Inl err \<Rightarrow> (fst (writeReply c2 (mapDialError err) None), SocksFailed err)
                           | Inr local \<Rightarrow>
                               (case writeReply c2 replySucceeded (Some local) of
                                  (c3, Some err) \<Rightarrow> (c3, SocksFailed err)
                                | (c3, None) \<Rightarrow> (c3, SocksProxy (rq_target rq))))))))"

section \<open>UDP associations\<close>

text \<open>
  The state the two packet loops share: the last accepted client address, and logs of what was
  written to the relay (target, data) and to the client (address, packet).
\<close>

record association =
  as_client :: "bytes option"
  as_relay :: "(bytes \<times> bytes) list"
  as_local :: "(bytes \<times> bytes) list"

text \<open>
  A round of the loop that reads from the local socket: the packet with the IP and the address of
  its source, and the outcome of \<open>WriteTo\<close>.  The error, if any, ends the association.
\<close>

definition local_round ::
  "bytes \<Rightarrow> association \<Rightarrow> (bytes \<times> bytes \<times> bytes) result \<Rightarrow> goerr option \<Rightarrow> association \<times> goerr option" where
  "local_round control a received writeErr =
     (case received of
        Inl err \<Rightarrow> (a, Some err)
      | Inr (packet, ip, source) \<Rightarrow>
          if \<not> sameClientIP control ip then (a, None)
          else (case parseUDPRequest packet of
              Inl err \<Rightarrow> (a, None)
            | Inr (target, data) \<Rightarrow>
                (a\<lparr>as_client := Some source,
                   as_relay := (if writeErr = None then as_relay a @ [(target, data)] else as_relay a)\<rparr>, writeErr)))"

definition relay_round ::
  "association \<Rightarrow> (bytes \<times> bytes) result \<Rightarrow> goerr option \<Rightarrow> association \<times> goerr option" where
  "relay_round a received writeErr =
     (case received of
        Inl err \<Rightarrow> (a, Some err)
      | Inr (data, source) \<Rightarrow>
          (case encodeUDPResponse source data of
             Inl err \<Rightarrow> (a, None)
           | Inr packet \<Rightarrow>
               (case as_client a of
                  None \<Rightarrow> (a, None)
                | Some destination \<Rightarrow>
                    (a\<lparr>as_local := (if writeErr = None then as_local a @ [(destination, packet)] else as_local a)\<rparr>,
                     writeErr))))"

text \<open>What the association returns when one of its loops reports an error.\<close>

definition associate_result :: "goerr \<Rightarrow> goerr option" where
  "associate_result err = (if err_is err IoEOF \<or> err_is err NetErrClosed then None else Some err)"

end
