(* ===== verification/GoNetText.thy ===== *)
theory GoNetText
  imports GoNet
begin

text \<open>
  The text form of an IPv6 address is read inv as the same address: \<open>ParseIP\<close> inverts
  \<open>IP.String\<close>, including the elided run of zero groups.
\<close>

section \<open>Hexadecimal groups\<close>

lemma hex_digit_of: "d < 16 \<Longrightarrow> digit_of (hex_digit d) = Some d"
  by (auto simp: digit_of_def hex_digit_def unat_word_of_nat_byte simp del: of_nat_add)

definition is_hex :: "byte \<Rightarrow> bool" where
  "is_hex b \<longleftrightarrow> (\<exists>d. digit_of b = Some d \<and> d < 16)"

lemma hex_digit_is_hex: "d < 16 \<Longrightarrow> is_hex (hex_digit d)"
  by (simp add: is_hex_def hex_digit_of)

lemma hexadecimal_is_hex: "b \<in> set (hexadecimal n) \<Longrightarrow> is_hex b"
proof (induction n rule: hexadecimal.induct)
  case (1 n)
  then show ?case
    by (subst (asm) (2) hexadecimal.simps) (auto simp: hex_digit_is_hex split: if_splits)
qed

lemma hexadecimal_not_Nil [simp]: "hexadecimal n \<noteq> []"
  by (subst hexadecimal.simps) simp

lemma not_hex [simp]: "\<not> is_hex colon" "\<not> is_hex dot" "\<not> is_hex 37"
  by (auto simp: is_hex_def digit_of_def)

lemma hex_step:
  "d < 16 \<Longrightarrow> off \<le> 3 \<Longrightarrow> hex_group (hex_digit d # s) acc off = hex_group s (acc * 16 + d) (Suc off)"
  by (simp add: hex_digit_of)

lemma hex_group_stop: "s = [] \<or> \<not> is_hex (hd s) \<Longrightarrow> hex_group s acc off = Some (acc, off)"
  by (cases s) (auto simp: is_hex_def split: option.splits)

lemma hexadecimal_cases:
  assumes "n < 65536"
  obtains a where "n = a" "a < 16" "hexadecimal n = [hex_digit a]"
  | a b where "n = a * 16 + b" "a < 16" "b < 16" "hexadecimal n = [hex_digit a, hex_digit b]"
  | a b c where "n = (a * 16 + b) * 16 + c" "a < 16" "b < 16" "c < 16"
      "hexadecimal n = [hex_digit a, hex_digit b, hex_digit c]"
  | a b c d where "n = ((a * 16 + b) * 16 + c) * 16 + d" "a < 16" "b < 16" "c < 16" "d < 16"
      "hexadecimal n = [hex_digit a, hex_digit b, hex_digit c, hex_digit d]"
proof -
  let ?n1 = "n div 16" and ?n2 = "n div 16 div 16" and ?n3 = "n div 16 div 16 div 16"
  have small: "hexadecimal m = [hex_digit m]" if "m < 16" for m using that by (subst hexadecimal.simps) simp
  have big: "hexadecimal m = hexadecimal (m div 16) @ [hex_digit (m mod 16)]" if "\<not> m < 16" for m
    using that by (subst hexadecimal.simps) simp
  have n1: "n = ?n1 * 16 + n mod 16" and n2: "?n1 = ?n2 * 16 + ?n1 mod 16" and n3: "?n2 = ?n3 * 16 + ?n2 mod 16"
    by (simp_all only: div_mult_mod_eq)
  have lt3: "?n3 < 16" using assms by linarith
  consider "n < 16" | "\<not> n < 16" "?n1 < 16" | "\<not> n < 16" "\<not> ?n1 < 16" "?n2 < 16"
    | "\<not> n < 16" "\<not> ?n1 < 16" "\<not> ?n2 < 16" by blast
  then show ?thesis
  proof cases
    case 1
    then show ?thesis using that(1) small by blast
  next
    case 2
    then have "hexadecimal n = [hex_digit ?n1, hex_digit (n mod 16)]" by (simp add: big small)
    with 2 n1 show ?thesis using that(2) [of ?n1 "n mod 16"] by simp
  next
    case 3
    then have "hexadecimal n = [hex_digit ?n2, hex_digit (?n1 mod 16), hex_digit (n mod 16)]"
      by (simp add: big [of n] big [of ?n1] small)
    with 3 n1 n2 show ?thesis using that(3) [of ?n2 "?n1 mod 16" "n mod 16"] by simp
  next
    case 4
    then have "hexadecimal n = [hex_digit ?n3, hex_digit (?n2 mod 16), hex_digit (?n1 mod 16), hex_digit (n mod 16)]"
      using lt3 by (simp add: big [of n] big [of ?n1] big [of ?n2] small)
    with lt3 n1 n2 n3 show ?thesis using that(4) [of ?n3 "?n2 mod 16" "?n1 mod 16" "n mod 16"] by simp
  qed
qed

lemma hex_group_hexadecimal:
  assumes "n < 65536" and "s = [] \<or> \<not> is_hex (hd s)"
  shows "hex_group (hexadecimal n @ s) 0 0 = Some (n, length (hexadecimal n))"
  using assms(1) hex_group_stop [OF assms(2)]
  by (cases rule: hexadecimal_cases) (simp_all add: hex_step del: hex_group.simps(2))

section \<open>Groups\<close>

definition group_bytes :: "nat list \<Rightarrow> bytes" where
  "group_bytes gs = concat (map (\<lambda>g. [word_of_nat (g div 256), word_of_nat g]) gs)"

lemma group_bytes_simps [simp]:
  "group_bytes [] = []" "group_bytes (g # gs) = [word_of_nat (g div 256), word_of_nat g] @ group_bytes gs"
  "group_bytes (gs @ hs) = group_bytes gs @ group_bytes hs"
  by (simp_all add: group_bytes_def)

lemma length_group_bytes [simp]: "length (group_bytes gs) = 2 * length gs"
  by (induction gs) auto

lemma groups16_bytes: "even (length ip) \<Longrightarrow> group_bytes (groups16 ip) = ip"
proof (induction ip rule: groups16.induct)
  case (1 a b s)
  have "(256 :: byte) = 0" by simp
  then have "(256 :: byte) * a = 0" by (simp only: mult_zero_left)
  then have "(word_of_nat (256 * unat a + unat b) :: byte) = word_of_nat (unat b)" by simp
  moreover have "(256 * unat a + unat b) div 256 = unat a" using byte_le_255 [of b] by simp
  ultimately show ?case using 1 by simp
qed auto

lemma groups16_bound: "g \<in> set (groups16 ip) \<Longrightarrow> g < 65536"
proof (induction ip rule: groups16.induct)
  case (1 a b s)
  have "256 * unat a + unat b < 65536" using byte_le_255 [of a] byte_le_255 [of b] by linarith
  with 1 show ?case by auto
qed auto

lemma length_groups16: "even (length ip) \<Longrightarrow> 2 * length (groups16 ip) = length ip"
  by (induction ip rule: groups16.induct) auto

lemma group_bytes_zeros: "group_bytes (replicate n 0) = replicate (2 * n) 0"
  by (induction n) auto

abbreviation hextext :: "nat list \<Rightarrow> bytes" where
  "hextext gs \<equiv> strings_Join (map hexadecimal gs) [colon]"

lemma hextext_Cons: "gs \<noteq> [] \<Longrightarrow> strings_Join (hexadecimal g # map hexadecimal gs) [colon] = hexadecimal g @ colon # hextext gs"
  by (cases gs) auto

lemma hextext_hd: "gs \<noteq> [] \<Longrightarrow> hextext gs \<noteq> [] \<and> is_hex (hd (hextext gs))"
  using hexadecimal_is_hex [of "hd (hexadecimal (hd gs))" "hd gs"]
  by (cases gs; cases "tl gs") auto

text \<open>One group at the front: at the end, before another group, before the ellipsis.\<close>

lemma groups_last:
  "g < 65536 \<Longrightarrow> length ip + 2 \<le> 16 \<Longrightarrow>
     ipv6_groups (hexadecimal g) ip e = Some ([], ip @ group_bytes [g], e)"
  using hex_group_hexadecimal [of g "[]"] by (subst ipv6_groups.simps) (auto simp: Let_def)

lemma groups_more:
  assumes g: "g < 65536" "length ip + 2 \<le> 16" and s: "s \<noteq> []" "hd s \<noteq> colon"
  shows "ipv6_groups (hexadecimal g @ colon # s) ip e = ipv6_groups s (ip @ group_bytes [g]) e"
proof -
  obtain c s2 where "s = c # s2" using s(1) by (cases s) auto
  with s(2) g hex_group_hexadecimal [of g "colon # s"] show ?thesis
    by (subst ipv6_groups.simps) (simp add: Let_def nth_append)
qed

lemma groups_ellipsis:
  assumes g: "g < 65536" "length ip + 2 \<le> 16"
  shows "ipv6_groups (hexadecimal g @ colon # colon # s) ip None =
    (if s = [] then Some ([], ip @ group_bytes [g], Some (length ip + 2))
     else ipv6_groups s (ip @ group_bytes [g]) (Some (length ip + 2)))"
  using g hex_group_hexadecimal [of g "colon # colon # s"]
  by (subst ipv6_groups.simps) (simp add: Let_def nth_append)

lemma groups_list:
  "gs \<noteq> [] \<Longrightarrow> list_all (\<lambda>g. g < 65536) gs \<Longrightarrow> length ip + 2 * length gs \<le> 16 \<Longrightarrow>
     ipv6_groups (hextext gs) ip e = Some ([], ip @ group_bytes gs, e)"
proof (induction gs arbitrary: ip)
  case (Cons g gs)
  show ?case
  proof (cases "gs = []")
    case True
    with Cons.prems show ?thesis using groups_last [of g ip e] by simp
  next
    case False
    then have "hextext gs \<noteq> []" "hd (hextext gs) \<noteq> colon" using hextext_hd [OF False] by auto
    with False Cons show ?thesis by (simp add: hextext_Cons groups_more)
  qed
qed simp

lemma groups_elided:
  "gs \<noteq> [] \<Longrightarrow> list_all (\<lambda>g. g < 65536) (gs @ hs) \<Longrightarrow> length ip + 2 * length (gs @ hs) < 16 \<Longrightarrow>
     ipv6_groups (hextext gs @ colon # colon # hextext hs) ip None
       = Some ([], ip @ group_bytes (gs @ hs), Some (length ip + 2 * length gs))"
proof (induction gs arbitrary: ip)
  case (Cons g gs)
  show ?case
  proof (cases "gs = []")
    case True
    show ?thesis
    proof (cases "hs = []")
      case False
      with True Cons.prems groups_list [OF False, of "ip @ group_bytes [g]" "Some (length ip + 2)"] hextext_hd [OF False]
      show ?thesis by (simp add: groups_ellipsis)
    qed (use True Cons.prems in \<open>simp add: groups_ellipsis\<close>)
  next
    case False
    let ?s = "hextext gs @ colon # colon # hextext hs"
    have "?s \<noteq> []" "hd ?s \<noteq> colon" using hextext_hd [OF False] by auto
    with False Cons.prems Cons.IH [OF False, of "ip @ group_bytes [g]"] groups_more [of g ip ?s None]
    show ?thesis by (simp add: hextext_Cons)
  qed
qed simp

section \<open>The elided run\<close>

lemma zero_run_zeros: "j < zero_run gs i \<Longrightarrow> i + j < length gs \<and> gs ! (i + j) = 0"
proof -
  assume j: "j < zero_run gs i"
  have "zero_run gs i \<le> length (drop i gs)" unfolding zero_run_def by (rule length_takeWhile_le)
  moreover have "takeWhile (\<lambda>g. g = 0) (drop i gs) ! j = 0"
    using j nth_mem [of j "takeWhile (\<lambda>g. g = 0) (drop i gs)"] set_takeWhileD unfolding zero_run_def by fast
  ultimately show ?thesis
    using j takeWhile_nth [of j "\<lambda>g. g = 0" "drop i gs"] unfolding zero_run_def by auto
qed

lemma longest_zeros_run:
  "longest_zeros gs is best = Some (s, n) \<Longrightarrow> (best = Some (s, n) \<longrightarrow> 2 \<le> n \<and> n = zero_run gs s) \<Longrightarrow>
     2 \<le> n \<and> n = zero_run gs s"
  by (induction gs "is" best rule: longest_zeros.induct) (auto simp: Let_def split: if_splits option.splits)

lemma elided_run:
  assumes "longest_zeros gs is None = Some (s, n)"
  shows "gs = take s gs @ replicate n 0 @ drop (s + n) gs" and "2 \<le> n" and "s + n \<le> length gs"
proof -
  have n: "2 \<le> n" "n = zero_run gs s" using longest_zeros_run [OF assms] by auto
  then have z: "s + j < length gs \<and> gs ! (s + j) = 0" if "j < n" for j using zero_run_zeros that by blast
  have "s + (n - 1) < length gs" using z [of "n - 1"] n(1) by simp
  with n(1) show le: "s + n \<le> length gs" by linarith
  have "take n (drop s gs) = replicate n 0"
    using z le by (intro nth_equalityI) auto
  then show "gs = take s gs @ replicate n 0 @ drop (s + n) gs"
    by (metis append_take_drop_id drop_drop add.commute)
  show "2 \<le> n" by (rule n(1))
qed

section \<open>Reading inv\<close>

lemma hextext_bytes: "b \<in> set (hextext gs) \<Longrightarrow> is_hex b \<or> b = colon"
proof (induction gs)
  case (Cons g gs)
  then show ?case
    by (cases "gs = []") (auto simp: hextext_Cons dest: hexadecimal_is_hex)
qed simp

lemma ip6_text_bytes: "b \<in> set (ip6_text gs) \<Longrightarrow> is_hex b \<or> b = colon"
  by (auto simp: ip6_text_def dest: hextext_bytes split: option.splits prod.splits)

lemma parseIPv6_text:
  assumes ip: "length ip = 16" shows "parseIPv6 (ip6_text (groups16 ip)) = Some ip"
proof -
  define gs where gs: "gs = groups16 ip"
  have len: "length gs = 8" using length_groups16 [of ip] ip by (simp add: gs)
  have bnd: "list_all (\<lambda>g. g < 65536) gs" using groups16_bound by (auto simp: list_all_iff gs)
  have inv: "group_bytes gs = ip" using groups16_bytes [of ip] ip by (simp add: gs)
  have zone: "37 \<notin> set (ip6_text gs)" using ip6_text_bytes [of 37 gs] by auto
  show ?thesis
  proof (cases "longest_zeros gs [0..<length gs] None")
    case None
    then have t: "ip6_text gs = hextext gs" by (simp add: ip6_text_def)
    have ne: "gs \<noteq> []" using len by auto
    have "take 2 (hextext gs) \<noteq> [colon, colon]"
      using hextext_hd [OF ne] by (cases "hextext gs") auto
    with t zone groups_list [OF ne bnd, of "[]" None] len inv ip show ?thesis
      by (simp add: parseIPv6_def ipv6_expand_def gs [symmetric])
  next
    case (Some r)
    then obtain s n where r: "longest_zeros gs [0..<length gs] None = Some (s, n)" by (cases r) auto
    note run = elided_run [OF r]
    let ?xs = "take s gs" and ?ys = "drop (s + n) gs"
    have t: "ip6_text gs = hextext ?xs @ colon # colon # hextext ?ys" by (simp add: ip6_text_def r)
    have b2: "list_all (\<lambda>g. g < 65536) (?xs @ ?ys)"
      using bnd by (auto simp: list_all_iff dest: in_set_takeD in_set_dropD)
    have l2: "length (?xs @ ?ys) + n = 8" using run(3) len by simp
    have joined: "ip = group_bytes ?xs @ replicate (2 * n) 0 @ group_bytes ?ys"
      using inv run(1) group_bytes_zeros [of n] by (metis group_bytes_simps(3))
    have ex: "ipv6_expand ([], group_bytes (?xs @ ?ys), Some (2 * length ?xs)) = Some ip"
      using joined l2 run(2) by (simp add: ipv6_expand_def)
    show ?thesis
    proof (cases "?xs = []")
      case True
      have "ipv6_groups (hextext ?ys) [] (Some 0) = Some ([], group_bytes ?ys, Some 0)" if "?ys \<noteq> []"
        using groups_list [OF that, of "[]" "Some 0"] b2 l2 by simp
      moreover have "ip = replicate 16 0" if "?ys = []"
        using joined True that l2 by (simp del: take_eq_Nil drop_eq_Nil length_append length_take length_drop)
      ultimately show ?thesis
        using True t zone ex hextext_hd [of ?ys] unfolding parseIPv6_def gs [symmetric]
        by (cases "?ys = []") auto
    next
      case False
      have "take 2 (hextext ?xs @ colon # colon # hextext ?ys) \<noteq> [colon, colon]"
        using hextext_hd [OF False] by (cases "hextext ?xs") auto
      moreover have "ipv6_groups (hextext ?xs @ colon # colon # hextext ?ys) [] None
          = Some ([], group_bytes (?xs @ ?ys), Some (2 * length ?xs))"
        using groups_elided [OF False b2, of "[]"] l2 run(2) by simp
      ultimately show ?thesis
        using t zone ex unfolding parseIPv6_def gs [symmetric] by simp
    qed
  qed
qed

lemma ip6_text_colon: "length gs = 8 \<Longrightarrow> colon \<in> set (ip6_text gs)"
proof (cases "longest_zeros gs [0..<length gs] None")
  case None
  assume "length gs = 8"
  then obtain g h t where "gs = g # h # t" by (cases gs; cases "tl gs") auto
  with None show ?thesis by (simp add: ip6_text_def)
qed (auto simp: ip6_text_def)

lemma first_colon:
  "colon \<in> set t \<Longrightarrow> dot \<notin> set t \<Longrightarrow> 37 \<notin> set t \<Longrightarrow>
     \<exists>r. dropWhile (\<lambda>b. b \<notin> {dot, colon, 37}) t = colon # r"
  by (induction t) auto

text \<open>\<open>ParseIP\<close> inverts \<open>String\<close> on every address, up to the IPv6 form of an IPv4 address.\<close>

lemma ParseIP_String:
  assumes "length ip = 4 \<or> length ip = 16"
  shows "ParseIP (IP_String ip) = To16 ip"
proof (cases "To4 ip = []")
  case False
  have l4: "length (To4 ip) = 4" using False by (auto simp: To4_def split: if_splits)
  have "v4InV6Prefix @ To4 ip = To16 ip"
    using False assms by (auto simp: To4_def To16_def split: if_splits) (metis append_take_drop_id)
  moreover have "IP_String ip = dotted (To4 ip)" using False assms by (auto simp: IP_String_def To4_def)
  ultimately show ?thesis using ParseIP_dotted [OF l4] by simp
next
  case True
  then have ip: "length ip = 16" "IP_String ip = ip6_text (groups16 ip)" "To16 ip = ip"
    using assms by (auto simp: To4_def To16_def IP_String_def)
  let ?t = "ip6_text (groups16 ip)"
  have len: "length (groups16 ip) = 8" using length_groups16 [of ip] ip(1) by simp
  have dots: "dot \<notin> set ?t" "37 \<notin> set ?t" using ip6_text_bytes [of dot] ip6_text_bytes [of 37] by auto
  have "\<exists>r. dropWhile (\<lambda>b. b \<notin> {dot, colon, 37}) ?t = colon # r"
    using first_colon [OF ip6_text_colon [OF len] dots] .
  then show ?thesis using parseIPv6_text [OF ip(1)] ip by (auto simp: ParseIP_def)
qed

end
