(* ===== verification/Socks5Props.thy ===== *)
theory Socks5Props
  imports Socks5 GoNetText
begin

text \<open>
  What the SOCKS5 front end guarantees: the address codec inverts itself on every target an address
  field can carry, and \<open>ServeConn\<close> follows the protocol of a connection.
\<close>

section \<open>Parsed addresses\<close>

lemma ipv4_fields_length: "ipv4_fields s fs v d = Some q \<Longrightarrow> length fs \<le> 3 \<Longrightarrow> length q = 4"
  by (induction s fs v d rule: ipv4_fields.induct) (auto simp: Let_def split: if_splits)

lemma ipv6_groups_length:
  "ipv6_groups s ip e = Some (s', ip', e') \<Longrightarrow> even (length ip) \<Longrightarrow> length ip \<le> 16 \<Longrightarrow> length ip' \<le> 16"
proof (induction "16 - length ip" arbitrary: s ip e rule: less_induct)
  case less
  have two: "even (length ip) \<Longrightarrow> length ip < 16 \<Longrightarrow> length ip + 2 \<le> 16" by presburger
  have q: "ipv4_fields s [] 0 0 = Some q \<Longrightarrow> length q = 4" for q by (simp add: ipv4_fields_length)
  have IH: "ipv6_groups t (ip @ [a, b]) f = Some (s', ip', e') \<Longrightarrow> length ip < 16 \<Longrightarrow> length ip' \<le> 16" for t a b f
    using less(1) [of "ip @ [a, b]" t f] less.prems two by simp
  show ?case
    using less.prems two q
    by (subst (asm) ipv6_groups.simps)
      (auto simp: Let_def split: if_splits option.splits list.splits prod.splits dest: IH)
qed

lemma ParseIP_length: "ParseIP s \<noteq> [] \<Longrightarrow> length (ParseIP s) = 16"
proof -
  have e: "length r = 16"
    if "Option.bind (ipv6_groups t [] e) ipv6_expand = Some r" for t e r
    using that by (auto simp: ipv6_expand_def bind_eq_Some_conv split: if_splits option.splits
        dest: ipv6_groups_length)
  have six: "parseIPv6 t = Some r \<Longrightarrow> length r = 16" for t r
    by (auto simp: parseIPv6_def split: if_splits dest: e)
  have four: "parseIPv4 t = Some q \<Longrightarrow> length q = 4" for t q
    by (auto simp: parseIPv4_def dest: ipv4_fields_length)
  have pre: "length v4InV6Prefix = 12" by (simp add: v4InV6Prefix_def)
  assume "ParseIP s \<noteq> []"
  then show ?thesis
    using six [of s] four [of s] pre unfolding ParseIP_def
    by (cases "dropWhile (\<lambda>b. b \<notin> {dot, colon, 37}) s"; cases "parseIPv4 s"; cases "parseIPv6 s")
      (simp_all del: dropWhile_eq_Nil_conv split: if_splits)
qed

lemma To4_length: "To4 ip \<noteq> [] \<Longrightarrow> length (To4 ip) = 4"
  by (auto simp: To4_def split: if_splits)

lemma IP_String_To4: "To4 ip \<noteq> [] \<Longrightarrow> IP_String (To4 ip) = IP_String ip"
  by (auto simp: IP_String_def To4_def split: if_splits)

section \<open>The address codec\<close>

lemma port_bytes: "port < 65536 \<Longrightarrow> Uint16 [word_of_nat (port div 256), word_of_nat port] = word_of_nat port"
proof -
  assume p: "port < 65536"
  have "PutUint16 (word_of_nat port) = [word_of_nat (port div 256 mod 256), word_of_nat (port mod 256)]"
    using p by (simp add: PutUint16_def numeral_2_eq_2 unat_of_nat_u16)
  moreover have "(word_of_nat (port mod 256) :: byte) = word_of_nat port" "port div 256 mod 256 = port div 256"
    using p by (simp_all add: word_of_nat_eq_iff take_bit_eq_mod)
  ultimately show ?thesis using p Uint16_Put [of "word_of_nat port" "[]"] by simp
qed

lemma read_port_bytes:
  assumes "inbuf c = [word_of_nat (port div 256), word_of_nat port] @ ys" and "port < 65536"
  shows "read_port host c = (c\<lparr>inbuf := ys\<rparr>, Inr (JoinHostPort host (decimal port)))"
  unfolding read_port_def readFull_enough [OF assms(1), of 2, simplified]
  using assms(2) port_bytes [OF assms(2)] by (simp add: unat_of_nat_u16)

text \<open>The host an encoded address names: IP addresses come back in canonical form.\<close>

definition canonical_host :: "bytes \<Rightarrow> bytes" where
  "canonical_host host = (if ParseIP host = [] then host else IP_String (ParseIP host))"

lemma encodeAddress_cases:
  assumes "encodeAddress address = Inr bs"
  obtains host rawPort port field where "SplitHostPort address = Inr (host, rawPort)"
    and "ParseUint rawPort 10 16 = Some port"
    and "bs = field @ [word_of_nat (port div 256), word_of_nat port]"
    and "(\<exists>ip. length ip = 4 \<and> field = 1 # ip \<and> canonical_host host = IP_String ip)
       \<or> (\<exists>ip. length ip = 16 \<and> field = 4 # ip \<and> canonical_host host = IP_String ip)
       \<or> (0 < length host \<and> length host \<le> 255 \<and> field = 3 # word_of_nat (length host) # host \<and> canonical_host host = host)"
proof -
  obtain host rawPort where sp: "SplitHostPort address = Inr (host, rawPort)"
    using assms by (auto simp: encodeAddress_def rbind_def split: sum.splits)
  obtain port where pt: "ParseUint rawPort 10 16 = Some port"
    using assms sp by (auto simp: encodeAddress_def rbind_def split: option.splits)
  let ?ip = "ParseIP host" and ?tail = "[word_of_nat (port div 256), word_of_nat port]"
  consider (v4) "To4 ?ip \<noteq> []" | (v6) "To4 ?ip = []" "?ip \<noteq> []" | (name) "?ip = []" by blast
  then show ?thesis
  proof cases
    case v4
    then have "?ip \<noteq> []" by (auto simp: To4_def)
    with v4 assms sp pt To4_length [OF v4] IP_String_To4 [OF v4] show ?thesis
      by (intro that [of host rawPort port "1 # To4 ?ip"])
        (auto simp: encodeAddress_def rbind_def Let_def canonical_host_def)
  next
    case v6
    with ParseIP_length [OF v6(2)] have "To16 ?ip = ?ip" "length ?ip = 16" by (auto simp: To16_def)
    with v6 assms sp pt show ?thesis
      by (intro that [of host rawPort port "4 # ?ip"])
        (auto simp: encodeAddress_def rbind_def Let_def canonical_host_def)
  next
    case name
    then have "To4 ?ip = []" "To16 ?ip = []" by (auto simp: To4_def To16_def)
    with name assms sp pt show ?thesis
      by (intro that [of host rawPort port "3 # word_of_nat (length host) # host"])
        (auto simp: encodeAddress_def rbind_def Let_def canonical_host_def split: if_splits)
  qed
qed

lemma readAddress_field:
  assumes f: "(\<exists>ip. length ip = 4 \<and> field = 1 # ip \<and> h = IP_String ip)
       \<or> (\<exists>ip. length ip = 16 \<and> field = 4 # ip \<and> h = IP_String ip)
       \<or> (0 < length h \<and> length h \<le> 255 \<and> field = 3 # word_of_nat (length h) # h)"
    and c: "inbuf c = tl field @ [word_of_nat (port div 256), word_of_nat port] @ ys" and p: "port < 65536"
  shows "readAddress c (hd field) = (c\<lparr>inbuf := ys\<rparr>, Inr (JoinHostPort h (decimal port)))"
proof -
  let ?tail = "[word_of_nat (port div 256), word_of_nat port] @ ys"
  have rp: "read_port k (c\<lparr>inbuf := ?tail\<rparr>) = (c\<lparr>inbuf := ys\<rparr>, Inr (JoinHostPort k (decimal port)))" for k
    using read_port_bytes [of "c\<lparr>inbuf := ?tail\<rparr>" port ys k] p by simp
  consider (v4) ip where "length ip = 4" "field = 1 # ip" "h = IP_String ip"
    | (v6) ip where "length ip = 16" "field = 4 # ip" "h = IP_String ip"
    | (name) "0 < length h" "length h \<le> 255" "field = 3 # word_of_nat (length h) # h"
    using f by blast
  then show ?thesis
  proof cases
    case v4
    with c readFull_enough [of c ip ?tail 4] rp show ?thesis by (simp add: readAddress_def)
  next
    case v6
    with c readFull_enough [of c ip ?tail 16] rp show ?thesis by (simp add: readAddress_def)
  next
    case name
    have l: "unat (word_of_nat (length h) :: byte) = length h" using name(2) by (simp add: unat_word_of_nat_byte)
    then have nz: "(word_of_nat (length h) :: byte) \<noteq> 0" using name(1) by auto
    have "readFull 1 c = (c\<lparr>inbuf := h @ ?tail\<rparr>, Inr [word_of_nat (length h)])"
      using c name(3) readFull_enough [of c "[word_of_nat (length h)]" "h @ ?tail" 1] by simp
    moreover have "readFull (length h) (c\<lparr>inbuf := h @ ?tail\<rparr>) = (c\<lparr>inbuf := ?tail\<rparr>, Inr h)"
      using readFull_enough [of "c\<lparr>inbuf := h @ ?tail\<rparr>" h ?tail "length h"] by simp
    ultimately show ?thesis using name(3) l nz rp by (simp add: readAddress_def)
  qed
qed

lemma ParseUint_less: "ParseUint s base bits = Some v \<Longrightarrow> v < 2 ^ bits"
  by (auto simp: ParseUint_def split: if_splits option.splits)

lemma udp_packet_parses:
  assumes "encodeUDPResponse source data = Inr packet"
  shows "\<exists>host rawPort port. SplitHostPort source = Inr (host, rawPort) \<and> ParseUint rawPort 10 16 = Some port
    \<and> parseUDPRequest packet = Inr (JoinHostPort (canonical_host host) (decimal port), data)"
proof -
  obtain bs where bs: "encodeAddress source = Inr bs" "packet = [0, 0, 0] @ bs @ data"
    using assms by (auto simp: encodeUDPResponse_def rbind_def split: sum.splits)
  from bs(1) show ?thesis
  proof (cases rule: encodeAddress_cases)
    case (1 host rawPort port field)
    let ?rest = "tl field @ [word_of_nat (port div 256), word_of_nat port] @ data"
    have p: "port < 65536" using ParseUint_less [OF 1(2)] by simp
    have "field \<noteq> []" using 1(4) by auto
    then have pk: "packet = [0, 0, 0, hd field] @ ?rest" using bs(2) 1(3) by (cases field) auto
    have "readAddress (fresh_conn ?rest) (hd field)
        = ((fresh_conn ?rest)\<lparr>inbuf := data\<rparr>, Inr (JoinHostPort (canonical_host host) (decimal port)))"
      by (rule readAddress_field) (use 1(4) p in \<open>auto simp: fresh_conn_def\<close>)
    moreover have "drop (4 + (length ?rest - length data)) packet = data" unfolding pk by (simp add: drop_Cons')
    ultimately show ?thesis
      using pk 1(1,2) by (simp add: parseUDPRequest_def Let_def del: append_Cons) (simp add: fresh_conn_def)
  qed
qed

section \<open>Round trip\<close>

text \<open>
  The hosts of the targets the front end names: an IP address in the text of \<open>IP.String\<close>, or a domain
  that is not one.
\<close>

definition socks_host :: "bytes \<Rightarrow> bool" where
  "socks_host h \<longleftrightarrow> (0 < length h \<and> length h \<le> 255 \<and> ParseIP h = [] \<and> lbracket \<notin> set h \<and> rbracket \<notin> set h)
     \<or> (\<exists>ip. (length ip = 4 \<or> length ip = 16) \<and> h = IP_String ip)"

lemma is_digit_hex: "is_digit b \<Longrightarrow> is_hex b"
  using digit_of_decimal [of b] by (auto simp: is_hex_def is_digit_def)

lemma IP_String_bytes:
  "length ip = 4 \<or> length ip = 16 \<Longrightarrow> b \<in> set (IP_String ip) \<Longrightarrow> is_hex b \<or> b = colon \<or> b = dot"
  using dotted_bytes [of b "To4 ip"] To4_length [of ip] ip6_text_bytes [of b "groups16 ip"] is_digit_hex [of b]
  by (auto simp: IP_String_def split: if_splits)

lemma brackets_not_hex: "\<not> is_hex lbracket" "\<not> is_hex rbracket"
  by (auto simp: is_hex_def digit_of_def)

lemma IP_String_16: "length ip = 4 \<or> length ip = 16 \<Longrightarrow> IP_String (To16 ip) = IP_String ip"
  by (auto simp: IP_String_def To16_def To4_def v4InV6Prefix_def)

lemma decimal_split: "colon \<notin> set (decimal p)" "lbracket \<notin> set (decimal p)" "rbracket \<notin> set (decimal p)"
  by (auto dest!: decimal_digits simp: is_digit_def)

lemma IP_String_brackets:
  "length ip = 4 \<or> length ip = 16 \<Longrightarrow> lbracket \<notin> set (IP_String ip) \<and> rbracket \<notin> set (IP_String ip)"
  using IP_String_bytes [of ip lbracket] IP_String_bytes [of ip rbracket] brackets_not_hex by auto

lemma socks_host_split: "socks_host h \<Longrightarrow> SplitHostPort (JoinHostPort h (decimal p)) = Inr (h, decimal p)"
  using IP_String_brackets decimal_split by (intro SplitHostPort_Join) (auto simp: socks_host_def)

lemma socks_host_canonical: "socks_host h \<Longrightarrow> canonical_host h = h"
  by (auto simp: socks_host_def canonical_host_def ParseIP_String IP_String_16)

lemma socks_host_encodes:
  assumes "socks_host h" and "p < 65536"
  shows "\<exists>bs. encodeAddress (JoinHostPort h (decimal p)) = Inr bs"
proof -
  have "0 < length h \<and> length h \<le> 255" if "ParseIP h = []"
    using assms(1) that ParseIP_String
    by (auto simp: socks_host_def To16_def v4InV6Prefix_def split: if_splits) (metis append_is_Nil_conv list.size(3) zero_neq_numeral)+
  moreover have "To4 (ParseIP h) \<noteq> [] \<or> To16 (ParseIP h) \<noteq> []" if "ParseIP h \<noteq> []"
    using ParseIP_length [OF that] that by (auto simp: To16_def)
  ultimately show ?thesis
    using socks_host_split [OF assms(1), of p] ParseUint_decimal [of p 16] assms(2)
    by (cases "ParseIP h = []") (auto simp: encodeAddress_def rbind_def Let_def)
qed

text \<open>
  The UDP packet codec of an association inverts itself.  Whatever target a packet can name (an
  IPv4 or IPv6 address or a domain of at most 255 bytes, with any port), a response from it is
  encoded, and parsing that packet as a request yields the same target and the same data.
\<close>

lemma udp_packet_roundtrip:
  assumes "socks_host h" and "p < 65536"
  shows "\<exists>packet. encodeUDPResponse (JoinHostPort h (decimal p)) data = Inr packet
    \<and> parseUDPRequest packet = Inr (JoinHostPort h (decimal p), data)"
proof -
  let ?t = "JoinHostPort h (decimal p)"
  obtain packet where e: "encodeUDPResponse ?t data = Inr packet"
    using socks_host_encodes [OF assms] by (auto simp: encodeUDPResponse_def rbind_def)
  from udp_packet_parses [OF e] have "parseUDPRequest packet = Inr (?t, data)"
    using socks_host_split [OF assms(1), of p] socks_host_canonical [OF assms(1)] ParseUint_decimal [of p 16] assms(2)
    by auto
  with e show ?thesis by blast
qed

lemma socks_host_IP: "length ip = 4 \<or> length ip = 16 \<Longrightarrow> socks_host (IP_String ip)"
  by (auto simp: socks_host_def)

section \<open>Serving a connection\<close>

lemma reply_none: "reply_bytes code None = [5, code, 0, 1, 0, 0, 0, 0, 0, 0]"
  by (simp add: reply_bytes_def ParseIP_def To4_def v4InV6Prefix_def)

lemma healthy_write: "wscript c = [] \<Longrightarrow> conn_write c p = (c\<lparr>outbuf := outbuf c @ p\<rparr>, int (length p), None)"
  by (simp add: conn_write_def)

lemma healthy_reply: "wscript c = [] \<Longrightarrow> writeReply c code a = (c\<lparr>outbuf := outbuf c @ reply_bytes code a\<rparr>, None)"
  by (simp add: writeReply_def healthy_write)

lemma readFull_fields:
  "readFull n c = (c', r) \<Longrightarrow> outbuf c' = outbuf c \<and> wscript c' = wscript c"
  by (auto simp: readFull_def split: if_splits)

lemma read_port_fields: "read_port h c = (c', r) \<Longrightarrow> outbuf c' = outbuf c \<and> wscript c' = wscript c"
  by (auto simp: read_port_def split: prod.splits sum.splits dest!: readFull_fields)

lemma readAddress_fields: "readAddress c t = (c', r) \<Longrightarrow> outbuf c' = outbuf c \<and> wscript c' = wscript c"
  by (auto simp: readAddress_def split: prod.splits sum.splits if_splits dest!: readFull_fields read_port_fields)

lemma readRequest_fields: "readRequest c = (c', r) \<Longrightarrow> outbuf c' = outbuf c \<and> wscript c' = wscript c"
  by (auto simp: readRequest_def split: prod.splits sum.splits if_splits dest!: readFull_fields readAddress_fields)

lemma negotiate_healthy:
  assumes "wscript c = []" and "negotiate c = (c', r)"
  shows "wscript c' = [] \<and> (r = None \<longrightarrow> outbuf c' = outbuf c @ [5, 0])
    \<and> (r \<noteq> None \<longrightarrow> outbuf c' = outbuf c \<or> outbuf c' = outbuf c @ [5, 255])"
  using assms
  by (auto simp: negotiate_def healthy_write split: prod.splits sum.splits if_splits dest!: readFull_fields)

lemma mapDialError_nonzero: "mapDialError err \<noteq> replySucceeded"
  by (auto simp: mapDialError_def)

text \<open>What the client has been sent when \<open>ServeConn\<close> ends or starts copying.\<close>

fun socks_sent :: "socksEnv \<Rightarrow> socksOutcome \<Rightarrow> bytes \<Rightarrow> bool" where
  "socks_sent env (SocksProxy target) sent \<longleftrightarrow>
     (\<exists>local. sx_dial env target = Inr local \<and> sent = [5, 0] @ reply_bytes replySucceeded (Some local))"
| "socks_sent env (SocksAssociate local) sent \<longleftrightarrow>
     sx_packet env = Some (Inr ()) \<and> sx_listen env = Inr local
     \<and> sent = [5, 0] @ reply_bytes replySucceeded (Some local)"
| "socks_sent env (SocksFailed err) sent \<longleftrightarrow>
     sent = [] \<or> sent = [5, 255] \<or> (\<exists>code. code \<noteq> 0 \<and> sent = [5, 0] @ [5, code, 0, 1, 0, 0, 0, 0, 0, 0])"

lemma serveUDPAssociate_sent:
  assumes "wscript c = []" and "outbuf c = out0 @ [5, 0]" and "sx_packet env = Some opened"
    and "serveUDPAssociate env opened c = (c', r)"
  shows "\<exists>sent. outbuf c' = out0 @ sent \<and> socks_sent env r sent"
  using assms mapDialError_nonzero
  by (auto simp: serveUDPAssociate_def serveUDPAssociateWithPacket_def healthy_reply reply_none split: sum.splits)

text \<open>
  C17: a connection whose writes succeed is answered exactly as the protocol demands.  Bytes are
  proxied only after the target was dialed and the client was sent a success reply carrying the
  local address; an association starts only when the packet dialer and the local socket are open
  and the reply names that socket; and every failure has sent nothing, the refusal of the
  greeting, or a reply with a non-zero code.
\<close>

theorem socks_conn_contract:
  assumes "wscript c = []" and "sx_deadline env = None" and "sx_clear env = None"
    and "ServeConn env c = (c', r)"
  shows "\<exists>sent. outbuf c' = outbuf c @ sent \<and> socks_sent env r sent"
proof -
  obtain c1 n where neg: "negotiate c = (c1, n)" by (cases "negotiate c")
  note n1 = negotiate_healthy [OF assms(1) neg]
  show ?thesis
  proof (cases n)
    case (Some err)
    with assms neg n1 show ?thesis by (auto simp: ServeConn_def)
  next
    case None
    obtain c2 q where req: "readRequest c1 = (c2, q)" by (cases "readRequest c1")
    have c2: "wscript c2 = []" "outbuf c2 = outbuf c @ [5, 0]" using readRequest_fields [OF req] n1 None by auto
    show ?thesis
    proof (cases q)
      case (Inl err)
      with assms neg None req c2 show ?thesis by (auto simp: ServeConn_def healthy_reply reply_none)
    next
      case (Inr rq)
      note red = assms(4) [unfolded ServeConn_def assms(2) option.case neg prod.case None req Inr sum.case assms(3)]
      consider "rq_command rq = commandUDPAssociate" | "rq_command rq = commandConnect"
        | "rq_command rq \<noteq> commandUDPAssociate" "rq_command rq \<noteq> commandConnect" by blast
      then show ?thesis
      proof cases
        case 1
        with red c2 serveUDPAssociate_sent [OF c2] show ?thesis
          by (auto simp: healthy_reply reply_none split: option.splits)
      next
        case 2
        with red c2 mapDialError_nonzero show ?thesis
          by (auto simp: healthy_reply reply_none split: sum.splits)
      next
        case 3
        with red c2 show ?thesis by (auto simp: healthy_reply reply_none)
      qed
    qed
  qed
qed

definition curl_env :: socksEnv where
  "curl_env = \<lparr>sx_deadline = None, sx_clear = None, sx_dial = (\<lambda>t. Inr (str ''127.0.0.1:4000'')),
     sx_packet = None, sx_listen = Inl GoPanic\<rparr>"

definition curl_conn :: conn where
  "curl_conn = fresh_conn [5, 1, 0, 5, 1, 0, 1, 127, 0, 0, 1, 0, 80, 71]"

theorem socks_conn_contract_witness:
  "\<exists>sent. outbuf (fst (ServeConn curl_env curl_conn)) = outbuf curl_conn @ sent
     \<and> socks_sent curl_env (snd (ServeConn curl_env curl_conn)) sent"
  by (rule socks_conn_contract [OF _ _ _ surjective_pairing])
    (simp_all add: curl_env_def curl_conn_def fresh_conn_def)

lemma negotiate_offered:
  assumes "inbuf c = [5, n] @ methods @ ys" and "length methods = unat n" and "0 \<in> set methods" and "wscript c = []"
  shows "negotiate c = (c\<lparr>inbuf := ys, outbuf := outbuf c @ [5, 0]\<rparr>, None)"
proof -
  have "readFull 2 c = (c\<lparr>inbuf := methods @ ys\<rparr>, Inr [5, n])"
    using readFull_enough [of c "[5, n]" "methods @ ys" 2] assms(1) by simp
  moreover have "readFull (unat n) (c\<lparr>inbuf := methods @ ys\<rparr>) = (c\<lparr>inbuf := ys\<rparr>, Inr methods)"
    using readFull_enough [of "c\<lparr>inbuf := methods @ ys\<rparr>" methods ys "unat n"] assms(2) by simp
  ultimately show ?thesis using assms(3,4) by (simp add: negotiate_def healthy_write)
qed

lemma readRequest_encoded:
  assumes "socks_host h" and "p < 65536" and "encodeAddress (JoinHostPort h (decimal p)) = Inr field"
    and "inbuf c = [5, cmd, rsv] @ field @ rest"
  shows "readRequest c = (c\<lparr>inbuf := rest\<rparr>, Inr \<lparr>rq_command = cmd, rq_target = JoinHostPort h (decimal p)\<rparr>)"
  using assms(3)
proof (cases rule: encodeAddress_cases)
  case (1 host rawPort port f)
  have eq: "host = h" "port = p" "canonical_host h = h"
    using 1(1,2) socks_host_split [OF assms(1), of p] ParseUint_decimal [of p 16] assms(2) socks_host_canonical [OF assms(1)]
    by auto
  let ?c = "c\<lparr>inbuf := tl f @ [word_of_nat (p div 256), word_of_nat p] @ rest\<rparr>"
  have "f \<noteq> []" using 1(4) by auto
  then have "inbuf c = [5, cmd, rsv, hd f] @ inbuf ?c" using assms(4) 1(3) eq by (cases f) auto
  then have "readFull 4 c = (?c, Inr [5, cmd, rsv, hd f])" using readFull_enough [of c "[5, cmd, rsv, hd f]" _ 4] by simp
  moreover have "readAddress ?c (hd f) = (c\<lparr>inbuf := rest\<rparr>, Inr (JoinHostPort h (decimal p)))"
    using readAddress_field [of f h ?c p rest] 1(4) eq assms(2) by simp
  ultimately show ?thesis by (simp add: readRequest_def)
qed

text \<open>
  A well-formed CONNECT request is served.  When the greeting offers the method without
  authentication and the request encodes a target that can be dialed, \<open>ServeConn\<close> dials exactly
  that target, starts copying, and has consumed exactly the request: what the client sent after it
  is left for the proxied connection.
\<close>

lemma socks_connect_served:
  assumes "inbuf c = [5, n] @ methods @ [5, commandConnect, rsv] @ field @ rest"
    and "length methods = unat n" and "0 \<in> set methods" and "wscript c = []"
    and "socks_host h" and "p < 65536" and "encodeAddress (JoinHostPort h (decimal p)) = Inr field"
    and "sx_deadline env = None" and "sx_clear env = None" and "sx_dial env (JoinHostPort h (decimal p)) = Inr local"
  shows "\<exists>c'. ServeConn env c = (c', SocksProxy (JoinHostPort h (decimal p))) \<and> inbuf c' = rest"
proof -
  let ?c1 = "c\<lparr>inbuf := [5, commandConnect, rsv] @ field @ rest, outbuf := outbuf c @ [5, 0]\<rparr>"
  have "negotiate c = (?c1, None)" by (rule negotiate_offered [OF assms(1-4)])
  moreover have "readRequest ?c1 = (?c1\<lparr>inbuf := rest\<rparr>,
      Inr \<lparr>rq_command = commandConnect, rq_target = JoinHostPort h (decimal p)\<rparr>)"
    by (rule readRequest_encoded [OF assms(5-7)]) simp
  ultimately show ?thesis using assms(4,8-10) by (simp add: ServeConn_def healthy_reply)
qed

end
