(* ===== verification/ListenAddr.thy ===== *)
theory ListenAddr
  imports GoNet "HOL-Library.List_Lexorder"
begin

text \<open>
  Listen specifications (src/internal/listenaddr/listenaddr.go).  What the operating system answers
  is an argument: \<open>listen\<close> gives the listener that a bind of an address yields (its number and the
  text of its address) or an error, \<open>probe\<close> the outcome of the connect test of a listener, and the
  interfaces are a list.  The listeners that are closed again are logged.
\<close>

definition autoPrefix :: bytes where "autoPrefix = str ''auto:''"

definition autoPort :: "bytes \<Rightarrow> bytes result" where
  "autoPort spec =
     (let port = TrimPrefix spec autoPrefix in
      if port = [] then Inl (ErrText (str ''automatic listener must use auto:<port>''))
      else case Atoi port of
        None \<Rightarrow> Inl (ErrText (str ''automatic listener port must be between 0 and 65535: '' @ Quote port))
      | Some v \<Rightarrow>
          if v < 0 \<or> 65535 < v
          then Inl (ErrText (str ''automatic listener port must be between 0 and 65535: '' @ Quote port))
          else Inr (decimal (nat v)))"

definition ValidateTCPListenSpec :: "bytes \<Rightarrow> goerr option" where
  "ValidateTCPListenSpec spec =
     (if spec = [] then Some (ErrText (str ''TCP listen address must not be empty''))
      else if HasPrefix spec autoPrefix then
        (case autoPort spec of
           Inr port \<Rightarrow>
             if port = str ''0''
             then Some (ErrText (str ''automatic listener port must be between 1 and 65535: '' @ Quote (str ''0'')))
             else None
         | Inl err \<Rightarrow> Some err)
      else None)"

type_synonym listenEnv = "bytes \<Rightarrow> bytes \<Rightarrow> (nat \<times> bytes) result"

text \<open>
  The loop of \<open>listenTCPWith\<close> over the candidate hosts: the failures so far, the listeners closed,
  and the listener kept.
\<close>

fun candidates_loop ::
  "listenEnv \<Rightarrow> (nat \<Rightarrow> goerr option) \<Rightarrow> bytes \<Rightarrow> bytes list \<Rightarrow> bytes list
     \<Rightarrow> nat list \<times> bytes list \<times> (nat \<times> bytes) option" where
  "candidates_loop listen probe port failures [] = ([], failures, None)"
| "candidates_loop listen probe port failures (host # hosts) =
     (let address = JoinHostPort host port in
      case listen (str ''tcp4'') address of
        Inl err \<Rightarrow>
          candidates_loop listen probe port (failures @ [address @ str '': bind: '' @ error_text err]) hosts
      | Inr (h, a) \<Rightarrow>
          (case probe h of
             Some err \<Rightarrow>
               (case candidates_loop listen probe port (failures @ [address @ str '': probe: '' @ error_text err]) hosts of
                  (closed, fs, r) \<Rightarrow> (h # closed, fs, r))
           | None \<Rightarrow> ([], failures, Some (h, a))))"

definition listenTCPWith ::
  "bytes \<Rightarrow> bytes list result \<Rightarrow> (nat \<Rightarrow> goerr option) \<Rightarrow> listenEnv \<Rightarrow> nat list \<times> (nat \<times> bytes) result" where
  "listenTCPWith spec candidates probe listen =
     (if \<not> HasPrefix spec autoPrefix then ([], listen (str ''tcp'') spec)
      else case autoPort spec of
        Inl err \<Rightarrow> ([], Inl err)
      | Inr port \<Rightarrow>
          (case candidates of
             Inl err \<Rightarrow> ([], Inl (ErrWrapped (str ''enumerate loopback addresses: '' @ error_text err) err))
           | Inr addresses \<Rightarrow>
               (case candidates_loop listen probe port [] addresses of
                  (closed, failures, Some l) \<Rightarrow> (closed, Inr l)
                | (closed, failures, None) \<Rightarrow>
                    (closed, Inl (ErrText
                       (if failures = [] then str ''no loopback addresses available for '' @ spec
                        else str ''no reachable loopback address for '' @ spec @ str '' (''
                             @ strings_Join failures (str ''; '') @ str '')''))))))"

text \<open>
  An interface of the host: its name, whether the loopback flag is set, and its addresses unless
  reading them fails.  An address is an \<open>IPNet\<close> or an \<open>IPAddr\<close> with its IP, or another \<open>net.Addr\<close>
  known by its text.
\<close>

datatype netAddr = IPNet bytes | IPAddr bytes | OtherAddr bytes

record netInterface =
  if_Name :: bytes
  if_Loopback :: bool
  if_Addrs :: "netAddr list result"

fun addressIP :: "netAddr \<Rightarrow> bytes" where
  "addressIP (IPNet ip) = ip"
| "addressIP (IPAddr ip) = ip"
| "addressIP (OtherAddr s) =
     (case SplitHostPort s of
        Inr (host, port) \<Rightarrow> ParseIP host
      | Inl err \<Rightarrow> ParseIP s)"

text \<open>The closure \<open>add\<close>: \<open>seen\<close> holds exactly the addresses added so far.\<close>

definition add_host :: "bytes list \<Rightarrow> bytes \<Rightarrow> bytes list" where
  "add_host addresses host = (if host = [] \<or> host \<in> set addresses then addresses else addresses @ [host])"

definition add_addr :: "bytes list \<Rightarrow> netAddr \<Rightarrow> bytes list" where
  "add_addr addresses addr =
     (let ip = addressIP addr in if ip = [] \<or> To4 ip = [] then addresses else add_host addresses (IP_String (To4 ip)))"

definition add_interface :: "bytes list \<Rightarrow> netInterface \<Rightarrow> bytes list" where
  "add_interface addresses iface =
     (if if_Name iface \<noteq> str ''lo'' \<and> \<not> if_Loopback iface then addresses
      else case if_Addrs iface of
        Inl err \<Rightarrow> addresses
      | Inr addrs \<Rightarrow> foldl add_addr addresses addrs)"

definition loopbackCandidates :: "netInterface list result \<Rightarrow> bytes list result" where
  "loopbackCandidates interfaces =
     rbind interfaces (\<lambda>ifs.
       let addresses = foldl add_interface (add_host [] (str ''127.0.0.1'')) ifs
       in Inr (take 1 addresses @ sort (tl addresses)))"

definition ListenTCP ::
  "bytes \<Rightarrow> netInterface list result \<Rightarrow> (nat \<Rightarrow> goerr option) \<Rightarrow> listenEnv \<Rightarrow> nat list \<times> (nat \<times> bytes) result" where
  "ListenTCP spec interfaces probe listen = listenTCPWith spec (loopbackCandidates interfaces) probe listen"

definition ListenTCPOnHost ::
  "bytes \<Rightarrow> bytes \<Rightarrow> netInterface list result \<Rightarrow> (nat \<Rightarrow> goerr option) \<Rightarrow> listenEnv
     \<Rightarrow> nat list \<times> (nat \<times> bytes) result" where
  "ListenTCPOnHost spec preferredHost interfaces probe listen =
     (if preferredHost = [] \<or> \<not> HasPrefix spec autoPrefix then ListenTCP spec interfaces probe listen
      else listenTCPWith spec
        (rbind (loopbackCandidates interfaces)
          (\<lambda>addresses. Inr (preferredHost # filter (\<lambda>a. a \<noteq> preferredHost) addresses))) probe listen)"

text \<open>
  \<open>probeListener\<close>: whether the address is a \<open>TCPAddr\<close>, the outcome of the dial, and the outcome of the
  accepting goroutine, which is \<open>None\<close> when the deadline comes first.  The message about another kind of
  address goes on with the Go type of it.
\<close>

definition probeListener :: "bool \<Rightarrow> goerr option \<Rightarrow> goerr option option \<Rightarrow> goerr option" where
  "probeListener tcp dialErr accepted =
     (if \<not> tcp then Some (ErrText (str ''unexpected listener address''))
      else case dialErr of
        Some err \<Rightarrow> Some err
      | None \<Rightarrow> (case accepted of Some acceptErr \<Rightarrow> acceptErr | None \<Rightarrow> Some ContextDeadlineExceeded))"

section \<open>Properties\<close>

text \<open>The listener that a host yields, whether it passes the connect test, and what the hosts bind.\<close>

definition reachable :: "listenEnv \<Rightarrow> (nat \<Rightarrow> goerr option) \<Rightarrow> bytes \<Rightarrow> bytes \<Rightarrow> bool" where
  "reachable listen probe port host \<longleftrightarrow>
     (case listen (str ''tcp4'') (JoinHostPort host port) of Inl err \<Rightarrow> False | Inr (h, a) \<Rightarrow> probe h = None)"

definition bound :: "listenEnv \<Rightarrow> bytes \<Rightarrow> bytes list \<Rightarrow> nat list" where
  "bound listen port hosts =
     concat (map (\<lambda>host. case listen (str ''tcp4'') (JoinHostPort host port) of Inl err \<Rightarrow> [] | Inr (h, a) \<Rightarrow> [h]) hosts)"

lemma candidates_loop_outcome:
  "candidates_loop listen probe port fs hosts = (closed, fs', r) \<Longrightarrow>
     (case r of
        None \<Rightarrow> (\<forall>host \<in> set hosts. \<not> reachable listen probe port host) \<and> closed = bound listen port hosts
      | Some l \<Rightarrow> (\<exists>pre host post. hosts = pre @ host # post \<and> (\<forall>x \<in> set pre. \<not> reachable listen probe port x)
          \<and> reachable listen probe port host \<and> listen (str ''tcp4'') (JoinHostPort host port) = Inr l
          \<and> closed = bound listen port pre))"
proof (induction hosts arbitrary: fs closed)
  case Nil
  then show ?case by (auto simp: bound_def)
next
  case (Cons host hosts)
  let ?ok = "reachable listen probe port host" and ?b = "bound listen port [host]"
  show ?case
  proof (cases ?ok)
    case True
    then obtain h a where "listen (str ''tcp4'') (JoinHostPort host port) = Inr (h, a)" "probe h = None"
      by (auto simp: reachable_def split: sum.splits)
    with True Cons.prems show ?thesis
      by (clarsimp simp: Let_def)
        (rule exI [of _ "[]"], rule exI [of _ host], simp add: bound_def)
  next
    case False
    obtain fs1 closed1 where rest: "candidates_loop listen probe port fs1 hosts = (closed1, fs', r)" "closed = ?b @ closed1"
      using False Cons.prems
      by (auto simp: reachable_def bound_def Let_def split: sum.splits prod.splits option.splits)
    note IH = Cons.IH [OF rest(1)]
    show ?thesis
    proof (cases r)
      case None
      with IH False rest(2) show ?thesis by (simp add: bound_def)
    next
      case (Some l)
      with IH obtain pre x post where "hosts = pre @ x # post" "\<forall>y \<in> set pre. \<not> reachable listen probe port y"
        "reachable listen probe port x" "listen (str ''tcp4'') (JoinHostPort x port) = Inr l" "closed1 = bound listen port pre"
        by auto
      with Some False rest(2) show ?thesis
        by simp (rule exI [of _ "host # pre"], rule exI [of _ x], simp add: bound_def)
    qed
  qed
qed

lemma distinct_add_host: "distinct as \<Longrightarrow> distinct (add_host as h) \<and> (\<exists>t. add_host as h = as @ t)"
  by (auto simp: add_host_def)

lemma distinct_add_addr: "distinct as \<Longrightarrow> distinct (add_addr as a) \<and> (\<exists>t. add_addr as a = as @ t)"
  by (simp add: add_addr_def Let_def distinct_add_host)

lemma distinct_add_addrs: "distinct as \<Longrightarrow> distinct (foldl add_addr as xs) \<and> (\<exists>t. foldl add_addr as xs = as @ t)"
proof (induction xs arbitrary: as)
  case (Cons x xs)
  then show ?case using distinct_add_addr [of as x] by (metis append.assoc foldl_Cons)
qed simp

lemma distinct_add_interface: "distinct as \<Longrightarrow> distinct (add_interface as i) \<and> (\<exists>t. add_interface as i = as @ t)"
  by (auto simp: add_interface_def distinct_add_addrs split: sum.splits)

lemma distinct_add_interfaces:
  "distinct as \<Longrightarrow> distinct (foldl add_interface as xs) \<and> (\<exists>t. foldl add_interface as xs = as @ t)"
proof (induction xs arbitrary: as)
  case (Cons x xs)
  then show ?case using distinct_add_interface [of as x] by (metis append.assoc foldl_Cons)
qed simp

lemma loopbackCandidates_shape:
  "\<exists>t. loopbackCandidates (Inr ifs) = Inr (str ''127.0.0.1'' # t) \<and> sorted t \<and> distinct (str ''127.0.0.1'' # t)"
proof -
  obtain t where "foldl add_interface (add_host [] (str ''127.0.0.1'')) ifs = str ''127.0.0.1'' # t"
    "distinct (str ''127.0.0.1'' # t)"
    using distinct_add_interfaces [of "add_host [] (str ''127.0.0.1'')" ifs] by (auto simp: add_host_def)
  then show ?thesis by (auto simp: loopbackCandidates_def Let_def intro!: exI [of _ "sort t"])
qed

text \<open>The hosts that an automatic specification tries, in order.\<close>

definition host_order :: "bytes \<Rightarrow> bytes list \<Rightarrow> bool" where
  "host_order preferred hosts \<longleftrightarrow> distinct hosts \<and> str ''127.0.0.1'' \<in> set hosts
     \<and> hd hosts = (if preferred = [] then str ''127.0.0.1'' else preferred)"

lemma ListenTCPOnHost_loop:
  assumes "HasPrefix spec autoPrefix" and "autoPort spec = Inr port"
  obtains hosts closed fs r where "host_order preferred hosts"
    and "candidates_loop listen probe port [] hosts = (closed, fs, r)"
    and "fst (ListenTCPOnHost spec preferred (Inr ifs) probe listen) = closed"
    and "case r of None \<Rightarrow> \<not> isOk (snd (ListenTCPOnHost spec preferred (Inr ifs) probe listen))
                 | Some l \<Rightarrow> snd (ListenTCPOnHost spec preferred (Inr ifs) probe listen) = Inr l"
proof -
  obtain t where t: "loopbackCandidates (Inr ifs) = Inr (str ''127.0.0.1'' # t)" "distinct (str ''127.0.0.1'' # t)"
    using loopbackCandidates_shape [of ifs] by auto
  define hosts where "hosts = (if preferred = [] then str ''127.0.0.1'' # t
    else preferred # filter (\<lambda>a. a \<noteq> preferred) (str ''127.0.0.1'' # t))"
  obtain closed fs r where l: "candidates_loop listen probe port [] hosts = (closed, fs, r)"
    using prod_cases3 by blast
  have "ListenTCPOnHost spec preferred (Inr ifs) probe listen = listenTCPWith spec (Inr hosts) probe listen"
    using assms(1) t(1) by (auto simp: ListenTCPOnHost_def ListenTCP_def hosts_def)
  then have eq: "ListenTCPOnHost spec preferred (Inr ifs) probe listen = (closed, case r of
      Some l \<Rightarrow> Inr l | None \<Rightarrow> snd (listenTCPWith spec (Inr hosts) probe listen))"
      "r = None \<Longrightarrow> \<not> isOk (snd (listenTCPWith spec (Inr hosts) probe listen))"
    using assms l by (auto simp: listenTCPWith_def split: option.splits)
  have "host_order preferred hosts" using t(2) by (auto simp: host_order_def hosts_def)
  from this l show ?thesis by (rule that) (use eq in \<open>auto split: option.splits\<close>)
qed

text \<open>
  An automatic listen specification opens the first usable address and leaves nothing behind.
  The candidates are distinct and start with the preferred host, or else with 127.0.0.1; the call
  returns the listener of the first candidate that binds and passes the connect test, having
  closed every listener of the candidates before it, or fails when there is none, having closed
  every listener it had bound.
\<close>

lemma listen_first_reachable:
  assumes "HasPrefix spec autoPrefix" and "autoPort spec = Inr port"
    and "ListenTCPOnHost spec preferred (Inr ifs) probe listen = (closed, r)"
  shows "\<exists>hosts. host_order preferred hosts
    \<and> ((\<exists>pre host post l. hosts = pre @ host # post \<and> (\<forall>x. x \<in> set pre \<longrightarrow> \<not> reachable listen probe port x)
          \<and> reachable listen probe port host \<and> listen (str ''tcp4'') (JoinHostPort host port) = Inr l
          \<and> r = Inr l \<and> closed = bound listen port pre)
      \<or> (\<not> isOk r \<and> (\<forall>x. x \<in> set hosts \<longrightarrow> \<not> reachable listen probe port x) \<and> closed = bound listen port hosts))"
proof (rule ListenTCPOnHost_loop [OF assms(1,2), of preferred listen probe ifs])
  fix hosts closed' fs q
  assume h: "host_order preferred hosts" and l: "candidates_loop listen probe port [] hosts = (closed', fs, q)"
    and c: "fst (ListenTCPOnHost spec preferred (Inr ifs) probe listen) = closed'"
    and o: "case q of None \<Rightarrow> \<not> isOk (snd (ListenTCPOnHost spec preferred (Inr ifs) probe listen))
                 | Some l \<Rightarrow> snd (ListenTCPOnHost spec preferred (Inr ifs) probe listen) = Inr l"
  from candidates_loop_outcome [OF l] h c o assms(3) show ?thesis
    by (intro exI [of _ hosts]) (auto split: option.splits)
qed

end
