(* ===== verification/NetServe.thy ===== *)
theory NetServe
  imports GoNet
begin

text \<open>
  Serving a listener with a limit (src/internal/netserve/server.go) and resolving UDP addresses
  (src/internal/netutil/udp.go).  A connection is a number.  The accept loop, the goroutine that
  watches the context, the handlers and the deferred cleanup run interleaved: each of their
  critical sections is an operation on \<open>serving\<close>, and \<open>serve_step\<close> is their step relation.  A
  connection may be tracked after the listener was closed: \<open>Accept\<close> returned it just before.  The handler
  is an argument of the code; \<open>patient\<close> says of which connections it returns only after they were closed
  (it blocks on them), and of the others it may return at any time.
\<close>

section \<open>State\<close>

datatype servePhase = Accepting | Draining "goerr option" | Returned "goerr option"

text \<open>
  \<open>sv_connections\<close> is the map, \<open>sv_handlers\<close> the wait group.  \<open>sv_finishing\<close> counts the goroutines that have
  removed their connection and not yet left the wait group, \<open>sv_watched\<close> says that the goroutine which waits for the
  context is done.  \<open>sv_accepted\<close> and \<open>sv_closed\<close> record which connections were accepted and which were closed.
\<close>

record serving =
  sv_connections :: "nat list"
  sv_handlers :: nat
  sv_finishing :: nat
  sv_watched :: bool
  sv_cancelled :: bool
  sv_listenerClosed :: bool
  sv_phase :: servePhase
  sv_accepted :: "nat list"
  sv_closed :: "nat list"

definition DefaultMaxConnections :: nat where "DefaultMaxConnections = 256"

definition new_serving :: serving where
  "new_serving = \<lparr>sv_connections = [], sv_handlers = 0, sv_finishing = 0, sv_watched = False, sv_cancelled = False, sv_listenerClosed = False,
     sv_phase = Accepting, sv_accepted = [], sv_closed = []\<rparr>"

definition ServeWithLimit :: "bool \<Rightarrow> bool \<Rightarrow> int \<Rightarrow> serving result" where
  "ServeWithLimit listenerNil handlerNil maxConnections =
     (if listenerNil \<or> handlerNil then Inl (ErrText (str ''listener and handler are required''))
      else if maxConnections \<le> 0 then Inl (ErrText (str ''maximum connections must be positive''))
      else Inr new_serving)"

definition netserve_Serve :: "bool \<Rightarrow> bool \<Rightarrow> serving result" where
  "netserve_Serve listenerNil handlerNil = ServeWithLimit listenerNil handlerNil (int DefaultMaxConnections)"

section \<open>Operations\<close>

definition serve_closeConnections :: "serving \<Rightarrow> serving" where
  "serve_closeConnections s = s\<lparr>sv_closed := sv_closed s @ sv_connections s\<rparr>"

text \<open>The accept loop: a connection, or an error that ends it and runs the deferred cleanup up to the wait.\<close>

definition serve_accept :: "nat \<Rightarrow> nat \<Rightarrow> serving \<Rightarrow> serving" where
  "serve_accept maxConnections c s =
     (let s0 = s\<lparr>sv_accepted := sv_accepted s @ [c]\<rparr> in
      if maxConnections \<le> length (sv_connections s) then s0\<lparr>sv_closed := sv_closed s @ [c]\<rparr>
      else s0\<lparr>sv_connections := sv_connections s @ [c], sv_handlers := Suc (sv_handlers s)\<rparr>)"

definition serve_fail :: "goerr \<Rightarrow> serving \<Rightarrow> serving" where
  "serve_fail err s =
     serve_closeConnections
       (s\<lparr>sv_phase := Draining (if sv_cancelled s then None else Some err), sv_cancelled := True,
          sv_listenerClosed := True\<rparr>)"

definition serve_watch :: "serving \<Rightarrow> serving" where
  "serve_watch s = serve_closeConnections (s\<lparr>sv_listenerClosed := True, sv_watched := True\<rparr>)"

text \<open>The deferred function of a handler: it closes and removes the connection, and then leaves the wait group.\<close>

definition serve_finish :: "nat \<Rightarrow> serving \<Rightarrow> serving" where
  "serve_finish c s =
     s\<lparr>sv_closed := sv_closed s @ [c], sv_connections := removeAll c (sv_connections s),
       sv_finishing := Suc (sv_finishing s)\<rparr>"

definition serve_done :: "serving \<Rightarrow> serving" where
  "serve_done s = s\<lparr>sv_handlers := sv_handlers s - 1, sv_finishing := sv_finishing s - 1\<rparr>"

inductive serve_step :: "(nat \<Rightarrow> bool) \<Rightarrow> nat \<Rightarrow> serving \<Rightarrow> serving \<Rightarrow> bool" for patient maxConnections where
  accept: "serve_step patient maxConnections s (serve_accept maxConnections c s)"
    if "sv_phase s = Accepting" "c \<notin> set (sv_accepted s)"
| fail: "serve_step patient maxConnections s (serve_fail err s)"
    if "sv_phase s = Accepting"
| cancel: "serve_step patient maxConnections s (s\<lparr>sv_cancelled := True\<rparr>)"
    if "\<not> sv_cancelled s"
| watch: "serve_step patient maxConnections s (serve_watch s)"
    if "sv_cancelled s" "\<not> sv_watched s"
| finish: "serve_step patient maxConnections s (serve_finish c s)"
    if "c \<in> set (sv_connections s)" "patient c \<longrightarrow> c \<in> set (sv_closed s)"
| leave: "serve_step patient maxConnections s (serve_done s)"
    if "0 < sv_finishing s"
| return: "serve_step patient maxConnections s (s\<lparr>sv_phase := Returned r\<rparr>)"
    if "sv_phase s = Draining r" "sv_handlers s = 0"

abbreviation serve_steps :: "(nat \<Rightarrow> bool) \<Rightarrow> nat \<Rightarrow> serving \<Rightarrow> serving \<Rightarrow> bool" where
  "serve_steps patient maxConnections \<equiv> (serve_step patient maxConnections)\<^sup>*\<^sup>*"

section \<open>Invariant\<close>

definition serve_inv :: "nat \<Rightarrow> serving \<Rightarrow> bool" where
  "serve_inv maxConnections s \<longleftrightarrow>
     distinct (sv_connections s) \<and> length (sv_connections s) \<le> maxConnections
     \<and> sv_handlers s = length (sv_connections s) + sv_finishing s
     \<and> set (sv_connections s) \<subseteq> set (sv_accepted s)
     \<and> set (sv_accepted s) = set (sv_connections s) \<union> set (sv_closed s)
     \<and> (sv_phase s \<noteq> Accepting \<longrightarrow> sv_cancelled s \<and> sv_listenerClosed s \<and> set (sv_accepted s) = set (sv_closed s))
     \<and> (\<forall>r. sv_phase s = Returned r \<longrightarrow> sv_handlers s = 0)"

lemma length_removeAll_distinct: "distinct xs \<Longrightarrow> x \<in> set xs \<Longrightarrow> Suc (length (removeAll x xs)) = length xs"
  using length_pos_if_in_set [of x xs] by (simp add: distinct_remove1_removeAll [symmetric] length_remove1)

lemma serve_inv_init: "serve_inv maxConnections new_serving"
  by (simp add: serve_inv_def new_serving_def)

lemma serve_inv_step: "serve_step patient maxConnections s s' \<Longrightarrow> serve_inv maxConnections s \<Longrightarrow> serve_inv maxConnections s'"
proof (induction rule: serve_step.induct)
  case (finish c s)
  then show ?case
    using length_removeAll_distinct [of "sv_connections s" c]
    by (auto simp: serve_inv_def serve_finish_def distinct_removeAll)
qed (auto simp: serve_inv_def serve_accept_def serve_fail_def serve_watch_def serve_done_def serve_closeConnections_def Let_def)

lemma serve_inv_steps: "serve_steps patient maxConnections new_serving s \<Longrightarrow> serve_inv maxConnections s"
  by (induction rule: rtranclp_induct) (auto intro: serve_inv_init serve_inv_step)

section \<open>Draining\<close>

text \<open>What a draining loop has left to do; every step does some of it.\<close>

definition drain_work :: "serving \<Rightarrow> nat" where
  "drain_work s = 2 * length (sv_connections s) + sv_finishing s + (if sv_watched s then 0 else 1)
     + (case sv_phase s of Returned r \<Rightarrow> 0 | _ \<Rightarrow> 1)"

definition draining :: "goerr option \<Rightarrow> serving \<Rightarrow> bool" where
  "draining r s \<longleftrightarrow> sv_phase s = Draining r \<or> sv_phase s = Returned r"

lemma drain_step:
  assumes "serve_step patient maxConnections s s'" "serve_inv maxConnections s" "draining r s"
  shows "drain_work s' < drain_work s \<and> draining r s'"
  using assms
proof (induction rule: serve_step.induct)
  case (finish c s)
  then show ?case
    using length_removeAll_distinct [of "sv_connections s" c]
    by (auto simp: serve_inv_def serve_finish_def drain_work_def draining_def)
qed (auto simp: serve_inv_def serve_watch_def serve_done_def serve_closeConnections_def drain_work_def draining_def)

lemma drain_bounded:
  assumes "(serve_step patient maxConnections ^^ n) s s'" "serve_inv maxConnections s" "draining r s"
  shows "n + drain_work s' \<le> drain_work s \<and> serve_inv maxConnections s' \<and> draining r s'"
  using assms
proof (induction n arbitrary: s')
  case (Suc n)
  then obtain t where t: "(serve_step patient maxConnections ^^ n) s t" "serve_step patient maxConnections t s'" by auto
  from Suc.IH [OF t(1) Suc.prems(2,3)] have "n + drain_work t \<le> drain_work s" "serve_inv maxConnections t" "draining r t" by auto
  then show ?case using drain_step [OF t(2)] serve_inv_step [OF t(2)] by fastforce
qed simp

text \<open>Since every connection has been closed, no handler holds the loop up, not even one that waits for that.\<close>

lemma drain_progress:
  assumes "serve_inv maxConnections s" "sv_phase s = Draining r"
  shows "\<exists>s'. serve_step patient maxConnections s s'"
proof (cases "sv_connections s")
  case Nil
  then show ?thesis
    using assms serve_step.return [of s r patient maxConnections] serve_step.leave [of s patient maxConnections]
    by (cases "sv_finishing s = 0") (auto simp: serve_inv_def)
next
  case (Cons c cs)
  then have "c \<in> set (sv_connections s)" "c \<in> set (sv_closed s)" using assms by (auto simp: serve_inv_def)
  then show ?thesis by (blast intro: serve_step.finish)
qed

text \<open>
  C18: the serving loop keeps to its limit, owns its connections and drains.  In every reachable state at most
  \<open>maxConnections\<close> connections are tracked, there is one handler for each of them besides those that have removed
  theirs, and every accepted connection is tracked or closed.  Once the loop has ended, the listener and all connections
  it accepted are closed.  From then on it takes at most \<open>2 * maxConnections + sv_finishing s + 2\<close> further steps, however the
  goroutines interleave, and until it has returned some step is always possible, even when every handler returns only
  after its connection was closed; so the call returns, provided that handlers do return after that.  When
  it has returned no handler runs any more.
\<close>

theorem netserve_contract:
  assumes "serve_steps patient maxConnections new_serving s"
  shows "sv_handlers s = length (sv_connections s) + sv_finishing s \<and> length (sv_connections s) \<le> maxConnections
    \<and> set (sv_accepted s) = set (sv_connections s) \<union> set (sv_closed s)
    \<and> (case sv_phase s of
         Accepting \<Rightarrow> True
       | Draining r \<Rightarrow> sv_listenerClosed s \<and> set (sv_accepted s) = set (sv_closed s)
           \<and> (\<forall>n s'. (serve_step patient maxConnections ^^ n) s s' \<longrightarrow> n \<le> 2 * maxConnections + sv_finishing s + 2
                \<and> (sv_phase s' = Returned r \<or> (\<exists>s''. serve_step patient maxConnections s' s'')))
       | Returned r \<Rightarrow> sv_listenerClosed s \<and> set (sv_accepted s) = set (sv_closed s) \<and> sv_handlers s = 0)"
proof -
  note inv = serve_inv_steps [OF assms]
  have "n \<le> 2 * maxConnections + sv_finishing s + 2 \<and> (sv_phase s' = Returned r \<or> (\<exists>s''. serve_step patient maxConnections s' s''))"
    if "sv_phase s = Draining r" "(serve_step patient maxConnections ^^ n) s s'" for r n s'
  proof -
    have d: "n + drain_work s' \<le> drain_work s" "serve_inv maxConnections s'" "draining r s'"
      using drain_bounded [OF that(2) inv] that(1) by (auto simp: draining_def)
    have "drain_work s \<le> 2 * maxConnections + sv_finishing s + 2"
      using inv that(1) by (simp add: drain_work_def serve_inv_def)
    then show ?thesis using d drain_progress [OF d(2)] by (auto simp: draining_def)
  qed
  then show ?thesis using inv by (auto simp: serve_inv_def split: servePhase.splits)
qed

definition busy_run :: serving where
  "busy_run = serve_fail IoEOF (serve_accept 1 8 (serve_accept 1 7 new_serving))"

lemma busy_run_reached: "serve_steps patient 1 new_serving busy_run"
proof -
  have "serve_step patient 1 new_serving (serve_accept 1 7 new_serving)"
    by (rule serve_step.accept) (simp_all add: new_serving_def)
  moreover have "serve_step patient 1 (serve_accept 1 7 new_serving) (serve_accept 1 8 (serve_accept 1 7 new_serving))"
    by (rule serve_step.accept) (simp_all add: new_serving_def serve_accept_def)
  moreover have "serve_step patient 1 (serve_accept 1 8 (serve_accept 1 7 new_serving)) busy_run"
    unfolding busy_run_def by (rule serve_step.fail) (simp add: new_serving_def serve_accept_def)
  ultimately show ?thesis by (meson rtranclp.rtrancl_into_rtrancl rtranclp.rtrancl_refl)
qed

theorem netserve_contract_witness:
  "sv_phase busy_run = Draining (Some IoEOF) \<and> sv_connections busy_run = [7] \<and> set (sv_closed busy_run) = {7, 8}
    \<and> (\<exists>s''. serve_step (\<lambda>c. True) 1 busy_run s'')"
proof -
  have eval: "sv_phase busy_run = Draining (Some IoEOF)" "sv_accepted busy_run = [7, 8]" "sv_connections busy_run = [7]"
    by (simp_all add: busy_run_def serve_fail_def serve_accept_def serve_closeConnections_def new_serving_def)
  note run = netserve_contract [OF busy_run_reached [of "\<lambda>c. True"]]
  have "(serve_step (\<lambda>c. True) 1 ^^ 0) busy_run busy_run" by simp
  moreover have "(serve_step (\<lambda>c. True) 1 ^^ n) busy_run s' \<Longrightarrow>
      sv_phase s' = Returned (Some IoEOF) \<or> (\<exists>s''. serve_step (\<lambda>c. True) 1 s' s'')" for n s'
    using run unfolding eval(1) servePhase.case by blast
  ultimately have "\<exists>s''. serve_step (\<lambda>c. True) 1 busy_run s''" using eval(1) by (metis servePhase.distinct(5))
  moreover have "set (sv_closed busy_run) = {7, 8}" using run eval by auto
  ultimately show ?thesis using eval by simp
qed

section \<open>Resolving UDP addresses\<close>

record udpAddr =
  ua_IP :: bytes
  ua_Port :: int
  ua_Zone :: bytes

text \<open>The answer of the resolver is a list of addresses with their zones; \<open>ctxErr\<close> is \<open>ctx.Err()\<close> after a failure.\<close>

fun pick_address :: "bytes \<Rightarrow> (bytes \<times> bytes) list \<Rightarrow> (bytes \<times> bytes) option" where
  "pick_address network [] = None"
| "pick_address network ((ip, zone) # rest) =
     (if network = str ''udp4'' \<and> To4 ip = [] then pick_address network rest
      else if network = str ''udp6'' \<and> To4 ip \<noteq> [] then pick_address network rest
      else Some (ip, zone))"

definition resolveUDPAddr ::
  "(bytes \<Rightarrow> (bytes \<times> bytes) list result) \<Rightarrow> goerr option \<Rightarrow> bytes \<Rightarrow> bytes \<Rightarrow> udpAddr result" where
  "resolveUDPAddr lookup ctxErr network address =
     (if network \<notin> {str ''udp'', str ''udp4'', str ''udp6''} then Inl (ErrText (str ''unknown network '' @ network))
      else rbind (SplitHostPort address) (\<lambda>(host, portText).
        case Atoi portText of
          None \<Rightarrow> Inl (ErrText (str ''invalid UDP port '' @ Quote portText))
        | Some port \<Rightarrow>
            if port < 0 \<or> 65535 < port then Inl (ErrText (str ''invalid UDP port '' @ Quote portText))
            else if host = [] then Inr \<lparr>ua_IP = [], ua_Port = port, ua_Zone = []\<rparr>
            else
              let (ipHost, zone) = (case LastIndexByte host 37 of
                    None \<Rightarrow> (host, [])
                  | Some i \<Rightarrow> (take i host, drop (Suc i) host));
                  ip = ParseIP ipHost
              in if ip \<noteq> [] then
                   if network = str ''udp4'' \<and> To4 ip = [] then Inl (ErrText (str ''non-IPv4 address for udp4''))
                   else if network = str ''udp6'' \<and> To4 ip \<noteq> [] then Inl (ErrText (str ''non-IPv6 address for udp6''))
                   else Inr \<lparr>ua_IP = ip, ua_Port = port, ua_Zone = zone\<rparr>
                 else if zone \<noteq> [] then Inl (ErrText (str ''zone is only valid with an IP literal: '' @ Quote host))
                 else case lookup host of
                   Inl err \<Rightarrow> Inl (case ctxErr of Some contextErr \<Rightarrow> contextErr | None \<Rightarrow> err)
                 | Inr addresses \<Rightarrow>
                     (case pick_address network addresses of
                        None \<Rightarrow> Inl (ErrText (str ''no '' @ network @ str '' address found for '' @ Quote host))
                      | Some (cip, czone) \<Rightarrow> Inr \<lparr>ua_IP = cip, ua_Port = port, ua_Zone = czone\<rparr>)))"

text \<open>The family of the network is respected, whatever the resolver answers.\<close>

definition family_ok :: "bytes \<Rightarrow> bytes \<Rightarrow> bool" where
  "family_ok network ip \<longleftrightarrow>
     (network = str ''udp4'' \<longrightarrow> To4 ip \<noteq> []) \<and> (network = str ''udp6'' \<longrightarrow> To4 ip = [])"

lemma pick_address_family: "pick_address network as = Some (ip, zone) \<Longrightarrow> family_ok network ip"
  by (induction network as rule: pick_address.induct) (auto simp: family_ok_def split: if_splits)

lemma resolveUDPAddr_sound:
  assumes "resolveUDPAddr lookup ctxErr network address = Inr a"
  shows "0 \<le> ua_Port a \<and> ua_Port a \<le> 65535 \<and> (ua_IP a \<noteq> [] \<longrightarrow> family_ok network (ua_IP a))"
proof -
  obtain host portText port where sp: "SplitHostPort address = Inr (host, portText)" "Atoi portText = Some port"
    "0 \<le> port" "port \<le> 65535" and nw: "network \<in> {str ''udp'', str ''udp4'', str ''udp6''}"
    using assms by (auto simp: resolveUDPAddr_def rbind_eq_Inr split: if_splits option.splits)
  show ?thesis
    using assms nw sp
    by (auto simp: resolveUDPAddr_def Let_def family_ok_def dest!: pick_address_family
        split: if_splits option.splits sum.splits prod.splits)
qed

end
