(* ===== verification/Forward.thy ===== *)
theory Forward
  imports GoNet
begin

text \<open>
  Reverse port forwards (src/internal/forward/forward.go): the mapping syntax and the set of open
  forwards.  A handle (\<open>io.Closer\<close>) is a number.  What the opener answers to the mappings is a list
  with one answer per call, a handle or \<open>nil\<close> and an error; the handles that get closed are logged in
  the order of the \<open>Close\<close> calls.
\<close>

section \<open>Mappings\<close>

record Mapping =
  mp_Windows :: bytes
  mp_WSL :: bytes

definition validateEndpoint :: "bytes \<Rightarrow> goerr option" where
  "validateEndpoint v =
     (case SplitHostPort v of
        Inl err \<Rightarrow> Some (ErrText (str ''expected host:port''))
      | Inr (host, rawPort) \<Rightarrow>
          (case ParseUint rawPort 10 16 of
             None \<Rightarrow> Some (ErrText (str ''port must be an integer between 1 and 65535''))
           | Some port \<Rightarrow>
               if port = 0 then Some (ErrText (str ''port must be an integer between 1 and 65535'')) else None))"

definition mapping_syntax :: "bytes \<Rightarrow> goerr" where
  "mapping_syntax v =
     ErrText (str ''invalid reverse mapping '' @ Quote v @ str ''; expected WINDOWS_ADDR=WSL_TARGET'')"

definition ParseMapping :: "bytes \<Rightarrow> Mapping result" where
  "ParseMapping v =
     (case SplitN2 v 61 of
        [p0, p1] \<Rightarrow>
          if TrimSpace p0 = [] \<or> TrimSpace p1 = [] then Inl (mapping_syntax v)
          else let windows = TrimSpace p0; wsl = TrimSpace p1 in
            (case validateEndpoint windows of
               Some err \<Rightarrow> Inl (ErrWrapped (str ''invalid Windows address '' @ Quote windows @ str '': '' @ error_text err) err)
             | None \<Rightarrow>
                 (case validateEndpoint wsl of
                    Some err \<Rightarrow> Inl (ErrWrapped (str ''invalid WSL target '' @ Quote wsl @ str '': '' @ error_text err) err)
                  | None \<Rightarrow> Inr \<lparr>mp_Windows = windows, mp_WSL = wsl\<rparr>))
      | _ \<Rightarrow> Inl (mapping_syntax v))"

definition Mappings_Set :: "Mapping list \<Rightarrow> bytes \<Rightarrow> Mapping list \<times> goerr option" where
  "Mappings_Set m v =
     (case ParseMapping v of
        Inl err \<Rightarrow> (m, Some err)
      | Inr mapping \<Rightarrow> (m @ [mapping], None))"

definition Mappings_String :: "Mapping list \<Rightarrow> bytes" where
  "Mappings_String m = strings_Join (map (\<lambda>mapping. mp_Windows mapping @ [61] @ mp_WSL mapping) m) [44]"

section \<open>Sets of open forwards\<close>

record forwardSet =
  fs_closers :: "nat list"
  fs_closed :: bool

definition emptySet :: forwardSet where
  "emptySet = \<lparr>fs_closers = [], fs_closed = False\<rparr>"

text \<open>
  \<open>Set.Close\<close>: the loop runs from the last handle to the first.  The result names the handles in the
  order in which they are closed, and the first error.
\<close>

fun close_loop :: "(nat \<Rightarrow> goerr option) \<Rightarrow> nat list \<Rightarrow> goerr option \<Rightarrow> goerr option" where
  "close_loop closeErr [] first = first"
| "close_loop closeErr (h # hs) first = close_loop closeErr hs (if first = None then closeErr h else first)"

definition Set_Close :: "(nat \<Rightarrow> goerr option) \<Rightarrow> forwardSet \<Rightarrow> forwardSet \<times> nat list \<times> goerr option" where
  "Set_Close closeErr s =
     (if fs_closed s then (s, [], None)
      else (s\<lparr>fs_closed := True, fs_closers := []\<rparr>, rev (fs_closers s), close_loop closeErr (rev (fs_closers s)) None))"

definition mapping_label :: "Mapping \<Rightarrow> bytes" where
  "mapping_label mapping = mp_Windows mapping @ str ''='' @ mp_WSL mapping @ str '': ''"

type_synonym openAnswer = "nat option \<times> goerr option"

text \<open>
  The loop of \<open>openAll\<close> with the set so far.  The answers are consumed one per mapping; when they run
  out the call has not returned yet.
\<close>

fun openAll_loop ::
  "(nat \<Rightarrow> goerr option) \<Rightarrow> forwardSet \<Rightarrow> Mapping list \<Rightarrow> openAnswer list \<Rightarrow> (nat list \<times> forwardSet result) option" where
  "openAll_loop closeErr s [] answers = Some ([], Inr s)"
| "openAll_loop closeErr s (mapping # ms) [] = None"
| "openAll_loop closeErr s (mapping # ms) ((closer, err) # answers) =
     (case err of
        Some e \<Rightarrow>
          let closed = (case closer of None \<Rightarrow> [] | Some h \<Rightarrow> [h]);
              (s1, more, r) = Set_Close closeErr s
          in Some (closed @ more, Inl (ErrWrapped (mapping_label mapping @ error_text e) e))
      | None \<Rightarrow>
          (case closer of
             None \<Rightarrow>
               let (s1, more, r) = Set_Close closeErr s
               in Some (more, Inl (ErrText (mapping_label mapping @ str ''opener returned nil mapping'')))
           | Some h \<Rightarrow> openAll_loop closeErr (s\<lparr>fs_closers := fs_closers s @ [h]\<rparr>) ms answers))"

definition openAll where
  "openAll closeErr mappings answers = openAll_loop closeErr emptySet mappings answers"

definition OpenAll ::
  "bool \<Rightarrow> (nat \<Rightarrow> goerr option) \<Rightarrow> Mapping list \<Rightarrow> openAnswer list \<Rightarrow> (nat list \<times> forwardSet result) option" where
  "OpenAll openerNil closeErr mappings answers =
     (if openerNil then Some ([], Inl (ErrText (str ''reverse forward opener is required'')))
      else openAll closeErr mappings answers)"

definition OpenDatagramAll ::
  "bool \<Rightarrow> (nat \<Rightarrow> goerr option) \<Rightarrow> Mapping list \<Rightarrow> openAnswer list \<Rightarrow> (nat list \<times> forwardSet result) option" where
  "OpenDatagramAll openerNil closeErr mappings answers =
     (if openerNil then Some ([], Inl (ErrText (str ''reverse datagram opener is required'')))
      else openAll closeErr mappings answers)"

section \<open>Properties\<close>

lemma TrimSpace_ends:
  "TrimSpace s \<noteq> [] \<Longrightarrow> \<not> is_space (hd (TrimSpace s)) \<and> \<not> is_space (last (TrimSpace s))"
proof -
  define t where "t = dropWhile is_space s"
  define u where "u = dropWhile is_space (rev t)"
  assume "TrimSpace s \<noteq> []"
  then have u: "u \<noteq> []" by (simp add: TrimSpace_def u_def t_def)
  have "\<not> is_space (hd u)" using u hd_dropWhile [of is_space "rev t"] by (simp add: u_def)
  moreover obtain v where v: "rev t = v @ u"
    by (metis u_def takeWhile_dropWhile_id)
  have t: "t = rev u @ rev v" using v by (metis rev_append rev_rev_ident)
  with u have "hd t = last u" by (simp add: hd_append hd_rev)
  moreover have "t \<noteq> []" using t u by auto
  then have "\<not> is_space (hd t)" using hd_dropWhile [of is_space s] by (simp add: t_def)
  ultimately show ?thesis using u by (simp add: TrimSpace_def u_def [symmetric] t_def [symmetric] hd_rev last_rev)
qed

lemma TrimSpace_fixed: "s \<noteq> [] \<Longrightarrow> \<not> is_space (hd s) \<Longrightarrow> \<not> is_space (last s) \<Longrightarrow> TrimSpace s = s"
proof -
  assume a: "s \<noteq> []" "\<not> is_space (hd s)" "\<not> is_space (last s)"
  then have "dropWhile is_space s = s" by (cases s) auto
  moreover have "dropWhile is_space (rev s) = rev s" using a by (cases s rule: rev_cases) auto
  ultimately show ?thesis by (simp add: TrimSpace_def)
qed

lemma TrimSpace_idem [simp]: "TrimSpace (TrimSpace s) = TrimSpace s"
proof (cases "TrimSpace s = []")
  case False
  with TrimSpace_ends [OF False] show ?thesis by (intro TrimSpace_fixed) auto
next
  case True
  show ?thesis unfolding True by (simp add: TrimSpace_def)
qed

lemma TrimSpace_subset: "set (TrimSpace s) \<subseteq> set s"
  by (auto simp: TrimSpace_def dest!: set_dropWhileD)

text \<open>
  A mapping that is accepted names two endpoints with a host and a port between 1 and 65535,
  and parsing what \<open>Mappings.String\<close> prints for it yields the same mapping.
\<close>

lemma mapping_roundtrip:
  assumes "ParseMapping v = Inr m"
  shows "validateEndpoint (mp_Windows m) = None \<and> validateEndpoint (mp_WSL m) = None
    \<and> ParseMapping (Mappings_String [m]) = Inr m"
proof -
  obtain p0 p1 where sp: "SplitN2 v 61 = [p0, p1]"
    using assms by (auto simp: ParseMapping_def split: list.splits)
  have ne: "TrimSpace p0 \<noteq> []" "TrimSpace p1 \<noteq> []"
    and m: "m = \<lparr>mp_Windows = TrimSpace p0, mp_WSL = TrimSpace p1\<rparr>"
    and ok: "validateEndpoint (TrimSpace p0) = None" "validateEndpoint (TrimSpace p1) = None"
    using assms by (auto simp: ParseMapping_def sp Let_def split: if_splits option.splits)
  have "61 \<notin> set (TrimSpace p0)" using sp TrimSpace_subset [of p0] by (auto simp: SplitN2_two)
  then have "SplitN2 (mp_Windows m @ [61] @ mp_WSL m) 61 = [TrimSpace p0, TrimSpace p1]"
    using m by (simp add: SplitN2_append)
  with ne ok m show ?thesis by (simp add: ParseMapping_def Mappings_String_def)
qed

text \<open>The handles that a list of answers opened before one failed.\<close>

abbreviation opened_all :: "nat list \<Rightarrow> openAnswer list" where
  "opened_all hs \<equiv> map (\<lambda>h. (Some h, None)) hs"

lemma openAll_loop_outcome:
  assumes "openAll_loop closeErr s ms answers = Some (closed, r)" and "\<not> fs_closed s"
  shows "(\<exists>hs rest. r = Inr (s\<lparr>fs_closers := fs_closers s @ hs\<rparr>) \<and> closed = []
            \<and> answers = opened_all hs @ rest \<and> length hs = length ms)
    \<or> (\<exists>hs closer err rest e. r = Inl e \<and> answers = opened_all hs @ (closer, err) # rest \<and> length hs < length ms
            \<and> (err \<noteq> None \<or> closer = None)
            \<and> closed = (case closer of None \<Rightarrow> [] | Some h \<Rightarrow> [h]) @ rev (fs_closers s @ hs))"
  using assms
proof (induction closeErr s ms answers rule: openAll_loop.induct)
  case (3 closeErr s mapping ms closer err answers)
  show ?case
  proof (cases "err = None \<and> closer \<noteq> None")
    case True
    then obtain h where h: "closer = Some h" by auto
    with True 3 have "openAll_loop closeErr (s\<lparr>fs_closers := fs_closers s @ [h]\<rparr>) ms answers = Some (closed, r)" by simp
    with 3(1) [of h] True h 3(3) consider
      hs rest where "r = Inr (s\<lparr>fs_closers := fs_closers s @ h # hs\<rparr>)" "closed = []"
        "answers = opened_all hs @ rest" "length hs = length ms"
    | hs c e0 rest e where "r = Inl e" "answers = opened_all hs @ (c, e0) # rest" "length hs < length ms"
        "e0 \<noteq> None \<or> c = None" "closed = (case c of None \<Rightarrow> [] | Some h \<Rightarrow> [h]) @ rev (fs_closers s @ h # hs)"
      by auto
    then show ?thesis
    proof cases
      case 1
      with True h show ?thesis by (intro disjI1 exI [of _ "h # hs"]) auto
    next
      case 2
      with True h show ?thesis
        by (intro disjI2 exI [of _ "h # hs"] exI [of _ c] exI [of _ e0]) (auto simp: Cons_eq_append_conv)
    qed
  next
    case False
    with 3(2,3) show ?thesis
      by (intro disjI2 exI [of _ "[]"] exI [of _ closer] exI [of _ err] exI [of _ answers])
        (auto simp: Set_Close_def split: option.splits)
  qed
qed auto

text \<open>
  Opening the configured forwards is all or nothing.  On success the set holds one open handle
  per mapping and nothing was closed; closing the set then closes each of them once, the last one
  first, and closing it again closes nothing.  When an opener fails, every handle that was
  obtained, the one returned together with the error included, has been closed once.
\<close>

lemma forwards_all_or_nothing:
  assumes "openAll closeErr mappings answers = Some (closed, r)"
  shows "(\<exists>s hs rest. r = Inr s \<and> closed = [] \<and> answers = opened_all hs @ rest \<and> length hs = length mappings
            \<and> fst (snd (Set_Close closeErr s)) = rev hs
            \<and> Set_Close closeErr (fst (Set_Close closeErr s)) = (fst (Set_Close closeErr s), [], None))
    \<or> (\<exists>e hs closer err rest. r = Inl e \<and> answers = opened_all hs @ (closer, err) # rest
            \<and> length hs < length mappings \<and> (err \<noteq> None \<or> closer = None)
            \<and> closed = (case closer of None \<Rightarrow> [] | Some h \<Rightarrow> [h]) @ rev hs)"
  using openAll_loop_outcome [OF assms [unfolded openAll_def]]
  by (auto simp: emptySet_def Set_Close_def)

end
