(* ===== verification/AutoScan.thy ===== *)
theory AutoScan
  imports GoNet "HOL-Library.List_Lexorder" "HOL-Library.Product_Lexorder" "HOL-Library.Multiset"
begin

text \<open>
  Scanning the kernel's socket tables (src/internal/autoforward/proc.go).  A file is its content and
  the error, if any, that follows it; opening a path is an argument.  The texts of the errors of
  \<open>encoding/hex\<close> are not modelled further.
\<close>

record Listener =
  ls_Network :: bytes
  ls_Host :: bytes
  ls_Port :: u16

record ProcScanner =
  ps_TCPPath :: bytes
  ps_TCP6Path :: bytes
  ps_UDPPath :: bytes
  ps_UDP6Path :: bytes

definition DefaultProcScanner :: ProcScanner where
  "DefaultProcScanner = \<lparr>ps_TCPPath = str ''/proc/net/tcp'', ps_TCP6Path = str ''/proc/net/tcp6'',
     ps_UDPPath = str ''/proc/net/udp'', ps_UDP6Path = str ''/proc/net/udp6''\<rparr>"

section \<open>Lines\<close>

text \<open>
  \<open>bufio.Scanner\<close> with its default split function: lines without their line feed and one carriage
  return, at most 65535 bytes each; a longer line ends the scan with an error.
\<close>

function raw_lines :: "bytes \<Rightarrow> bytes list" where
  "raw_lines s =
     (if s = [] then [] else takeWhile (\<lambda>b. b \<noteq> 10) s # raw_lines (tl (dropWhile (\<lambda>b. b \<noteq> 10) s)))"
  by pat_completeness auto
termination
proof (relation "measure length")
  fix s :: bytes
  assume "s \<noteq> []"
  moreover have "length (dropWhile (\<lambda>b. b \<noteq> 10) s) \<le> length s" by (rule length_dropWhile_le)
  ultimately show "(tl (dropWhile (\<lambda>b. b \<noteq> 10) s), s) \<in> measure length"
    by (cases s) (auto simp: length_tl simp del: length_dropWhile_le)
qed simp

declare raw_lines.simps [simp del]

definition dropCR :: "bytes \<Rightarrow> bytes" where
  "dropCR s = (if s \<noteq> [] \<and> last s = 13 then butlast s else s)"

definition scan_lines :: "bytes \<Rightarrow> goerr option \<Rightarrow> bytes list \<times> goerr option" where
  "scan_lines content readErr =
     (let rows = raw_lines content; short = takeWhile (\<lambda>r. length r < 65536) rows in
      (map dropCR short,
       if length short < length rows then Some (ErrText (str ''bufio.Scanner: token too long'')) else readErr))"

section \<open>Addresses\<close>

text \<open>The swapping loops of \<open>decodeProcAddress\<close>.\<close>

function reverse_range :: "bytes \<Rightarrow> nat \<Rightarrow> nat \<Rightarrow> bytes" where
  "reverse_range decoded left right =
     (if left < right
      then reverse_range (decoded[left := decoded ! right, right := decoded ! left]) (left + 1) (right - 1)
      else decoded)"
  by pat_completeness auto
termination
  by (relation "measure (\<lambda>(d, l, r). r - l)") auto

declare reverse_range.simps [simp del]

definition decodeProcAddress :: "bytes \<Rightarrow> bytes \<Rightarrow> bytes result" where
  "decodeProcAddress encoded network =
     (case hex_DecodeString encoded of
        None \<Rightarrow> Inl (ErrText (str ''encoding/hex: invalid input''))
      | Some decoded \<Rightarrow>
          if network = str ''tcp4'' \<or> network = str ''udp4'' then
            if length decoded \<noteq> 4 then Inl (ErrText (str ''expected 4 bytes''))
            else Inr (IP_String (reverse_range decoded 0 (length decoded - 1)))
          else if length decoded \<noteq> 16 then Inl (ErrText (str ''expected 16 bytes''))
          else Inr (IP_String (foldl (\<lambda>d offset. reverse_range d offset (offset + 3)) decoded [0, 4, 8, 12])))"

section \<open>Tables\<close>

definition line_err :: "nat \<Rightarrow> bytes \<Rightarrow> goerr" where
  "line_err line what = ErrText (str ''line '' @ decimal line @ str '': '' @ what)"

text \<open>The check on the remote address of a UDP row: \<open>Inr True\<close> when the socket is not connected.\<close>

definition udp_remote :: "nat \<Rightarrow> bytes list \<Rightarrow> bool result" where
  "udp_remote line cols =
     (if length cols < 5 then Inl (line_err line (str ''missing remote address''))
      else case SplitN2 (cols ! 2) 58 of
        [h, p] \<Rightarrow>
          (case ParseUint p 16 16 of
             None \<Rightarrow> Inl (line_err line (str ''invalid remote port '' @ Quote p))
           | Some remotePort \<Rightarrow> Inr (remotePort = 0))
      | _ \<Rightarrow> Inl (line_err line (str ''malformed remote address'')))"

definition parse_row :: "bytes \<Rightarrow> bytes \<Rightarrow> nat \<Rightarrow> bytes \<Rightarrow> Listener option result" where
  "parse_row network state line text =
     (let cols = Fields text in
      if length cols < 4 \<or> cols ! 3 \<noteq> state then Inr None
      else rbind (if network = str ''udp4'' \<or> network = str ''udp6'' then udp_remote line cols else Inr True)
        (\<lambda>wanted.
           if \<not> wanted then Inr None
           else case SplitN2 (cols ! 1) 58 of
             [a, p] \<Rightarrow>
               (case ParseUint p 16 16 of
                  None \<Rightarrow> Inl (line_err line (str ''invalid port '' @ Quote p))
                | Some port \<Rightarrow>
                    if port = 0 then Inl (line_err line (str ''invalid port '' @ Quote p))
                    else (case decodeProcAddress a network of
                        Inl err \<Rightarrow> Inl (ErrWrapped (error_text (line_err line (str ''invalid address: '' @ error_text err))) err)
                      | Inr host \<Rightarrow> Inr (Some \<lparr>ls_Network = network, ls_Host = host, ls_Port = word_of_nat port\<rparr>)))
           | _ \<Rightarrow> Inl (line_err line (str ''malformed local address''))))"

fun parse_rows :: "bytes \<Rightarrow> bytes \<Rightarrow> nat \<Rightarrow> bytes list \<Rightarrow> Listener list result" where
  "parse_rows network state line [] = Inr []"
| "parse_rows network state line (text # rest) =
     (if line = 1 then parse_rows network state (Suc line) rest
      else rbind (parse_row network state line text) (\<lambda>l.
        rbind (parse_rows network state (Suc line) rest) (\<lambda>ls. Inr (case l of None \<Rightarrow> ls | Some x \<Rightarrow> x # ls))))"

definition parseProcNetState :: "bytes \<times> goerr option \<Rightarrow> bytes \<Rightarrow> bytes \<Rightarrow> Listener list result" where
  "parseProcNetState file network state =
     (case scan_lines (fst file) (snd file) of (rows, scanErr) \<Rightarrow>
        rbind (parse_rows network state 1 rows) (\<lambda>result.
          case scanErr of Some err \<Rightarrow> Inl err | None \<Rightarrow> Inr result))"

definition parseProcNet where "parseProcNet file network = parseProcNetState file network (str ''0A'')"
definition parseProcNetDatagram where "parseProcNetDatagram file network = parseProcNetState file network (str ''07'')"

section \<open>Representatives\<close>

definition wildcard :: "Listener \<Rightarrow> bool" where
  "wildcard l \<longleftrightarrow> ls_Host l = [] \<or> ls_Host l = str ''0.0.0.0'' \<or> ls_Host l = str ''::''"

definition preferredListener :: "Listener \<Rightarrow> Listener \<Rightarrow> bool" where
  "preferredListener candidate current =
     (if wildcard candidate \<noteq> wildcard current then wildcard candidate
      else ls_Host candidate < ls_Host current)"

abbreviation lkey :: "Listener \<Rightarrow> bytes \<times> u16" where
  "lkey l \<equiv> (ls_Network l, ls_Port l)"

definition keep_listener :: "((bytes \<times> u16) \<times> Listener) list \<Rightarrow> Listener \<Rightarrow> ((bytes \<times> u16) \<times> Listener) list" where
  "keep_listener byKey l =
     (case map_of byKey (lkey l) of
        None \<Rightarrow> (lkey l, l) # byKey
      | Some current \<Rightarrow>
          if preferredListener l current then (lkey l, l) # filter (\<lambda>(k, v). k \<noteq> lkey l) byKey else byKey)"

definition normalizeListeners :: "Listener list \<Rightarrow> Listener list" where
  "normalizeListeners ls =
     sort_key (\<lambda>l. (ls_Port l, ls_Network l)) (map snd (foldl keep_listener [] ls))"

section \<open>Scanning\<close>

fun scan_sources ::
  "(bytes \<Rightarrow> (bytes \<times> goerr option) result) \<Rightarrow> (bytes \<times> bytes \<times> bytes) list \<Rightarrow> Listener list result" where
  "scan_sources open_file [] = Inr []"
| "scan_sources open_file ((path, network, state) # sources) =
     (case open_file path of
        Inl err \<Rightarrow>
          if (network = str ''tcp6'' \<or> network = str ''udp6'') \<and> err_is err OsErrNotExist
          then scan_sources open_file sources
          else Inl (ErrWrapped (str ''open '' @ path @ str '': '' @ error_text err) err)
      | Inr file \<Rightarrow>
          (case parseProcNetState file network state of
             Inl err \<Rightarrow> Inl (ErrWrapped (str ''parse '' @ path @ str '': '' @ error_text err) err)
           | Inr got \<Rightarrow> rbind (scan_sources open_file sources) (\<lambda>rest. Inr (got @ rest))))"

definition scan_tables where
  "scan_tables open_file sources = rbind (scan_sources open_file sources) (\<lambda>ls. Inr (normalizeListeners ls))"

definition Scan :: "(bytes \<Rightarrow> (bytes \<times> goerr option) result) \<Rightarrow> ProcScanner \<Rightarrow> Listener list result" where
  "Scan open_file s =
     scan_tables open_file [(ps_TCPPath s, str ''tcp4'', str ''0A''), (ps_TCP6Path s, str ''tcp6'', str ''0A'')]"

definition ScanDatagrams :: "(bytes \<Rightarrow> (bytes \<times> goerr option) result) \<Rightarrow> ProcScanner \<Rightarrow> Listener list result" where
  "ScanDatagrams open_file s =
     scan_tables open_file [(ps_UDPPath s, str ''udp4'', str ''07''), (ps_UDP6Path s, str ''udp6'', str ''07'')]"

section \<open>Properties\<close>

lemma reverse_range_word:
  assumes "length xs = n"
  shows "reverse_range (xs @ [p, q, r, s] @ ys) n (n + 3) = xs @ [s, r, q, p] @ ys"
  using assms
  by (simp add: reverse_range.simps [of _ n] reverse_range.simps [of _ "Suc n"] reverse_range.simps [of _ "Suc (Suc n)"]
      nth_append list_update_append eval_nat_numeral)

text \<open>The address of a row is the little-endian form of the address it names.\<close>

lemma reverse_word: "length d = 4 \<Longrightarrow> reverse_range d 0 3 = rev d"
  using reverse_range_word [of "[]" 0 _ _ _ _ "[]"] by (auto simp: length_Suc_conv numeral_eq_Suc)

lemma reverse_words:
  assumes "length a = 4" "length b = 4" "length c = 4" "length d = 4"
  shows "foldl (\<lambda>d offset. reverse_range d offset (offset + 3)) (a @ b @ c @ d) [0, 4, 8, 12]
    = rev a @ rev b @ rev c @ rev d"
proof -
  have w: "length xs = n \<Longrightarrow> length x = 4 \<Longrightarrow> reverse_range (xs @ x @ ys) n (n + 3) = xs @ rev x @ ys" for xs x ys n
    using reverse_range_word [of xs n] by (auto simp: length_Suc_conv numeral_eq_Suc)
  have "reverse_range (a @ b @ c @ d) 0 3 = rev a @ b @ c @ d" using w [of "[]" 0 a "b @ c @ d"] assms by simp
  moreover have "reverse_range (rev a @ b @ c @ d) 4 7 = rev a @ rev b @ c @ d"
    using w [of "rev a" 4 b "c @ d"] assms by simp
  moreover have "reverse_range (rev a @ rev b @ c @ d) 8 11 = rev a @ rev b @ rev c @ d"
    using w [of "rev a @ rev b" 8 c d] assms by simp
  moreover have "reverse_range (rev a @ rev b @ rev c @ d) 12 15 = rev a @ rev b @ rev c @ rev d"
    using w [of "rev a @ rev b @ rev c" 12 d "[]"] assms by simp
  ultimately show ?thesis by simp
qed

fun hex_upper :: "bytes \<Rightarrow> bytes" where
  "hex_upper [] = []"
| "hex_upper (b # s) =
     (let digit = (\<lambda>d. word_of_nat (if d < 10 then 48 + d else 55 + d)) in
      digit (unat b div 16) # digit (unat b mod 16) # hex_upper s)"

lemma digit_of_upper: "d < 16 \<Longrightarrow> digit_of (word_of_nat (if d < 10 then 48 + d else 55 + d)) = Some d"
  by (simp add: digit_of_def unat_word_of_nat_byte del: of_nat_add)

lemma hex_DecodeString_upper: "hex_DecodeString (hex_upper bs) = Some bs"
proof (induction bs)
  case (Cons b bs)
  have "unat b < 256" using unsigned_less [where 'a = nat, of b] by simp
  then have "unat b div 16 < 16" "unat b mod 16 < 16" by auto
  with Cons show ?case
    by (simp add: Let_def digit_of_upper del: of_nat_add if_split)
qed simp

lemma decode_ipv4_row:
  "length ip = 4 \<Longrightarrow> network \<in> {str ''tcp4'', str ''udp4''} \<Longrightarrow>
     decodeProcAddress (hex_upper (rev ip)) network = Inr (IP_String ip)"
  by (auto simp: decodeProcAddress_def hex_DecodeString_upper reverse_word)

lemma decode_ipv6_row:
  assumes "length a = 4" "length b = 4" "length c = 4" "length d = 4" "network \<notin> {str ''tcp4'', str ''udp4''}"
  shows "decodeProcAddress (hex_upper (rev a @ rev b @ rev c @ rev d)) network = Inr (IP_String (a @ b @ c @ d))"
  using assms reverse_words [of "rev a" "rev b" "rev c" "rev d"]
  by (auto simp: decodeProcAddress_def hex_DecodeString_upper simp del: foldl_Cons)

subsection \<open>Representatives\<close>

lemma preferred_trans: "preferredListener a b \<Longrightarrow> preferredListener b c \<Longrightarrow> preferredListener a c"
  by (auto simp: preferredListener_def split: if_splits)

lemma preferred_irrefl: "\<not> preferredListener a a"
  by (simp add: preferredListener_def)

lemma preferred_total: "preferredListener a b \<or> preferredListener b a \<or> ls_Host a = ls_Host b"
  by (auto simp: preferredListener_def)

lemma preferred_not_trans: "\<not> preferredListener b a \<Longrightarrow> \<not> preferredListener c b \<Longrightarrow> \<not> preferredListener c a"
  by (auto simp: preferredListener_def split: if_splits)

text \<open>What the map of representatives holds after a number of rows.\<close>

definition represents :: "Listener list \<Rightarrow> ((bytes \<times> u16) \<times> Listener) list \<Rightarrow> bool" where
  "represents ls m \<longleftrightarrow> distinct (map fst m) \<and> fst ` set m = lkey ` set ls
     \<and> (\<forall>(k, l) \<in> set m. k = lkey l \<and> l \<in> set ls \<and> (\<forall>x \<in> set ls. lkey x = k \<longrightarrow> \<not> preferredListener x l))"

lemma keys_filter: "fst ` set (filter (\<lambda>(k, v). k \<noteq> a) m) = fst ` set m - {a}"
  by (induction m) auto

lemma distinct_keys_filter: "distinct (map fst m) \<Longrightarrow> distinct (map fst (filter P m))"
  by (induction m) auto

lemma represents_keep:
  assumes "represents ls m"
  shows "represents (ls @ [l]) (keep_listener m l)"
proof (cases "map_of m (lkey l)")
  case None
  then have new: "lkey l \<notin> fst ` set m" by (simp add: map_of_eq_None_iff)
  then have absent: "lkey l \<notin> lkey ` set ls" using assms by (simp add: represents_def)
  have "lkey x \<noteq> lkey l" if "x \<in> set ls" for x
  proof
    assume "lkey x = lkey l"
    with imageI [OF that, of lkey] absent show False by (simp only:)
  qed
  moreover have "keep_listener m l = (lkey l, l) # m" unfolding keep_listener_def None by simp
  ultimately show ?thesis
    using new assms unfolding represents_def by (auto simp: preferred_irrefl)
next
  case (Some current)
  then have cur: "(lkey l, current) \<in> set m" by (rule map_of_SomeD)
  have key: "(k, v) \<in> set m \<Longrightarrow> k = lkey l \<Longrightarrow> v = current" for k v
    using assms Some by (auto simp: represents_def dest: map_of_is_SomeI)
  have best: "\<not> preferredListener x current" if "x \<in> set ls" "lkey x = lkey l" for x
    using assms cur that by (auto simp: represents_def)
  have inls: "lkey l \<in> lkey ` set ls" using assms cur by (force simp: represents_def)
  show ?thesis
  proof (cases "preferredListener l current")
    case False
    have "\<not> preferredListener l v" if "(k, v) \<in> set m" "lkey l = k" for k v
      using key [OF that(1)] that(2) False by simp
    with False Some assms inls show ?thesis
      by (auto simp: represents_def keep_listener_def)
  next
    case True
    have "\<not> preferredListener x l" if "x \<in> set ls" "lkey x = lkey l" for x
      using best [OF that] True preferred_trans by blast
    moreover have "distinct (map fst (filter (\<lambda>(k, v). k \<noteq> lkey l) m))"
      using assms by (intro distinct_keys_filter) (simp add: represents_def)
    moreover have "fst ` set (filter (\<lambda>(k, v). k \<noteq> lkey l) m) = lkey ` set ls - {lkey l}"
      unfolding keys_filter using assms by (simp only: represents_def)
    ultimately show ?thesis
      using True Some assms inls
      by (auto simp: represents_def keep_listener_def preferred_irrefl)
  qed
qed

lemma represents_fold: "represents ls (foldl keep_listener [] ls)"
proof (induction ls rule: rev_induct)
  case (snoc l ls)
  then show ?case using represents_keep by simp
qed (simp add: represents_def)

definition representatives :: "Listener list \<Rightarrow> Listener set" where
  "representatives ls = {l \<in> set ls. \<forall>x \<in> set ls. lkey x = lkey l \<longrightarrow> \<not> preferredListener x l}"

abbreviation listener_rank :: "Listener \<Rightarrow> u16 \<times> bytes" where
  "listener_rank l \<equiv> (ls_Port l, ls_Network l)"

lemma same_listener: "lkey a = lkey b \<Longrightarrow> ls_Host a = ls_Host b \<Longrightarrow> a = b" for a b :: Listener
  by simp

lemma represents_values:
  assumes "represents ls m"
  shows "snd ` set m = representatives ls"
proof (intro subset_antisym subsetI)
  fix l assume "l \<in> snd ` set m"
  then obtain k where "(k, l) \<in> set m" by auto
  with assms show "l \<in> representatives ls" unfolding represents_def representatives_def by blast
next
  fix l assume l: "l \<in> representatives ls"
  then have "lkey l \<in> lkey ` set ls" unfolding representatives_def by blast
  then have "lkey l \<in> fst ` set m" using assms unfolding represents_def by blast
  then obtain l' where m: "(lkey l, l') \<in> set m" by force
  then have l': "lkey l' = lkey l" "l' \<in> set ls" "\<not> preferredListener l l'"
    using assms l unfolding represents_def representatives_def by fastforce+
  then have "\<not> preferredListener l' l" using l unfolding representatives_def by blast
  with l' preferred_total [of l l'] have "l = l'" by (intro same_listener) auto
  with m show "l \<in> snd ` set m" by force
qed

lemma normalize_keys:
  shows "set (normalizeListeners ls) = representatives ls" and "sorted_wrt (<) (map listener_rank (normalizeListeners ls))"
proof -
  define m where "m = foldl keep_listener [] ls"
  have m: "represents ls m" unfolding m_def by (rule represents_fold)
  show "set (normalizeListeners ls) = representatives ls"
    using represents_values [OF m] by (simp add: normalizeListeners_def m_def)
  have "map fst m = map (lkey \<circ> snd) m" using m by (auto simp: represents_def)
  moreover have "distinct (map fst m)" using m by (simp only: represents_def)
  ultimately have "distinct (map lkey (map snd m))" by (simp only: map_map)
  then have "distinct (map listener_rank (map snd m))" by (auto simp: distinct_map inj_on_def)
  then have "distinct (map listener_rank (normalizeListeners ls))"
    unfolding normalizeListeners_def m_def [symmetric] by (simp only: distinct_map distinct_sort set_sort)
  moreover have "sorted (map listener_rank (normalizeListeners ls))" by (simp add: normalizeListeners_def)
  ultimately show "sorted_wrt (<) (map listener_rank (normalizeListeners ls))" by (simp only: strict_sorted_iff)
qed

lemma normalized_mset: "mset (normalizeListeners ls) = mset (map snd (foldl keep_listener [] ls))"
  by (simp only: normalizeListeners_def mset_sort)

lemma representatives_inj: "inj_on listener_rank (representatives ls)"
proof (rule inj_onI)
  fix a b assume a: "a \<in> representatives ls" "b \<in> representatives ls" "listener_rank a = listener_rank b"
  then have "\<not> preferredListener a b" "\<not> preferredListener b a" unfolding representatives_def by auto
  with preferred_total [of a b] a(3) show "a = b" by simp
qed

text \<open>Only one arrangement of the kept listeners is sorted, so neither the order of the map nor the sorting algorithm shows.\<close>

lemma normalized_unique:
  assumes "mset vs = mset (map snd (foldl keep_listener [] ls))" "sorted (map listener_rank vs)"
  shows "vs = normalizeListeners ls"
proof -
  have m: "mset vs = mset (normalizeListeners ls)" using assms(1) by (simp only: normalized_mset)
  have "sorted (map listener_rank (normalizeListeners ls))"
    using strict_sorted_imp_sorted [OF normalize_keys(2)] by blast
  moreover have "mset (map listener_rank vs) = mset (map listener_rank (normalizeListeners ls))" using m by (simp only: mset_map)
  ultimately have "map listener_rank vs = map listener_rank (normalizeListeners ls)"
    using properties_for_sort [OF _ assms(2), of "map listener_rank (normalizeListeners ls)"]
      sorted_sort_id [of "map listener_rank (normalizeListeners ls)"] by (simp only:)
  moreover have "inj_on listener_rank (set vs \<union> set (normalizeListeners ls))"
    using representatives_inj [of ls] mset_eq_setD [OF m] by (simp only: normalize_keys(1) Un_absorb)
  ultimately show ?thesis using map_inj_on by blast
qed

text \<open>
  C19: \<open>normalizeListeners\<close> keeps one listener per network and port, in strictly increasing order of port and
  network.  It is the one no other socket of that key is preferred to, so the result depends only
  on which sockets the tables hold, neither on their order nor on how often they appear; and however the map of the kept
  listeners is iterated and its values are sorted, the result is this one.
\<close>
theorem listeners_normalized:
  assumes "set rows = set ls"
  shows "set (normalizeListeners rows) = representatives ls
    \<and> sorted_wrt (<) (map listener_rank (normalizeListeners rows))
    \<and> normalizeListeners rows = normalizeListeners ls
    \<and> (\<forall>vs. mset vs = mset (map snd (foldl keep_listener [] rows)) \<and> sorted (map listener_rank vs)
          \<longrightarrow> vs = normalizeListeners ls)"
proof -
  have reps: "representatives rows = representatives ls" using assms by (simp only: representatives_def)
  have "map listener_rank (normalizeListeners rows) = map listener_rank (normalizeListeners ls)"
    by (rule strict_sorted_equal [OF normalize_keys(2) normalize_keys(2)])
      (simp only: set_map normalize_keys(1) reps)
  then have "normalizeListeners rows = normalizeListeners ls"
    using map_inj_on [of listener_rank "normalizeListeners rows" "normalizeListeners ls"] representatives_inj [of ls]
    by (simp only: normalize_keys(1) reps Un_absorb)
  with normalize_keys [of rows] reps normalized_unique [of _ rows] show ?thesis by simp
qed

definition sshd4 :: Listener where "sshd4 = \<lparr>ls_Network = str ''tcp4'', ls_Host = str ''10.0.0.2'', ls_Port = 22\<rparr>"
definition sshd_any :: Listener where "sshd_any = \<lparr>ls_Network = str ''tcp4'', ls_Host = str ''0.0.0.0'', ls_Port = 22\<rparr>"

theorem listeners_normalized_witness:
  "normalizeListeners [sshd4, sshd_any] = [sshd_any]
    \<and> normalizeListeners [sshd_any, sshd4, sshd_any] = normalizeListeners [sshd4, sshd_any]"
proof -
  have "normalizeListeners [sshd4, sshd_any] = [sshd_any]" by code_simp
  moreover have "set [sshd_any, sshd4, sshd_any] = set [sshd4, sshd_any]" by auto
  ultimately show ?thesis using listeners_normalized [of "[sshd_any, sshd4, sshd_any]" "[sshd4, sshd_any]"] by simp
qed

end
