(* ===== verification/AutoStatus.thy ===== *)
theory AutoStatus
  imports GoNet "HOL-Library.List_Lexorder" "HOL-Library.Product_Lexorder" "HOL-Library.AList"
begin

text \<open>
  The status document of the automatic forwards (src/internal/autoforward/status.go and the
  \<open>StatusStore\<close> of src/internal/autoforward/watcher.go).  Times are nanoseconds; \<open>parseTime\<close> stands for
  \<open>time.Parse(time.RFC3339Nano, _)\<close>, \<open>formatTime\<close> for the formatting of a time in UTC, \<open>marshal\<close> for
  the JSON encoder.  What the file system answers is an argument, and the directory of the status
  file is a map from names to contents.
\<close>

section \<open>Documents\<close>

record MappingStatus =
  ms_Network :: bytes
  ms_WindowsAddress :: bytes
  ms_WSLAddress :: bytes
  ms_State :: bytes
  ms_Error :: bytes
  ms_RetryAt :: bytes

record StatusDocument =
  sd_Version :: int
  sd_ProcessID :: int
  sd_UpdatedAt :: bytes
  sd_Mappings :: "MappingStatus list"

abbreviation StatusVersion :: int where "StatusVersion \<equiv> 1"
abbreviation MaxStatusDocumentSize :: int where "MaxStatusDocumentSize \<equiv> 1048576"
abbreviation StatusHeartbeatInterval :: int where "StatusHeartbeatInterval \<equiv> 30000000000"
abbreviation maxStatusError :: nat where "maxStatusError \<equiv> 4096"

definition wrap_err :: "bytes \<Rightarrow> goerr \<Rightarrow> goerr" where
  "wrap_err text err = ErrWrapped (text @ error_text err) err"

definition Itoa :: "int \<Rightarrow> bytes" where
  "Itoa i = (if i < 0 then 45 # decimal (nat (- i)) else decimal (nat i))"

definition validateStatusAddress :: "bytes \<Rightarrow> bool \<Rightarrow> goerr option" where
  "validateStatusAddress address allowZero =
     (case SplitHostPort address of
        Inl err \<Rightarrow> Some err
      | Inr (host, portText) \<Rightarrow>
          (case Atoi portText of
             None \<Rightarrow> Some (ErrText (str ''invalid port '' @ Quote portText))
           | Some port \<Rightarrow>
               if port < 0 \<or> 65535 < port \<or> (\<not> allowZero \<and> port = 0)
               then Some (ErrText (str ''invalid port '' @ Quote portText)) else None))"

definition validateMappingStatus :: "(bytes \<Rightarrow> int result) \<Rightarrow> MappingStatus \<Rightarrow> goerr option" where
  "validateMappingStatus parseTime mapping =
     (if ms_Network mapping \<notin> {str ''tcp4'', str ''tcp6'', str ''udp4'', str ''udp6''}
      then Some (ErrText (str ''unsupported network '' @ Quote (ms_Network mapping)))
      else case validateStatusAddress (ms_WindowsAddress mapping) (ms_State mapping = str ''rejected'') of
        Some err \<Rightarrow> Some (wrap_err (str ''invalid Windows address: '') err)
      | None \<Rightarrow>
      (case validateStatusAddress (ms_WSLAddress mapping) False of
        Some err \<Rightarrow> Some (wrap_err (str ''invalid WSL address: '') err)
      | None \<Rightarrow>
          if ms_State mapping = str ''active'' then
            if ms_Error mapping \<noteq> [] \<or> ms_RetryAt mapping \<noteq> []
            then Some (ErrText (str ''active mapping cannot contain error or retry_at'')) else None
          else if ms_State mapping = str ''rejected'' then
            if ms_Error mapping = [] then Some (ErrText (str ''rejected mapping must contain an error''))
            else if maxStatusError < length (ms_Error mapping)
            then Some (ErrText (str ''mapping error exceeds 4096 bytes''))
            else if ms_RetryAt mapping \<noteq> [] then
              (case parseTime (ms_RetryAt mapping) of
                 Inl err \<Rightarrow> Some (wrap_err (str ''retry_at is not RFC3339: '') err)
               | Inr t \<Rightarrow> None)
            else None
          else Some (ErrText (str ''unsupported state '' @ Quote (ms_State mapping)))))"

text \<open>The loop over the mappings, with the index of the first one.\<close>

fun validate_mappings :: "(bytes \<Rightarrow> int result) \<Rightarrow> nat \<Rightarrow> MappingStatus list \<Rightarrow> goerr option" where
  "validate_mappings parseTime index [] = None"
| "validate_mappings parseTime index (mapping # rest) =
     (case validateMappingStatus parseTime mapping of
        Some err \<Rightarrow> Some (wrap_err (str ''mapping '' @ decimal index @ str '': '') err)
      | None \<Rightarrow> validate_mappings parseTime (Suc index) rest)"

definition UpdatedTime :: "(bytes \<Rightarrow> int result) \<Rightarrow> StatusDocument \<Rightarrow> int result" where
  "UpdatedTime parseTime d =
     (case parseTime (sd_UpdatedAt d) of
        Inl err \<Rightarrow> Inl (wrap_err (str ''status updated_at is not RFC3339: '') err)
      | Inr t \<Rightarrow> Inr t)"

definition status_Validate :: "(bytes \<Rightarrow> int result) \<Rightarrow> StatusDocument \<Rightarrow> goerr option" where
  "status_Validate parseTime d =
     (if sd_Version d \<noteq> StatusVersion then Some (ErrText (str ''unsupported status version '' @ Itoa (sd_Version d)))
      else if sd_ProcessID d \<le> 0 then Some (ErrText (str ''status process_id must be positive''))
      else case UpdatedTime parseTime d of
        Inl err \<Rightarrow> Some err
      | Inr t \<Rightarrow> validate_mappings parseTime 0 (sd_Mappings d))"

text \<open>The two messages go on with durations, whose text is not modelled.\<close>

definition ValidateFresh :: "(bytes \<Rightarrow> int result) \<Rightarrow> StatusDocument \<Rightarrow> int \<Rightarrow> int \<Rightarrow> goerr option" where
  "ValidateFresh parseTime d now maxAge =
     (if maxAge \<le> 0 then Some (ErrText (str ''status maximum age must be positive''))
      else case UpdatedTime parseTime d of
        Inl err \<Rightarrow> Some err
      | Inr updated \<Rightarrow>
          let age = now - updated in
          if maxAge < age then Some (ErrText (str ''status is stale''))
          else if age < - StatusHeartbeatInterval then Some (ErrText (str ''status timestamp is in the future''))
          else None)"

section \<open>Reading\<close>

text \<open>
  The answers of the file system to \<open>ReadStatus\<close>: \<open>Lstat\<close> (is it a symbolic link, a regular file, its
  size), \<open>Open\<close>, \<open>Stat\<close> (is it regular, is it the same file), the bytes \<open>ReadAll\<close> delivers, and the two
  calls of the JSON decoder.
\<close>

record statusFile =
  sf_lstat :: "(bool \<times> bool \<times> int) result"
  sf_open :: "goerr option"
  sf_stat :: "(bool \<times> bool) result"
  sf_read :: "bytes result"
  sf_decode :: "bytes \<Rightarrow> StatusDocument result"
  sf_extra :: "bytes \<Rightarrow> goerr option"

definition ReadStatus :: "(bytes \<Rightarrow> int result) \<Rightarrow> bytes \<Rightarrow> statusFile \<Rightarrow> StatusDocument result" where
  "ReadStatus parseTime path f =
     rbind (sf_lstat f) (\<lambda>(symlink, regular, fileSize).
       if symlink \<or> \<not> regular then Inl (ErrText (str ''status path is not a regular file: '' @ path))
       else if MaxStatusDocumentSize < fileSize then Inl (ErrText (str ''status document exceeds 1048576 bytes''))
       else case sf_open f of
         Some err \<Rightarrow> Inl err
       | None \<Rightarrow>
           rbind (sf_stat f) (\<lambda>(openedRegular, same).
             if \<not> openedRegular \<or> \<not> same then Inl (ErrText (str ''status file changed while opening''))
             else rbind (sf_read f) (\<lambda>content.
               let data = take (nat (MaxStatusDocumentSize + 1)) content in
               if MaxStatusDocumentSize < int (length data)
               then Inl (ErrText (str ''status document exceeds 1048576 bytes''))
               else case sf_decode f data of
                 Inl err \<Rightarrow> Inl (wrap_err (str ''decode status document: '') err)
               | Inr document \<Rightarrow>
                   if (case sf_extra f data of None \<Rightarrow> True | Some err \<Rightarrow> \<not> err_is err IoEOF)
                   then Inl (ErrText (str ''status file must contain exactly one JSON object''))
                   else (case status_Validate parseTime document of
                       Some err \<Rightarrow> Inl err
                     | None \<Rightarrow> Inr document))))"

section \<open>Writing\<close>

text \<open>
  \<open>writeStatusFile\<close>: the outcomes of \<open>CreateTemp\<close> (the name it chose), \<open>Chmod\<close>, \<open>Write\<close> (how much was
  written), \<open>Sync\<close>, \<open>Close\<close> and \<open>Rename\<close>.  The deferred \<open>Remove\<close> of the temporary file may fail, too, and its error is
  ignored; after a successful \<open>Rename\<close> there is nothing left to remove.
\<close>

type_synonym directory = "bytes \<rightharpoonup> bytes"

record writeOutcome =
  wo_temp :: "bytes result"
  wo_chmod :: "goerr option"
  wo_write :: "nat \<times> goerr option"
  wo_sync :: "goerr option"
  wo_close :: "goerr option"
  wo_rename :: "goerr option"
  wo_removeFails :: bool

definition writeStatusFile :: "directory \<Rightarrow> bytes \<Rightarrow> bytes \<Rightarrow> writeOutcome \<Rightarrow> directory \<times> goerr option" where
  "writeStatusFile fs path data o' =
     (case wo_temp o' of
        Inl err \<Rightarrow> (fs, Some err)
      | Inr temporary \<Rightarrow>
          let remove = (\<lambda>d. if wo_removeFails o' then d else d(temporary := None)); fs0 = fs(temporary \<mapsto> []) in
          (case wo_chmod o' of
             Some err \<Rightarrow> (remove fs0, Some err)
           | None \<Rightarrow>
               let fs1 = fs0(temporary \<mapsto> take (fst (wo_write o')) data) in
               (case snd (wo_write o') of
                  Some err \<Rightarrow> (remove fs1, Some err)
                | None \<Rightarrow>
                    let fs2 = fs0(temporary \<mapsto> data) in
                    (case wo_sync o' of
                       Some err \<Rightarrow> (remove fs2, Some err)
                     | None \<Rightarrow>
                         (case wo_close o' of
                            Some err \<Rightarrow> (remove fs2, Some err)
                          | None \<Rightarrow>
                              (case wo_rename o' of
                                 Some err \<Rightarrow> (remove fs2, Some err)
                               | None \<Rightarrow> (remove ((fs2(temporary := None))(path \<mapsto> data)), None)))))))"

section \<open>The store\<close>

record StatusStore =
  ss_path :: bytes
  ss_processID :: int
  ss_owners :: "(bytes \<times> MappingStatus list) list"
  ss_last :: "MappingStatus list"
  ss_hasLast :: bool
  ss_lastWrite :: int

definition NewStatusStore :: "bytes \<Rightarrow> int \<Rightarrow> StatusStore" where
  "NewStatusStore path pid =
     \<lparr>ss_path = path, ss_processID = pid, ss_owners = [], ss_last = [], ss_hasLast = False, ss_lastWrite = 0\<rparr>"

fun equalMappingStatuses :: "MappingStatus list \<Rightarrow> MappingStatus list \<Rightarrow> bool" where
  "equalMappingStatuses [] [] \<longleftrightarrow> True"
| "equalMappingStatuses (x # xs) (y # ys) \<longleftrightarrow> x = y \<and> equalMappingStatuses xs ys"
| "equalMappingStatuses _ _ \<longleftrightarrow> False"

text \<open>
  The order of the document.  \<open>sort.Slice\<close> may order mappings that agree in all four fields either
  way; here they keep the order in which the owners are visited.
\<close>

definition status_rank :: "MappingStatus \<Rightarrow> bytes \<times> bytes \<times> bytes \<times> bytes" where
  "status_rank m = (ms_Network m, ms_WindowsAddress m, ms_WSLAddress m, ms_State m)"

definition merged :: "StatusStore \<Rightarrow> MappingStatus list" where
  "merged s = sort_key status_rank (concat (map snd (ss_owners s)))"

text \<open>
  The surroundings of a write: the clock, the two time functions, the JSON encoder, what \<open>os.Stat\<close> of
  the path answers, the outcome of the write and of the removal of the file.
\<close>

record storeEnv =
  se_now :: int
  se_parseTime :: "bytes \<Rightarrow> int result"
  se_formatTime :: "int \<Rightarrow> bytes"
  se_marshal :: "StatusDocument \<Rightarrow> bytes result"
  se_stat :: "goerr option"
  se_write :: writeOutcome
  se_remove :: "goerr option"

definition store_document :: "storeEnv \<Rightarrow> StatusStore \<Rightarrow> StatusDocument" where
  "store_document env s =
     \<lparr>sd_Version = StatusVersion, sd_ProcessID = ss_processID s, sd_UpdatedAt = se_formatTime env (se_now env),
      sd_Mappings = merged s\<rparr>"

definition store_write :: "storeEnv \<Rightarrow> directory \<Rightarrow> StatusStore \<Rightarrow> directory \<times> StatusStore \<times> goerr option" where
  "store_write env fs s =
     (case se_marshal env (store_document env s) of
        Inl err \<Rightarrow> (fs, s, Some err)
      | Inr data \<Rightarrow>
          (case writeStatusFile fs (ss_path s) (data @ [10]) (se_write env) of
             (fs1, Some err) \<Rightarrow> (fs1, s, Some err)
           | (fs1, None) \<Rightarrow>
               (fs1, s\<lparr>ss_last := merged s, ss_hasLast := True, ss_lastWrite := se_now env\<rparr>, None)))"

definition writeLocked :: "storeEnv \<Rightarrow> directory \<Rightarrow> StatusStore \<Rightarrow> directory \<times> StatusStore \<times> goerr option" where
  "writeLocked env fs s =
     (case validate_mappings (se_parseTime env) 0 (merged s) of
        Some err \<Rightarrow> (fs, s, Some err)
      | None \<Rightarrow>
          if ss_hasLast s \<and> equalMappingStatuses (ss_last s) (merged s) \<and> \<not> se_now env < ss_lastWrite s
             \<and> se_now env - ss_lastWrite s < StatusHeartbeatInterval
          then (case se_stat env of
                  None \<Rightarrow> (fs, s, None)
                | Some err \<Rightarrow> if err_is err OsErrNotExist then store_write env fs s else (fs, s, Some err))
          else store_write env fs s)"

definition Publish ::
  "storeEnv \<Rightarrow> directory \<Rightarrow> StatusStore \<Rightarrow> bytes \<Rightarrow> MappingStatus list \<Rightarrow> directory \<times> StatusStore \<times> goerr option" where
  "Publish env fs s owner mappings =
     (if ss_path s = [] then (fs, s, None)
      else writeLocked env fs (s\<lparr>ss_owners := AList.update owner mappings (ss_owners s)\<rparr>))"

definition Clear :: "storeEnv \<Rightarrow> directory \<Rightarrow> StatusStore \<Rightarrow> bytes \<Rightarrow> directory \<times> StatusStore \<times> goerr option" where
  "Clear env fs s owner =
     (if ss_path s = [] then (fs, s, None)
      else
        let s1 = s\<lparr>ss_owners := AList.delete owner (ss_owners s)\<rparr> in
        if ss_owners s1 = [] then
          (case se_remove env of
             Some err \<Rightarrow>
               if err_is err OsErrNotExist
               then (fs, s1\<lparr>ss_last := [], ss_hasLast := False, ss_lastWrite := 0\<rparr>, None)
               else (fs, s1, Some err)
           | None \<Rightarrow>
               (fs(ss_path s := None), s1\<lparr>ss_last := [], ss_hasLast := False, ss_lastWrite := 0\<rparr>, None))
        else writeLocked env fs s1)"

section \<open>Atomic, valid documents\<close>

text \<open>\<open>CreateTemp\<close> chooses a name that is not in use.\<close>

definition fresh_temp :: "directory \<Rightarrow> bytes \<Rightarrow> writeOutcome \<Rightarrow> bool" where
  "fresh_temp fs path o' \<longleftrightarrow> (case wo_temp o' of Inl err \<Rightarrow> True | Inr t \<Rightarrow> t \<noteq> path \<and> fs t = None)"

text \<open>A failed write may leave its temporary file, when that cannot be removed, and nothing else.\<close>

definition left_behind :: "writeOutcome \<Rightarrow> directory \<Rightarrow> directory \<Rightarrow> bool" where
  "left_behind o' fs fs' \<longleftrightarrow>
     fs' = fs \<or> wo_removeFails o' \<and> (\<exists>temporary content. wo_temp o' = Inr temporary \<and> fs' = fs(temporary \<mapsto> content))"

lemma left_behind_refl [simp]: "left_behind o' fs fs"
  by (simp add: left_behind_def)

lemma left_behind_path: "left_behind o' fs fs' \<Longrightarrow> fresh_temp fs path o' \<Longrightarrow> fs' path = fs path"
  by (auto simp: left_behind_def fresh_temp_def)

lemma writeStatusFile_atomic:
  assumes "fresh_temp fs path o'" and "writeStatusFile fs path data o' = (fs', r)"
  shows "case r of None \<Rightarrow> fs' = fs(path \<mapsto> data) | Some err \<Rightarrow> left_behind o' fs fs'"
proof (cases "wo_temp o'")
  case (Inl err)
  with assms(2) show ?thesis by (auto simp: writeStatusFile_def)
next
  case (Inr t)
  with assms(1) have t: "t \<noteq> path" "fs t = None" by (auto simp: fresh_temp_def)
  then have gone: "fs(t := None) = fs" "fs(path \<mapsto> data, t := None) = fs(path \<mapsto> data)" by (auto simp: fun_eq_iff)
  show ?thesis
    using assms(2) unfolding writeStatusFile_def Inr sum.case Let_def fun_upd_upd gone
    by (auto simp: left_behind_def Inr split: option.splits if_splits)
qed

lemma equalMappingStatuses_eq: "equalMappingStatuses xs ys \<longleftrightarrow> xs = ys"
  by (induction xs ys rule: equalMappingStatuses.induct) auto

lemma validate_mappings_iff:
  "validate_mappings parseTime i ms = None \<longleftrightarrow> (\<forall>m \<in> set ms. validateMappingStatus parseTime m = None)"
  by (induction parseTime i ms rule: validate_mappings.induct) (auto split: option.splits)

text \<open>The bytes of a document of the store that was written at a given time.\<close>

definition document_bytes ::
  "(StatusDocument \<Rightarrow> bytes result) \<Rightarrow> (int \<Rightarrow> bytes) \<Rightarrow> StatusStore \<Rightarrow> MappingStatus list \<Rightarrow> int \<Rightarrow> bytes \<Rightarrow> bool" where
  "document_bytes marshal formatTime s ms t content \<longleftrightarrow>
     (\<exists>data. content = data @ [10] \<and> marshal \<lparr>sd_Version = StatusVersion, sd_ProcessID = ss_processID s,
        sd_UpdatedAt = formatTime t, sd_Mappings = ms\<rparr> = Inr data)"

definition store_inv :: "(StatusDocument \<Rightarrow> bytes result) \<Rightarrow> (int \<Rightarrow> bytes) \<Rightarrow> directory \<Rightarrow> StatusStore \<Rightarrow> bool" where
  "store_inv marshal formatTime fs s \<longleftrightarrow>
     (ss_hasLast s \<longrightarrow> (\<exists>content. fs (ss_path s) = Some content
        \<and> document_bytes marshal formatTime s (ss_last s) (ss_lastWrite s) content))"

abbreviation env_inv :: "storeEnv \<Rightarrow> directory \<Rightarrow> StatusStore \<Rightarrow> bool" where
  "env_inv env \<equiv> store_inv (se_marshal env) (se_formatTime env)"

text \<open>What a successful and a failed write leave behind.\<close>

definition write_result :: "storeEnv \<Rightarrow> directory \<Rightarrow> StatusStore \<Rightarrow> directory \<Rightarrow> goerr option \<Rightarrow> bool" where
  "write_result env fs s fs' r \<longleftrightarrow>
     (case r of
        Some err \<Rightarrow> left_behind (se_write env) fs fs'
      | None \<Rightarrow> (\<forall>m \<in> set (merged s). validateMappingStatus (se_parseTime env) m = None)
          \<and> (\<exists>t content. t \<le> se_now env \<and> se_now env - t < StatusHeartbeatInterval
               \<and> document_bytes (se_marshal env) (se_formatTime env) s (merged s) t content
               \<and> fs' = fs(ss_path s \<mapsto> content)))"

lemma store_write_result:
  assumes "env_inv env fs s" and "fresh_temp fs (ss_path s) (se_write env)"
    and "\<forall>m \<in> set (merged s). validateMappingStatus (se_parseTime env) m = None"
    and "store_write env fs s = (fs', s', r)"
  shows "env_inv env fs' s' \<and> ss_owners s' = ss_owners s \<and> ss_path s' = ss_path s \<and> write_result env fs s fs' r"
proof (cases "se_marshal env (store_document env s)")
  case (Inl err)
  with assms show ?thesis by (auto simp: store_write_def write_result_def)
next
  case (Inr data)
  obtain fs1 q where w: "writeStatusFile fs (ss_path s) (data @ [10]) (se_write env) = (fs1, q)" by fastforce
  note fs1 = writeStatusFile_atomic [OF assms(2) w]
  show ?thesis
  proof (cases q)
    case (Some err)
    have "fs1 (ss_path s) = fs (ss_path s)" using left_behind_path [OF _ assms(2)] fs1 Some by simp
    with Some assms w Inr fs1 show ?thesis by (auto simp: store_write_def write_result_def store_inv_def)
  next
    case None
    have "document_bytes (se_marshal env) (se_formatTime env) s (merged s) (se_now env) (data @ [10])"
      using Inr by (auto simp: document_bytes_def store_document_def)
    with None assms w Inr fs1 show ?thesis
      by (auto simp: store_write_def write_result_def store_inv_def document_bytes_def intro!: exI [of _ "se_now env"])
  qed
qed

lemma writeLocked_result:
  assumes "env_inv env fs s" and "fresh_temp fs (ss_path s) (se_write env)" and "writeLocked env fs s = (fs', s', r)"
  shows "env_inv env fs' s' \<and> ss_owners s' = ss_owners s \<and> ss_path s' = ss_path s \<and> write_result env fs s fs' r"
proof (cases "validate_mappings (se_parseTime env) 0 (merged s)")
  case (Some err)
  from assms(3) [unfolded writeLocked_def Some option.case] assms(1) show ?thesis by (auto simp: write_result_def)
next
  case None
  then have ok: "\<forall>m \<in> set (merged s). validateMappingStatus (se_parseTime env) m = None"
    by (simp add: validate_mappings_iff)
  note wr = store_write_result [OF assms(1,2) ok, of fs' s' r]
  show ?thesis
  proof (cases "ss_hasLast s \<and> ss_last s = merged s \<and> \<not> se_now env < ss_lastWrite s
      \<and> se_now env - ss_lastWrite s < StatusHeartbeatInterval \<and> se_stat env = None")
    case True
    then obtain content where "fs (ss_path s) = Some content"
      "document_bytes (se_marshal env) (se_formatTime env) s (merged s) (ss_lastWrite s) content"
      using assms(1) by (auto simp: store_inv_def)
    with True None assms(1,3) ok show ?thesis
      by (auto simp: writeLocked_def write_result_def equalMappingStatuses_eq fun_upd_idem
          intro!: exI [of _ "ss_lastWrite s"] exI [of _ content])
  next
    case False
    with None assms wr show ?thesis
      by (auto simp: writeLocked_def equalMappingStatuses_eq write_result_def split: if_splits option.splits)
  qed
qed

lemma store_inv_owners: "store_inv m f fs (s\<lparr>ss_owners := x\<rparr>) = store_inv m f fs s"
  by (simp add: store_inv_def document_bytes_def)

text \<open>The operations of the watchers on a store, with any outcome of the file system.\<close>

inductive store_reach ::
  "(StatusDocument \<Rightarrow> bytes result) \<Rightarrow> (int \<Rightarrow> bytes) \<Rightarrow> directory \<Rightarrow> StatusStore \<Rightarrow> bool" for marshal formatTime where
  start: "store_reach marshal formatTime fs (NewStatusStore path pid)"
| publish: "store_reach marshal formatTime fs' s'"
    if "store_reach marshal formatTime fs s" "fresh_temp fs (ss_path s) (se_write env)"
      "se_marshal env = marshal" "se_formatTime env = formatTime" "Publish env fs s owner ms = (fs', s', r)"
| clear: "store_reach marshal formatTime fs' s'"
    if "store_reach marshal formatTime fs s" "fresh_temp fs (ss_path s) (se_write env)"
      "se_marshal env = marshal" "se_formatTime env = formatTime" "Clear env fs s owner = (fs', s', r)"

lemma Publish_result:
  assumes "env_inv env fs s" and "fresh_temp fs (ss_path s) (se_write env)" and "Publish env fs s owner ms = (fs', s', r)"
  shows "env_inv env fs' s' \<and> (ss_path s \<noteq> [] \<longrightarrow> ss_owners s' = AList.update owner ms (ss_owners s)
    \<and> write_result env fs (s\<lparr>ss_owners := AList.update owner ms (ss_owners s)\<rparr>) fs' r)"
proof (cases "ss_path s = []")
  case False
  let ?s = "s\<lparr>ss_owners := AList.update owner ms (ss_owners s)\<rparr>"
  have "writeLocked env fs ?s = (fs', s', r)" using False assms(3) by (simp add: Publish_def)
  with writeLocked_result [of env fs ?s fs' s' r] assms(1,2) show ?thesis by (simp add: store_inv_owners)
qed (use assms in \<open>auto simp: Publish_def\<close>)

lemma Clear_inv:
  assumes "env_inv env fs s" and "fresh_temp fs (ss_path s) (se_write env)" and "Clear env fs s owner = (fs', s', r)"
  shows "env_inv env fs' s'"
proof (cases "ss_path s = [] \<or> AList.delete owner (ss_owners s) = []")
  case True
  with assms show ?thesis
    by (auto simp: Clear_def Let_def store_inv_def document_bytes_def split: if_splits option.splits)
next
  case False
  let ?s = "s\<lparr>ss_owners := AList.delete owner (ss_owners s)\<rparr>"
  have "writeLocked env fs ?s = (fs', s', r)" using False assms(3) by (simp add: Clear_def Let_def)
  with writeLocked_result [of env fs ?s fs' s' r] assms(1,2) show ?thesis by (simp add: store_inv_owners)
qed

lemma store_reach_inv: "store_reach marshal formatTime fs s \<Longrightarrow> store_inv marshal formatTime fs s"
proof (induction rule: store_reach.induct)
  case (start fs path pid)
  show ?case by (simp add: store_inv_def NewStatusStore_def)
next
  case (publish fs s env owner ms fs' s' r)
  with Publish_result [of env fs s owner ms fs' s' r] show ?case by simp
next
  case (clear fs s env owner fs' s' r)
  with Clear_inv [of env fs s owner fs' s' r] show ?case by simp
qed

text \<open>
  C21: publishing a status is atomic.  Whatever was published and cleared before and whatever the file
  system does, a successful \<open>Publish\<close> leaves one complete document in the status file that holds the
  mappings of all owners, each of them valid, and is younger than the heartbeat, and changes no other file; a
  failed one leaves every file as it was, and at most its temporary file is left over, when the system refuses to
  remove that.
\<close>

theorem status_publish_atomic:
  assumes "store_reach (se_marshal env) (se_formatTime env) fs s" and "ss_path s \<noteq> []"
    and "fresh_temp fs (ss_path s) (se_write env)" and "Publish env fs s owner ms = (fs', s', r)"
  shows "write_result env fs (s\<lparr>ss_owners := AList.update owner ms (ss_owners s)\<rparr>) fs' r"
  using Publish_result [OF store_reach_inv [OF assms(1)] assms(3,4)] assms(2) by simp

definition sample_env :: storeEnv where
  "sample_env = \<lparr>se_now = 5, se_parseTime = (\<lambda>s. Inr 0), se_formatTime = (\<lambda>t. decimal (nat t)),
     se_marshal = (\<lambda>d. Inr (sd_UpdatedAt d)), se_stat = None,
     se_write = \<lparr>wo_temp = Inr (str ''.s.tmp-1''), wo_chmod = None, wo_write = (2, None), wo_sync = None,
        wo_close = None, wo_rename = None, wo_removeFails = True\<rparr>, se_remove = None\<rparr>"

definition sample_mapping :: MappingStatus where
  "sample_mapping = \<lparr>ms_Network = str ''tcp4'', ms_WindowsAddress = str ''127.0.0.1:80'',
     ms_WSLAddress = str ''127.0.0.1:80'', ms_State = str ''active'', ms_Error = [], ms_RetryAt = []\<rparr>"

theorem status_publish_atomic_witness:
  "\<exists>fs' s'. Publish sample_env Map.empty (NewStatusStore (str ''s'') 1) (str ''tcp'') [sample_mapping] = (fs', s', None)
     \<and> fs' (str ''s'') = Some (decimal 5 @ [10])
     \<and> write_result sample_env Map.empty
         ((NewStatusStore (str ''s'') 1)\<lparr>ss_owners := [(str ''tcp'', [sample_mapping])]\<rparr>) fs' None"
proof -
  let ?s = "NewStatusStore (str ''s'') 1"
  have path: "ss_path ?s \<noteq> []" "fresh_temp Map.empty (ss_path ?s) (se_write sample_env)"
    by (simp_all add: NewStatusStore_def fresh_temp_def sample_env_def) (simp add: str_def)
  obtain fs' s' where pub: "Publish sample_env Map.empty ?s (str ''tcp'') [sample_mapping] = (fs', s', None)"
      "fs' (str ''s'') = Some (decimal 5 @ [10])"
  proof -
    have "validateMappingStatus (se_parseTime sample_env) sample_mapping = None" by code_simp
    then show ?thesis
      using that by (simp add: Publish_def writeLocked_def merged_def store_write_def NewStatusStore_def sample_env_def
          writeStatusFile_def Let_def store_document_def)
  qed
  from status_publish_atomic [OF store_reach.start path pub(1)] pub show ?thesis by (simp add: NewStatusStore_def)
qed

end
