(* ===== verification/AutoWatch.thy ===== *)
theory AutoWatch
  imports AutoScan AutoStatus Diagnostic
begin

text \<open>
  The watcher of automatic forwards (src/internal/autoforward/watcher.go).  The maps of the watcher
  are association lists in some order of iteration.  A handle of a Windows mapping is a number, and
  \<open>w_closed\<close> logs the handles that were closed.  The context of a round of attempts is named by its
  attempt number, and \<open>w_cancelled\<close> holds the contexts that were cancelled.

  The goroutines of a round, \<open>Reset\<close> and the loop of \<open>Run\<close> interleave: each critical section is an
  operation here, and \<open>AutoWatchSteps\<close> has the step relation.
\<close>

section \<open>Configuration\<close>

record watcherConfig =
  wc_WindowsHost :: bytes
  wc_WindowsHost6 :: bytes
  wc_PortOffset :: int
  wc_PortAuto :: bool
  wc_Included :: "u16 list"
  wc_Excluded :: "u16 list"
  wc_RetryMin :: int
  wc_RetryMax :: int

text \<open>The defaults that \<open>Run\<close> fills in; durations are nanoseconds.\<close>

definition ensureRetryPolicy :: "watcherConfig \<Rightarrow> watcherConfig" where
  "ensureRetryPolicy w =
     (let w1 = (if wc_RetryMin w \<le> 0 then w\<lparr>wc_RetryMin := 1000000000\<rparr> else w);
          w2 = (if wc_RetryMax w1 \<le> 0 then w1\<lparr>wc_RetryMax := 30000000000\<rparr> else w1)
      in if wc_RetryMax w2 < wc_RetryMin w2 then w2\<lparr>wc_RetryMax := wc_RetryMin w2\<rparr> else w2)"

definition run_defaults :: "watcherConfig \<Rightarrow> watcherConfig" where
  "run_defaults w =
     (let w1 = (if wc_WindowsHost w = [] then w\<lparr>wc_WindowsHost := str ''127.0.0.1''\<rparr> else w);
          w2 = (if wc_WindowsHost6 w1 = [] then w1\<lparr>wc_WindowsHost6 := str ''::1''\<rparr> else w1)
      in ensureRetryPolicy w2)"

text \<open>The doubling loop of \<open>retryDelay\<close>; \<open>n\<close> is the number of rounds left.\<close>

fun delay_loop :: "int \<Rightarrow> nat \<Rightarrow> int \<Rightarrow> int" where
  "delay_loop maxDelay 0 delay = (if maxDelay < delay then maxDelay else delay)"
| "delay_loop maxDelay (Suc n) delay =
     (if delay < maxDelay
      then (if maxDelay div 2 < delay then maxDelay else delay_loop maxDelay n (delay * 2))
      else if maxDelay < delay then maxDelay else delay)"

definition retryDelay :: "watcherConfig \<Rightarrow> int \<Rightarrow> int" where
  "retryDelay w failures =
     (if wc_RetryMin w \<le> 0 \<or> wc_RetryMax w \<le> 0 then 0
      else delay_loop (wc_RetryMax w) (nat (failures - 1)) (wc_RetryMin w))"

definition windowsPort :: "watcherConfig \<Rightarrow> Listener \<Rightarrow> int" where
  "windowsPort w listener = (if wc_PortAuto w then 0 else uint (ls_Port listener) + wc_PortOffset w)"

definition mappingAddresses :: "watcherConfig \<Rightarrow> Listener \<Rightarrow> bytes \<times> bytes" where
  "mappingAddresses w listener =
     (let six = HasSuffix (ls_Network listener) (str ''6'');
          windowsHost = (if six then wc_WindowsHost6 w else wc_WindowsHost w);
          wslHost =
            (if six then (if ls_Host listener = [] \<or> ls_Host listener = str ''::'' then str ''::1'' else ls_Host listener)
             else if HasSuffix (ls_Network listener) (str ''4'') \<and> (ls_Host listener = [] \<or> ls_Host listener = str ''0.0.0.0'')
             then str ''127.0.0.1'' else ls_Host listener)
      in (JoinHostPort windowsHost (Itoa (windowsPort w listener)), JoinHostPort wslHost (decimal (unat (ls_Port listener)))))"

definition validateAllocatedAddress :: "bytes \<Rightarrow> goerr option" where
  "validateAllocatedAddress address =
     (case SplitHostPort address of
        Inl err \<Rightarrow> Some (wrap_err (str ''relay returned invalid Windows bound address '' @ Quote address @ str '': '') err)
      | Inr (host, rawPort) \<Rightarrow>
          (case ParseUint rawPort 10 16 of
             None \<Rightarrow> Some (ErrText (str ''relay returned invalid Windows bound address '' @ Quote address))
           | Some port \<Rightarrow>
               if port = 0 then Some (ErrText (str ''relay returned invalid Windows bound address '' @ Quote address))
               else None))"

definition boundedStatusError :: "goerr \<Rightarrow> bytes" where
  "boundedStatusError err = UTF8 (error_text err) (int maxStatusError)"

section \<open>State\<close>

type_synonym listenerKey = "bytes \<times> u16"

record activeMapping =
  am_listener :: Listener
  am_windowsAddress :: bytes
  am_wslAddress :: bytes
  am_closer :: nat
  am_epoch :: nat

text \<open>\<open>am_epoch\<close> is not in the code: it counts the resets before the round that opened the mapping.\<close>

record watcher =
  w_active :: "(listenerKey \<times> activeMapping) list"
  w_rejected :: "listenerKey list"
  w_rejectedAt :: "(listenerKey \<times> Listener) list"
  w_rejectedError :: "(listenerKey \<times> bytes) list"
  w_retryAfter :: "(listenerKey \<times> int) list"
  w_retryFailures :: "(listenerKey \<times> int) list"
  w_generation :: u64
  w_attemptID :: u64
  w_attemptCancel :: "u64 option"
  w_cancelled :: "u64 list"
  w_closed :: "nat list"

definition newWatcher :: watcher where
  "newWatcher = \<lparr>w_active = [], w_rejected = [], w_rejectedAt = [], w_rejectedError = [], w_retryAfter = [],
     w_retryFailures = [], w_generation = 0, w_attemptID = 0, w_attemptCancel = None, w_cancelled = [], w_closed = []\<rparr>"

definition closeMapping :: "nat option \<Rightarrow> watcher \<Rightarrow> watcher" where
  "closeMapping closer w = (case closer of None \<Rightarrow> w | Some h \<Rightarrow> w\<lparr>w_closed := w_closed w @ [h]\<rparr>)"

definition cancel_attempt :: "u64 option \<Rightarrow> watcher \<Rightarrow> watcher" where
  "cancel_attempt c w = (case c of None \<Rightarrow> w | Some i \<Rightarrow> w\<lparr>w_cancelled := i # w_cancelled w\<rparr>)"

text \<open>The five \<open>delete\<close> calls that forget a rejection.\<close>

definition forget :: "watcher \<Rightarrow> listenerKey \<Rightarrow> watcher" where
  "forget w key =
     w\<lparr>w_rejected := removeAll key (w_rejected w), w_rejectedAt := AList.delete key (w_rejectedAt w),
       w_rejectedError := AList.delete key (w_rejectedError w), w_retryAfter := AList.delete key (w_retryAfter w),
       w_retryFailures := AList.delete key (w_retryFailures w)\<rparr>"

text \<open>
  The start of \<open>Watcher.Run\<close>: the configuration with its defaults and a watcher with empty maps (the
  counters are kept).  \<open>DatagramWatcher.Run\<close> starts such a watcher over adapters of its scanner and
  opener; its \<open>Reset\<close> resets the running one.
\<close>

definition watcher_Run :: "bool \<Rightarrow> watcherConfig \<Rightarrow> watcher \<Rightarrow> (watcherConfig \<times> watcher) result" where
  "watcher_Run missing cfg w =
     (if missing then Inl (ErrText (str ''scanner and opener are required''))
      else Inr (run_defaults cfg,
        w\<lparr>w_active := [], w_rejected := [], w_rejectedAt := [], w_rejectedError := [], w_retryAfter := [],
          w_retryFailures := []\<rparr>))"

definition datagram_Run :: "bool \<Rightarrow> watcherConfig \<Rightarrow> (watcherConfig \<times> watcher) result" where
  "datagram_Run missing cfg =
     (if missing then Inl (ErrText (str ''datagram scanner and opener are required''))
      else watcher_Run False cfg newWatcher)"

section \<open>Rounds\<close>

text \<open>The listeners a scan asks for.\<close>

definition desired_of :: "watcherConfig \<Rightarrow> Listener list \<Rightarrow> (listenerKey \<times> Listener) list" where
  "desired_of cfg listeners =
     foldl (\<lambda>desired l.
        if wc_Included cfg \<noteq> [] \<and> ls_Port l \<notin> set (wc_Included cfg) then desired
        else if ls_Port l \<in> set (wc_Excluded cfg) then desired
        else AList.update (lkey l) l desired) [] listeners"

text \<open>
  The first critical section of \<open>sync\<close> with the closing of the removed mappings; the flag says whether
  the status has to be published.
\<close>

definition sync_prune :: "(listenerKey \<times> Listener) list \<Rightarrow> watcher \<Rightarrow> watcher \<times> bool" where
  "sync_prune desired w =
     (let removed = filter (\<lambda>(k, m). map_of desired k \<noteq> Some (am_listener m)) (w_active w);
          w1 = foldl forget (w\<lparr>w_active := filter (\<lambda>(k, m). map_of desired k = Some (am_listener m)) (w_active w)\<rparr>)
                 (map fst removed);
          dropped = filter (\<lambda>(k, l). map_of desired k \<noteq> Some l) (w_rejectedAt w1);
          w2 = foldl forget w1 (map fst dropped)
      in (foldl (\<lambda>w h. closeMapping (Some h) w) w2 (map (am_closer \<circ> snd) removed), removed \<noteq> [] \<or> dropped \<noteq> []))"

definition sync_begin :: "watcher \<Rightarrow> watcher \<times> u64" where
  "sync_begin w =
     (let i = w_attemptID w + 1
      in (cancel_attempt (w_attemptCancel w) (w\<lparr>w_attemptID := i, w_attemptCancel := Some i\<rparr>), i))"

record mappingAttempt =
  ma_key :: listenerKey
  ma_listener :: Listener
  ma_generation :: u64
  ma_epoch :: nat

text \<open>Whether a desired listener is attempted in this round; \<open>ma_epoch\<close> is the counterpart of \<open>am_epoch\<close>.\<close>

definition sync_consider :: "watcher \<Rightarrow> int \<Rightarrow> nat \<Rightarrow> listenerKey \<times> Listener \<Rightarrow> mappingAttempt option" where
  "sync_consider w now epoch x =
     (case x of (key, listener) \<Rightarrow>
        if (case map_of (w_active w) key of None \<Rightarrow> False | Some m \<Rightarrow> am_listener m = listener) then None
        else if (case map_of (w_retryAfter w) key of None \<Rightarrow> False | Some retryAt \<Rightarrow> now < retryAt) then None
        else Some \<lparr>ma_key = key, ma_listener = listener, ma_generation = w_generation w, ma_epoch = epoch\<rparr>)"

definition sync_end :: "u64 \<Rightarrow> watcher \<Rightarrow> watcher" where
  "sync_end i w =
     (let w1 = cancel_attempt (Some i) w in if w_attemptID w1 = i then w1\<lparr>w_attemptCancel := None\<rparr> else w1)"

section \<open>Opening one mapping\<close>

text \<open>
  The first part of \<open>openOne\<close> up to the return of the opener, whose answer is a handle or \<open>nil\<close>, an error,
  and the bound address if the handle reports one.  The result has the handle, the error and the
  Windows address.
\<close>

type_synonym openerAnswer = "nat option \<times> goerr option \<times> bytes option"

definition calls_opener :: "watcherConfig \<Rightarrow> Listener \<Rightarrow> bool" where
  "calls_opener cfg listener \<longleftrightarrow>
     wc_PortAuto cfg \<or> (1 \<le> windowsPort cfg listener \<and> windowsPort cfg listener \<le> 65535)"

definition open_outcome :: "watcherConfig \<Rightarrow> Listener \<Rightarrow> openerAnswer \<Rightarrow> nat option \<times> goerr option \<times> bytes" where
  "open_outcome cfg listener answer =
     (let windowsAddr = fst (mappingAddresses cfg listener) in
      if \<not> calls_opener cfg listener
      then (None, Some (ErrText (str ''WSL port '' @ decimal (unat (ls_Port listener)) @ str '' plus Windows port offset ''
                  @ Itoa (wc_PortOffset cfg) @ str '' is outside 1..65535'')), windowsAddr)
      else case answer of (closer, openErr, bound) \<Rightarrow>
        if openErr = None \<and> wc_PortAuto cfg then
          (case bound of
             None \<Rightarrow> (closer, Some (ErrText (str ''relay did not report the Windows-allocated port'')), windowsAddr)
           | Some a \<Rightarrow>
               (case validateAllocatedAddress a of
                  Some addressErr \<Rightarrow> (closer, Some addressErr, windowsAddr)
                | None \<Rightarrow> (closer, None, a)))
        else (closer, openErr, windowsAddr))"

definition record_rejection :: "watcherConfig \<Rightarrow> int \<Rightarrow> listenerKey \<Rightarrow> Listener \<Rightarrow> goerr \<Rightarrow> watcher \<Rightarrow> watcher" where
  "record_rejection cfg now key listener openErr w =
     (let failures = (case map_of (w_retryFailures w) key of None \<Rightarrow> 0 | Some n \<Rightarrow> n) + 1
      in w\<lparr>w_rejected := List.insert key (w_rejected w),
           w_rejectedAt := AList.update key listener (w_rejectedAt w),
           w_rejectedError := AList.update key (boundedStatusError openErr) (w_rejectedError w),
           w_retryFailures := AList.update key failures (w_retryFailures w),
           w_retryAfter := AList.update key (now + retryDelay cfg failures) (w_retryAfter w)\<rparr>)"

text \<open>The last critical section: the handle becomes active or is closed.\<close>

definition openOne_insert ::
  "watcherConfig \<Rightarrow> (listenerKey \<times> Listener) list \<Rightarrow> mappingAttempt \<Rightarrow> nat \<Rightarrow> bytes \<Rightarrow> watcher \<Rightarrow> watcher" where
  "openOne_insert cfg desired a h windowsAddr w =
     (if ma_generation a = w_generation w \<and> map_of desired (ma_key a) = Some (ma_listener a)
      then w\<lparr>w_active := AList.update (ma_key a)
               \<lparr>am_listener = ma_listener a, am_windowsAddress = windowsAddr,
                am_wslAddress = snd (mappingAddresses cfg (ma_listener a)), am_closer = h, am_epoch = ma_epoch a\<rparr> (w_active w)\<rparr>
      else closeMapping (Some h) w)"

section \<open>Dropping all mappings\<close>

definition close_actives :: "(listenerKey \<times> activeMapping) list \<Rightarrow> watcher \<Rightarrow> watcher" where
  "close_actives active w = foldl (\<lambda>w h. closeMapping (Some h) w) w (map (am_closer \<circ> snd) active)"

definition closeAll :: "watcher \<Rightarrow> watcher" where
  "closeAll w =
     (let w1 = w\<lparr>w_active := [], w_retryAfter := [], w_retryFailures := [], w_rejectedAt := [], w_rejectedError := [],
                 w_generation := w_generation w + 1, w_attemptCancel := None\<rparr>
      in close_actives (w_active w) (cancel_attempt (w_attemptCancel w) w1))"

definition watcher_Reset :: "watcher \<Rightarrow> watcher" where
  "watcher_Reset w =
     (let w1 = w\<lparr>w_active := [], w_rejected := [], w_rejectedAt := [], w_rejectedError := [], w_retryAfter := [],
                 w_retryFailures := [], w_generation := w_generation w + 1, w_attemptCancel := None\<rparr>
      in close_actives (w_active w) (cancel_attempt (w_attemptCancel w) w1))"

definition datagram_Reset :: "watcher option \<Rightarrow> watcher option" where
  "datagram_Reset runner = map_option watcher_Reset runner"

section \<open>Status\<close>

text \<open>The snapshot of \<open>publishStatus\<close>, which is then handed to \<open>StatusStore.Publish\<close>.\<close>

definition active_status :: "activeMapping \<Rightarrow> MappingStatus" where
  "active_status m =
     \<lparr>ms_Network = ls_Network (am_listener m), ms_WindowsAddress = am_windowsAddress m, ms_WSLAddress = am_wslAddress m,
      ms_State = str ''active'', ms_Error = [], ms_RetryAt = []\<rparr>"

definition rejected_status :: "watcherConfig \<Rightarrow> (int \<Rightarrow> bytes) \<Rightarrow> watcher \<Rightarrow> listenerKey \<times> Listener \<Rightarrow> MappingStatus" where
  "rejected_status cfg formatTime w x =
     (case x of (key, listener) \<Rightarrow>
        \<lparr>ms_Network = ls_Network listener, ms_WindowsAddress = fst (mappingAddresses cfg listener),
         ms_WSLAddress = snd (mappingAddresses cfg listener), ms_State = str ''rejected'',
         ms_Error = (case map_of (w_rejectedError w) key of None \<Rightarrow> [] | Some e \<Rightarrow> e),
         ms_RetryAt = (case map_of (w_retryAfter w) key of None \<Rightarrow> [] | Some t \<Rightarrow> formatTime t)\<rparr>)"

definition status_snapshot :: "watcherConfig \<Rightarrow> (int \<Rightarrow> bytes) \<Rightarrow> watcher \<Rightarrow> MappingStatus list" where
  "status_snapshot cfg formatTime w =
     map (active_status \<circ> snd) (w_active w)
     @ map (rejected_status cfg formatTime w) (filter (\<lambda>(k, l). map_of (w_active w) k = None) (w_rejectedAt w))"

definition publishStatus ::
  "watcherConfig \<Rightarrow> bytes \<Rightarrow> watcher \<Rightarrow> storeEnv \<Rightarrow> directory \<Rightarrow> StatusStore option
     \<Rightarrow> directory \<times> StatusStore option \<times> goerr option" where
  "publishStatus cfg owner w env fs store =
     (case store of
        None \<Rightarrow> (fs, None, None)
      | Some s \<Rightarrow>
          (case Publish env fs s owner (status_snapshot cfg (se_formatTime env) w) of
             (fs1, s1, err) \<Rightarrow> (fs1, Some s1, err)))"

definition clearStatus ::
  "bytes \<Rightarrow> storeEnv \<Rightarrow> directory \<Rightarrow> StatusStore option \<Rightarrow> directory \<times> StatusStore option \<times> goerr option" where
  "clearStatus owner env fs store =
     (case store of
        None \<Rightarrow> (fs, None, None)
      | Some s \<Rightarrow> (case Clear env fs s owner of (fs1, s1, err) \<Rightarrow> (fs1, Some s1, err)))"

end
