(* ===== verification/AutoWatchSteps.thy ===== *)
theory AutoWatchSteps
  imports AutoWatch "HOL-Library.Multiset"
begin

text \<open>
  The interleaved execution of a watcher: the rounds of \<open>sync\<close> that the loop of \<open>Run\<close> starts one after
  the other, the goroutines of a round, at most eight of which hold the semaphore, and \<open>Reset\<close> at any
  moment.  The invariant accounts for every handle the opener ever returned.
\<close>

abbreviation maxConcurrentOpens :: nat where "maxConcurrentOpens \<equiv> 8"

text \<open>
  The positions of a goroutine of a round: waiting for the semaphore, in the opener, after it with the
  answer, past the test of the generation, past the test of the context, and, with an open handle,
  past the deletion of the old rejection.
\<close>

datatype attemptPhase =
    AQueued
  | AOpening
  | AOpened "nat option" "goerr option" bytes
  | ACurrent "nat option" "goerr option" bytes
  | AChecked "nat option" "goerr option" bytes
  | ACleared nat bytes

fun phase_handles :: "attemptPhase \<Rightarrow> nat list" where
  "phase_handles (AOpened (Some h) e a) = [h]"
| "phase_handles (ACurrent (Some h) e a) = [h]"
| "phase_handles (AChecked (Some h) e a) = [h]"
| "phase_handles (ACleared h a) = [h]"
| "phase_handles _ = []"

text \<open>The position of the loop of \<open>Run\<close>; \<open>SyncOpen\<close> has the goroutines that still run.\<close>

datatype syncPhase =
    SyncIdle
  | SyncPruned "(listenerKey \<times> Listener) list"
  | SyncCollect "(listenerKey \<times> Listener) list" u64 "(listenerKey \<times> Listener) list" "mappingAttempt list"
  | SyncOpen "(listenerKey \<times> Listener) list" u64 "(mappingAttempt \<times> attemptPhase) list"
  | SyncStopped

record watchSystem =
  wy_watcher :: watcher
  wy_phase :: syncPhase
  wy_opened :: "nat list"
  wy_resets :: nat

definition start_system :: watchSystem where
  "start_system = \<lparr>wy_watcher = newWatcher, wy_phase = SyncIdle, wy_opened = [], wy_resets = 0\<rparr>"

fun flying :: "syncPhase \<Rightarrow> (mappingAttempt \<times> attemptPhase) list" where
  "flying (SyncOpen desired i fs) = fs"
| "flying _ = []"

fun pending_attempts :: "syncPhase \<Rightarrow> mappingAttempt list" where
  "pending_attempts (SyncCollect desired i todo as) = as"
| "pending_attempts (SyncOpen desired i fs) = map fst fs"
| "pending_attempts _ = []"

fun todo_keys :: "syncPhase \<Rightarrow> listenerKey list" where
  "todo_keys (SyncCollect desired i todo as) = map fst todo"
| "todo_keys _ = []"

definition holding :: "(mappingAttempt \<times> attemptPhase) list \<Rightarrow> nat" where
  "holding fs = length (filter (\<lambda>(a, ph). ph \<noteq> AQueued) fs)"

definition answer_handles :: "watcherConfig \<Rightarrow> Listener \<Rightarrow> openerAnswer \<Rightarrow> nat list" where
  "answer_handles cfg l answer = (if calls_opener cfg l then (case fst answer of None \<Rightarrow> [] | Some h \<Rightarrow> [h]) else [])"

definition opened_phase :: "watcherConfig \<Rightarrow> Listener \<Rightarrow> openerAnswer \<Rightarrow> attemptPhase" where
  "opened_phase cfg l answer = (case open_outcome cfg l answer of (h, e, addr) \<Rightarrow> AOpened h e addr)"

inductive watch_step :: "watcherConfig \<Rightarrow> watchSystem \<Rightarrow> watchSystem \<Rightarrow> bool" for cfg where
  prune: "watch_step cfg s (s\<lparr>wy_watcher := fst (sync_prune (desired_of cfg listeners) (wy_watcher s)),
      wy_phase := SyncPruned (desired_of cfg listeners)\<rparr>)"
    if "wy_phase s = SyncIdle"
| begin_round: "watch_step cfg s (s\<lparr>wy_watcher := fst (sync_begin (wy_watcher s)),
      wy_phase := SyncCollect desired (snd (sync_begin (wy_watcher s))) desired []\<rparr>)"
    if "wy_phase s = SyncPruned desired"
| consider_one: "watch_step cfg s (s\<lparr>wy_phase := SyncCollect desired i todo
      (case sync_consider (wy_watcher s) now (wy_resets s) x of None \<Rightarrow> as | Some a \<Rightarrow> as @ [a])\<rparr>)"
    if "wy_phase s = SyncCollect desired i (x # todo) as"
| spawn_all: "watch_step cfg s (s\<lparr>wy_phase := SyncOpen desired i (map (\<lambda>a. (a, AQueued)) as)\<rparr>)"
    if "wy_phase s = SyncCollect desired i [] as"
| give_up: "watch_step cfg s (s\<lparr>wy_phase := SyncOpen desired i (fs @ gs)\<rparr>)"
    if "wy_phase s = SyncOpen desired i (fs @ (a, AQueued) # gs)"
| acquire: "watch_step cfg s (s\<lparr>wy_phase := SyncOpen desired i (fs @ (a, AOpening) # gs)\<rparr>)"
    if "wy_phase s = SyncOpen desired i (fs @ (a, AQueued) # gs)" "holding (fs @ gs) < maxConcurrentOpens"
| opened: "watch_step cfg s (s\<lparr>wy_phase := SyncOpen desired i
        (fs @ (a, opened_phase cfg (ma_listener a) answer) # gs),
      wy_opened := wy_opened s @ answer_handles cfg (ma_listener a) answer\<rparr>)"
    if "wy_phase s = SyncOpen desired i (fs @ (a, AOpening) # gs)"
      "set (answer_handles cfg (ma_listener a) answer) \<inter> set (wy_opened s) = {}"
| stale: "watch_step cfg s (s\<lparr>wy_watcher := closeMapping h (wy_watcher s), wy_phase := SyncOpen desired i (fs @ gs)\<rparr>)"
    if "wy_phase s = SyncOpen desired i (fs @ (a, AOpened h e addr) # gs)" "ma_generation a \<noteq> w_generation (wy_watcher s)"
| same: "watch_step cfg s (s\<lparr>wy_phase := SyncOpen desired i (fs @ (a, ACurrent h e addr) # gs)\<rparr>)"
    if "wy_phase s = SyncOpen desired i (fs @ (a, AOpened h e addr) # gs)" "ma_generation a = w_generation (wy_watcher s)"
| ended: "watch_step cfg s (s\<lparr>wy_watcher := closeMapping h (wy_watcher s), wy_phase := SyncOpen desired i (fs @ gs)\<rparr>)"
    if "wy_phase s = SyncOpen desired i (fs @ (a, ACurrent h e addr) # gs)"
| checked: "watch_step cfg s (s\<lparr>wy_phase := SyncOpen desired i (fs @ (a, AChecked h e addr) # gs)\<rparr>)"
    if "wy_phase s = SyncOpen desired i (fs @ (a, ACurrent h e addr) # gs)" "i \<notin> set (w_cancelled (wy_watcher s))"
| reject: "watch_step cfg s (s\<lparr>wy_watcher :=
        record_rejection cfg now (ma_key a) (ma_listener a) err (closeMapping h (wy_watcher s)),
      wy_phase := SyncOpen desired i (fs @ gs)\<rparr>)"
    if "wy_phase s = SyncOpen desired i (fs @ (a, AChecked h e addr) # gs)"
      "e = Some err \<or> (e = None \<and> h = None \<and> err = ErrText (str ''opener returned nil mapping''))"
| clear: "watch_step cfg s (s\<lparr>wy_watcher := forget (wy_watcher s) (ma_key a),
      wy_phase := SyncOpen desired i (fs @ (a, ACleared h addr) # gs)\<rparr>)"
    if "wy_phase s = SyncOpen desired i (fs @ (a, AChecked (Some h) None addr) # gs)"
| insert: "watch_step cfg s (s\<lparr>wy_watcher := openOne_insert cfg desired a h addr (wy_watcher s),
      wy_phase := SyncOpen desired i (fs @ gs)\<rparr>)"
    if "wy_phase s = SyncOpen desired i (fs @ (a, ACleared h addr) # gs)"
| end_round: "watch_step cfg s (s\<lparr>wy_watcher := sync_end i (wy_watcher s), wy_phase := SyncIdle\<rparr>)"
    if "wy_phase s = SyncOpen desired i []"
| cancel: "watch_step cfg s (s\<lparr>wy_watcher := (wy_watcher s)\<lparr>w_cancelled := i # w_cancelled (wy_watcher s)\<rparr>\<rparr>)"
| reset: "watch_step cfg s (s\<lparr>wy_watcher := watcher_Reset (wy_watcher s), wy_resets := Suc (wy_resets s)\<rparr>)"
| stop: "watch_step cfg s (s\<lparr>wy_watcher := closeAll (wy_watcher s), wy_resets := Suc (wy_resets s), wy_phase := SyncStopped\<rparr>)"
    if "wy_phase s = SyncIdle"

abbreviation watch_steps :: "watcherConfig \<Rightarrow> watchSystem \<Rightarrow> watchSystem \<Rightarrow> bool" where
  "watch_steps cfg \<equiv> (watch_step cfg)\<^sup>*\<^sup>*"

section \<open>What the operations leave unchanged\<close>

lemma forget_core [simp]:
  "w_active (forget w k) = w_active w" "w_closed (forget w k) = w_closed w" "w_generation (forget w k) = w_generation w"
  by (simp_all add: forget_def)

lemma forget_all_core [simp]:
  "w_active (foldl forget w ks) = w_active w" "w_closed (foldl forget w ks) = w_closed w"
  "w_generation (foldl forget w ks) = w_generation w"
  by (induction ks arbitrary: w) simp_all

lemma record_core [simp]:
  "w_active (record_rejection cfg now k l e w) = w_active w" "w_closed (record_rejection cfg now k l e w) = w_closed w"
  "w_generation (record_rejection cfg now k l e w) = w_generation w"
  by (simp_all add: record_rejection_def Let_def)

lemma cancel_core [simp]:
  "w_active (cancel_attempt c w) = w_active w" "w_closed (cancel_attempt c w) = w_closed w"
  "w_generation (cancel_attempt c w) = w_generation w" "w_attemptID (cancel_attempt c w) = w_attemptID w"
  by (simp_all add: cancel_attempt_def split: option.splits)

lemma round_core [simp]:
  "w_active (fst (sync_begin w)) = w_active w" "w_closed (fst (sync_begin w)) = w_closed w"
  "w_generation (fst (sync_begin w)) = w_generation w"
  "w_active (sync_end i w) = w_active w" "w_closed (sync_end i w) = w_closed w"
  "w_generation (sync_end i w) = w_generation w"
  by (simp_all add: sync_begin_def sync_end_def Let_def)

lemma closeMapping_core [simp]:
  "w_active (closeMapping c w) = w_active w" "w_generation (closeMapping c w) = w_generation w"
  "w_closed (closeMapping c w) = w_closed w @ (case c of None \<Rightarrow> [] | Some h \<Rightarrow> [h])"
  by (simp_all add: closeMapping_def split: option.splits)

lemma closeMappings_core [simp]:
  "w_active (foldl (\<lambda>w h. closeMapping (Some h) w) w hs) = w_active w"
  "w_generation (foldl (\<lambda>w h. closeMapping (Some h) w) w hs) = w_generation w"
  "w_closed (foldl (\<lambda>w h. closeMapping (Some h) w) w hs) = w_closed w @ hs"
  by (induction hs arbitrary: w) simp_all

lemma drop_core [simp]:
  "w_active (watcher_Reset w) = []" "w_active (closeAll w) = []"
  "w_closed (watcher_Reset w) = w_closed w @ map (am_closer \<circ> snd) (w_active w)"
  "w_closed (closeAll w) = w_closed w @ map (am_closer \<circ> snd) (w_active w)"
  "w_generation (watcher_Reset w) = w_generation w + 1" "w_generation (closeAll w) = w_generation w + 1"
  by (simp_all add: watcher_Reset_def closeAll_def close_actives_def Let_def)

lemma prune_core [simp]:
  "w_active (fst (sync_prune d w)) = filter (\<lambda>(k, m). map_of d k = Some (am_listener m)) (w_active w)"
  "w_generation (fst (sync_prune d w)) = w_generation w"
  "w_closed (fst (sync_prune d w)) = w_closed w
     @ map (am_closer \<circ> snd) (filter (\<lambda>(k, m). map_of d k \<noteq> Some (am_listener m)) (w_active w))"
  by (simp_all add: sync_prune_def Let_def)

section \<open>Invariant\<close>

definition owned :: "watchSystem \<Rightarrow> nat list" where
  "owned s = map (am_closer \<circ> snd) (w_active (wy_watcher s)) @ concat (map (phase_handles \<circ> snd) (flying (wy_phase s)))"

definition handles_ok :: "watchSystem \<Rightarrow> bool" where
  "handles_ok s \<longleftrightarrow> distinct (wy_opened s) \<and> mset (wy_opened s) = mset (owned s) + mset (w_closed (wy_watcher s))"

fun desired_phase :: "syncPhase \<Rightarrow> (listenerKey \<times> Listener) list option" where
  "desired_phase (SyncPruned d) = Some d"
| "desired_phase (SyncCollect d i todo as) = Some d"
| "desired_phase (SyncOpen d i fs) = Some d"
| "desired_phase _ = None"

fun todo_list :: "syncPhase \<Rightarrow> (listenerKey \<times> Listener) list" where
  "todo_list (SyncCollect d i todo as) = todo"
| "todo_list _ = []"

definition keys_ok :: "watchSystem \<Rightarrow> bool" where
  "keys_ok s \<longleftrightarrow> distinct (map fst (w_active (wy_watcher s)))
     \<and> distinct (map ma_key (pending_attempts (wy_phase s)) @ map fst (todo_list (wy_phase s)))
     \<and> ma_key ` set (pending_attempts (wy_phase s)) \<inter> fst ` set (w_active (wy_watcher s)) = {}
     \<and> (case desired_phase (wy_phase s) of
          None \<Rightarrow> True
        | Some d \<Rightarrow> distinct (map fst d) \<and> set (todo_list (wy_phase s)) \<subseteq> set d
            \<and> (\<forall>(k, m) \<in> set (w_active (wy_watcher s)). map_of d k = Some (am_listener m)))"

definition epochs_ok :: "watchSystem \<Rightarrow> bool" where
  "epochs_ok s \<longleftrightarrow> w_generation (wy_watcher s) = word_of_nat (wy_resets s)
     \<and> (\<forall>a \<in> set (pending_attempts (wy_phase s)). ma_epoch a \<le> wy_resets s \<and> ma_generation a = word_of_nat (ma_epoch a))
     \<and> (wy_resets s < 2 ^ 64 \<longrightarrow> (\<forall>(k, m) \<in> set (w_active (wy_watcher s)). am_epoch m = wy_resets s))"

definition slots_ok :: "watchSystem \<Rightarrow> bool" where
  "slots_ok s \<longleftrightarrow> holding (flying (wy_phase s)) \<le> maxConcurrentOpens
     \<and> (wy_phase s = SyncStopped \<longrightarrow> w_active (wy_watcher s) = [])"

lemmas watch_parts = handles_ok_def owned_def keys_ok_def epochs_ok_def slots_ok_def

lemma distinct_desired: "distinct (map fst (desired_of cfg listeners))"
proof -
  define f where "f = (\<lambda>desired l.
      if wc_Included cfg \<noteq> [] \<and> ls_Port l \<notin> set (wc_Included cfg) then desired
      else if ls_Port l \<in> set (wc_Excluded cfg) then desired
      else AList.update (lkey l) l desired)"
  have "distinct (map fst d) \<Longrightarrow> distinct (map fst (f d l))" for d l by (simp add: f_def distinct_update)
  then have "distinct (map fst d) \<Longrightarrow> distinct (map fst (foldl f d ls))" for d ls by (induction ls arbitrary: d) auto
  then show ?thesis unfolding desired_of_def f_def [symmetric] by simp
qed

lemma opened_phase_handles: "phase_handles (opened_phase cfg l answer) = answer_handles cfg l answer"
  by (cases answer; cases "fst answer")
    (auto simp: opened_phase_def open_outcome_def answer_handles_def Let_def split: option.splits)

lemma opened_phase_holds: "opened_phase cfg l answer \<noteq> AQueued"
  by (simp add: opened_phase_def split: prod.splits)

lemma holding_simps [simp]:
  "holding (fs @ gs) = holding fs + holding gs"
  "holding ((a, ph) # gs) = (if ph = AQueued then 0 else 1) + holding gs"
  "holding [] = 0" "holding (map (\<lambda>a. (a, AQueued)) as) = 0"
  by (simp_all add: holding_def)

lemma slots_step: "watch_step cfg s s' \<Longrightarrow> slots_ok s \<Longrightarrow> slots_ok s'"
  by (induction rule: watch_step.induct) (simp_all add: slots_ok_def opened_phase_holds)

lemma insert_core:
  assumes "ma_key a \<notin> fst ` set (w_active w)"
  shows "w_generation (openOne_insert cfg d a h addr w) = w_generation w"
    and "mset (map (am_closer \<circ> snd) (w_active (openOne_insert cfg d a h addr w))) + mset (w_closed (openOne_insert cfg d a h addr w))
      = add_mset h (mset (map (am_closer \<circ> snd) (w_active w)) + mset (w_closed w))"
proof -
  show "w_generation (openOne_insert cfg d a h addr w) = w_generation w" by (simp add: openOne_insert_def)
  show "mset (map (am_closer \<circ> snd) (w_active (openOne_insert cfg d a h addr w))) + mset (w_closed (openOne_insert cfg d a h addr w))
      = add_mset h (mset (map (am_closer \<circ> snd) (w_active w)) + mset (w_closed w))"
    using alist_update_new [OF assms] by (simp add: openOne_insert_def)
qed

lemma mset_partition:
  "mset (map f (filter P xs)) + mset (map f (filter (\<lambda>x. \<not> P x) xs)) = mset (map f xs)"
  by (induction xs) auto

lemma prune_partition:
  "mset (map (am_closer \<circ> snd) (filter (\<lambda>(k, m). map_of d k = Some (am_listener m)) xs))
   + mset (map (am_closer \<circ> snd) (filter (\<lambda>(k, m). map_of d k \<noteq> Some (am_listener m)) xs))
   = mset (map (am_closer \<circ> snd) xs)"
  using mset_partition [of "am_closer \<circ> snd" "\<lambda>(k, m). map_of d k = Some (am_listener m)" xs]
  by (simp add: case_prod_unfold)

lemma distinct_answer: "distinct (answer_handles cfg l answer)"
  by (auto simp: answer_handles_def split: option.splits)

lemma phase_handles_option [simp]:
  "phase_handles (AOpened h e a) = (case h of None \<Rightarrow> [] | Some x \<Rightarrow> [x])"
  "phase_handles (ACurrent h e a) = (case h of None \<Rightarrow> [] | Some x \<Rightarrow> [x])"
  "phase_handles (AChecked h e a) = (case h of None \<Rightarrow> [] | Some x \<Rightarrow> [x])"
  by (cases h; simp)+

text \<open>A step that keeps the handles opened so far only moves them between their holders.\<close>

lemma handles_moved:
  assumes "handles_ok s" and "wy_opened s' = wy_opened s"
    and "mset (owned s') + mset (w_closed (wy_watcher s')) = mset (owned s) + mset (w_closed (wy_watcher s))"
  shows "handles_ok s'"
  using assms by (simp add: handles_ok_def)

lemma handles_step: "watch_step cfg s s' \<Longrightarrow> keys_ok s \<Longrightarrow> handles_ok s \<Longrightarrow> handles_ok s'"
proof (induction rule: watch_step.induct)
  case (prune s listeners)
  from prune(3) show ?case
    by (rule handles_moved)
      (use prune(1) prune_partition [of "desired_of cfg listeners" "w_active (wy_watcher s)"] in \<open>simp_all add: owned_def add.assoc add.left_commute\<close>)
next
  case (opened s desired i fs a gs answer)
  then show ?case
    using distinct_answer [of cfg "ma_listener a" answer]
    by (auto simp: handles_ok_def owned_def opened_phase_handles)
next
  case (insert s desired i fs a h addr gs)
  then have "ma_key a \<notin> fst ` set (w_active (wy_watcher s))" by (auto simp: keys_ok_def)
  note ins = insert_core(2) [OF this, of cfg desired h addr]
  from insert(3) show ?case
    by (rule handles_moved)
      (use insert(1) ins in \<open>simp_all add: owned_def union_ac\<close>)
qed (auto simp: handles_ok_def owned_def comp_def split: option.splits)

lemma consider_key: "sync_consider w now epoch x = Some a \<Longrightarrow> ma_key a = fst x"
  by (auto simp: sync_consider_def split: prod.splits if_splits)

lemma consider_absent:
  assumes "sync_consider w now epoch (k, l) = Some a" and "map_of d k = Some l"
    and "\<forall>(k, m) \<in> set (w_active w). map_of d k = Some (am_listener m)" and "distinct (map fst (w_active w))"
  shows "k \<notin> fst ` set (w_active w)"
proof
  assume "k \<in> fst ` set (w_active w)"
  then obtain m where m: "(k, m) \<in> set (w_active w)" by auto
  with assms(2,3) have "am_listener m = l" by auto
  moreover have "map_of (w_active w) k = Some m" using m assms(4) by (simp add: map_of_is_SomeI)
  ultimately show False using assms(1) by (simp add: sync_consider_def)
qed

lemma keys_step: "watch_step cfg s s' \<Longrightarrow> keys_ok s \<Longrightarrow> keys_ok s'"
proof (induction rule: watch_step.induct)
  case (prune s listeners)
  then show ?case
    using distinct_desired [of cfg listeners]
    by (auto simp: keys_ok_def distinct_keys_filter)
next
  case (consider_one s desired i x todo as now)
  obtain k l where x: "x = (k, l)" by (cases x)
  show ?case
  proof (cases "sync_consider (wy_watcher s) now (wy_resets s) x")
    case None
    with consider_one show ?thesis by (auto simp: keys_ok_def)
  next
    case (Some a)
    have "map_of desired k = Some l" using consider_one x by (auto simp: keys_ok_def intro: map_of_is_SomeI)
    moreover have "\<forall>(k, m) \<in> set (w_active (wy_watcher s)). map_of desired k = Some (am_listener m)"
      "distinct (map fst (w_active (wy_watcher s)))"
      using consider_one(2) unfolding keys_ok_def consider_one(1) desired_phase.simps option.case by blast+
    ultimately have "k \<notin> fst ` set (w_active (wy_watcher s))"
      using consider_absent Some x by metis
    with Some x consider_key [OF Some] consider_one show ?thesis by (auto simp: keys_ok_def)
  qed
next
  case (insert s desired i fs a h addr gs)
  then have new: "ma_key a \<notin> fst ` set (w_active (wy_watcher s))" by (auto simp: keys_ok_def)
  have "ma_key a \<notin> ma_key ` fst ` set (fs @ gs)" using insert by (auto simp: keys_ok_def)
  with insert new show ?case
    by (auto simp: keys_ok_def openOne_insert_def alist_update_new)
qed (auto simp: keys_ok_def comp_def split: option.splits)

lemma insert_active:
  "(k, m) \<in> set (w_active (openOne_insert cfg d a h addr w)) \<Longrightarrow> ma_key a \<notin> fst ` set (w_active w) \<Longrightarrow>
     (k, m) \<in> set (w_active w) \<or> (am_epoch m = ma_epoch a \<and> ma_generation a = w_generation w)"
  by (auto simp: openOne_insert_def alist_update_new split: if_splits)

lemma epochs_step: "watch_step cfg s s' \<Longrightarrow> keys_ok s \<Longrightarrow> epochs_ok s \<Longrightarrow> epochs_ok s'"
proof (induction rule: watch_step.induct)
  case (consider_one s desired i x todo as now)
  then show ?case
    by (auto simp: epochs_ok_def sync_consider_def split: prod.splits option.splits if_splits)
next
  case (insert s desired i fs a h addr gs)
  then have new: "ma_key a \<notin> fst ` set (w_active (wy_watcher s))" by (auto simp: keys_ok_def)
  have a: "ma_epoch a \<le> wy_resets s" "ma_generation a = word_of_nat (ma_epoch a)"
    "w_generation (wy_watcher s) = word_of_nat (wy_resets s)" using insert by (auto simp: epochs_ok_def)
  have "am_epoch m = wy_resets s"
    if r: "wy_resets s < 2 ^ 64" and m: "(k, m) \<in> set (w_active (openOne_insert cfg desired a h addr (wy_watcher s)))" for k m
    using insert_active [OF m new]
  proof
    assume "(k, m) \<in> set (w_active (wy_watcher s))"
    with insert r show ?thesis by (auto simp: epochs_ok_def)
  next
    assume e: "am_epoch m = ma_epoch a \<and> ma_generation a = w_generation (wy_watcher s)"
    have "ma_epoch a < 2 ^ 64" using a(1) r by (rule le_less_trans)
    with e a(2,3) of_nat_u64_eq [OF _ r] show ?thesis by metis
  qed
  moreover have "\<forall>b \<in> set (map fst (fs @ gs)). ma_epoch b \<le> wy_resets s \<and> ma_generation b = word_of_nat (ma_epoch b)"
    using insert(3) unfolding epochs_ok_def insert(1) pending_attempts.simps by simp
  ultimately show ?case
    using a(3) insert_core(1) [OF new, of cfg desired h addr] unfolding epochs_ok_def
    by (simp only: watchSystem.select_convs watchSystem.update_convs watchSystem.surjective pending_attempts.simps) auto
qed (auto simp: epochs_ok_def)

definition watch_inv :: "watchSystem \<Rightarrow> bool" where
  "watch_inv s \<longleftrightarrow> keys_ok s \<and> handles_ok s \<and> epochs_ok s \<and> slots_ok s"

lemma watch_inv_start: "watch_inv start_system"
  by (simp add: watch_inv_def watch_parts start_system_def newWatcher_def)

lemma watch_inv_steps: "watch_steps cfg start_system s \<Longrightarrow> watch_inv s"
proof (induction rule: rtranclp_induct)
  case (step s s')
  then show ?case unfolding watch_inv_def by (blast intro: keys_step handles_step epochs_step slots_step)
qed (rule watch_inv_start)

text \<open>
  C20: the watcher never loses a handle.  In every reachable state, whatever the interleaving of
  scans, openers, resets and cancellations, each handle the opener ever returned was closed exactly
  once or is held by exactly one active mapping or goroutine; at most eight goroutines are past the
  semaphore; there is one active mapping per network and port, opened after the last reset; and when
  \<open>Run\<close> has returned every handle is closed.
\<close>

theorem watcher_handles_owned:
  assumes "watch_steps cfg start_system s"
  shows "distinct (wy_opened s) \<and> mset (wy_opened s) = mset (owned s) + mset (w_closed (wy_watcher s))
    \<and> holding (flying (wy_phase s)) \<le> maxConcurrentOpens \<and> distinct (map fst (w_active (wy_watcher s)))
    \<and> (wy_resets s < 2 ^ 64 \<longrightarrow> (\<forall>(k, m) \<in> set (w_active (wy_watcher s)). am_epoch m = wy_resets s))
    \<and> (wy_phase s = SyncStopped \<longrightarrow> set (wy_opened s) = set (w_closed (wy_watcher s)))"
proof -
  note inv = watch_inv_steps [OF assms, unfolded watch_inv_def]
  have "set (wy_opened s) = set (w_closed (wy_watcher s))" if "wy_phase s = SyncStopped"
  proof -
    have "owned s = []" using inv that by (simp add: owned_def slots_ok_def)
    then have "mset (wy_opened s) = mset (w_closed (wy_watcher s))" using inv by (simp add: handles_ok_def)
    then show ?thesis by (rule mset_eq_setD)
  qed
  with inv show ?thesis by (simp add: handles_ok_def keys_ok_def epochs_ok_def slots_ok_def)
qed

definition web_listener :: Listener where
  "web_listener = \<lparr>ls_Network = str ''tcp4'', ls_Host = str ''0.0.0.0'', ls_Port = 80\<rparr>"

definition web_config :: watcherConfig where
  "web_config = \<lparr>wc_WindowsHost = str ''127.0.0.1'', wc_WindowsHost6 = str ''::1'', wc_PortOffset = 0, wc_PortAuto = False,
     wc_Included = [], wc_Excluded = [], wc_RetryMin = 1, wc_RetryMax = 8\<rparr>"

definition web_attempt :: mappingAttempt where
  "web_attempt = \<lparr>ma_key = lkey web_listener, ma_listener = web_listener, ma_generation = 0, ma_epoch = 0\<rparr>"

text \<open>A round in which the opener answers after a reset: the handle is closed and not published.\<close>

definition web_desired :: "(listenerKey \<times> Listener) list" where
  "web_desired = [(lkey web_listener, web_listener)]"

definition web_after_reset :: watchSystem where
  "web_after_reset =
     \<lparr>wy_watcher = closeMapping (Some 7) (watcher_Reset (fst (sync_begin newWatcher))),
      wy_phase = SyncOpen web_desired 1 [], wy_opened = [7], wy_resets = 1\<rparr>"

abbreviation web_state :: "watcher \<Rightarrow> syncPhase \<Rightarrow> nat list \<Rightarrow> nat \<Rightarrow> watchSystem" where
  "web_state w ph hs n \<equiv> \<lparr>wy_watcher = w, wy_phase = ph, wy_opened = hs, wy_resets = n\<rparr>"

lemma web_answer:
  "opened_phase web_config web_listener (Some 7, None, None) = AOpened (Some 7) None (str ''127.0.0.1:80'')"
  "answer_handles web_config web_listener (Some 7, None, None) = [7]"
  by code_simp+

lemma web_run: "watch_steps web_config start_system web_after_reset"
proof -
  let ?w = "fst (sync_begin newWatcher)" and ?step = "watch_step web_config"
  let ?open = "\<lambda>ph. SyncOpen web_desired 1 [(web_attempt, ph)]"
  let ?ans = "AOpened (Some 7) None (str ''127.0.0.1:80'')"
  have 1: "?step start_system (web_state newWatcher (SyncPruned web_desired) [] 0)"
    using watch_step.prune [of start_system web_config "[web_listener]"]
    by (simp add: desired_of_def web_config_def web_desired_def start_system_def sync_prune_def newWatcher_def Let_def)
  have 2: "?step (web_state newWatcher (SyncPruned web_desired) [] 0)
      (web_state ?w (SyncCollect web_desired 1 web_desired []) [] 0)"
    using watch_step.begin_round [of "web_state newWatcher (SyncPruned web_desired) [] 0" web_desired web_config]
    by (simp add: sync_begin_def newWatcher_def Let_def)
  have 3: "?step (web_state ?w (SyncCollect web_desired 1 web_desired []) [] 0)
      (web_state ?w (SyncCollect web_desired 1 [] [web_attempt]) [] 0)"
    using watch_step.consider_one [of "web_state ?w (SyncCollect web_desired 1 web_desired []) [] 0" web_desired 1
        "(lkey web_listener, web_listener)" "[]" "[]" web_config 0]
    by (simp add: sync_consider_def web_desired_def web_attempt_def sync_begin_def newWatcher_def cancel_attempt_def Let_def)
  have 4: "?step (web_state ?w (SyncCollect web_desired 1 [] [web_attempt]) [] 0) (web_state ?w (?open AQueued) [] 0)"
    using watch_step.spawn_all [of "web_state ?w (SyncCollect web_desired 1 [] [web_attempt]) [] 0" web_desired 1 "[web_attempt]" web_config]
    by simp
  have 5: "?step (web_state ?w (?open AQueued) [] 0) (web_state ?w (?open AOpening) [] 0)"
    using watch_step.acquire [of "web_state ?w (?open AQueued) [] 0" web_desired 1 "[]" web_attempt "[]" web_config] by simp
  have 6: "?step (web_state ?w (?open AOpening) [] 0) (web_state ?w (?open ?ans) [7] 0)"
    using watch_step.opened [of "web_state ?w (?open AOpening) [] 0" web_desired 1 "[]" web_attempt "[]" web_config "(Some 7, None, None)"]
    by (simp add: web_attempt_def web_answer)
  have 7: "?step (web_state ?w (?open ?ans) [7] 0) (web_state (watcher_Reset ?w) (?open ?ans) [7] 1)"
    using watch_step.reset [of web_config "web_state ?w (?open ?ans) [7] 0"] by simp
  have 8: "?step (web_state (watcher_Reset ?w) (?open ?ans) [7] 1) web_after_reset"
    using watch_step.stale [of "web_state (watcher_Reset ?w) (?open ?ans) [7] 1" web_desired 1 "[]" web_attempt
        "Some 7" None "str ''127.0.0.1:80''" "[]" web_config]
    by (simp add: web_attempt_def web_after_reset_def newWatcher_def)
  note steps = 1 2 3 4 5 6 7 8
  show ?thesis by (rule converse_rtranclp_into_rtranclp, rule steps)+ (rule rtranclp.rtrancl_refl)
qed

theorem watcher_handles_owned_witness:
  "owned web_after_reset = [] \<and> w_closed (wy_watcher web_after_reset) = [7]
    \<and> mset (wy_opened web_after_reset) = mset (owned web_after_reset) + mset (w_closed (wy_watcher web_after_reset))"
  using watcher_handles_owned [OF web_run] by (simp add: owned_def web_after_reset_def newWatcher_def)

section \<open>Retry delays\<close>

lemma delay_loop_exact: "0 < delay \<Longrightarrow> 0 < m \<Longrightarrow> delay_loop m n delay = min m (delay * 2 ^ n)"
proof (induction m n delay rule: delay_loop.induct)
  case (2 m n delay)
  show ?case
  proof (cases "delay < m \<and> \<not> m div 2 < delay")
    case True
    with 2 show ?thesis by (simp add: algebra_simps)
  next
    case False
    have "m \<le> delay * 2" using False 2 by (cases "delay < m") auto
    also have "delay * 2 \<le> delay * 2 ^ Suc n" using 2 by (simp add: mult_le_cancel_left)
    finally have "m \<le> delay * 2 ^ Suc n" .
    with False 2 show ?thesis by (auto simp: min_def)
  qed
qed (simp add: min_def)

text \<open>
  The delay after the n-th failure in a row is exactly the minimum doubled n - 1 times and cut at
  the maximum; so it never exceeds the maximum, and the doubling stays within the range of a
  duration.
\<close>

lemma retry_delay_exact:
  assumes "1 \<le> n"
  shows "retryDelay (ensureRetryPolicy cfg) n
    = min (wc_RetryMax (ensureRetryPolicy cfg)) (wc_RetryMin (ensureRetryPolicy cfg) * 2 ^ nat (n - 1))"
proof -
  have "0 < wc_RetryMin (ensureRetryPolicy cfg)" "0 < wc_RetryMax (ensureRetryPolicy cfg)"
    by (auto simp: ensureRetryPolicy_def Let_def)
  then show ?thesis using delay_loop_exact by (simp add: retryDelay_def)
qed

section \<open>Publishing rejections\<close>

lemma Itoa_hd: "hd (decimal n) \<noteq> 45" "hd (decimal n) \<noteq> 43"
  using decimal_digits [of "hd (decimal n)" n] by (auto simp: is_digit_def)

lemma Atoi_Itoa: "Atoi (Itoa i) = Some v \<Longrightarrow> v = i"
  using Itoa_hd [of "nat i"]
  by (auto simp: Atoi_def Itoa_def Let_def digits_value_decimal split: if_splits)

lemma Itoa_bytes: "b \<in> set (Itoa i) \<Longrightarrow> is_digit b \<or> b = 45"
  by (auto simp: Itoa_def dest: decimal_digits split: if_splits)

lemma port_out_of_range:
  assumes "lbracket \<notin> set host" "rbracket \<notin> set host" and "p < 0 \<or> 65535 < p"
  shows "validateStatusAddress (JoinHostPort host (Itoa p)) allowZero \<noteq> None"
proof -
  have "colon \<notin> set (Itoa p)" "lbracket \<notin> set (Itoa p)" "rbracket \<notin> set (Itoa p)"
    by (auto dest!: Itoa_bytes simp: is_digit_def)
  then have "SplitHostPort (JoinHostPort host (Itoa p)) = Inr (host, Itoa p)" using assms by (intro SplitHostPort_Join)
  with assms(3) Atoi_Itoa [of p] show ?thesis by (auto simp: validateStatusAddress_def split: option.splits)
qed

lemma bad_windows_address:
  "validateStatusAddress (ms_WindowsAddress m) (ms_State m = str ''rejected'') \<noteq> None \<Longrightarrow>
     validateMappingStatus parseTime m \<noteq> None"
  by (auto simp: validateMappingStatus_def)

lemma invalid_mapping_blocks:
  assumes "m \<in> set ms" and "validateMappingStatus (se_parseTime env) m \<noteq> None" and "ss_path s \<noteq> []"
    and "Publish env fs s owner ms = (fs', s', r)"
  shows "fs' = fs \<and> r \<noteq> None"
proof -
  let ?s = "s\<lparr>ss_owners := AList.update owner ms (ss_owners s)\<rparr>"
  have "map_of (AList.update owner ms (ss_owners s)) owner = Some ms" by (simp add: update_conv')
  then have "(owner, ms) \<in> set (ss_owners ?s)" by (simp add: map_of_SomeD)
  with assms(1) have "m \<in> set (merged ?s)" by (force simp: merged_def)
  with assms(2) obtain err where v: "validate_mappings (se_parseTime env) 0 (merged ?s) = Some err"
    by (metis not_None_eq validate_mappings_iff)
  have "writeLocked env fs ?s = (fs', s', r)" using assms(3,4) by (simp add: Publish_def)
  then show ?thesis unfolding writeLocked_def v option.case by auto
qed

text \<open>
  A listener whose port plus the configured offset leaves the range of ports stops the status
  document.  The watcher rejects it, and as long as it is rejected the snapshot contains an address
  that the store refuses, so that publishing fails and the file keeps the old state of all mappings.
\<close>

lemma port_offset_blocks_status:
  assumes "\<not> wc_PortAuto cfg" and "65535 < uint (ls_Port l) + wc_PortOffset cfg"
    and "lbracket \<notin> set (wc_WindowsHost cfg @ wc_WindowsHost6 cfg)" "rbracket \<notin> set (wc_WindowsHost cfg @ wc_WindowsHost6 cfg)"
    and "open_outcome cfg l answer = (h, e, addr)" and "map_of (w_active w) (lkey l) = None" and "ss_path s \<noteq> []"
    and "Publish env fs s owner (status_snapshot cfg (se_formatTime env) (record_rejection cfg now (lkey l) l (the e) w)) = (fs', s', r)"
  shows "h = None \<and> e \<noteq> None \<and> fs' = fs \<and> r \<noteq> None"
proof -
  let ?w = "record_rejection cfg now (lkey l) l (the e) w"
  let ?m = "rejected_status cfg (se_formatTime env) ?w (lkey l, l)"
  have o: "h = None" "e \<noteq> None" using assms(1,2,5) by (auto simp: open_outcome_def calls_opener_def windowsPort_def Let_def)
  have "(lkey l, l) \<in> set (w_rejectedAt ?w)"
    by (simp add: record_rejection_def Let_def) (metis map_of_SomeD update_conv' fun_upd_same)
  then have m: "?m \<in> set (status_snapshot cfg (se_formatTime env) ?w)"
    using assms(6) by (auto simp: status_snapshot_def)
  obtain host where host: "fst (mappingAddresses cfg l) = JoinHostPort host (Itoa (windowsPort cfg l))"
    "host \<in> {wc_WindowsHost cfg, wc_WindowsHost6 cfg}" by (auto simp: mappingAddresses_def Let_def)
  have "validateStatusAddress (fst (mappingAddresses cfg l)) b \<noteq> None" for b
    unfolding host(1) using host(2) assms(1-4) by (intro port_out_of_range) (auto simp: windowsPort_def)
  then have "validateMappingStatus (se_parseTime env) ?m \<noteq> None"
    by (intro bad_windows_address) (simp add: rejected_status_def)
  from invalid_mapping_blocks [OF m this assms(7,8)] o show ?thesis by simp
qed
end
