(* ===== verification/ListenControl.thy ===== *)
theory ListenControl
  imports GoNet Diagnostic NetServe "HOL-Library.AList"
begin

text \<open>
  The control server of strict listeners (src/internal/listencontrol/server.go).  A program in WSL
  reserves the Windows port before it listens; the server keeps a lease per reservation with the
  processes that own it.  A reservation is a number, and \<open>lc_closed\<close> logs the \<open>Close\<close> calls.  Leases
  are objects of a heap: the map \<open>lc_leases\<close> holds their addresses, and a goroutine may still hold an
  object that has left the map.  The maps are association lists in some order of iteration.

  A handler is split where it calls its backend or takes another lock; \<open>ListenLeases\<close> interleaves
  these sections.
\<close>

section \<open>State\<close>

record lease =
  le_reservation :: "nat option"
  le_windows :: bytes
  le_wsl :: bytes
  le_datagram :: bool
  le_owners :: "(int \<times> bytes) list"
  le_targets :: "(int \<times> bytes) list"
  le_committed :: bool

record control =
  lc_leases :: "(u64 \<times> nat) list"
  lc_heap :: "lease list"
  lc_pending :: int
  lc_next :: u64
  lc_closed :: "nat list"

definition new_control :: control where
  "new_control = \<lparr>lc_leases = [], lc_heap = [], lc_pending = 0, lc_next = 0, lc_closed = []\<rparr>"

text \<open>The configuration, and whether the two reserve functions are set.\<close>

record controlConfig =
  ck_Path :: bytes
  ck_WindowsHost :: bytes
  ck_WindowsHost6 :: bytes
  ck_Reserve :: bool
  ck_ReserveDatagram :: bool
  ck_MaxConnections :: int
  ck_MaxLeases :: int
  ck_MaxOwners :: int

definition control_defaults :: "controlConfig \<Rightarrow> controlConfig result" where
  "control_defaults c =
     (if ck_Path c = [] \<or> (\<not> ck_Reserve c \<and> \<not> ck_ReserveDatagram c)
      then Inl (ErrText (str ''control socket path and at least one reserve function are required''))
      else Inr (c\<lparr>ck_WindowsHost := (if ck_WindowsHost c = [] then str ''127.0.0.1'' else ck_WindowsHost c),
                  ck_WindowsHost6 := (if ck_WindowsHost6 c = [] then str ''::1'' else ck_WindowsHost6 c),
                  ck_MaxConnections := (if ck_MaxConnections c \<le> 0 then 64 else ck_MaxConnections c),
                  ck_MaxLeases := (if ck_MaxLeases c \<le> 0 then 512 else ck_MaxLeases c),
                  ck_MaxOwners := (if ck_MaxOwners c \<le> 0 then 256 else ck_MaxOwners c)\<rparr>))"

section \<open>Responses\<close>

abbreviation MaxControlResponseBytes :: int where "MaxControlResponseBytes \<equiv> 255"

definition control_error :: "nat \<Rightarrow> bytes \<Rightarrow> bytes" where
  "control_error errno message =
     (let prefix = str ''ERR '' @ decimal errno @ str '' '';
          maximum = MaxControlResponseBytes - int (length prefix) - 1
      in prefix @ SingleLine message maximum @ [10])"

definition errnoFor :: "goerr \<Rightarrow> nat" where "errnoFor err = 98"

definition ok_line :: bytes where "ok_line = str ''OK'' @ [10]"

section \<open>Leases\<close>

definition lc_close :: "nat option \<Rightarrow> control \<Rightarrow> control" where
  "lc_close r s = (case r of None \<Rightarrow> s | Some h \<Rightarrow> s\<lparr>lc_closed := lc_closed s @ [h]\<rparr>)"

definition heap_update :: "nat \<Rightarrow> (lease \<Rightarrow> lease) \<Rightarrow> control \<Rightarrow> control" where
  "heap_update k f s = s\<lparr>lc_heap := (lc_heap s)[k := f (lc_heap s ! k)]\<rparr>"

definition acquireLeaseSlot :: "controlConfig \<Rightarrow> control \<Rightarrow> control \<times> bool" where
  "acquireLeaseSlot cfg s =
     (let maximum = (if ck_MaxLeases cfg \<le> 0 then 512 else ck_MaxLeases cfg) in
      if maximum \<le> int (length (lc_leases s)) + lc_pending s then (s, False)
      else (s\<lparr>lc_pending := lc_pending s + 1\<rparr>, True))"

definition releaseLeaseSlot :: "control \<Rightarrow> control" where
  "releaseLeaseSlot s = (if 0 < lc_pending s then s\<lparr>lc_pending := lc_pending s - 1\<rparr> else s)"

text \<open>The two sections of \<open>remove\<close>: the lease leaves the map; then its reservation is closed.\<close>

definition remove_lease :: "u64 \<Rightarrow> control \<Rightarrow> control \<times> nat option" where
  "remove_lease i s = (s\<lparr>lc_leases := AList.delete i (lc_leases s)\<rparr>, map_of (lc_leases s) i)"

definition close_lease :: "nat \<Rightarrow> control \<Rightarrow> control" where
  "close_lease k s = lc_close (le_reservation (lc_heap s ! k)) s"

definition control_remove :: "u64 \<Rightarrow> control \<Rightarrow> control" where
  "control_remove i s = (case remove_lease i s of (s1, None) \<Rightarrow> s1 | (s1, Some k) \<Rightarrow> close_lease k s1)"

text \<open>\<open>removeOwner\<close>, whose reservation the caller closes.  A missing owner reads as the empty identity.\<close>

definition removeOwner :: "u64 \<Rightarrow> int \<Rightarrow> bytes \<Rightarrow> control \<Rightarrow> control \<times> nat option" where
  "removeOwner i pid identity s =
     (case map_of (lc_leases s) i of
        None \<Rightarrow> (s, None)
      | Some k \<Rightarrow>
          let l = lc_heap s ! k in
          if (case map_of (le_owners l) pid of None \<Rightarrow> [] | Some x \<Rightarrow> x) \<noteq> identity then (s, None)
          else
            let s1 = heap_update k (\<lambda>l. l\<lparr>le_owners := AList.delete pid (le_owners l),
                                          le_targets := AList.delete pid (le_targets l)\<rparr>) s in
            if le_owners (lc_heap s1 ! k) \<noteq> [] then (s1, None)
            else (s1\<lparr>lc_leases := AList.delete i (lc_leases s1)\<rparr>, Some k))"

section \<open>Requests\<close>

definition parseOwnerParts :: "bytes list \<Rightarrow> (u64 \<times> int) option" where
  "parseOwnerParts parts =
     (case parts of
        [op, p, q] \<Rightarrow>
          (case Atoi p of
             None \<Rightarrow> None
           | Some pid \<Rightarrow>
               if pid \<le> 0 then None
               else (case ParseUint q 10 64 of
                   None \<Rightarrow> None
                 | Some i \<Rightarrow> if i = 0 then None else Some (word_of_nat i, pid)))
      | _ \<Rightarrow> None)"

definition parseAdoptParts :: "bytes list \<Rightarrow> (u64 \<times> int \<times> bytes) option" where
  "parseAdoptParts parts =
     (if length parts \<noteq> 3 \<and> length parts \<noteq> 4 then None
      else case parseOwnerParts (take 3 parts) of
        None \<Rightarrow> None
      | Some (i, pid) \<Rightarrow> Some (i, pid, if length parts = 4 then parts ! 3 else []))"

record reserveRequest =
  rr_pid :: int
  rr_identity :: bytes
  rr_datagram :: bool
  rr_windows :: bytes
  rr_wsl :: bytes
  rr_target :: bytes

text \<open>The checks of \<open>handleReserve\<close> before it takes a slot; an error is the response to write.\<close>

definition reserve_request ::
  "controlConfig \<Rightarrow> (int \<Rightarrow> bytes result) \<Rightarrow> bytes list \<Rightarrow> bytes + reserveRequest" where
  "reserve_request cfg processIdentity parts =
     (if length parts \<noteq> 4 \<and> length parts \<noteq> 5 \<and> length parts \<noteq> 6
      then Inl (control_error 22 (str ''RESERVE requires pid, network, and port''))
      else case Atoi (parts ! 1) of
        None \<Rightarrow> Inl (control_error 22 (str ''invalid pid''))
      | Some pid \<Rightarrow>
      let network = parts ! 2; four = (network = str ''tcp4'' \<or> network = str ''udp4'');
          six = (network = str ''tcp6'' \<or> network = str ''udp6'');
          udp = (network = str ''udp4'' \<or> network = str ''udp6'') in
      if pid \<le> 0 then Inl (control_error 22 (str ''invalid pid''))
      else if \<not> four \<and> \<not> six then Inl (control_error 97 (str ''unsupported network''))
      else if udp \<and> \<not> ck_ReserveDatagram cfg then Inl (control_error 95 (str ''UDP reverse forwarding is unavailable''))
      else if \<not> udp \<and> \<not> ck_Reserve cfg then Inl (control_error 95 (str ''TCP reverse forwarding is unavailable''))
      else case processIdentity pid of
        Inl err \<Rightarrow> Inl (control_error 3 (str ''requesting process no longer exists''))
      | Inr identity \<Rightarrow>
      (case ParseUint (parts ! 3) 10 16 of
        None \<Rightarrow> Inl (control_error 22 (str ''invalid port''))
      | Some port \<Rightarrow>
      if port = 0 then Inl (control_error 22 (str ''invalid port''))
      else
        let windowsHost = (if six then ck_WindowsHost6 cfg else ck_WindowsHost cfg);
            given = (if 5 \<le> length parts then parts ! 4 else []);
            wslHost =
              (if given = [] then (if six then str ''::1'' else str ''127.0.0.1'')
               else if four \<and> (given = str ''0.0.0.0'' \<or> given = str ''::'') then str ''127.0.0.1''
               else if six \<and> given = str ''::'' then str ''::1''
               else given)
        in Inr \<lparr>rr_pid = pid, rr_identity = identity, rr_datagram = udp,
                rr_windows = JoinHostPort windowsHost (decimal port), rr_wsl = JoinHostPort wslHost (decimal port),
                rr_target = (if length parts = 6 then parts ! 5 else [])\<rparr>))"

definition new_lease :: "reserveRequest \<Rightarrow> nat \<Rightarrow> lease" where
  "new_lease r h =
     \<lparr>le_reservation = Some h, le_windows = rr_windows r, le_wsl = rr_wsl r, le_datagram = rr_datagram r,
      le_owners = [(rr_pid r, rr_identity r)], le_targets = [(rr_pid r, rr_target r)], le_committed = False\<rparr>"

text \<open>The section that turns the slot into a lease.\<close>

definition install_lease :: "reserveRequest \<Rightarrow> nat \<Rightarrow> control \<Rightarrow> control \<times> u64" where
  "install_lease r h s =
     (let i = lc_next s + 1 in
      (s\<lparr>lc_next := i, lc_pending := lc_pending s - 1,
         lc_leases := AList.update i (length (lc_heap s)) (lc_leases s), lc_heap := lc_heap s @ [new_lease r h]\<rparr>, i))"

text \<open>
  \<open>handleReserve\<close> without interruption: what the reserve function answers, and whether the response can
  be written.
\<close>

definition handleReserve ::
  "controlConfig \<Rightarrow> (int \<Rightarrow> bytes result) \<Rightarrow> bytes list \<Rightarrow> nat option \<times> goerr option \<Rightarrow> bool \<Rightarrow> control \<Rightarrow> control \<times> bytes" where
  "handleReserve cfg processIdentity parts answer writable s =
     (case reserve_request cfg processIdentity parts of
        Inl response \<Rightarrow> (s, response)
      | Inr r \<Rightarrow>
          (case acquireLeaseSlot cfg s of
             (s1, False) \<Rightarrow> (s1, control_error 28 (str ''strict listener lease limit reached''))
           | (s1, True) \<Rightarrow>
               (case answer of
                  (h, Some err) \<Rightarrow> (releaseLeaseSlot s1, control_error (errnoFor err) (error_text err))
                | (None, None) \<Rightarrow> (releaseLeaseSlot s1, control_error 5 (str ''reservation backend returned nil''))
                | (Some h, None) \<Rightarrow>
                    (case install_lease r h s1 of (s2, i) \<Rightarrow>
                       let response = str ''OK '' @ decimal (unat i) @ [10] in
                       if writable then (s2, response) else (control_remove i s2, response)))))"

definition adopt_lease :: "controlConfig \<Rightarrow> u64 \<Rightarrow> int \<Rightarrow> bytes \<Rightarrow> bytes \<Rightarrow> control \<Rightarrow> control \<times> bytes" where
  "adopt_lease cfg i pid identity target s =
     (case map_of (lc_leases s) i of
        None \<Rightarrow> (s, control_error 2 (str ''unknown lease''))
      | Some k \<Rightarrow>
          let l = lc_heap s ! k; maximumOwners = (if ck_MaxOwners cfg \<le> 0 then 256 else ck_MaxOwners cfg) in
          if map_of (le_owners l) pid = None \<and> maximumOwners \<le> int (length (le_owners l))
          then (s, control_error 28 (str ''strict listener owner limit reached''))
          else (heap_update k (\<lambda>l. l\<lparr>le_owners := AList.update pid identity (le_owners l),
                                     le_targets := AList.update pid target (le_targets l)\<rparr>) s, ok_line))"

definition handleAdopt ::
  "controlConfig \<Rightarrow> (int \<Rightarrow> bytes result) \<Rightarrow> bytes list \<Rightarrow> control \<Rightarrow> control \<times> bytes" where
  "handleAdopt cfg processIdentity parts s =
     (case parseAdoptParts parts of
        None \<Rightarrow> (s, control_error 22 (str ''ADOPT requires pid and lease''))
      | Some (i, pid, target) \<Rightarrow>
          (case processIdentity pid of
             Inl err \<Rightarrow> (s, control_error 3 (str ''adopting process no longer exists''))
           | Inr identity \<Rightarrow> adopt_lease cfg i pid identity target s))"

definition release_owner :: "u64 \<Rightarrow> int \<Rightarrow> bytes \<Rightarrow> control \<Rightarrow> control" where
  "release_owner i pid identity s =
     (case removeOwner i pid identity s of (s1, None) \<Rightarrow> s1 | (s1, Some k) \<Rightarrow> close_lease k s1)"

definition handleRelease :: "(int \<Rightarrow> bytes result) \<Rightarrow> bytes list \<Rightarrow> control \<Rightarrow> control \<times> bytes" where
  "handleRelease processIdentity parts s =
     (case parseOwnerParts parts of
        None \<Rightarrow> (s, control_error 22 (str ''RELEASE requires pid and lease''))
      | Some (i, pid) \<Rightarrow>
          (case processIdentity pid of
             Inl err \<Rightarrow> (s, ok_line)
           | Inr identity \<Rightarrow> (release_owner i pid identity s, ok_line)))"

definition lookup_lease :: "bytes list \<Rightarrow> control \<Rightarrow> (u64 \<times> nat) option" where
  "lookup_lease parts s =
     (case parts of
        [op, q] \<Rightarrow>
          (case ParseUint q 10 64 of
             None \<Rightarrow> None
           | Some n \<Rightarrow> map_option (Pair (word_of_nat n)) (map_of (lc_leases s) (word_of_nat n)))
      | _ \<Rightarrow> None)"

text \<open>The section of \<open>handleCommit\<close> under the lock of the lease; \<open>commitErr\<close> is the outcome of \<open>Commit\<close>.\<close>

definition commit_lease :: "nat \<Rightarrow> goerr option \<Rightarrow> control \<Rightarrow> control \<times> bytes option \<times> goerr option" where
  "commit_lease k commitErr s =
     (if le_reservation (lc_heap s ! k) = None then (s, Some (control_error 5 (str ''lease has no reservation'')), None)
      else case commitErr of
        None \<Rightarrow> (heap_update k (\<lambda>l. l\<lparr>le_committed := True\<rparr>) s, Some ok_line, None)
      | Some err \<Rightarrow> (s, None, Some err))"

definition handleCommit :: "bytes list \<Rightarrow> goerr option \<Rightarrow> control \<Rightarrow> control \<times> bytes" where
  "handleCommit parts commitErr s =
     (case lookup_lease parts s of
        None \<Rightarrow> (s, control_error 2 (str ''unknown lease''))
      | Some (i, k) \<Rightarrow>
          (case commit_lease k commitErr s of
             (s1, Some response, e) \<Rightarrow> (s1, response)
           | (s1, None, Some err) \<Rightarrow> (control_remove i s1, control_error (errnoFor err) (error_text err))
           | (s1, None, None) \<Rightarrow> (s1, [])))"

definition handleClose :: "bytes list \<Rightarrow> control \<Rightarrow> control \<times> bytes" where
  "handleClose parts s =
     (case lookup_lease parts s of None \<Rightarrow> (s, ok_line) | Some (i, k) \<Rightarrow> (control_remove i s, ok_line))"

text \<open>
  \<open>handle\<close>: the request line, as \<open>ReadString\<close> of the limited reader delivers it; \<open>None\<close> as a response when
  the line cannot be read.
\<close>

definition control_handle ::
  "controlConfig \<Rightarrow> (int \<Rightarrow> bytes result) \<Rightarrow> bytes \<Rightarrow> nat option \<times> goerr option \<Rightarrow> goerr option \<Rightarrow> bool
     \<Rightarrow> control \<Rightarrow> control \<times> bytes option" where
  "control_handle cfg processIdentity input answer commitErr writable s =
     (let line = takeWhile (\<lambda>b. b \<noteq> 10) (take 4097 input) in
      if length line = length (take 4097 input) then (s, None)
      else case Fields line of
        [] \<Rightarrow> (s, Some (control_error 22 (str ''empty request'')))
      | op # rest \<Rightarrow>
          let parts = op # rest;
              (s1, response) =
                (if op = str ''RESERVE'' then handleReserve cfg processIdentity parts answer writable s
                 else if op = str ''COMMIT'' then handleCommit parts commitErr s
                 else if op = str ''ADOPT'' then handleAdopt cfg processIdentity parts s
                 else if op = str ''RELEASE'' then handleRelease processIdentity parts s
                 else if op = str ''ABORT'' \<or> op = str ''CLOSE'' then handleClose parts s
                 else (s, control_error 22 (str ''unknown operation'')))
          in (s1, Some response))"

section \<open>Closing, reaping and rebinding\<close>

definition control_closeAll :: "control \<Rightarrow> control" where
  "control_closeAll s = foldl (\<lambda>s k. close_lease k s) (s\<lparr>lc_leases := []\<rparr>) (map snd (lc_leases s))"

definition reap_candidates :: "control \<Rightarrow> (u64 \<times> int \<times> bytes \<times> bytes) list" where
  "reap_candidates s =
     concat (map (\<lambda>(i, k). map (\<lambda>(pid, identity).
       (i, pid, identity, case map_of (le_targets (lc_heap s ! k)) pid of None \<Rightarrow> [] | Some t \<Rightarrow> t))
       (le_owners (lc_heap s ! k))) (lc_leases s))"

definition processHasDescriptor :: "bytes \<Rightarrow> bytes option list result \<Rightarrow> bool" where
  "processHasDescriptor target links \<longleftrightarrow>
     target = [] \<or> (case links of Inl err \<Rightarrow> True | Inr ls \<Rightarrow> Some target \<in> set ls)"

definition reap_one ::
  "(int \<Rightarrow> bytes result) \<Rightarrow> (int \<Rightarrow> bytes option list result) \<Rightarrow> u64 \<times> int \<times> bytes \<times> bytes \<Rightarrow> control \<Rightarrow> control" where
  "reap_one processIdentity links candidate s =
     (case candidate of (i, pid, identity, target) \<Rightarrow>
        if (case processIdentity pid of Inl err \<Rightarrow> True | Inr now \<Rightarrow> now \<noteq> identity)
           \<or> (target \<noteq> [] \<and> \<not> processHasDescriptor target (links pid))
        then release_owner i pid identity s else s)"

definition reapDeadProcesses ::
  "(int \<Rightarrow> bytes result) \<Rightarrow> (int \<Rightarrow> bytes option list result) \<Rightarrow> control \<Rightarrow> control" where
  "reapDeadProcesses processIdentity links s =
     foldl (\<lambda>s c. reap_one processIdentity links c s) s (reap_candidates s)"

text \<open>
  The sections of \<open>rebind\<close> on one lease: taking the old reservation, and installing the replacement
  (\<open>commitErr\<close> is the outcome of its \<open>Commit\<close>).
\<close>

definition rebind_take :: "bool \<Rightarrow> nat \<Rightarrow> control \<Rightarrow> control \<times> nat option option" where
  "rebind_take onlyMissing k s =
     (if onlyMissing \<and> le_reservation (lc_heap s ! k) \<noteq> None then (s, None)
      else (heap_update k (\<lambda>l. l\<lparr>le_reservation := None\<rparr>) s, Some (le_reservation (lc_heap s ! k))))"

definition rebind_install :: "u64 \<Rightarrow> nat \<Rightarrow> nat \<Rightarrow> goerr option \<Rightarrow> control \<Rightarrow> control \<times> bytes option" where
  "rebind_install i k h commitErr s =
     (if le_committed (lc_heap s ! k) \<and> commitErr \<noteq> None
      then (lc_close (Some h) s, Some (str ''lease '' @ decimal (unat i) @ str '' commit: '' @ error_text (the commitErr)))
      else if map_of (lc_leases s) i \<noteq> Some k then (lc_close (Some h) s, None)
      else (heap_update k (\<lambda>l. l\<lparr>le_reservation := Some h\<rparr>) s, None))"

definition rebind_failure :: "u64 \<Rightarrow> bytes \<Rightarrow> bytes" where
  "rebind_failure i what = str ''lease '' @ decimal (unat i) @ str '': '' @ what"

text \<open>
  The answers of the environment for one lease: \<open>ctx.Err()\<close>, the reserve function, \<open>Commit\<close>.
\<close>

record rebindAnswer =
  ra_ctx :: "goerr option"
  ra_reserve :: "nat option \<times> goerr option"
  ra_commit :: "goerr option"

definition rebind_one ::
  "bool \<Rightarrow> bool \<Rightarrow> bool \<Rightarrow> u64 \<Rightarrow> nat \<Rightarrow> rebindAnswer \<Rightarrow> control \<Rightarrow> control \<times> bytes option" where
  "rebind_one tcp udp onlyMissing i k answer s =
     (case ra_ctx answer of
        Some err \<Rightarrow> (s, Some (rebind_failure i (error_text err)))
      | None \<Rightarrow>
          (case rebind_take onlyMissing k s of
             (s1, None) \<Rightarrow> (s1, None)
           | (s1, Some old) \<Rightarrow>
               let s2 = lc_close old s1; datagram = le_datagram (lc_heap s2 ! k) in
               if (datagram \<and> \<not> udp) \<or> (\<not> datagram \<and> \<not> tcp)
               then (s2, Some (rebind_failure i (str ''reservation type unavailable'')))
               else (case ra_reserve answer of
                   (h, Some err) \<Rightarrow> (s2, Some (rebind_failure i (error_text err)))
                 | (None, None) \<Rightarrow> (s2, Some (rebind_failure i (str ''reservation backend returned nil'')))
                 | (Some h, None) \<Rightarrow> rebind_install i k h (ra_commit answer) s2)))"

fun rebind_loop ::
  "bool \<Rightarrow> bool \<Rightarrow> bool \<Rightarrow> ((u64 \<times> nat) \<times> rebindAnswer) list \<Rightarrow> control \<Rightarrow> control \<times> bytes list" where
  "rebind_loop tcp udp onlyMissing [] s = (s, [])"
| "rebind_loop tcp udp onlyMissing (((i, k), answer) # rest) s =
     (case rebind_one tcp udp onlyMissing i k answer s of (s1, failure) \<Rightarrow>
        (case rebind_loop tcp udp onlyMissing rest s1 of (s2, failures) \<Rightarrow>
           (s2, (case failure of None \<Rightarrow> [] | Some f \<Rightarrow> [f]) @ failures)))"

definition rebind :: "bool \<Rightarrow> bool \<Rightarrow> bool \<Rightarrow> (u64 \<Rightarrow> rebindAnswer) \<Rightarrow> control \<Rightarrow> control \<times> goerr option" where
  "rebind tcp udp onlyMissing answers s =
     (if \<not> tcp \<and> \<not> udp then (s, Some (ErrText (str ''at least one reserve function is required'')))
      else case rebind_loop tcp udp onlyMissing (map (\<lambda>(i, k). ((i, k), answers i)) (lc_leases s)) s of
        (s1, failures) \<Rightarrow>
          (s1, if failures \<noteq> [] then Some (ErrText (strings_Join failures (str ''; ''))) else None))"

definition control_Rebind where "control_Rebind tcp udp answers s = rebind tcp udp False answers s"
definition control_RetryMissing where "control_RetryMissing tcp udp answers s = rebind tcp udp True answers s"

section \<open>Processes and the socket file\<close>

definition procProcessIdentity :: "bytes result \<Rightarrow> bytes result" where
  "procProcessIdentity stat =
     rbind stat (\<lambda>text.
       case LastIndexByte text 41 of
         None \<Rightarrow> Inl (ErrText (str ''malformed proc stat''))
       | Some e \<Rightarrow>
           let cols = Fields (drop (Suc e) text) in
           if length cols \<le> 19 then Inl (ErrText (str ''incomplete proc stat'')) else Inr (cols ! 19))"

definition isStaleSocketProbeError :: "goerr \<Rightarrow> bool" where
  "isStaleSocketProbeError err \<longleftrightarrow>
     err_is err SysECONNREFUSED \<or> err_is err SysENOENT \<or> err_is err SysECONNRESET"

text \<open>
  What the file system answers: \<open>MkdirAll\<close>, \<open>Lstat\<close> (is it a socket), the probe, \<open>Remove\<close>.  The result says
  whether the path was removed.
\<close>

definition prepareSocketPath ::
  "bytes \<Rightarrow> goerr option \<Rightarrow> bool result \<Rightarrow> goerr option \<Rightarrow> goerr option \<Rightarrow> bool \<times> goerr option" where
  "prepareSocketPath path mkdirErr lstat probeErr removeErr =
     (case mkdirErr of
        Some err \<Rightarrow> (False, Some err)
      | None \<Rightarrow>
          (case lstat of
             Inl err \<Rightarrow> (False, if err_is err OsErrNotExist then None else Some err)
           | Inr isSocket \<Rightarrow>
               if \<not> isSocket then (False, Some (ErrText (str ''refusing to replace non-socket path '' @ path)))
               else (case probeErr of
                   None \<Rightarrow> (False, Some (ErrText (str ''control socket already in use: '' @ path)))
                 | Some err \<Rightarrow>
                     if \<not> isStaleSocketProbeError err
                     then (False, Some (ErrWrapped (str ''cannot determine whether control socket is in use: '' @ error_text err) err))
                     else (case removeErr of
                         Some e \<Rightarrow> (False, if err_is e OsErrNotExist then None else Some e)
                       | None \<Rightarrow> (True, None)))))"

definition cleanupSocketPath :: "bool result \<Rightarrow> goerr option \<Rightarrow> bool" where
  "cleanupSocketPath lstat probeErr =
     (case lstat of
        Inl err \<Rightarrow> False
      | Inr isSocket \<Rightarrow>
          isSocket \<and> (case probeErr of None \<Rightarrow> False | Some err \<Rightarrow> isStaleSocketProbeError err))"

section \<open>Serving\<close>

text \<open>
  How \<open>Serve\<close> opens its socket: \<open>Some\<close> error it returns, and whether it leaves a listener open.  The
  arguments are the outcomes of \<open>prepareSocketPath\<close>, \<open>net.Listen\<close>, \<open>ProtectUnixPath\<close> and \<open>Chmod\<close>.
\<close>

definition control_listen ::
  "controlConfig \<Rightarrow> goerr option \<Rightarrow> goerr option \<Rightarrow> goerr option \<Rightarrow> goerr option \<Rightarrow> controlConfig result \<times> bool" where
  "control_listen c prepareErr listenErr protectErr chmodErr =
     (case control_defaults c of
        Inl err \<Rightarrow> (Inl err, False)
      | Inr cfg \<Rightarrow>
          (case prepareErr of
             Some err \<Rightarrow> (Inl err, False)
           | None \<Rightarrow>
          (case listenErr of
             Some err \<Rightarrow> (Inl (ErrWrapped (str ''listen on '' @ ck_Path cfg @ str '': '' @ error_text err) err), False)
           | None \<Rightarrow>
          (case protectErr of
             Some err \<Rightarrow> (Inl (ErrWrapped (str ''protect control socket: '' @ error_text err) err), False)
           | None \<Rightarrow>
          (case chmodErr of
             Some err \<Rightarrow> (Inl (ErrWrapped (str ''secure control socket: '' @ error_text err) err), False)
           | None \<Rightarrow> (Inr cfg, True))))))"

text \<open>
  A connection that was accepted, as in \<open>netserve\<close>: beyond the limit it is closed at once.  The deferred
  function closes the listener and the connections, waits for the handlers, and closes all leases.
\<close>

definition control_accept :: "controlConfig \<Rightarrow> nat \<Rightarrow> serving \<Rightarrow> serving" where
  "control_accept cfg c s = serve_accept (nat (ck_MaxConnections cfg)) c s"

definition control_exit :: "bool result \<Rightarrow> goerr option \<Rightarrow> control \<Rightarrow> control \<times> bool" where
  "control_exit lstat probeErr s = (control_closeAll s, cleanupSocketPath lstat probeErr)"

end
