(* ===== verification/ListenLeases.thy ===== *)
theory ListenLeases
  imports ListenControl
begin

text \<open>
  The interleaving of the handlers of the control server with the reaper and with \<open>rebind\<close>, and its
  invariant: no reservation is lost, the limits hold, and every lease has an owner.

  Only one \<open>rebind\<close> runs at a time.  The counter of lease ids advances in the section that installs
  the lease; the code advances it just before, so concurrent requests may get their ids in another order.  The backend returns no reservation together with an error.
  \<open>lx_opened\<close> collects the reservations that were ever returned, \<open>lx_installs\<close> counts the leases.
\<close>

datatype rebindPhase =
    RIdle
  | RClosing u64 nat "nat option"
  | RReserving u64 nat
  | RInstalling u64 nat nat

record leaseSystem =
  lx_control :: control
  lx_reserving :: "reserveRequest list"
  lx_removing :: "nat list"
  lx_rebind :: rebindPhase
  lx_opened :: "nat list"
  lx_installs :: nat

definition start_leases :: leaseSystem where
  "start_leases = \<lparr>lx_control = new_control, lx_reserving = [], lx_removing = [], lx_rebind = RIdle, lx_opened = [], lx_installs = 0\<rparr>"

inductive lease_step :: "controlConfig \<Rightarrow> leaseSystem \<Rightarrow> leaseSystem \<Rightarrow> bool" for cfg where
  reserve_begin: "lease_step cfg s (s\<lparr>lx_control := c, lx_reserving := lx_reserving s @ [r]\<rparr>)"
    if "reserve_request cfg processIdentity parts = Inr r" "acquireLeaseSlot cfg (lx_control s) = (c, True)"
| reserve_failed: "lease_step cfg s (s\<lparr>lx_control := releaseLeaseSlot (lx_control s), lx_reserving := rs @ qs\<rparr>)"
    if "lx_reserving s = rs @ r # qs"
| reserved: "lease_step cfg s (s\<lparr>lx_control := fst (install_lease r h (lx_control s)), lx_reserving := rs @ qs,
      lx_opened := h # lx_opened s, lx_installs := Suc (lx_installs s)\<rparr>)"
    if "lx_reserving s = rs @ r # qs"
| adopt: "lease_step cfg s (s\<lparr>lx_control := fst (adopt_lease cfg i pid identity target (lx_control s))\<rparr>)"
| release: "lease_step cfg s (s\<lparr>lx_control := fst (removeOwner i pid identity (lx_control s)),
      lx_removing := (case snd (removeOwner i pid identity (lx_control s)) of None \<Rightarrow> [] | Some k \<Rightarrow> [k]) @ lx_removing s\<rparr>)"
| remove: "lease_step cfg s (s\<lparr>lx_control := fst (remove_lease i (lx_control s)),
      lx_removing := (case snd (remove_lease i (lx_control s)) of None \<Rightarrow> [] | Some k \<Rightarrow> [k]) @ lx_removing s\<rparr>)"
| close_removed: "lease_step cfg s (s\<lparr>lx_control := close_lease k (lx_control s), lx_removing := ks @ js\<rparr>)"
    if "lx_removing s = ks @ k # js"
| commit: "lease_step cfg s (s\<lparr>lx_control := fst (commit_lease k e (lx_control s))\<rparr>)"
    if "k < length (lc_heap (lx_control s))"
| close_all: "lease_step cfg s (s\<lparr>lx_control := (lx_control s)\<lparr>lc_leases := []\<rparr>,
      lx_removing := map snd (lc_leases (lx_control s)) @ lx_removing s\<rparr>)"
| rebind_taken: "lease_step cfg s (s\<lparr>lx_control := c, lx_rebind := RClosing i k old\<rparr>)"
    if "lx_rebind s = RIdle" "k < length (lc_heap (lx_control s))"
      "rebind_take onlyMissing k (lx_control s) = (c, Some old)"
| rebind_closed: "lease_step cfg s (s\<lparr>lx_control := lc_close old (lx_control s), lx_rebind := RReserving i k\<rparr>)"
    if "lx_rebind s = RClosing i k old"
| rebind_failed: "lease_step cfg s (s\<lparr>lx_rebind := RIdle\<rparr>)"
    if "lx_rebind s = RReserving i k"
| rebind_reserved: "lease_step cfg s (s\<lparr>lx_rebind := RInstalling i k h, lx_opened := h # lx_opened s\<rparr>)"
    if "lx_rebind s = RReserving i k"
| rebind_installed: "lease_step cfg s (s\<lparr>lx_control := fst (rebind_install i k h e (lx_control s)), lx_rebind := RIdle\<rparr>)"
    if "lx_rebind s = RInstalling i k h"

abbreviation lease_steps :: "controlConfig \<Rightarrow> leaseSystem \<Rightarrow> leaseSystem \<Rightarrow> bool" where
  "lease_steps cfg \<equiv> (lease_step cfg)\<^sup>*\<^sup>*"

section \<open>Invariant\<close>

definition lease_limit :: "controlConfig \<Rightarrow> int" where
  "lease_limit cfg = (if ck_MaxLeases cfg \<le> 0 then 512 else ck_MaxLeases cfg)"

definition owner_limit :: "controlConfig \<Rightarrow> int" where
  "owner_limit cfg = (if ck_MaxOwners cfg \<le> 0 then 256 else ck_MaxOwners cfg)"

text \<open>Who is responsible for a reservation: a lease of the map, a pending removal, or the running rebind.\<close>

fun rebind_holds :: "rebindPhase \<Rightarrow> nat \<Rightarrow> bool" where
  "rebind_holds (RClosing i k old) h \<longleftrightarrow> old = Some h"
| "rebind_holds (RInstalling i k x) h \<longleftrightarrow> x = h"
| "rebind_holds _ h \<longleftrightarrow> False"

fun rebind_lease :: "rebindPhase \<Rightarrow> nat option" where
  "rebind_lease (RClosing i k old) = Some k"
| "rebind_lease (RReserving i k) = Some k"
| "rebind_lease (RInstalling i k x) = Some k"
| "rebind_lease RIdle = None"

definition live :: "leaseSystem \<Rightarrow> nat set" where
  "live s = snd ` set (lc_leases (lx_control s)) \<union> set (lx_removing s)"

definition accounted :: "leaseSystem \<Rightarrow> nat \<Rightarrow> bool" where
  "accounted s h \<longleftrightarrow> h \<in> set (lc_closed (lx_control s)) \<or> rebind_holds (lx_rebind s) h
     \<or> (\<exists>k \<in> live s. le_reservation (lc_heap (lx_control s) ! k) = Some h)"

definition leases_ok :: "leaseSystem \<Rightarrow> bool" where
  "leases_ok s \<longleftrightarrow> distinct (map fst (lc_leases (lx_control s)))
     \<and> distinct (map snd (lc_leases (lx_control s)))
     \<and> (\<forall>k \<in> live s. k < length (lc_heap (lx_control s)))
     \<and> (\<forall>k. rebind_lease (lx_rebind s) = Some k \<longrightarrow> k < length (lc_heap (lx_control s)))
     \<and> lc_next (lx_control s) = word_of_nat (lx_installs s)
     \<and> (\<forall>i \<in> fst ` set (lc_leases (lx_control s)). \<exists>n \<le> lx_installs s. 0 < n \<and> i = word_of_nat n)"

definition limits_ok :: "controlConfig \<Rightarrow> leaseSystem \<Rightarrow> bool" where
  "limits_ok cfg s \<longleftrightarrow> lc_pending (lx_control s) = int (length (lx_reserving s))
     \<and> int (length (lc_leases (lx_control s))) + lc_pending (lx_control s) \<le> lease_limit cfg"

definition lease_owned :: "controlConfig \<Rightarrow> lease \<Rightarrow> bool" where
  "lease_owned cfg l \<longleftrightarrow> le_owners l \<noteq> [] \<and> distinct (map fst (le_owners l)) \<and> int (length (le_owners l)) \<le> owner_limit cfg"

definition owners_ok :: "controlConfig \<Rightarrow> leaseSystem \<Rightarrow> bool" where
  "owners_ok cfg s \<longleftrightarrow> (\<forall>k \<in> snd ` set (lc_leases (lx_control s)). lease_owned cfg (lc_heap (lx_control s) ! k))"

definition rebind_ok :: "leaseSystem \<Rightarrow> bool" where
  "rebind_ok s \<longleftrightarrow> (\<forall>k. rebind_lease (lx_rebind s) = Some k \<longrightarrow> le_reservation (lc_heap (lx_control s) ! k) = None)"

definition lease_core :: "controlConfig \<Rightarrow> leaseSystem \<Rightarrow> bool" where
  "lease_core cfg s \<longleftrightarrow> leases_ok s \<and> limits_ok cfg s \<and> owners_ok cfg s \<and> rebind_ok s \<and> (\<forall>h \<in> set (lx_opened s). accounted s h)"

section \<open>The operations\<close>

lemma heap_update_simps [simp]:
  "lc_leases (heap_update k f s) = lc_leases s" "lc_pending (heap_update k f s) = lc_pending s"
  "lc_next (heap_update k f s) = lc_next s" "lc_closed (heap_update k f s) = lc_closed s"
  "length (lc_heap (heap_update k f s)) = length (lc_heap s)"
  by (simp_all add: heap_update_def)

lemma heap_update_nth:
  "k < length (lc_heap s) \<Longrightarrow> lc_heap (heap_update k f s) ! j = (if j = k then f (lc_heap s ! k) else lc_heap s ! j)"
  by (simp add: heap_update_def nth_list_update)

lemma lc_close_simps [simp]:
  "lc_leases (lc_close r s) = lc_leases s" "lc_pending (lc_close r s) = lc_pending s"
  "lc_next (lc_close r s) = lc_next s" "lc_heap (lc_close r s) = lc_heap s"
  "set (lc_closed (lc_close r s)) = set (lc_closed s) \<union> set_option r"
  by (simp_all add: lc_close_def split: option.splits)

lemma close_lease_simps [simp]:
  "lc_leases (close_lease k s) = lc_leases s" "lc_pending (close_lease k s) = lc_pending s"
  "lc_next (close_lease k s) = lc_next s" "lc_heap (close_lease k s) = lc_heap s"
  "set (lc_closed (close_lease k s)) = set (lc_closed s) \<union> set_option (le_reservation (lc_heap s ! k))"
  by (simp_all add: close_lease_def)

text \<open>What happens to the leases when one is removed, by its id or with its last owner.\<close>

lemma remove_lease_simps [simp]:
  "lc_leases (fst (remove_lease i s)) = AList.delete i (lc_leases s)" "snd (remove_lease i s) = map_of (lc_leases s) i"
  "lc_heap (fst (remove_lease i s)) = lc_heap s" "lc_pending (fst (remove_lease i s)) = lc_pending s"
  "lc_next (fst (remove_lease i s)) = lc_next s" "lc_closed (fst (remove_lease i s)) = lc_closed s"
  by (simp_all add: remove_lease_def)

lemma removeOwner_cases:
  obtains (same) "removeOwner i pid identity s = (s, None)"
  | (shared) k where "map_of (lc_leases s) i = Some k"
      "removeOwner i pid identity s = (heap_update k (\<lambda>l. l\<lparr>le_owners := AList.delete pid (le_owners l),
          le_targets := AList.delete pid (le_targets l)\<rparr>) s, None)"
      "le_owners (lc_heap (fst (removeOwner i pid identity s)) ! k) \<noteq> []"
  | (gone) k f where "map_of (lc_leases s) i = Some k" "\<And>l. le_reservation (f l) = le_reservation l"
      "removeOwner i pid identity s = ((heap_update k f s)\<lparr>lc_leases := AList.delete i (lc_leases s)\<rparr>, Some k)"
proof (cases "map_of (lc_leases s) i")
  case None
  then show ?thesis using same by (simp add: removeOwner_def)
next
  case (Some k)
  let ?f = "\<lambda>l. l\<lparr>le_owners := AList.delete pid (le_owners l), le_targets := AList.delete pid (le_targets l)\<rparr>"
  consider "(case map_of (le_owners (lc_heap s ! k)) pid of None \<Rightarrow> [] | Some x \<Rightarrow> x) \<noteq> identity"
    | "(case map_of (le_owners (lc_heap s ! k)) pid of None \<Rightarrow> [] | Some x \<Rightarrow> x) = identity"
      "le_owners (lc_heap (heap_update k ?f s) ! k) \<noteq> []"
    | "(case map_of (le_owners (lc_heap s ! k)) pid of None \<Rightarrow> [] | Some x \<Rightarrow> x) = identity"
      "le_owners (lc_heap (heap_update k ?f s) ! k) = []" by blast
  then show ?thesis
  proof cases
    case 1
    then show ?thesis using same Some by (simp add: removeOwner_def Let_def)
  next
    case 2
    then show ?thesis using shared [OF Some] Some by (simp add: removeOwner_def Let_def)
  next
    case 3
    then show ?thesis using gone [OF Some, of ?f] Some by (simp add: removeOwner_def Let_def)
  qed
qed


section \<open>Preservation\<close>

lemma live_simps [simp]:
  "live (s\<lparr>lx_control := c\<rparr>) = snd ` set (lc_leases c) \<union> set (lx_removing s)"
  "live (s\<lparr>lx_reserving := r\<rparr>) = live s" "live (s\<lparr>lx_rebind := p\<rparr>) = live s"
  "live (s\<lparr>lx_opened := os\<rparr>) = live s" "live (s\<lparr>lx_installs := n\<rparr>) = live s"
  "live (s\<lparr>lx_removing := ks\<rparr>) = snd ` set (lc_leases (lx_control s)) \<union> set ks"
  by (simp_all add: live_def)

text \<open>The laws of the ids and addresses survive a step that adds no lease.\<close>

lemma leases_ok_shrink:
  assumes "leases_ok s" "set (lc_leases (lx_control s')) \<subseteq> set (lc_leases (lx_control s))"
    "distinct (map fst (lc_leases (lx_control s')))" "distinct (map snd (lc_leases (lx_control s')))"
    "live s' \<subseteq> live s" "length (lc_heap (lx_control s')) = length (lc_heap (lx_control s))"
    "\<And>k. rebind_lease (lx_rebind s') = Some k \<Longrightarrow> k < length (lc_heap (lx_control s))"
    "lc_next (lx_control s') = lc_next (lx_control s)" "lx_installs s' = lx_installs s"
  shows "leases_ok s'"
  using assms unfolding leases_ok_def by (auto 0 3)

lemma leases_ok_delete:
  assumes "leases_ok s" "lc_leases (lx_control s') = AList.delete i (lc_leases (lx_control s))"
    "live s' \<subseteq> live s" "length (lc_heap (lx_control s')) = length (lc_heap (lx_control s))"
    "lx_rebind s' = lx_rebind s" "lc_next (lx_control s') = lc_next (lx_control s)" "lx_installs s' = lx_installs s"
  shows "leases_ok s'"
proof (rule leases_ok_shrink [OF assms(1)])
  show "set (lc_leases (lx_control s')) \<subseteq> set (lc_leases (lx_control s))"
    using assms(2) alist_set_delete by fastforce
  show "distinct (map fst (lc_leases (lx_control s')))" "distinct (map snd (lc_leases (lx_control s')))"
    using assms(1,2) by (simp_all add: leases_ok_def distinct_delete alist_distinct_snd_delete)
  show "k < length (lc_heap (lx_control s))" if "rebind_lease (lx_rebind s') = Some k" for k
    using assms(1,5) that by (simp add: leases_ok_def)
qed (use assms in simp_all)

lemma leases_ok_same:
  assumes "leases_ok s" "lc_leases (lx_control s') = lc_leases (lx_control s)" "set (lx_removing s') \<subseteq> set (lx_removing s)"
    "length (lc_heap (lx_control s')) = length (lc_heap (lx_control s))"
    "\<And>k. rebind_lease (lx_rebind s') = Some k \<Longrightarrow> k < length (lc_heap (lx_control s))"
    "lc_next (lx_control s') = lc_next (lx_control s)" "lx_installs s' = lx_installs s"
  shows "leases_ok s'"
proof (rule leases_ok_shrink [OF assms(1)])
  show "live s' \<subseteq> live s" using assms(2,3) by (auto simp: live_def)
qed (use assms in \<open>simp_all add: leases_ok_def\<close>)

lemma leases_ok_rebind: "leases_ok s \<Longrightarrow> rebind_lease (lx_rebind s) = Some k \<Longrightarrow> k < length (lc_heap (lx_control s))"
  by (simp add: leases_ok_def)

lemma fresh_lease:
  assumes "leases_ok s" "Suc (lx_installs s) < 2 ^ 64"
  shows "lc_next (lx_control s) + 1 \<notin> fst ` set (lc_leases (lx_control s))"
proof
  assume "lc_next (lx_control s) + 1 \<in> fst ` set (lc_leases (lx_control s))"
  then obtain n where n: "n \<le> lx_installs s" "lc_next (lx_control s) + 1 = word_of_nat n"
    using assms(1) by (auto simp: leases_ok_def)
  have "lc_next (lx_control s) + 1 = word_of_nat (Suc (lx_installs s))" using assms(1) by (simp add: leases_ok_def)
  with n have "(word_of_nat n :: u64) = word_of_nat (Suc (lx_installs s))" by simp
  moreover have "n < 2 ^ 64" using n(1) assms(2) by linarith
  ultimately show False using of_nat_u64_eq [of n "Suc (lx_installs s)"] assms(2) n(1) by simp
qed

lemma install_lease_simps:
  assumes "leases_ok s" "Suc (lx_installs s) < 2 ^ 64"
  shows "lc_leases (fst (install_lease r h (lx_control s)))
      = lc_leases (lx_control s) @ [(lc_next (lx_control s) + 1, length (lc_heap (lx_control s)))]"
    "lc_heap (fst (install_lease r h (lx_control s))) = lc_heap (lx_control s) @ [new_lease r h]"
    "lc_closed (fst (install_lease r h (lx_control s))) = lc_closed (lx_control s)"
    "lc_pending (fst (install_lease r h (lx_control s))) = lc_pending (lx_control s) - 1"
    "lc_next (fst (install_lease r h (lx_control s))) = lc_next (lx_control s) + 1"
  using alist_update_new [OF fresh_lease [OF assms]] by (simp_all add: install_lease_def Let_def)

lemma leases_ok_install:
  assumes ok: "leases_ok s" and b: "Suc (lx_installs s) < 2 ^ 64"
  shows "leases_ok (s\<lparr>lx_control := fst (install_lease r h (lx_control s)), lx_reserving := q, lx_opened := os, lx_installs := Suc (lx_installs s)\<rparr>)"
proof -
  have "length (lc_heap (lx_control s)) \<notin> snd ` set (lc_leases (lx_control s))"
    using ok by (auto simp: leases_ok_def live_def)
  moreover have "\<exists>n \<le> Suc (lx_installs s). 0 < n \<and> i = word_of_nat n" if "i \<in> fst ` set (lc_leases (lx_control s))" for i
    using ok that unfolding leases_ok_def by (meson le_SucI)
  moreover have "\<exists>n \<le> Suc (lx_installs s). 0 < n \<and> lc_next (lx_control s) + 1 = word_of_nat n"
    using ok by (intro exI [of _ "Suc (lx_installs s)"]) (simp add: leases_ok_def)
  ultimately show ?thesis
    using ok fresh_lease [OF ok b] by (auto simp: leases_ok_def live_def install_lease_simps [OF ok b] less_Suc_eq)
qed

lemma adopt_lease_cases:
  obtains "fst (adopt_lease cfg i pid identity target s) = s"
  | k where "map_of (lc_leases s) i = Some k"
      "map_of (le_owners (lc_heap s ! k)) pid \<noteq> None \<or> int (length (le_owners (lc_heap s ! k))) < owner_limit cfg"
      "fst (adopt_lease cfg i pid identity target s) = heap_update k (\<lambda>l. l\<lparr>le_owners := AList.update pid identity (le_owners l),
         le_targets := AList.update pid target (le_targets l)\<rparr>) s"
  using that by (fastforce simp: adopt_lease_def Let_def owner_limit_def split: option.splits if_splits)

lemma commit_lease_cases:
  obtains "fst (commit_lease k e s) = s" | "fst (commit_lease k e s) = heap_update k (\<lambda>l. l\<lparr>le_committed := True\<rparr>) s"
  using that by (fastforce simp: commit_lease_def split: option.splits if_splits)

lemma rebind_take_cases:
  "rebind_take onlyMissing k s = (c, Some old) \<Longrightarrow>
     c = heap_update k (\<lambda>l. l\<lparr>le_reservation := None\<rparr>) s \<and> old = le_reservation (lc_heap s ! k)"
  by (auto simp: rebind_take_def split: if_splits)

lemma rebind_install_cases:
  obtains "fst (rebind_install i k h e s) = lc_close (Some h) s"
  | "map_of (lc_leases s) i = Some k" "fst (rebind_install i k h e s) = heap_update k (\<lambda>l. l\<lparr>le_reservation := Some h\<rparr>) s"
  using that by (fastforce simp: rebind_install_def split: if_splits)

lemma acquireLeaseSlot_True:
  "acquireLeaseSlot cfg s = (c, True) \<Longrightarrow>
     c = s\<lparr>lc_pending := lc_pending s + 1\<rparr> \<and> int (length (lc_leases s)) + lc_pending s < lease_limit cfg"
  by (auto simp: acquireLeaseSlot_def Let_def lease_limit_def split: if_splits)

lemma releaseLeaseSlot_simps [simp]:
  "lc_leases (releaseLeaseSlot s) = lc_leases s" "lc_heap (releaseLeaseSlot s) = lc_heap s"
  "lc_next (releaseLeaseSlot s) = lc_next s" "lc_closed (releaseLeaseSlot s) = lc_closed s"
  by (simp_all add: releaseLeaseSlot_def)

lemma map_of_live: "map_of (lc_leases (lx_control s)) i = Some k \<Longrightarrow> k \<in> live s"
  by (force simp: live_def dest: map_of_SomeD)

lemma live_length: "leases_ok s \<Longrightarrow> k \<in> live s \<Longrightarrow> k < length (lc_heap (lx_control s))"
  by (simp add: leases_ok_def)

lemma leases_ok_remove:
  assumes ok: "leases_ok s" and i: "map_of (lc_leases (lx_control s)) i = Some k"
    and c: "lc_leases c = AList.delete i (lc_leases (lx_control s))" "length (lc_heap c) = length (lc_heap (lx_control s))"
      "lc_next c = lc_next (lx_control s)"
  shows "leases_ok (s\<lparr>lx_control := c, lx_removing := k # lx_removing s\<rparr>)"
proof (rule leases_ok_delete [OF ok, of _ i])
  have "snd ` set (AList.delete i (lc_leases (lx_control s))) \<subseteq> live s"
    unfolding live_def using alist_set_delete by fastforce
  then show "live (s\<lparr>lx_control := c, lx_removing := k # lx_removing s\<rparr>) \<subseteq> live s"
    using map_of_live [OF i] by (auto simp: c live_def)
qed (use c in simp_all)

lemma leases_ok_step:
  assumes "lease_step cfg s s'" "leases_ok s" "lx_installs s' < 2 ^ 64"
  shows "leases_ok s'"
  using assms
proof cases
  case (reserved rs r qs h)
  then show ?thesis using assms(2,3) leases_ok_install by simp
next
  case (adopt i pid identity target)
  show ?thesis
    by (cases rule: adopt_lease_cases [of cfg i pid identity target "lx_control s"])
       (auto intro!: leases_ok_same [OF assms(2)] leases_ok_rebind [OF assms(2)] simp: adopt)
next
  case (release i pid identity)
  then show ?thesis
  proof (cases rule: removeOwner_cases [of i pid identity "lx_control s"])
    case (gone k f)
    then show ?thesis unfolding release(1) using leases_ok_remove [OF assms(2)] by simp
  qed (auto intro!: leases_ok_same [OF assms(2)] leases_ok_rebind [OF assms(2)])
next
  case (remove i)
  then show ?thesis
  proof (cases "map_of (lc_leases (lx_control s)) i")
    case None
    then show ?thesis unfolding remove(1)
      by (intro leases_ok_delete [OF assms(2), of _ i]) (auto simp: live_def dest: alist_set_delete)
  next
    case (Some k)
    then show ?thesis unfolding remove(1) using leases_ok_remove [OF assms(2)] by simp
  qed
next
  case (commit k e)
  show ?thesis
    by (cases rule: commit_lease_cases [of k e "lx_control s"])
       (auto intro!: leases_ok_same [OF assms(2)] leases_ok_rebind [OF assms(2)] simp: commit)
next
  case close_all
  then show ?thesis using assms(2) by (auto simp: leases_ok_def live_def)
next
  case (rebind_taken k onlyMissing c old i)
  then have c: "c = heap_update k (\<lambda>l. l\<lparr>le_reservation := None\<rparr>) (lx_control s)" using rebind_take_cases by metis
  show ?thesis unfolding rebind_taken(1) c using rebind_taken(3) by (intro leases_ok_same [OF assms(2)]) simp_all
next
  case (rebind_installed i k h e)
  show ?thesis
    by (cases rule: rebind_install_cases [of i k h e "lx_control s"])
       (auto intro!: leases_ok_same [OF assms(2)] simp: rebind_installed)
qed (auto intro!: leases_ok_same [OF assms(2)] leases_ok_rebind [OF assms(2)] dest!: acquireLeaseSlot_True)

text \<open>The limit on leases: the slots in use are the leases and the requests that wait for their backend.\<close>

lemma limits_ok_step:
  assumes "lease_step cfg s s'" "leases_ok s" "limits_ok cfg s" "lx_installs s' < 2 ^ 64"
  shows "limits_ok cfg s'"
  using assms
proof cases
  case (reserve_begin processIdentity parts r c)
  then show ?thesis using assms(3) acquireLeaseSlot_True [OF reserve_begin(3)] by (simp add: limits_ok_def)
next
  case (reserve_failed rs r qs)
  then show ?thesis using assms(3) by (simp add: limits_ok_def releaseLeaseSlot_def)
next
  case (reserved rs r qs h)
  then have "Suc (lx_installs s) < 2 ^ 64" using assms(4) by simp
  with reserved show ?thesis using assms(3) by (simp add: limits_ok_def install_lease_simps [OF assms(2)])
next
  case (adopt i pid identity target)
  show ?thesis using assms(3)
    by (cases rule: adopt_lease_cases [of cfg i pid identity target "lx_control s"]) (simp_all add: adopt limits_ok_def)
next
  case (release i pid identity)
  then show ?thesis using assms(3) alist_length_delete [of i "lc_leases (lx_control s)"]
    by (cases rule: removeOwner_cases [of i pid identity "lx_control s"]) (simp_all add: limits_ok_def)
next
  case (remove i)
  then show ?thesis using assms(3) alist_length_delete [of i "lc_leases (lx_control s)"] by (simp add: limits_ok_def)
next
  case (commit k e)
  show ?thesis using assms(3)
    by (cases rule: commit_lease_cases [of k e "lx_control s"]) (simp_all add: commit limits_ok_def)
next
  case close_all
  then show ?thesis using assms(3) by (simp add: limits_ok_def)
next
  case (rebind_taken k onlyMissing c old i)
  then have c: "c = heap_update k (\<lambda>l. l\<lparr>le_reservation := None\<rparr>) (lx_control s)" using rebind_take_cases by metis
  show ?thesis using assms(3) unfolding rebind_taken(1) c by (simp add: limits_ok_def)
next
  case (rebind_installed i k h e)
  show ?thesis using assms(3)
    by (cases rule: rebind_install_cases [of i k h e "lx_control s"]) (simp_all add: rebind_installed limits_ok_def)
qed (simp_all add: limits_ok_def)

text \<open>Owners.\<close>

lemma owners_ok_weaken:
  assumes "owners_ok cfg s" "set (lc_leases (lx_control s')) \<subseteq> set (lc_leases (lx_control s))"
    "\<And>k. k \<in> snd ` set (lc_leases (lx_control s')) \<Longrightarrow>
       le_owners (lc_heap (lx_control s') ! k) = le_owners (lc_heap (lx_control s) ! k)"
  shows "owners_ok cfg s'"
  using assms unfolding owners_ok_def lease_owned_def by (metis image_mono subsetD)

lemma owners_ok_update:
  assumes "owners_ok cfg s" "leases_ok s" "map_of (lc_leases (lx_control s)) i = Some k"
    "lease_owned cfg (f (lc_heap (lx_control s) ! k))"
  shows "owners_ok cfg (s\<lparr>lx_control := heap_update k f (lx_control s)\<rparr>)"
  using assms live_length [OF assms(2) map_of_live [OF assms(3)]] by (auto simp: owners_ok_def heap_update_nth)

lemma owners_ok_map_of: "owners_ok cfg s \<Longrightarrow> map_of (lc_leases (lx_control s)) i = Some k \<Longrightarrow> lease_owned cfg (lc_heap (lx_control s) ! k)"
  unfolding owners_ok_def by (metis image_eqI map_of_SomeD snd_conv)

lemma lease_owned_adopt:
  assumes "lease_owned cfg l" "map_of (le_owners l) pid \<noteq> None \<or> int (length (le_owners l)) < owner_limit cfg"
  shows "lease_owned cfg (l\<lparr>le_owners := AList.update pid identity (le_owners l), le_targets := ts\<rparr>)"
proof -
  have "map_of (le_owners l) pid \<noteq> None \<longrightarrow> length (AList.update pid identity (le_owners l)) = length (le_owners l)"
  proof
    assume that: "map_of (le_owners l) pid \<noteq> None"
    have "pid \<in> fst ` set (le_owners l)" using that by (simp add: map_of_eq_None_iff)
    then have "map fst (AList.update pid identity (le_owners l)) = map fst (le_owners l)" by (simp add: update_keys)
    then show "length (AList.update pid identity (le_owners l)) = length (le_owners l)" by (metis length_map)
  qed
  then have "int (length (AList.update pid identity (le_owners l))) \<le> owner_limit cfg"
    using assms alist_length_update [of pid identity "le_owners l"] unfolding lease_owned_def
    by (cases "map_of (le_owners l) pid = None") auto
  moreover have "AList.update pid identity (le_owners l) \<noteq> []" by (simp add: update_nonempty)
  ultimately show ?thesis using assms by (simp add: lease_owned_def distinct_update)
qed

lemma lease_owned_release:
  "lease_owned cfg l \<Longrightarrow> AList.delete pid (le_owners l) \<noteq> [] \<Longrightarrow>
     lease_owned cfg (l\<lparr>le_owners := AList.delete pid (le_owners l), le_targets := ts\<rparr>)"
  using alist_length_delete [of pid "le_owners l"] by (auto simp: lease_owned_def distinct_delete)

lemma delete_address:
  "map_of al i = Some k \<Longrightarrow> distinct (map snd al) \<Longrightarrow> distinct (map fst al) \<Longrightarrow> k \<notin> snd ` set (AList.delete i al)"
  by (induction al) (auto simp: rev_image_eqI AList.delete_eq dest: map_of_SomeD split: if_splits)

lemma owners_ok_step:
  assumes "lease_step cfg s s'" "leases_ok s" "owners_ok cfg s" "lx_installs s' < 2 ^ 64"
  shows "owners_ok cfg s'"
  using assms
proof cases
  case (reserve_begin processIdentity parts r c)
  then show ?thesis using assms(3) acquireLeaseSlot_True [OF reserve_begin(3)] by (simp add: owners_ok_def)
next
  case (reserved rs r qs h)
  have "lease_owned cfg (new_lease r h)" by (simp add: lease_owned_def new_lease_def owner_limit_def)
  moreover have "Suc (lx_installs s) < 2 ^ 64" using reserved assms(4) by simp
  moreover have "k < length (lc_heap (lx_control s))" if "k \<in> snd ` set (lc_leases (lx_control s))" for k
    using that live_length [OF assms(2)] by (simp add: live_def)
  ultimately show ?thesis using reserved assms(3) by (auto simp: owners_ok_def install_lease_simps [OF assms(2)] nth_append)
next
  case (adopt i pid identity target)
  show ?thesis
  proof (cases rule: adopt_lease_cases [of cfg i pid identity target "lx_control s"])
    case 1
    then show ?thesis using assms(3) adopt by simp
  next
    case (2 k)
    then show ?thesis unfolding adopt 2(3)
      by (intro owners_ok_update [OF assms(3,2) 2(1)] lease_owned_adopt owners_ok_map_of [OF assms(3)])
  qed
next
  case (release i pid identity)
  show ?thesis
  proof (cases rule: removeOwner_cases [of i pid identity "lx_control s"])
    case same
    then show ?thesis using assms(3) release by simp
  next
    case (shared k)
    have "AList.delete pid (le_owners (lc_heap (lx_control s) ! k)) \<noteq> []"
      using shared(3) live_length [OF assms(2) map_of_live [OF shared(1)]] unfolding shared(2) by (simp add: heap_update_nth)
    then have "owners_ok cfg (s\<lparr>lx_control := heap_update k (\<lambda>l. l\<lparr>le_owners := AList.delete pid (le_owners l),
        le_targets := AList.delete pid (le_targets l)\<rparr>) (lx_control s)\<rparr>)"
      by (intro owners_ok_update [OF assms(3,2) shared(1)] lease_owned_release owners_ok_map_of [OF assms(3) shared(1)])
    then show ?thesis unfolding release shared(2) by (simp add: owners_ok_def)
  next
    case (gone k f)
    show ?thesis unfolding release gone(3) fst_conv snd_conv
    proof (rule owners_ok_weaken [OF assms(3)], goal_cases)
      case (2 j)
      moreover have "k \<notin> snd ` set (AList.delete i (lc_leases (lx_control s)))"
        using gone(1) assms(2) by (intro delete_address) (simp_all add: leases_ok_def)
      ultimately have "j \<noteq> k" by auto
      then show ?case using live_length [OF assms(2) map_of_live [OF gone(1)]] by (simp add: heap_update_nth)
    qed (auto dest: alist_set_delete)
  qed
next
  case (commit k e)
  show ?thesis
    by (cases rule: commit_lease_cases [of k e "lx_control s"])
       (auto intro!: owners_ok_weaken [OF assms(3)] simp: commit heap_update_nth)
next
  case (rebind_taken k onlyMissing c old i)
  then have c: "c = heap_update k (\<lambda>l. l\<lparr>le_reservation := None\<rparr>) (lx_control s)" using rebind_take_cases by metis
  show ?thesis unfolding rebind_taken(1) c using rebind_taken(3)
    by (intro owners_ok_weaken [OF assms(3)]) (simp_all add: heap_update_nth)
next
  case (rebind_installed i k h e)
  have "k < length (lc_heap (lx_control s))" using leases_ok_rebind [OF assms(2)] rebind_installed(2) by simp
  then show ?thesis
    by (cases rule: rebind_install_cases [of i k h e "lx_control s"])
       (auto intro!: owners_ok_weaken [OF assms(3)] simp: rebind_installed heap_update_nth)
qed (auto intro!: owners_ok_weaken [OF assms(3)] dest: alist_set_delete)

text \<open>Reservations: nobody but the running rebind writes them, and every one has a holder.\<close>

lemma rebind_ok_step:
  assumes "lease_step cfg s s'" "leases_ok s" "rebind_ok s" "lx_installs s' < 2 ^ 64"
  shows "rebind_ok s'"
  using assms
proof cases
  case (reserve_begin processIdentity parts r c)
  then show ?thesis using assms(3) acquireLeaseSlot_True [OF reserve_begin(3)] by (simp add: rebind_ok_def)
next
  case (reserved rs r qs h)
  have "Suc (lx_installs s) < 2 ^ 64" using reserved assms(4) by simp
  then show ?thesis using reserved assms(3) leases_ok_rebind [OF assms(2)]
    by (simp add: rebind_ok_def install_lease_simps [OF assms(2)] nth_append)
next
  case (adopt i pid identity target)
  show ?thesis using assms(3)
  proof (cases rule: adopt_lease_cases [of cfg i pid identity target "lx_control s"])
    case (2 k)
    then show ?thesis unfolding adopt 2(3) using assms(3) live_length [OF assms(2) map_of_live [OF 2(1)]]
      by (simp add: rebind_ok_def heap_update_nth)
  qed (simp add: adopt)
next
  case (release i pid identity)
  show ?thesis
  proof (cases rule: removeOwner_cases [of i pid identity "lx_control s"])
    case (shared k)
    then show ?thesis using release assms(3) live_length [OF assms(2) map_of_live [OF shared(1)]]
      by (simp add: rebind_ok_def heap_update_nth)
  next
    case (gone k f)
    then show ?thesis using release assms(3) live_length [OF assms(2) map_of_live [OF gone(1)]]
      by (simp add: rebind_ok_def heap_update_nth)
  qed (use release assms(3) in simp)
next
  case (commit k e)
  then show ?thesis using assms(3)
    by (cases rule: commit_lease_cases [of k e "lx_control s"]) (simp_all add: rebind_ok_def heap_update_nth)
next
  case (rebind_taken k onlyMissing c old i)
  then have c: "c = heap_update k (\<lambda>l. l\<lparr>le_reservation := None\<rparr>) (lx_control s)" using rebind_take_cases by metis
  show ?thesis unfolding rebind_taken(1) c using rebind_taken(3) by (simp add: rebind_ok_def heap_update_nth)
qed (use assms(3) in \<open>simp_all add: rebind_ok_def\<close>)

lemma accounted_mono:
  assumes "accounted s h" "set (lc_closed (lx_control s)) \<subseteq> set (lc_closed (lx_control s'))" "lx_rebind s' = lx_rebind s"
    "live s \<subseteq> live s'" "\<And>k. k \<in> live s \<Longrightarrow> le_reservation (lc_heap (lx_control s') ! k) = le_reservation (lc_heap (lx_control s) ! k)"
  shows "accounted s' h"
  using assms unfolding accounted_def by (metis subsetD)

lemma live_remove:
  assumes "leases_ok s" "map_of (lc_leases (lx_control s)) i = Some k"
  shows "live s \<subseteq> insert k (snd ` set (AList.delete i (lc_leases (lx_control s))) \<union> set (lx_removing s))"
proof -
  have "\<exists>j. (j, n) \<in> set (AList.delete i (lc_leases (lx_control s)))" if "(j, n) \<in> set (lc_leases (lx_control s))" "n \<noteq> k" for j n
    using alist_delete_keeps [OF that(1), of i] that(2) assms by (auto simp: leases_ok_def)
  then show ?thesis by (force simp: live_def)
qed

lemma accounted_step:
  assumes "lease_step cfg s s'" "leases_ok s" "rebind_ok s" "lx_installs s' < 2 ^ 64" "accounted s h"
  shows "accounted s' h"
  using assms(1)
proof cases
  case (reserve_begin processIdentity parts r c)
  then show ?thesis using acquireLeaseSlot_True [OF reserve_begin(3)] by (intro accounted_mono [OF assms(5)]) (auto simp: live_def)
next
  case (reserved rs r qs g)
  have n: "Suc (lx_installs s) < 2 ^ 64" using reserved assms(4) by simp
  show ?thesis unfolding reserved
  proof (rule accounted_mono [OF assms(5)], goal_cases)
    case 3
    show ?case by (auto simp: live_def install_lease_simps [OF assms(2) n])
  qed (simp_all add: install_lease_simps [OF assms(2) n] nth_append live_length [OF assms(2)])
next
  case (adopt i pid identity target)
  show ?thesis
  proof (cases rule: adopt_lease_cases [of cfg i pid identity target "lx_control s"])
    case (2 k)
    show ?thesis unfolding adopt 2(3)
      by (rule accounted_mono [OF assms(5)]) (auto simp: live_def heap_update_nth live_length [OF assms(2) map_of_live [OF 2(1)]])
  qed (use assms(5) adopt in simp)
next
  case (release i pid identity)
  show ?thesis
  proof (cases rule: removeOwner_cases [of i pid identity "lx_control s"])
    case (shared k)
    show ?thesis unfolding release shared(2)
      by (rule accounted_mono [OF assms(5)]) (auto simp: live_def heap_update_nth live_length [OF assms(2) map_of_live [OF shared(1)]])
  next
    case (gone k f)
    show ?thesis unfolding release gone(3)
      by (rule accounted_mono [OF assms(5)])
         (use live_remove [OF assms(2) gone(1)] in \<open>auto simp: live_def heap_update_nth gone(2) live_length [OF assms(2) map_of_live [OF gone(1)]]\<close>)
  qed (use assms(5) release in simp)
next
  case (remove i)
  show ?thesis
  proof (cases "map_of (lc_leases (lx_control s)) i")
    case None
    then have "AList.delete i (lc_leases (lx_control s)) = lc_leases (lx_control s)"
      by (simp add: map_of_eq_None_iff)
    then show ?thesis unfolding remove using None by (intro accounted_mono [OF assms(5)]) (simp_all add: live_def)
  next
    case (Some k)
    then show ?thesis unfolding remove
      by (intro accounted_mono [OF assms(5)]) (use live_remove [OF assms(2) Some] in \<open>auto simp: live_def\<close>)
  qed
next
  case (close_removed ks k js)
  then show ?thesis using assms(5) by (auto simp: accounted_def live_def)
next
  case (commit k e)
  then show ?thesis
    by (cases rule: commit_lease_cases [of k e "lx_control s"])
       (auto intro!: accounted_mono [OF assms(5)] simp: live_def heap_update_nth)
next
  case close_all
  then show ?thesis by (intro accounted_mono [OF assms(5)]) (auto simp: live_def)
next
  case (rebind_taken k onlyMissing c old i)
  have c: "c = heap_update k (\<lambda>l. l\<lparr>le_reservation := None\<rparr>) (lx_control s)" "old = le_reservation (lc_heap (lx_control s) ! k)"
    using rebind_take_cases [OF rebind_taken(4)] by simp_all
  show ?thesis unfolding rebind_taken(1) c
    using assms(5) rebind_taken(2,3) by (auto simp: accounted_def live_def heap_update_nth)
next
  case (rebind_closed i k old)
  then show ?thesis using assms(5) by (auto simp: accounted_def live_def)
next
  case (rebind_installed i k g e)
  have k: "k < length (lc_heap (lx_control s))" "le_reservation (lc_heap (lx_control s) ! k) = None"
    using leases_ok_rebind [OF assms(2)] assms(3) rebind_installed(2) by (simp_all add: rebind_ok_def)
  show ?thesis
  proof (cases rule: rebind_install_cases [of i k g e "lx_control s"])
    case 1
    then show ?thesis using assms(5) rebind_installed by (auto simp: accounted_def live_def)
  next
    case 2
    let ?s' = "s\<lparr>lx_control := heap_update k (\<lambda>l. l\<lparr>le_reservation := Some g\<rparr>) (lx_control s), lx_rebind := RIdle\<rparr>"
    have live: "live ?s' = live s" by (simp add: live_def)
    consider "h \<in> set (lc_closed (lx_control s))" | "h = g"
      | n where "n \<in> live s" "le_reservation (lc_heap (lx_control s) ! n) = Some h" "n \<noteq> k"
      using assms(5) rebind_installed(2) k(2) by (force simp: accounted_def)
    then have "accounted ?s' h"
    proof cases
      case 2
      then show ?thesis using map_of_live [OF \<open>map_of _ i = Some k\<close>] k(1) unfolding accounted_def live
        by (auto simp: heap_update_nth)
    next
      case 3
      then show ?thesis using k(1) unfolding accounted_def live by (auto simp: heap_update_nth)
    qed (simp add: accounted_def)
    then show ?thesis unfolding rebind_installed(1) 2(2) .
  qed
qed (use assms(5) in \<open>auto simp: accounted_def live_def\<close>)

text \<open>What a step opens has a holder at once.\<close>

lemma opened_step:
  assumes "lease_step cfg s s'" "leases_ok s" "lx_installs s' < 2 ^ 64" "h \<in> set (lx_opened s')"
  shows "h \<in> set (lx_opened s) \<or> accounted s' h"
  using assms(1)
proof cases
  case (reserved rs r qs g)
  then have "Suc (lx_installs s) < 2 ^ 64" using assms(3) by simp
  note install = install_lease_simps [OF assms(2) this]
  show ?thesis using assms(4) unfolding reserved by (auto simp: accounted_def live_def install nth_append new_lease_def)
qed (use assms(4) in \<open>auto simp: accounted_def\<close>)

lemma lease_installs_mono: "lease_step cfg s s' \<Longrightarrow> lx_installs s \<le> lx_installs s'"
  by (cases rule: lease_step.cases) auto

lemma lease_core_step:
  assumes "lease_step cfg s s'" "lease_core cfg s" "lx_installs s' < 2 ^ 64"
  shows "lease_core cfg s'"
  using assms leases_ok_step [OF assms(1)] limits_ok_step [OF assms(1)] owners_ok_step [OF assms(1)]
    rebind_ok_step [OF assms(1)] accounted_step [OF assms(1)] opened_step [OF assms(1)]
  unfolding lease_core_def by meson

lemma lease_core_start: "lease_core cfg start_leases"
  by (simp add: lease_core_def leases_ok_def limits_ok_def owners_ok_def rebind_ok_def start_leases_def new_control_def live_def lease_limit_def)

lemma lease_core_reachable:
  assumes "lease_steps cfg start_leases s" "lx_installs s < 2 ^ 64"
  shows "lease_core cfg s"
  using assms
proof (induction rule: rtranclp_induct)
  case (step s s')
  then show ?case using lease_core_step lease_installs_mono le_less_trans by metis
qed (rule lease_core_start)

section \<open>A run\<close>

text \<open>Process 7 reserves port 80.\<close>

definition sample_control :: controlConfig where
  "sample_control = \<lparr>ck_Path = str ''/run/c'', ck_WindowsHost = str ''127.0.0.1'', ck_WindowsHost6 = str ''::1'', ck_Reserve = True,
     ck_ReserveDatagram = False, ck_MaxConnections = 64, ck_MaxLeases = 1, ck_MaxOwners = 2\<rparr>"

definition sample_request :: reserveRequest where
  "sample_request = \<lparr>rr_pid = 7, rr_identity = [49], rr_datagram = False, rr_windows = str ''127.0.0.1:80'',
     rr_wsl = str ''127.0.0.1:80'', rr_target = []\<rparr>"

definition sample_leased :: leaseSystem where
  "sample_leased = \<lparr>lx_control = \<lparr>lc_leases = [(1, 0)], lc_heap = [new_lease sample_request 5], lc_pending = 0, lc_next = 1, lc_closed = []\<rparr>,
     lx_reserving = [], lx_removing = [], lx_rebind = RIdle, lx_opened = [5], lx_installs = 1\<rparr>"

lemma sample_leased_run: "lease_steps sample_control start_leases sample_leased"
proof -
  let ?s = "start_leases\<lparr>lx_control := new_control\<lparr>lc_pending := 1\<rparr>, lx_reserving := [sample_request]\<rparr>"
  have "reserve_request sample_control (\<lambda>_. Inr [49]) [str ''RESERVE'', str ''7'', str ''tcp4'', str ''80''] = Inr sample_request"
    by code_simp
  moreover have "acquireLeaseSlot sample_control (lx_control start_leases) = (new_control\<lparr>lc_pending := 1\<rparr>, True)"
    by (simp add: acquireLeaseSlot_def start_leases_def new_control_def sample_control_def)
  ultimately have "lease_step sample_control start_leases ?s"
    using lease_step.reserve_begin [of sample_control _ _ sample_request start_leases] by (simp add: start_leases_def)
  moreover have "lease_step sample_control ?s sample_leased"
    using lease_step.reserved [of ?s "[]" sample_request "[]" sample_control 5]
    by (simp add: start_leases_def sample_leased_def install_lease_def new_control_def)
  ultimately show ?thesis by (meson converse_rtranclp_into_rtranclp rtranclp.rtrancl_refl)
qed

text \<open>It releases the lease, which closes the reservation.\<close>

definition sample_released :: leaseSystem where
  "sample_released = sample_leased\<lparr>lx_control := release_owner 1 7 [49] (lx_control sample_leased)\<rparr>"

lemma sample_released_run: "lease_steps sample_control start_leases sample_released"
proof -
  let ?t = "sample_leased\<lparr>lx_control := fst (removeOwner 1 7 [49] (lx_control sample_leased)), lx_removing := [0]\<rparr>"
  have r: "snd (removeOwner 1 7 [49] (lx_control sample_leased)) = Some 0"
    by (simp add: removeOwner_def sample_leased_def new_lease_def sample_request_def heap_update_def Let_def)
  have "lease_step sample_control sample_leased ?t"
    using lease_step.release [of sample_control sample_leased 1 7 "[49]"] r by (simp add: sample_leased_def)
  moreover have "lease_step sample_control ?t sample_released"
    using lease_step.close_removed [of ?t "[]" 0 "[]" sample_control] r
    by (simp add: sample_released_def release_owner_def split_beta) (simp add: sample_leased_def)
  ultimately show ?thesis using sample_leased_run by (meson rtranclp.rtrancl_into_rtrancl)
qed

section \<open>Properties\<close>

text \<open>
  C22: whatever the interleaving of requests, reaping, closing and rebinding, no Windows reservation is
  lost.  In every reachable state (fewer than \<open>2 ^ 64\<close> leases so far) a reservation that was ever returned is
  closed, or is held by a lease of the map, by a removal under way, or by the running rebind; so
  when no lease is left and nothing is under way, all are closed.  The leases and the requests that wait for
  the backend stay within the limit, the lease ids are distinct, and each lease has an owner and no more
  than the limit allows.
\<close>
theorem lease_reservations_owned:
  assumes "lease_steps cfg start_leases s" "lx_installs s < 2 ^ 64"
  shows "(\<forall>h \<in> set (lx_opened s). h \<in> set (lc_closed (lx_control s)) \<or> rebind_holds (lx_rebind s) h
       \<or> (\<exists>k \<in> snd ` set (lc_leases (lx_control s)) \<union> set (lx_removing s). le_reservation (lc_heap (lx_control s) ! k) = Some h))
     \<and> (lc_leases (lx_control s) = [] \<and> lx_removing s = [] \<and> lx_rebind s = RIdle \<longrightarrow>
          set (lx_opened s) \<subseteq> set (lc_closed (lx_control s)))
     \<and> int (length (lc_leases (lx_control s)) + length (lx_reserving s)) \<le> lease_limit cfg
     \<and> distinct (map fst (lc_leases (lx_control s)))
     \<and> (\<forall>k \<in> snd ` set (lc_leases (lx_control s)). lease_owned cfg (lc_heap (lx_control s) ! k))"
proof -
  have core: "lease_core cfg s" using assms by (rule lease_core_reachable)
  then have held: "\<forall>h \<in> set (lx_opened s). accounted s h" by (simp add: lease_core_def)
  then have "lc_leases (lx_control s) = [] \<and> lx_removing s = [] \<and> lx_rebind s = RIdle \<longrightarrow>
      set (lx_opened s) \<subseteq> set (lc_closed (lx_control s))"
    by (auto simp: accounted_def live_def)
  then show ?thesis using core held unfolding accounted_def live_def
    by (simp add: lease_core_def limits_ok_def leases_ok_def owners_ok_def)
qed

theorem lease_reservations_owned_witness:
  "lease_steps sample_control start_leases sample_released \<and> lx_opened sample_released = [5]
     \<and> set (lx_opened sample_released) \<subseteq> set (lc_closed (lx_control sample_released))
     \<and> int (length (lc_leases (lx_control sample_leased))) = lease_limit sample_control
     \<and> lease_owned sample_control (lc_heap (lx_control sample_leased) ! 0)"
proof -
  have n: "lx_installs sample_released < 2 ^ 64" "lx_installs sample_leased < 2 ^ 64"
    by (simp_all add: sample_released_def sample_leased_def)
  have "lc_leases (lx_control sample_released) = []" by code_simp
  then show ?thesis
    using lease_reservations_owned [OF sample_released_run n(1)] lease_reservations_owned [OF sample_leased_run n(2)] sample_released_run
    by (simp add: sample_released_def sample_leased_def lease_limit_def sample_control_def)
qed

end
