(* ===== verification/ListenOwners.thy ===== *)
theory ListenOwners
  imports ListenLeases
begin

text \<open>
  The owners of the leases as an abstract map: which process, with which identity, owns which lease.  The
  operations of the control server refine updates of this map; the reaper removes exactly
  the owners that died or closed their socket.
\<close>

definition owner_view :: "control \<Rightarrow> u64 \<times> int \<Rightarrow> bytes option" where
  "owner_view s = (\<lambda>(i, pid). case map_of (lc_leases s) i of None \<Rightarrow> None | Some k \<Rightarrow> map_of (le_owners (lc_heap s ! k)) pid)"

definition owner_target :: "control \<Rightarrow> u64 \<times> int \<Rightarrow> bytes" where
  "owner_target s = (\<lambda>(i, pid). case map_of (lc_leases s) i of None \<Rightarrow> []
     | Some k \<Rightarrow> (case map_of (le_targets (lc_heap s ! k)) pid of None \<Rightarrow> [] | Some t \<Rightarrow> t))"

definition control_wf :: "control \<Rightarrow> bool" where
  "control_wf s \<longleftrightarrow> distinct (map fst (lc_leases s)) \<and> distinct (map snd (lc_leases s))
     \<and> (\<forall>k \<in> snd ` set (lc_leases s). k < length (lc_heap s) \<and> le_owners (lc_heap s ! k) \<noteq> []
          \<and> distinct (map fst (le_owners (lc_heap s ! k))))"

lemma control_wf_reachable: "lease_core cfg s \<Longrightarrow> control_wf (lx_control s)"
  by (auto simp: lease_core_def leases_ok_def owners_ok_def lease_owned_def control_wf_def live_def)

lemma control_wf_nth:
  assumes "control_wf s" "map_of (lc_leases s) i = Some k"
  shows "k < length (lc_heap s)" "le_owners (lc_heap s ! k) \<noteq> []" "distinct (map fst (le_owners (lc_heap s ! k)))"
proof -
  have "k \<in> snd ` set (lc_leases s)" using map_of_SomeD [OF assms(2)] by force
  then show "k < length (lc_heap s)" "le_owners (lc_heap s ! k) \<noteq> []" "distinct (map fst (le_owners (lc_heap s ! k)))"
    using assms(1) by (auto simp: control_wf_def)
qed

lemma address_unique:
  "distinct (map fst al) \<Longrightarrow> distinct (map snd al) \<Longrightarrow> map_of al i = Some k \<Longrightarrow> map_of al j = Some k \<Longrightarrow> i = j"
  by (metis distinct_map inj_on_eq_iff map_of_SomeD prod.inject snd_conv)

lemma view_Some: "map_of (lc_leases s) i = Some k \<Longrightarrow> owner_view s (i, p) = map_of (le_owners (lc_heap s ! k)) p"
  by (simp add: owner_view_def)

lemma control_error_not_ok: "control_error errno message \<noteq> ok_line"
  by (simp add: control_error_def ok_line_def Let_def str_def)

section \<open>The elementary updates\<close>

lemma view_update:
  assumes "control_wf s" "map_of (lc_leases s) i = Some k"
  shows "owner_view (heap_update k f s) (j, p) = (if j = i then map_of (le_owners (f (lc_heap s ! k))) p else owner_view s (j, p))"
proof (cases "j = i")
  case True
  then show ?thesis using assms(2) by (simp add: owner_view_def heap_update_nth control_wf_nth(1) [OF assms])
next
  case False
  have "map_of (lc_leases s) j \<noteq> Some k"
    using False assms address_unique [of "lc_leases s" i k j] by (auto simp: control_wf_def)
  then show ?thesis using False by (auto simp: owner_view_def heap_update_nth control_wf_nth(1) [OF assms] split: option.splits)
qed

lemma view_delete:
  "owner_view (s\<lparr>lc_leases := AList.delete i (lc_leases s)\<rparr>) (j, p) = (if j = i then None else owner_view s (j, p))"
  by (simp add: owner_view_def delete_conv split: option.split)

lemma close_lease_view [simp]: "owner_view (close_lease k s) = owner_view s"
  by (simp add: owner_view_def fun_eq_iff split: option.split)

lemma wf_delete: "control_wf s \<Longrightarrow> control_wf (s\<lparr>lc_leases := AList.delete i (lc_leases s)\<rparr>)"
  by (auto simp: control_wf_def distinct_delete alist_distinct_snd_delete dest: alist_set_delete)

lemma wf_close_lease [simp]: "control_wf (close_lease k s) = control_wf s"
  by (simp add: control_wf_def)

lemma wf_update:
  assumes "control_wf s" "map_of (lc_leases s) i = Some k" "le_owners (f (lc_heap s ! k)) \<noteq> []"
    "distinct (map fst (le_owners (f (lc_heap s ! k))))"
  shows "control_wf (heap_update k f s)"
  using assms(1,3,4) unfolding control_wf_def by (auto simp: heap_update_nth control_wf_nth(1) [OF assms(1,2)])

section \<open>Refinement\<close>

lemma control_remove_view:
  "owner_view (control_remove i s) = (\<lambda>(j, p). if j = i then None else owner_view s (j, p))"
  using view_delete [of i s] by (auto simp: control_remove_def remove_lease_def fun_eq_iff split: option.splits)

lemma delete_last: "AList.delete p al = [] \<Longrightarrow> q \<noteq> p \<Longrightarrow> map_of al q = None"
  by (metis delete_conv' fun_upd_other map_of.simps(1))

text \<open>Removing an owner whose identity matches, when others remain and when it was the last.\<close>

abbreviation drop_owner :: "int \<Rightarrow> lease \<Rightarrow> lease" where
  "drop_owner pid \<equiv> \<lambda>l. l\<lparr>le_owners := AList.delete pid (le_owners l), le_targets := AList.delete pid (le_targets l)\<rparr>"

lemma drop_owner_shared:
  assumes "control_wf s" "map_of (lc_leases s) i = Some k" "AList.delete pid (le_owners (lc_heap s ! k)) \<noteq> []"
  shows "owner_view (heap_update k (drop_owner pid) s) = (owner_view s)((i, pid) := None)"
    "control_wf (heap_update k (drop_owner pid) s)"
proof -
  show "owner_view (heap_update k (drop_owner pid) s) = (owner_view s)((i, pid) := None)"
    by (auto simp: fun_eq_iff view_update [OF assms(1,2)] delete_conv view_Some [OF assms(2)])
  show "control_wf (heap_update k (drop_owner pid) s)"
    using assms(3) control_wf_nth(3) [OF assms(1,2)] by (intro wf_update [OF assms(1,2)]) (simp_all add: distinct_delete)
qed

lemma drop_owner_last:
  assumes "control_wf s" "map_of (lc_leases s) i = Some k" "AList.delete pid (le_owners (lc_heap s ! k)) = []"
  shows "owner_view ((heap_update k (drop_owner pid) s)\<lparr>lc_leases := AList.delete i (lc_leases s)\<rparr>) = (owner_view s)((i, pid) := None)"
    "control_wf ((heap_update k (drop_owner pid) s)\<lparr>lc_leases := AList.delete i (lc_leases s)\<rparr>)"
proof -
  have "owner_view s (i, p) = None" if "p \<noteq> pid" for p
    using assms(2) delete_last [OF assms(3) that] by (simp add: owner_view_def)
  then show "owner_view ((heap_update k (drop_owner pid) s)\<lparr>lc_leases := AList.delete i (lc_leases s)\<rparr>) = (owner_view s)((i, pid) := None)"
    using view_delete [of i "heap_update k (drop_owner pid) s"] by (auto simp: fun_eq_iff view_update [OF assms(1,2)])
  have "k \<notin> snd ` set (AList.delete i (lc_leases s))"
    using assms(1,2) by (intro delete_address) (simp_all add: control_wf_def)
  then show "control_wf ((heap_update k (drop_owner pid) s)\<lparr>lc_leases := AList.delete i (lc_leases s)\<rparr>)"
    using wf_delete [OF assms(1), of i] by (auto simp: control_wf_def heap_update_nth control_wf_nth(1) [OF assms(1,2)])
qed

lemma release_owner_cases:
  assumes "control_wf s" "map_of (lc_leases s) i = Some k"
  shows "release_owner i pid identity s =
    (if (case owner_view s (i, pid) of None \<Rightarrow> [] | Some x \<Rightarrow> x) \<noteq> identity then s
     else if AList.delete pid (le_owners (lc_heap s ! k)) \<noteq> [] then heap_update k (drop_owner pid) s
     else close_lease k ((heap_update k (drop_owner pid) s)\<lparr>lc_leases := AList.delete i (lc_leases s)\<rparr>))"
  using assms(2) by (simp add: release_owner_def removeOwner_def Let_def owner_view_def heap_update_nth control_wf_nth(1) [OF assms])

lemma release_owner_view:
  assumes "control_wf s"
  shows "owner_view (release_owner i pid identity s)
       = (if owner_view s (i, pid) = Some identity then (owner_view s)((i, pid) := None) else owner_view s)"
proof (cases "map_of (lc_leases s) i")
  case None
  then show ?thesis by (simp add: release_owner_def removeOwner_def owner_view_def)
next
  case (Some k)
  show ?thesis unfolding release_owner_cases [OF assms Some]
    by (cases "owner_view s (i, pid)") (auto simp: drop_owner_shared(1) [OF assms Some] drop_owner_last(1) [OF assms Some] fun_eq_iff)
qed

lemma release_owner_wf: "control_wf s \<Longrightarrow> control_wf (release_owner i pid identity s)"
proof (cases "map_of (lc_leases s) i")
  case None
  then show "control_wf s \<Longrightarrow> ?thesis" by (simp add: release_owner_def removeOwner_def)
next
  case (Some k)
  then show "control_wf s \<Longrightarrow> ?thesis"
    by (simp add: release_owner_cases drop_owner_shared(2) drop_owner_last(2))
qed

lemma adopt_lease_view:
  assumes "control_wf s"
  shows "adopt_lease cfg i pid identity target s = (s', response) \<Longrightarrow>
     owner_view s' = (if response = ok_line then (owner_view s)((i, pid) \<mapsto> identity) else owner_view s)"
proof (cases "map_of (lc_leases s) i")
  case (Some k)
  then show "adopt_lease cfg i pid identity target s = (s', response) \<Longrightarrow> ?thesis"
    by (auto simp: adopt_lease_def Let_def fun_eq_iff view_update [OF assms Some] update_conv view_Some [OF Some]
        control_error_not_ok split: if_splits)
qed (auto simp: adopt_lease_def control_error_not_ok)

lemma closeAll_view: "owner_view (control_closeAll s) = Map.empty"
proof -
  have "lc_leases (foldl (\<lambda>s k. close_lease k s) s ks) = lc_leases s" for s ks
    by (induction ks arbitrary: s) simp_all
  then show ?thesis by (simp add: control_closeAll_def owner_view_def fun_eq_iff)
qed

lemma install_lease_view:
  assumes "control_wf s" "lc_next s + 1 \<notin> fst ` set (lc_leases s)"
  shows "owner_view (fst (install_lease r h s)) = (owner_view s)((lc_next s + 1, rr_pid r) \<mapsto> rr_identity r)"
proof -
  have "map_of (lc_leases s) (lc_next s + 1) = None" using assms(2) by (simp add: map_of_eq_None_iff)
  then show ?thesis
    by (auto simp: install_lease_def Let_def owner_view_def update_conv new_lease_def nth_append fun_eq_iff
        dest: control_wf_nth(1) [OF assms(1)] split: option.split)
qed

text \<open>A rebind changes reservations only.\<close>

lemma view_keep_owners:
  assumes "\<And>l. le_owners (f l) = le_owners l"
  shows "owner_view (heap_update k f s) = owner_view s"
  using assms by (cases "k < length (lc_heap s)")
    (auto simp: owner_view_def fun_eq_iff heap_update_def nth_list_update list_update_beyond split: option.split)

lemma lc_close_view [simp]: "owner_view (lc_close r s) = owner_view s"
  by (simp add: owner_view_def fun_eq_iff split: option.split)

lemma rebind_one_view: "owner_view (fst (rebind_one tcp udp onlyMissing i k answer s)) = owner_view s"
  by (auto simp: rebind_one_def rebind_take_def rebind_install_def Let_def view_keep_owners split: option.split prod.split)

lemma rebind_loop_view: "owner_view (fst (rebind_loop tcp udp onlyMissing es s)) = owner_view s"
proof (induction tcp udp onlyMissing es s rule: rebind_loop.induct)
  case (2 tcp udp onlyMissing i k answer rest s)
  then show ?case using rebind_one_view [of tcp udp onlyMissing i k answer s] by (auto split: prod.split)
qed simp

lemma rebind_view: "owner_view (fst (rebind tcp udp onlyMissing answers s)) = owner_view s"
  by (simp add: rebind_def split_beta rebind_loop_view)

section \<open>Reaping\<close>

text \<open>When the reaper gives up an owner: the process is another one now, or it has closed its listener.\<close>

definition owner_gone ::
  "(int \<Rightarrow> bytes result) \<Rightarrow> (int \<Rightarrow> bytes option list result) \<Rightarrow> int \<Rightarrow> bytes \<Rightarrow> bytes \<Rightarrow> bool" where
  "owner_gone processIdentity links pid identity target \<longleftrightarrow>
     processIdentity pid \<noteq> Inr identity \<or> (target \<noteq> [] \<and> (\<exists>ls. links pid = Inr ls \<and> Some target \<notin> set ls))"

lemma reap_one_eq:
  "reap_one processIdentity links (i, pid, identity, target) s =
     (if owner_gone processIdentity links pid identity target then release_owner i pid identity s else s)"
  by (auto simp: reap_one_def owner_gone_def processHasDescriptor_def split: sum.splits)

lemma reap_candidates_set:
  assumes "control_wf s"
  shows "(i, pid, identity, target) \<in> set (reap_candidates s) \<longleftrightarrow>
     owner_view s (i, pid) = Some identity \<and> target = owner_target s (i, pid)"
proof -
  have "(i, pid, identity, target) \<in> set (reap_candidates s) \<longleftrightarrow> (\<exists>k. (i, k) \<in> set (lc_leases s) \<and>
     (pid, identity) \<in> set (le_owners (lc_heap s ! k)) \<and>
     target = (case map_of (le_targets (lc_heap s ! k)) pid of None \<Rightarrow> [] | Some t \<Rightarrow> t))"
    by (force simp: reap_candidates_def)
  also have "\<dots> \<longleftrightarrow> owner_view s (i, pid) = Some identity \<and> target = owner_target s (i, pid)"
  proof (cases "map_of (lc_leases s) i")
    case None
    then have "(i, k) \<notin> set (lc_leases s)" for k by (metis map_of_eq_None_iff fst_conv image_eqI)
    with None show ?thesis by (simp add: owner_view_def)
  next
    case (Some k)
    then have "(i, j) \<in> set (lc_leases s) \<longleftrightarrow> j = k" for j
      using assms by (metis control_wf_def map_of_SomeD map_of_is_SomeI option.inject)
    with Some control_wf_nth(3) [OF assms Some] show ?thesis by (auto simp: owner_view_def owner_target_def)
  qed
  finally show ?thesis .
qed

lemma reap_fold:
  "control_wf s \<Longrightarrow> control_wf (foldl (\<lambda>s c. reap_one processIdentity links c s) s cs)
     \<and> owner_view (foldl (\<lambda>s c. reap_one processIdentity links c s) s cs) (i, pid) =
       (if \<exists>identity target. (i, pid, identity, target) \<in> set cs \<and> owner_gone processIdentity links pid identity target
             \<and> owner_view s (i, pid) = Some identity
        then None else owner_view s (i, pid))"
proof (induction cs arbitrary: s)
  case (Cons c cs)
  obtain j p d u where c: "c = (j, p, d, u)" by (metis prod.exhaust)
  show ?case
  proof (cases "owner_gone processIdentity links p d u")
    case True
    then show ?thesis using Cons.IH [OF release_owner_wf [OF Cons.prems, of j p d]]
      by (auto simp: c reap_one_eq release_owner_view [OF Cons.prems])
  next
    case False
    then show ?thesis using Cons.IH [OF Cons.prems] by (auto simp: c reap_one_eq)
  qed
qed simp

lemma reap_view:
  assumes "control_wf s"
  shows "owner_view (reapDeadProcesses processIdentity links s) (i, pid) =
    (case owner_view s (i, pid) of
       None \<Rightarrow> None
     | Some identity \<Rightarrow> if owner_gone processIdentity links pid identity (owner_target s (i, pid)) then None else Some identity)"
    and "control_wf (reapDeadProcesses processIdentity links s)"
  using reap_fold [OF assms, of processIdentity links "reap_candidates s" i pid]
  by (auto simp: reapDeadProcesses_def reap_candidates_set [OF assms] split: option.splits)

text \<open>With no lease empty of owners, a lease is in the map just when the abstract map has an owner for it.\<close>

lemma lease_iff_owner:
  assumes "control_wf s"
  shows "i \<in> fst ` set (lc_leases s) \<longleftrightarrow> (\<exists>pid. owner_view s (i, pid) \<noteq> None)"
proof (cases "map_of (lc_leases s) i")
  case None
  then have "owner_view s (i, pid) = None" for pid by (simp add: owner_view_def)
  with None show ?thesis by (simp add: map_of_eq_None_iff)
next
  case (Some k)
  then have "i \<in> fst ` set (lc_leases s)" by (metis map_of_eq_None_iff option.distinct(1))
  moreover obtain p d os where "le_owners (lc_heap s ! k) = (p, d) # os"
    using control_wf_nth(2) [OF assms Some] by (metis list.exhaust prod.exhaust)
  then have "owner_view s (i, p) \<noteq> None" by (simp add: view_Some [OF Some])
  ultimately show ?thesis by blast
qed

section \<open>Properties\<close>

text \<open>
  C23: the control server refines the abstract map from leases and processes to process identities.  In
  every reachable state, a release (and a reap of one owner) removes the entry just when the identity is
  the recorded one, so a process whose number was reused cannot release a lease of its predecessor; an
  adoption that is answered \<open>OK\<close> records the new owner and a refused one changes nothing; a reservation
  adds its owner under a fresh lease; a removal forgets all owners of one lease and \<open>closeAll\<close> all
  of them; a rebind changes no owner; the reaper removes exactly the owners whose process is gone or no
  longer holds its listener.  A lease exists just when it has an owner.
\<close>
theorem lease_owners_refined:
  assumes "lease_steps cfg start_leases x" "Suc (lx_installs x) < 2 ^ 64" and s_def: "s = lx_control x"
  shows "owner_view (release_owner i pid identity s)
       = (if owner_view s (i, pid) = Some identity then (owner_view s)((i, pid) := None) else owner_view s)
     \<and> owner_view (fst (adopt_lease cfg i pid identity target s))
       = (if snd (adopt_lease cfg i pid identity target s) = ok_line then (owner_view s)((i, pid) \<mapsto> identity) else owner_view s)
     \<and> owner_view (fst (install_lease r h s)) = (owner_view s)((lc_next s + 1, rr_pid r) \<mapsto> rr_identity r)
     \<and> lc_next s + 1 \<notin> fst ` set (lc_leases s)
     \<and> owner_view (control_remove i s) = (\<lambda>(j, p). if j = i then None else owner_view s (j, p))
     \<and> owner_view (control_closeAll s) = Map.empty
     \<and> owner_view (fst (rebind tcp udp onlyMissing answers s)) = owner_view s
     \<and> owner_view (reapDeadProcesses processIdentity links s) (i, pid) =
         (case owner_view s (i, pid) of
            None \<Rightarrow> None
          | Some now \<Rightarrow> if owner_gone processIdentity links pid now (owner_target s (i, pid)) then None else Some now)
     \<and> (i \<in> fst ` set (lc_leases s) \<longleftrightarrow> (\<exists>p. owner_view s (i, p) \<noteq> None))"
proof -
  have core: "lease_core cfg x" using assms(1,2) by (intro lease_core_reachable) simp_all
  then have wf: "control_wf s" unfolding s_def by (rule control_wf_reachable)
  have fresh: "lc_next s + 1 \<notin> fst ` set (lc_leases s)"
    unfolding s_def using core assms(2) by (intro fresh_lease) (simp_all add: lease_core_def)
  show ?thesis
    by (intro conjI release_owner_view [OF wf] adopt_lease_view [OF wf prod.collapse [symmetric]] install_lease_view [OF wf fresh]
        fresh control_remove_view closeAll_view rebind_view reap_view(1) [OF wf] lease_iff_owner [OF wf])
qed

theorem lease_owners_refined_witness:
  "lease_steps sample_control start_leases sample_leased \<and> Suc (lx_installs sample_leased) < 2 ^ 64
     \<and> owner_view (lx_control sample_leased) (1, 7) = Some [49]
     \<and> owner_view (release_owner 1 7 [50] (lx_control sample_leased)) (1, 7) = Some [49]
     \<and> owner_view (reapDeadProcesses (\<lambda>_. Inr [50]) (\<lambda>_. Inr []) (lx_control sample_leased)) (1, 7) = None"
proof -
  have run: "lease_steps sample_control start_leases sample_leased" by (rule sample_leased_run)
  have n: "Suc (lx_installs sample_leased) < 2 ^ 64" by (simp add: sample_leased_def)
  have v: "owner_view (lx_control sample_leased) (1, 7) = Some [49]" by code_simp
  have g: "owner_gone (\<lambda>_. Inr [50]) (\<lambda>_. Inr []) 7 [49] t" for t by (simp add: owner_gone_def)
  show ?thesis
    using run n v g lease_owners_refined [OF run n refl, of 1 7 "[50]" _ _ _ _ _ _ _ "\<lambda>_. Inr [50]" "\<lambda>_. Inr []"] by simp
qed

end
