(* ===== verification/Upstream.thy ===== *)
theory Upstream
  imports Socks5 NetServe
begin

text \<open>
  The upstream dialer (src/internal/upstream/dialer.go): TCP connections and datagrams through an HTTP
  CONNECT or SOCKS5 proxy of the Windows host.  \<open>url.Parse\<close>, the resolver, the dials and TLS are
  arguments.  A proxy connection is a \<open>conn\<close>; a cancelled context closes it, so its reads and writes
  then fail like those of any broken connection.
\<close>

section \<open>Text\<close>

text \<open>\<open>strings.ToLower\<close> and \<open>strings.EqualFold\<close> on ASCII text; \<open>url.Parse\<close> accepts no other scheme.\<close>

definition ToLower :: "bytes \<Rightarrow> bytes" where
  "ToLower s = map (\<lambda>b. if 65 \<le> b \<and> b \<le> 90 then b + 32 else b) s"

definition EqualFold :: "bytes \<Rightarrow> bytes \<Rightarrow> bool" where
  "EqualFold a b \<longleftrightarrow> ToLower a = ToLower b"

text \<open>\<open>base64.StdEncoding.EncodeToString\<close>.\<close>

definition base64_digit :: "nat \<Rightarrow> byte" where
  "base64_digit d =
     word_of_nat (if d < 26 then 65 + d else if d < 52 then 71 + d else if d < 62 then d - 4 else if d = 62 then 43 else 47)"

fun base64 :: "bytes \<Rightarrow> bytes" where
  "base64 [] = []"
| "base64 [a] = [base64_digit (unat a div 4), base64_digit (unat a mod 4 * 16), 61, 61]"
| "base64 [a, b] =
     [base64_digit (unat a div 4), base64_digit (unat a mod 4 * 16 + unat b div 16), base64_digit (unat b mod 16 * 4), 61]"
| "base64 (a # b # c # s) =
     [base64_digit (unat a div 4), base64_digit (unat a mod 4 * 16 + unat b div 16),
      base64_digit (unat b mod 16 * 4 + unat c div 64), base64_digit (unat c mod 64)] @ base64 s"

text \<open>The error of \<open>strconv.Atoi\<close>.\<close>

definition Atoi_error :: "bytes \<Rightarrow> goerr" where
  "Atoi_error s =
     ErrText (str ''strconv.Atoi: parsing '' @ Quote s @
       (if Atoi_number s = 0 then str '': invalid syntax'' else str '': value out of range''))"

section \<open>The dialer\<close>

text \<open>A parsed proxy URL: scheme, host with port, and the user with the password (empty when there is none).\<close>

record proxyURL =
  px_Scheme :: bytes
  px_Host :: bytes
  px_User :: "(bytes \<times> bytes) option"

type_synonym upstreamDialer = "proxyURL option"

definition wrap_err :: "bytes \<Rightarrow> goerr \<Rightarrow> goerr" where
  "wrap_err prefix err = ErrWrapped (prefix @ str '': '' @ error_text err) err"

definition upstream_New :: "(bytes \<Rightarrow> proxyURL result) \<Rightarrow> bytes \<Rightarrow> upstreamDialer result" where
  "upstream_New url_Parse given =
     (let raw = TrimSpace given in
      if raw = [] then Inr None
      else case url_Parse raw of
        Inl err \<Rightarrow> Inl (wrap_err (str ''parse upstream proxy'') err)
      | Inr proxy \<Rightarrow>
          if ToLower (px_Scheme proxy) \<notin> {str ''http'', str ''https'', str ''socks5'', str ''socks5h''}
          then Inl (ErrText (str ''unsupported upstream proxy scheme '' @ Quote (px_Scheme proxy)))
          else if px_Host proxy = [] then Inl (ErrText (str ''upstream proxy URL must include a host''))
          else case SplitHostPort (px_Host proxy) of
            Inl err \<Rightarrow> Inl (wrap_err (str ''upstream proxy must include host:port'') err)
          | Inr hp \<Rightarrow> Inr (Some proxy))"

definition first_v4 :: "bytes list \<Rightarrow> bytes option" where
  "first_v4 ips = (case filter (\<lambda>ip. To4 ip \<noteq> []) ips of [] \<Rightarrow> None | ip # rest \<Rightarrow> Some (To4 ip))"

definition resolveTarget :: "(bytes \<Rightarrow> bytes list result) \<Rightarrow> bytes \<Rightarrow> bytes result" where
  "resolveTarget lookup target =
     (case SplitHostPort target of
        Inl err \<Rightarrow> Inl (wrap_err (str ''invalid target '' @ Quote target) err)
      | Inr (host, port) \<Rightarrow>
          if ParseIP host \<noteq> [] then Inr target
          else case lookup host of
            Inl err \<Rightarrow> Inl (wrap_err (str ''resolve target '' @ Quote host) err)
          | Inr ips \<Rightarrow>
              if ips = [] then Inl (ErrText (str ''resolve target '' @ Quote host @ str '': no addresses''))
              else (case first_v4 ips of
                  Some ip4 \<Rightarrow> Inr (JoinHostPort (IP_String ip4) port)
                | None \<Rightarrow> Inr (JoinHostPort (IP_String (hd ips)) port)))"

section \<open>HTTP CONNECT\<close>

text \<open>\<open>writeAll\<close>, the same loop as \<open>attach.writeFull\<close>, on a connection.\<close>

definition writeAll :: "conn \<Rightarrow> bytes \<Rightarrow> conn \<times> goerr option" where
  "writeAll c data = attach_writeFull conn_write c data"

definition conn_read1 :: "conn \<Rightarrow> conn \<times> byte option \<times> goerr option" where
  "conn_read1 c = (case inbuf c of [] \<Rightarrow> (c, None, Some (inerr c)) | b # rest \<Rightarrow> (c\<lparr>inbuf := rest\<rparr>, Some b, None))"

abbreviation maxProxyHeader :: nat where "maxProxyHeader \<equiv> 65536"

text \<open>
  \<open>readLine\<close> over an arbitrary reader of single bytes, with the count of bytes used so far.  A read
  that returns neither a byte nor an error is reported, so the loop always ends.
\<close>

function readLine ::
  "('s \<Rightarrow> 's \<times> byte option \<times> goerr option) \<Rightarrow> nat \<Rightarrow> bytes \<Rightarrow> 's \<Rightarrow> 's \<times> nat \<times> bytes result" where
  "readLine rd used line s =
     (if maxProxyHeader \<le> used then (s, used, Inl (ErrText (str ''upstream HTTP CONNECT headers exceed limit'')))
      else case rd s of
        (s1, None, None) \<Rightarrow> (s1, used, Inl IoErrNoProgress)
      | (s1, None, Some err) \<Rightarrow> (s1, used, Inl err)
      | (s1, Some b, Some err) \<Rightarrow> (s1, Suc used, Inl err)
      | (s1, Some b, None) \<Rightarrow>
          if b = 10 then (s1, Suc used, Inr (line @ [b])) else readLine rd (Suc used) (line @ [b]) s1)"
  by pat_completeness auto
termination
  by (relation "measure (\<lambda>(rd, used, line, s). maxProxyHeader - used)") auto

declare readLine.simps [simp del]

lemma readLine_used:
  "readLine rd used line s = (s1, used1, r) \<Longrightarrow>
     (used \<le> maxProxyHeader \<longrightarrow> used1 \<le> maxProxyHeader) \<and> used \<le> used1 \<and> (isOk r \<longrightarrow> used < used1 \<and> used < maxProxyHeader)"
proof (induction rd used line s rule: readLine.induct)
  case (1 rd used line s)
  show ?case
  proof (cases "maxProxyHeader \<le> used")
    case True
    with "1.prems" show ?thesis by (auto simp: readLine.simps [of rd used])
  next
    case False
    obtain s2 one err where rd: "rd s = (s2, one, err)" by (metis prod.exhaust)
    show ?thesis
    proof (cases "\<exists>b. one = Some b \<and> b \<noteq> 10 \<and> err = None")
      case True
      then obtain b where b: "one = Some b" "b \<noteq> 10" "err = None" by blast
      with "1.prems" False rd have "readLine rd (Suc used) (line @ [b]) s2 = (s1, used1, r)"
        by (simp add: readLine.simps [of rd used])
      with "1.IH" [OF False rd [symmetric] refl] b False show ?thesis by fastforce
    next
      case rest: False
      with "1.prems" False rd show ?thesis
        by (auto simp: readLine.simps [of rd used] split: option.splits if_splits)
    qed
  qed
qed

text \<open>The headers up to the empty line.\<close>

function readHeaders ::
  "('s \<Rightarrow> 's \<times> byte option \<times> goerr option) \<Rightarrow> nat \<Rightarrow> 's \<Rightarrow> 's \<times> nat \<times> goerr option" where
  "readHeaders rd used s =
     (case readLine rd used [] s of
        (s1, used1, Inl err) \<Rightarrow> (s1, used1, Some (wrap_err (str ''read upstream HTTP CONNECT headers'') err))
      | (s1, used1, Inr line) \<Rightarrow>
          if line = [13, 10] \<or> line = [10] then (s1, used1, None) else readHeaders rd used1 s1)"
  by pat_completeness auto
termination
  by (relation "measure (\<lambda>(rd, used, s). maxProxyHeader - used)") (auto dest!: readLine_used [OF sym])

declare readHeaders.simps [simp del]

definition connect_request :: "bytes \<Rightarrow> (bytes \<times> bytes) option \<Rightarrow> bytes" where
  "connect_request target user =
     str ''CONNECT '' @ target @ str '' HTTP/1.1'' @ [13, 10] @ str ''Host: '' @ target @ [13, 10]
     @ str ''Proxy-Connection: Keep-Alive'' @ [13, 10]
     @ (case user of
          None \<Rightarrow> []
        | Some (username, password) \<Rightarrow>
            str ''Proxy-Authorization: Basic '' @ base64 (username @ str '':'' @ password) @ [13, 10])
     @ [13, 10]"

definition connect_status :: "bytes \<Rightarrow> int result" where
  "connect_status status =
     (let cols = Fields status in
      if length cols < 2 \<or> \<not> HasPrefix (cols ! 0) (str ''HTTP/'')
      then Inl (ErrText (str ''invalid upstream HTTP CONNECT status '' @ Quote (TrimSpace status)))
      else case Atoi (cols ! 1) of
        None \<Rightarrow> Inl (wrap_err (str ''invalid upstream HTTP CONNECT code'') (Atoi_error (cols ! 1)))
      | Some code \<Rightarrow> Inr code)"

definition int_text :: "int \<Rightarrow> bytes" where
  "int_text n = (if n < 0 then [45] else []) @ decimal (nat \<bar>n\<bar>)"

definition httpConnect :: "conn \<Rightarrow> bytes \<Rightarrow> (bytes \<times> bytes) option \<Rightarrow> conn \<times> goerr option" where
  "httpConnect c target user =
     (case writeAll c (connect_request target user) of
        (c1, Some err) \<Rightarrow> (c1, Some (wrap_err (str ''upstream HTTP CONNECT request'') err))
      | (c1, None) \<Rightarrow>
          (case readLine conn_read1 0 [] c1 of
             (c2, used, Inl err) \<Rightarrow> (c2, Some (wrap_err (str ''read upstream HTTP CONNECT response'') err))
           | (c2, used, Inr status) \<Rightarrow>
               (case connect_status status of
                  Inl err \<Rightarrow> (c2, Some err)
                | Inr code \<Rightarrow>
                    (case readHeaders conn_read1 used c2 of
                       (c3, used3, Some err) \<Rightarrow> (c3, Some err)
                     | (c3, used3, None) \<Rightarrow>
                         if code < 200 \<or> 300 \<le> code
                         then (c3, Some (ErrText (str ''upstream HTTP CONNECT rejected target with status '' @ int_text code)))
                         else (c3, None)))))"

section \<open>SOCKS5\<close>

definition socks5_auth :: "conn \<Rightarrow> bytes \<Rightarrow> bytes \<Rightarrow> conn \<times> goerr option" where
  "socks5_auth c username password =
     (if 255 < length username \<or> 255 < length password
      then (c, Some (ErrText (str ''upstream SOCKS5 credentials are too long'')))
      else case writeAll c ([1, word_of_nat (length username)] @ username @ [word_of_nat (length password)] @ password) of
        (c1, Some err) \<Rightarrow> (c1, Some (wrap_err (str ''upstream SOCKS5 authentication'') err))
      | (c1, None) \<Rightarrow>
          (case readFull 2 c1 of
             (c2, Inl err) \<Rightarrow> (c2, Some (wrap_err (str ''read upstream SOCKS5 authentication'') err))
           | (c2, Inr authReply) \<Rightarrow>
               if authReply ! 1 \<noteq> 0 then (c2, Some (ErrText (str ''upstream SOCKS5 authentication failed'')))
               else (c2, None)))"

definition socks5_methods :: "(bytes \<times> bytes) option \<Rightarrow> bytes" where
  "socks5_methods user = (if user = None then [0] else [0, 2])"

definition socks5Handshake :: "conn \<Rightarrow> (bytes \<times> bytes) option \<Rightarrow> conn \<times> goerr option" where
  "socks5Handshake c user =
     (let methods = socks5_methods user in
      case writeAll c ([5, word_of_nat (length methods)] @ methods) of
        (c1, Some err) \<Rightarrow> (c1, Some (wrap_err (str ''upstream SOCKS5 negotiation'') err))
      | (c1, None) \<Rightarrow>
          (case readFull 2 c1 of
             (c2, Inl err) \<Rightarrow> (c2, Some (wrap_err (str ''read upstream SOCKS5 method'') err))
           | (c2, Inr methodReply) \<Rightarrow>
               if methodReply ! 0 \<noteq> 5 \<or> methodReply ! 1 = 255
               then (c2, Some (ErrText (str ''upstream SOCKS5 has no usable authentication method'')))
               else if methodReply ! 1 = 2 then
                 (case user of
                    None \<Rightarrow> (c2, Some (ErrText (str ''upstream SOCKS5 requested credentials unexpectedly'')))
                  | Some (username, password) \<Rightarrow> socks5_auth c2 username password)
               else if methodReply ! 1 \<noteq> 0
               then (c2, Some (ErrText (str ''unsupported upstream SOCKS5 method '' @ decimal (unat (methodReply ! 1)))))
               else (c2, None)))"

definition encodeTarget :: "bytes \<Rightarrow> bytes result" where
  "encodeTarget target =
     (case SplitHostPort target of
        Inl err \<Rightarrow> Inl (wrap_err (str ''invalid target '' @ Quote target) err)
      | Inr (host, rawPort) \<Rightarrow>
          (case ParseUint rawPort 10 16 of
             None \<Rightarrow> Inl (ErrText (str ''invalid target port '' @ Quote rawPort))
           | Some port \<Rightarrow>
               let ip = ParseIP host; tail = [word_of_nat (port div 256), word_of_nat port] in
               if port = 0 then Inl (ErrText (str ''invalid target port '' @ Quote rawPort))
               else if ip \<noteq> [] \<and> To4 ip \<noteq> [] then Inr (1 # To4 ip @ tail)
               else if ip \<noteq> [] \<and> To16 ip \<noteq> [] then Inr (4 # To16 ip @ tail)
               else if length host = 0 \<or> 255 < length host then Inl (ErrText (str ''invalid target domain length''))
               else Inr ([3, word_of_nat (length host)] @ host @ tail)))"

definition read_sized_address :: "nat \<Rightarrow> (bytes \<Rightarrow> bytes) \<Rightarrow> conn \<Rightarrow> conn \<times> bytes result" where
  "read_sized_address n host c =
     (case readFull (n + 2) c of
        (c1, Inl err) \<Rightarrow> (c1, Inl err)
      | (c1, Inr address) \<Rightarrow>
          (c1, Inr (JoinHostPort (host (take n address)) (decimal (unat (Uint16 (drop n address)))))))"

definition readSocksAddress :: "conn \<Rightarrow> byte \<Rightarrow> conn \<times> bytes result" where
  "readSocksAddress c addressType =
     (if addressType = 1 then read_sized_address 4 IP_String c
      else if addressType = 4 then read_sized_address 16 IP_String c
      else if addressType = 3 then
        (case readFull 1 c of
           (c1, Inl err) \<Rightarrow> (c1, Inl err)
         | (c1, Inr nameLength) \<Rightarrow>
             if nameLength ! 0 = 0 then (c1, Inl (ErrText (str ''empty SOCKS5 domain address'')))
             else read_sized_address (unat (nameLength ! 0)) (\<lambda>h. h) c1)
      else (c, Inl (ErrText (str ''unsupported address type '' @ decimal (unat addressType)))))"

definition socks5Connect :: "conn \<Rightarrow> bytes \<Rightarrow> (bytes \<times> bytes) option \<Rightarrow> conn \<times> goerr option" where
  "socks5Connect c target user =
     (case socks5Handshake c user of
        (c1, Some err) \<Rightarrow> (c1, Some err)
      | (c1, None) \<Rightarrow>
          (case encodeTarget target of
             Inl err \<Rightarrow> (c1, Some err)
           | Inr address \<Rightarrow>
               (case writeAll c1 ([5, 1, 0] @ address) of
                  (c2, Some err) \<Rightarrow> (c2, Some (wrap_err (str ''upstream SOCKS5 connect request'') err))
                | (c2, None) \<Rightarrow>
                    (case readFull 4 c2 of
                       (c3, Inl err) \<Rightarrow> (c3, Some (wrap_err (str ''read upstream SOCKS5 connect response'') err))
                     | (c3, Inr header) \<Rightarrow>
                         if header ! 0 \<noteq> 5 \<or> header ! 1 \<noteq> 0
                         then (c3, Some (ErrText (str ''upstream SOCKS5 rejected target with code '' @ decimal (unat (header ! 1)))))
                         else (case readSocksAddress c3 (header ! 3) of
                             (c4, Inl err) \<Rightarrow> (c4, Some (wrap_err (str ''read upstream SOCKS5 bind address'') err))
                           | (c4, Inr bound) \<Rightarrow> (c4, None))))))"

section \<open>Dialing\<close>

text \<open>
  What the environment answers: direct dials, dials of the proxy, the resolver, TLS on a connection for a
  server name, \<open>ctx.Err()\<close> at the end, the local UDP socket, and the resolution of the UDP relay.
\<close>

record upstreamEnv =
  ux_direct :: "bytes \<Rightarrow> conn result"
  ux_proxy :: "bytes \<Rightarrow> conn result"
  ux_lookup :: "bytes \<Rightarrow> bytes list result"
  ux_tls :: "bytes \<Rightarrow> conn \<Rightarrow> conn"
  ux_ctxErr :: "goerr option"
  ux_listen :: "goerr option"
  ux_relay :: "bytes \<Rightarrow> udpAddr result"

text \<open>The result of a dial, and what became of the proxy connection: was it opened, was it closed.\<close>

datatype proxyConn = NotOpened | Kept conn | Closed conn

definition proxy_setup :: "upstreamEnv \<Rightarrow> proxyURL \<Rightarrow> bytes \<Rightarrow> conn \<Rightarrow> conn \<times> goerr option" where
  "proxy_setup env proxy target c =
     (let scheme = ToLower (px_Scheme proxy) in
      if scheme = str ''http'' \<or> scheme = str ''https'' then
        (let c0 = (if EqualFold (px_Scheme proxy) (str ''https'')
                   then ux_tls env (case SplitHostPort (px_Host proxy) of Inl err \<Rightarrow> [] | Inr (host, port) \<Rightarrow> host) c
                   else c)
         in httpConnect c0 target (px_User proxy))
      else if scheme = str ''socks5'' \<or> scheme = str ''socks5h'' then socks5Connect c target (px_User proxy)
      else (c, None))"

definition proxy_target :: "upstreamEnv \<Rightarrow> proxyURL \<Rightarrow> bytes \<Rightarrow> bytes result" where
  "proxy_target env proxy target =
     (case SplitHostPort target of
        Inl err \<Rightarrow> Inl (wrap_err (str ''invalid target '' @ Quote target) err)
      | Inr hp \<Rightarrow>
          if EqualFold (px_Scheme proxy) (str ''socks5'') then resolveTarget (ux_lookup env) target else Inr target)"

definition upstream_DialContext :: "upstreamEnv \<Rightarrow> upstreamDialer \<Rightarrow> bytes \<Rightarrow> proxyConn \<times> conn result" where
  "upstream_DialContext env d target =
     (case d of
        None \<Rightarrow> (NotOpened, ux_direct env target)
      | Some proxy \<Rightarrow>
          (case proxy_target env proxy target of
             Inl err \<Rightarrow> (NotOpened, Inl err)
           | Inr resolved \<Rightarrow>
               (case ux_proxy env (px_Host proxy) of
                  Inl err \<Rightarrow> (NotOpened, Inl err)
                | Inr c \<Rightarrow>
                    (case proxy_setup env proxy resolved c of
                       (c1, Some setupErr) \<Rightarrow> (Closed c1, Inl setupErr)
                     | (c1, None) \<Rightarrow>
                         (case ux_ctxErr env of
                            Some err \<Rightarrow> (Closed c1, Inl err)
                          | None \<Rightarrow> (Kept c1, Inr c1))))))"

section \<open>Packet connections\<close>

datatype packetEvent = PCancel | PControlClose | PUdpClose

record packetConn =
  pc_relay :: udpAddr
  pc_resolveDomains :: bool
  pc_closed :: bool
  pc_events :: "packetEvent list"

definition packet_Close :: "packetConn \<Rightarrow> packetConn" where
  "packet_Close p =
     (if pc_closed p then p
      else p\<lparr>pc_closed := True, pc_events := pc_events p @ [PCancel, PControlClose, PUdpClose]\<rparr>)"

text \<open>
  \<open>ReadFrom\<close> of a received packet into a buffer of the given length: the bytes copied, the source and
  the error.
\<close>

definition ReadFrom :: "bytes result \<Rightarrow> nat \<Rightarrow> bytes \<times> bytes \<times> goerr option" where
  "ReadFrom received buffer =
     (case received of
        Inl err \<Rightarrow> ([], [], Some err)
      | Inr packet \<Rightarrow>
          if length packet < 4 \<or> packet ! 0 \<noteq> 0 \<or> packet ! 1 \<noteq> 0 \<or> packet ! 2 \<noteq> 0
          then ([], [], Some (ErrText (str ''invalid upstream SOCKS5 UDP packet'')))
          else (case readSocksAddress (fresh_conn (drop 4 packet)) (packet ! 3) of
              (c1, Inl err) \<Rightarrow> ([], [], Some err)
            | (c1, Inr address) \<Rightarrow>
                let consumed = length packet - 4 - length (inbuf c1);
                    payload = drop (4 + consumed) packet
                in if buffer < length payload then (take buffer payload, address, Some IoErrShortBuffer)
                   else (payload, address, None)))"

text \<open>The packet that \<open>WriteToTarget\<close> hands to the UDP socket.\<close>

definition packet_bytes :: "(bytes \<Rightarrow> bytes result) \<Rightarrow> packetConn \<Rightarrow> bytes \<Rightarrow> bytes \<Rightarrow> bytes result" where
  "packet_bytes resolver p data target =
     rbind (if pc_resolveDomains p then resolver target else Inr target) (\<lambda>resolved.
       rbind (encodeTarget resolved) (\<lambda>targetAddress. Inr ([0, 0, 0] @ targetAddress @ data)))"

definition WriteToTarget ::
  "(bytes \<Rightarrow> bytes result) \<Rightarrow> (bytes \<Rightarrow> udpAddr \<Rightarrow> goerr option) \<Rightarrow> packetConn \<Rightarrow> bytes \<Rightarrow> bytes \<Rightarrow> nat \<times> goerr option" where
  "WriteToTarget resolver send p data target =
     (case packet_bytes resolver p data target of
        Inl err \<Rightarrow> (0, Some err)
      | Inr packet \<Rightarrow>
          (case send packet (pc_relay p) of Some err \<Rightarrow> (0, Some err) | None \<Rightarrow> (length data, None)))"

definition packet_WriteTo ::
  "(bytes \<Rightarrow> bytes result) \<Rightarrow> (bytes \<Rightarrow> udpAddr \<Rightarrow> goerr option) \<Rightarrow> packetConn \<Rightarrow> bytes \<Rightarrow> bytes option \<Rightarrow> nat \<times> goerr option" where
  "packet_WriteTo resolver send p data address =
     (case address of
        None \<Rightarrow> (0, Some (ErrText (str ''datagram destination is required'')))
      | Some target \<Rightarrow> WriteToTarget resolver send p data target)"

text \<open>The address of the relay: a wildcard stands for the host of the proxy.\<close>

definition relay_address :: "proxyURL \<Rightarrow> bytes \<Rightarrow> bytes result" where
  "relay_address proxy bind =
     rbind (SplitHostPort bind) (\<lambda>(relayHost, relayPort).
       Inr (JoinHostPort
         (if relayHost \<in> {str ''0.0.0.0'', str ''::'', []}
          then (case SplitHostPort (px_Host proxy) of Inl err \<Rightarrow> [] | Inr (host, port) \<Rightarrow> host)
          else relayHost) relayPort))"

definition associate_request :: bytes where "associate_request = [5, 3, 0, 1, 0, 0, 0, 0, 0, 0]"

definition associate :: "proxyURL \<Rightarrow> conn \<Rightarrow> conn \<times> bytes result" where
  "associate proxy control =
     (case socks5Handshake control (px_User proxy) of
        (c1, Some err) \<Rightarrow> (c1, Inl err)
      | (c1, None) \<Rightarrow>
          (case writeAll c1 associate_request of
             (c2, Some err) \<Rightarrow> (c2, Inl (wrap_err (str ''upstream SOCKS5 UDP associate request'') err))
           | (c2, None) \<Rightarrow>
               (case readFull 4 c2 of
                  (c3, Inl err) \<Rightarrow> (c3, Inl (wrap_err (str ''read upstream SOCKS5 UDP associate response'') err))
                | (c3, Inr header) \<Rightarrow>
                    if header ! 0 \<noteq> 5 \<or> header ! 1 \<noteq> 0
                    then (c3, Inl (ErrText (str ''upstream SOCKS5 rejected UDP associate with code '' @ decimal (unat (header ! 1)))))
                    else (case readSocksAddress c3 (header ! 3) of
                        (c4, Inl err) \<Rightarrow> (c4, Inl (wrap_err (str ''read upstream SOCKS5 UDP relay address'') err))
                      | (c4, Inr bind) \<Rightarrow> (c4, relay_address proxy bind)))))"

text \<open>\<open>OpenPacketContext\<close>: a direct UDP socket, or a packet connection with its control connection.\<close>

datatype packetDial = DirectUDP | ProxyUDP packetConn

definition OpenPacketContext :: "upstreamEnv \<Rightarrow> upstreamDialer \<Rightarrow> proxyConn \<times> packetDial result" where
  "OpenPacketContext env d =
     (let direct = (case ux_listen env of Some err \<Rightarrow> Inl err | None \<Rightarrow> Inr DirectUDP) in
      case d of
        None \<Rightarrow> (NotOpened, direct)
      | Some proxy \<Rightarrow>
          if EqualFold (px_Scheme proxy) (str ''http'') \<or> EqualFold (px_Scheme proxy) (str ''https'') then (NotOpened, direct)
          else (case ux_proxy env (px_Host proxy) of
              Inl err \<Rightarrow> (NotOpened, Inl err)
            | Inr control \<Rightarrow>
                (case associate proxy control of
                   (c1, Inl err) \<Rightarrow> (Closed c1, Inl err)
                 | (c1, Inr relay) \<Rightarrow>
                     (case ux_relay env relay of
                        Inl err \<Rightarrow> (Closed c1, Inl (wrap_err (str ''resolve upstream SOCKS5 UDP relay address'') err))
                      | Inr relayAddr \<Rightarrow>
                          (case ux_listen env of
                             Some err \<Rightarrow> (Closed c1, Inl err)
                           | None \<Rightarrow>
                               let packet = \<lparr>pc_relay = relayAddr, pc_resolveDomains = EqualFold (px_Scheme proxy) (str ''socks5''),
                                             pc_closed = False, pc_events = []\<rparr>
                               in (case ux_ctxErr env of
                                     Some err \<Rightarrow> (Closed c1, Inl err)
                                   | None \<Rightarrow> (Kept c1, Inr (ProxyUDP packet))))))))"

end
