(* ===== verification/UpstreamProps.thy ===== *)
theory UpstreamProps
  imports Upstream Socks5Props
begin

text \<open>
  The upstream dialer against the peers it talks to: its SOCKS5 client and the SOCKS5 front end of the
  same program understand each other, for connections and for datagrams, and its HTTP CONNECT client
  consumes the response and nothing more.
\<close>

section \<open>Writing and reading\<close>

lemma writeAll_healthy: "wscript c = [] \<Longrightarrow> writeAll c p = (c\<lparr>outbuf := outbuf c @ p\<rparr>, None)"
  by (cases "p = []") (simp_all add: writeAll_def attach_writeFull.simps healthy_write)

lemma read_sized_bytes:
  assumes "inbuf c = f @ [word_of_nat (port div 256), word_of_nat port] @ ys" and "length f = n" and "port < 65536"
  shows "read_sized_address n host c = (c\<lparr>inbuf := ys\<rparr>, Inr (JoinHostPort (host f) (decimal port)))"
proof -
  let ?tail = "[word_of_nat (port div 256), word_of_nat port] :: bytes"
  have "readFull (n + 2) c = (c\<lparr>inbuf := ys\<rparr>, Inr (f @ ?tail))"
    using readFull_enough [of c "f @ ?tail" ys "n + 2"] assms(1,2) by simp
  then show ?thesis
    using assms(2,3) port_bytes [OF assms(3)] by (simp add: read_sized_address_def unat_of_nat_u16)
qed

text \<open>The field of an address, as both implementations write it.\<close>

definition address_field :: "bytes \<Rightarrow> bytes \<Rightarrow> bool" where
  "address_field h field \<longleftrightarrow> (\<exists>ip. length ip = 4 \<and> field = 1 # ip \<and> h = IP_String ip)
     \<or> (\<exists>ip. length ip = 16 \<and> field = 4 # ip \<and> h = IP_String ip)
     \<or> (0 < length h \<and> length h \<le> 255 \<and> field = 3 # word_of_nat (length h) # h)"

lemma readSocksAddress_field:
  assumes f: "address_field h field"
    and c: "inbuf c = tl field @ [word_of_nat (port div 256), word_of_nat port] @ ys" and p: "port < 65536"
  shows "readSocksAddress c (hd field) = (c\<lparr>inbuf := ys\<rparr>, Inr (JoinHostPort h (decimal port)))"
proof -
  consider (v4) ip where "length ip = 4" "field = 1 # ip" "h = IP_String ip"
    | (v6) ip where "length ip = 16" "field = 4 # ip" "h = IP_String ip"
    | (name) "0 < length h" "length h \<le> 255" "field = 3 # word_of_nat (length h) # h"
    using f unfolding address_field_def by blast
  then show ?thesis
  proof cases
    case v4
    with c p show ?thesis by (simp add: readSocksAddress_def read_sized_bytes)
  next
    case v6
    with c p show ?thesis by (simp add: readSocksAddress_def read_sized_bytes)
  next
    case name
    let ?c1 = "c\<lparr>inbuf := h @ [word_of_nat (port div 256), word_of_nat port] @ ys\<rparr>"
    have l: "unat (word_of_nat (length h) :: byte) = length h" using name(2) by (simp add: unat_word_of_nat_byte)
    then have nz: "(word_of_nat (length h) :: byte) \<noteq> 0" using name(1) by (metis unat_0 less_irrefl)
    have "readFull 1 c = (?c1, Inr [word_of_nat (length h)])"
      using readFull_enough [of c "[word_of_nat (length h)]" "h @ [word_of_nat (port div 256), word_of_nat port] @ ys" 1] c name(3)
      by simp
    moreover have "read_sized_address (length h) (\<lambda>h. h) ?c1 = (c\<lparr>inbuf := ys\<rparr>, Inr (JoinHostPort h (decimal port)))"
      using read_sized_bytes [of ?c1 h port ys "length h" "\<lambda>h. h"] p by simp
    ultimately show ?thesis using name(3) nz l by (simp add: readSocksAddress_def)
  qed
qed

text \<open>Both encoders agree on every target the front end accepts, except that a port must not be zero.\<close>

lemma encodeTarget_eq:
  assumes "socks_host h" and "0 < p" "p < 65536"
  obtains field where "encodeAddress (JoinHostPort h (decimal p)) = Inr (field @ [word_of_nat (p div 256), word_of_nat p])"
    and "encodeTarget (JoinHostPort h (decimal p)) = Inr (field @ [word_of_nat (p div 256), word_of_nat p])"
    and "address_field h field" and "field \<noteq> []"
proof -
  let ?t = "JoinHostPort h (decimal p)"
  obtain bs where bs: "encodeAddress ?t = Inr bs" using socks_host_encodes [OF assms(1,3)] by blast
  have split: "SplitHostPort ?t = Inr (h, decimal p)" "ParseUint (decimal p) 10 16 = Some p"
    using socks_host_split [OF assms(1)] ParseUint_decimal [of p 16] assms(3) by simp_all
  from bs show ?thesis
  proof (cases rule: encodeAddress_cases)
    case (1 host rawPort port field)
    then have eq: "host = h" "port = p" "canonical_host h = h"
      using split socks_host_canonical [OF assms(1)] by auto
    have "To4 [] = []" "To16 [] = []" by (simp_all add: To4_def To16_def)
    then have "encodeTarget ?t = encodeAddress ?t"
      using bs split assms(2) by (auto simp: encodeTarget_def encodeAddress_def Let_def split: if_splits)
    moreover have "address_field h field" "field \<noteq> []" using 1(4) eq by (auto simp: address_field_def)
    ultimately show ?thesis using that bs 1(3) eq by metis
  qed
qed

text \<open>A reply of the front end.\<close>

lemma reply_bytes_shape:
  "\<exists>t ip a b. reply_bytes code addr = [5, code, 0, t] @ ip @ [a, b] \<and> (t = 1 \<and> length ip = 4 \<or> t = 4 \<and> length ip = 16)"
proof -
  obtain host port where hp: "(case addr of None \<Rightarrow> ([], 0) | Some a \<Rightarrow> (case SplitHostPort a of Inl err \<Rightarrow> ([], 0) | Inr (h, p) \<Rightarrow> (h, Atoi_number p)))
      = (host, port :: int)" by (metis prod.exhaust)
  define ip where "ip = (if ParseIP host = [] then v4InV6Prefix @ [0, 0, 0, 0] else ParseIP host)"
  let ?tail = "[word_of_int (port div 256), word_of_int port] :: bytes"
  have r: "reply_bytes code addr = (if To4 ip \<noteq> [] then [5, code, 0, 1] @ To4 ip @ ?tail
      else [5, code, 0, 4] @ (if To16 ip = [] then replicate 16 0 else To16 ip) @ ?tail)"
    unfolding reply_bytes_def hp prod.case Let_def ip_def ..
  define f where "f = (if To4 ip \<noteq> [] then To4 ip else if To16 ip = [] then replicate 16 0 else To16 ip)"
  have "reply_bytes code addr = [5, code, 0, if To4 ip \<noteq> [] then 1 else 4] @ f @ ?tail" unfolding r f_def by simp
  moreover have "length f = (if To4 ip \<noteq> [] then 4 else 16)"
    using To4_length [of ip] unfolding f_def by (auto simp: To16_def v4InV6Prefix_def)
  ultimately show ?thesis by (cases "To4 ip = []") auto
qed

lemma readSocksAddress_reply:
  assumes "inbuf c = ip @ [a, b] @ ys" "t = 1 \<and> length ip = 4 \<or> t = 4 \<and> length ip = 16"
  shows "\<exists>bound. readSocksAddress c t = (c\<lparr>inbuf := ys\<rparr>, Inr bound)"
proof -
  have "readFull (length ip + 2) c = (c\<lparr>inbuf := ys\<rparr>, Inr (ip @ [a, b]))"
    using readFull_enough [of c "ip @ [a, b]" ys "length ip + 2"] assms(1) by simp
  then show ?thesis using assms(2) by (auto simp: readSocksAddress_def read_sized_address_def)
qed

section \<open>Connections\<close>

lemma handshake_accepted:
  assumes "wscript c = []" "inbuf c = [5, 0] @ ys"
  shows "socks5Handshake c user
    = (c\<lparr>inbuf := ys, outbuf := outbuf c @ [5, word_of_nat (length (socks5_methods user))] @ socks5_methods user\<rparr>, None)"
proof -
  let ?c1 = "c\<lparr>outbuf := outbuf c @ [5, word_of_nat (length (socks5_methods user))] @ socks5_methods user\<rparr>"
  have "readFull 2 ?c1 = (?c1\<lparr>inbuf := ys\<rparr>, Inr [5, 0])" using readFull_enough [of ?c1 "[5, 0]" ys 2] assms(2) by simp
  then show ?thesis using assms(1) by (simp add: socks5Handshake_def Let_def writeAll_healthy)
qed

lemma socks5Connect_answered:
  assumes t: "encodeTarget t = Inr field" and c: "wscript c = []" "inbuf c = [5, 0] @ reply_bytes code addr @ ys"
  shows "\<exists>c'. socks5Connect c t user = (c', if code = 0 then None
         else Some (ErrText (str ''upstream SOCKS5 rejected target with code '' @ decimal (unat code))))
     \<and> outbuf c' = outbuf c @ ([5, word_of_nat (length (socks5_methods user))] @ socks5_methods user) @ [5, 1, 0] @ field
     \<and> (code = 0 \<longrightarrow> inbuf c' = ys)"
proof -
  obtain ty ip a b where r: "reply_bytes code addr = [5, code, 0, ty] @ ip @ [a, b]"
      "ty = 1 \<and> length ip = 4 \<or> ty = 4 \<and> length ip = 16"
    using reply_bytes_shape by blast
  let ?hello = "[5, word_of_nat (length (socks5_methods user))] @ socks5_methods user"
  let ?c1 = "c\<lparr>inbuf := reply_bytes code addr @ ys, outbuf := outbuf c @ ?hello\<rparr>"
  let ?c2 = "?c1\<lparr>outbuf := outbuf ?c1 @ [5, 1, 0] @ field\<rparr>"
  let ?c3 = "?c2\<lparr>inbuf := ip @ [a, b] @ ys\<rparr>"
  have h: "socks5Handshake c user = (?c1, None)" by (rule handshake_accepted [OF c])
  have w: "writeAll ?c1 ([5, 1, 0] @ field) = (?c2, None)" using c(1) by (subst writeAll_healthy) simp_all
  have f: "readFull 4 ?c2 = (?c3, Inr [5, code, 0, ty])"
    using readFull_enough [of ?c2 "[5, code, 0, ty]" "ip @ [a, b] @ ys" 4] r(1) by simp
  obtain bound where "readSocksAddress ?c3 ty = (?c3\<lparr>inbuf := ys\<rparr>, Inr bound)"
    using readSocksAddress_reply [OF _ r(2), of ?c3 a b ys] by auto
  with h t w f show ?thesis unfolding socks5Connect_def by (cases "code = 0") simp_all
qed

lemma ServeConn_connect:
  assumes "negotiate c = (c1, None)" "readRequest c1 = (c2, Inr \<lparr>rq_command = commandConnect, rq_target = t\<rparr>)"
    "wscript c2 = []" "sx_deadline env = None" "sx_clear env = None"
  shows "ServeConn env c = (case sx_dial env t of
      Inr local \<Rightarrow> (c2\<lparr>outbuf := outbuf c2 @ reply_bytes replySucceeded (Some local)\<rparr>, SocksProxy t)
    | Inl err \<Rightarrow> (c2\<lparr>outbuf := outbuf c2 @ reply_bytes (mapDialError err) None\<rparr>, SocksFailed err))"
  using assms by (cases "sx_dial env t") (simp_all add: ServeConn_def healthy_reply)

text \<open>
  C24: the SOCKS5 client of the upstream dialer and the SOCKS5 front end speak the same protocol.  Connect
  the two: what each one writes is what the other reads, followed by arbitrary application data.  For
  every target the front end is asked for (an IP address or a domain, any port but zero) and with or
  without credentials in the proxy URL, the front end dials exactly that target; when the dial succeeds both
  sides end with a tunnel and the application data of each direction untouched, and when it fails the
  client reports the very code that the front end chose for the error.
\<close>
theorem upstream_socks_interop:
  assumes "socks_host h" "0 < p" "p < 65536" "t = JoinHostPort h (decimal p)"
    "sx_deadline env = None" "sx_clear env = None"
  shows "\<exists>sent front client.
     ServeConn env (fresh_conn (sent @ data))
       = (front, case sx_dial env t of Inr local \<Rightarrow> SocksProxy t | Inl err \<Rightarrow> SocksFailed err) \<and> inbuf front = data
     \<and> socks5Connect (fresh_conn (outbuf front @ answer)) t user
       = (client, case sx_dial env t of
            Inr local \<Rightarrow> None
          | Inl err \<Rightarrow> Some (ErrText (str ''upstream SOCKS5 rejected target with code '' @ decimal (unat (mapDialError err)))))
     \<and> outbuf client = sent \<and> (isOk (sx_dial env t) \<longrightarrow> inbuf client = answer)"
proof -
  obtain field where enc: "encodeAddress t = Inr (field @ [word_of_nat (p div 256), word_of_nat p])"
    "encodeTarget t = Inr (field @ [word_of_nat (p div 256), word_of_nat p])"
    using encodeTarget_eq [OF assms(1-3)] assms(4) by metis
  let ?address = "field @ [word_of_nat (p div 256), word_of_nat p]"
  let ?methods = "socks5_methods user"
  let ?sent = "[5, word_of_nat (length ?methods)] @ ?methods @ [5, commandConnect, 0] @ ?address"
  let ?c = "fresh_conn (?sent @ data)"
  let ?c1 = "?c\<lparr>inbuf := [5, commandConnect, 0] @ ?address @ data, outbuf := [5, 0]\<rparr>"
  let ?c2 = "?c1\<lparr>inbuf := data\<rparr>"
  have m: "length ?methods = unat (word_of_nat (length ?methods) :: byte)" "0 \<in> set ?methods"
    by (auto simp: socks5_methods_def)
  have n: "negotiate ?c = (?c1, None)"
    using negotiate_offered [OF _ m, of ?c "[5, commandConnect, 0] @ ?address @ data"] by (simp add: fresh_conn_def)
  have q: "readRequest ?c1 = (?c2, Inr \<lparr>rq_command = commandConnect, rq_target = t\<rparr>)"
    using readRequest_encoded [of h p ?address ?c1 commandConnect 0 data] assms(1,3,4) enc(1) by simp
  define code where "code = (case sx_dial env t of Inr local \<Rightarrow> replySucceeded | Inl err \<Rightarrow> mapDialError err)"
  define addr where "addr = (case sx_dial env t of Inr local \<Rightarrow> Some local | Inl err \<Rightarrow> None)"
  have s: "ServeConn env ?c = (?c2\<lparr>outbuf := [5, 0] @ reply_bytes code addr\<rparr>,
      case sx_dial env t of Inr local \<Rightarrow> SocksProxy t | Inl err \<Rightarrow> SocksFailed err)"
  proof -
    have "wscript ?c2 = []" "outbuf ?c2 = [5, 0]" by (simp_all add: fresh_conn_def)
    from ServeConn_connect [OF n q this(1) assms(5,6)] this(2) show ?thesis
      unfolding code_def addr_def by (cases "sx_dial env t") simp_all
  qed
  obtain client where "socks5Connect (fresh_conn (([5, 0] @ reply_bytes code addr) @ answer)) t user
       = (client, if code = 0 then None
         else Some (ErrText (str ''upstream SOCKS5 rejected target with code '' @ decimal (unat code))))
     \<and> outbuf client = ?sent \<and> (code = 0 \<longrightarrow> inbuf client = answer)"
    using socks5Connect_answered [OF enc(2), of "fresh_conn (([5, 0] @ reply_bytes code addr) @ answer)" code addr answer user]
    by (auto simp: fresh_conn_def)
  moreover have "code = 0 \<longleftrightarrow> isOk (sx_dial env t)" "\<And>err. sx_dial env t = Inl err \<Longrightarrow> code = mapDialError err"
    using mapDialError_nonzero by (auto simp: code_def isOk_def split: sum.splits)
  ultimately show ?thesis using s
    by (intro exI [of _ ?sent] exI [of _ "?c2\<lparr>outbuf := [5, 0] @ reply_bytes code addr\<rparr>"] exI [of _ client])
       (auto split: sum.split)
qed

theorem upstream_socks_interop_witness:
  "\<exists>sent front client.
     ServeConn curl_env (fresh_conn (sent @ [71])) = (front, SocksProxy (JoinHostPort (IP_String [127, 0, 0, 1]) (decimal 80))) \<and> inbuf front = [71]
     \<and> socks5Connect (fresh_conn (outbuf front @ [72])) (JoinHostPort (IP_String [127, 0, 0, 1]) (decimal 80)) (Some ([117], [112])) = (client, None)
     \<and> outbuf client = sent \<and> inbuf client = [72]"
proof -
  obtain local where "sx_dial curl_env (JoinHostPort (IP_String [127, 0, 0, 1]) (decimal 80)) = Inr local"
    "sx_deadline curl_env = None" "sx_clear curl_env = None"
    by (auto simp: curl_env_def)
  then show ?thesis
    using upstream_socks_interop [OF socks_host_IP, of "[127, 0, 0, 1]" 80 _ curl_env "[71]" "[72]" "Some ([117], [112])"]
    by simp
qed

section \<open>Datagrams\<close>

text \<open>
  The datagram codecs of the upstream dialer and of the SOCKS5 front end invert each other.  The packet
  that \<open>WriteToTarget\<close> sends for a target is parsed by the front end as a request for that target (the
  resolved one, where the scheme asks for local resolution) with the same data; the response packet of the
  front end is read back by \<open>ReadFrom\<close> with the same source and data, cut to the buffer with
  \<open>io.ErrShortBuffer\<close> when the buffer is too small.
\<close>
lemma upstream_udp_codec:
  assumes "socks_host h" "0 < p" "p < 65536" "t = JoinHostPort h (decimal p)"
    "(if pc_resolveDomains pc then resolver target else Inr target) = Inr t"
  shows "\<exists>packet response. packet_bytes resolver pc data target = Inr packet \<and> parseUDPRequest packet = Inr (t, data)
     \<and> encodeUDPResponse t data = Inr response
     \<and> ReadFrom (Inr response) buffer
       = (if buffer < length data then (take buffer data, t, Some IoErrShortBuffer) else (data, t, None))"
proof -
  obtain field where enc: "encodeAddress t = Inr (field @ [word_of_nat (p div 256), word_of_nat p])"
    "encodeTarget t = Inr (field @ [word_of_nat (p div 256), word_of_nat p])" "address_field h field" "field \<noteq> []"
    using encodeTarget_eq [OF assms(1-3)] assms(4) by metis
  let ?rest = "tl field @ [word_of_nat (p div 256), word_of_nat p] @ data"
  let ?packet = "[0, 0, 0, hd field] @ ?rest"
  have pk: "[0, 0, 0] @ (field @ [word_of_nat (p div 256), word_of_nat p]) @ data = ?packet"
    using enc(4) by (cases field) auto
  have b: "packet_bytes resolver pc data target = Inr ?packet" "encodeUDPResponse t data = Inr ?packet"
    using enc assms(5) pk by (simp_all add: packet_bytes_def encodeUDPResponse_def)
  then have "parseUDPRequest ?packet = Inr (t, data)"
    using udp_packet_parses [OF b(2)] assms(4) socks_host_split [OF assms(1), of p] socks_host_canonical [OF assms(1)]
      ParseUint_decimal [of p 16] assms(3) by auto
  moreover have "readSocksAddress (fresh_conn ?rest) (hd field) = ((fresh_conn ?rest)\<lparr>inbuf := data\<rparr>, Inr t)"
    using readSocksAddress_field [OF enc(3), of "fresh_conn ?rest" p data] assms(3,4) by (simp add: fresh_conn_def)
  moreover have "drop (4 + (length ?packet - 4 - length data)) ?packet = data" by (simp add: drop_Cons')
  ultimately show ?thesis using b
    by (intro exI [of _ ?packet]) (simp add: ReadFrom_def Let_def)
qed

section \<open>HTTP CONNECT\<close>

lemma conn_read1_Cons: "inbuf c = b # rest \<Longrightarrow> conn_read1 c = (c\<lparr>inbuf := rest\<rparr>, Some b, None)"
  by (simp add: conn_read1_def)

lemma readLine_line:
  assumes "10 \<notin> set l" "used + length l < maxProxyHeader" "inbuf c = l @ 10 # rest"
  shows "readLine conn_read1 used acc c = (c\<lparr>inbuf := rest\<rparr>, used + Suc (length l), Inr (acc @ l @ [10]))"
  using assms
proof (induction l arbitrary: used acc c)
  case Nil
  then show ?case by (simp add: readLine.simps [of _ used] conn_read1_Cons)
next
  case (Cons b l)
  then have "readLine conn_read1 used acc c = readLine conn_read1 (Suc used) (acc @ [b]) (c\<lparr>inbuf := l @ 10 # rest\<rparr>)"
    by (auto simp: readLine.simps [of _ used] conn_read1_Cons)
  also have "\<dots> = (c\<lparr>inbuf := rest\<rparr>, used + Suc (length (b # l)), Inr (acc @ (b # l) @ [10]))"
    using Cons.IH [of "Suc used" "c\<lparr>inbuf := l @ 10 # rest\<rparr>" "acc @ [b]"] Cons.prems by simp
  finally show ?case .
qed

abbreviation crlf_lines :: "bytes list \<Rightarrow> bytes" where
  "crlf_lines hs \<equiv> concat (map (\<lambda>h. h @ [10]) hs)"

lemma readHeaders_lines:
  assumes "\<forall>h \<in> set hs. 10 \<notin> set h \<and> h \<noteq> [] \<and> h \<noteq> [13]" "blank = [] \<or> blank = [13]"
    "used + length (crlf_lines hs @ blank) < maxProxyHeader" "inbuf c = crlf_lines hs @ blank @ 10 # rest"
  shows "readHeaders conn_read1 used c = (c\<lparr>inbuf := rest\<rparr>, used + Suc (length (crlf_lines hs @ blank)), None)"
  using assms
proof (induction hs arbitrary: used c)
  case Nil
  then have "readLine conn_read1 used [] c = (c\<lparr>inbuf := rest\<rparr>, used + Suc (length blank), Inr (blank @ [10]))"
    using readLine_line [of blank used c rest "[]"] by auto
  with Nil.prems(2) show ?case by (auto simp: readHeaders.simps [of _ used])
next
  case (Cons h hs)
  let ?c = "c\<lparr>inbuf := crlf_lines hs @ blank @ 10 # rest\<rparr>"
  have "readLine conn_read1 used [] c = (?c, used + Suc (length h), Inr (h @ [10]))"
    using readLine_line [of h used c "crlf_lines hs @ blank @ 10 # rest" "[]"] Cons.prems by simp
  then have "readHeaders conn_read1 used c = readHeaders conn_read1 (used + Suc (length h)) ?c"
    using Cons.prems(1) by (subst readHeaders.simps) (auto simp: append_eq_Cons_conv)
  then show ?case using Cons.IH [of "used + Suc (length h)" ?c] Cons.prems by simp
qed

text \<open>
  An HTTP CONNECT response is consumed exactly.  Let the proxy answer with a status line, header lines
  and an empty line, of at most 64 KiB in all, followed by whatever the target sends.  Then \<open>httpConnect\<close>
  has written exactly one CONNECT request, has read exactly the response, leaving the first byte of the
  tunnel to the caller, and succeeds just when the status code is a 2xx.
\<close>
lemma http_connect_exact:
  assumes "wscript c = []" "inbuf c = (status @ [10]) @ crlf_lines hs @ (blank @ [10]) @ tunnel"
    "10 \<notin> set status" "\<forall>h \<in> set hs. 10 \<notin> set h \<and> h \<noteq> [] \<and> h \<noteq> [13]" "blank = [] \<or> blank = [13]"
    "length ((status @ [10]) @ crlf_lines hs @ (blank @ [10])) \<le> maxProxyHeader"
    "connect_status (status @ [10]) = Inr code"
  shows "httpConnect c target user = (c\<lparr>inbuf := tunnel, outbuf := outbuf c @ connect_request target user\<rparr>,
     if 200 \<le> code \<and> code < 300 then None
     else Some (ErrText (str ''upstream HTTP CONNECT rejected target with status '' @ int_text code)))"
proof -
  let ?c1 = "c\<lparr>outbuf := outbuf c @ connect_request target user\<rparr>"
  let ?c2 = "?c1\<lparr>inbuf := crlf_lines hs @ blank @ 10 # tunnel\<rparr>"
  have "readLine conn_read1 0 [] ?c1 = (?c2, Suc (length status), Inr (status @ [10]))"
    using readLine_line [OF assms(3), of 0 ?c1 "crlf_lines hs @ blank @ 10 # tunnel" "[]"] assms(2,6) by simp
  moreover have "readHeaders conn_read1 (Suc (length status)) ?c2
      = (?c2\<lparr>inbuf := tunnel\<rparr>, Suc (length status) + Suc (length (crlf_lines hs @ blank)), None)"
    using readHeaders_lines [OF assms(4,5), of "Suc (length status)" ?c2 tunnel] assms(6) by simp
  ultimately show ?thesis using assms(1,7) by (simp add: httpConnect_def writeAll_healthy)
qed

text \<open>Whatever the proxy sends: the bytes used are the bytes consumed.\<close>

lemma readLine_consumes:
  "readLine conn_read1 used acc c = (c', used', r) \<Longrightarrow>
     \<exists>xs. inbuf c = xs @ inbuf c' \<and> used' = used + length xs \<and> outbuf c' = outbuf c \<and> inerr c' = inerr c \<and> wscript c' = wscript c"
proof (induction "conn_read1" used acc c rule: readLine.induct)
  case (1 used acc c)
  show ?case
  proof (cases "maxProxyHeader \<le> used \<or> inbuf c = []")
    case True
    with "1.prems" show ?thesis by (auto simp: readLine.simps [of _ used] conn_read1_def split: if_splits)
  next
    case False
    then obtain b rest where b: "inbuf c = b # rest" by (cases "inbuf c") auto
    show ?thesis
    proof (cases "b = 10")
      case True
      with "1.prems" False b show ?thesis by (auto simp: readLine.simps [of _ used] conn_read1_Cons intro!: exI [of _ "[10]"])
    next
      case other: False
      then have "readLine conn_read1 (Suc used) (acc @ [b]) (c\<lparr>inbuf := rest\<rparr>) = (c', used', r)"
        using "1.prems" False b by (auto simp: readLine.simps [of _ used] conn_read1_Cons)
      moreover have "(c\<lparr>inbuf := rest\<rparr>, Some b, None) = conn_read1 c" using b by (simp add: conn_read1_Cons)
      ultimately obtain xs where
        "rest = xs @ inbuf c'" "used' = Suc used + length xs" "outbuf c' = outbuf c" "inerr c' = inerr c" "wscript c' = wscript c"
        using "1.hyps" [OF _ _ refl refl refl other] False by fastforce
      with b show ?thesis by (intro exI [of _ "b # xs"]) simp
    qed
  qed
qed

lemma readHeaders_consumes:
  "readHeaders conn_read1 used c = (c', used', e) \<Longrightarrow> used \<le> maxProxyHeader \<Longrightarrow>
     used' \<le> maxProxyHeader \<and> (\<exists>xs. inbuf c = xs @ inbuf c' \<and> used' = used + length xs \<and> outbuf c' = outbuf c)"
proof (induction "conn_read1" used c rule: readHeaders.induct)
  case (1 used c)
  obtain c1 used1 r where l: "readLine conn_read1 used [] c = (c1, used1, r)" by (metis prod.exhaust)
  obtain xs where xs: "inbuf c = xs @ inbuf c1" "used1 = used + length xs" "outbuf c1 = outbuf c"
    using readLine_consumes [OF l] by blast
  have u: "used1 \<le> maxProxyHeader" using readLine_used [OF l] "1.prems"(2) by simp
  show ?case
  proof (cases "\<exists>line. r = Inr line \<and> line \<noteq> [13, 10] \<and> line \<noteq> [10]")
    case False
    then have "c' = c1" "used' = used1" using "1.prems"(1) l by (auto simp: readHeaders.simps [of _ used] split: sum.splits)
    with xs u show ?thesis by auto
  next
    case True
    then obtain line where line: "r = Inr line" "line \<noteq> [13, 10]" "line \<noteq> [10]" by blast
    then have "readHeaders conn_read1 used1 c1 = (c', used', e)" using "1.prems"(1) l by (simp add: readHeaders.simps [of _ used])
    from "1.hyps" [OF l [symmetric] refl line(1) _ this u] line(2,3) obtain ys where
      "used' \<le> maxProxyHeader" "inbuf c1 = ys @ inbuf c'" "used' = used1 + length ys" "outbuf c' = outbuf c1" by auto
    with xs show ?thesis by (intro conjI exI [of _ "xs @ ys"]) simp_all
  qed
qed

lemma writeAll_input: "writeAll c p = (c', e) \<Longrightarrow> inbuf c' = inbuf c"
  unfolding writeAll_def
proof (induction conn_write c p rule: attach_writeFull.induct)
  case (1 c p)
  obtain c1 n err where w: "conn_write c p = (c1, n, err)" by (metis prod.exhaust)
  then have i: "inbuf c1 = inbuf c" by (auto simp: conn_write_def split: list.splits)
  show ?case
  proof (cases "p = [] \<or> err \<noteq> None \<or> n \<le> 0 \<or> int (length p) < n")
    case True
    then show ?thesis using "1.prems" w i by (auto simp: attach_writeFull.simps [of _ c] split: if_splits option.splits)
  next
    case False
    then have "attach_writeFull conn_write c1 (drop (nat n) p) = (c', e)"
      using "1.prems" w by (simp add: attach_writeFull.simps [of _ c])
    then show ?thesis using "1.hyps" [OF _ w [symmetric] refl] False i by simp
  qed
qed

text \<open>
  C25: whatever the proxy sends and however its connection fails, \<open>httpConnect\<close> returns, having read at most
  64 KiB of the response; it reads only after the whole CONNECT request is written, and writes nothing
  else.
\<close>
theorem http_connect_bounded:
  "\<exists>consumed k. inbuf c = consumed @ inbuf (fst (httpConnect c target user)) \<and> length consumed \<le> maxProxyHeader
     \<and> outbuf (fst (httpConnect c target user)) = outbuf c @ take k (connect_request target user)
     \<and> (consumed = [] \<or> k = length (connect_request target user))"
proof -
  let ?request = "connect_request target user"
  obtain c1 e where w: "writeAll c ?request = (c1, e)" by (metis prod.exhaust)
  obtain k where k: "outbuf c1 = outbuf c @ take k ?request" "e = None \<longrightarrow> k = length ?request"
    using conn.writeFull_prefix [of c ?request c1 e] w unfolding writeAll_def conn.attach_writeFull_eq by blast
  have i: "inbuf c1 = inbuf c" using writeAll_input [OF w] .
  obtain c2 used r where l: "readLine conn_read1 0 [] c1 = (c2, used, r)" by (metis prod.exhaust)
  obtain xs where xs: "inbuf c1 = xs @ inbuf c2" "used = length xs" "outbuf c2 = outbuf c1"
    using readLine_consumes [OF l] by auto
  have u: "used \<le> maxProxyHeader" using readLine_used [OF l] by simp
  obtain c3 used3 e3 where h: "readHeaders conn_read1 used c2 = (c3, used3, e3)" by (metis prod.exhaust)
  obtain ys where ys: "used3 \<le> maxProxyHeader" "inbuf c2 = ys @ inbuf c3" "used3 = used + length ys" "outbuf c3 = outbuf c2"
    using readHeaders_consumes [OF h u] by blast
  have "fst (httpConnect c target user) = c1 \<and> e \<noteq> None \<or> e = None \<and> fst (httpConnect c target user) \<in> {c2, c3}"
    using w l h by (auto simp: httpConnect_def split: option.splits sum.splits)
  then consider "fst (httpConnect c target user) = c1" | "e = None" "fst (httpConnect c target user) = c2"
    | "e = None" "fst (httpConnect c target user) = c3" by auto
  then show ?thesis
  proof cases
    case 1
    then show ?thesis using i k by (intro exI [of _ "[]"] exI [of _ k]) simp
  next
    case 2
    then show ?thesis using i k xs u by (intro exI [of _ xs] exI [of _ k]) simp
  next
    case 3
    then show ?thesis using i k xs ys by (intro exI [of _ "xs @ ys"] exI [of _ k]) simp
  qed
qed

end
