(* ===== verification/Connector.thy ===== *)
theory Connector
  imports AttachHandshake
begin

text \<open>
  The connector (src/internal/connector/connector.go): it dials the broker's local endpoint, completes the
  resume handshake, retries while the broker is being replaced, and copies bytes between the two
  streams.  Durations are nanoseconds; the arithmetic on them wraps at 64 bits as in the code.
\<close>

section \<open>Connecting\<close>

record connectorConfig =
  cf_Endpoint :: bytes
  cf_Token :: bytes
  cf_Capabilities :: u64
  cf_LastEpoch :: u64

record session =
  se_Conn :: conn
  se_Epoch :: u64
  se_InstanceID :: u64
  se_PeerCapabilities :: u64
  se_Summary :: Summary

definition connector_validate :: "connectorConfig \<Rightarrow> goerr option" where
  "connector_validate c = (if cf_Endpoint c = [] \<or> length (cf_Token c) = 0 then Some ErrInvalidConfig else None)"

text \<open>
  \<open>Connect\<close>: the outcome of the dial, and \<open>ctx.Err()\<close> after a failed handshake.  The first component says
  what became of the connection: \<open>Some True\<close> when it was closed.  A deadline or a cancelled context shows as
  a read or write error of the connection.
\<close>

definition connector_Connect :: "connectorConfig \<Rightarrow> conn result \<Rightarrow> goerr option \<Rightarrow> bool option \<times> session result" where
  "connector_Connect config dialed ctxErr =
     (case connector_validate config of
        Some err \<Rightarrow> (None, Inl err)
      | None \<Rightarrow>
          (case dialed of
             Inl err \<Rightarrow> (None, Inl err)
           | Inr c \<Rightarrow>
               (case ClientResumeHandshakeWithInstance c (cf_Token config) (cf_Capabilities config) (cf_LastEpoch config) of
                  (c1, Inl err) \<Rightarrow> (Some True, Inl (case ctxErr of Some e \<Rightarrow> e | None \<Rightarrow> err))
                | (c1, Inr (epoch, peerCapabilities, instanceID, summary)) \<Rightarrow>
                    (Some False, Inr \<lparr>se_Conn = c1, se_Epoch = epoch, se_InstanceID = instanceID,
                                      se_PeerCapabilities = peerCapabilities, se_Summary = summary\<rparr>))))"

definition isRetryableConnectError :: "goerr \<Rightarrow> bool" where
  "isRetryableConnectError err \<longleftrightarrow> \<not> err_is err ErrInvalidConfig \<and> \<not> err_is err ErrRemoteAttach"

text \<open>\<open>Session.Close\<close>: whether the connection is closed; a nil session has none.\<close>

definition session_Close :: "session option \<Rightarrow> bool" where
  "session_Close s \<longleftrightarrow> s \<noteq> None"

section \<open>Retrying\<close>

definition wrap_duration :: "int \<Rightarrow> int" where
  "wrap_duration d = (d + 2 ^ 63) mod 2 ^ 64 - 2 ^ 63"

definition next_delay :: "int \<Rightarrow> int \<Rightarrow> int" where
  "next_delay maximum delay =
     (if delay < maximum
      then (let doubled = wrap_duration (delay * 2) in if maximum < doubled then maximum else doubled)
      else delay)"

text \<open>
  The loop against a clock: an attempt takes some time and has an outcome.  The parent context may be
  cancelled at a given time with a given error, which also cancels the context of the window; the window counts from
  the start.  When several cases of the \<open>select\<close> are ready at the same time, \<open>ca_pick\<close> chooses one of them.  \<open>None\<close>
  means that the attempts given were not enough; the time at the end is when the call returns.
\<close>

record connectAttempt =
  ca_cost :: nat
  ca_result :: "session result"
  ca_pick :: nat

definition cancelled_at :: "(int \<times> goerr) option \<Rightarrow> int \<Rightarrow> goerr option" where
  "cancelled_at parent t = (case parent of None \<Rightarrow> None | Some (u, err) \<Rightarrow> if u \<le> t then Some err else None)"

datatype waitCase = TimerFired | ContextDone goerr | WindowDone

text \<open>When the \<open>select\<close> wakes up, and which of its cases are ready then.\<close>

definition wake_time :: "int \<Rightarrow> (int \<times> goerr) option \<Rightarrow> int \<Rightarrow> int" where
  "wake_time window parent wake = min wake (case parent of None \<Rightarrow> window | Some (u, err) \<Rightarrow> min u window)"

definition ready_cases :: "int \<Rightarrow> (int \<times> goerr) option \<Rightarrow> int \<Rightarrow> waitCase list" where
  "ready_cases window parent wake =
     (let t = wake_time window parent wake in
      (if wake \<le> t then [TimerFired] else [])
      @ (case cancelled_at parent t of None \<Rightarrow> [] | Some err \<Rightarrow> [ContextDone err])
      @ (if window \<le> t \<or> cancelled_at parent t \<noteq> None then [WindowDone] else []))"

definition wait_outcome :: "int \<Rightarrow> (int \<times> goerr) option \<Rightarrow> int \<Rightarrow> nat \<Rightarrow> goerr \<Rightarrow> (goerr \<times> int) option" where
  "wait_outcome window parent wake pick lastErr =
     (let cases = ready_cases window parent wake; t = wake_time window parent wake in
      case cases ! (pick mod length cases) of
        TimerFired \<Rightarrow> None
      | ContextDone err \<Rightarrow> Some (err, t)
      | WindowDone \<Rightarrow> Some (lastErr, t))"

fun connect_loop ::
  "int \<Rightarrow> int \<Rightarrow> (int \<times> goerr) option \<Rightarrow> goerr option \<Rightarrow> int \<Rightarrow> int \<Rightarrow> connectAttempt list \<Rightarrow> (session result \<times> int) option" where
  "connect_loop window maximum parent lastErr delay now [] = None"
| "connect_loop window maximum parent lastErr delay now (a # rest) =
     (let t = now + int (ca_cost a) in
      case ca_result a of
        Inr s \<Rightarrow> Some (Inr s, t)
      | Inl err \<Rightarrow>
          if window \<le> t \<or> cancelled_at parent t \<noteq> None then
            (case cancelled_at parent t of
               Some ctxErr \<Rightarrow> Some (Inl ctxErr, t)
             | None \<Rightarrow> (case lastErr of Some e \<Rightarrow> Some (Inl e, t) | None \<Rightarrow> Some (Inl err, t)))
          else if \<not> isRetryableConnectError err then Some (Inl err, t)
          else
            let wake = t + max 0 delay in
            case wait_outcome window parent wake (ca_pick a) err of
              Some (e, u) \<Rightarrow> Some (Inl e, u)
            | None \<Rightarrow> connect_loop window maximum parent (Some err) (next_delay maximum delay) wake rest)"

definition connectWithRetry ::
  "int \<Rightarrow> int \<Rightarrow> int \<Rightarrow> (int \<times> goerr) option \<Rightarrow> connectAttempt list \<Rightarrow> (session result \<times> int) option" where
  "connectWithRetry window initial maximum parent attempts =
     (if window \<le> 0 \<or> initial \<le> 0 \<or> maximum \<le> 0 then Some (Inl ErrInvalidConfig, 0)
      else connect_loop window maximum parent None initial 0 attempts)"

definition ConnectWithRetry :: "(int \<times> goerr) option \<Rightarrow> connectAttempt list \<Rightarrow> (session result \<times> int) option" where
  "ConnectWithRetry parent attempts = connectWithRetry 30000000000 100000000 2000000000 parent attempts"

section \<open>Bridging\<close>

text \<open>
  \<open>Bridge\<close>: the first thing to happen is the end of one of the two copies (with the error of \<open>io.Copy\<close>) or
  the cancellation.  The result is the error returned and the closers that were called; a stream that is not an
  \<open>io.Closer\<close> is not closed.
\<close>

datatype bridgeEvent = CopyEnded "goerr option" | BridgeCancelled goerr

definition copyDirection :: "goerr option \<Rightarrow> goerr" where
  "copyDirection copyErr = (case copyErr of None \<Rightarrow> IoEOF | Some err \<Rightarrow> err)"

definition Bridge :: "bool option \<Rightarrow> bool option \<Rightarrow> bridgeEvent \<Rightarrow> goerr \<times> nat list" where
  "Bridge left right event =
     (case (left, right) of
        (Some leftCloser, Some rightCloser) \<Rightarrow>
          ((case event of CopyEnded copyErr \<Rightarrow> copyDirection copyErr | BridgeCancelled err \<Rightarrow> err),
           (if leftCloser then [0] else []) @ (if rightCloser then [1] else []))
      | _ \<Rightarrow> (ErrInvalidConfig, []))"

section \<open>The retry loop ends\<close>

lemma next_delay_ge:
  assumes "0 < delay" "delay \<le> 2 ^ 62" "maximum \<le> 2 ^ 62"
  shows "delay \<le> next_delay maximum delay \<and> next_delay maximum delay \<le> max delay maximum \<and> next_delay maximum delay \<le> 2 ^ 62"
proof (cases "delay < maximum")
  case True
  then have "delay * 2 < 2 ^ 63" using assms(3) by simp
  then have "wrap_duration (delay * 2) = delay * 2" using assms(1) by (simp add: wrap_duration_def)
  then show ?thesis using True assms by (auto simp: next_delay_def Let_def)
next
  case False
  then show ?thesis using assms by (simp add: next_delay_def)
qed

text \<open>How a result comes about: from an attempt that is preceded by retryable failures only.\<close>

definition retryable_before :: "connectAttempt list \<Rightarrow> nat \<Rightarrow> bool" where
  "retryable_before as n \<longleftrightarrow> (\<forall>j < n. \<exists>err. ca_result (as ! j) = Inl err \<and> isRetryableConnectError err)"

lemma retryable_before_0 [simp]: "retryable_before as 0"
  by (simp add: retryable_before_def)

lemma retryable_before_Suc:
  "ca_result a = Inl err \<Longrightarrow> isRetryableConnectError err \<Longrightarrow> retryable_before as n \<Longrightarrow> retryable_before (a # as) (Suc n)"
  by (auto simp: retryable_before_def less_Suc_eq_0_disj)

text \<open>
  Why the loop returned after its attempt \<open>n\<close> at time \<open>t\<close>: success, cancellation, the end of the window (or the
  cancellation) with the error of some attempt, or an error that is not worth a retry.
\<close>

definition retry_reason ::
  "int \<Rightarrow> (int \<times> goerr) option \<Rightarrow> goerr option \<Rightarrow> connectAttempt list \<Rightarrow> nat \<Rightarrow> session result \<Rightarrow> int \<Rightarrow> bool" where
  "retry_reason window parent lastErr as n r t \<longleftrightarrow> n < length as \<and> retryable_before as n \<and> t \<le> window + int (ca_cost (as ! n)) \<and>
     (case r of
        Inr s \<Rightarrow> ca_result (as ! n) = Inr s
      | Inl e \<Rightarrow> (\<exists>u \<le> t. parent = Some (u, e))
          \<or> (window \<le> t \<or> cancelled_at parent t \<noteq> None) \<and> (lastErr = Some e \<or> (\<exists>j \<le> n. ca_result (as ! j) = Inl e))
          \<or> ca_result (as ! n) = Inl e \<and> \<not> isRetryableConnectError e)"

lemma retry_reason_Suc:
  assumes "retry_reason window parent (Some err) as n r t" "ca_result a = Inl err" "isRetryableConnectError err"
  shows "retry_reason window parent lastErr (a # as) (Suc n) r t"
proof -
  have "\<exists>j \<le> Suc n. ca_result ((a # as) ! j) = Inl e" if "Some err = Some e \<or> (\<exists>j \<le> n. ca_result (as ! j) = Inl e)" for e
    using that assms(2) by (elim disjE exE) (auto intro: exI [of _ 0] exI [of _ "Suc j" for j])
  then show ?thesis using assms retryable_before_Suc [OF assms(2,3)] unfolding retry_reason_def by (auto split: sum.splits)
qed

lemma ready_cases_ready:
  "ready_cases window parent wake \<noteq> []"
  "TimerFired \<in> set (ready_cases window parent wake) \<Longrightarrow> wake \<le> window"
  "ContextDone err \<in> set (ready_cases window parent wake) \<Longrightarrow> \<exists>u \<le> wake_time window parent wake. parent = Some (u, err)"
  "WindowDone \<in> set (ready_cases window parent wake) \<Longrightarrow>
     window \<le> wake_time window parent wake \<or> cancelled_at parent (wake_time window parent wake) \<noteq> None"
  by (auto simp: ready_cases_def wake_time_def cancelled_at_def Let_def min_def split: option.splits if_splits)

lemma picked_case: "ready_cases window parent wake ! (pick mod length (ready_cases window parent wake)) \<in> set (ready_cases window parent wake)"
  using ready_cases_ready(1) by simp

lemma wait_outcome_reason:
  assumes "wait_outcome window parent wake pick err = Some (e, u)" "ca_result a = Inl err"
  shows "retry_reason window parent lastErr (a # as) 0 (Inl e) u"
proof -
  have u: "u = wake_time window parent wake" "wake_time window parent wake \<le> window"
    using assms(1) by (auto simp: wait_outcome_def wake_time_def Let_def split: waitCase.splits option.splits)
  show ?thesis
    using assms u picked_case [of window parent wake pick] ready_cases_ready(3) [of _ window parent wake]
      ready_cases_ready(4) [of window parent wake]
    by (auto simp: wait_outcome_def retry_reason_def Let_def split: waitCase.splits)
qed

lemma wait_outcome_None: "wait_outcome window parent wake pick lastErr = None \<Longrightarrow> wake \<le> window"
  using picked_case [of window parent wake pick] ready_cases_ready(2) [of window parent wake]
  by (auto simp: wait_outcome_def Let_def split: waitCase.splits)

lemma stop_reason:
  assumes "ca_result a = Inl err" "t = now + int (ca_cost a)" "now \<le> window"
    "window \<le> t \<or> cancelled_at parent t \<noteq> None \<or> \<not> isRetryableConnectError err"
    "e = (if window \<le> t \<or> cancelled_at parent t \<noteq> None
          then (case cancelled_at parent t of Some c \<Rightarrow> c | None \<Rightarrow> (case lastErr of Some l \<Rightarrow> l | None \<Rightarrow> err)) else err)"
  shows "retry_reason window parent lastErr (a # as) 0 (Inl e) t"
  using assms by (auto simp: retry_reason_def cancelled_at_def split: option.splits if_splits)

lemma connect_loop_ends:
  assumes "0 < initial" "maximum \<le> 2 ^ 62"
  shows "initial \<le> delay \<Longrightarrow> delay \<le> 2 ^ 62 \<Longrightarrow> now \<le> window \<Longrightarrow> window < now + int (length as) * initial \<Longrightarrow>
    \<exists>r t n. connect_loop window maximum parent lastErr delay now as = Some (r, t) \<and> retry_reason window parent lastErr as n r t"
proof (induction as arbitrary: lastErr delay now)
  case (Cons a as)
  let ?t = "now + int (ca_cost a)"
  show ?case
  proof (cases "ca_result a")
    case (Inr s)
    then show ?thesis using Cons.prems(3) by (auto simp: retry_reason_def intro!: exI [of _ 0])
  next
    case (Inl err)
    show ?thesis
    proof (cases "window \<le> ?t \<or> cancelled_at parent ?t \<noteq> None \<or> \<not> isRetryableConnectError err")
      case True
      let ?e = "if window \<le> ?t \<or> cancelled_at parent ?t \<noteq> None
          then (case cancelled_at parent ?t of Some c \<Rightarrow> c | None \<Rightarrow> (case lastErr of Some l \<Rightarrow> l | None \<Rightarrow> err)) else err"
      have "connect_loop window maximum parent lastErr delay now (a # as) = Some (Inl ?e, ?t)"
        using True Inl by (auto simp: Let_def split: option.splits)
      then show ?thesis using stop_reason [OF Inl refl Cons.prems(3) True refl, of lastErr as] by blast
    next
      case go: False
      let ?wake = "?t + max 0 delay"
      show ?thesis
      proof (cases "wait_outcome window parent ?wake (ca_pick a) err")
        case (Some eu)
        then obtain e u where eu: "wait_outcome window parent ?wake (ca_pick a) err = Some (e, u)" by (cases eu) auto
        then show ?thesis using go Inl wait_outcome_reason [OF eu Inl] by fastforce
      next
        case None
        have d: "initial \<le> next_delay maximum delay" "next_delay maximum delay \<le> 2 ^ 62"
          using next_delay_ge [of delay maximum] Cons.prems(1,2) assms by linarith+
        have w: "?wake \<le> window" using wait_outcome_None [OF None] .
        have "window < ?wake + int (length as) * initial"
          using Cons.prems(1,4) assms(1) by (simp add: algebra_simps)
        from Cons.IH [OF d w this, of "Some err"] obtain r t n where
          l: "connect_loop window maximum parent (Some err) (next_delay maximum delay) ?wake as = Some (r, t)"
          and n: "retry_reason window parent (Some err) as n r t" by blast
        have "connect_loop window maximum parent lastErr delay now (a # as) = Some (r, t)"
          using go Inl None l by (simp add: Let_def)
        with retry_reason_Suc [OF n Inl] go show ?thesis by blast
      qed
    qed
  qed
qed simp

text \<open>
  C26: connecting with retries always ends.  For positive delays (the doubling does not overflow), whatever
  the attempts cost, however they fail and whichever ready case a \<open>select\<close> takes, \<open>connectWithRetry\<close> returns after at
  most \<open>window div initial + 1\<close> attempts, no later than the window plus the time of the last attempt.  All earlier
  attempts failed with retryable errors.  It returns a session just from an attempt that succeeded; an error is
  the one of the cancelled context, or that of an attempt when the window is over or the context was cancelled, or
  one that forbids a retry (a rejected token or an invalid configuration), which is reported at once.
\<close>
theorem connect_retry_ends:
  assumes "0 < window" "0 < initial" "initial \<le> 2 ^ 62" "0 < maximum" "maximum \<le> 2 ^ 62"
    "window div initial < int (length attempts)"
  shows "\<exists>r t n. connectWithRetry window initial maximum parent attempts = Some (r, t)
     \<and> n < length attempts \<and> retryable_before attempts n \<and> t \<le> window + int (ca_cost (attempts ! n))
     \<and> (case r of
          Inr s \<Rightarrow> ca_result (attempts ! n) = Inr s
        | Inl e \<Rightarrow> (\<exists>u \<le> t. parent = Some (u, e))
            \<or> (window \<le> t \<or> cancelled_at parent t \<noteq> None) \<and> (\<exists>j \<le> n. ca_result (attempts ! j) = Inl e)
            \<or> ca_result (attempts ! n) = Inl e \<and> \<not> isRetryableConnectError e)"
proof -
  have "window < (window div initial + 1) * initial"
    using assms(2) by (metis add.commute mult.commute pos_mod_bound mult_div_mod_eq add_less_cancel_left distrib_left mult.right_neutral)
  also have "\<dots> \<le> int (length attempts) * initial" using assms(2,6) by (intro mult_right_mono) auto
  finally have "window < 0 + int (length attempts) * initial" by simp
  from connect_loop_ends [OF assms(2,5) order.refl assms(3) less_imp_le [OF assms(1)] this, of parent None] show ?thesis
    using assms(1,2,4) unfolding connectWithRetry_def retry_reason_def by (auto split: sum.splits)
qed

definition failing_attempt :: connectAttempt where
  "failing_attempt = \<lparr>ca_cost = 1, ca_result = Inl IoEOF, ca_pick = 0\<rparr>"

theorem connect_retry_ends_witness:
  "\<exists>n. connectWithRetry 10 4 8 None [failing_attempt, failing_attempt, failing_attempt] = Some (Inl IoEOF, 10)
     \<and> n < length [failing_attempt, failing_attempt, failing_attempt]
     \<and> retryable_before [failing_attempt, failing_attempt, failing_attempt] n"
proof -
  have "connectWithRetry 10 4 8 None [failing_attempt, failing_attempt, failing_attempt] = Some (Inl IoEOF, 10)"
    by (simp add: connectWithRetry_def failing_attempt_def cancelled_at_def wait_outcome_def ready_cases_def wake_time_def isRetryableConnectError_def
        next_delay_def wrap_duration_def)
  then show ?thesis
    using connect_retry_ends [of 10 4 8 "[failing_attempt, failing_attempt, failing_attempt]" None] by auto
qed

end
