(* ===== verification/Config.thy ===== *)
theory Config
  imports ListenAddr Upstream
begin

text \<open>
  The configuration file (src/internal/config/config.go).  The JSON decoder and \<open>time.ParseDuration\<close> are
  arguments: \<open>je_decode\<close> fills a \<open>File\<close> that holds the defaults, \<open>je_extra\<close> is the error of the second
  \<open>Decode\<close>, \<open>je_fields\<close> the object as a map of raw messages and \<open>je_string\<close> a raw message as a string.  Go
  iterates over a map in any order, so the two loops over literal maps take the order as an argument.
\<close>

record AutoForwardConfig =
  af_Enabled :: bool
  af_UDPEnabled :: bool
  af_WindowsHost :: bytes
  af_WindowsHost6 :: bytes
  af_WindowsPortOffset :: int
  af_WindowsPortAuto :: bool
  af_StatusFile :: bytes
  af_Interval :: bytes
  af_RetryMin :: bytes
  af_RetryMax :: bytes
  af_Include :: "u16 list"
  af_UDPInclude :: "u16 list"
  af_Exclude :: "u16 list"

record configFile =
  fi_RelayExecutable :: bytes
  fi_BrokerMode :: bool
  fi_UpstreamProxy :: bytes
  fi_SOCKS5Listen :: bytes
  fi_HTTPConnectListen :: bytes
  fi_HTTPProxyListen :: bytes
  fi_ControlSocket :: bytes
  fi_StrictListenHost :: bytes
  fi_StrictListenHost6 :: bytes
  fi_StrictMaxConnections :: int
  fi_StrictMaxLeases :: int
  fi_StrictMaxOwners :: int
  fi_RelayHandshakeTimeout :: bytes
  fi_RelayDialTimeout :: bytes
  fi_UDPAssociateIdle :: bytes
  fi_ProxyHandshakeTimeout :: bytes
  fi_MaxProxyConnections :: int
  fi_ListenStatusFile :: bytes
  fi_Reverse :: "bytes list"
  fi_ReverseUDP :: "bytes list"
  fi_AutoForward :: AutoForwardConfig

definition config_Default :: configFile where
  "config_Default =
     \<lparr>fi_RelayExecutable = str ''wsl-win-relay.exe'', fi_BrokerMode = False, fi_UpstreamProxy = [],
      fi_SOCKS5Listen = str ''auto:1080'', fi_HTTPConnectListen = [], fi_HTTPProxyListen = [],
      fi_ControlSocket = str ''/tmp/wsl-win-relay-control.sock'',
      fi_StrictListenHost = str ''127.0.0.1'', fi_StrictListenHost6 = str ''::1'',
      fi_StrictMaxConnections = 64, fi_StrictMaxLeases = 512, fi_StrictMaxOwners = 256,
      fi_RelayHandshakeTimeout = str ''5s'', fi_RelayDialTimeout = str ''30s'', fi_UDPAssociateIdle = str ''5m'',
      fi_ProxyHandshakeTimeout = str ''15s'', fi_MaxProxyConnections = 256, fi_ListenStatusFile = str ''auto'',
      fi_Reverse = [], fi_ReverseUDP = [],
      fi_AutoForward = \<lparr>af_Enabled = False, af_UDPEnabled = False, af_WindowsHost = str ''127.0.0.1'', af_WindowsHost6 = str ''::1'',
        af_WindowsPortOffset = 0, af_WindowsPortAuto = False, af_StatusFile = [], af_Interval = str ''1s'',
        af_RetryMin = str ''1s'', af_RetryMax = str ''30s'', af_Include = [], af_UDPInclude = [], af_Exclude = []\<rparr>\<rparr>"

section \<open>Durations\<close>

definition positive_duration :: "(bytes \<Rightarrow> int option) \<Rightarrow> bytes \<Rightarrow> bytes \<Rightarrow> int result" where
  "positive_duration ParseDuration name value =
     (case ParseDuration value of
        None \<Rightarrow> Inl (ErrText (name @ str '' must be a positive duration''))
      | Some d \<Rightarrow> if d \<le> 0 then Inl (ErrText (name @ str '' must be a positive duration'')) else Inr d)"

definition AutoForwardDuration where
  "AutoForwardDuration ParseDuration f = positive_duration ParseDuration (str ''auto_forward.interval'') (af_Interval (fi_AutoForward f))"

definition AutoForwardRetryDurations where
  "AutoForwardRetryDurations ParseDuration f =
     rbind (positive_duration ParseDuration (str ''auto_forward.retry_min'') (af_RetryMin (fi_AutoForward f))) (\<lambda>minimum.
     rbind (positive_duration ParseDuration (str ''auto_forward.retry_max'') (af_RetryMax (fi_AutoForward f))) (\<lambda>maximum.
       if maximum < minimum
       then Inl (ErrText (str ''auto_forward.retry_max must be greater than or equal to auto_forward.retry_min''))
       else Inr (minimum, maximum)))"

definition UDPAssociateIdleDuration where
  "UDPAssociateIdleDuration ParseDuration f =
     positive_duration ParseDuration (str ''udp_associate_idle_timeout'') (fi_UDPAssociateIdle f)"

definition ProxyHandshakeDuration where
  "ProxyHandshakeDuration ParseDuration f =
     positive_duration ParseDuration (str ''proxy_handshake_timeout'') (fi_ProxyHandshakeTimeout f)"

definition RelayDialDuration where
  "RelayDialDuration ParseDuration f = positive_duration ParseDuration (str ''relay_dial_timeout'') (fi_RelayDialTimeout f)"

definition RelayHandshakeDuration where
  "RelayHandshakeDuration ParseDuration f =
     positive_duration ParseDuration (str ''relay_handshake_timeout'') (fi_RelayHandshakeTimeout f)"

section \<open>Checks\<close>

definition validateAutoForwardPortOffset :: "int \<Rightarrow> goerr option" where
  "validateAutoForwardPortOffset offset =
     (if offset < -65534 \<or> 65534 < offset
      then Some (ErrText (str ''auto_forward.windows_port_offset must be between -65534 and 65534'')) else None)"

fun first_bad :: "('a \<Rightarrow> bool) \<Rightarrow> bytes \<Rightarrow> (bytes \<times> 'a) list \<Rightarrow> goerr option" where
  "first_bad ok message [] = None"
| "first_bad ok message ((name, value) # rest) =
     (if ok value then first_bad ok message rest else Some (ErrText (name @ message)))"

definition port_lists :: "AutoForwardConfig \<Rightarrow> (bytes \<times> u16 list) list" where
  "port_lists a = [(str ''auto_forward.include'', af_Include a), (str ''auto_forward.udp_include'', af_UDPInclude a),
     (str ''auto_forward.exclude'', af_Exclude a)]"

definition validatePortLists ::
  "((bytes \<times> u16 list) list \<Rightarrow> (bytes \<times> u16 list) list) \<Rightarrow> AutoForwardConfig \<Rightarrow> goerr option" where
  "validatePortLists order a =
     first_bad (\<lambda>ports. 0 \<notin> set ports) (str '' must contain ports between 1 and 65535'') (order (port_lists a))"

definition strict_limits :: "configFile \<Rightarrow> (bytes \<times> int) list" where
  "strict_limits f = [(str ''strict_max_connections'', fi_StrictMaxConnections f), (str ''strict_max_leases'', fi_StrictMaxLeases f),
     (str ''strict_max_owners_per_lease'', fi_StrictMaxOwners f)]"

record jsonEnv =
  je_decode :: "bytes \<Rightarrow> configFile \<Rightarrow> configFile result"
  je_extra :: "bytes \<Rightarrow> goerr option"
  je_fields :: "bytes \<Rightarrow> (bytes \<rightharpoonup> bytes) result"
  je_string :: "bytes \<Rightarrow> bytes result"

definition json_field :: "jsonEnv \<Rightarrow> (bytes \<rightharpoonup> bytes) \<Rightarrow> bytes \<Rightarrow> bytes option result" where
  "json_field json fs name =
     (case fs name of
        None \<Rightarrow> Inr None
      | Some raw \<Rightarrow>
          (case je_string json raw of
             Inl err \<Rightarrow> Inl (wrap_err (name @ str '' must be a string'') err)
           | Inr value \<Rightarrow> Inr (Some value)))"

definition normalizeHTTPProxyListen :: "jsonEnv \<Rightarrow> bytes \<Rightarrow> configFile \<Rightarrow> configFile result" where
  "normalizeHTTPProxyListen json data f =
     (case je_fields json data of
        Inl err \<Rightarrow> Inl (wrap_err (str ''decode configuration fields'') err)
      | Inr fs \<Rightarrow>
          rbind (json_field json fs (str ''http_connect_listen'')) (\<lambda>old.
          rbind (json_field json fs (str ''http_proxy_listen'')) (\<lambda>new.
            if old \<noteq> None \<and> new \<noteq> None \<and> old \<noteq> new
            then Inl (ErrText (str ''http_connect_listen and http_proxy_listen must match when both are set''))
            else Inr (case new of
                Some v \<Rightarrow> f\<lparr>fi_HTTPProxyListen := v, fi_HTTPConnectListen := v\<rparr>
              | None \<Rightarrow>
                  (case old of
                     Some v \<Rightarrow> f\<lparr>fi_HTTPProxyListen := v\<rparr>
                   | None \<Rightarrow> f\<lparr>fi_HTTPProxyListen := fi_HTTPConnectListen f\<rparr>)))))"

text \<open>A check that returns only an error.\<close>

definition guard :: "goerr option \<Rightarrow> unit result" where
  "guard e = (case e of Some err \<Rightarrow> Inl err | None \<Rightarrow> Inr ())"

abbreviation within_limit :: "int \<Rightarrow> bool" where "within_limit n \<equiv> 0 < n \<and> n \<le> 65535"

text \<open>The checks of \<open>Load\<close> on the decoded and normalized file, in the order of the code.\<close>

definition check_file ::
  "(bytes \<Rightarrow> int option) \<Rightarrow> ((bytes \<times> int) list \<Rightarrow> (bytes \<times> int) list) \<Rightarrow> ((bytes \<times> u16 list) list \<Rightarrow> (bytes \<times> u16 list) list)
     \<Rightarrow> configFile \<Rightarrow> unit result" where
  "check_file ParseDuration limitOrder portOrder f =
     rbind (AutoForwardDuration ParseDuration f) (\<lambda>_.
     rbind (AutoForwardRetryDurations ParseDuration f) (\<lambda>_.
     rbind (guard (validateAutoForwardPortOffset (af_WindowsPortOffset (fi_AutoForward f)))) (\<lambda>_.
     rbind (guard (if af_WindowsPortAuto (fi_AutoForward f) \<and> af_WindowsPortOffset (fi_AutoForward f) \<noteq> 0
                   then Some (ErrText (str ''auto_forward.windows_port_auto and auto_forward.windows_port_offset cannot be used together''))
                   else None)) (\<lambda>_.
     rbind (UDPAssociateIdleDuration ParseDuration f) (\<lambda>_.
     rbind (ProxyHandshakeDuration ParseDuration f) (\<lambda>_.
     rbind (guard (if \<not> within_limit (fi_MaxProxyConnections f)
                   then Some (ErrText (str ''max_proxy_connections must be between 1 and 65535'')) else None)) (\<lambda>_.
     rbind (guard (map_option (wrap_err (str ''socks5_listen'')) (ValidateTCPListenSpec (fi_SOCKS5Listen f)))) (\<lambda>_.
     rbind (guard (if fi_HTTPProxyListen f = [] then None
                   else map_option (wrap_err (str ''http_proxy_listen'')) (ValidateTCPListenSpec (fi_HTTPProxyListen f)))) (\<lambda>_.
     rbind (guard (first_bad within_limit (str '' must be between 1 and 65535'') (limitOrder (strict_limits f)))) (\<lambda>_.
     rbind (RelayDialDuration ParseDuration f) (\<lambda>_.
     rbind (RelayHandshakeDuration ParseDuration f) (\<lambda>_.
     guard (validatePortLists portOrder (fi_AutoForward f))))))))))))))"

definition config_Load ::
  "jsonEnv \<Rightarrow> (bytes \<Rightarrow> int option) \<Rightarrow> ((bytes \<times> int) list \<Rightarrow> (bytes \<times> int) list) \<Rightarrow> ((bytes \<times> u16 list) list \<Rightarrow> (bytes \<times> u16 list) list)
     \<Rightarrow> bytes result \<Rightarrow> configFile result" where
  "config_Load json ParseDuration limitOrder portOrder contents =
     rbind contents (\<lambda>data.
       case je_decode json data config_Default of
         Inl err \<Rightarrow> Inl (wrap_err (str ''decode configuration'') err)
       | Inr decoded \<Rightarrow>
           if \<not> (case je_extra json data of None \<Rightarrow> False | Some err \<Rightarrow> err_is err IoEOF)
           then Inl (ErrText (str ''configuration must contain exactly one JSON object''))
           else rbind (normalizeHTTPProxyListen json data decoded) (\<lambda>f.
                rbind (check_file ParseDuration limitOrder portOrder f) (\<lambda>_. Inr f)))"

section \<open>What a loaded configuration promises\<close>

definition positive_text :: "(bytes \<Rightarrow> int option) \<Rightarrow> bytes \<Rightarrow> bool" where
  "positive_text ParseDuration value \<longleftrightarrow> (case ParseDuration value of None \<Rightarrow> False | Some d \<Rightarrow> 0 < d)"

definition config_valid :: "(bytes \<Rightarrow> int option) \<Rightarrow> configFile \<Rightarrow> bool" where
  "config_valid ParseDuration f \<longleftrightarrow>
     list_all (positive_text ParseDuration)
       [af_Interval (fi_AutoForward f), af_RetryMin (fi_AutoForward f), af_RetryMax (fi_AutoForward f),
        fi_UDPAssociateIdle f, fi_ProxyHandshakeTimeout f, fi_RelayDialTimeout f, fi_RelayHandshakeTimeout f]
     \<and> the (ParseDuration (af_RetryMin (fi_AutoForward f))) \<le> the (ParseDuration (af_RetryMax (fi_AutoForward f)))
     \<and> \<bar>af_WindowsPortOffset (fi_AutoForward f)\<bar> \<le> 65534
     \<and> \<not> (af_WindowsPortAuto (fi_AutoForward f) \<and> af_WindowsPortOffset (fi_AutoForward f) \<noteq> 0)
     \<and> list_all within_limit
         [fi_MaxProxyConnections f, fi_StrictMaxConnections f, fi_StrictMaxLeases f, fi_StrictMaxOwners f]
     \<and> ValidateTCPListenSpec (fi_SOCKS5Listen f) = None
     \<and> (fi_HTTPProxyListen f = [] \<or> ValidateTCPListenSpec (fi_HTTPProxyListen f) = None)
     \<and> 0 \<notin> set (af_Include (fi_AutoForward f)) \<union> set (af_UDPInclude (fi_AutoForward f)) \<union> set (af_Exclude (fi_AutoForward f))"

lemma first_bad_None: "first_bad ok message xs = None \<longleftrightarrow> (\<forall>x \<in> snd ` set xs. ok x)"
  by (induction ok message xs rule: first_bad.induct) auto

lemma guard_Inr: "guard e = Inr u \<longleftrightarrow> e = None"
  by (cases e) (simp_all add: guard_def)

lemma positive_duration_Inr: "positive_duration P name value = Inr d \<longleftrightarrow> P value = Some d \<and> 0 < d"
  by (auto simp: positive_duration_def split: option.splits)

lemma positive_text_iff: "positive_text P value \<longleftrightarrow> (\<exists>d. P value = Some d \<and> 0 < d)"
  by (auto simp: positive_text_def split: option.splits)

lemma first_bad_ordered:
  assumes "\<And>xs. set (order xs) = set xs"
  shows "first_bad ok message (order xs) = None \<longleftrightarrow> list_all ok (map snd xs)"
  by (auto simp: first_bad_None assms list_all_iff)

lemma check_file_iff:
  assumes "\<And>xs. set (limitOrder xs) = set xs" "\<And>xs. set (portOrder xs) = set xs"
  shows "check_file P limitOrder portOrder f = Inr u \<longleftrightarrow> config_valid P f"
proof -
  have retry: "(\<exists>a b. AutoForwardRetryDurations P f = Inr (a, b)) \<longleftrightarrow>
      positive_text P (af_RetryMin (fi_AutoForward f)) \<and> positive_text P (af_RetryMax (fi_AutoForward f))
      \<and> the (P (af_RetryMin (fi_AutoForward f))) \<le> the (P (af_RetryMax (fi_AutoForward f)))"
    by (cases "P (af_RetryMin (fi_AutoForward f))"; cases "P (af_RetryMax (fi_AutoForward f))")
       (simp_all add: AutoForwardRetryDurations_def positive_duration_def positive_text_def)
  have d: "(\<exists>d. positive_duration P n v = Inr d) \<longleftrightarrow> positive_text P v" for n v
    by (simp add: positive_duration_Inr positive_text_iff)
  show ?thesis
    unfolding check_file_def rbind_eq_Inr guard_Inr config_valid_def first_bad_ordered [of limitOrder, OF assms(1)]
      validatePortLists_def first_bad_ordered [of portOrder, OF assms(2)]
      AutoForwardDuration_def UDPAssociateIdleDuration_def ProxyHandshakeDuration_def RelayDialDuration_def RelayHandshakeDuration_def
    by (simp add: d retry validateAutoForwardPortOffset_def strict_limits_def port_lists_def abs_le_iff not_less) argo
qed

text \<open>
  C27: \<open>Load\<close> accepts exactly the well-formed configurations.  It returns \<open>f\<close> just when the file is one JSON object
  that decodes over the defaults, the two names of the HTTP listener do not disagree, \<open>f\<close> is the decoded file
  with the listener under both names, and \<open>f\<close> is valid: every duration is positive and the retry bounds are
  ordered, every limit lies between 1 and 65535, the port offset is in range and not combined with automatic
  ports, the listen specifications are valid and no port list contains 0.  The answer does not depend on the
  order in which the maps are iterated.
\<close>
theorem config_load_iff:
  assumes "\<And>xs. set (limitOrder xs) = set xs" "\<And>xs. set (portOrder xs) = set xs"
  shows "config_Load json ParseDuration limitOrder portOrder (Inr data) = Inr f \<longleftrightarrow>
    (\<exists>decoded fs old new.
       je_decode json data config_Default = Inr decoded \<and> (\<exists>e. je_extra json data = Some e \<and> err_is e IoEOF)
       \<and> je_fields json data = Inr fs
       \<and> json_field json fs (str ''http_connect_listen'') = Inr old \<and> json_field json fs (str ''http_proxy_listen'') = Inr new
       \<and> (old = None \<or> new = None \<or> old = new)
       \<and> f = decoded\<lparr>
           fi_HTTPProxyListen := (case new of Some v \<Rightarrow> v | None \<Rightarrow> (case old of Some v \<Rightarrow> v | None \<Rightarrow> fi_HTTPConnectListen decoded)),
           fi_HTTPConnectListen := (case new of Some v \<Rightarrow> v | None \<Rightarrow> fi_HTTPConnectListen decoded)\<rparr>
       \<and> config_valid ParseDuration f)"
proof -
  let ?eof = "case je_extra json data of None \<Rightarrow> False | Some err \<Rightarrow> err_is err IoEOF"
  have eof: "?eof \<longleftrightarrow> (\<exists>e. je_extra json data = Some e \<and> err_is e IoEOF)" by (auto split: option.splits)
  have norm: "normalizeHTTPProxyListen json data decoded = Inr g \<longleftrightarrow> (\<exists>fs old new. je_fields json data = Inr fs
       \<and> json_field json fs (str ''http_connect_listen'') = Inr old \<and> json_field json fs (str ''http_proxy_listen'') = Inr new
       \<and> (old = None \<or> new = None \<or> old = new)
       \<and> g = decoded\<lparr>
           fi_HTTPProxyListen := (case new of Some v \<Rightarrow> v | None \<Rightarrow> (case old of Some v \<Rightarrow> v | None \<Rightarrow> fi_HTTPConnectListen decoded)),
           fi_HTTPConnectListen := (case new of Some v \<Rightarrow> v | None \<Rightarrow> fi_HTTPConnectListen decoded)\<rparr>)" for decoded g
  proof (cases "je_fields json data")
    case (Inr fs)
    then show ?thesis unfolding normalizeHTTPProxyListen_def
      by (cases "json_field json fs (str ''http_connect_listen'')"; cases "json_field json fs (str ''http_proxy_listen'')")
         (auto split: option.split)
  qed (simp add: normalizeHTTPProxyListen_def)
  have "config_Load json ParseDuration limitOrder portOrder (Inr data) = Inr f \<longleftrightarrow>
      (\<exists>decoded. je_decode json data config_Default = Inr decoded \<and> ?eof \<and> normalizeHTTPProxyListen json data decoded = Inr f
         \<and> (\<exists>u. check_file ParseDuration limitOrder portOrder f = Inr u))"
    unfolding config_Load_def by (auto simp: rbind_eq_Inr split: sum.splits)
  then show ?thesis unfolding norm eof check_file_iff [OF assms] by blast
qed

definition default_json :: jsonEnv where
  "default_json = \<lparr>je_decode = (\<lambda>_ f. Inr f), je_extra = (\<lambda>_. Some IoEOF), je_fields = (\<lambda>_. Inr Map.empty), je_string = Inr\<rparr>"

lemma default_valid: "config_valid (\<lambda>_. Some 1) config_Default"
proof -
  have "ValidateTCPListenSpec (str ''auto:1080'') = None" by code_simp
  then show ?thesis by (simp add: config_valid_def config_Default_def positive_text_def)
qed

theorem config_load_iff_witness:
  "config_Load default_json (\<lambda>_. Some 1) (\<lambda>xs. xs) rev (Inr (str ''{}'')) = Inr config_Default"
  unfolding config_load_iff [of "\<lambda>xs. xs" rev, OF refl set_rev]
  by (intro exI [of _ config_Default] exI [of _ Map.empty] exI [of _ None])
     (use default_valid in \<open>simp add: default_json_def json_field_def config_Default_def\<close>)

text \<open>
  The decoder of \<open>encoding/json\<close> also accepts a key that differs from the name of the field in case, but the map of raw
  messages has the key as it is written.  A listener given under such a key is lost.
\<close>

lemma proxy_listen_key_case:
  assumes "je_fields json data = Inr fs" "fs (str ''http_connect_listen'') = None" "fs (str ''http_proxy_listen'') = None"
  shows "normalizeHTTPProxyListen json data f = Inr (f\<lparr>fi_HTTPProxyListen := fi_HTTPConnectListen f\<rparr>)"
  using assms by (simp add: normalizeHTTPProxyListen_def json_field_def)

end
