(* ===== verification/HttpHeaders.thy ===== *)
theory HttpHeaders
  imports Upstream
begin

text \<open>
  HTTP headers as the proxy handles them (src/internal/httpproxy/server.go): \<open>http.Header\<close> with its canonical keys, and
  the removal of the headers that concern one hop only.
\<close>

section \<open>http.Header\<close>

text \<open>\<open>textproto.CanonicalMIMEHeaderKey\<close>: a key with a byte that no token may contain stays as it is.\<close>

definition is_letter :: "byte \<Rightarrow> bool" where
  "is_letter b \<longleftrightarrow> (65 \<le> b \<and> b \<le> 90) \<or> (97 \<le> b \<and> b \<le> 122)"

definition is_token_byte :: "byte \<Rightarrow> bool" where
  "is_token_byte b \<longleftrightarrow> is_letter b \<or> is_digit b \<or> b \<in> set (str ''!#$%&*+-.^_`|~'') \<or> b = 39"

fun canonical_case :: "bool \<Rightarrow> bytes \<Rightarrow> bytes" where
  "canonical_case upper [] = []"
| "canonical_case upper (b # s) =
     (if upper \<and> 97 \<le> b \<and> b \<le> 122 then b - 32 else if \<not> upper \<and> 65 \<le> b \<and> b \<le> 90 then b + 32 else b)
     # canonical_case (b = 45) s"

definition CanonicalHeaderKey :: "bytes \<Rightarrow> bytes" where
  "CanonicalHeaderKey s = (if list_all is_token_byte s then canonical_case True s else s)"

text \<open>A header is a map from keys to lists of values.\<close>

type_synonym header = "(bytes \<times> bytes list) list"

definition header_Values :: "header \<Rightarrow> bytes \<Rightarrow> bytes list" where
  "header_Values h key = (case map_of h (CanonicalHeaderKey key) of None \<Rightarrow> [] | Some vs \<Rightarrow> vs)"

definition header_Del :: "header \<Rightarrow> bytes \<Rightarrow> header" where
  "header_Del h key = AList.delete (CanonicalHeaderKey key) h"

definition header_Set :: "header \<Rightarrow> bytes \<Rightarrow> bytes \<Rightarrow> header" where
  "header_Set h key v = AList.update (CanonicalHeaderKey key) [v] h"

text \<open>\<open>strings.Split(s, sep)\<close> for a separator of one byte.\<close>

fun split_byte :: "byte \<Rightarrow> bytes \<Rightarrow> bytes list" where
  "split_byte c [] = [[]]"
| "split_byte c (b # s) =
     (if b = c then [] # split_byte c s else (b # hd (split_byte c s)) # tl (split_byte c s))"

section \<open>Hop-by-hop headers\<close>

definition hop_names :: "bytes list" where
  "hop_names = [str ''Connection'', str ''Keep-Alive'', str ''Proxy-Authenticate'', str ''Proxy-Authorization'',
     str ''Proxy-Connection'', str ''TE'', str ''Trailer'', str ''Upgrade'']"

text \<open>The names that the values of \<open>Connection\<close> list.\<close>

definition connection_tokens :: "header \<Rightarrow> bytes list" where
  "connection_tokens h =
     filter (\<lambda>name. name \<noteq> []) (map TrimSpace (concat (map (split_byte 44) (header_Values h (str ''Connection'')))))"

definition stripHopByHopHeaders :: "header \<Rightarrow> header" where
  "stripHopByHopHeaders h = foldl header_Del (foldl header_Del h (connection_tokens h)) hop_names"

lemma foldl_Del: "map_of (foldl header_Del h names) = (\<lambda>k. if k \<in> CanonicalHeaderKey ` set names then None else map_of h k)"
  by (induction names arbitrary: h) (auto simp: header_Del_def delete_conv fun_eq_iff)

definition hop_keys :: "header \<Rightarrow> bytes set" where
  "hop_keys h = CanonicalHeaderKey ` (set hop_names \<union> set (connection_tokens h))"

lemma strip_map: "map_of (stripHopByHopHeaders h) = (\<lambda>k. if k \<in> hop_keys h then None else map_of h k)"
  by (auto simp: stripHopByHopHeaders_def foldl_Del hop_keys_def fun_eq_iff)

lemma strip_keys: "fst ` set (stripHopByHopHeaders h) = fst ` set h - hop_keys h"
  unfolding dom_map_of_conv_image_fst [symmetric] strip_map by (auto simp: dom_def split: if_splits)

lemma connection_is_hop: "CanonicalHeaderKey (str ''Connection'') \<in> hop_keys h"
  by (simp add: hop_keys_def hop_names_def)

end
