(* ===== verification/HttpStream.thy ===== *)
theory HttpStream
  imports HttpHeaders
begin

text \<open>
  The byte streams of the HTTP proxy (src/internal/httpproxy/server.go): \<open>requestStream\<close>, which hands out again what
  the parser of one request has buffered beyond it, and \<open>requestHeaderReader\<close>, which limits the header of a
  request to 64 KiB.  \<open>bufio.Reader\<close> is modelled by what it may do to its reader.

  The locale states the part of the \<open>io.Reader\<close> contract the streams rely on; it holds for a connection that
  delivers its bytes in arbitrary pieces, and each stream passes it on.
\<close>

section \<open>Readers\<close>

locale io_reader =
  fixes rd :: "'s \<Rightarrow> nat \<Rightarrow> 's \<times> bytes \<times> goerr option"
    and rest :: "'s \<Rightarrow> bytes"
  assumes read_range: "rd s n = (s', xs, e) \<Longrightarrow> length xs \<le> n"
    and read_rest: "rd s n = (s', xs, e) \<Longrightarrow> rest s = xs @ rest s'"

text \<open>A connection: the bytes to come, the error after them, and how many bytes the coming reads return at most.\<close>

record chunkConn =
  ch_in :: bytes
  ch_err :: goerr
  ch_sizes :: "nat list"

definition chunk_read :: "chunkConn \<Rightarrow> nat \<Rightarrow> chunkConn \<times> bytes \<times> goerr option" where
  "chunk_read c n =
     (if ch_in c = [] then (c, [], Some (ch_err c))
      else case ch_sizes c of
        [] \<Rightarrow> (c\<lparr>ch_in := drop n (ch_in c)\<rparr>, take n (ch_in c), None)
      | k # ks \<Rightarrow> (c\<lparr>ch_in := drop (min n k) (ch_in c), ch_sizes := ks\<rparr>, take (min n k) (ch_in c), None))"

interpretation chunk: io_reader chunk_read ch_in
  by unfold_locales (auto simp: chunk_read_def split: if_splits list.splits)

section \<open>requestStream\<close>

record 's requestStream =
  rs_reader :: 's
  rs_pending :: bytes

definition requestStream_Read ::
  "('s \<Rightarrow> nat \<Rightarrow> 's \<times> bytes \<times> goerr option) \<Rightarrow> 's requestStream \<Rightarrow> nat \<Rightarrow> 's requestStream \<times> bytes \<times> goerr option" where
  "requestStream_Read rd s n =
     (if rs_pending s \<noteq> [] then (s\<lparr>rs_pending := drop n (rs_pending s)\<rparr>, take n (rs_pending s), None)
      else case rd (rs_reader s) n of (r, xs, e) \<Rightarrow> (s\<lparr>rs_reader := r\<rparr>, xs, e))"

definition stream_prepend :: "bytes \<Rightarrow> 's requestStream \<Rightarrow> 's requestStream" where
  "stream_prepend data s = (if data = [] then s else s\<lparr>rs_pending := data @ rs_pending s\<rparr>)"

definition stream_rest :: "('s \<Rightarrow> bytes) \<Rightarrow> 's requestStream \<Rightarrow> bytes" where
  "stream_rest rest s = rs_pending s @ rest (rs_reader s)"

lemma prepend_rest: "stream_rest rest (stream_prepend data s) = data @ stream_rest rest s"
  by (simp add: stream_prepend_def stream_rest_def)

context io_reader
begin

lemma stream_reader: "io_reader (requestStream_Read rd) (stream_rest rest)"
proof
  show "length xs \<le> n" if "requestStream_Read rd s n = (s', xs, e)" for s n s' xs e
    using that read_range by (auto simp: requestStream_Read_def split: if_splits prod.splits)
  show "stream_rest rest s = xs @ stream_rest rest s'" if "requestStream_Read rd s n = (s', xs, e)" for s n s' xs e
    using that read_rest by (auto simp: requestStream_Read_def stream_rest_def split: if_splits prod.splits)
qed

end

interpretation proxied: io_reader "requestStream_Read chunk_read" "stream_rest ch_in"
  by (rule chunk.stream_reader)

section \<open>requestHeaderReader\<close>

abbreviation maxRequestHeaderBytes :: nat where "maxRequestHeaderBytes \<equiv> 65536"

abbreviation header_end :: bytes where "header_end \<equiv> [13, 10, 13, 10]"

record 's requestHeaderReader =
  hh_stream :: 's
  hh_bytes :: nat
  hh_complete :: bool
  hh_window :: bytes
  hh_windowBytes :: nat

definition new_header_reader :: "'s \<Rightarrow> 's requestHeaderReader" where
  "new_header_reader s = \<lparr>hh_stream = s, hh_bytes = 0, hh_complete = False, hh_window = [0, 0, 0, 0], hh_windowBytes = 0\<rparr>"

text \<open>The body of the loop over the bytes that were read.\<close>

definition header_step :: "'s requestHeaderReader \<Rightarrow> byte \<Rightarrow> 's requestHeaderReader" where
  "header_step r v =
     (if hh_complete r then r
      else
        let r1 = (if hh_windowBytes r < 4
              then r\<lparr>hh_bytes := Suc (hh_bytes r), hh_window := (hh_window r)[hh_windowBytes r := v],
                     hh_windowBytes := Suc (hh_windowBytes r)\<rparr>
              else r\<lparr>hh_bytes := Suc (hh_bytes r), hh_window := tl (hh_window r) @ [v]\<rparr>)
        in if hh_windowBytes r1 = 4 \<and> hh_window r1 = header_end then r1\<lparr>hh_complete := True\<rparr> else r1)"

definition header_Read ::
  "('s \<Rightarrow> nat \<Rightarrow> 's \<times> bytes \<times> goerr option) \<Rightarrow> 's requestHeaderReader \<Rightarrow> nat \<Rightarrow> 's requestHeaderReader \<times> bytes \<times> goerr option" where
  "header_Read rd r n =
     (if \<not> hh_complete r \<and> maxRequestHeaderBytes \<le> hh_bytes r
      then (r, [], Some (ErrText (str ''HTTP proxy request headers exceed limit'')))
      else
        let m = (if hh_complete r then n else min n (maxRequestHeaderBytes - hh_bytes r)) in
        case rd (hh_stream r) m of (s, xs, e) \<Rightarrow> (foldl header_step (r\<lparr>hh_stream := s\<rparr>) xs, xs, e))"

text \<open>
  What the reader knows about the bytes it has delivered: while the end of the header has not been seen it has
  counted them all and the window holds the last of them.
\<close>

definition has_end :: "bytes \<Rightarrow> bool" where
  "has_end ys \<longleftrightarrow> (\<exists>a b. ys = a @ header_end @ b)"

definition header_inv :: "bytes \<Rightarrow> 's requestHeaderReader \<Rightarrow> bool" where
  "header_inv ys r \<longleftrightarrow> length (hh_window r) = 4 \<and> hh_bytes r \<le> maxRequestHeaderBytes \<and> (hh_complete r \<longleftrightarrow> has_end ys)
     \<and> (if hh_complete r then has_end (take (hh_bytes r) ys) \<and> \<not> has_end (take (hh_bytes r - 1) ys) \<and> hh_bytes r \<le> length ys
        else hh_bytes r = length ys \<and> hh_windowBytes r = min 4 (length ys)
          \<and> take (hh_windowBytes r) (hh_window r) = drop (length ys - 4) ys)"

lemma header_inv_stream [simp]: "header_inv ys (r\<lparr>hh_stream := s\<rparr>) = header_inv ys r"
  by (cases "hh_complete r") (simp_all add: header_inv_def)

lemma has_end_append: "has_end ys \<Longrightarrow> has_end (ys @ zs)"
  by (auto simp: has_end_def) (metis append_Cons append_assoc)

lemma has_end_snoc: "has_end (ys @ [v]) \<longleftrightarrow> has_end ys \<or> drop (length (ys @ [v]) - 4) (ys @ [v]) = header_end"
proof
  assume "has_end (ys @ [v])"
  then obtain a b where ab: "ys @ [v] = a @ header_end @ b" by (auto simp: has_end_def)
  show "has_end ys \<or> drop (length (ys @ [v]) - 4) (ys @ [v]) = header_end"
  proof (cases b rule: rev_cases)
    case Nil
    then show ?thesis using ab by simp
  next
    case (snoc b' w)
    then have "ys = a @ header_end @ b'" using ab by (metis append_assoc butlast_snoc)
    then show ?thesis by (auto simp: has_end_def)
  qed
next
  assume "has_end ys \<or> drop (length (ys @ [v]) - 4) (ys @ [v]) = header_end"
  then show "has_end (ys @ [v])"
  proof
    assume "drop (length (ys @ [v]) - 4) (ys @ [v]) = header_end"
    then have "ys @ [v] = take (length (ys @ [v]) - 4) (ys @ [v]) @ header_end @ []"
      by (metis append_Nil2 append_take_drop_id)
    then show ?thesis unfolding has_end_def by blast
  qed (rule has_end_append)
qed

lemma window_step:
  assumes "length w = 4" "k = min 4 (length ys)" "take k w = drop (length ys - 4) ys"
  shows "k < 4 \<Longrightarrow> take (Suc k) (w[k := v]) = drop (length (ys @ [v]) - 4) (ys @ [v])"
    and "\<not> k < 4 \<Longrightarrow> tl w @ [v] = drop (length (ys @ [v]) - 4) (ys @ [v])"
proof -
  assume "k < 4"
  then have "length ys = k" "take k w = ys" using assms by (simp_all add: min_def split: if_splits)
  then show "take (Suc k) (w[k := v]) = drop (length (ys @ [v]) - 4) (ys @ [v])"
    using \<open>k < 4\<close> assms(1) by (simp add: take_Suc_conv_app_nth)
next
  assume "\<not> k < 4"
  then have "4 \<le> length ys" "w = drop (length ys - 4) ys" using assms by (simp_all add: min_def split: if_splits)
  moreover have "Suc (length ys - 4) = length ys - 3" using \<open>4 \<le> length ys\<close> by presburger
  ultimately show "tl w @ [v] = drop (length (ys @ [v]) - 4) (ys @ [v])"
    by (simp add: tl_drop drop_Suc [symmetric])
qed

lemma header_step_inv:
  assumes "header_inv ys r" "hh_complete r \<or> hh_bytes r < maxRequestHeaderBytes"
  shows "header_inv (ys @ [v]) (header_step r v)"
proof (cases "hh_complete r")
  case True
  then show ?thesis using assms(1) has_end_append [of ys "[v]"] by (auto simp: header_inv_def header_step_def)
next
  case False
  note i = assms(1)[unfolded header_inv_def]
  let ?w = "drop (length (ys @ [v]) - 4) (ys @ [v])"
  define r1 where "r1 = (if hh_windowBytes r < 4
      then r\<lparr>hh_bytes := Suc (hh_bytes r), hh_window := (hh_window r)[hh_windowBytes r := v], hh_windowBytes := Suc (hh_windowBytes r)\<rparr>
      else r\<lparr>hh_bytes := Suc (hh_bytes r), hh_window := tl (hh_window r) @ [v]\<rparr>)"
  have k: "hh_windowBytes r = min 4 (length ys)" "length (hh_window r) = 4" "\<not> has_end ys" "hh_bytes r = length ys"
    using i False by auto
  have r1: "hh_windowBytes r1 = min 4 (length (ys @ [v]))" "length (hh_window r1) = 4" "hh_bytes r1 = length (ys @ [v])"
    "\<not> hh_complete r1" "take (hh_windowBytes r1) (hh_window r1) = ?w"
    using window_step [of "hh_window r" "hh_windowBytes r" ys v] i False k unfolding r1_def
    by (auto simp: min_def split: if_splits)
  have s: "header_step r v = (if hh_windowBytes r1 = 4 \<and> hh_window r1 = header_end then r1\<lparr>hh_complete := True\<rparr> else r1)"
    using False unfolding header_step_def r1_def Let_def by (simp only: if_False)
  have full: "hh_windowBytes r1 = 4 \<and> hh_window r1 = header_end \<longleftrightarrow> ?w = header_end"
  proof
    assume "?w = header_end"
    then have "length ?w = 4" by simp
    then have "hh_windowBytes r1 = 4" using r1(1) by (simp add: min_def split: if_splits)
    then show "hh_windowBytes r1 = 4 \<and> hh_window r1 = header_end" using r1(2,5) \<open>?w = header_end\<close> by simp
  qed (use r1(2,5) in simp)
  have "has_end (ys @ [v]) \<longleftrightarrow> ?w = header_end" using k(3) has_end_snoc [of ys v] by simp
  then show ?thesis unfolding s full using r1 k assms(2) False by (auto simp: header_inv_def)
qed

lemma header_fold_inv:
  "header_inv ys r \<Longrightarrow> (\<not> hh_complete r \<Longrightarrow> hh_bytes r + length xs \<le> maxRequestHeaderBytes) \<Longrightarrow>
     header_inv (ys @ xs) (foldl header_step r xs)"
proof (induction xs arbitrary: ys r)
  case (Cons v xs)
  have "header_inv (ys @ [v]) (header_step r v)" using Cons.prems by (intro header_step_inv) force+
  moreover have "hh_bytes (header_step r v) + length xs \<le> maxRequestHeaderBytes" if "\<not> hh_complete (header_step r v)"
    using that Cons.prems(2) by (auto simp: header_step_def Let_def split: if_splits)
  ultimately show ?case using Cons.IH [of "ys @ [v]" "header_step r v"] by simp
qed simp

lemma header_new_inv: "header_inv [] (new_header_reader s)"
  by (simp add: header_inv_def new_header_reader_def has_end_def)

lemma header_step_stream [simp]: "hh_stream (foldl header_step r xs) = hh_stream r"
  by (induction xs arbitrary: r) (simp_all add: header_step_def Let_def)

context io_reader
begin

lemma header_read:
  assumes "header_Read rd r n = (r', xs, e)"
  shows "length xs \<le> n" "rest (hh_stream r) = xs @ rest (hh_stream r')" "header_inv ys r \<Longrightarrow> header_inv (ys @ xs) r'"
proof -
  have *: "length xs \<le> n \<and> rest (hh_stream r) = xs @ rest (hh_stream r') \<and> (header_inv ys r \<longrightarrow> header_inv (ys @ xs) r')"
  proof (cases "\<not> hh_complete r \<and> maxRequestHeaderBytes \<le> hh_bytes r")
    case True
    then show ?thesis using assms by (auto simp: header_Read_def)
  next
    case False
    let ?m = "if hh_complete r then n else min n (maxRequestHeaderBytes - hh_bytes r)"
    obtain s ys' e' where s: "rd (hh_stream r) ?m = (s, ys', e')" by (metis prod.exhaust)
    then have eq: "r' = foldl header_step (r\<lparr>hh_stream := s\<rparr>) xs" "ys' = xs" using False assms by (auto simp: header_Read_def Let_def)
    have "length xs \<le> ?m" "rest (hh_stream r) = xs @ rest s" using read_range [OF s] read_rest [OF s] eq by simp_all
    moreover have "header_inv (ys @ xs) r'" if "header_inv ys r"
      unfolding eq
    proof (rule header_fold_inv)
      show "header_inv ys (r\<lparr>hh_stream := s\<rparr>)" using that by simp
      show "hh_bytes (r\<lparr>hh_stream := s\<rparr>) + length xs \<le> maxRequestHeaderBytes" if "\<not> hh_complete (r\<lparr>hh_stream := s\<rparr>)"
        using that False \<open>length xs \<le> ?m\<close> by (simp; linarith)
    qed
    ultimately show ?thesis using eq by (auto split: if_splits)
  qed
  then show "length xs \<le> n" "rest (hh_stream r) = xs @ rest (hh_stream r')" "header_inv ys r \<Longrightarrow> header_inv (ys @ xs) r'"
    by auto
qed

end

section \<open>Requests one after the other\<close>

text \<open>
  \<open>bufio.Reader\<close> with its buffer of 4096 bytes: it fills the free part, hands out buffered bytes, and reads directly
  when a large read meets an empty buffer.  What \<open>http.ReadRequest\<close> and the request body do to it is some sequence
  of these.
\<close>

record 'r bufReader =
  bu_reader :: 'r
  bu_buf :: bytes

datatype bufOp = Fill | Consume nat | Direct nat

definition buf_step ::
  "('s \<Rightarrow> nat \<Rightarrow> 's \<times> bytes \<times> goerr option) \<Rightarrow> 's requestHeaderReader bufReader \<times> bytes \<Rightarrow> bufOp
     \<Rightarrow> 's requestHeaderReader bufReader \<times> bytes" where
  "buf_step rd st op =
     (case st of (b, consumed) \<Rightarrow>
        (case op of
           Fill \<Rightarrow>
             (case header_Read rd (bu_reader b) (4096 - length (bu_buf b)) of
                (r, xs, e) \<Rightarrow> (b\<lparr>bu_reader := r, bu_buf := bu_buf b @ xs\<rparr>, consumed))
         | Consume k \<Rightarrow> (b\<lparr>bu_buf := drop k (bu_buf b)\<rparr>, consumed @ take k (bu_buf b))
         | Direct n \<Rightarrow>
             if bu_buf b \<noteq> [] \<or> n < 4096 then (b, consumed)
             else (case header_Read rd (bu_reader b) n of (r, xs, e) \<Rightarrow> (b\<lparr>bu_reader := r\<rparr>, consumed @ xs))))"

definition http_readRequest :: "'s \<Rightarrow> 's requestHeaderReader bufReader" where
  "http_readRequest s = \<lparr>bu_reader = new_header_reader s, bu_buf = []\<rparr>"

definition captureBuffered :: "'s requestStream requestHeaderReader bufReader \<Rightarrow> 's requestStream" where
  "captureBuffered b = (if length (bu_buf b) = 0 then hh_stream (bu_reader b) else stream_prepend (bu_buf b) (hh_stream (bu_reader b)))"

context io_reader
begin

lemma buf_run:
  assumes "foldl (buf_step rd) (http_readRequest s, []) ops = (b, consumed)"
  shows "rest s = consumed @ bu_buf b @ rest (hh_stream (bu_reader b)) \<and> header_inv (consumed @ bu_buf b) (bu_reader b)"
  using assms
proof (induction ops arbitrary: b consumed rule: rev_induct)
  case Nil
  then show ?case using header_new_inv [of s] by (auto simp: http_readRequest_def new_header_reader_def)
next
  case (snoc op ops)
  obtain b0 c0 where p: "foldl (buf_step rd) (http_readRequest s, []) ops = (b0, c0)" by (metis prod.exhaust)
  note ih = snoc.IH [OF p]
  have st: "buf_step rd (b0, c0) op = (b, consumed)" using snoc.prems p by simp
  show ?case
  proof (cases op)
    case Fill
    obtain r xs e where h: "header_Read rd (bu_reader b0) (4096 - length (bu_buf b0)) = (r, xs, e)" by (metis prod.exhaust)
    show ?thesis using ih st Fill h header_read(2) [OF h] header_read(3) [OF h, of "c0 @ bu_buf b0"] by (auto simp: buf_step_def)
  next
    case (Consume k)
    then show ?thesis using ih st by (auto simp: buf_step_def)
  next
    case (Direct n)
    obtain r xs e where h: "header_Read rd (bu_reader b0) n = (r, xs, e)" by (metis prod.exhaust)
    show ?thesis using ih st Direct h header_read(2) [OF h] header_read(3) [OF h, of "c0 @ bu_buf b0"]
      by (auto simp: buf_step_def split: if_splits)
  qed
qed

end

text \<open>
  C28: the requests of one connection are read one after the other without losing a byte.  Let the client deliver its
  bytes in arbitrary pieces, after what earlier requests left over, and let the parser of a request fill, consume
  and read as it likes.  When \<open>captureBuffered\<close> has run, the stream continues exactly after the bytes the parser
  consumed.  Of a request whose header does not end within 64 KiB, at most 64 KiB are read; the header reader has
  noticed the end of the header just when it has delivered it, wherever the pieces are cut, and counts exactly the
  bytes up to it.
\<close>
theorem http_stream_exact:
  assumes "foldl (buf_step (requestStream_Read chunk_read)) (http_readRequest s, []) ops = (b, consumed)"
  shows "stream_rest ch_in s = consumed @ stream_rest ch_in (captureBuffered b)
     \<and> (hh_complete (bu_reader b) \<longleftrightarrow> has_end (consumed @ bu_buf b))
     \<and> hh_bytes (bu_reader b) \<le> maxRequestHeaderBytes
     \<and> (if has_end (consumed @ bu_buf b)
        then has_end (take (hh_bytes (bu_reader b)) (consumed @ bu_buf b)) \<and> \<not> has_end (take (hh_bytes (bu_reader b) - 1) (consumed @ bu_buf b))
        else length (consumed @ bu_buf b) = hh_bytes (bu_reader b))"
proof -
  have r: "stream_rest ch_in s = consumed @ bu_buf b @ stream_rest ch_in (hh_stream (bu_reader b))"
    and i: "header_inv (consumed @ bu_buf b) (bu_reader b)"
    using proxied.buf_run [OF assms] by simp_all
  have "stream_rest ch_in (captureBuffered b) = bu_buf b @ stream_rest ch_in (hh_stream (bu_reader b))"
    by (simp add: captureBuffered_def prepend_rest)
  with r have rest: "stream_rest ch_in s = consumed @ stream_rest ch_in (captureBuffered b)" by simp
  define d where "d = consumed @ bu_buf b"
  show ?thesis using rest i unfolding d_def [symmetric] header_inv_def by (auto split: if_splits)
qed

definition split_request :: "chunkConn requestStream" where
  "split_request = \<lparr>rs_reader = \<lparr>ch_in = [71, 13, 10, 13, 10, 72], ch_err = IoEOF, ch_sizes = [3, 2]\<rparr>, rs_pending = []\<rparr>"

theorem http_stream_exact_witness:
  "stream_rest ch_in split_request = [71, 13, 10, 13, 10]
     @ stream_rest ch_in (captureBuffered (fst (foldl (buf_step (requestStream_Read chunk_read)) (http_readRequest split_request, []) [Fill, Fill, Fill, Consume 5])))"
proof -
  let ?run = "foldl (buf_step (requestStream_Read chunk_read)) (http_readRequest split_request, []) [Fill, Fill, Fill, Consume 5]"
  have "snd ?run = [71, 13, 10, 13, 10]"
    by (simp add: buf_step_def header_Read_def requestStream_Read_def chunk_read_def split_request_def http_readRequest_def
        new_header_reader_def header_step_def Let_def)
  then have run: "?run = (fst ?run, [71, 13, 10, 13, 10])" by (metis prod.collapse)
  show ?thesis using http_stream_exact [OF run] by (rule conjunct1)
qed

end
