(* ===== verification/HttpProxy.thy ===== *)
theory HttpProxy
  imports HttpStream
begin

text \<open>
  The HTTP proxy (src/internal/httpproxy/server.go): CONNECT tunnels and plain requests forwarded one after the
  other.  The answers of the environment for each request are in an \<open>exchange\<close>: what \<open>http.ReadRequest\<close> returned
  (over the streams of \<open>HttpStream\<close>), the deadline calls, the dial, and the outcomes of writing the request, reading
  the response and writing it.  What the proxy does is a list of events.  \<open>captureBuffered\<close> peeks at bytes that are
  buffered and cannot fail.
\<close>

section \<open>Requests\<close>

record requestURL =
  ur_Scheme :: bytes
  ur_Hostname :: bytes
  ur_Port :: bytes

record httpRequest =
  hq_Method :: bytes
  hq_Host :: bytes
  hq_RequestURI :: bytes
  hq_URL :: "requestURL option"
  hq_Header :: header
  hq_Close :: bool

record exchange =
  ex_deadline :: "goerr option"
  ex_request :: "httpRequest result"
  ex_clear :: "goerr option"
  ex_dial :: "bytes \<Rightarrow> goerr option"
  ex_write :: "goerr option"
  ex_response :: "header result"
  ex_respond :: "goerr option"
  ex_established :: "goerr option"
  ex_bridge :: "goerr option"

datatype proxyEvent =
    ErrorReply nat
  | DialFailed bytes
  | Dialed bytes
  | Forwarded header
  | Responded header
  | Established
  | RemoteClosed
  | ClientClosed

abbreviation StatusBadRequest :: nat where "StatusBadRequest \<equiv> 400"
abbreviation StatusBadGateway :: nat where "StatusBadGateway \<equiv> 502"

definition StatusText :: "nat \<Rightarrow> bytes" where
  "StatusText status =
     (if status = StatusBadRequest then str ''Bad Request'' else if status = StatusBadGateway then str ''Bad Gateway'' else [])"

text \<open>The bytes of an error reply.\<close>

definition http_writeError :: "nat \<Rightarrow> bytes" where
  "http_writeError status =
     str ''HTTP/1.1 '' @ decimal status @ str '' '' @ StatusText status @ [13, 10]
     @ str ''Connection: close'' @ [13, 10] @ str ''Content-Length: 0'' @ [13, 10, 13, 10]"

fun bytes_Contains :: "bytes \<Rightarrow> bytes \<Rightarrow> bool" where
  "bytes_Contains [] sub \<longleftrightarrow> sub = []"
| "bytes_Contains (b # s) sub \<longleftrightarrow> HasPrefix (b # s) sub \<or> bytes_Contains s sub"

definition isClientDisconnect :: "goerr \<Rightarrow> bool" where
  "isClientDisconnect err \<longleftrightarrow>
     err = IoEOF \<or> err_is err IoErrClosedPipe \<or> err_is err NetErrClosed \<or> bytes_Contains (error_text err) (str ''closed pipe'')"

section \<open>Plain requests\<close>

definition plain_target :: "httpRequest \<Rightarrow> bytes result" where
  "plain_target request =
     (case hq_URL request of
        None \<Rightarrow> Inl (ErrText (str ''plain HTTP proxy requests require an absolute http URL''))
      | Some url \<Rightarrow>
          if ur_Scheme url = [] \<or> \<not> EqualFold (ur_Scheme url) (str ''http'')
          then Inl (ErrText (str ''plain HTTP proxy requests require an absolute http URL''))
          else if ur_Hostname url = [] then Inl (ErrText (str ''plain HTTP proxy request has no target host''))
          else Inr (JoinHostPort (ur_Hostname url) (if ur_Port url = [] then str ''80'' else ur_Port url)))"

definition request_header :: "header \<Rightarrow> header" where
  "request_header h = header_Set (stripHopByHopHeaders h) (str ''Connection'') (str ''close'')"

definition response_header :: "bool \<Rightarrow> header \<Rightarrow> header" where
  "response_header closing h =
     (if closing then header_Set (stripHopByHopHeaders h) (str ''Connection'') (str ''close'') else stripHopByHopHeaders h)"

definition forwardHTTP :: "exchange \<Rightarrow> httpRequest \<Rightarrow> proxyEvent list \<times> goerr option" where
  "forwardHTTP ex request =
     (case plain_target request of
        Inl err \<Rightarrow> ([ErrorReply StatusBadRequest], Some err)
      | Inr target \<Rightarrow>
          (case ex_dial ex target of
             Some err \<Rightarrow> ([DialFailed target, ErrorReply StatusBadGateway], Some err)
           | None \<Rightarrow>
               let h = request_header (hq_Header request) in
               (case ex_write ex of
                  Some err \<Rightarrow> ([Dialed target, RemoteClosed], Some err)
                | None \<Rightarrow>
                    (case ex_response ex of
                       Inl err \<Rightarrow> ([Dialed target, Forwarded h, RemoteClosed], Some err)
                     | Inr response \<Rightarrow>
                         ([Dialed target, Forwarded h, Responded (response_header (hq_Close request) response), RemoteClosed],
                          ex_respond ex)))))"

text \<open>
  \<open>serveHTTP\<close>: the request at hand and the exchanges of the requests to come.  \<open>None\<close> when they do not suffice, that
  is, while the proxy still waits for the client.
\<close>

fun serveHTTP :: "exchange \<Rightarrow> httpRequest \<Rightarrow> exchange list \<Rightarrow> (proxyEvent list \<times> goerr option) option" where
  "serveHTTP ex request coming =
     (case forwardHTTP ex request of
        (ev, Some err) \<Rightarrow> Some (ev, Some err)
      | (ev, None) \<Rightarrow>
          if hq_Close request then Some (ev, None)
          else (case coming of
              [] \<Rightarrow> None
            | nx # later \<Rightarrow>
                (case ex_deadline nx of
                   Some err \<Rightarrow> Some (ev, if isClientDisconnect err then None else Some err)
                 | None \<Rightarrow>
                     (case ex_request nx of
                        Inl err \<Rightarrow>
                          if isClientDisconnect err then Some (ev, None) else Some (ev @ [ErrorReply StatusBadRequest], Some err)
                      | Inr next \<Rightarrow>
                          (case ex_clear nx of
                             Some err \<Rightarrow> Some (ev, Some err)
                           | None \<Rightarrow>
                               if hq_Method next = str ''CONNECT''
                               then Some (ev @ [ErrorReply StatusBadRequest],
                                      Some (ErrText (str ''CONNECT cannot follow a plain HTTP proxy request'')))
                               else map_option (\<lambda>(ev', e). (ev @ ev', e)) (serveHTTP nx next later))))))"

section \<open>Connections\<close>

definition serve_connect :: "exchange \<Rightarrow> httpRequest \<Rightarrow> proxyEvent list \<times> goerr option" where
  "serve_connect ex request =
     (let target = (if hq_Host request = [] then hq_RequestURI request else hq_Host request) in
      case SplitHostPort target of
        Inl err \<Rightarrow> ([ErrorReply StatusBadRequest], Some (wrap_err (str ''CONNECT target must be host:port'') err))
      | Inr hp \<Rightarrow>
          (case ex_dial ex target of
             Some err \<Rightarrow> ([DialFailed target, ErrorReply StatusBadGateway], Some err)
           | None \<Rightarrow>
               (case ex_established ex of
                  Some err \<Rightarrow> ([Dialed target, RemoteClosed], Some err)
                | None \<Rightarrow> ([Dialed target, Established, RemoteClosed], ex_bridge ex))))"

definition http_ServeConn :: "exchange \<Rightarrow> exchange list \<Rightarrow> (proxyEvent list \<times> goerr option) option" where
  "http_ServeConn ex coming =
     map_option (\<lambda>(ev, e). (ev @ [ClientClosed], e))
       (case ex_deadline ex of
          Some err \<Rightarrow> Some ([], Some err)
        | None \<Rightarrow>
            (case ex_request ex of
               Inl err \<Rightarrow> Some ([ErrorReply StatusBadRequest], Some err)
             | Inr request \<Rightarrow>
                 (case ex_clear ex of
                    Some err \<Rightarrow> Some ([], Some err)
                  | None \<Rightarrow>
                      if hq_Method request \<noteq> str ''CONNECT'' then serveHTTP ex request coming
                      else Some (serve_connect ex request))))"

text \<open>
  \<open>bridge\<close>: the two copies end in some order with their errors; \<open>halfClose\<close> says which side can close its writing
  half.  The side that a copy writes to is half-closed, or both are closed; at the end both are closed.
\<close>

datatype bridgeSide = SideA | SideB

datatype sideEvent = CloseWrite bridgeSide | CloseSide bridgeSide

fun other_side :: "bridgeSide \<Rightarrow> bridgeSide" where
  "other_side SideA = SideB"
| "other_side SideB = SideA"

definition copyOne :: "(bridgeSide \<Rightarrow> bool) \<Rightarrow> bridgeSide \<Rightarrow> sideEvent list" where
  "copyOne halfClose dst = (if halfClose dst then [CloseWrite dst] else [CloseSide dst, CloseSide (other_side dst)])"

definition http_bridge ::
  "(bridgeSide \<Rightarrow> bool) \<Rightarrow> bridgeSide \<times> goerr option \<Rightarrow> goerr option \<Rightarrow> sideEvent list \<times> goerr option" where
  "http_bridge halfClose first second =
     (copyOne halfClose (fst first) @ copyOne halfClose (other_side (fst first)) @ [CloseSide SideA, CloseSide SideB], snd first)"

text \<open>\<open>handshakeReader\<close>, a limited reader.\<close>

record 's handshakeReader =
  hk_reader :: 's
  hk_remaining :: int
  hk_bounded :: bool

definition handshake_Read ::
  "('s \<Rightarrow> nat \<Rightarrow> 's \<times> bytes \<times> goerr option) \<Rightarrow> 's handshakeReader \<Rightarrow> nat \<Rightarrow> 's handshakeReader \<times> bytes \<times> goerr option" where
  "handshake_Read rd r n =
     (if \<not> hk_bounded r then (case rd (hk_reader r) n of (s, xs, e) \<Rightarrow> (r\<lparr>hk_reader := s\<rparr>, xs, e))
      else if hk_remaining r \<le> 0 then (r, [], Some (ErrText (str ''HTTP CONNECT request exceeds limit'')))
      else (case rd (hk_reader r) (if hk_remaining r < int n then nat (hk_remaining r) else n) of
          (s, xs, e) \<Rightarrow> (r\<lparr>hk_reader := s, hk_remaining := hk_remaining r - int (length xs)\<rparr>, xs, e)))"

section \<open>What a connection does\<close>

text \<open>No header that concerns one hop only, except \<open>Connection: close\<close>.\<close>

definition end_to_end :: "header \<Rightarrow> bool" where
  "end_to_end h \<longleftrightarrow> map_of h (str ''Connection'') \<in> {None, Some [str ''close'']}
     \<and> list_all (\<lambda>name. map_of h (CanonicalHeaderKey name) = None) (tl hop_names)"

lemma connection_key: "CanonicalHeaderKey (str ''Connection'') = str ''Connection''"
  by code_simp

lemma hop_keys_distinct: "list_all (\<lambda>name. CanonicalHeaderKey name \<noteq> str ''Connection'') (tl hop_names)"
  by code_simp

lemma strip_hop: "name \<in> set hop_names \<Longrightarrow> map_of (stripHopByHopHeaders h) (CanonicalHeaderKey name) = None"
  by (simp add: strip_map hop_keys_def)

lemma set_tl_hop: "name \<in> set (tl hop_names) \<Longrightarrow> name \<in> set hop_names"
  by (simp add: hop_names_def)

lemma end_to_end_strip:
  "end_to_end (stripHopByHopHeaders h)" "end_to_end (header_Set (stripHopByHopHeaders h) (str ''Connection'') (str ''close''))"
proof -
  have c: "map_of (stripHopByHopHeaders h) (str ''Connection'') = None"
    using strip_hop [of "str ''Connection''" h] by (simp add: connection_key hop_names_def)
  then show "end_to_end (stripHopByHopHeaders h)"
    by (simp add: end_to_end_def list_all_iff strip_hop set_tl_hop)
  show "end_to_end (header_Set (stripHopByHopHeaders h) (str ''Connection'') (str ''close''))"
    using hop_keys_distinct
    by (simp add: end_to_end_def list_all_iff header_Set_def connection_key update_conv strip_hop set_tl_hop)
qed

fun is_Dialed :: "proxyEvent \<Rightarrow> bool" where
  "is_Dialed (Dialed t) \<longleftrightarrow> True"
| "is_Dialed _ \<longleftrightarrow> False"

fun is_ErrorReply :: "proxyEvent \<Rightarrow> bool" where
  "is_ErrorReply (ErrorReply st) \<longleftrightarrow> True"
| "is_ErrorReply _ \<longleftrightarrow> False"

text \<open>A forwarded header is that of a request: \<open>Connection: close\<close>, and all but the hop-by-hop headers kept.\<close>

definition forwarded_of :: "httpRequest set \<Rightarrow> header \<Rightarrow> bool" where
  "forwarded_of qs h \<longleftrightarrow> end_to_end h \<and> (\<exists>q \<in> qs. map_of h = (\<lambda>k. if k = str ''Connection'' then Some [str ''close'']
     else if k \<in> hop_keys (hq_Header q) then None else map_of (hq_Header q) k))"

definition events_ok :: "httpRequest set \<Rightarrow> proxyEvent list \<Rightarrow> goerr option \<Rightarrow> bool" where
  "events_ok qs ev err \<longleftrightarrow> length (filter is_Dialed ev) = length (filter (\<lambda>e. e = RemoteClosed) ev)
     \<and> ClientClosed \<notin> set ev \<and> \<not> list_ex is_ErrorReply (butlast ev) \<and> (ev \<noteq> [] \<and> is_ErrorReply (last ev) \<longrightarrow> err \<noteq> None)
     \<and> (\<forall>h. Forwarded h \<in> set ev \<longrightarrow> forwarded_of qs h) \<and> (\<forall>h. Responded h \<in> set ev \<longrightarrow> end_to_end h)"

lemma request_header_of: "q \<in> qs \<Longrightarrow> forwarded_of qs (request_header (hq_Header q))"
  unfolding forwarded_of_def request_header_def
  by (intro conjI bexI [of _ q] end_to_end_strip(2))
     (simp_all add: header_Set_def connection_key update_conv strip_map fun_eq_iff)

lemma response_header_ok: "end_to_end (response_header closing h)"
  by (simp add: response_header_def end_to_end_strip)

lemma forwardHTTP_ok:
  assumes "forwardHTTP ex q = (ev, err)" "q \<in> qs"
  shows "events_ok qs ev err" "err = None \<Longrightarrow> \<not> list_ex is_ErrorReply ev" "Established \<notin> set ev"
proof -
  have "events_ok qs ev err \<and> (err = None \<longrightarrow> \<not> list_ex is_ErrorReply ev) \<and> Established \<notin> set ev"
    using assms request_header_of [OF assms(2)] response_header_ok unfolding forwardHTTP_def Let_def
    by (auto simp: events_ok_def split: sum.splits option.splits) metis+
  then show "events_ok qs ev err" "err = None \<Longrightarrow> \<not> list_ex is_ErrorReply ev" "Established \<notin> set ev" by auto
qed

lemma events_ok_append:
  assumes "events_ok qs ev None" "\<not> list_ex is_ErrorReply ev" "events_ok qs ev' err"
  shows "events_ok qs (ev @ ev') err"
  using assms by (cases "ev' = []") (auto simp: events_ok_def butlast_append dest: in_set_butlastD)

lemma events_ok_replied: "events_ok qs ev None \<Longrightarrow> \<not> list_ex is_ErrorReply ev \<Longrightarrow> events_ok qs (ev @ [ErrorReply st]) (Some err)"
  by (rule events_ok_append) (simp_all add: events_ok_def)

lemma events_ok_err: "events_ok qs ev None \<Longrightarrow> \<not> list_ex is_ErrorReply ev \<Longrightarrow> events_ok qs ev err"
  using events_ok_append [of qs ev "[]" err] by (simp add: events_ok_def)

definition requests_of :: "exchange list \<Rightarrow> httpRequest set" where
  "requests_of exs = {q. \<exists>ex \<in> set exs. ex_request ex = Inr q}"

lemma serveHTTP_ok:
  "serveHTTP ex q coming = Some (ev, err) \<Longrightarrow> q \<in> qs \<Longrightarrow> requests_of coming \<subseteq> qs \<Longrightarrow>
     events_ok qs ev err \<and> Established \<notin> set ev"
proof (induction coming arbitrary: ex q ev)
  case Nil
  then show ?case using forwardHTTP_ok [of ex q] by (auto split: option.splits prod.splits if_splits)
next
  case (Cons nx later)
  obtain ev1 e1 where f: "forwardHTTP ex q = (ev1, e1)" by (metis prod.exhaust)
  note ok = forwardHTTP_ok [OF f Cons.prems(2)]
  show ?case
  proof (cases "e1 = None \<and> \<not> hq_Close q")
    case False
    then show ?thesis using Cons.prems(1) f ok by (auto split: option.splits)
  next
    case True
    then have e1: "e1 = None" "\<not> hq_Close q" "events_ok qs ev1 None" "\<not> list_ex is_ErrorReply ev1" using ok by auto
    note done_ok = events_ok_err [OF e1(3,4)] events_ok_replied [OF e1(3,4)]
    show ?thesis
    proof (cases "\<exists>next. ex_deadline nx = None \<and> ex_request nx = Inr next \<and> ex_clear nx = None \<and> hq_Method next \<noteq> str ''CONNECT''")
      case False
      then show ?thesis
        using Cons.prems(1) f e1(1,2) ok(3) done_ok by (auto split: option.splits sum.splits if_splits)
    next
      case go: True
      then obtain q' where q': "ex_deadline nx = None" "ex_request nx = Inr q'" "ex_clear nx = None" "hq_Method q' \<noteq> str ''CONNECT''" by blast
      then obtain ev2 where s: "serveHTTP nx q' later = Some (ev2, err)" "ev = ev1 @ ev2"
        using Cons.prems(1) f e1(1,2) by (auto split: option.splits)
      have "q' \<in> qs" "requests_of later \<subseteq> qs" using Cons.prems(3) q'(2) by (auto simp: requests_of_def)
      from Cons.IH [OF s(1) this] show ?thesis using events_ok_append [OF e1(3,4)] s(2) ok(3) by auto
    qed
  qed
qed

text \<open>
  C29: what the HTTP proxy does on a connection, whatever the client, the dialer and the origins answer.  When it returns,
  every connection it dialed is closed and the client is closed last.  An error reply is the last thing the client
  gets, and then the call reports an error.  A forwarded header is that of a request that was read, with every
  hop-by-hop header and every header that \<open>Connection\<close> lists removed, \<open>Connection: close\<close> set and everything else
  kept; no response header concerns one hop only.  A connection with a tunnel forwards no plain request.
\<close>
theorem http_conn_contract:
  assumes "http_ServeConn ex coming = Some (ev, err)"
  shows "\<exists>body. ev = body @ [ClientClosed] \<and> ClientClosed \<notin> set body
     \<and> length (filter is_Dialed body) = length (filter (\<lambda>e. e = RemoteClosed) body)
     \<and> \<not> list_ex is_ErrorReply (butlast body) \<and> (body \<noteq> [] \<and> is_ErrorReply (last body) \<longrightarrow> err \<noteq> None)
     \<and> (\<forall>h. Forwarded h \<in> set body \<longrightarrow> forwarded_of (requests_of (ex # coming)) h)
     \<and> (\<forall>h. Responded h \<in> set body \<longrightarrow> end_to_end h)
     \<and> (Established \<in> set body \<longrightarrow> (\<forall>h. Forwarded h \<notin> set body))"
proof -
  let ?qs = "requests_of (ex # coming)"
  have simple: "events_ok ?qs [] e" "events_ok ?qs [ErrorReply st] (Some x)" for e st x by (simp_all add: events_ok_def)
  have connect: "events_ok ?qs (fst (serve_connect ex q)) (snd (serve_connect ex q)) \<and> (\<forall>h. Forwarded h \<notin> set (fst (serve_connect ex q)))" for q
    by (auto simp: serve_connect_def Let_def events_ok_def split: sum.split option.split)
  obtain body where b: "ev = body @ [ClientClosed]"
    "events_ok ?qs body err \<and> (Established \<in> set body \<longrightarrow> (\<forall>h. Forwarded h \<notin> set body))"
  proof (cases "\<exists>q. ex_deadline ex = None \<and> ex_request ex = Inr q \<and> ex_clear ex = None")
    case False
    then show ?thesis using assms that simple unfolding http_ServeConn_def by (auto split: option.splits sum.splits)
  next
    case True
    then obtain q where q: "ex_deadline ex = None" "ex_request ex = Inr q" "ex_clear ex = None" by blast
    then have qs: "q \<in> ?qs" "requests_of coming \<subseteq> ?qs" by (auto simp: requests_of_def)
    show ?thesis
    proof (cases "hq_Method q = str ''CONNECT''")
      case True
      then show ?thesis using assms q connect [of q] that [of "fst (serve_connect ex q)"] by (auto simp: http_ServeConn_def split: prod.splits)
    next
      case False
      then obtain body where "serveHTTP ex q coming = Some (body, err)" "ev = body @ [ClientClosed]"
        using assms q by (auto simp: http_ServeConn_def simp del: serveHTTP.simps)
      then show ?thesis using serveHTTP_ok [OF _ qs] that by blast
    qed
  qed
  then show ?thesis unfolding events_ok_def by blast
qed

definition sample_http_request :: httpRequest where
  "sample_http_request = \<lparr>hq_Method = str ''GET'', hq_Host = str ''a'', hq_RequestURI = str ''http://a/'',
     hq_URL = Some \<lparr>ur_Scheme = str ''http'', ur_Hostname = str ''a'', ur_Port = []\<rparr>,
     hq_Header = [(str ''Connection'', [str ''x-foo'']), (str ''X-Foo'', [str ''1'']), (str ''Accept'', [str ''*''])], hq_Close = True\<rparr>"

definition sample_http_exchange :: exchange where
  "sample_http_exchange = \<lparr>ex_deadline = None, ex_request = Inr sample_http_request, ex_clear = None, ex_dial = (\<lambda>_. None), ex_write = None,
     ex_response = Inr [], ex_respond = None, ex_established = None, ex_bridge = None\<rparr>"

theorem http_conn_contract_witness:
  "http_ServeConn sample_http_exchange [] =
     Some ([Dialed (str ''a:80''), Forwarded [(str ''Accept'', [str ''*'']), (str ''Connection'', [str ''close''])],
       Responded [(str ''Connection'', [str ''close''])], RemoteClosed, ClientClosed], None)
   \<and> forwarded_of (requests_of [sample_http_exchange]) [(str ''Accept'', [str ''*'']), (str ''Connection'', [str ''close''])]"
proof -
  let ?h = "[(str ''Accept'', [str ''*'']), (str ''Connection'', [str ''close''])]"
  have run: "http_ServeConn sample_http_exchange [] = Some ([Dialed (str ''a:80''), Forwarded ?h,
       Responded [(str ''Connection'', [str ''close''])], RemoteClosed, ClientClosed], None)"
    by code_simp
  from http_conn_contract [OF run] obtain body where b: "[Dialed (str ''a:80''), Forwarded ?h,
       Responded [(str ''Connection'', [str ''close''])], RemoteClosed, ClientClosed] = body @ [ClientClosed]"
    "\<forall>h. Forwarded h \<in> set body \<longrightarrow> forwarded_of (requests_of [sample_http_exchange]) h" by blast
  from b(1) have "body = butlast [Dialed (str ''a:80''), Forwarded ?h,
       Responded [(str ''Connection'', [str ''close''])], RemoteClosed, ClientClosed]" by (metis butlast_snoc)
  then have "Forwarded ?h \<in> set body" by simp
  with b(2) run show ?thesis by blast
qed

end
