(* ===== verification/ProxyPorts.thy ===== *)
theory ProxyPorts
  imports AutoWatchSteps Forward HttpHeaders
begin

text \<open>
  Port sets of the proxy command (src/cmd/wsl-proxy/main.go): their text form on the command line, and the ports that
  automatic forwarding must leave alone.  A \<open>map[uint16]bool\<close> is an association list; where Go iterates over such
  a map the order is an argument.
\<close>

section \<open>Port sets\<close>

type_synonym portSet = "(u16 \<times> bool) list"

definition formatPorts :: "u16 list \<Rightarrow> bytes" where
  "formatPorts ports = strings_Join (map (\<lambda>port. decimal (unat port)) (sort ports)) [44]"

definition portsFromSet :: "portSet \<Rightarrow> u16 list" where
  "portsFromSet ports = map fst (filter snd ports)"

definition clonePortSet :: "portSet \<Rightarrow> portSet" where
  "clonePortSet source = foldl (\<lambda>result (port, enabled). AList.update port enabled result) [] source"

fun parse_ports :: "bytes list \<Rightarrow> portSet \<Rightarrow> portSet result" where
  "parse_ports [] result = Inr result"
| "parse_ports (raw # rest) result =
     (case ParseUint (TrimSpace raw) 10 16 of
        None \<Rightarrow> Inl (ErrText (str ''ports must be integers between 1 and 65535''))
      | Some port \<Rightarrow>
          if port = 0 then Inl (ErrText (str ''ports must be integers between 1 and 65535''))
          else parse_ports rest (AList.update (word_of_nat port) True result))"

definition parsePortSet :: "bytes \<Rightarrow> portSet result" where
  "parsePortSet v = (if TrimSpace v = [] then Inr [] else parse_ports (split_byte 44 v) [])"

definition addAddressPort :: "portSet \<Rightarrow> bytes \<Rightarrow> portSet" where
  "addAddressPort ports address =
     (case SplitHostPort address of
        Inl err \<Rightarrow> ports
      | Inr (host, rawPort) \<Rightarrow>
          (case ParseUint rawPort 10 16 of
             None \<Rightarrow> ports
           | Some port \<Rightarrow> if port \<noteq> 0 then AList.update (word_of_nat port) True ports else ports))"

definition addAutomaticMappedPort :: "portSet \<Rightarrow> bytes \<Rightarrow> int \<Rightarrow> portSet" where
  "addAutomaticMappedPort ports windowsAddress offset =
     (if offset = 0 then ports
      else case SplitHostPort windowsAddress of
        Inl err \<Rightarrow> ports
      | Inr (host, rawPort) \<Rightarrow>
          (case Atoi rawPort of
             None \<Rightarrow> ports
           | Some port \<Rightarrow>
               let sourcePort = port - offset in
               if 1 \<le> sourcePort \<and> sourcePort \<le> 65535 then AList.update (word_of_int sourcePort) True ports else ports))"

text \<open>The set that \<open>run\<close> gives to both watchers as \<open>Excluded\<close>.\<close>

definition exclude_mapping :: "int \<Rightarrow> portSet \<Rightarrow> Mapping \<Rightarrow> portSet" where
  "exclude_mapping offset ports mapping =
     addAddressPort (addAutomaticMappedPort (addAddressPort ports (mp_Windows mapping)) (mp_Windows mapping) offset) (mp_WSL mapping)"

definition auto_excluded :: "portSet \<Rightarrow> bytes \<Rightarrow> bytes option \<Rightarrow> Mapping list \<Rightarrow> Mapping list \<Rightarrow> int \<Rightarrow> portSet" where
  "auto_excluded autoExclude socksAddr httpAddr reverse reverseUDP offset =
     (let e0 = addAddressPort (clonePortSet autoExclude) socksAddr;
          e1 = (case httpAddr of None \<Rightarrow> e0 | Some a \<Rightarrow> addAddressPort e0 a)
      in foldl (exclude_mapping offset) (foldl (exclude_mapping offset) e1 reverse) reverseUDP)"

section \<open>Text and back\<close>

lemma split_byte_single: "c \<notin> set s \<Longrightarrow> split_byte c s = [s]"
  by (induction s) auto

lemma split_byte_append: "c \<notin> set s \<Longrightarrow> split_byte c (s @ c # t) = s # split_byte c t"
  by (induction s) auto

lemma split_byte_Join: "ss \<noteq> [] \<Longrightarrow> (\<And>s. s \<in> set ss \<Longrightarrow> c \<notin> set s) \<Longrightarrow> split_byte c (strings_Join ss [c]) = ss"
  by (induction ss "[c]" rule: strings_Join.induct) (simp_all add: split_byte_single split_byte_append)

lemma decimal_no_space: "b \<in> set (decimal n) \<Longrightarrow> \<not> is_space b"
  by (drule decimal_digits) (auto simp: is_digit_def is_space_def)

lemma decimal_no_comma: "44 \<notin> set (decimal n)"
  by (auto dest: decimal_digits simp: is_digit_def)

lemma TrimSpace_decimal [simp]: "TrimSpace (decimal n) = decimal n"
  by (rule TrimSpace_none) (rule decimal_no_space)

lemma ParseUint_port: "ParseUint (decimal (unat p)) 10 16 = Some (unat p)" for p :: u16
proof (rule ParseUint_decimal)
  show "unat p < 2 ^ 16" using unsigned_less [of p] by simp
qed

lemma parse_ports_decimals:
  "0 \<notin> set ps \<Longrightarrow> parse_ports (map (\<lambda>p. decimal (unat p)) ps) result = Inr (foldl (\<lambda>m p. AList.update p True m) result ps)"
  by (induction ps arbitrary: result) (simp_all add: ParseUint_port unat_eq_zero)

lemma map_of_update_all:
  "map_of (foldl (\<lambda>m p. AList.update p True m) result ps) = (\<lambda>p. if p \<in> set ps then Some True else map_of result p)"
  by (induction ps arbitrary: result) (auto simp: update_conv fun_eq_iff)

lemma Join_no_space:
  "(\<And>s b. s \<in> set ss \<Longrightarrow> b \<in> set s \<Longrightarrow> \<not> is_space b) \<Longrightarrow> b \<in> set (strings_Join ss [44]) \<Longrightarrow> \<not> is_space b"
  by (induction ss "[44 :: byte]" rule: strings_Join.induct) (auto simp: is_space_def)

lemma Join_not_blank:
  fixes ps :: "u16 list"
  assumes "ps \<noteq> []"
  shows "TrimSpace (strings_Join (map (\<lambda>p. decimal (unat p)) ps) [44]) \<noteq> []"
proof -
  let ?ss = "map (\<lambda>p. decimal (unat p)) ps"
  have "\<not> is_space b" if "b \<in> set (strings_Join ?ss [44])" for b
    by (rule Join_no_space [OF _ that]) (auto dest: decimal_no_space)
  then have "TrimSpace (strings_Join ?ss [44]) = strings_Join ?ss [44]" by (rule TrimSpace_none)
  moreover have "strings_Join (map (\<lambda>p. decimal (unat p)) (q # qs)) [44] \<noteq> []" for q :: u16 and qs
    by (cases qs) simp_all
  ultimately show ?thesis using assms by (metis list.exhaust)
qed

lemma parse_format_ports:
  assumes "0 \<notin> set ports"
  shows "parsePortSet (formatPorts ports) = Inr (foldl (\<lambda>m p. AList.update p True m) [] (sort ports))"
proof (cases "ports = []")
  case False
  then have ne: "sort ports \<noteq> []" by (metis set_empty set_sort)
  have "split_byte 44 (formatPorts ports) = map (\<lambda>p. decimal (unat p)) (sort ports)"
    unfolding formatPorts_def by (rule split_byte_Join) (use ne in \<open>auto simp: decimal_no_comma\<close>)
  then show ?thesis
    using Join_not_blank [OF ne] assms by (simp add: parsePortSet_def formatPorts_def parse_ports_decimals)
qed (simp add: parsePortSet_def formatPorts_def TrimSpace_def)

definition clean_set :: "portSet \<Rightarrow> bool" where
  "clean_set m \<longleftrightarrow> distinct (map fst m) \<and> 0 \<notin> fst ` set m \<and> snd ` set m \<subseteq> {True}"

lemma ParseUint_nonzero: "ParseUint s base 16 = Some n \<Longrightarrow> n \<noteq> 0 \<Longrightarrow> (word_of_nat n :: u16) \<noteq> 0 \<and> unat (word_of_nat n :: u16) = n"
proof -
  assume n: "ParseUint s base 16 = Some n" "n \<noteq> 0"
  then have "n < 65536" by (auto simp: ParseUint_def split: if_splits option.splits)
  then have "unat (word_of_nat n :: u16) = n" by (simp add: unat_of_nat)
  then show ?thesis using n(2) by (metis unsigned_0)
qed

lemma in_update: "(k, l) \<in> set (AList.update q v d) \<Longrightarrow> (k, l) \<in> set d \<or> k = q \<and> l = v"
  by (induction d) (auto split: if_splits)

lemma clean_update: "clean_set m \<Longrightarrow> p \<noteq> 0 \<Longrightarrow> clean_set (AList.update p True m)"
proof -
  assume m: "clean_set m" and p: "p \<noteq> 0"
  have "set (AList.update p True m) \<subseteq> insert (p, True) (set m)" using in_update by fastforce
  then have f: "fst ` set (AList.update p True m) \<subseteq> insert p (fst ` set m)"
    and t: "snd ` set (AList.update p True m) \<subseteq> insert True (snd ` set m)" by auto
  note t
  also have "insert True (snd ` set m) \<subseteq> {True}" using m by (simp add: clean_set_def)
  finally have "snd ` set (AList.update p True m) \<subseteq> {True}" .
  moreover have "0 \<notin> fst ` set (AList.update p True m)" using f m p unfolding clean_set_def by blast
  moreover have "distinct (map fst (AList.update p True m))" using m by (simp add: clean_set_def distinct_update)
  ultimately show ?thesis by (simp add: clean_set_def)
qed

lemma parse_ports_clean: "parse_ports raws acc = Inr m \<Longrightarrow> clean_set acc \<Longrightarrow> clean_set m"
  by (induction raws acc rule: parse_ports.induct)
     (auto dest: ParseUint_nonzero clean_update split: option.splits if_splits)

lemma parsePortSet_clean: "parsePortSet v = Inr m \<Longrightarrow> clean_set m"
proof (cases "TrimSpace v = []")
  case False
  assume "parsePortSet v = Inr m"
  with False have "parse_ports (split_byte 44 v) [] = Inr m" by (simp add: parsePortSet_def)
  then show ?thesis by (rule parse_ports_clean) (simp add: clean_set_def)
qed (simp add: parsePortSet_def clean_set_def)

section \<open>Excluded ports\<close>

lemma Atoi_of_ParseUint: "ParseUint s 10 16 = Some n \<Longrightarrow> Atoi s = Some (int n)"
proof -
  assume n: "ParseUint s 10 16 = Some n"
  have "list_all is_digit s" if "base_value 10 acc s = Some v" for acc v
    using that
  proof (induction s arbitrary: acc)
    case (Cons b s)
    then obtain d where d: "digit_of b = Some d" "d < 10" "base_value 10 (acc * 10 + d) s = Some v"
      by (auto split: option.splits if_splits)
    then show ?case using Cons.IH [OF d(3)] by (auto simp: digit_of_def is_digit_def split: if_splits)
  qed simp
  then have ds: "list_all is_digit s" "s \<noteq> []" "digits_value s = n" "n < 65536"
    using n base_value_digits [of s 0] by (auto simp: ParseUint_def digits_value_def split: if_splits option.splits)
  then have "hd s \<noteq> 45" "hd s \<noteq> 43" by (cases s; auto simp: is_digit_def)+
  then show ?thesis using ds by (simp add: Atoi_def)
qed

definition excluded :: "portSet \<Rightarrow> u16 \<Rightarrow> bool" where
  "excluded ports p \<longleftrightarrow> map_of ports p = Some True"

lemma excluded_update: "excluded (AList.update q True ports) p \<longleftrightarrow> p = q \<or> excluded ports p"
  by (auto simp: excluded_def update_conv)

lemma excluded_list: "excluded ports p \<Longrightarrow> p \<in> set (portsFromSet ports)"
  by (force simp: excluded_def portsFromSet_def dest: map_of_SomeD)

lemma excluded_addAddressPort: "excluded ports p \<Longrightarrow> excluded (addAddressPort ports a) p"
  by (auto simp: addAddressPort_def excluded_update split: sum.split option.split)

lemma excluded_addAutomatic: "excluded ports p \<Longrightarrow> excluded (addAutomaticMappedPort ports a offset) p"
  by (auto simp: addAutomaticMappedPort_def excluded_update Let_def split: sum.split option.split)

lemma excluded_mapping: "excluded ports p \<Longrightarrow> excluded (exclude_mapping offset ports m) p"
  by (simp add: exclude_mapping_def excluded_addAddressPort excluded_addAutomatic)

lemma excluded_mappings: "excluded ports p \<Longrightarrow> excluded (foldl (exclude_mapping offset) ports ms) p"
  by (induction ms arbitrary: ports) (simp_all add: excluded_mapping)

lemma excluded_address:
  "SplitHostPort a = Inr (h, r) \<Longrightarrow> ParseUint r 10 16 = Some n \<Longrightarrow> n \<noteq> 0 \<Longrightarrow> excluded (addAddressPort ports a) (word_of_nat n)"
  by (simp add: addAddressPort_def excluded_update)

lemma excluded_source:
  assumes "SplitHostPort a = Inr (h, r)" "ParseUint r 10 16 = Some n" "offset \<noteq> 0" "1 \<le> int n - offset" "int n - offset \<le> 65535"
  shows "excluded (addAutomaticMappedPort ports a offset) (word_of_int (int n - offset))"
  using assms Atoi_of_ParseUint [OF assms(2)] by (simp add: addAutomaticMappedPort_def excluded_update Let_def)

lemma excluded_of_mapping:
  assumes "m \<in> set ms" "\<And>ports. excluded (exclude_mapping offset ports m) p"
  shows "excluded (foldl (exclude_mapping offset) ports ms) p"
  using assms(1) by (induction ms arbitrary: ports) (auto simp: assms(2) excluded_mappings)

lemma auto_excluded_mapping:
  assumes "m \<in> set reverse \<union> set reverseUDP" "\<And>ports. excluded (exclude_mapping offset ports m) p"
  shows "excluded (auto_excluded autoExclude socksAddr httpAddr reverse reverseUDP offset) p"
  using assms by (auto simp: auto_excluded_def Let_def intro: excluded_of_mapping excluded_mappings)

lemma desired_not_excluded: "(k, l) \<in> set (desired_of cfg listeners) \<Longrightarrow> l \<in> set listeners \<and> ls_Port l \<notin> set (wc_Excluded cfg)"
proof -
  let ?f = "\<lambda>desired l. if wc_Included cfg \<noteq> [] \<and> ls_Port l \<notin> set (wc_Included cfg) then desired
        else if ls_Port l \<in> set (wc_Excluded cfg) then desired else AList.update (lkey l) l desired"
  have "(k, l) \<in> set (foldl ?f d xs) \<Longrightarrow> (k, l) \<in> set d \<or> l \<in> set xs \<and> ls_Port l \<notin> set (wc_Excluded cfg)" for d xs
  proof (induction xs arbitrary: d)
    case (Cons x xs)
    have "(k, l) \<in> set (?f d x) \<Longrightarrow> (k, l) \<in> set d \<or> l = x \<and> ls_Port l \<notin> set (wc_Excluded cfg)"
      by (auto split: if_splits dest: in_update)
    then show ?case using Cons.IH [of "?f d x"] Cons.prems by fastforce
  qed simp
  from this [of "[]" listeners] show "(k, l) \<in> set (desired_of cfg listeners) \<Longrightarrow> ?thesis"
    by (simp add: desired_of_def)
qed

text \<open>A scanned listener has a port.\<close>

lemma parse_row_port: "parse_row network state line row = Inr (Some l) \<Longrightarrow> ls_Port l \<noteq> 0"
  by (auto simp: parse_row_def Let_def rbind_eq_Inr dest!: ParseUint_nonzero split: if_splits list.splits option.splits sum.splits)

lemma parse_rows_port: "parse_rows network state line rows = Inr ls \<Longrightarrow> l \<in> set ls \<Longrightarrow> ls_Port l \<noteq> 0"
proof (induction network state line rows arbitrary: ls rule: parse_rows.induct)
  case (2 network state line row rest)
  then show ?case
    by (cases "line = 1") (auto simp: rbind_eq_Inr parse_row_port split: option.splits)
qed simp

lemma parseProcNetState_port: "parseProcNetState file network state = Inr ls \<Longrightarrow> l \<in> set ls \<Longrightarrow> ls_Port l \<noteq> 0"
  by (auto simp: parseProcNetState_def rbind_eq_Inr dest: parse_rows_port split: prod.splits option.splits)

lemma scan_sources_port: "scan_sources open_file sources = Inr ls \<Longrightarrow> l \<in> set ls \<Longrightarrow> ls_Port l \<noteq> 0"
proof (induction open_file sources arbitrary: ls rule: scan_sources.induct)
  case (2 open_file path network state sources)
  show ?case
  proof (cases "open_file path")
    case (Inl err)
    then show ?thesis using 2 by (auto split: if_splits)
  next
    case (Inr contents)
    then obtain got rest where "parseProcNetState contents network state = Inr got" "scan_sources open_file sources = Inr rest" "ls = got @ rest"
      using 2(3) by (auto simp: rbind_eq_Inr split: sum.splits)
    note eqs = this
    have "l \<in> set got \<or> l \<in> set rest" using eqs(3) 2(4) by simp
    then show ?thesis using 2(2) [OF Inr eqs(1,2)] parseProcNetState_port [OF eqs(1)] by blast
  qed
qed simp

lemma scan_port: "scan_tables open_file sources = Inr ls \<Longrightarrow> l \<in> set ls \<Longrightarrow> ls_Port l \<noteq> 0"
  by (auto simp: scan_tables_def rbind_eq_Inr normalize_keys(1) representatives_def dest: scan_sources_port)

lemma mapping_endpoints:
  assumes "ParseMapping text = Inr m"
  shows "validateEndpoint (mp_Windows m) = None" "validateEndpoint (mp_WSL m) = None"
  using assms by (auto simp: ParseMapping_def Let_def split: list.splits if_splits option.splits)

lemma endpoint_port:
  "validateEndpoint a = None \<Longrightarrow> \<exists>h r n. SplitHostPort a = Inr (h, r) \<and> ParseUint r 10 16 = Some n \<and> n \<noteq> 0"
  by (auto simp: validateEndpoint_def split: sum.splits option.splits if_splits)

lemma windows_port_excluded:
  assumes "SplitHostPort (mp_Windows m) = Inr (h, r)" "ParseUint r 10 16 = Some n"
    and "q \<noteq> 0" "uint q + offset = int n"
  shows "excluded (exclude_mapping offset ports m) q"
proof -
  have u: "int n - offset = uint q" using assms(4) by simp
  have "uint q < 65536" using unsigned_less [where 'a = int, of q] by simp
  moreover have "0 < uint q" using assms(3) by (simp add: word_neq_0_conv word_less_def)
  ultimately have q: "q = word_of_int (int n - offset)" "1 \<le> int n - offset" "int n - offset \<le> 65535"
    unfolding u by simp_all
  show ?thesis
  proof (cases "offset = 0")
    case True
    then have "q = word_of_nat n" "n \<noteq> 0" using q by simp_all
    then show ?thesis
      using excluded_address [OF assms(1,2)]
      by (simp add: exclude_mapping_def excluded_addAddressPort excluded_addAutomatic)
  next
    case False
    show ?thesis
      using excluded_source [OF assms(1,2) False q(2,3)]
      by (simp add: exclude_mapping_def excluded_addAddressPort q(1))
  qed
qed

lemma auto_never_shadows:
  assumes "Scan open_file scanner = Inr listeners \<or> ScanDatagrams open_file scanner = Inr listeners"
    and "wc_Excluded cfg = portsFromSet (auto_excluded autoExclude socksAddr httpAddr reverse reverseUDP (wc_PortOffset cfg))"
    and "wc_PortAuto cfg = False" "(k, l) \<in> set (desired_of cfg listeners)"
    and "m \<in> set reverse \<union> set reverseUDP" "validateEndpoint (mp_Windows m) = None" "validateEndpoint (mp_WSL m) = None"
  shows "\<exists>host raw n h r t. SplitHostPort (mp_Windows m) = Inr (host, raw) \<and> ParseUint raw 10 16 = Some n
      \<and> SplitHostPort (mp_WSL m) = Inr (h, r) \<and> ParseUint r 10 16 = Some t
      \<and> windowsPort cfg l \<noteq> int n \<and> unat (ls_Port l) \<noteq> n \<and> unat (ls_Port l) \<noteq> t"
proof -
  let ?q = "ls_Port l"
  obtain host raw n where w: "SplitHostPort (mp_Windows m) = Inr (host, raw)" "ParseUint raw 10 16 = Some n" "n \<noteq> 0"
    using endpoint_port [OF assms(6)] by blast
  obtain h r t where v: "SplitHostPort (mp_WSL m) = Inr (h, r)" "ParseUint r 10 16 = Some t" "t \<noteq> 0"
    using endpoint_port [OF assms(7)] by blast
  have l: "l \<in> set listeners" "?q \<notin> set (wc_Excluded cfg)" using desired_not_excluded [OF assms(4)] by simp_all
  then have q: "?q \<noteq> 0" using assms(1) by (auto simp: Scan_def ScanDatagrams_def dest: scan_port)
  have free: "\<not> (\<forall>ports. excluded (exclude_mapping (wc_PortOffset cfg) ports m) ?q)"
    using l(2) unfolding assms(2) by (meson auto_excluded_mapping [OF assms(5)] excluded_list)
  have "windowsPort cfg l \<noteq> int n"
    using free windows_port_excluded [OF w(1,2) q] by (auto simp: windowsPort_def assms(3))
  moreover have "unat ?q \<noteq> n"
  proof
    assume "unat ?q = n"
    then have "?q = word_of_nat n" using ParseUint_nonzero [OF w(2,3)] by (simp add: word_unat_eq_iff)
    then have "excluded (exclude_mapping (wc_PortOffset cfg) ports m) ?q" for ports
      using excluded_address [OF w, of ports] by (simp add: exclude_mapping_def excluded_addAddressPort excluded_addAutomatic)
    with free show False by blast
  qed
  moreover have "unat ?q \<noteq> t"
    using free excluded_address [OF v] by (auto simp: exclude_mapping_def)
  ultimately show ?thesis using w v by blast
qed

text \<open>
  The text form of a port set loses nothing: for ports other than 0, parsing what \<open>formatPorts\<close> writes gives exactly the
  set of these ports, whatever their order and repetitions; and what parsing returns, written in any order of the map,
  parses to the same set again.
\<close>
lemma port_set_roundtrip:
  "(0 \<notin> set ports \<longrightarrow> (\<exists>m. parsePortSet (formatPorts ports) = Inr m
      \<and> map_of m = (\<lambda>p. if p \<in> set ports then Some True else None)))
   \<and> (parsePortSet given = Inr m \<and> set order = set m \<longrightarrow> (\<exists>m'. parsePortSet (formatPorts (portsFromSet order)) = Inr m'
      \<and> map_of m' = map_of m))"
proof -
  have first: "\<exists>m. parsePortSet (formatPorts ports) = Inr m \<and> map_of m = (\<lambda>p. if p \<in> set ports then Some True else None)"
    if "0 \<notin> set ports" for ports
    using parse_format_ports [OF that] by (simp add: map_of_update_all fun_eq_iff)
  have "\<exists>m'. parsePortSet (formatPorts (portsFromSet order)) = Inr m' \<and> map_of m' = map_of m"
    if "parsePortSet given = Inr m" "set order = set m"
  proof -
    have m: "distinct (map fst m)" "0 \<notin> fst ` set m" "snd ` set m \<subseteq> {True}"
      using parsePortSet_clean [OF that(1)] by (simp_all add: clean_set_def)
    have "set (portsFromSet order) = fst ` set m" using m(3) that(2) by (auto simp: portsFromSet_def)
    moreover have "map_of m p = (if p \<in> fst ` set m then Some True else None)" for p
      using m by (auto simp: map_of_eq_None_iff dest!: map_of_is_SomeI)
    ultimately show ?thesis using first [of "portsFromSet order"] m(2) by (auto simp: fun_eq_iff)
  qed
  then show ?thesis using first by blast
qed

section \<open>A scan\<close>

definition web_rows :: bytes where
  "web_rows = str ''sl'' @ [10] @ str ''0: 0100007F:1F90 00000000:0000 0A'' @ [10]"

definition web_scanner :: ProcScanner where
  "web_scanner = \<lparr>ps_TCPPath = str ''a'', ps_TCP6Path = str ''b'', ps_UDPPath = [], ps_UDP6Path = []\<rparr>"

definition web_listener :: Listener where
  "web_listener = \<lparr>ls_Network = str ''tcp4'', ls_Host = str ''127.0.0.1'', ls_Port = 8080\<rparr>"

lemma web_lines: "scan_lines web_rows None = ([str ''sl'', str ''0: 0100007F:1F90 00000000:0000 0A''], None)"
proof -
  have "raw_lines web_rows = [str ''sl'', str ''0: 0100007F:1F90 00000000:0000 0A'']" by code_simp
  then show ?thesis by (simp add: scan_lines_def dropCR_def str_def)
qed

lemma web_scan: "Scan (\<lambda>path. if path = str ''a'' then Inr (web_rows, None) else Inl OsErrNotExist) web_scanner = Inr [web_listener]"
proof -
  have "parse_rows (str ''tcp4'') (str ''0A'') 1 [str ''sl'', str ''0: 0100007F:1F90 00000000:0000 0A''] = Inr [web_listener]"
    by code_simp
  then have p: "parseProcNetState (web_rows, None) (str ''tcp4'') (str ''0A'') = Inr [web_listener]"
    by (simp only: parseProcNetState_def web_lines fst_conv snd_conv prod.case rbind_simps option.case)
  have n: "normalizeListeners [web_listener] = [web_listener]" by code_simp
  have ab: "str ''b'' \<noteq> str ''a''" by code_simp
  show ?thesis
    by (simp add: Scan_def scan_tables_def web_scanner_def p n ab)
qed

end
