(* ===== verification/GoFlag.thy ===== *)
theory GoFlag
  imports GoText
begin

text \<open>
  The package \<open>flag\<close> as the commands use it: a flag set parses the arguments with a setter per flag.  The state of the
  variables is whatever the command keeps; \<open>setter name value\<close> assigns one of them.
\<close>

unbundle bit_operations_syntax

section \<open>Values\<close>

text \<open>\<open>strconv.ParseBool\<close>.\<close>

definition ParseBool :: "bytes \<Rightarrow> bool option" where
  "ParseBool s =
     (if s \<in> {str ''1'', str ''t'', str ''T'', str ''true'', str ''TRUE'', str ''True''} then Some True
      else if s \<in> {str ''0'', str ''f'', str ''F'', str ''false'', str ''FALSE'', str ''False''} then Some False
      else None)"

definition lower_byte :: "byte \<Rightarrow> byte" where
  "lower_byte c = c OR 32"

text \<open>\<open>underscoreOK\<close> of \<open>strconv\<close>: the class of the last byte is 94 at the start, 48 after a digit, 95 after an underscore, 33 else.\<close>

fun underscores :: "bool \<Rightarrow> byte \<Rightarrow> bytes \<Rightarrow> bool" where
  "underscores hex i [] \<longleftrightarrow> i \<noteq> 95"
| "underscores hex i (c # s) =
     (if is_digit c \<or> hex \<and> (97 \<le> lower_byte c \<and> lower_byte c \<le> 102) then underscores hex 48 s
      else if c = 95 then i = 48 \<and> underscores hex 95 s
      else i \<noteq> 95 \<and> underscores hex 33 s)"

definition underscoreOK :: "bytes \<Rightarrow> bool" where
  "underscoreOK s =
     (case s of
        a # b # rest \<Rightarrow>
          if a = 48 \<and> lower_byte b \<in> {98, 111, 120} then underscores (lower_byte b = 120) 48 rest else underscores False 94 s
      | _ \<Rightarrow> underscores False 94 s)"

text \<open>\<open>strconv.ParseInt(s, 0, 64)\<close>: the base follows from the prefix and digits may be separated by underscores.
  A number out of range and a syntax error differ only in the text of the error, which is not kept apart here.\<close>

definition base_prefix :: "bytes \<Rightarrow> nat \<times> bytes" where
  "base_prefix s =
     (case s of
        [] \<Rightarrow> (10, [])
      | a # rest \<Rightarrow>
          if a \<noteq> 48 then (10, s)
          else if 3 \<le> length s \<and> lower_byte (s ! 1) = 98 then (2, drop 2 s)
          else if 3 \<le> length s \<and> lower_byte (s ! 1) = 111 then (8, drop 2 s)
          else if 3 \<le> length s \<and> lower_byte (s ! 1) = 120 then (16, drop 2 s)
          else (8, rest))"

definition ParseInt0 :: "bytes \<Rightarrow> int option" where
  "ParseInt0 text =
     (let neg = (text \<noteq> [] \<and> hd text = 45);
          s = (if text \<noteq> [] \<and> (hd text = 45 \<or> hd text = 43) then tl text else text)
      in if s = [] then None
         else case base_prefix s of (base, ds) \<Rightarrow>
           (case base_value base 0 (filter (\<lambda>c. c \<noteq> 95) ds) of
              None \<Rightarrow> None
            | Some v \<Rightarrow>
                if 95 \<in> set ds \<and> \<not> underscoreOK s then None
                else if neg then (if 9223372036854775808 < int v then None else Some (- int v))
                else (if 9223372036854775807 < int v then None else Some (int v))))"

section \<open>Flag sets\<close>

datatype flagKind = BoolFlag | ValueFlag

abbreviation dash :: byte where "dash \<equiv> 45"
abbreviation equals_sign :: byte where "equals_sign \<equiv> 61"

text \<open>Name and value of an argument without its dashes; the search for the sign starts at the second byte.\<close>

definition flag_name :: "bytes \<Rightarrow> bytes \<times> bytes option" where
  "flag_name s =
     (case IndexByte (tl s) equals_sign of
        None \<Rightarrow> (s, None)
      | Some i \<Rightarrow> (take (Suc i) s, Some (drop (Suc (Suc i)) s)))"

datatype flagArg =
    FlagEnd "bytes list"
  | FlagBad bytes
  | FlagGiven bytes "bytes option" "bytes list"

definition flag_arg :: "bytes list \<Rightarrow> flagArg" where
  "flag_arg args =
     (case args of
        [] \<Rightarrow> FlagEnd []
      | s # rest \<Rightarrow>
          if length s < 2 \<or> hd s \<noteq> dash then FlagEnd args
          else if s = [dash, dash] then FlagEnd rest
          else let name = (if s ! 1 = dash then drop 2 s else drop 1 s) in
            if hd name = dash \<or> hd name = equals_sign then FlagBad (str ''bad flag syntax: '' @ s)
            else case flag_name name of (n, v) \<Rightarrow> FlagGiven n v rest)"

lemma flag_arg_rest: "flag_arg args = FlagGiven n v rest \<Longrightarrow> length rest < length args"
  by (auto simp: flag_arg_def Let_def split: list.splits if_splits prod.splits)

text \<open>
  \<open>FlagSet.Parse\<close>: the variables at the end with the arguments that are not flags.  \<open>formal\<close> gives the kind of a
  defined flag.
\<close>

function flag_Parse ::
  "(bytes \<Rightarrow> flagKind option) \<Rightarrow> (bytes \<Rightarrow> bytes \<Rightarrow> 's \<Rightarrow> 's result) \<Rightarrow> bytes list \<Rightarrow> 's \<Rightarrow> ('s \<times> bytes list) result" where
  "flag_Parse formal setter args vars =
     (case flag_arg args of
        FlagEnd rest \<Rightarrow> Inr (vars, rest)
      | FlagBad message \<Rightarrow> Inl (ErrText message)
      | FlagGiven name given rest \<Rightarrow>
          (case formal name of
             None \<Rightarrow>
               if name = str ''help'' \<or> name = str ''h'' then Inl (ErrText (str ''flag: help requested''))
               else Inl (ErrText (str ''flag provided but not defined: -'' @ name))
           | Some BoolFlag \<Rightarrow>
               (case setter name (case given of Some v \<Rightarrow> v | None \<Rightarrow> str ''true'') vars of
                  Inl err \<Rightarrow>
                    Inl (ErrText (case given of
                        Some v \<Rightarrow> str ''invalid boolean value '' @ Quote v @ str '' for -'' @ name @ str '': '' @ error_text err
                      | None \<Rightarrow> str ''invalid boolean flag '' @ name @ str '': '' @ error_text err))
                | Inr vars' \<Rightarrow> flag_Parse formal setter rest vars')
           | Some ValueFlag \<Rightarrow>
               (case (given, rest) of
                  (None, []) \<Rightarrow> Inl (ErrText (str ''flag needs an argument: -'' @ name))
                | (None, text # rest') \<Rightarrow>
                    (case setter name text vars of
                       Inl err \<Rightarrow> Inl (ErrText (str ''invalid value '' @ Quote text @ str '' for flag -'' @ name @ str '': '' @ error_text err))
                     | Inr vars' \<Rightarrow> flag_Parse formal setter rest' vars')
                | (Some text, _) \<Rightarrow>
                    (case setter name text vars of
                       Inl err \<Rightarrow> Inl (ErrText (str ''invalid value '' @ Quote text @ str '' for flag -'' @ name @ str '': '' @ error_text err))
                     | Inr vars' \<Rightarrow> flag_Parse formal setter rest vars'))))"
  by pat_completeness auto
termination
  by (relation "measure (\<lambda>(formal, setter, args, vars). length args)") (auto dest: flag_arg_rest)

declare flag_Parse.simps [simp del]

text \<open>The setters of the standard values.\<close>

definition parse_error :: goerr where "parse_error = ErrText (str ''parse error'')"

definition bool_flag :: "bytes \<Rightarrow> (bool \<Rightarrow> 's) \<Rightarrow> 's result" where
  "bool_flag v k = (case ParseBool v of None \<Rightarrow> Inl parse_error | Some b \<Rightarrow> Inr (k b))"

definition int_flag :: "bytes \<Rightarrow> (int \<Rightarrow> 's) \<Rightarrow> 's result" where
  "int_flag v k = (case ParseInt0 v of None \<Rightarrow> Inl parse_error | Some n \<Rightarrow> Inr (k n))"

definition duration_flag :: "(bytes \<Rightarrow> int option) \<Rightarrow> bytes \<Rightarrow> (int \<Rightarrow> 's) \<Rightarrow> 's result" where
  "duration_flag ParseDuration v k = (case ParseDuration v of None \<Rightarrow> Inl parse_error | Some d \<Rightarrow> Inr (k d))"

end
