(* ===== verification/ProxyOptions.thy ===== *)
theory ProxyOptions
  imports ProxyPorts Config GoFlag
begin

text \<open>
  The options of the proxy command (src/cmd/wsl-proxy/main.go): the configuration file gives the defaults, the flags
  override them, and the checks run on the result.  \<open>Load\<close> is the configuration package applied to a path;
  \<open>time.ParseDuration\<close> and the order in which Go iterates over a literal map are arguments, as in \<open>Config\<close>.
\<close>

section \<open>Options\<close>

record proxyOptions =
  po_checkConfig :: bool
  po_socksListen :: bytes
  po_httpListen :: bytes
  po_relayExe :: bytes
  po_brokerMode :: bool
  po_upstreamProxy :: bytes
  po_reverse :: "Mapping list"
  po_reverseUDP :: "Mapping list"
  po_autoForward :: bool
  po_autoForwardUDP :: bool
  po_autoForwardHost :: bytes
  po_autoForwardHost6 :: bytes
  po_autoForwardPortOffset :: int
  po_autoForwardPortAuto :: bool
  po_autoForwardStatus :: bytes
  po_autoForwardInterval :: int
  po_autoRetryMin :: int
  po_autoRetryMax :: int
  po_autoInclude :: portSet
  po_autoUDPInclude :: portSet
  po_autoExclude :: portSet
  po_controlSocket :: bytes
  po_strictListenHost :: bytes
  po_strictListenHost6 :: bytes
  po_strictMaxConnections :: int
  po_strictMaxLeases :: int
  po_strictMaxOwners :: int
  po_udpAssociateIdle :: int
  po_relayHandshakeTimeout :: int
  po_relayDialTimeout :: int
  po_proxyHandshakeTimeout :: int
  po_maxProxyConnections :: int
  po_listenStatusFile :: bytes

fun find_config :: "bytes \<Rightarrow> bytes list \<Rightarrow> bytes result" where
  "find_config path [] = Inr path"
| "find_config path [a] =
     (if a = str ''-config'' \<or> a = str ''--config'' then Inl (ErrText (str ''-config requires a path''))
      else let path1 = (if HasPrefix a (str ''-config='') then TrimPrefix a (str ''-config='') else path)
           in Inr (if HasPrefix a (str ''--config='') then TrimPrefix a (str ''--config='') else path1))"
| "find_config path (a # b # rest) =
     (if a = str ''-config'' \<or> a = str ''--config'' then find_config b rest
      else let path1 = (if HasPrefix a (str ''-config='') then TrimPrefix a (str ''-config='') else path)
           in find_config (if HasPrefix a (str ''--config='') then TrimPrefix a (str ''--config='') else path1) (b # rest))"

definition findConfigPath :: "bytes list \<Rightarrow> bytes result" where
  "findConfigPath args = find_config [] args"

fun set_mappings :: "bytes \<Rightarrow> Mapping list \<Rightarrow> bytes list \<Rightarrow> Mapping list result" where
  "set_mappings what m [] = Inr m"
| "set_mappings what m (mapping # rest) =
     (case Mappings_Set m mapping of
        (m', Some err) \<Rightarrow> Inl (Upstream.wrap_err what err)
      | (m', None) \<Rightarrow> set_mappings what m' rest)"

text \<open>The options before the flags are parsed.\<close>

definition options_of_file :: "(bytes \<Rightarrow> int option) \<Rightarrow> configFile \<Rightarrow> proxyOptions result" where
  "options_of_file ParseDuration f =
     rbind (AutoForwardDuration ParseDuration f) (\<lambda>interval.
     rbind (AutoForwardRetryDurations ParseDuration f) (\<lambda>(autoRetryMin, autoRetryMax).
     rbind (UDPAssociateIdleDuration ParseDuration f) (\<lambda>udpAssociateIdle.
     rbind (RelayDialDuration ParseDuration f) (\<lambda>relayDialTimeout.
     rbind (RelayHandshakeDuration ParseDuration f) (\<lambda>relayHandshakeTimeout.
     rbind (ProxyHandshakeDuration ParseDuration f) (\<lambda>proxyHandshakeTimeout.
     rbind (set_mappings (str ''config reverse'') [] (fi_Reverse f)) (\<lambda>reverse.
     rbind (set_mappings (str ''config reverse_udp'') [] (fi_ReverseUDP f)) (\<lambda>reverseUDP.
     Inr \<lparr>po_checkConfig = False, po_socksListen = fi_SOCKS5Listen f, po_httpListen = fi_HTTPProxyListen f,
          po_relayExe = fi_RelayExecutable f, po_brokerMode = fi_BrokerMode f, po_upstreamProxy = fi_UpstreamProxy f,
          po_reverse = reverse, po_reverseUDP = reverseUDP,
          po_autoForward = af_Enabled (fi_AutoForward f), po_autoForwardUDP = af_UDPEnabled (fi_AutoForward f),
          po_autoForwardHost = af_WindowsHost (fi_AutoForward f), po_autoForwardHost6 = af_WindowsHost6 (fi_AutoForward f),
          po_autoForwardPortOffset = af_WindowsPortOffset (fi_AutoForward f),
          po_autoForwardPortAuto = af_WindowsPortAuto (fi_AutoForward f),
          po_autoForwardStatus = af_StatusFile (fi_AutoForward f), po_autoForwardInterval = interval,
          po_autoRetryMin = autoRetryMin, po_autoRetryMax = autoRetryMax,
          po_autoInclude = [], po_autoUDPInclude = [], po_autoExclude = [],
          po_controlSocket = fi_ControlSocket f, po_strictListenHost = fi_StrictListenHost f,
          po_strictListenHost6 = fi_StrictListenHost6 f, po_strictMaxConnections = fi_StrictMaxConnections f,
          po_strictMaxLeases = fi_StrictMaxLeases f, po_strictMaxOwners = fi_StrictMaxOwners f,
          po_udpAssociateIdle = udpAssociateIdle, po_relayHandshakeTimeout = relayHandshakeTimeout,
          po_relayDialTimeout = relayDialTimeout, po_proxyHandshakeTimeout = proxyHandshakeTimeout,
          po_maxProxyConnections = fi_MaxProxyConnections f, po_listenStatusFile = fi_ListenStatusFile f\<rparr>))))))))"

section \<open>Flags\<close>

text \<open>The variables that the flags assign: the options and four strings.\<close>

record proxyVars =
  pv_opts :: proxyOptions
  pv_config :: bytes
  pv_include :: bytes
  pv_udpInclude :: bytes
  pv_exclude :: bytes

definition mapping_flag :: "Mapping list \<Rightarrow> bytes \<Rightarrow> (Mapping list \<Rightarrow> 's) \<Rightarrow> 's result" where
  "mapping_flag m v k = (case Mappings_Set m v of (m', Some err) \<Rightarrow> Inl err | (m', None) \<Rightarrow> Inr (k m'))"

type_synonym flagTable = "(bytes \<times> flagKind \<times> (bytes \<Rightarrow> proxyVars \<Rightarrow> proxyVars result)) list"

definition opts_update :: "(proxyOptions \<Rightarrow> proxyOptions) \<Rightarrow> proxyVars \<Rightarrow> proxyVars" where
  "opts_update g s = s\<lparr>pv_opts := g (pv_opts s)\<rparr>"

definition proxy_bool_flags :: flagTable where
  "proxy_bool_flags = map (\<lambda>(name, g). (name, BoolFlag, \<lambda>v s. bool_flag v (\<lambda>b. opts_update (g b) s)))
     [(str ''check-config'', \<lambda>b opts. opts\<lparr>po_checkConfig := b\<rparr>),
      (str ''broker-mode'', \<lambda>b opts. opts\<lparr>po_brokerMode := b\<rparr>),
      (str ''auto-forward'', \<lambda>b opts. opts\<lparr>po_autoForward := b\<rparr>),
      (str ''auto-forward-udp'', \<lambda>b opts. opts\<lparr>po_autoForwardUDP := b\<rparr>),
      (str ''auto-forward-port-auto'', \<lambda>b opts. opts\<lparr>po_autoForwardPortAuto := b\<rparr>)]"

definition proxy_string_flags :: flagTable where
  "proxy_string_flags = map (\<lambda>(name, g). (name, ValueFlag, \<lambda>v s. Inr (g v s)))
     [(str ''config'', \<lambda>v s. s\<lparr>pv_config := v\<rparr>),
      (str ''listen'', \<lambda>v. opts_update (\<lambda>opts. opts\<lparr>po_socksListen := v\<rparr>)),
      (str ''http-listen'', \<lambda>v. opts_update (\<lambda>opts. opts\<lparr>po_httpListen := v\<rparr>)),
      (str ''listen-status'', \<lambda>v. opts_update (\<lambda>opts. opts\<lparr>po_listenStatusFile := v\<rparr>)),
      (str ''relay-exe'', \<lambda>v. opts_update (\<lambda>opts. opts\<lparr>po_relayExe := v\<rparr>)),
      (str ''upstream-proxy'', \<lambda>v. opts_update (\<lambda>opts. opts\<lparr>po_upstreamProxy := v\<rparr>)),
      (str ''auto-forward-host'', \<lambda>v. opts_update (\<lambda>opts. opts\<lparr>po_autoForwardHost := v\<rparr>)),
      (str ''auto-forward-host6'', \<lambda>v. opts_update (\<lambda>opts. opts\<lparr>po_autoForwardHost6 := v\<rparr>)),
      (str ''auto-forward-status'', \<lambda>v. opts_update (\<lambda>opts. opts\<lparr>po_autoForwardStatus := v\<rparr>)),
      (str ''auto-forward-include'', \<lambda>v s. s\<lparr>pv_include := v\<rparr>),
      (str ''auto-forward-udp-include'', \<lambda>v s. s\<lparr>pv_udpInclude := v\<rparr>),
      (str ''auto-forward-exclude'', \<lambda>v s. s\<lparr>pv_exclude := v\<rparr>),
      (str ''control-socket'', \<lambda>v. opts_update (\<lambda>opts. opts\<lparr>po_controlSocket := v\<rparr>)),
      (str ''strict-listen-host'', \<lambda>v. opts_update (\<lambda>opts. opts\<lparr>po_strictListenHost := v\<rparr>)),
      (str ''strict-listen-host6'', \<lambda>v. opts_update (\<lambda>opts. opts\<lparr>po_strictListenHost6 := v\<rparr>))]"

definition proxy_int_flags :: flagTable where
  "proxy_int_flags = map (\<lambda>(name, g). (name, ValueFlag, \<lambda>v s. int_flag v (\<lambda>n. opts_update (g n) s)))
     [(str ''auto-forward-port-offset'', \<lambda>n opts. opts\<lparr>po_autoForwardPortOffset := n\<rparr>),
      (str ''strict-max-connections'', \<lambda>n opts. opts\<lparr>po_strictMaxConnections := n\<rparr>),
      (str ''strict-max-leases'', \<lambda>n opts. opts\<lparr>po_strictMaxLeases := n\<rparr>),
      (str ''strict-max-owners-per-lease'', \<lambda>n opts. opts\<lparr>po_strictMaxOwners := n\<rparr>),
      (str ''max-proxy-connections'', \<lambda>n opts. opts\<lparr>po_maxProxyConnections := n\<rparr>)]"

definition proxy_duration_flags :: "(bytes \<Rightarrow> int option) \<Rightarrow> flagTable" where
  "proxy_duration_flags ParseDuration =
     map (\<lambda>(name, g). (name, ValueFlag, \<lambda>v s. duration_flag ParseDuration v (\<lambda>d. opts_update (g d) s)))
     [(str ''auto-forward-interval'', \<lambda>d opts. opts\<lparr>po_autoForwardInterval := d\<rparr>),
      (str ''auto-forward-retry-min'', \<lambda>d opts. opts\<lparr>po_autoRetryMin := d\<rparr>),
      (str ''auto-forward-retry-max'', \<lambda>d opts. opts\<lparr>po_autoRetryMax := d\<rparr>),
      (str ''udp-associate-idle-timeout'', \<lambda>d opts. opts\<lparr>po_udpAssociateIdle := d\<rparr>),
      (str ''relay-handshake-timeout'', \<lambda>d opts. opts\<lparr>po_relayHandshakeTimeout := d\<rparr>),
      (str ''relay-dial-timeout'', \<lambda>d opts. opts\<lparr>po_relayDialTimeout := d\<rparr>),
      (str ''proxy-handshake-timeout'', \<lambda>d opts. opts\<lparr>po_proxyHandshakeTimeout := d\<rparr>)]"

definition proxy_mapping_flags :: flagTable where
  "proxy_mapping_flags =
     [(str ''reverse'', ValueFlag,
         \<lambda>v s. mapping_flag (po_reverse (pv_opts s)) v (\<lambda>m. opts_update (\<lambda>opts. opts\<lparr>po_reverse := m\<rparr>) s)),
      (str ''reverse-udp'', ValueFlag,
         \<lambda>v s. mapping_flag (po_reverseUDP (pv_opts s)) v (\<lambda>m. opts_update (\<lambda>opts. opts\<lparr>po_reverseUDP := m\<rparr>) s))]"

definition proxy_flags :: "(bytes \<Rightarrow> int option) \<Rightarrow> flagTable" where
  "proxy_flags ParseDuration =
     proxy_bool_flags @ proxy_string_flags @ proxy_int_flags @ proxy_duration_flags ParseDuration @ proxy_mapping_flags"

definition proxy_formal :: "(bytes \<Rightarrow> int option) \<Rightarrow> bytes \<Rightarrow> flagKind option" where
  "proxy_formal ParseDuration name = map_option fst (map_of (proxy_flags ParseDuration) name)"

definition proxy_setter :: "(bytes \<Rightarrow> int option) \<Rightarrow> bytes \<Rightarrow> bytes \<Rightarrow> proxyVars \<Rightarrow> proxyVars result" where
  "proxy_setter ParseDuration name v s =
     (case map_of (proxy_flags ParseDuration) name of
        None \<Rightarrow> Inl (ErrText (str ''no such flag -'' @ name))
      | Some (kind, setter) \<Rightarrow> setter v s)"

section \<open>Checks\<close>

definition require :: "bool \<Rightarrow> bytes \<Rightarrow> unit result" where
  "require ok message = (if ok then Inr () else Inl (ErrText message))"

definition check_numbers :: "((bytes \<times> int) list \<Rightarrow> (bytes \<times> int) list) \<Rightarrow> proxyOptions \<Rightarrow> unit result" where
  "check_numbers order opts =
     rbind (require (0 < po_autoForwardInterval opts) (str ''auto-forward-interval must be positive'')) (\<lambda>_.
     rbind (require (0 < po_autoRetryMin opts) (str ''auto-forward-retry-min must be positive'')) (\<lambda>_.
     rbind (require (0 < po_autoRetryMax opts) (str ''auto-forward-retry-max must be positive'')) (\<lambda>_.
     rbind (require (po_autoRetryMin opts \<le> po_autoRetryMax opts)
              (str ''auto-forward-retry-max must be greater than or equal to auto-forward-retry-min'')) (\<lambda>_.
     rbind (require (- 65534 \<le> po_autoForwardPortOffset opts \<and> po_autoForwardPortOffset opts \<le> 65534)
              (str ''auto-forward-port-offset must be between -65534 and 65534'')) (\<lambda>_.
     rbind (require (\<not> (po_autoForwardPortAuto opts \<and> po_autoForwardPortOffset opts \<noteq> 0))
              (str ''auto-forward-port-auto and auto-forward-port-offset cannot be used together'')) (\<lambda>_.
     rbind (require (0 < po_udpAssociateIdle opts) (str ''udp-associate-idle-timeout must be positive'')) (\<lambda>_.
     rbind (require (0 < po_relayHandshakeTimeout opts) (str ''relay-handshake-timeout must be positive'')) (\<lambda>_.
     rbind (require (0 < po_relayDialTimeout opts) (str ''relay-dial-timeout must be positive'')) (\<lambda>_.
     rbind (require (0 < po_proxyHandshakeTimeout opts) (str ''proxy-handshake-timeout must be positive'')) (\<lambda>_.
     rbind (require (within_limit (po_maxProxyConnections opts)) (str ''max-proxy-connections must be between 1 and 65535'')) (\<lambda>_.
     guard (first_bad within_limit (str '' must be between 1 and 65535'')
       (order [(str ''strict-max-connections'', po_strictMaxConnections opts), (str ''strict-max-leases'', po_strictMaxLeases opts),
               (str ''strict-max-owners-per-lease'', po_strictMaxOwners opts)])))))))))))))"

definition check_final :: "proxyOptions \<Rightarrow> unit result" where
  "check_final opts =
     rbind (require (po_socksListen opts \<noteq> []) (str ''SOCKS5 listen address cannot be empty'')) (\<lambda>_.
     rbind (require (po_relayExe opts \<noteq> []) (str ''relay executable cannot be empty'')) (\<lambda>_.
     rbind (require (\<not> (po_brokerMode opts \<and> po_upstreamProxy opts \<noteq> []))
              (str ''upstream proxy must be configured on the Windows broker when broker mode is enabled'')) (\<lambda>_.
     rbind (require (po_autoForwardUDP opts \<longrightarrow> po_autoForward opts) (str ''-auto-forward-udp requires -auto-forward'')) (\<lambda>_.
     require (po_autoForwardUDP opts \<longrightarrow> po_autoUDPInclude opts \<noteq> [])
       (str ''-auto-forward-udp requires a non-empty -auto-forward-udp-include allowlist'')))))"

definition named_error :: "bytes \<Rightarrow> 'a result \<Rightarrow> 'a result" where
  "named_error name r = (case r of Inl err \<Rightarrow> Inl (Upstream.wrap_err name err) | Inr x \<Rightarrow> Inr x)"

definition finish_options :: "((bytes \<times> int) list \<Rightarrow> (bytes \<times> int) list) \<Rightarrow> proxyVars \<Rightarrow> bytes list \<Rightarrow> proxyOptions result" where
  "finish_options order s rest =
     rbind (check_numbers order (pv_opts s)) (\<lambda>_.
     rbind (require (rest = []) (str ''unexpected arguments: '' @ strings_Join rest (str '' ''))) (\<lambda>_.
     rbind (named_error (str ''auto-forward-include'') (parsePortSet (pv_include s))) (\<lambda>include.
     rbind (named_error (str ''auto-forward-udp-include'') (parsePortSet (pv_udpInclude s))) (\<lambda>udpInclude.
     rbind (named_error (str ''auto-forward-exclude'') (parsePortSet (pv_exclude s))) (\<lambda>exclude.
     let opts = (pv_opts s)\<lparr>po_autoInclude := include, po_autoUDPInclude := udpInclude, po_autoExclude := exclude\<rparr>
     in rbind (check_final opts) (\<lambda>_. Inr opts))))))"

definition proxy_parseOptions ::
  "(bytes \<Rightarrow> configFile result) \<Rightarrow> (bytes \<Rightarrow> int option) \<Rightarrow> ((bytes \<times> int) list \<Rightarrow> (bytes \<times> int) list)
     \<Rightarrow> bytes list \<Rightarrow> proxyOptions result" where
  "proxy_parseOptions Load ParseDuration order args =
     rbind (findConfigPath args) (\<lambda>configPath.
     rbind (if configPath \<noteq> [] then named_error (str ''load '' @ configPath) (Load configPath) else Inr config_Default) (\<lambda>f.
     rbind (options_of_file ParseDuration f) (\<lambda>opts.
     rbind (flag_Parse (proxy_formal ParseDuration) (proxy_setter ParseDuration) args
              \<lparr>pv_opts = opts, pv_config = configPath, pv_include = formatPorts (af_Include (fi_AutoForward f)),
               pv_udpInclude = formatPorts (af_UDPInclude (fi_AutoForward f)),
               pv_exclude = formatPorts (af_Exclude (fi_AutoForward f))\<rparr>) (\<lambda>(s, rest).
     finish_options order s rest))))"

text \<open>The watcher of TCP listeners that \<open>run\<close> starts; the one for UDP has its own allowlist.\<close>

definition auto_watcher :: "proxyOptions \<Rightarrow> bytes \<Rightarrow> bytes option \<Rightarrow> watcherConfig" where
  "auto_watcher opts socksAddr httpAddr =
     \<lparr>wc_WindowsHost = po_autoForwardHost opts, wc_WindowsHost6 = po_autoForwardHost6 opts,
      wc_PortOffset = po_autoForwardPortOffset opts, wc_PortAuto = po_autoForwardPortAuto opts,
      wc_Included = portsFromSet (po_autoInclude opts),
      wc_Excluded = portsFromSet (auto_excluded (po_autoExclude opts) socksAddr httpAddr (po_reverse opts) (po_reverseUDP opts)
        (po_autoForwardPortOffset opts)),
      wc_RetryMin = po_autoRetryMin opts, wc_RetryMax = po_autoRetryMax opts\<rparr>"

definition auto_udp_watcher :: "proxyOptions \<Rightarrow> bytes \<Rightarrow> bytes option \<Rightarrow> watcherConfig" where
  "auto_udp_watcher opts socksAddr httpAddr =
     (auto_watcher opts socksAddr httpAddr)\<lparr>wc_Included := portsFromSet (po_autoUDPInclude opts)\<rparr>"

section \<open>What the options promise\<close>

definition good_mapping :: "Mapping \<Rightarrow> bool" where
  "good_mapping m \<longleftrightarrow> validateEndpoint (mp_Windows m) = None \<and> validateEndpoint (mp_WSL m) = None"

definition options_ok :: "proxyOptions \<Rightarrow> bool" where
  "options_ok opts \<longleftrightarrow>
     list_all good_mapping (po_reverse opts @ po_reverseUDP opts)
     \<and> list_all (\<lambda>d. 0 < d) [po_autoForwardInterval opts, po_autoRetryMin opts, po_autoRetryMax opts, po_udpAssociateIdle opts,
          po_relayHandshakeTimeout opts, po_relayDialTimeout opts, po_proxyHandshakeTimeout opts]
     \<and> po_autoRetryMin opts \<le> po_autoRetryMax opts
     \<and> \<bar>po_autoForwardPortOffset opts\<bar> \<le> 65534 \<and> (po_autoForwardPortAuto opts \<longrightarrow> po_autoForwardPortOffset opts = 0)
     \<and> list_all within_limit [po_maxProxyConnections opts, po_strictMaxConnections opts, po_strictMaxLeases opts, po_strictMaxOwners opts]
     \<and> clean_set (po_autoInclude opts) \<and> clean_set (po_autoUDPInclude opts) \<and> clean_set (po_autoExclude opts)
     \<and> po_socksListen opts \<noteq> [] \<and> po_relayExe opts \<noteq> [] \<and> (po_brokerMode opts \<longrightarrow> po_upstreamProxy opts = [])
     \<and> (po_autoForwardUDP opts \<longrightarrow> po_autoForward opts \<and> po_autoUDPInclude opts \<noteq> [])"

lemma flag_Parse_invariant:
  assumes "flag_Parse formal setter args vars = Inr (s, rest)" "I vars"
    and "\<And>name v s s'. setter name v s = Inr s' \<Longrightarrow> I s \<Longrightarrow> I s'"
  shows "I s"
  using assms
proof (induction formal setter args vars rule: flag_Parse.induct)
  case (1 formal setter args vars)
  note keep = "1.prems"(3)
  show ?case
  proof (cases "flag_arg args")
    case (FlagEnd left)
    then show ?thesis using "1.prems"(1,2) by (simp add: flag_Parse.simps [of formal])
  next
    case (FlagBad message)
    then show ?thesis using "1.prems"(1) by (simp add: flag_Parse.simps [of formal])
  next
    case (FlagGiven name given left)
    note arg = this
    obtain kind where kind: "formal name = Some kind"
      using "1.prems"(1) arg by (auto simp: flag_Parse.simps [of formal] split: option.splits if_splits)
    show ?thesis
    proof (cases kind)
      case BoolFlag
      then obtain vars' where v: "setter name (case given of Some v \<Rightarrow> v | None \<Rightarrow> str ''true'') vars = Inr vars'"
          "flag_Parse formal setter left vars' = Inr (s, rest)"
        using "1.prems"(1) arg kind by (auto simp: flag_Parse.simps [of formal setter args] split: sum.splits)
      show ?thesis
        by (rule "1.IH"(1) [OF arg kind BoolFlag v(1) v(2)]) (use keep v(1) "1.prems"(2) in blast)+
    next
      case ValueFlag
      show ?thesis
      proof (cases given)
        case (Some w)
        then obtain vars' where v: "setter name w vars = Inr vars'" "flag_Parse formal setter left vars' = Inr (s, rest)"
          using "1.prems"(1) arg kind ValueFlag by (auto simp: flag_Parse.simps [of formal setter args] split: sum.splits)
        show ?thesis
          by (rule "1.IH"(3) [OF arg kind ValueFlag _ Some v(1) v(2)]) (use keep v(1) "1.prems"(2) in blast)+
      next
        case None
        then obtain w left' vars' where v: "left = w # left'" "setter name w vars = Inr vars'"
            "flag_Parse formal setter left' vars' = Inr (s, rest)"
          using "1.prems"(1) arg kind ValueFlag
          by (auto simp: flag_Parse.simps [of formal setter args] split: sum.splits list.splits)
        show ?thesis
          by (rule "1.IH"(2) [OF arg kind ValueFlag _ None v(1) v(2,3)]) (use keep v(2) "1.prems"(2) in blast)+
      qed
    qed
  qed
qed

lemma require_Inr: "require ok message = Inr u \<longleftrightarrow> ok"
  by (simp add: require_def)

lemma named_error_Inr: "named_error name r = Inr x \<longleftrightarrow> r = Inr x"
  by (cases r) (simp_all add: named_error_def)

lemma set_mappings_good:
  "set_mappings what m texts = Inr m' \<Longrightarrow> list_all good_mapping m \<Longrightarrow> list_all good_mapping m'"
proof (induction what m texts rule: set_mappings.induct)
  case (2 what m mapping rest)
  then show ?case
    by (cases "ParseMapping mapping") (simp_all add: Mappings_Set_def good_mapping_def mapping_endpoints)
qed simp

definition vars_ok :: "proxyVars \<Rightarrow> bool" where
  "vars_ok s \<longleftrightarrow> list_all good_mapping (po_reverse (pv_opts s) @ po_reverseUDP (pv_opts s))"

lemma flag_values:
  "bool_flag v kb = Inr s' \<longleftrightarrow> (\<exists>b. ParseBool v = Some b \<and> s' = kb b)"
  "int_flag v ki = Inr s' \<longleftrightarrow> (\<exists>n. ParseInt0 v = Some n \<and> s' = ki n)"
  "duration_flag P v ki = Inr s' \<longleftrightarrow> (\<exists>d. P v = Some d \<and> s' = ki d)"
  "mapping_flag ms v km = Inr s' \<longleftrightarrow> (\<exists>m. ParseMapping v = Inr m \<and> s' = km (ms @ [m]))"
  by (auto simp: bool_flag_def int_flag_def duration_flag_def mapping_flag_def Mappings_Set_def split: option.splits sum.splits)

definition keeps_ok :: "bytes \<times> flagKind \<times> (bytes \<Rightarrow> proxyVars \<Rightarrow> proxyVars result) \<Rightarrow> bool" where
  "keeps_ok entry \<longleftrightarrow> (\<forall>v s s'. snd (snd entry) v s = Inr s' \<longrightarrow> vars_ok s \<longrightarrow> vars_ok s')"

lemmas keeps_ok_simps = keeps_ok_def vars_ok_def opts_update_def flag_values

lemma flags_keep_ok:
  "list_all keeps_ok proxy_bool_flags" "list_all keeps_ok proxy_string_flags" "list_all keeps_ok proxy_int_flags"
  "list_all keeps_ok (proxy_duration_flags P)" "list_all keeps_ok proxy_mapping_flags"
proof -
  show "list_all keeps_ok proxy_bool_flags" by (auto simp: proxy_bool_flags_def keeps_ok_simps)
  show "list_all keeps_ok proxy_string_flags" by (simp add: proxy_string_flags_def keeps_ok_simps)
  show "list_all keeps_ok proxy_int_flags" by (auto simp: proxy_int_flags_def keeps_ok_simps)
  show "list_all keeps_ok (proxy_duration_flags P)" by (auto simp: proxy_duration_flags_def keeps_ok_simps)
  show "list_all keeps_ok proxy_mapping_flags"
    by (auto simp: proxy_mapping_flags_def keeps_ok_simps good_mapping_def mapping_endpoints)
qed

lemma proxy_setter_ok:
  assumes "proxy_setter P name v s = Inr s'" "vars_ok s"
  shows "vars_ok s'"
proof -
  obtain kind setter where f: "(name, kind, setter) \<in> set (proxy_flags P)" "setter v s = Inr s'"
    using assms(1) by (auto simp: proxy_setter_def split: option.splits dest: map_of_SomeD)
  have "list_all keeps_ok (proxy_flags P)" using flags_keep_ok by (simp add: proxy_flags_def)
  then have "keeps_ok (name, kind, setter)" using f(1) by (simp only: list_all_iff)
  then show ?thesis using f(2) assms(2) by (simp add: keeps_ok_def)
qed

lemma check_numbers_ok:
  assumes "\<And>xs. set (order xs) = set xs"
  shows "check_numbers order opts = Inr u \<longleftrightarrow>
     list_all (\<lambda>d. 0 < d) [po_autoForwardInterval opts, po_autoRetryMin opts, po_autoRetryMax opts, po_udpAssociateIdle opts,
          po_relayHandshakeTimeout opts, po_relayDialTimeout opts, po_proxyHandshakeTimeout opts]
     \<and> po_autoRetryMin opts \<le> po_autoRetryMax opts
     \<and> \<bar>po_autoForwardPortOffset opts\<bar> \<le> 65534 \<and> (po_autoForwardPortAuto opts \<longrightarrow> po_autoForwardPortOffset opts = 0)
     \<and> list_all within_limit [po_maxProxyConnections opts, po_strictMaxConnections opts, po_strictMaxLeases opts, po_strictMaxOwners opts]"
proof -
  have "- 65534 \<le> x \<longleftrightarrow> - x \<le> 65534" for x :: int by linarith
  then show ?thesis
    unfolding check_numbers_def rbind_eq_Inr require_Inr guard_Inr first_bad_ordered [of order, OF assms]
    by (simp add: abs_le_iff) argo
qed

lemma check_final_ok:
  "check_final opts = Inr u \<longleftrightarrow> po_socksListen opts \<noteq> [] \<and> po_relayExe opts \<noteq> [] \<and> (po_brokerMode opts \<longrightarrow> po_upstreamProxy opts = [])
     \<and> (po_autoForwardUDP opts \<longrightarrow> po_autoForward opts \<and> po_autoUDPInclude opts \<noteq> [])"
  unfolding check_final_def rbind_eq_Inr require_Inr by simp argo

lemma options_of_file_good:
  "options_of_file P f = Inr opts \<Longrightarrow> list_all good_mapping (po_reverse opts @ po_reverseUDP opts)"
  by (auto simp: options_of_file_def rbind_eq_Inr dest!: set_mappings_good)

lemma finish_options_iff:
  assumes "\<And>xs. set (order xs) = set xs"
  shows "finish_options order s rest = Inr opts \<longleftrightarrow>
    rest = [] \<and> (\<exists>u. check_numbers order (pv_opts s) = Inr u) \<and> (\<exists>u. check_final opts = Inr u)
    \<and> (\<exists>inc udpInc exc. parsePortSet (pv_include s) = Inr inc \<and> parsePortSet (pv_udpInclude s) = Inr udpInc
        \<and> parsePortSet (pv_exclude s) = Inr exc
        \<and> opts = (pv_opts s)\<lparr>po_autoInclude := inc, po_autoUDPInclude := udpInc, po_autoExclude := exc\<rparr>)"
  unfolding finish_options_def rbind_eq_Inr named_error_Inr require_Inr Let_def by auto

lemma options_good:
  assumes "\<And>xs. set (order xs) = set xs" "proxy_parseOptions Load ParseDuration order args = Inr opts"
  shows "options_ok opts"
proof -
  obtain path f opts0 s rest where run: "options_of_file ParseDuration f = Inr opts0"
      "flag_Parse (proxy_formal ParseDuration) (proxy_setter ParseDuration) args
         \<lparr>pv_opts = opts0, pv_config = path, pv_include = formatPorts (af_Include (fi_AutoForward f)),
          pv_udpInclude = formatPorts (af_UDPInclude (fi_AutoForward f)),
          pv_exclude = formatPorts (af_Exclude (fi_AutoForward f))\<rparr> = Inr (s, rest)"
      "finish_options order s rest = Inr opts"
    using assms(2) by (auto simp: proxy_parseOptions_def rbind_eq_Inr)
  have "vars_ok s"
    by (rule flag_Parse_invariant [OF run(2), where I = vars_ok])
       (use options_of_file_good [OF run(1)] in \<open>simp add: vars_ok_def\<close>, rule proxy_setter_ok)
  moreover obtain inc udpInc exc where
      p: "parsePortSet (pv_include s) = Inr inc" "parsePortSet (pv_udpInclude s) = Inr udpInc"
         "parsePortSet (pv_exclude s) = Inr exc"
      and opts: "opts = (pv_opts s)\<lparr>po_autoInclude := inc, po_autoUDPInclude := udpInc, po_autoExclude := exc\<rparr>"
      and c: "\<exists>u. check_numbers order (pv_opts s) = Inr u" "\<exists>u. check_final opts = Inr u"
    using run(3) unfolding finish_options_iff [of order, OF assms(1)] by blast
  ultimately show ?thesis
    using p [THEN parsePortSet_clean] c(1) c(2) unfolding check_numbers_ok [of order, OF assms(1)] check_final_ok
    by (simp add: options_ok_def opts vars_ok_def)
qed

text \<open>
  The proxy never runs with options it cannot honour.  Whatever the arguments and the configuration file are, when
  \<open>parseOptions\<close> returns options, every reverse mapping has two endpoints with a port between 1 and 65535, every timeout
  and interval is positive and the retry bounds are ordered, the port offset is in range and not combined with automatic
  ports, every limit lies between 1 and 65535, the port sets contain no port 0, the listener and the relay are named,
  a broker has no upstream proxy here, and UDP forwarding has an allowlist.
\<close>
lemma options_wellformed:
  assumes "\<And>xs. set (order xs) = set xs" "proxy_parseOptions Load ParseDuration order args = Inr opts"
  shows "options_ok opts"
  using assms by (rule options_good)

text \<open>A command line with one mapping.\<close>

definition plain_mapping :: Mapping where
  "plain_mapping = \<lparr>mp_Windows = str ''127.0.0.1:81'', mp_WSL = str ''127.0.0.1:80''\<rparr>"

definition plain_arguments :: "bytes list" where
  "plain_arguments = [str ''-reverse=127.0.0.1:81=127.0.0.1:80'']"

definition plain_start :: proxyOptions where
  "plain_start = (case options_of_file (\<lambda>_. Some 1) config_Default of Inr opts \<Rightarrow> opts)"

lemma plain_start_eq: "options_of_file (\<lambda>_. Some 1) config_Default = Inr plain_start"
  by code_simp

lemma plain_flags:
  "flag_Parse (proxy_formal (\<lambda>_. Some 1)) (proxy_setter (\<lambda>_. Some 1)) plain_arguments s
     = Inr (s\<lparr>pv_opts := (pv_opts s)\<lparr>po_reverse := po_reverse (pv_opts s) @ [plain_mapping]\<rparr>\<rparr>, [])"
proof -
  have a: "flag_arg plain_arguments = FlagGiven (str ''reverse'') (Some (str ''127.0.0.1:81=127.0.0.1:80'')) []" by code_simp
  have e: "flag_arg [] = FlagEnd []" by (simp add: flag_arg_def)
  have f: "proxy_formal (\<lambda>_. Some 1) (str ''reverse'') = Some ValueFlag" by code_simp
  have m: "ParseMapping (str ''127.0.0.1:81=127.0.0.1:80'') = Inr plain_mapping" by code_simp
  have "map_of (proxy_flags (\<lambda>_. Some 1)) (str ''reverse'') = map_of proxy_mapping_flags (str ''reverse'')"
    by (simp add: proxy_flags_def proxy_bool_flags_def proxy_string_flags_def proxy_int_flags_def proxy_duration_flags_def str_def)
  then have "proxy_setter (\<lambda>_. Some 1) (str ''reverse'') (str ''127.0.0.1:81=127.0.0.1:80'') s
      = Inr (s\<lparr>pv_opts := (pv_opts s)\<lparr>po_reverse := po_reverse (pv_opts s) @ [plain_mapping]\<rparr>\<rparr>)"
    by (simp add: proxy_setter_def proxy_mapping_flags_def mapping_flag_def Mappings_Set_def m opts_update_def)
  then show ?thesis
    using e by (simp add: flag_Parse.simps [of _ _ plain_arguments] a f flag_Parse.simps [of _ _ "[]"])
qed

definition plain_options :: proxyOptions where
  "plain_options = plain_start\<lparr>po_reverse := [plain_mapping], po_autoInclude := [], po_autoUDPInclude := [], po_autoExclude := []\<rparr>"

lemma plain_parse:
  "proxy_parseOptions (\<lambda>_. Inl OsErrNotExist) (\<lambda>_. Some 1) (\<lambda>xs. xs) plain_arguments = Inr plain_options"
proof -
  have c: "findConfigPath plain_arguments = Inr []" by code_simp
  have r: "po_reverse plain_start = []" by code_simp
  have n: "check_numbers (\<lambda>xs. xs) (plain_start\<lparr>po_reverse := [plain_mapping]\<rparr>) = Inr ()" by code_simp
  have e: "check_final plain_options = Inr ()" by code_simp
  have p: "parsePortSet (formatPorts []) = Inr []" by code_simp
  have i: "af_Include (fi_AutoForward config_Default) = []" "af_UDPInclude (fi_AutoForward config_Default) = []"
    "af_Exclude (fi_AutoForward config_Default) = []" by (simp_all add: config_Default_def)
  show ?thesis
    unfolding proxy_parseOptions_def c plain_start_eq rbind_simps
    using n e p by (simp add: plain_start_eq plain_flags i r finish_options_def require_def named_error_def plain_options_def)
qed

text \<open>
  C33: automatic forwarding never competes with an explicit reverse mapping.  Let the proxy have parsed its options and
  started its watchers on the addresses it listens on.  Whatever the kernel's socket tables hold, no listener that a watcher
  wants to mirror at a fixed offset is mirrored to the Windows port of an explicit TCP or UDP mapping, and none is the
  Windows port or the target port of one.
\<close>
theorem auto_spares_explicit:
  assumes "\<And>xs. set (order xs) = set xs" "proxy_parseOptions Load ParseDuration order args = Inr opts"
    and "cfg \<in> {auto_watcher opts socksAddr httpAddr, auto_udp_watcher opts socksAddr httpAddr}" "po_autoForwardPortAuto opts = False"
    and "Scan open_file scanner = Inr listeners \<or> ScanDatagrams open_file scanner = Inr listeners"
    and "(k, l) \<in> set (desired_of cfg listeners)" "m \<in> set (po_reverse opts) \<union> set (po_reverseUDP opts)"
  shows "\<exists>host raw n h r t. SplitHostPort (mp_Windows m) = Inr (host, raw) \<and> ParseUint raw 10 16 = Some n
      \<and> SplitHostPort (mp_WSL m) = Inr (h, r) \<and> ParseUint r 10 16 = Some t
      \<and> windowsPort cfg l \<noteq> int n \<and> unat (ls_Port l) \<noteq> n \<and> unat (ls_Port l) \<noteq> t"
proof -
  let ?vars_ok = "list_all good_mapping (po_reverse opts @ po_reverseUDP opts)"
  have ?vars_ok using options_good [OF assms(1,2)] by (simp add: options_ok_def)
  then have "good_mapping m" using assms(7) by (auto simp: list_all_iff)
  then show ?thesis
    by (intro auto_never_shadows [OF assms(5) _ _ assms(6,7)])
       (use assms(3,4) in \<open>auto simp: auto_watcher_def auto_udp_watcher_def good_mapping_def\<close>)
qed

theorem auto_spares_explicit_witness:
  "\<exists>host raw n h r t. SplitHostPort (mp_Windows plain_mapping) = Inr (host, raw) \<and> ParseUint raw 10 16 = Some n
      \<and> SplitHostPort (mp_WSL plain_mapping) = Inr (h, r) \<and> ParseUint r 10 16 = Some t
      \<and> windowsPort (auto_watcher plain_options (str ''127.0.0.1:1080'') None) web_listener \<noteq> int n
      \<and> unat (ls_Port web_listener) \<noteq> n \<and> unat (ls_Port web_listener) \<noteq> t"
proof -
  have d: "((str ''tcp4'', 8080), web_listener)
      \<in> set (desired_of (auto_watcher plain_options (str ''127.0.0.1:1080'') None) [web_listener])" by code_simp
  have a: "po_autoForwardPortAuto plain_options = False" by code_simp
  show ?thesis
    by (rule auto_spares_explicit [OF refl plain_parse _ a disjI1 [OF web_scan] d]) (rule insertI1, simp add: plain_options_def)
qed

section \<open>A configuration file alone\<close>

lemma set_mappings_iff:
  "set_mappings what m texts = Inr m' \<longleftrightarrow> list_all (isOk \<circ> ParseMapping) texts \<and> m' = m @ map (projr \<circ> ParseMapping) texts"
proof (induction what m texts rule: set_mappings.induct)
  case (2 what m mapping rest)
  then show ?case by (cases "ParseMapping mapping") (auto simp: Mappings_Set_def)
qed auto

lemma config_flag:
  "flag_Parse (proxy_formal P) (proxy_setter P) [str ''-config'', path] s = Inr (s\<lparr>pv_config := path\<rparr>, [])"
proof -
  have a: "flag_arg (str ''-config'' # r) = FlagGiven (str ''config'') None r" for r by (simp add: flag_arg_def flag_name_def str_def)
  have e: "flag_arg [] = FlagEnd []" by (simp add: flag_arg_def)
  have m: "map_of (proxy_flags P) (str ''config'') = Some (ValueFlag, \<lambda>v s. Inr (s\<lparr>pv_config := v\<rparr>))"
    by (simp add: proxy_flags_def proxy_bool_flags_def proxy_string_flags_def str_def)
  show ?thesis
    by (simp add: flag_Parse.simps [of _ _ "str ''-config'' # _"] a e proxy_formal_def proxy_setter_def m flag_Parse.simps [of _ _ "[]"])
qed

definition port_map :: "u16 list \<Rightarrow> u16 \<Rightarrow> bool option" where
  "port_map ports p = (if p \<in> set ports then Some True else None)"

lemma file_ports:
  "0 \<notin> set ports \<Longrightarrow> \<exists>m. parsePortSet (formatPorts ports) = Inr m \<and> map_of m = port_map ports"
  using parse_format_ports [of ports] by (simp add: map_of_update_all port_map_def fun_eq_iff)

lemma valid_file_start:
  assumes valid: "config_valid P f" and mappings: "list_all (isOk \<circ> ParseMapping) (fi_Reverse f @ fi_ReverseUDP f)"
    and order: "\<And>xs. set (order xs) = set xs"
  shows "\<exists>opts. options_of_file P f = Inr opts \<and> check_numbers order opts = Inr ()
     \<and> po_reverse opts = map (projr \<circ> ParseMapping) (fi_Reverse f) \<and> po_reverseUDP opts = map (projr \<circ> ParseMapping) (fi_ReverseUDP f)
     \<and> po_socksListen opts = fi_SOCKS5Listen f \<and> po_relayExe opts = fi_RelayExecutable f \<and> po_brokerMode opts = fi_BrokerMode f
     \<and> po_upstreamProxy opts = fi_UpstreamProxy f \<and> po_autoForward opts = af_Enabled (fi_AutoForward f)
     \<and> po_autoForwardUDP opts = af_UDPEnabled (fi_AutoForward f)"
proof -
  obtain d1 d2 d3 d4 d5 d6 d7 where
      d: "P (af_Interval (fi_AutoForward f)) = Some d1" "P (af_RetryMin (fi_AutoForward f)) = Some d2" "P (af_RetryMax (fi_AutoForward f)) = Some d3"
         "P (fi_UDPAssociateIdle f) = Some d4" "P (fi_ProxyHandshakeTimeout f) = Some d5" "P (fi_RelayDialTimeout f) = Some d6"
         "P (fi_RelayHandshakeTimeout f) = Some d7"
      and pos: "0 < d1" "0 < d2" "0 < d3" "0 < d4" "0 < d5" "0 < d6" "0 < d7" "d2 \<le> d3"
    using valid by (auto simp: config_valid_def positive_text_iff)
  have m: "set_mappings what [] (fi_Reverse f) = Inr (map (projr \<circ> ParseMapping) (fi_Reverse f))"
    "set_mappings what [] (fi_ReverseUDP f) = Inr (map (projr \<circ> ParseMapping) (fi_ReverseUDP f))" for what
    using mappings by (simp_all add: set_mappings_iff)
  have limits: "\<bar>af_WindowsPortOffset (fi_AutoForward f)\<bar> \<le> 65534"
    "af_WindowsPortAuto (fi_AutoForward f) \<longrightarrow> af_WindowsPortOffset (fi_AutoForward f) = 0"
    "list_all within_limit [fi_MaxProxyConnections f, fi_StrictMaxConnections f, fi_StrictMaxLeases f, fi_StrictMaxOwners f]"
    using valid by (simp_all add: config_valid_def)
  have "positive_duration P name v = Inr x" if "P v = Some x" "0 < x" for name v x
    using that by (simp add: positive_duration_def)
  then show ?thesis
    using d pos limits
    by (simp add: options_of_file_def AutoForwardDuration_def AutoForwardRetryDurations_def UDPAssociateIdleDuration_def
        RelayDialDuration_def RelayHandshakeDuration_def ProxyHandshakeDuration_def m check_numbers_ok [of order, OF order])
qed

lemma file_start_mappings:
  "options_of_file P f = Inr opts \<Longrightarrow> list_all (isOk \<circ> ParseMapping) (fi_Reverse f @ fi_ReverseUDP f)"
  by (auto simp: options_of_file_def rbind_eq_Inr set_mappings_iff)

lemma empty_listen_spec: "ValidateTCPListenSpec [] \<noteq> None"
  by code_simp

lemma update_empty: "m = [] \<longleftrightarrow> map_of m = Map.empty"
  by (cases m) (auto simp: fun_eq_iff split: if_splits)

text \<open>
  C34: a configuration file that \<open>Load\<close> accepts is honoured exactly.  Started with nothing but its path, the proxy runs just
  when every reverse mapping parses, the relay is named, a broker has no upstream proxy, and UDP forwarding is combined
  with TCP forwarding and has an allowlist; the three port sets then are those of the file, although they pass
  through the text form of the flags, and the mappings are those of the file in its order.
\<close>
theorem options_from_file:
  assumes "\<And>xs. set (order xs) = set xs" "Load path = Inr f" "path \<noteq> []" "config_valid ParseDuration f"
  shows "((\<exists>opts. proxy_parseOptions Load ParseDuration order [str ''-config'', path] = Inr opts) \<longleftrightarrow>
       list_all (isOk \<circ> ParseMapping) (fi_Reverse f @ fi_ReverseUDP f) \<and> fi_RelayExecutable f \<noteq> []
       \<and> (fi_BrokerMode f \<longrightarrow> fi_UpstreamProxy f = [])
       \<and> (af_UDPEnabled (fi_AutoForward f) \<longrightarrow> af_Enabled (fi_AutoForward f) \<and> af_UDPInclude (fi_AutoForward f) \<noteq> []))
    \<and> (\<forall>opts. proxy_parseOptions Load ParseDuration order [str ''-config'', path] = Inr opts \<longrightarrow>
         map_of (po_autoInclude opts) = port_map (af_Include (fi_AutoForward f))
         \<and> map_of (po_autoUDPInclude opts) = port_map (af_UDPInclude (fi_AutoForward f))
         \<and> map_of (po_autoExclude opts) = port_map (af_Exclude (fi_AutoForward f))
         \<and> po_reverse opts = map (projr \<circ> ParseMapping) (fi_Reverse f)
         \<and> po_reverseUDP opts = map (projr \<circ> ParseMapping) (fi_ReverseUDP f))"
proof (cases "list_all (isOk \<circ> ParseMapping) (fi_Reverse f @ fi_ReverseUDP f)")
  case True
  let ?a = "fi_AutoForward f"
  have ports: "0 \<notin> set (af_Include ?a)" "0 \<notin> set (af_UDPInclude ?a)" "0 \<notin> set (af_Exclude ?a)" and l: "fi_SOCKS5Listen f \<noteq> []"
    using assms(4) empty_listen_spec by (auto simp: config_valid_def)
  obtain inc udpInc exc where sets: "parsePortSet (formatPorts (af_Include ?a)) = Inr inc" "parsePortSet (formatPorts (af_UDPInclude ?a)) = Inr udpInc"
      "parsePortSet (formatPorts (af_Exclude ?a)) = Inr exc"
    and maps: "map_of inc = port_map (af_Include ?a)" "map_of udpInc = port_map (af_UDPInclude ?a)" "map_of exc = port_map (af_Exclude ?a)"
    using ports [THEN file_ports] by blast
  obtain opts where o: "options_of_file ParseDuration f = Inr opts" "check_numbers order opts = Inr ()"
      "po_reverse opts = map (projr \<circ> ParseMapping) (fi_Reverse f)" "po_reverseUDP opts = map (projr \<circ> ParseMapping) (fi_ReverseUDP f)"
      "po_socksListen opts = fi_SOCKS5Listen f" "po_relayExe opts = fi_RelayExecutable f" "po_brokerMode opts = fi_BrokerMode f"
      "po_upstreamProxy opts = fi_UpstreamProxy f" "po_autoForward opts = af_Enabled ?a" "po_autoForwardUDP opts = af_UDPEnabled ?a"
    using valid_file_start [OF assms(4) True assms(1)] by blast
  let ?final = "opts\<lparr>po_autoInclude := inc, po_autoUDPInclude := udpInc, po_autoExclude := exc\<rparr>"
  have c: "findConfigPath [str ''-config'', path] = Inr path" by (simp add: findConfigPath_def)
  have u: "udpInc = [] \<longleftrightarrow> af_UDPInclude ?a = []"
    unfolding update_empty maps(2) by (cases "af_UDPInclude ?a") (auto simp: port_map_def fun_eq_iff)
  have run: "proxy_parseOptions Load ParseDuration order [str ''-config'', path] = Inr r \<longleftrightarrow> r = ?final \<and> check_final ?final = Inr ()" for r
    using assms(2,3) o(1,2) sets
    by (auto simp: proxy_parseOptions_def c named_error_def config_flag finish_options_def require_def rbind_eq_Inr Let_def)
  show ?thesis unfolding run check_final_ok using maps o True l u by auto
next
  case False
  have c: "findConfigPath [str ''-config'', path] = Inr path" by (simp add: findConfigPath_def)
  have "proxy_parseOptions Load ParseDuration order [str ''-config'', path] \<noteq> Inr opts" for opts
    using assms(2,3) False file_start_mappings by (auto simp: proxy_parseOptions_def c named_error_def rbind_eq_Inr)
  then show ?thesis using False by blast
qed

theorem options_from_file_witness:
  "\<exists>opts. proxy_parseOptions (\<lambda>_. Inr config_Default) (\<lambda>_. Some 1) (\<lambda>xs. xs) [str ''-config'', str ''c.json''] = Inr opts"
proof -
  have "str ''c.json'' \<noteq> []" by simp
  from options_from_file [OF refl refl this default_valid] show ?thesis by (simp add: config_Default_def)
qed

end
