(* ===== verification/SessionDialer.thy ===== *)
theory SessionDialer
  imports Prelude
begin

text \<open>
  The dialer that the local proxies share (src/cmd/wsl-proxy/session.go).  It outlives the relay sessions: an operation
  that finds no session, or whose session is gone, waits until the session changes.  A channel is a number; closing the
  previous channel happens after the lock is released, so the channels that are about to be closed are part of the
  state.  Four operations share one loop; they differ in what they ask the client.
\<close>

section \<open>The dialer\<close>

record sessionDialer =
  sd_client :: "nat option"
  sd_changed :: nat
  sd_closing :: "nat list"
  sd_closed :: "nat list"
  sd_hook :: bool
  sd_hooks :: nat

definition newSessionDialer :: sessionDialer where
  "newSessionDialer = \<lparr>sd_client = None, sd_changed = 0, sd_closing = [], sd_closed = [], sd_hook = False, sd_hooks = 0\<rparr>"

text \<open>The critical sections of \<open>set\<close> and \<open>clear\<close>; a new channel gets the next number.\<close>

definition dialer_set :: "nat \<Rightarrow> sessionDialer \<Rightarrow> sessionDialer" where
  "dialer_set c d = d\<lparr>sd_client := Some c, sd_changed := Suc (sd_changed d), sd_closing := sd_closing d @ [sd_changed d]\<rparr>"

definition dialer_clear :: "nat \<Rightarrow> sessionDialer \<Rightarrow> sessionDialer" where
  "dialer_clear c d =
     (if sd_client d \<noteq> Some c then d
      else d\<lparr>sd_client := None, sd_changed := Suc (sd_changed d), sd_closing := sd_closing d @ [sd_changed d],
             sd_hooks := (if sd_hook d then Suc (sd_hooks d) else sd_hooks d)\<rparr>)"

definition dialer_close :: "nat \<Rightarrow> sessionDialer \<Rightarrow> sessionDialer" where
  "dialer_close ch d = d\<lparr>sd_closing := remove1 ch (sd_closing d), sd_closed := ch # sd_closed d\<rparr>"

definition setClearHook :: "sessionDialer \<Rightarrow> sessionDialer" where
  "setClearHook d = d\<lparr>sd_hook := True\<rparr>"

definition dialer_current :: "sessionDialer \<Rightarrow> nat option \<times> nat" where
  "dialer_current d = (sd_client d, sd_changed d)"

definition isSessionRetryError :: "goerr \<Rightarrow> bool" where
  "isSessionRetryError err \<longleftrightarrow>
     err_is err ErrClientClosed \<or> err_is err IoEOF \<or> err_is err IoErrUnexpectedEOF \<or> err_is err IoErrClosedPipe
     \<or> err_is err NetErrClosed"

section \<open>Operations\<close>

text \<open>
  The loop of the operations over its rounds: what the client answers, if there is one, and how the wait ends
  (\<open>None\<close> when the session has changed, or the error of the context).  The result is \<open>None\<close> while the operation waits.
\<close>

fun session_loop :: "('a result option \<times> goerr option) list \<Rightarrow> 'a result option" where
  "session_loop [] = None"
| "session_loop ((asked, waited) # rounds) =
     (let waiting = (case waited of Some err \<Rightarrow> Some (Inl err) | None \<Rightarrow> session_loop rounds) in
      case asked of
        None \<Rightarrow> waiting
      | Some (Inr x) \<Rightarrow> Some (Inr x)
      | Some (Inl err) \<Rightarrow> if isSessionRetryError err then waiting else Some (Inl err))"

definition session_DialContext :: "(nat result option \<times> goerr option) list \<Rightarrow> nat result option" where
  "session_DialContext rounds = session_loop rounds"

definition session_OpenPacketContext :: "(nat result option \<times> goerr option) list \<Rightarrow> nat result option" where
  "session_OpenPacketContext rounds = session_loop rounds"

text \<open>A client that does not support reverse forwarding is asked nothing; \<open>None\<close> as its answer.\<close>

definition ask_reverse :: "bytes \<Rightarrow> 'a result option \<Rightarrow> 'a result" where
  "ask_reverse unsupported answer = (case answer of None \<Rightarrow> Inl (ErrText unsupported) | Some r \<Rightarrow> r)"

definition reserveReverseForward :: "('a result option option \<times> goerr option) list \<Rightarrow> 'a result option" where
  "reserveReverseForward rounds =
     session_loop (map (\<lambda>(asked, waited).
       (map_option (ask_reverse (str ''relay session does not support reverse forwarding'')) asked, waited)) rounds)"

definition reserveDatagramForward :: "('a result option option \<times> goerr option) list \<Rightarrow> 'a result option" where
  "reserveDatagramForward rounds =
     session_loop (map (\<lambda>(asked, waited).
       (map_option (ask_reverse (str ''relay session does not support reverse UDP forwarding'')) asked, waited)) rounds)"

text \<open>\<open>ReverseForward\<close>: the reservation (\<open>None\<close> is nil) is committed; the second component says whether it was closed.\<close>

definition ReverseForward ::
  "(nat option result option option \<times> goerr option) list \<Rightarrow> goerr option \<Rightarrow> (nat result \<times> nat list) option" where
  "ReverseForward rounds commitErr =
     (case reserveReverseForward rounds of
        None \<Rightarrow> None
      | Some (Inl err) \<Rightarrow> Some (Inl err, [])
      | Some (Inr None) \<Rightarrow> Some (Inl (ErrText (str ''relay returned nil reverse reservation'')), [])
      | Some (Inr (Some r)) \<Rightarrow>
          (case commitErr of Some err \<Rightarrow> Some (Inl err, [r]) | None \<Rightarrow> Some (Inr r, [])))"

definition session_ReverseDatagramForward :: "('a result option option \<times> goerr option) list \<Rightarrow> 'a result option" where
  "session_ReverseDatagramForward rounds = reserveDatagramForward rounds"

section \<open>Interleaving\<close>

text \<open>
  An operation has read the client and the channel and asks the client, or waits on the channel.  While it waits it
  remembers which client it has tried.
\<close>

datatype opPhase =
    OpStart
  | OpAsking nat nat
  | OpWaiting "nat option" nat
  | OpDone "nat result"

record sessionSystem =
  sz_dialer :: sessionDialer
  sz_ops :: "opPhase list"

definition begin_round :: "sessionDialer \<Rightarrow> opPhase" where
  "begin_round d =
     (case dialer_current d of (None, ch) \<Rightarrow> OpWaiting None ch | (Some c, ch) \<Rightarrow> OpAsking c ch)"

definition op_answer :: "nat \<Rightarrow> nat \<Rightarrow> nat result \<Rightarrow> opPhase" where
  "op_answer c ch answer =
     (case answer of
        Inr x \<Rightarrow> OpDone (Inr x)
      | Inl err \<Rightarrow> if isSessionRetryError err then OpWaiting (Some c) ch else OpDone (Inl err))"

inductive session_step :: "sessionSystem \<Rightarrow> sessionSystem \<Rightarrow> bool" where
  set: "session_step s (s\<lparr>sz_dialer := dialer_set c (sz_dialer s)\<rparr>)"
| clear: "session_step s (s\<lparr>sz_dialer := dialer_clear c (sz_dialer s)\<rparr>)"
| close: "session_step s (s\<lparr>sz_dialer := dialer_close ch (sz_dialer s)\<rparr>)"
    if "ch \<in> set (sd_closing (sz_dialer s))"
| hook: "session_step s (s\<lparr>sz_dialer := setClearHook (sz_dialer s)\<rparr>)"
| arrive: "session_step s (s\<lparr>sz_ops := sz_ops s @ [OpStart]\<rparr>)"
| look: "session_step s (s\<lparr>sz_ops := (sz_ops s)[i := begin_round (sz_dialer s)]\<rparr>)"
    if "i < length (sz_ops s)" "sz_ops s ! i = OpStart"
| answer: "session_step s (s\<lparr>sz_ops := (sz_ops s)[i := op_answer c ch r]\<rparr>)"
    if "i < length (sz_ops s)" "sz_ops s ! i = OpAsking c ch"
| wake: "session_step s (s\<lparr>sz_ops := (sz_ops s)[i := OpStart]\<rparr>)"
    if "i < length (sz_ops s)" "sz_ops s ! i = OpWaiting tried ch" "ch \<in> set (sd_closed (sz_dialer s))"
| cancel: "session_step s (s\<lparr>sz_ops := (sz_ops s)[i := OpDone (Inl err)]\<rparr>)"
    if "i < length (sz_ops s)" "sz_ops s ! i = OpWaiting tried ch"

abbreviation session_steps :: "sessionSystem \<Rightarrow> sessionSystem \<Rightarrow> bool" where
  "session_steps \<equiv> session_step\<^sup>*\<^sup>*"

definition start_session :: sessionSystem where
  "start_session = \<lparr>sz_dialer = newSessionDialer, sz_ops = []\<rparr>"

inductive_cases session_stepE: "session_step s s'"

section \<open>No lost wake-up\<close>

text \<open>The channels before the current one are closed or about to be, once each; the current one is open.\<close>

definition channels_ok :: "sessionDialer \<Rightarrow> bool" where
  "channels_ok d \<longleftrightarrow> distinct (sd_closing d @ sd_closed d) \<and> set (sd_closing d @ sd_closed d) = {..<sd_changed d}"

text \<open>What an operation knows: on the current channel it has seen the current client.\<close>

fun op_ok :: "sessionDialer \<Rightarrow> opPhase \<Rightarrow> bool" where
  "op_ok d (OpAsking c ch) \<longleftrightarrow> ch \<le> sd_changed d \<and> (ch = sd_changed d \<longrightarrow> sd_client d = Some c)"
| "op_ok d (OpWaiting tried ch) \<longleftrightarrow> ch \<le> sd_changed d \<and> (ch = sd_changed d \<longrightarrow> sd_client d = tried)"
| "op_ok d _ \<longleftrightarrow> True"

definition session_inv :: "sessionSystem \<Rightarrow> bool" where
  "session_inv s \<longleftrightarrow> channels_ok (sz_dialer s) \<and> list_all (op_ok (sz_dialer s)) (sz_ops s)"

lemma channels_ok_change:
  "channels_ok d \<Longrightarrow> sd_changed d' = Suc (sd_changed d) \<Longrightarrow> sd_closing d' = sd_closing d @ [sd_changed d] \<Longrightarrow>
     sd_closed d' = sd_closed d \<Longrightarrow> channels_ok d'"
  by (auto simp: channels_ok_def lessThan_Suc)

lemma channels_ok_set: "channels_ok d \<Longrightarrow> channels_ok (dialer_set c d)"
  by (erule channels_ok_change) (simp_all add: dialer_set_def)

lemma channels_ok_clear: "channels_ok d \<Longrightarrow> channels_ok (dialer_clear c d)"
proof (cases "sd_client d = Some c")
  case True
  assume "channels_ok d"
  then show ?thesis by (rule channels_ok_change) (simp_all add: dialer_clear_def True)
qed (simp add: dialer_clear_def)

lemma channels_ok_close: "channels_ok d \<Longrightarrow> ch \<in> set (sd_closing d) \<Longrightarrow> channels_ok (dialer_close ch d)"
proof -
  assume ok: "channels_ok d" and ch: "ch \<in> set (sd_closing d)"
  have "distinct (sd_closing d)" using ok by (simp add: channels_ok_def)
  then have "set (remove1 ch (sd_closing d)) = set (sd_closing d) - {ch}" by (rule set_remove1_eq)
  moreover have "insert ch (set (sd_closing d) - {ch} \<union> set (sd_closed d)) = set (sd_closing d) \<union> set (sd_closed d)"
    using ch by blast
  ultimately show ?thesis
    using ok ch by (simp add: channels_ok_def dialer_close_def) blast
qed

lemma op_ok_change: "op_ok d p \<Longrightarrow> sd_changed d < sd_changed d' \<Longrightarrow> op_ok d' p"
  by (cases p) auto

lemma op_ok_same: "op_ok d p \<Longrightarrow> sd_changed d' = sd_changed d \<Longrightarrow> sd_client d' = sd_client d \<Longrightarrow> op_ok d' p"
  by (cases p) auto

lemma list_all_op_update: "list_all P xs \<Longrightarrow> P x \<Longrightarrow> list_all P (xs[i := x])"
  by (auto simp: list_all_iff dest: set_update_subset_insert [THEN subsetD])

lemma session_inv_step:
  assumes "session_step s s'" "session_inv s"
  shows "session_inv s'"
proof -
  have c: "channels_ok (sz_dialer s)" and o: "list_all (op_ok (sz_dialer s)) (sz_ops s)"
    using assms(2) by (simp_all add: session_inv_def)
  have at: "op_ok (sz_dialer s) (sz_ops s ! i)" if "i < length (sz_ops s)" for i
    using o that by (simp add: list_all_length)
  from assms(1) show ?thesis
  proof cases
    case (set c')
    have "list_all (op_ok (dialer_set c' (sz_dialer s))) (sz_ops s)"
      using o by (rule list.pred_mono_strong) (auto intro: op_ok_change simp: dialer_set_def)
    then show ?thesis using c set by (simp add: session_inv_def channels_ok_set)
  next
    case (clear c')
    have "list_all (op_ok (dialer_clear c' (sz_dialer s))) (sz_ops s)"
      using o by (rule list.pred_mono_strong) (auto intro: op_ok_change simp: dialer_clear_def)
    then show ?thesis using c clear by (simp add: session_inv_def channels_ok_clear)
  next
    case (close ch)
    have "list_all (op_ok (dialer_close ch (sz_dialer s))) (sz_ops s)"
      using o by (rule list.pred_mono_strong) (auto intro: op_ok_same simp: dialer_close_def)
    then show ?thesis using c close by (simp add: session_inv_def channels_ok_close)
  next
    case hook
    have "list_all (op_ok (setClearHook (sz_dialer s))) (sz_ops s)"
      using o by (rule list.pred_mono_strong) (auto intro: op_ok_same simp: setClearHook_def)
    then show ?thesis using c hook by (simp add: session_inv_def setClearHook_def channels_ok_def)
  next
    case (look i)
    have "op_ok (sz_dialer s) (begin_round (sz_dialer s))" by (simp add: begin_round_def dialer_current_def split: option.split)
    then show ?thesis using c o look by (simp add: session_inv_def list_all_op_update)
  next
    case (answer i c' ch r)
    have "op_ok (sz_dialer s) (op_answer c' ch r)" using at [OF answer(2)] answer(3) by (simp add: op_answer_def split: sum.split)
    then show ?thesis using c o answer by (simp add: session_inv_def list_all_op_update)
  qed (use c o in \<open>simp_all add: session_inv_def list_all_op_update\<close>)
qed

lemma session_inv_reachable: "session_steps start_session s \<Longrightarrow> session_inv s"
proof (induction rule: rtranclp_induct)
  case base
  show ?case by (simp add: session_inv_def start_session_def newSessionDialer_def channels_ok_def)
next
  case (step s s')
  then show ?case using session_inv_step by blast
qed

text \<open>
  C32: no operation sleeps through a change of the session.  In every reachable state, an operation that waits either
  waits on a channel that is closed, so that it can run again, or that the goroutine which changed the session is about
  to close; or there has been no change since it looked, and then the current session is the very one it has tried
  (or there is none).  No channel is closed twice, and the current channel is open.
\<close>
theorem session_no_lost_wakeup:
  assumes "session_steps start_session s" "OpWaiting tried ch \<in> set (sz_ops s)"
  shows "(ch \<in> set (sd_closed (sz_dialer s)) \<or> ch \<in> set (sd_closing (sz_dialer s))
       \<or> ch = sd_changed (sz_dialer s) \<and> sd_client (sz_dialer s) = tried)
     \<and> distinct (sd_closing (sz_dialer s) @ sd_closed (sz_dialer s))
     \<and> sd_changed (sz_dialer s) \<notin> set (sd_closing (sz_dialer s) @ sd_closed (sz_dialer s))"
proof -
  have inv: "session_inv s" using assms(1) by (rule session_inv_reachable)
  then have ch: "ch \<le> sd_changed (sz_dialer s)" "ch = sd_changed (sz_dialer s) \<longrightarrow> sd_client (sz_dialer s) = tried"
    using assms(2) by (auto simp: session_inv_def list_all_iff)
  have "channels_ok (sz_dialer s)" using inv by (simp add: session_inv_def)
  then have d: "distinct (sd_closing (sz_dialer s) @ sd_closed (sz_dialer s))"
    and c: "set (sd_closing (sz_dialer s) @ sd_closed (sz_dialer s)) = {..<sd_changed (sz_dialer s)}"
    by (simp_all add: channels_ok_def)
  have "ch \<in> set (sd_closing (sz_dialer s) @ sd_closed (sz_dialer s)) \<or> ch = sd_changed (sz_dialer s)"
    unfolding c using ch(1) by auto
  then show ?thesis using d c ch(2) by auto
qed

lemma session_witness_steps:
  "session_steps start_session
     \<lparr>sz_dialer = dialer_set 7 newSessionDialer, sz_ops = [OpWaiting None 0]\<rparr>"
proof -
  let ?s1 = "start_session\<lparr>sz_ops := [OpStart]\<rparr>"
  let ?s2 = "start_session\<lparr>sz_ops := [OpWaiting None 0]\<rparr>"
  have "session_step start_session ?s1"
    using session_step.arrive [of start_session] by (simp add: start_session_def)
  moreover have "session_step ?s1 ?s2"
    using session_step.look [of 0 ?s1] by (simp add: start_session_def begin_round_def dialer_current_def newSessionDialer_def)
  moreover have "session_step ?s2 \<lparr>sz_dialer = dialer_set 7 newSessionDialer, sz_ops = [OpWaiting None 0]\<rparr>"
    using session_step.set [of ?s2 7] by (simp add: start_session_def)
  ultimately show ?thesis by (meson converse_rtranclp_into_rtranclp rtranclp.rtrancl_refl)
qed

theorem session_no_lost_wakeup_witness:
  "OpWaiting None 0 \<in> set [OpWaiting None 0 :: opPhase]
   \<and> sd_changed (dialer_set 7 newSessionDialer) \<notin> set (sd_closing (dialer_set 7 newSessionDialer) @ sd_closed (dialer_set 7 newSessionDialer))
   \<and> (0 \<in> set (sd_closed (dialer_set 7 newSessionDialer)) \<or> 0 \<in> set (sd_closing (dialer_set 7 newSessionDialer))
        \<or> 0 = sd_changed (dialer_set 7 newSessionDialer) \<and> sd_client (dialer_set 7 newSessionDialer) = None)"
  using session_no_lost_wakeup [OF session_witness_steps, of None 0] by simp

end
