(* ===== verification/ProxySession.thy ===== *)
theory ProxySession
  imports ProxyOptions SessionDialer Protocol
begin

text \<open>
  The sessions of the proxy command (src/cmd/wsl-proxy/main.go, persistent.go): the supervisor with its restart delays, one
  session with a relay process, and the connectors that attach one after the other to a persistent client.  Processes,
  handshakes and the answers of the relay are arguments; the events of a session are recorded in order.
\<close>

section \<open>Supervision\<close>

definition errRelayExited :: goerr where
  "errRelayExited = ErrText (str ''Windows relay exited'')"

abbreviation relayRestartDelay :: int where "relayRestartDelay \<equiv> 2000000000"
abbreviation relayRestartMaxDelay :: int where "relayRestartMaxDelay \<equiv> 30000000000"
abbreviation relayRestartResetAfter :: int where "relayRestartResetAfter \<equiv> 60000000000"

definition resetRestartDelay :: "int \<Rightarrow> int \<Rightarrow> int \<Rightarrow> int \<Rightarrow> int" where
  "resetRestartDelay current initial elapsed threshold = (if 0 < threshold \<and> threshold \<le> elapsed then initial else current)"

definition nextRestartDelay :: "int \<Rightarrow> int \<Rightarrow> int" where
  "nextRestartDelay current maximum =
     (if current \<le> 0 \<or> maximum \<le> 0 then current
      else if maximum \<le> current \<or> maximum div 2 < current then maximum
      else current * 2)"

text \<open>
  A round of \<open>supervise\<close>: what \<open>execute\<close> returned (\<open>None\<close> is nil), the error of the context after it, how long the session
  took, and how the wait ended (\<open>None\<close> when the timer fired).  The result is \<open>None\<close> while there are no more rounds.
\<close>

record superviseRound =
  sr_result :: "goerr option"
  sr_ctxErr :: "goerr option"
  sr_elapsed :: int
  sr_wait :: "goerr option"

fun supervise :: "int \<Rightarrow> int \<Rightarrow> superviseRound list \<Rightarrow> goerr option option \<times> int list" where
  "supervise restartDelay currentDelay [] = (None, [])"
| "supervise restartDelay currentDelay (r # rounds) =
     (case sr_result r of
        None \<Rightarrow> (Some None, [])
      | Some err \<Rightarrow>
          if err_is err ContextCanceled then (Some (Some err), [])
          else if sr_ctxErr r \<noteq> None then (Some (sr_ctxErr r), [])
          else if \<not> err_is err errRelayExited then (Some (Some err), [])
          else let delay = resetRestartDelay currentDelay restartDelay (sr_elapsed r) relayRestartResetAfter in
            (case sr_wait r of
               Some e \<Rightarrow> (Some (Some e), [delay])
             | None \<Rightarrow>
                 (case supervise restartDelay (nextRestartDelay delay relayRestartMaxDelay) rounds of
                    (result, delays) \<Rightarrow> (result, delay # delays))))"

section \<open>Errors\<close>

definition isRelayTransportExit :: "goerr \<Rightarrow> bool" where
  "isRelayTransportExit err \<longleftrightarrow> err_is err IoEOF \<or> err_is err IoErrUnexpectedEOF \<or> err_is err IoErrClosedPipe"

definition classifyHandshakeError :: "goerr \<Rightarrow> goerr" where
  "classifyHandshakeError err =
     (if isRelayTransportExit err \<or> err_is err ErrClientClosed then errRelayExited
      else Upstream.wrap_err (str ''relay handshake'') err)"

text \<open>What waiting for a process returns.\<close>

datatype processExit = ExitNil | ExitStatus int | ExitSignal | ExitOther goerr

definition classifyRelayProcessExit :: "processExit \<Rightarrow> goerr option" where
  "classifyRelayProcessExit e =
     (case e of
        ExitStatus code \<Rightarrow>
          if code = 0 then None
          else Some (Upstream.wrap_err (str ''Windows relay exited with status '' @ Itoa code) (ErrText (str ''exit status '' @ Itoa code)))
      | _ \<Rightarrow> None)"

definition sessionCompletion :: "goerr option \<Rightarrow> goerr option \<Rightarrow> goerr option" where
  "sessionCompletion ctxErr err = (if ctxErr \<noteq> None then ctxErr else err)"

definition relayArguments :: "proxyOptions \<Rightarrow> bytes list" where
  "relayArguments opts = (if po_upstreamProxy opts = [] then [] else [str ''-upstream-proxy'', po_upstreamProxy opts])"

definition requiredRelayCapabilities :: "proxyOptions \<Rightarrow> u64" where
  "requiredRelayCapabilities opts =
     (if po_autoForwardPortAuto opts then or CoreCapabilities CapabilityListenBoundAddress else CoreCapabilities)"

section \<open>One session\<close>

datatype sessionEvent =
    StartRelay bytes "bytes list"
  | SetDialer
  | ClearDialer
  | OpenHandles "nat list"
  | CloseHandles "nat list"
  | RebindLeases
  | ResetPeer
  | CloseClient
  | CloseEndpoint
  | CloseLink
  | CancelContext
  | KillProcess
  | ReapProcess

datatype sessionEnd = RelayEnded "goerr option" "goerr option" | SessionCancelled goerr

text \<open>
  What a session meets: the errors of the pipes and of the start, the answer of the handshake, whether the process is
  seen to exit within the grace period and after the kill, the answers of the relay to the mappings, and how the
  session ends (the result of \<open>client.Run\<close> with the error of the context, or the context itself).
\<close>

record sessionEnv =
  se_stdin :: "goerr option"
  se_stdout :: "goerr option"
  se_start :: "goerr option"
  se_handshake :: "u64 result"
  se_grace :: "processExit option"
  se_final :: "processExit option"
  se_tcp :: "openAnswer list"
  se_udp :: "openAnswer list"
  se_end :: sessionEnd

text \<open>The handles that the relay has handed out when \<open>OpenAll\<close> is done with the answers.\<close>

fun obtained :: "Mapping list \<Rightarrow> openAnswer list \<Rightarrow> nat list" where
  "obtained (m # ms) ((Some h, err) # answers) = h # (if err = None then obtained ms answers else [])"
| "obtained _ _ = []"

definition close_set :: "(nat \<Rightarrow> goerr option) \<Rightarrow> forwardSet option \<Rightarrow> sessionEvent list" where
  "close_set closeErr s = (case s of None \<Rightarrow> [] | Some f \<Rightarrow> [CloseHandles (fst (snd (Set_Close closeErr f)))])"

text \<open>\<open>waitProcess\<close> after a failure: the error of the process, when it exited with a status, replaces the other one.\<close>

definition after_grace :: "processExit option \<Rightarrow> goerr option \<Rightarrow> goerr option" where
  "after_grace grace err =
     (case grace of
        None \<Rightarrow> err
      | Some e \<Rightarrow> (case classifyRelayProcessExit e of Some fatal \<Rightarrow> Some fatal | None \<Rightarrow> err))"

definition reap :: "processExit option \<Rightarrow> sessionEvent list" where
  "reap grace = (if grace = None then [] else [ReapProcess])"

text \<open>The part of \<open>runSession\<close> after the start: result, events, the two sets, and whether the dialer is set and the process waited for.\<close>

definition session_body ::
  "(nat \<Rightarrow> goerr option) \<Rightarrow> proxyOptions \<Rightarrow> bool \<Rightarrow> sessionEnv
     \<Rightarrow> (goerr option \<times> sessionEvent list \<times> forwardSet option \<times> forwardSet option \<times> bool \<times> bool) option" where
  "session_body closeErr opts control env =
     (case se_handshake env of
        Inl err \<Rightarrow>
          Some (after_grace (se_grace env) (Some (classifyHandshakeError err)), reap (se_grace env), None, None, False, se_grace env \<noteq> None)
      | Inr capabilities \<Rightarrow>
          let tcp = OpenHandles (obtained (po_reverse opts) (se_tcp env)); udp = OpenHandles (obtained (po_reverseUDP opts) (se_udp env)) in
          (case OpenAll False closeErr (po_reverse opts) (se_tcp env) of
             None \<Rightarrow> None
           | Some (closed, Inl err) \<Rightarrow>
               Some (Some (Upstream.wrap_err (str ''register reverse forwards'') err), [SetDialer, tcp, CloseHandles closed], None, None, True, False)
           | Some (closed, Inr forwards) \<Rightarrow>
               (case OpenDatagramAll False closeErr (po_reverseUDP opts) (se_udp env) of
                  None \<Rightarrow> None
                | Some (closed, Inl err) \<Rightarrow>
                    Some (Some (Upstream.wrap_err (str ''register reverse UDP forwards'') err),
                      [SetDialer, tcp, udp, CloseHandles closed], Some forwards, None, True, False)
                | Some (closed, Inr datagrams) \<Rightarrow>
                    let ready = [SetDialer, tcp, udp] @ (if control then [RebindLeases] else []) in
                    (case se_end env of
                       SessionCancelled e \<Rightarrow> Some (Some e, ready, Some forwards, Some datagrams, True, False)
                     | RelayEnded err ctxErr \<Rightarrow>
                         if ctxErr \<noteq> None
                         then Some (sessionCompletion ctxErr err, ready, Some forwards, Some datagrams, True, False)
                         else Some (after_grace (se_grace env)
                                (case sessionCompletion ctxErr err of
                                   None \<Rightarrow> None
                                 | Some e \<Rightarrow> Some (if isRelayTransportExit e then errRelayExited else e)),
                               ready @ reap (se_grace env), Some forwards, Some datagrams, True, se_grace env \<noteq> None)))))"

definition session_cleanup ::
  "(nat \<Rightarrow> goerr option) \<Rightarrow> forwardSet option \<Rightarrow> forwardSet option \<Rightarrow> bool \<Rightarrow> processExit option \<Rightarrow> sessionEvent list" where
  "session_cleanup closeErr forwards datagrams waited final =
     close_set closeErr forwards @ close_set closeErr datagrams @ [CloseClient, CloseEndpoint, CancelContext]
     @ (if waited then [] else KillProcess # reap final)"

definition runSession ::
  "(nat \<Rightarrow> goerr option) \<Rightarrow> proxyOptions \<Rightarrow> bool \<Rightarrow> sessionEnv \<Rightarrow> (goerr option \<times> sessionEvent list) option" where
  "runSession closeErr opts control env =
     (case (se_stdin env, se_stdout env, se_start env) of
        (Some err, _, _) \<Rightarrow> Some (Some (Upstream.wrap_err (str ''open relay stdin'') err), [CancelContext])
      | (None, Some err, _) \<Rightarrow> Some (Some (Upstream.wrap_err (str ''open relay stdout'') err), [CancelContext])
      | (None, None, Some err) \<Rightarrow> Some (Some (Upstream.wrap_err (str ''start relay '' @ Quote (po_relayExe opts)) err), [CancelContext])
      | (None, None, None) \<Rightarrow>
          (case session_body closeErr opts control env of
             None \<Rightarrow> None
           | Some (r, events, forwards, datagrams, dialerSet, waited) \<Rightarrow>
               Some (r, [StartRelay (po_relayExe opts) (relayArguments opts)] @ events @ (if dialerSet then [ClearDialer] else [])
                 @ session_cleanup closeErr forwards datagrams waited (se_final env) @ [CancelContext])))"

section \<open>A persistent client\<close>

text \<open>
  The state that outlives the connectors.  \<open>pt_owner\<close> records with which peer the mappings were registered; the code does
  not keep it.
\<close>

record persistentState =
  pt_initialized :: bool
  pt_peerInstanceID :: u64
  pt_forwards :: "forwardSet option"
  pt_datagrams :: "forwardSet option"
  pt_owner :: u64

definition newPersistent :: persistentState where
  "newPersistent = \<lparr>pt_initialized = False, pt_peerInstanceID = 0, pt_forwards = None, pt_datagrams = None, pt_owner = 0\<rparr>"

datatype connectorEnd = ConnectorExited processExit | ClientEnded "goerr option" "goerr option" | ConnectorCancelled goerr

record connectorEnv =
  ce_stdin :: "goerr option"
  ce_stdout :: "goerr option"
  ce_start :: "goerr option"
  ce_attach :: "goerr option"
  ce_handshake :: "u64 result"
  ce_instance :: u64
  ce_grace :: "processExit option"
  ce_final :: "processExit option"
  ce_tcp :: "openAnswer list"
  ce_udp :: "openAnswer list"
  ce_end :: connectorEnd

text \<open>\<open>registerMappings\<close>: the two sets, or the error; the events tell what was opened and closed.\<close>

definition registerMappings ::
  "(nat \<Rightarrow> goerr option) \<Rightarrow> proxyOptions \<Rightarrow> bool \<Rightarrow> openAnswer list \<Rightarrow> openAnswer list
     \<Rightarrow> (sessionEvent list \<times> (forwardSet \<times> forwardSet) result) option" where
  "registerMappings closeErr opts control tcp udp =
     (let opened = OpenHandles (obtained (po_reverse opts) tcp); openedUDP = OpenHandles (obtained (po_reverseUDP opts) udp) in
      case OpenAll False closeErr (po_reverse opts) tcp of
        None \<Rightarrow> None
      | Some (closed, Inl err) \<Rightarrow> Some ([opened, CloseHandles closed], Inl (Upstream.wrap_err (str ''register reverse forwards'') err))
      | Some (closed, Inr forwards) \<Rightarrow>
          (case OpenDatagramAll False closeErr (po_reverseUDP opts) udp of
             None \<Rightarrow> None
           | Some (closed, Inl err) \<Rightarrow>
               Some ([opened, openedUDP, CloseHandles closed] @ close_set closeErr (Some forwards),
                 Inl (Upstream.wrap_err (str ''register reverse UDP forwards'') err))
           | Some (closed, Inr datagrams) \<Rightarrow>
               Some ([opened, openedUDP] @ (if control then [RebindLeases] else []), Inr (forwards, datagrams))))"

text \<open>What follows a successful handshake up to the message that the connector is ready.\<close>

definition adopt_peer :: "(nat \<Rightarrow> goerr option) \<Rightarrow> u64 \<Rightarrow> persistentState \<Rightarrow> persistentState \<times> sessionEvent list" where
  "adopt_peer closeErr instanceID s =
     (let changed = pt_initialized s \<and> instanceID \<noteq> 0 \<and> pt_peerInstanceID s \<noteq> 0 \<and> instanceID \<noteq> pt_peerInstanceID s;
          s1 = (if changed then s\<lparr>pt_forwards := None, pt_datagrams := None, pt_initialized := False\<rparr> else s);
          events = (if changed then [ResetPeer] @ close_set closeErr (pt_forwards s) @ close_set closeErr (pt_datagrams s) @ [ClearDialer] else [])
      in (if instanceID \<noteq> 0 then s1\<lparr>pt_peerInstanceID := instanceID\<rparr> else s1, events))"

definition prepare_peer ::
  "(nat \<Rightarrow> goerr option) \<Rightarrow> proxyOptions \<Rightarrow> bool \<Rightarrow> connectorEnv \<Rightarrow> persistentState
     \<Rightarrow> (persistentState \<times> sessionEvent list \<times> goerr option) option" where
  "prepare_peer closeErr opts control env s =
     (case adopt_peer closeErr (ce_instance env) s of (s1, adopted) \<Rightarrow>
        if pt_initialized s1 then Some (s1, adopted, None)
        else let rebound = (if pt_peerInstanceID s1 \<noteq> 0 \<and> control then [RebindLeases] else []) in
          (case registerMappings closeErr opts control (ce_tcp env) (ce_udp env) of
             None \<Rightarrow> None
           | Some (events, Inl err) \<Rightarrow>
               Some (s1\<lparr>pt_forwards := None, pt_datagrams := None\<rparr>, adopted @ [SetDialer] @ rebound @ events, Some err)
           | Some (events, Inr (forwards, datagrams)) \<Rightarrow>
               Some (s1\<lparr>pt_forwards := Some forwards, pt_datagrams := Some datagrams, pt_initialized := True,
                        pt_owner := pt_peerInstanceID s1\<rparr>, adopted @ [SetDialer] @ rebound @ events, None)))"

definition connector_result :: "connectorEnd \<Rightarrow> goerr option \<times> bool" where
  "connector_result e =
     (case e of
        ConnectorExited status \<Rightarrow>
          (case classifyRelayProcessExit status of Some fatal \<Rightarrow> Some fatal | None \<Rightarrow> Some errRelayExited, True)
      | ClientEnded err ctxErr \<Rightarrow> (sessionCompletion ctxErr err, False)
      | ConnectorCancelled err \<Rightarrow> (Some err, False))"

definition connector_cleanup :: "bool \<Rightarrow> processExit option \<Rightarrow> sessionEvent list" where
  "connector_cleanup waited final = [CloseEndpoint, CancelContext] @ (if waited then [] else KillProcess # reap final) @ [CancelContext]"

definition runPersistentConnector ::
  "(nat \<Rightarrow> goerr option) \<Rightarrow> proxyOptions \<Rightarrow> bool \<Rightarrow> connectorEnv \<Rightarrow> persistentState
     \<Rightarrow> (persistentState \<times> sessionEvent list \<times> goerr option) option" where
  "runPersistentConnector closeErr opts control env s =
     (case (ce_stdin env, ce_stdout env, ce_start env) of
        (Some err, _, _) \<Rightarrow> Some (s, [CancelContext], Some (Upstream.wrap_err (str ''open connector stdin'') err))
      | (None, Some err, _) \<Rightarrow> Some (s, [CancelContext], Some (Upstream.wrap_err (str ''open connector stdout'') err))
      | (None, None, Some err) \<Rightarrow>
          Some (s, [CancelContext], Some (Upstream.wrap_err (str ''start connector '' @ Quote (po_relayExe opts)) err))
      | (None, None, None) \<Rightarrow>
          let start = StartRelay (po_relayExe opts) (relayArguments opts) in
          if ce_attach env \<noteq> None then Some (s, start # connector_cleanup False (ce_final env), ce_attach env)
          else (case ce_handshake env of
             Inl err \<Rightarrow>
               Some (s, start # reap (ce_grace env) @ connector_cleanup (ce_grace env \<noteq> None) (ce_final env),
                 after_grace (ce_grace env) (Some (classifyHandshakeError err)))
           | Inr capabilities \<Rightarrow>
               (case prepare_peer closeErr opts control env s of
                  None \<Rightarrow> None
                | Some (s', events, Some err) \<Rightarrow> Some (s', start # events @ connector_cleanup False (ce_final env), Some err)
                | Some (s', events, None) \<Rightarrow>
                    (case connector_result (ce_end env) of (r, waited) \<Rightarrow>
                       Some (s', start # events @ (if waited then [ReapProcess] else []) @ connector_cleanup waited (ce_final env), r)))))"

text \<open>
  \<open>runPersistent\<close>: the supervisor runs connectors until one of them is not followed by a restart; the deferred cleanup closes
  what is left.  The result is \<open>None\<close> while it has not returned.  \<open>connectors\<close> gives each connector with the rest of its round.
\<close>

fun persistent_rounds ::
  "(nat \<Rightarrow> goerr option) \<Rightarrow> proxyOptions \<Rightarrow> bool \<Rightarrow> (connectorEnv \<times> superviseRound) list \<Rightarrow> persistentState
     \<Rightarrow> (persistentState \<times> sessionEvent list \<times> superviseRound list) option" where
  "persistent_rounds closeErr opts control [] s = Some (s, [], [])"
| "persistent_rounds closeErr opts control ((env, round) # rest) s =
     (case runPersistentConnector closeErr opts control env s of
        None \<Rightarrow> None
      | Some (s', events, r) \<Rightarrow>
          let ended = round\<lparr>sr_result := r\<rparr> in
          (case fst (supervise relayRestartDelay relayRestartDelay [ended]) of
             Some _ \<Rightarrow> Some (s', events, [ended])
           | None \<Rightarrow>
               (case persistent_rounds closeErr opts control rest s' of
                  None \<Rightarrow> None
                | Some (s'', later, rounds) \<Rightarrow> Some (s'', events @ later, ended # rounds))))"

definition runPersistent ::
  "(nat \<Rightarrow> goerr option) \<Rightarrow> proxyOptions \<Rightarrow> bool \<Rightarrow> (connectorEnv \<times> superviseRound) list
     \<Rightarrow> (goerr option \<times> int list \<times> sessionEvent list) option" where
  "runPersistent closeErr opts control connectors =
     (case persistent_rounds closeErr opts control connectors newPersistent of
        None \<Rightarrow> None
      | Some (s, events, rounds) \<Rightarrow>
          (case supervise relayRestartDelay relayRestartDelay rounds of
             (None, delays) \<Rightarrow> None
           | (Some r, delays) \<Rightarrow>
               Some (r, delays, events @ close_set closeErr (pt_forwards s) @ close_set closeErr (pt_datagrams s)
                 @ [ClearDialer, CloseClient, CloseLink, CancelContext])))"

section \<open>Restart delays\<close>

lemma reset_delay_bounds:
  "relayRestartDelay \<le> c \<Longrightarrow> c \<le> relayRestartMaxDelay \<Longrightarrow>
     relayRestartDelay \<le> resetRestartDelay c relayRestartDelay e t \<and> resetRestartDelay c relayRestartDelay e t \<le> relayRestartMaxDelay"
  by (simp add: resetRestartDelay_def)

lemma next_delay:
  "relayRestartDelay \<le> c \<Longrightarrow> c \<le> relayRestartMaxDelay \<Longrightarrow> nextRestartDelay c relayRestartMaxDelay = min relayRestartMaxDelay (2 * c)"
  by (simp add: nextRestartDelay_def min_def)

definition restarts :: "superviseRound \<Rightarrow> bool" where
  "restarts r \<longleftrightarrow> (\<exists>err. sr_result r = Some err \<and> err_is err errRelayExited \<and> \<not> err_is err ContextCanceled) \<and> sr_ctxErr r = None"

lemma supervise_Cons:
  "supervise d c (r # rounds) =
     (if restarts r
      then let delay = resetRestartDelay c d (sr_elapsed r) relayRestartResetAfter in
        (case sr_wait r of
           Some e \<Rightarrow> (Some (Some e), [delay])
         | None \<Rightarrow> (case supervise d (nextRestartDelay delay relayRestartMaxDelay) rounds of (result, delays) \<Rightarrow> (result, delay # delays)))
      else (Some (if sr_ctxErr r \<noteq> None \<and> sr_result r \<noteq> None \<and> \<not> err_is (the (sr_result r)) ContextCanceled then sr_ctxErr r else sr_result r), []))"
  by (cases "sr_result r") (auto simp: restarts_def)

declare supervise.simps(2) [simp del]

fun delay_rule :: "int \<Rightarrow> superviseRound list \<Rightarrow> int list \<Rightarrow> bool" where
  "delay_rule c rounds [] \<longleftrightarrow> True"
| "delay_rule c (r # rounds) (d # delays) \<longleftrightarrow>
     restarts r \<and> d = (if relayRestartResetAfter \<le> sr_elapsed r then relayRestartDelay else c)
     \<and> delay_rule (min relayRestartMaxDelay (2 * d)) rounds delays"
| "delay_rule c [] (d # delays) \<longleftrightarrow> False"

lemma supervise_general:
  assumes "supervise relayRestartDelay c rounds = (r, delays)" "relayRestartDelay \<le> c" "c \<le> relayRestartMaxDelay"
  shows "(\<forall>d \<in> set delays. relayRestartDelay \<le> d \<and> d \<le> relayRestartMaxDelay) \<and> delay_rule c rounds delays
    \<and> (r = None \<longleftrightarrow> list_all (\<lambda>x. restarts x \<and> sr_wait x = None) rounds)"
  using assms
proof (induction rounds arbitrary: c delays)
  case (Cons x rounds)
  define d where "d = resetRestartDelay c relayRestartDelay (sr_elapsed x) relayRestartResetAfter"
  have b: "relayRestartDelay \<le> d" "d \<le> relayRestartMaxDelay" using reset_delay_bounds Cons.prems by (auto simp: d_def)
  have n: "nextRestartDelay d relayRestartMaxDelay = min relayRestartMaxDelay (2 * d)" using b by (rule next_delay)
  have e: "d = (if relayRestartResetAfter \<le> sr_elapsed x then relayRestartDelay else c)" by (simp add: d_def resetRestartDelay_def)
  show ?case
  proof (cases "restarts x \<and> sr_wait x = None")
    case True
    then obtain delays' where s: "supervise relayRestartDelay (min relayRestartMaxDelay (2 * d)) rounds = (r, delays')" "delays = d # delays'"
      using Cons.prems(1) by (auto simp: supervise_Cons Let_def d_def [symmetric] n split: prod.splits)
    have "(\<forall>d \<in> set delays'. relayRestartDelay \<le> d \<and> d \<le> relayRestartMaxDelay) \<and> delay_rule (min relayRestartMaxDelay (2 * d)) rounds delays'
        \<and> (r = None \<longleftrightarrow> list_all (\<lambda>x. restarts x \<and> sr_wait x = None) rounds)"
      by (rule Cons.IH [OF s(1)]) (use b in simp_all)
    then show ?thesis unfolding s(2) delay_rule.simps using e True b by simp
  next
    case False
    then show ?thesis
      using Cons.prems(1) b e by (auto simp: supervise_Cons Let_def d_def [symmetric] split: if_splits option.splits prod.splits)
  qed
qed auto

text \<open>
  The restart delays stay within their bounds and follow the policy.  Whatever the sessions do, every delay lies between
  two and thirty seconds; a session is followed by a delay only when it failed because the relay exited and the context is
  alive; after a session of a minute or more the delay is two seconds again, otherwise it is twice the previous one up to thirty
  seconds; and the supervisor goes on just as long as this is so and no wait is interrupted.
\<close>
lemma supervise_delays:
  assumes "supervise relayRestartDelay relayRestartDelay rounds = (r, delays)"
  shows "(\<forall>d \<in> set delays. relayRestartDelay \<le> d \<and> d \<le> relayRestartMaxDelay) \<and> delay_rule relayRestartDelay rounds delays
    \<and> (r = None \<longleftrightarrow> list_all (\<lambda>x. restarts x \<and> sr_wait x = None) rounds)"
  using supervise_general [OF assms] by simp

definition exited_round :: superviseRound where
  "exited_round = \<lparr>sr_result = Some errRelayExited, sr_ctxErr = None, sr_elapsed = 5, sr_wait = None\<rparr>"

section \<open>Ownership\<close>

definition opened_handles :: "sessionEvent list \<Rightarrow> nat list" where
  "opened_handles events = concat (map (\<lambda>e. case e of OpenHandles hs \<Rightarrow> hs | _ \<Rightarrow> []) events)"

definition closed_handles :: "sessionEvent list \<Rightarrow> nat list" where
  "closed_handles events = concat (map (\<lambda>e. case e of CloseHandles hs \<Rightarrow> hs | _ \<Rightarrow> []) events)"

lemma handles_simps [simp]:
  "opened_handles [] = []" "closed_handles [] = []"
  "opened_handles (a @ b) = opened_handles a @ opened_handles b" "closed_handles (a @ b) = closed_handles a @ closed_handles b"
  "opened_handles (e # b) = (case e of OpenHandles hs \<Rightarrow> hs | _ \<Rightarrow> []) @ opened_handles b"
  "closed_handles (e # b) = (case e of CloseHandles hs \<Rightarrow> hs | _ \<Rightarrow> []) @ closed_handles b"
  by (simp_all add: opened_handles_def closed_handles_def)

lemma reap_handles [simp]: "opened_handles (reap g) = []" "closed_handles (reap g) = []"
  by (simp_all add: reap_def)

definition set_handles :: "forwardSet option \<Rightarrow> nat list" where
  "set_handles s = (case s of None \<Rightarrow> [] | Some f \<Rightarrow> if fs_closed f then [] else fs_closers f)"

lemma close_set_handles [simp]:
  "opened_handles (close_set closeErr s) = []" "mset (closed_handles (close_set closeErr s)) = mset (set_handles s)"
  by (simp_all add: close_set_def set_handles_def Set_Close_def split: option.split)

definition open_outcome_ok :: "nat list \<Rightarrow> nat list \<Rightarrow> nat list \<Rightarrow> forwardSet result \<Rightarrow> bool" where
  "open_outcome_ok before got closed r \<longleftrightarrow>
     (case r of Inr s \<Rightarrow> closed = [] \<and> set_handles (Some s) = before @ got | Inl e \<Rightarrow> mset closed = mset before + mset got)"

lemma openAll_loop_handles:
  "openAll_loop closeErr s ms answers = Some (closed, r) \<Longrightarrow> \<not> fs_closed s \<Longrightarrow> open_outcome_ok (fs_closers s) (obtained ms answers) closed r"
proof (induction closeErr s ms answers rule: openAll_loop.induct)
  case (3 closeErr s mapping ms closer err answers)
  then show ?case
    by (cases closer; cases err) (auto simp: open_outcome_ok_def Set_Close_def split: sum.splits)
qed (auto simp: open_outcome_ok_def set_handles_def)

lemma OpenAll_handles:
  "OpenAll False closeErr ms answers = Some (closed, r) \<Longrightarrow> open_outcome_ok [] (obtained ms answers) closed r"
  "OpenDatagramAll False closeErr ms answers = Some (closed, r) \<Longrightarrow> open_outcome_ok [] (obtained ms answers) closed r"
  using openAll_loop_handles [of closeErr emptySet ms answers closed r]
  by (simp_all add: OpenAll_def OpenDatagramAll_def openAll_def emptySet_def)

section \<open>What a session leaves behind\<close>

definition body_ok :: "goerr option \<times> sessionEvent list \<times> forwardSet option \<times> forwardSet option \<times> bool \<times> bool \<Rightarrow> bool" where
  "body_ok b \<longleftrightarrow> (case b of (r, events, forwards, datagrams, dialerSet, waited) \<Rightarrow>
     mset (opened_handles events) = mset (closed_handles events) + mset (set_handles forwards) + mset (set_handles datagrams)
     \<and> count_list events SetDialer = (if dialerSet then 1 else 0) \<and> ClearDialer \<notin> set events
     \<and> (waited \<longleftrightarrow> ReapProcess \<in> set events) \<and> set events \<inter> {CloseClient, CloseEndpoint, KillProcess} = {})"

lemma session_body_ok:
  assumes "session_body closeErr opts control env = Some b"
  shows "body_ok b"
proof (cases "se_handshake env")
  case (Inl err)
  then show ?thesis using assms by (auto simp: session_body_def body_ok_def reap_def set_handles_def split: if_splits)
next
  case (Inr caps)
  obtain closed r where tcp: "OpenAll False closeErr (po_reverse opts) (se_tcp env) = Some (closed, r)"
    using assms Inr by (cases "OpenAll False closeErr (po_reverse opts) (se_tcp env)") (auto simp: session_body_def Let_def)
  note h = OpenAll_handles(1) [OF tcp]
  show ?thesis
  proof (cases r)
    case (Inl err)
    then show ?thesis using assms Inr tcp h
      by (auto simp: session_body_def body_ok_def open_outcome_ok_def set_handles_def)
  next
    case f: (Inr forwards)
    obtain closed' r' where udp: "OpenDatagramAll False closeErr (po_reverseUDP opts) (se_udp env) = Some (closed', r')"
      using assms Inr tcp f
      by (cases "OpenDatagramAll False closeErr (po_reverseUDP opts) (se_udp env)") (auto simp: session_body_def Let_def)
    note h' = OpenAll_handles(2) [OF udp]
    show ?thesis
    proof (cases r')
      case (Inl err)
      then show ?thesis using assms Inr tcp f h udp h'
        by (auto simp: session_body_def body_ok_def open_outcome_ok_def set_handles_def [of None])
    next
      case d: (Inr datagrams)
      then show ?thesis using assms Inr tcp f h udp h'
        by (auto simp: session_body_def body_ok_def open_outcome_ok_def reap_def Let_def split: sessionEnd.splits if_splits)
    qed
  qed
qed

text \<open>
  C31: a relay session releases what it took, on every path.  When \<open>runSession\<close> returns, each handle of a reverse mapping that the
  relay handed out has been closed exactly once, the dialer has been cleared as often as it was set, and the context is
  cancelled.  When the process was started, the client and the endpoint are closed once, and the process has been waited
  for or killed, but never killed after it was waited for.
\<close>
theorem session_releases:
  assumes "runSession closeErr opts control env = Some (r, events)"
  shows "mset (opened_handles events) = mset (closed_handles events)
    \<and> count_list events SetDialer = count_list events ClearDialer \<and> last events = CancelContext
    \<and> (if se_stdin env = None \<and> se_stdout env = None \<and> se_start env = None
       then hd events = StartRelay (po_relayExe opts) (relayArguments opts) \<and> count_list events CloseClient = 1
         \<and> count_list events CloseEndpoint = 1
         \<and> (KillProcess \<in> set events \<longleftrightarrow> ReapProcess \<notin> set (takeWhile (\<lambda>e. e \<noteq> CloseClient) events))
       else events = [CancelContext] \<and> r \<noteq> None)"
proof (cases "se_stdin env = None \<and> se_stdout env = None \<and> se_start env = None")
  case False
  then show ?thesis using assms by (auto simp: runSession_def split: option.splits)
next
  case True
  then obtain b forwards datagrams dialerSet waited where
      b: "session_body closeErr opts control env = Some (r, b, forwards, datagrams, dialerSet, waited)"
      and e: "events = [StartRelay (po_relayExe opts) (relayArguments opts)] @ b @ (if dialerSet then [ClearDialer] else [])
                 @ session_cleanup closeErr forwards datagrams waited (se_final env) @ [CancelContext]"
    using assms by (auto simp: runSession_def split: option.splits prod.splits)
  have ok: "mset (opened_handles b) = mset (closed_handles b) + mset (set_handles forwards) + mset (set_handles datagrams)"
      "count_list b SetDialer = (if dialerSet then 1 else 0)" "ClearDialer \<notin> set b"
      "waited \<longleftrightarrow> ReapProcess \<in> set b" "CloseClient \<notin> set b" "CloseEndpoint \<notin> set b" "KillProcess \<notin> set b"
    using session_body_ok [OF b] by (auto simp: body_ok_def)
  let ?cs = "close_set closeErr forwards @ close_set closeErr datagrams"
  have cs: "y \<notin> set ?cs" "count_list ?cs y = 0" if "\<forall>hs. y \<noteq> CloseHandles hs" for y
    using that by (auto simp: close_set_def split: option.splits)
  let ?pre = "StartRelay (po_relayExe opts) (relayArguments opts) # b @ (if dialerSet then [ClearDialer] else []) @ ?cs"
  let ?tail = "[CloseEndpoint, CancelContext] @ (if waited then [] else KillProcess # reap (se_final env)) @ [CancelContext]"
  have e': "events = ?pre @ CloseClient # ?tail" by (simp add: e session_cleanup_def)
  have "CloseClient \<notin> set ?pre" using ok(5) cs(1) [of CloseClient] by simp
  then have "takeWhile (\<lambda>e. e \<noteq> CloseClient) events = ?pre" unfolding e' by (subst takeWhile_append2) auto
  then have pre: "ReapProcess \<in> set (takeWhile (\<lambda>e. e \<noteq> CloseClient) events) \<longleftrightarrow> waited"
    using ok(4) cs(1) [of ReapProcess] by simp
  have handles: "mset (opened_handles events) = mset (closed_handles events)"
    unfolding e using ok(1) by (simp add: session_cleanup_def)
  have counts: "count_list events SetDialer = count_list events ClearDialer" "count_list events CloseClient = 1"
    "count_list events CloseEndpoint = 1"
    unfolding e' using ok(2,3,5,6) cs(2) [of SetDialer] cs(2) [of ClearDialer] cs(2) [of CloseClient] cs(2) [of CloseEndpoint]
    by (simp_all add: reap_def count_notin)
  have kill: "KillProcess \<in> set events \<longleftrightarrow> \<not> waited"
    unfolding e' using ok(7) cs(1) [of KillProcess] by (auto simp: reap_def)
  show ?thesis unfolding pre using True handles counts kill by (simp add: e)
qed

definition plain_session :: sessionEnv where
  "plain_session = \<lparr>se_stdin = None, se_stdout = None, se_start = None, se_handshake = Inr 63, se_grace = None, se_final = Some ExitNil,
     se_tcp = [(Some 7, None)], se_udp = [], se_end = RelayEnded (Some IoEOF) None\<rparr>"

lemma plain_options_mappings: "po_reverse plain_options = [plain_mapping]" "po_reverseUDP plain_options = []"
  by code_simp+

lemma plain_session_run:
  "runSession (\<lambda>_. None) plain_options True plain_session = Some (Some errRelayExited,
     [StartRelay (po_relayExe plain_options) (relayArguments plain_options), SetDialer, OpenHandles [7], OpenHandles [], RebindLeases,
      ClearDialer, CloseHandles [7], CloseHandles [], CloseClient, CloseEndpoint, CancelContext, KillProcess, ReapProcess, CancelContext])"
  by (simp add: runSession_def session_body_def plain_session_def plain_options_mappings OpenAll_def OpenDatagramAll_def openAll_def emptySet_def
      sessionCompletion_def isRelayTransportExit_def after_grace_def reap_def session_cleanup_def close_set_def Set_Close_def)

theorem session_releases_witness:
  "\<exists>events. runSession (\<lambda>_. None) plain_options True plain_session = Some (Some errRelayExited, events)
     \<and> mset (opened_handles events) = mset (closed_handles events) \<and> count_list events SetDialer = count_list events ClearDialer"
  using session_releases [OF plain_session_run] plain_session_run by (intro exI conjI) auto

section \<open>Connectors of a persistent client\<close>

definition held :: "persistentState \<Rightarrow> nat list" where
  "held s = set_handles (pt_forwards s) @ set_handles (pt_datagrams s)"

definition persistent_ok :: "persistentState \<Rightarrow> bool" where
  "persistent_ok s \<longleftrightarrow> (pt_initialized s \<longleftrightarrow> pt_forwards s \<noteq> None) \<and> (pt_initialized s \<longleftrightarrow> pt_datagrams s \<noteq> None)
     \<and> (pt_initialized s \<and> pt_owner s \<noteq> 0 \<longrightarrow> pt_owner s = pt_peerInstanceID s)"

lemma set_handles_None [simp]: "set_handles None = []"
  by (simp add: set_handles_def)

lemma registerMappings_handles:
  assumes "registerMappings closeErr opts control tcp udp = Some (events, r)"
  shows "mset (opened_handles events) = mset (closed_handles events)
     + (case r of Inl e \<Rightarrow> {#} | Inr (f, d) \<Rightarrow> mset (set_handles (Some f)) + mset (set_handles (Some d)))"
proof -
  obtain closed r1 where t: "OpenAll False closeErr (po_reverse opts) tcp = Some (closed, r1)"
    using assms by (cases "OpenAll False closeErr (po_reverse opts) tcp") (auto simp: registerMappings_def Let_def)
  note h = OpenAll_handles(1) [OF t]
  show ?thesis
  proof (cases r1)
    case (Inl err)
    then show ?thesis using assms t h by (auto simp: registerMappings_def open_outcome_ok_def)
  next
    case f: (Inr forwards)
    obtain closed' r2 where u: "OpenDatagramAll False closeErr (po_reverseUDP opts) udp = Some (closed', r2)"
      using assms t f by (cases "OpenDatagramAll False closeErr (po_reverseUDP opts) udp") (auto simp: registerMappings_def Let_def)
    note h' = OpenAll_handles(2) [OF u]
    show ?thesis using assms t f u h h'
      by (cases r2) (auto simp: registerMappings_def open_outcome_ok_def Let_def)
  qed
qed

lemma adopt_peer_ok:
  assumes "adopt_peer closeErr i s = (s1, events)" "persistent_ok s"
  shows "persistent_ok s1" "mset (closed_handles events) + mset (held s1) = mset (held s)" "opened_handles events = []"
    "pt_forwards s1 = None \<longleftrightarrow> \<not> pt_initialized s1" "pt_datagrams s1 = None \<longleftrightarrow> \<not> pt_initialized s1"
  using assms by (auto simp: adopt_peer_def persistent_ok_def held_def Let_def split: if_splits)

lemma prepare_peer_ok:
  assumes "prepare_peer closeErr opts control env s = Some (s', events, r)" "persistent_ok s"
  shows "persistent_ok s' \<and> mset (opened_handles events) + mset (held s) = mset (closed_handles events) + mset (held s')"
proof -
  obtain s1 adopted where a: "adopt_peer closeErr (ce_instance env) s = (s1, adopted)" by fastforce
  note ok = adopt_peer_ok [OF a assms(2)]
  show ?thesis
  proof (cases "pt_initialized s1")
    case True
    then show ?thesis using assms(1) a ok by (auto simp: prepare_peer_def)
  next
    case False
    then obtain ev res where g: "registerMappings closeErr opts control (ce_tcp env) (ce_udp env) = Some (ev, res)"
      using assms(1) a
      by (cases "registerMappings closeErr opts control (ce_tcp env) (ce_udp env)") (auto simp: prepare_peer_def Let_def)
    have "held s1 = []" using False ok(4,5) by (simp add: held_def)
    then show ?thesis
      using assms(1) a g False ok registerMappings_handles [OF g]
      by (cases res) (auto simp: prepare_peer_def persistent_ok_def held_def Let_def split: if_splits prod.splits)
  qed
qed

lemma connector_cleanup_handles [simp]:
  "opened_handles (connector_cleanup w f) = []" "closed_handles (connector_cleanup w f) = []"
  by (simp_all add: connector_cleanup_def)

lemma connector_ok:
  assumes "runPersistentConnector closeErr opts control env s = Some (s', events, r)" "persistent_ok s"
  shows "persistent_ok s' \<and> mset (opened_handles events) + mset (held s) = mset (closed_handles events) + mset (held s')"
proof (cases "ce_stdin env = None \<and> ce_stdout env = None \<and> ce_start env = None \<and> ce_attach env = None \<and> isOk (ce_handshake env)")
  case False
  then show ?thesis
    using assms by (auto simp: runPersistentConnector_def Let_def split: option.splits sum.splits if_splits)
next
  case True
  then obtain caps where "ce_handshake env = Inr caps" by (cases "ce_handshake env") auto
  with True assms(1) obtain s1 ev r1 where p: "prepare_peer closeErr opts control env s = Some (s1, ev, r1)"
    by (cases "prepare_peer closeErr opts control env s") (auto simp: runPersistentConnector_def Let_def)
  show ?thesis
    using prepare_peer_ok [OF p assms(2)] assms(1) True p \<open>ce_handshake env = Inr caps\<close>
    by (cases r1) (auto simp: runPersistentConnector_def Let_def split: prod.splits if_splits)
qed

lemma ledger_trans:
  fixes a :: "'a multiset"
  assumes "a + h = c + h1" "b + h1 = d + h2"
  shows "a + b + h = c + d + h2"
proof -
  have "a + b + h = (a + h) + b" by (simp add: ac_simps)
  also have "\<dots> = c + (b + h1)" unfolding assms(1) by (simp add: ac_simps)
  also have "\<dots> = c + d + h2" unfolding assms(2) by (simp add: ac_simps)
  finally show ?thesis .
qed

lemma persistent_rounds_ok:
  "persistent_rounds closeErr opts control connectors s = Some (s', events, rounds) \<Longrightarrow> persistent_ok s \<Longrightarrow>
     persistent_ok s' \<and> mset (opened_handles events) + mset (held s) = mset (closed_handles events) + mset (held s')"
proof (induction closeErr opts control connectors s arbitrary: s' events rounds rule: persistent_rounds.induct)
  case (2 closeErr opts control env round rest s)
  obtain s1 ev r where c: "runPersistentConnector closeErr opts control env s = Some (s1, ev, r)"
    using "2.prems"(1) by (auto simp: Let_def split: option.splits)
  note ok = connector_ok [OF c "2.prems"(2)]
  show ?case
  proof (cases "fst (supervise relayRestartDelay relayRestartDelay [round\<lparr>sr_result := r\<rparr>])")
    case (Some out)
    then show ?thesis using "2.prems"(1) c ok by (auto simp: Let_def)
  next
    case None
    then obtain s2 later rs where n: "persistent_rounds closeErr opts control rest s1 = Some (s2, later, rs)"
        "s' = s2" "events = ev @ later"
      using "2.prems"(1) c by (auto simp: Let_def split: option.splits)
    have "persistent_ok s2 \<and> mset (opened_handles later) + mset (held s1) = mset (closed_handles later) + mset (held s2)"
      by (rule "2.IH" [OF c refl refl refl None n(1)]) (use ok in simp)
    then show ?thesis using ok n(2,3) ledger_trans [of "mset (opened_handles ev)" "mset (held s)"] by simp
  qed
qed auto

text \<open>
  C30: connectors come and go without a mapping being lost, kept for the wrong peer, or closed twice.  After any sequence of
  connectors, with any failures, every handle that a peer handed out either has been closed exactly once or is held in
  the state of the client; the mappings are complete or absent; when they were registered with a peer that names its
  instance, that instance is the one now attached; and when the persistent client stops, everything has been closed.
\<close>
theorem persistent_mappings:
  assumes "persistent_rounds closeErr opts control connectors newPersistent = Some (s, events, rounds)"
  shows "mset (opened_handles events) = mset (closed_handles events) + mset (held s)
    \<and> (pt_initialized s \<longleftrightarrow> pt_forwards s \<noteq> None) \<and> (pt_initialized s \<longleftrightarrow> pt_datagrams s \<noteq> None)
    \<and> (pt_initialized s \<and> pt_owner s \<noteq> 0 \<longrightarrow> pt_owner s = pt_peerInstanceID s)
    \<and> (\<forall>r delays total. runPersistent closeErr opts control connectors = Some (r, delays, total) \<longrightarrow>
         mset (opened_handles total) = mset (closed_handles total))"
proof -
  have "persistent_ok newPersistent" "held newPersistent = []" by (simp_all add: persistent_ok_def newPersistent_def held_def)
  with persistent_rounds_ok [OF assms] have ok: "persistent_ok s"
      "mset (opened_handles events) = mset (closed_handles events) + mset (held s)" by simp_all
  then show ?thesis
    using assms by (auto simp: persistent_ok_def runPersistent_def held_def split: prod.splits option.splits)
qed

definition plain_connector :: "u64 \<Rightarrow> nat \<Rightarrow> connectorEnv \<times> superviseRound" where
  "plain_connector i h = (\<lparr>ce_stdin = None, ce_stdout = None, ce_start = None, ce_attach = None, ce_handshake = Inr 63, ce_instance = i,
     ce_grace = None, ce_final = Some ExitNil, ce_tcp = [(Some h, None)], ce_udp = [], ce_end = ConnectorExited ExitNil\<rparr>, exited_round)"

lemma plain_connectors_run:
  "\<exists>events rounds s. persistent_rounds (\<lambda>_. None) plain_options False [plain_connector 5 1, plain_connector 6 2] newPersistent
      = Some (s, events, rounds) \<and> pt_initialized s \<and> pt_owner s = 6 \<and> held s = [2] \<and> closed_handles events = [1]"
  by (simp add: plain_connector_def runPersistentConnector_def prepare_peer_def adopt_peer_def registerMappings_def newPersistent_def
      plain_options_mappings OpenAll_def OpenDatagramAll_def openAll_def emptySet_def connector_result_def classifyRelayProcessExit_def
      supervise_Cons restarts_def errRelayExited_def exited_round_def close_set_def Set_Close_def held_def set_handles_def Let_def)

theorem persistent_mappings_witness:
  "\<exists>events rounds s. persistent_rounds (\<lambda>_. None) plain_options False [plain_connector 5 1, plain_connector 6 2] newPersistent
      = Some (s, events, rounds) \<and> mset (opened_handles events) = {#1, 2#} \<and> pt_owner s = pt_peerInstanceID s"
proof -
  obtain events rounds s where r: "persistent_rounds (\<lambda>_. None) plain_options False [plain_connector 5 1, plain_connector 6 2] newPersistent
      = Some (s, events, rounds)" and s: "pt_initialized s" "pt_owner s = 6" "held s = [2]" "closed_handles events = [1]"
    using plain_connectors_run by blast
  from persistent_mappings [OF r] s have "mset (opened_handles events) = {#1, 2#}" "pt_owner s = pt_peerInstanceID s"
    by simp_all
  with r show ?thesis by blast
qed

end
