(* ===== verification/ProxyEnv.thy ===== *)
theory ProxyEnv
  imports ProxyPorts Upstream
begin

text \<open>
  The environment of a connector (src/cmd/wsl-proxy/main.go) and the file that names the proxy's listeners
  (listen_status.go).
\<close>

section \<open>Environment variables\<close>

abbreviation slash :: byte where "slash \<equiv> 47"

definition wslenv_base :: "bytes \<Rightarrow> bytes" where
  "wslenv_base entry = (case IndexByte entry slash of None \<Rightarrow> entry | Some n \<Rightarrow> take n entry)"

text \<open>The first loop, with the names seen so far and the result so far.\<close>

fun normalize_entries :: "bytes list \<Rightarrow> bytes list \<Rightarrow> bytes list \<Rightarrow> bytes list \<Rightarrow> bytes list \<times> bytes list" where
  "normalize_entries required [] seen result = (seen, result)"
| "normalize_entries required (entry # rest) seen result =
     (if entry = [] then normalize_entries required rest seen result
      else let base = wslenv_base entry in
        if base \<in> set required
        then if base \<notin> set seen then normalize_entries required rest (base # seen) (result @ [base])
             else normalize_entries required rest seen result
        else normalize_entries required rest seen (result @ [entry]))"

definition normalizeWSLENV :: "bytes list \<Rightarrow> bytes list \<Rightarrow> bytes list" where
  "normalizeWSLENV entries required =
     (case normalize_entries required entries [] [] of
        (seen, result) \<Rightarrow> result @ filter (\<lambda>name. name \<notin> set seen) required)"

definition connector_names :: "bytes list" where
  "connector_names = [str ''WSL_WIN_RELAY_BROKER_ENDPOINT'', str ''WSL_WIN_RELAY_ATTACH_TOKEN'']"

text \<open>\<open>os.Getenv\<close> on the list that \<open>os.Environ\<close> returns, and the replacement of the first entry that starts with a key.\<close>

fun getenv :: "bytes \<Rightarrow> bytes list \<Rightarrow> bytes" where
  "getenv key [] = []"
| "getenv key (entry # rest) = (if HasPrefix entry key then drop (length key) entry else getenv key rest)"

fun replace_entry :: "bytes \<Rightarrow> bytes \<Rightarrow> bytes list \<Rightarrow> bytes list" where
  "replace_entry key new [] = [new]"
| "replace_entry key new (entry # rest) =
     (if HasPrefix entry key then new # rest else entry # replace_entry key new rest)"

definition connectorEnvironment :: "bytes list \<Rightarrow> bytes list" where
  "connectorEnvironment env =
     (let entries = normalizeWSLENV (split_byte 58 (getenv (str ''WSLENV='') env)) connector_names
      in replace_entry (str ''WSLENV='') (str ''WSLENV='' @ strings_Join entries [58]) env)"

text \<open>The first loop without its accumulators.\<close>

fun kept :: "bytes list \<Rightarrow> bytes list \<Rightarrow> bytes list \<Rightarrow> bytes list" where
  "kept required seen [] = []"
| "kept required seen (e # es) =
     (if e = [] then kept required seen es
      else if wslenv_base e \<in> set required
      then if wslenv_base e \<notin> set seen then wslenv_base e # kept required (wslenv_base e # seen) es else kept required seen es
      else e # kept required seen es)"

definition mentioned :: "bytes list \<Rightarrow> bytes list \<Rightarrow> bytes set" where
  "mentioned required es = {n \<in> set required. \<exists>e \<in> set es. e \<noteq> [] \<and> wslenv_base e = n}"

lemma normalize_entries_kept:
  "snd (normalize_entries required es seen result) = result @ kept required seen es"
  "set (fst (normalize_entries required es seen result)) = set seen \<union> mentioned required es"
  by (induction required es seen result rule: normalize_entries.induct) (auto simp: Let_def mentioned_def)

lemma normalize_eq:
  "normalizeWSLENV es required = kept required [] es @ filter (\<lambda>n. n \<notin> mentioned required es) required"
  using normalize_entries_kept [of required es "[]" "[]"]
  by (cases "normalize_entries required es [] []") (simp add: normalizeWSLENV_def)

definition plain_names :: "bytes list \<Rightarrow> bool" where
  "plain_names required \<longleftrightarrow> distinct required \<and> list_all (\<lambda>n. n \<noteq> [] \<and> wslenv_base n = n \<and> 58 \<notin> set n) required"

lemma kept_others:
  "plain_names required \<Longrightarrow> filter (\<lambda>e. wslenv_base e \<notin> set required) (kept required seen es)
     = filter (\<lambda>e. e \<noteq> [] \<and> wslenv_base e \<notin> set required) es"
  by (induction required seen es rule: kept.induct) (auto simp: plain_names_def list_all_iff)

lemma kept_count:
  "plain_names required \<Longrightarrow> n \<in> set required \<Longrightarrow>
     count_list (kept required seen es) n = (if n \<notin> set seen \<and> n \<in> mentioned required es then 1 else 0)"
  by (induction required seen es rule: kept.induct) (auto simp: mentioned_def plain_names_def list_all_iff)

lemma kept_required: "plain_names required \<Longrightarrow> e \<in> set (kept required seen es) \<Longrightarrow> e \<noteq> [] \<and> (e \<in> set required \<or> e \<in> set es \<and> wslenv_base e \<notin> set required)"
  by (induction required seen es rule: kept.induct) (auto simp: plain_names_def list_all_iff split: if_splits)

lemma kept_same:
  "plain_names required \<Longrightarrow> [] \<notin> set es \<Longrightarrow> (\<And>e. e \<in> set es \<Longrightarrow> wslenv_base e \<in> set required \<Longrightarrow> e \<in> set required) \<Longrightarrow>
     (\<And>n. n \<in> set required \<Longrightarrow> count_list es n + count_list seen n \<le> 1) \<Longrightarrow> kept required seen es = es"
proof (induction required seen es rule: kept.induct)
  case (2 required seen e es)
  show ?case
  proof (cases "wslenv_base e \<in> set required")
    case True
    then have e: "e \<in> set required" using "2.prems"(3) by simp
    then have b: "wslenv_base e = e" using "2.prems"(1) by (auto simp: plain_names_def list_all_iff)
    have "count_list seen e = 0" using "2.prems"(4) [OF e] by simp
    then have "e \<notin> set seen" by (simp add: count_list_0_iff)
    moreover have "kept required (e # seen) es = es"
    proof (rule "2.IH"(2) [unfolded b])
      fix n assume n: "n \<in> set required"
      show "count_list es n + count_list (e # seen) n \<le> 1" using "2.prems"(4) [OF n] by auto
    qed (use "2.prems" e \<open>e \<notin> set seen\<close> b in auto)
    ultimately show ?thesis using e b "2.prems"(2) by auto
  next
    case False
    have "count_list es n + count_list seen n \<le> 1" if "n \<in> set required" for n
      using "2.prems"(4) [OF that] by (simp split: if_splits)
    then have "kept required seen es = es" using False "2.prems"(1,2,3) by (intro "2.IH"(4)) auto
    then show ?thesis using False "2.prems"(2) by auto
  qed
qed simp

definition normal_form :: "bytes list \<Rightarrow> bytes list \<Rightarrow> bool" where
  "normal_form required r \<longleftrightarrow> list_all (\<lambda>n. count_list r n = 1) required \<and> [] \<notin> set r
     \<and> list_all (\<lambda>e. wslenv_base e \<in> set required \<longrightarrow> e \<in> set required) r"

lemma count_distinct: "distinct xs \<Longrightarrow> count_list xs x = (if x \<in> set xs then 1 else 0)"
  by (induction xs) auto

lemma normalize_normal:
  assumes "plain_names required"
  shows "normal_form required (normalizeWSLENV es required)"
    and "filter (\<lambda>e. wslenv_base e \<notin> set required) (normalizeWSLENV es required)
       = filter (\<lambda>e. e \<noteq> [] \<and> wslenv_base e \<notin> set required) es"
    and "set (normalizeWSLENV es required) \<subseteq> set required \<union> set es"
proof -
  have d: "distinct required" and b: "\<And>n. n \<in> set required \<Longrightarrow> n \<noteq> [] \<and> wslenv_base n = n"
    using assms by (auto simp: plain_names_def list_all_iff)
  have "count_list (normalizeWSLENV es required) n = 1" if "n \<in> set required" for n
    using that kept_count [OF assms that, of "[]" es] count_distinct [OF distinct_filter [OF d]] by (simp add: normalize_eq)
  moreover have r: "e \<noteq> [] \<and> (e \<in> set required \<or> e \<in> set es \<and> wslenv_base e \<notin> set required)" if "e \<in> set (normalizeWSLENV es required)" for e
    using that kept_required [OF assms, of e "[]" es] b by (auto simp: normalize_eq)
  ultimately show "normal_form required (normalizeWSLENV es required)" by (auto simp: normal_form_def list_all_iff)
  have "filter (\<lambda>e. wslenv_base e \<notin> set required) (filter P required) = []" for P
    using b by (auto simp: filter_empty_conv)
  then show "filter (\<lambda>e. wslenv_base e \<notin> set required) (normalizeWSLENV es required)
       = filter (\<lambda>e. e \<noteq> [] \<and> wslenv_base e \<notin> set required) es"
    using kept_others [OF assms] by (simp add: normalize_eq)
  show "set (normalizeWSLENV es required) \<subseteq> set required \<union> set es" using r by blast
qed

lemma normalize_idem:
  assumes "plain_names required" "normal_form required r"
  shows "normalizeWSLENV r required = r"
proof -
  have n: "\<And>n. n \<in> set required \<Longrightarrow> count_list r n = 1" "[] \<notin> set r"
      "\<And>e. e \<in> set r \<Longrightarrow> wslenv_base e \<in> set required \<Longrightarrow> e \<in> set required"
    using assms(2) by (auto simp: normal_form_def list_all_iff)
  have "kept required [] r = r" by (rule kept_same [OF assms(1) n(2,3)]) (use n(1) in auto)
  moreover have "n \<in> mentioned required r" if "n \<in> set required" for n
  proof -
    have "n \<in> set r" using n(1) [OF that] count_notin [of n r] by fastforce
    moreover have "n \<noteq> [] \<and> wslenv_base n = n" using assms(1) that by (auto simp: plain_names_def list_all_iff)
    ultimately show ?thesis using that by (auto simp: mentioned_def)
  qed
  ultimately show ?thesis by (simp add: normalize_eq)
qed

lemma getenv_replace: "getenv key (replace_entry key (key @ v) env) = v"
  by (induction env) (auto simp: HasPrefix_def)

lemma replace_others: "HasPrefix new key \<Longrightarrow> filter (\<lambda>e. \<not> HasPrefix e key) (replace_entry key new env) = filter (\<lambda>e. \<not> HasPrefix e key) env"
  by (induction env) auto

lemma replace_replace: "HasPrefix new key \<Longrightarrow> replace_entry key new (replace_entry key new env) = replace_entry key new env"
  by (induction env) auto

lemma split_byte_parts: "s \<in> set (split_byte c t) \<Longrightarrow> c \<notin> set s"
proof (induction t arbitrary: s)
  case (Cons b t)
  have "split_byte c t \<noteq> []" by (cases t) auto
  then have "hd (split_byte c t) \<in> set (split_byte c t)" "set (tl (split_byte c t)) \<subseteq> set (split_byte c t)"
    by (simp_all add: set_mono_suffix [OF suffix_tl])
  then show ?case using Cons by (auto split: if_splits)
qed simp

lemma connector_names_plain: "plain_names connector_names"
  by code_simp

lemma normalize_split_join:
  "split_byte 58 (strings_Join (normalizeWSLENV (split_byte 58 v) connector_names) [58]) = normalizeWSLENV (split_byte 58 v) connector_names"
proof (rule split_byte_Join)
  let ?r = "normalizeWSLENV (split_byte 58 v) connector_names"
  have "normal_form connector_names ?r" by (rule normalize_normal(1) [OF connector_names_plain])
  then show "?r \<noteq> []" by (auto simp: normal_form_def connector_names_def)
  show "58 \<notin> set s" if "s \<in> set ?r" for s
    using that normalize_normal(3) [OF connector_names_plain, of "split_byte 58 v"] split_byte_parts [of s 58 v] connector_names_plain
    by (auto simp: plain_names_def list_all_iff)
qed

text \<open>
  C40: the connector gets the two variables it needs through \<open>WSLENV\<close>, and everything else as it was.  The new list has each
  required name exactly once and without a flag, no empty entry, and the other entries in their order with their flags;
  the rest of the environment is unchanged; and doing it again changes nothing.
\<close>
theorem connector_environment:
  "\<exists>entries. getenv (str ''WSLENV='') (connectorEnvironment env) = strings_Join entries [58]
     \<and> split_byte 58 (strings_Join entries [58]) = entries \<and> normal_form connector_names entries
     \<and> filter (\<lambda>e. wslenv_base e \<notin> set connector_names) entries
        = filter (\<lambda>e. e \<noteq> [] \<and> wslenv_base e \<notin> set connector_names) (split_byte 58 (getenv (str ''WSLENV='') env))
     \<and> filter (\<lambda>e. \<not> HasPrefix e (str ''WSLENV='')) (connectorEnvironment env) = filter (\<lambda>e. \<not> HasPrefix e (str ''WSLENV='')) env
     \<and> connectorEnvironment (connectorEnvironment env) = connectorEnvironment env"
proof -
  let ?k = "str ''WSLENV=''"
  let ?r = "normalizeWSLENV (split_byte 58 (getenv ?k env)) connector_names"
  have c: "connectorEnvironment env = replace_entry ?k (?k @ strings_Join ?r [58]) env" by (simp add: connectorEnvironment_def)
  have p: "HasPrefix (?k @ v) ?k" for v by (simp add: HasPrefix_def)
  have n: "normal_form connector_names ?r" by (rule normalize_normal(1) [OF connector_names_plain])
  have g: "getenv ?k (connectorEnvironment env) = strings_Join ?r [58]" unfolding c by (rule getenv_replace)
  have "connectorEnvironment (connectorEnvironment env) = replace_entry ?k (?k @ strings_Join ?r [58]) (connectorEnvironment env)"
    by (simp only: connectorEnvironment_def [of "connectorEnvironment env"] g normalize_split_join normalize_idem [OF connector_names_plain n] Let_def)
  then have "connectorEnvironment (connectorEnvironment env) = connectorEnvironment env"
    unfolding c replace_replace [OF p] .
  then show ?thesis
    using g n normalize_normal(2) [OF connector_names_plain] normalize_split_join replace_others [OF p, where env = env]
    by (intro exI [of _ ?r]) (simp add: c)
qed

section \<open>The file of the listeners\<close>

text \<open>
  The files of the host by path.  The operating system decides which call fails; the document is what the JSON encoder
  returns, and \<open>pl_temporary\<close> is the path that \<open>CreateTemp\<close> chose.
\<close>

datatype fileNode = Regular bytes | Symlink | OtherNode

type_synonym files = "bytes \<Rightarrow> fileNode option"

record publishEnv =
  pl_defaultPath :: bytes
  pl_lstat :: "goerr option"
  pl_document :: "bytes result"
  pl_mkdir :: "goerr option"
  pl_create :: "goerr option"
  pl_temporary :: bytes
  pl_chmod :: "goerr option"
  pl_write :: "goerr option"
  pl_sync :: "goerr option"
  pl_close :: "goerr option"
  pl_rename :: "goerr option"
  pl_removeFails :: bool

definition listenerAddress :: "bytes option \<Rightarrow> bytes" where
  "listenerAddress listener = (case listener of None \<Rightarrow> [] | Some a \<Rightarrow> a)"

text \<open>A missing file is told by \<open>fs\<close>; \<open>pl_lstat\<close> is another failure of \<open>Lstat\<close>.\<close>

definition rejectStatusSymlink :: "publishEnv \<Rightarrow> files \<Rightarrow> bytes \<Rightarrow> goerr option" where
  "rejectStatusSymlink env fs path =
     (case pl_lstat env of
        Some err \<Rightarrow> if err_is err OsErrNotExist then None else Some (Upstream.wrap_err (str ''inspect listener status path'') err)
      | None \<Rightarrow>
          (case fs path of
             None \<Rightarrow> None
           | Some Symlink \<Rightarrow> Some (ErrText (str ''listener status path is a symlink: '' @ path))
           | Some OtherNode \<Rightarrow> Some (ErrText (str ''listener status path is not a regular file: '' @ path))
           | Some (Regular data) \<Rightarrow> None))"

definition remove_file :: "publishEnv \<Rightarrow> files \<Rightarrow> bytes \<Rightarrow> files" where
  "remove_file env fs path = (if pl_removeFails env then fs else fs(path := None))"

text \<open>The path and the document are what the returned cleanup remembers; \<open>None\<close> when nothing was published.\<close>

definition publishListenStatus :: "publishEnv \<Rightarrow> files \<Rightarrow> bytes \<Rightarrow> files \<times> (bytes \<times> bytes) option result" where
  "publishListenStatus env fs given =
     (if given = [] then (fs, Inr None)
      else let path = (if given = str ''auto'' then pl_defaultPath env else given) in
      case rejectStatusSymlink env fs path of
        Some err \<Rightarrow> (fs, Inl err)
      | None \<Rightarrow>
      (case pl_document env of
         Inl err \<Rightarrow> (fs, Inl (Upstream.wrap_err (str ''encode listener status'') err))
       | Inr document \<Rightarrow>
           let data = document @ [10] in
           (case pl_mkdir env of
              Some err \<Rightarrow> (fs, Inl (Upstream.wrap_err (str ''create listener status directory'') err))
            | None \<Rightarrow>
           (case pl_create env of
              Some err \<Rightarrow> (fs, Inl (Upstream.wrap_err (str ''create listener status temporary file'') err))
            | None \<Rightarrow>
           let temporary = pl_temporary env; fs1 = fs(temporary \<mapsto> Regular []) in
           (case pl_chmod env of
              Some err \<Rightarrow> (remove_file env fs1 temporary, Inl (Upstream.wrap_err (str ''protect listener status temporary file'') err))
            | None \<Rightarrow>
           (case pl_write env of
              Some err \<Rightarrow> (remove_file env fs1 temporary, Inl (Upstream.wrap_err (str ''write listener status'') err))
            | None \<Rightarrow>
           let fs2 = fs1(temporary \<mapsto> Regular data) in
           (case pl_sync env of
              Some err \<Rightarrow> (remove_file env fs2 temporary, Inl (Upstream.wrap_err (str ''sync listener status'') err))
            | None \<Rightarrow>
           (case pl_close env of
              Some err \<Rightarrow> (remove_file env fs2 temporary, Inl (Upstream.wrap_err (str ''close listener status'') err))
            | None \<Rightarrow>
           (case pl_rename env of
              Some err \<Rightarrow> (remove_file env fs2 temporary, Inl (Upstream.wrap_err (str ''publish listener status'') err))
            | None \<Rightarrow> (fs2(temporary := None, path \<mapsto> Regular data), Inr (Some (path, data))))))))))))"

definition removeOwnedListenStatus :: "publishEnv \<Rightarrow> files \<Rightarrow> bytes \<times> bytes \<Rightarrow> files" where
  "removeOwnedListenStatus env fs mine = (case mine of (path, expected) \<Rightarrow>
     if fs path = Some (Regular expected) then remove_file env fs path else fs)"

text \<open>
  The file of the listeners is replaced as a whole or not at all, and a proxy removes only its own.  When publishing fails,
  no file but the temporary one differs, and that one is gone unless the system refuses to remove it; when it succeeds, the
  path holds the complete document, it held no symbolic link or special file before, and nothing else has changed.  The
  cleanup removes the file just when it still holds this document, so the status of a later proxy survives.
\<close>
lemma listen_status_atomic:
  assumes "publishListenStatus env fs given = (fs', r)" "fs (pl_temporary env) = None"
    and "case pl_lstat env of None \<Rightarrow> True | Some err \<Rightarrow> \<not> err_is err OsErrNotExist"
    and "pl_temporary env \<noteq> (if given = str ''auto'' then pl_defaultPath env else given)"
  shows "case r of
      Inl err \<Rightarrow> (\<forall>p. p \<noteq> pl_temporary env \<longrightarrow> fs' p = fs p) \<and> (pl_removeFails env \<or> fs' = fs)
    | Inr None \<Rightarrow> given = [] \<and> fs' = fs
    | Inr (Some (path, data)) \<Rightarrow>
        path = (if given = str ''auto'' then pl_defaultPath env else given) \<and> fs' = fs(path \<mapsto> Regular data)
        \<and> (\<exists>document. pl_document env = Inr document \<and> data = document @ [10])
        \<and> (fs path = None \<or> (\<exists>old. fs path = Some (Regular old)))
        \<and> (\<forall>later. removeOwnedListenStatus env later (path, data)
             = (if later path = Some (Regular data) \<and> \<not> pl_removeFails env then later(path := None) else later))"
proof -
  have t: "fs(pl_temporary env := None) = fs" using assms(2) by auto
  show ?thesis
  proof (cases "given = []")
    case False
    then show ?thesis
      using assms t
      by (auto simp: publishListenStatus_def rejectStatusSymlink_def remove_file_def removeOwnedListenStatus_def Let_def fun_upd_twist
          split: option.splits sum.splits fileNode.splits if_splits)
  qed (use assms in \<open>auto simp: publishListenStatus_def\<close>)
qed

end
