(* ===== verification/ProxyRun.thy ===== *)
theory ProxyRun
  imports ProxySession ProxyEnv ListenAddr
begin

text \<open>
  \<open>run\<close> of the proxy command (src/cmd/wsl-proxy/main.go): the listeners, the status file, the services it starts, and what ends
  it.  The listeners come from \<open>ListenAddr\<close>, the status file from \<open>ProxyEnv\<close>; the outcome of the services is an argument.
\<close>

datatype proxyService = SocksService | HttpService | ControlService | AutoService | AutoUDPService

datatype runEvent =
    Listening nat
  | ClosedListener nat
  | StatusPublished
  | StatusRemoved
  | ServiceStarted proxyService
  | LeaseRetries int
  | WatchersReset proxyService
  | SessionsStarted bool
  | ContextCancelled

text \<open>What ends \<open>run\<close>: the sessions, a service with the error of the context at that time, or the parent context.\<close>

datatype runEnd = SessionsEnded "goerr option" | ServiceEnded proxyService "goerr option" "goerr option" | ParentDone goerr

record runEnv =
  rn_interfaces :: "netInterface list result"
  rn_probe :: "nat \<Rightarrow> goerr option"
  rn_listen :: listenEnv
  rn_listenHTTP :: listenEnv
  rn_address :: "nat \<Rightarrow> bytes"
  rn_publish :: publishEnv
  rn_files :: files
  rn_final :: files
  rn_end :: runEnd

text \<open>The interval of the ticker of \<open>retryMissingLeases\<close> in nanoseconds; each tick is a \<open>RetryMissing\<close> of \<open>ListenControl\<close>.\<close>

definition lease_retry_interval :: "int \<Rightarrow> int" where
  "lease_retry_interval timeout =
     (let i = (if timeout < 1000000000 then 1000000000 else timeout) in if 10000000000 < i then 10000000000 else i)"

definition clear_hooks :: "proxyOptions \<Rightarrow> runEvent list" where
  "clear_hooks opts =
     (if po_autoForward opts then WatchersReset AutoService # (if po_autoForwardUDP opts then [WatchersReset AutoUDPService] else []) else [])"

definition proxy_services :: "proxyOptions \<Rightarrow> proxyService list" where
  "proxy_services opts =
     (if po_controlSocket opts \<noteq> [] then [ControlService] else []) @ [SocksService]
     @ (if po_httpListen opts \<noteq> [] then [HttpService] else [])
     @ (if po_autoForward opts then AutoService # (if po_autoForwardUDP opts then [AutoUDPService] else []) else [])"

definition run_result :: "proxyOptions \<Rightarrow> runEnd \<Rightarrow> goerr option option" where
  "run_result opts e =
     (case e of
        SessionsEnded err \<Rightarrow> Some err
      | ServiceEnded service err ctxErr \<Rightarrow>
          if service \<in> set (proxy_services opts) then Some (sessionCompletion ctxErr err) else None
      | ParentDone err \<Rightarrow> Some (Some err))"

definition start_events :: "proxyOptions \<Rightarrow> runEvent list" where
  "start_events opts =
     map ServiceStarted (filter (\<lambda>s. s = ControlService) (proxy_services opts))
     @ (if po_controlSocket opts \<noteq> [] then [LeaseRetries (lease_retry_interval (po_relayDialTimeout opts))] else [])
     @ map ServiceStarted (filter (\<lambda>s. s \<noteq> ControlService) (proxy_services opts))
     @ [SessionsStarted (po_brokerMode opts)]"

definition closed_all :: "nat list \<Rightarrow> runEvent list" where
  "closed_all = map ClosedListener"

text \<open>\<open>run\<close> after the SOCKS listener; the deferred calls run in the reverse order.\<close>

definition run_http :: "proxyOptions \<Rightarrow> runEnv \<Rightarrow> bytes \<Rightarrow> runEvent list \<times> nat list \<times> nat option result" where
  "run_http opts env socksAddress =
     (if po_httpListen opts = [] then ([], [], Inr None)
      else case SplitHostPort socksAddress of
        Inl err \<Rightarrow> ([], [], Inl (Upstream.wrap_err (str ''parse selected SOCKS5 listener '' @ socksAddress) err))
      | Inr (socksHost, port) \<Rightarrow>
          (case ListenTCPOnHost (po_httpListen opts) socksHost (rn_interfaces env) (rn_probe env) (rn_listenHTTP env) of
             (closed, Inl err) \<Rightarrow> (closed_all closed, closed, Inl (Upstream.wrap_err (str ''HTTP proxy listen on '' @ po_httpListen opts) err))
           | (closed, Inr (h, address)) \<Rightarrow> (closed_all closed @ [Listening h], closed, Inr (Some h))))"

definition run_serving :: "proxyOptions \<Rightarrow> runEnv \<Rightarrow> (files \<times> runEvent list \<times> goerr option) option" where
  "run_serving opts env =
     (case publishListenStatus (rn_publish env) (rn_files env) (po_listenStatusFile opts) of
        (fs, Inl err) \<Rightarrow> Some (fs, [], Some (Upstream.wrap_err (str ''publish listener status'') err))
      | (fs, Inr mine) \<Rightarrow>
          (case run_result opts (rn_end env) of
             None \<Rightarrow> None
           | Some r \<Rightarrow>
               (case mine of
                  None \<Rightarrow> Some (fs, start_events opts, r)
                | Some m \<Rightarrow>
                    Some (removeOwnedListenStatus (rn_publish env) (rn_final env) m, [StatusPublished] @ start_events opts @ [StatusRemoved], r))))"

definition proxy_run :: "proxyOptions \<Rightarrow> runEnv \<Rightarrow> (files \<times> runEvent list \<times> goerr option) option" where
  "proxy_run opts env =
     (case ListenTCP (po_socksListen opts) (rn_interfaces env) (rn_probe env) (rn_listen env) of
        (closed, Inl err) \<Rightarrow>
          Some (rn_files env, closed_all closed @ [ContextCancelled], Some (Upstream.wrap_err (str ''SOCKS5 listen on '' @ po_socksListen opts) err))
      | (closed, Inr (socks, socksAddress)) \<Rightarrow>
          let before = closed_all closed @ [Listening socks]; after = [ClosedListener socks, ContextCancelled] in
          (case run_http opts env socksAddress of
             (events, _, Inl err) \<Rightarrow> Some (rn_files env, before @ events @ after, Some err)
           | (events, _, Inr http) \<Rightarrow>
               (case run_serving opts env of
                  None \<Rightarrow> None
                | Some (fs, served, r) \<Rightarrow>
                    Some (fs, before @ events @ served @ (case http of None \<Rightarrow> [] | Some h \<Rightarrow> [ClosedListener h]) @ after, r))))"

section \<open>What a run leaves behind\<close>

definition listened :: "runEvent list \<Rightarrow> nat list" where
  "listened events = concat (map (\<lambda>e. case e of Listening h \<Rightarrow> [h] | _ \<Rightarrow> []) events)"

definition unlistened :: "runEvent list \<Rightarrow> nat list" where
  "unlistened events = concat (map (\<lambda>e. case e of ClosedListener h \<Rightarrow> [h] | _ \<Rightarrow> []) events)"

lemma listened_simps [simp]:
  "listened [] = []" "unlistened [] = []" "listened (a @ b) = listened a @ listened b" "unlistened (a @ b) = unlistened a @ unlistened b"
  "listened (e # b) = (case e of Listening h \<Rightarrow> [h] | _ \<Rightarrow> []) @ listened b"
  "unlistened (e # b) = (case e of ClosedListener h \<Rightarrow> [h] | _ \<Rightarrow> []) @ unlistened b"
  "listened (closed_all hs) = []" "unlistened (closed_all hs) = hs"
  by (simp_all add: listened_def unlistened_def closed_all_def) (induction hs; simp)+

lemma start_events_listeners [simp]: "listened (start_events opts) = []" "unlistened (start_events opts) = []"
  by (simp_all add: start_events_def proxy_services_def)

lemma start_events_services:
  "ServiceStarted s \<in> set (start_events opts) \<longleftrightarrow> s \<in> set (proxy_services opts)"
  "SessionsStarted b \<in> set (start_events opts) \<longleftrightarrow> b = po_brokerMode opts"
  "StatusPublished \<notin> set (start_events opts)" "StatusRemoved \<notin> set (start_events opts)"
  by (auto simp: start_events_def)

lemma closed_all_only: "e \<in> set (closed_all hs) \<Longrightarrow> \<exists>h. e = ClosedListener h"
  by (auto simp: closed_all_def)

definition quiet :: "runEvent \<Rightarrow> bool" where
  "quiet e \<longleftrightarrow> (case e of Listening h \<Rightarrow> True | ClosedListener h \<Rightarrow> True | ContextCancelled \<Rightarrow> True | _ \<Rightarrow> False)"

lemma quiet_closed [simp]: "list_all quiet (closed_all hs)"
  by (simp add: closed_all_def quiet_def list_all_iff)

lemma run_http_ok:
  assumes "run_http opts env a = (events, closed, r)"
  shows "list_all quiet events" "listened events = (case r of Inr (Some h) \<Rightarrow> [h] | _ \<Rightarrow> [])"
  using assms by (auto simp: run_http_def quiet_def split: if_splits sum.splits prod.splits)

lemma quiet_not:
  "list_all quiet events \<Longrightarrow> ServiceStarted s \<notin> set events" "list_all quiet events \<Longrightarrow> SessionsStarted b \<notin> set events"
  "list_all quiet events \<Longrightarrow> StatusPublished \<notin> set events" "list_all quiet events \<Longrightarrow> StatusRemoved \<notin> set events"
  by (auto simp: list_all_iff quiet_def dest: bspec)

text \<open>
  A run of the proxy starts everything or nothing and releases what it took.  When it returns, every listener it opened has
  been closed, the status file is withdrawn just when it was published, and the context is cancelled.  Either all the services
  that the options ask for were started, together with the sessions, or none was and the run failed with an error.
\<close>
lemma run_lifecycle:
  assumes "proxy_run opts env = Some (fs, events, r)"
  shows "mset (listened events) \<subseteq># mset (unlistened events)
    \<and> count_list events StatusPublished = count_list events StatusRemoved \<and> last events = ContextCancelled
    \<and> (if SessionsStarted (po_brokerMode opts) \<in> set events
       then \<forall>s. ServiceStarted s \<in> set events \<longleftrightarrow> s \<in> set (proxy_services opts)
       else r \<noteq> None \<and> (\<forall>s. ServiceStarted s \<notin> set events))"
proof -
  obtain closed q where l: "ListenTCP (po_socksListen opts) (rn_interfaces env) (rn_probe env) (rn_listen env) = (closed, q)" by fastforce
  show ?thesis
  proof (cases q)
    case (Inl err)
    then show ?thesis
      using assms l quiet_not [OF quiet_closed] by (auto simp: proxy_run_def count_notin)
  next
    case (Inr socks)
    obtain h a where socks: "socks = (h, a)" by fastforce
    obtain http_events ignored http where w: "run_http opts env a = (http_events, ignored, http)" by (cases "run_http opts env a") auto
    note quiet = quiet_not [OF run_http_ok(1) [OF w]] quiet_not [OF quiet_closed]
    show ?thesis
    proof (cases http)
      case e: (Inl err)
      then show ?thesis
        using assms l Inr socks w quiet run_http_ok(2) [OF w] by (auto simp: proxy_run_def Let_def count_notin)
    next
      case v: (Inr second)
      then obtain served where s: "run_serving opts env = Some (fs, served, r)"
          "events = closed_all closed @ [Listening h] @ http_events @ served @ (case second of None \<Rightarrow> [] | Some h \<Rightarrow> [ClosedListener h])
             @ [ClosedListener h, ContextCancelled]"
        using assms l Inr socks w by (auto simp: proxy_run_def Let_def split: option.splits)
      have m: "mset (listened events) \<subseteq># mset (unlistened events) \<and> last events = ContextCancelled" if "listened served = []"
        using that run_http_ok(2) [OF w] by (auto simp: s(2) v split: option.splits)
      consider "served = []" "r \<noteq> None" | "served = start_events opts" | "served = StatusPublished # start_events opts @ [StatusRemoved]"
        using s(1) by (auto simp: run_serving_def split: prod.splits sum.splits option.splits)
      then show ?thesis
        using m quiet start_events_services
        by cases (auto simp: s(2) count_notin split: option.splits)
    qed
  qed
qed

end
