(* ===== verification/StatusCommand.thy ===== *)
theory StatusCommand
  imports AutoStatus Config GoFlag "HOL-Library.Multiset"
begin

text \<open>
  The status command (src/cmd/wsl-status/main.go): it reads the document that the proxy publishes, checks that it is fresh and that
  its publisher runs, and prints it or resolves one mapping.  The configuration package, the file, the clock and the process
  table are arguments; the alignment of the table and the JSON text are left to the standard library.
\<close>

section \<open>Options\<close>

record statusOptions =
  so_file :: bytes
  so_config :: bytes
  so_maxAge :: int
  so_json :: bool
  so_resolveNetwork :: bytes
  so_resolveWSL :: bytes

definition status_flags :: "(bytes \<Rightarrow> int option) \<Rightarrow> (bytes \<times> flagKind \<times> (bytes \<Rightarrow> statusOptions \<Rightarrow> statusOptions result)) list" where
  "status_flags ParseDuration =
     [(str ''file'', ValueFlag, \<lambda>v opts. Inr (opts\<lparr>so_file := v\<rparr>)),
      (str ''config'', ValueFlag, \<lambda>v opts. Inr (opts\<lparr>so_config := v\<rparr>)),
      (str ''max-age'', ValueFlag, \<lambda>v opts. duration_flag ParseDuration v (\<lambda>d. opts\<lparr>so_maxAge := d\<rparr>)),
      (str ''json'', BoolFlag, \<lambda>v opts. bool_flag v (\<lambda>b. opts\<lparr>so_json := b\<rparr>)),
      (str ''resolve-network'', ValueFlag, \<lambda>v opts. Inr (opts\<lparr>so_resolveNetwork := v\<rparr>)),
      (str ''resolve-wsl'', ValueFlag, \<lambda>v opts. Inr (opts\<lparr>so_resolveWSL := v\<rparr>))]"

definition status_setter :: "(bytes \<Rightarrow> int option) \<Rightarrow> bytes \<Rightarrow> bytes \<Rightarrow> statusOptions \<Rightarrow> statusOptions result" where
  "status_setter ParseDuration name v opts =
     (case map_of (status_flags ParseDuration) name of
        None \<Rightarrow> Inl (ErrText (str ''no such flag -'' @ name))
      | Some (kind, setter) \<Rightarrow> setter v opts)"

definition defaultMaxAge :: int where "defaultMaxAge = 120000000000"

definition status_parseOptions :: "(bytes \<Rightarrow> int option) \<Rightarrow> bytes list \<Rightarrow> statusOptions result" where
  "status_parseOptions ParseDuration args =
     rbind (flag_Parse (\<lambda>name. map_option fst (map_of (status_flags ParseDuration) name)) (status_setter ParseDuration) args
       \<lparr>so_file = [], so_config = [], so_maxAge = defaultMaxAge, so_json = False, so_resolveNetwork = [], so_resolveWSL = []\<rparr>) (\<lambda>(opts, rest).
       if rest \<noteq> [] then Inl (ErrText (str ''unexpected arguments: ['' @ strings_Join rest (str '' '') @ str '']''))
       else if so_maxAge opts \<le> 0 then Inl (ErrText (str ''max-age must be positive''))
       else if (so_resolveNetwork opts = []) \<noteq> (so_resolveWSL opts = [])
       then Inl (ErrText (str ''resolve-network and resolve-wsl must be used together''))
       else if so_json opts \<and> so_resolveNetwork opts \<noteq> []
       then Inl (ErrText (str ''json output and mapping resolution cannot be used together''))
       else Inr opts)"

text \<open>
  \<open>filepath.Join\<close> of a directory and further elements: empty elements are left out, and \<open>filepath.Clean\<close> drops empty and \<open>.\<close>
  elements and resolves \<open>..\<close> against the element before it (\<open>out\<close> holds the elements so far, the last one first).
\<close>

fun clean_elements :: "bool \<Rightarrow> bytes list \<Rightarrow> bytes list \<Rightarrow> bytes list" where
  "clean_elements rooted out [] = rev out"
| "clean_elements rooted out (e # es) =
     (if e = [] \<or> e = str ''.'' then clean_elements rooted out es
      else if e = str ''..'' then
        (case out of
           [] \<Rightarrow> clean_elements rooted (if rooted then [] else [e]) es
         | d # dirs \<Rightarrow> clean_elements rooted (if d = str ''..'' then e # out else dirs) es)
      else clean_elements rooted (e # out) es)"

function split_slash :: "bytes \<Rightarrow> bytes list" where
  "split_slash p = (if 47 \<in> set p then takeWhile (\<lambda>c. c \<noteq> 47) p # split_slash (tl (dropWhile (\<lambda>c. c \<noteq> 47) p)) else [p])"
  by pat_completeness auto
termination
proof (relation "measure length")
  fix p :: bytes
  assume "47 \<in> set p"
  then have "dropWhile (\<lambda>c. c \<noteq> 47) p \<noteq> []" by auto
  then show "(tl (dropWhile (\<lambda>c. c \<noteq> 47) p), p) \<in> measure length"
    using length_dropWhile_le [of "\<lambda>c. c \<noteq> 47" p] by (cases "dropWhile (\<lambda>c. c \<noteq> 47) p") auto
qed simp

definition filepath_Clean :: "bytes \<Rightarrow> bytes" where
  "filepath_Clean p =
     (let rooted = HasPrefix p (str ''/''); elems = clean_elements rooted [] (split_slash p) in
        if rooted then str ''/'' @ strings_Join elems (str ''/'')
        else if elems = [] then str ''.'' else strings_Join elems (str ''/''))"

definition filepath_Join :: "bytes list \<Rightarrow> bytes" where
  "filepath_Join elems =
     (case dropWhile (\<lambda>e. e = []) elems of [] \<Rightarrow> [] | rest \<Rightarrow> filepath_Clean (strings_Join rest (str ''/'')))"

lemma join_config_path:
  "filepath_Join [str ''/home//u/./.config/'', str ''wsl-win-relay'', str ''config.json''] = str ''/home/u/.config/wsl-win-relay/config.json''"
  "filepath_Join [str ''/a/../..'', str ''c''] = str ''/c''"
  "filepath_Join [[], str ''a'', str ''../..'', str ''b''] = str ''../b''"
  by code_simp+

text \<open>\<open>statusPath\<close>; \<open>configDir\<close> is what \<open>os.UserConfigDir\<close> returns.\<close>

definition statusPath :: "bytes result \<Rightarrow> (bytes \<Rightarrow> configFile result) \<Rightarrow> statusOptions \<Rightarrow> bytes result" where
  "statusPath configDir Load opts =
     (if so_file opts \<noteq> [] then Inr (so_file opts)
      else rbind (if so_config opts \<noteq> [] then Inr (so_config opts)
                  else case configDir of
                    Inl err \<Rightarrow> Inl (Upstream.wrap_err (str ''locate user configuration'') err)
                  | Inr root \<Rightarrow> Inr (filepath_Join [root, str ''wsl-win-relay'', str ''config.json''])) (\<lambda>configPath.
        (case Load configPath of
           Inl err \<Rightarrow> Inl (Upstream.wrap_err (str ''load '' @ configPath) err)
         | Inr config \<Rightarrow>
             if af_StatusFile (fi_AutoForward config) = []
             then Inl (ErrText (str ''automatic mapping status_file is not configured in '' @ configPath))
             else Inr (af_StatusFile (fi_AutoForward config)))))"

section \<open>Output\<close>

text \<open>The loop of \<open>resolveMapping\<close> with the match so far.\<close>

fun resolve_loop :: "bytes \<Rightarrow> bytes \<Rightarrow> MappingStatus option \<Rightarrow> MappingStatus list \<Rightarrow> MappingStatus option result" where
  "resolve_loop network wslAddress match [] = Inr match"
| "resolve_loop network wslAddress match (mapping # rest) =
     (if ms_Network mapping \<noteq> network \<or> ms_WSLAddress mapping \<noteq> wslAddress then resolve_loop network wslAddress match rest
      else if match \<noteq> None then Inl (ErrText (str ''multiple mappings match '' @ network @ str '' '' @ wslAddress))
      else resolve_loop network wslAddress (Some mapping) rest)"

definition resolveMapping :: "StatusDocument \<Rightarrow> bytes \<Rightarrow> bytes \<Rightarrow> bytes result" where
  "resolveMapping document network wslAddress =
     rbind (resolve_loop network wslAddress None (sd_Mappings document)) (\<lambda>match.
       case match of
         None \<Rightarrow> Inl (ErrText (str ''no mapping matches '' @ network @ str '' '' @ wslAddress))
       | Some m \<Rightarrow>
           if ms_State m \<noteq> str ''active''
           then if ms_RetryAt m \<noteq> []
                then Inl (ErrText (str ''mapping is rejected: '' @ ms_Error m @ str '' (retry at '' @ ms_RetryAt m @ str '')''))
                else Inl (ErrText (str ''mapping is rejected: '' @ ms_Error m))
           else Inr (ms_WindowsAddress m @ [10]))"

text \<open>The cells of the table that \<open>printStatus\<close> writes; rows of equal keys keep their order here.\<close>

definition status_row :: "MappingStatus \<Rightarrow> bytes list" where
  "status_row m = [ms_Network m, ms_State m, ms_WindowsAddress m, ms_WSLAddress m, if ms_Error m \<noteq> [] then Quote (ms_Error m) else str ''-'']"

definition printStatus :: "StatusDocument \<Rightarrow> bytes list list" where
  "printStatus document =
     [[str ''publisher'', Itoa (sd_ProcessID document), str ''updated'', sd_UpdatedAt document],
      [str ''NETWORK'', str ''STATE'', str ''WINDOWS'', str ''WSL'', str ''DETAIL'']]
     @ map status_row (sort_key (\<lambda>m. (ms_Network m, ms_WSLAddress m)) (sd_Mappings document))"

datatype statusOutput = ResolvedAddress bytes | StatusJson StatusDocument | StatusTable "bytes list list"

definition status_check ::
  "(bytes \<Rightarrow> int result) \<Rightarrow> (bytes \<Rightarrow> statusFile) \<Rightarrow> (int \<Rightarrow> bool result) \<Rightarrow> int \<Rightarrow> int \<Rightarrow> bytes \<Rightarrow> StatusDocument result" where
  "status_check parseTime files alive now maxAge path =
     rbind (ReadStatus parseTime path (files path)) (\<lambda>document.
       case ValidateFresh parseTime document now maxAge of
         Some err \<Rightarrow> Inl err
       | None \<Rightarrow>
           rbind (alive (sd_ProcessID document)) (\<lambda>running.
             if \<not> running then Inl (ErrText (str ''status publisher process '' @ Itoa (sd_ProcessID document) @ str '' is not running''))
             else Inr document))"

text \<open>\<open>run\<close>: the exit code with the output or the error that it prints; \<open>writeErr\<close> is the error of writing to the standard output.\<close>

definition status_run ::
  "(bytes \<Rightarrow> int option) \<Rightarrow> bytes result \<Rightarrow> (bytes \<Rightarrow> configFile result) \<Rightarrow> (bytes \<Rightarrow> int result) \<Rightarrow> (bytes \<Rightarrow> statusFile)
     \<Rightarrow> (int \<Rightarrow> bool result) \<Rightarrow> int \<Rightarrow> goerr option \<Rightarrow> bytes list \<Rightarrow> int \<times> statusOutput result" where
  "status_run ParseDuration configDir Load parseTime files alive now writeErr args =
     (case status_parseOptions ParseDuration args of
        Inl err \<Rightarrow> (2, Inl err)
      | Inr opts \<Rightarrow>
          (case rbind (statusPath configDir Load opts) (status_check parseTime files alive now (so_maxAge opts)) of
             Inl err \<Rightarrow> (1, Inl err)
           | Inr document \<Rightarrow>
               let written = (\<lambda>what out. case writeErr of None \<Rightarrow> (0, Inr out) | Some err \<Rightarrow> (1, Inl (if what = [] then err else Upstream.wrap_err what err))) in
               if so_resolveNetwork opts \<noteq> []
               then (case resolveMapping document (so_resolveNetwork opts) (so_resolveWSL opts) of
                       Inl err \<Rightarrow> (1, Inl err)
                     | Inr address \<Rightarrow> written [] (ResolvedAddress address))
               else if so_json opts then written (str ''write JSON'') (StatusJson document)
               else written (str ''write status'') (StatusTable (printStatus document))))"

section \<open>What the command promises\<close>

definition matches :: "bytes \<Rightarrow> bytes \<Rightarrow> MappingStatus \<Rightarrow> bool" where
  "matches network wslAddress m \<longleftrightarrow> ms_Network m = network \<and> ms_WSLAddress m = wslAddress"

lemma resolve_loop_iff:
  "resolve_loop network wslAddress match ms = Inr r \<longleftrightarrow>
     (case match of
        None \<Rightarrow> (case filter (matches network wslAddress) ms of [] \<Rightarrow> r = None | [m] \<Rightarrow> r = Some m | _ \<Rightarrow> False)
      | Some m \<Rightarrow> filter (matches network wslAddress) ms = [] \<and> r = Some m)"
  by (induction network wslAddress match ms rule: resolve_loop.induct) (auto simp: matches_def split: option.splits list.splits)

lemma resolveMapping_iff:
  "resolveMapping document network wslAddress = Inr out \<longleftrightarrow>
     (\<exists>m. filter (matches network wslAddress) (sd_Mappings document) = [m] \<and> ms_State m = str ''active'' \<and> out = ms_WindowsAddress m @ [10])"
proof -
  define found where "found = filter (matches network wslAddress) (sd_Mappings document)"
  have "resolve_loop network wslAddress None (sd_Mappings document) = Inr r \<longleftrightarrow>
      (case found of [] \<Rightarrow> r = None | [m] \<Rightarrow> r = Some m | _ \<Rightarrow> False)" for r by (simp add: resolve_loop_iff found_def)
  then show ?thesis unfolding found_def [symmetric]
    by (cases found; cases "tl found") (auto simp: resolveMapping_def rbind_eq_Inr)
qed

lemma status_check_iff:
  "status_check parseTime files alive now maxAge path = Inr document \<longleftrightarrow>
     ReadStatus parseTime path (files path) = Inr document \<and> ValidateFresh parseTime document now maxAge = None \<and> alive (sd_ProcessID document) = Inr True"
  by (auto simp: status_check_def rbind_eq_Inr split: option.splits if_splits)

lemma printStatus_rows:
  "length (printStatus document) = length (sd_Mappings document) + 2"
  "mset (drop 2 (printStatus document)) = mset (map status_row (sd_Mappings document))"
  "sorted (map (\<lambda>row. (row ! 0, row ! 3)) (drop 2 (printStatus document)))"
proof -
  have "(\<lambda>row. (row ! 0, row ! 3)) \<circ> status_row = (\<lambda>m. (ms_Network m, ms_WSLAddress m))" by (rule ext) (simp add: status_row_def)
  moreover have "drop 2 (printStatus document) = map status_row (sort_key (\<lambda>m. (ms_Network m, ms_WSLAddress m)) (sd_Mappings document))"
    by (simp only: printStatus_def append_Cons append_Nil drop_Suc_Cons drop_0 numeral_2_eq_2)
  ultimately show "mset (drop 2 (printStatus document)) = mset (map status_row (sd_Mappings document))"
      "sorted (map (\<lambda>row. (row ! 0, row ! 3)) (drop 2 (printStatus document)))"
    by (simp_all only: mset_map mset_sort map_map sorted_sort_key)
qed (simp add: printStatus_def)

text \<open>
  C39: the status command succeeds only on a live publisher's fresh document, and a resolved address is never ambiguous.  Its exit code
  is 2 just when the options are wrong and 0 just when it printed its output.  Then the status file names a valid
  document that is not older than the limit and whose publisher runs.  A resolved address belongs to the only mapping with
  that network and WSL address, and that mapping is active; the table has one row per mapping, ordered by network and WSL address.
\<close>
theorem status_command:
  assumes "status_run ParseDuration configDir Load parseTime files alive now writeErr args = (code, r)"
  shows "(code = 2 \<longleftrightarrow> \<not> isOk (status_parseOptions ParseDuration args)) \<and> (code = 0 \<longleftrightarrow> isOk r) \<and> code \<in> {0, 1, 2}
    \<and> (\<forall>out. r = Inr out \<longrightarrow> (\<exists>opts path document. status_parseOptions ParseDuration args = Inr opts
         \<and> statusPath configDir Load opts = Inr path \<and> ReadStatus parseTime path (files path) = Inr document
         \<and> ValidateFresh parseTime document now (so_maxAge opts) = None \<and> alive (sd_ProcessID document) = Inr True \<and> writeErr = None
         \<and> (case out of
              ResolvedAddress address \<Rightarrow> \<exists>m. filter (matches (so_resolveNetwork opts) (so_resolveWSL opts)) (sd_Mappings document) = [m]
                \<and> ms_State m = str ''active'' \<and> address = ms_WindowsAddress m @ [10]
            | StatusJson d \<Rightarrow> d = document
            | StatusTable rows \<Rightarrow> length rows = length (sd_Mappings document) + 2
                \<and> mset (drop 2 rows) = mset (map status_row (sd_Mappings document))
                \<and> sorted (map (\<lambda>row. (row ! 0, row ! 3)) (drop 2 rows)))))"
proof (cases "status_parseOptions ParseDuration args")
  case (Inl err)
  then show ?thesis using assms by (auto simp: status_run_def)
next
  case (Inr opts)
  show ?thesis
  proof (cases "rbind (statusPath configDir Load opts) (status_check parseTime files alive now (so_maxAge opts))")
    case (Inl err)
    then show ?thesis using assms Inr by (auto simp: status_run_def)
  next
    case doc: (Inr document)
    then obtain path where p: "statusPath configDir Load opts = Inr path" "ReadStatus parseTime path (files path) = Inr document"
        "ValidateFresh parseTime document now (so_maxAge opts) = None" "alive (sd_ProcessID document) = Inr True"
      by (auto simp: rbind_eq_Inr status_check_iff)
    show ?thesis
    proof (cases "resolveMapping document (so_resolveNetwork opts) (so_resolveWSL opts)")
      case (Inl err)
      then show ?thesis using assms Inr doc p printStatus_rows [of document] by (auto simp: status_run_def Let_def split: if_splits option.splits)
    next
      case a: (Inr address)
      then have m: "\<exists>m. filter (matches (so_resolveNetwork opts) (so_resolveWSL opts)) (sd_Mappings document) = [m]
          \<and> ms_State m = str ''active'' \<and> address = ms_WindowsAddress m @ [10]" by (simp only: resolveMapping_iff)
      show ?thesis using assms Inr doc p printStatus_rows [of document] a m by (auto simp: status_run_def Let_def split: if_splits option.splits)
    qed
  qed
qed

definition plain_document :: StatusDocument where
  "plain_document = \<lparr>sd_Version = 1, sd_ProcessID = 7, sd_UpdatedAt = [], sd_Mappings = []\<rparr>"

definition plain_file :: statusFile where
  "plain_file = \<lparr>sf_lstat = Inr (False, True, 0), sf_open = None, sf_stat = Inr (True, True), sf_read = Inr [],
     sf_decode = (\<lambda>_. Inr plain_document), sf_extra = (\<lambda>_. Some IoEOF)\<rparr>"

theorem status_command_witness:
  "status_run (\<lambda>_. None) (Inl IoEOF) (\<lambda>_. Inl IoEOF) (\<lambda>_. Inr 0) (\<lambda>_. plain_file) (\<lambda>_. Inr True) 1 None [str ''-file=s'', str ''-json'']
     = (0, Inr (StatusJson plain_document))
   \<and> isOk (status_parseOptions (\<lambda>_. None) [str ''-file=s'', str ''-json''])"
proof -
  have p: "status_parseOptions (\<lambda>_. None) [str ''-file=s'', str ''-json'']
      = Inr \<lparr>so_file = str ''s'', so_config = [], so_maxAge = 120000000000, so_json = True, so_resolveNetwork = [], so_resolveWSL = []\<rparr>"
    by code_simp
  have r: "ReadStatus (\<lambda>_. Inr 0) path plain_file = Inr plain_document" for path
    by (simp add: ReadStatus_def plain_file_def plain_document_def status_Validate_def UpdatedTime_def)
  have "status_run (\<lambda>_. None) (Inl IoEOF) (\<lambda>_. Inl IoEOF) (\<lambda>_. Inr 0) (\<lambda>_. plain_file) (\<lambda>_. Inr True) 1 None [str ''-file=s'', str ''-json'']
     = (0, Inr (StatusJson plain_document))"
    by (simp add: status_run_def p statusPath_def status_check_def r ValidateFresh_def UpdatedTime_def Let_def)
  then show ?thesis using status_command [of "\<lambda>_. None" "Inl IoEOF" "\<lambda>_. Inl IoEOF" "\<lambda>_. Inr 0" "\<lambda>_. plain_file" "\<lambda>_. Inr True" 1 None]
    by fastforce
qed

end
