(* ===== verification/BrokerControl.thy ===== *)
theory BrokerControl
  imports GoFlag GoNetText
begin

text \<open>
  Options, credentials and the control endpoint of the broker command (src/cmd/win-broker/main.go, credentials.go,
  roles.go).  Each role of the broker answers \<open>PING\<close> and \<open>STOP\<close> on its control endpoint; the other side is \<open>probeRole\<close>.
\<close>

section \<open>Credentials\<close>

definition hex_EncodeToString :: "bytes \<Rightarrow> bytes" where
  "hex_EncodeToString bs = concat (map (\<lambda>b. [hex_digit (unat b div 16), hex_digit (unat b mod 16)]) bs)"

text \<open>The texts of the errors of \<open>hex\<close> are not modelled.  What \<open>Lstat\<close> says of the token file: whether it is regular (not a symbolic link) and whether others may access it.\<close>

record tokenFileInfo =
  ti_regular :: bool
  ti_shared :: bool

definition loadTokenFile ::
  "bool \<Rightarrow> (bytes \<Rightarrow> tokenFileInfo result) \<Rightarrow> (bytes \<Rightarrow> bytes result) \<Rightarrow> bytes \<Rightarrow> bytes result" where
  "loadTokenFile windows lstat readFile path =
     (if path = [] then Inl (ErrText (str ''token file path cannot be empty''))
      else case lstat path of
        Inl err \<Rightarrow> Inl (ErrWrapped (str ''stat token file: '' @ error_text err) err)
      | Inr info \<Rightarrow>
          if \<not> ti_regular info then Inl (ErrText (str ''refusing non-regular token file: '' @ path))
          else if \<not> windows \<and> ti_shared info then Inl (ErrText (str ''token file must not be group/world accessible: '' @ path))
          else case readFile path of
            Inl err \<Rightarrow> Inl (ErrWrapped (str ''read token file: '' @ error_text err) err)
          | Inr data \<Rightarrow>
              (case hex_DecodeString (TrimSpace data) of
                 None \<Rightarrow> Inl (ErrText (str ''decode token file: invalid hexadecimal''))
               | Some decoded \<Rightarrow>
                   if decoded = [] then Inl (ErrText (str ''decode token file: token is empty''))
                   else Inr (hex_EncodeToString decoded)))"

record brokerOptions =
  bo_endpoint :: bytes
  bo_tokenHex :: bytes
  bo_tokenFile :: bytes
  bo_upstreamProxy :: bytes
  bo_supervisor :: bool
  bo_worker :: bool
  bo_socketHost :: bool
  bo_socketBridge :: bool
  bo_socketOwner :: bool
  bo_ownerEndpoint :: bytes

definition tokenArgs :: "brokerOptions \<Rightarrow> bytes list" where
  "tokenArgs opts =
     (if bo_tokenFile opts \<noteq> [] then [str ''-token-file'', bo_tokenFile opts] else [str ''-token-hex'', bo_tokenHex opts])"

definition defaultEndpoint :: "bytes \<Rightarrow> bool \<Rightarrow> bytes \<Rightarrow> bytes" where
  "defaultEndpoint variable windows fallback =
     (if variable \<noteq> [] then variable else if windows then str ''wsl-win-relay-broker'' else fallback)"

type_synonym brokerFlags = "(bytes \<times> flagKind \<times> (bytes \<Rightarrow> brokerOptions \<Rightarrow> brokerOptions result)) list"

definition broker_flags :: brokerFlags where
  "broker_flags =
     map (\<lambda>(name, g). (name, ValueFlag, \<lambda>v opts. Inr (g v opts)))
       [(str ''endpoint'', \<lambda>v opts. opts\<lparr>bo_endpoint := v\<rparr>),
        (str ''token-hex'', \<lambda>v opts. opts\<lparr>bo_tokenHex := v\<rparr>),
        (str ''token-file'', \<lambda>v opts. opts\<lparr>bo_tokenFile := v\<rparr>),
        (str ''upstream-proxy'', \<lambda>v opts. opts\<lparr>bo_upstreamProxy := v\<rparr>),
        (str ''owner-endpoint'', \<lambda>v opts. opts\<lparr>bo_ownerEndpoint := v\<rparr>)]
     @ map (\<lambda>(name, g). (name, BoolFlag, \<lambda>v opts. bool_flag v (\<lambda>b. g b opts)))
       [(str ''supervise'', \<lambda>b opts. opts\<lparr>bo_supervisor := b\<rparr>),
        (str ''worker'', \<lambda>b opts. opts\<lparr>bo_worker := b\<rparr>),
        (str ''socket-host'', \<lambda>b opts. opts\<lparr>bo_socketHost := b\<rparr>),
        (str ''socket-bridge'', \<lambda>b opts. opts\<lparr>bo_socketBridge := b\<rparr>),
        (str ''socket-owner'', \<lambda>b opts. opts\<lparr>bo_socketOwner := b\<rparr>)]"

definition broker_formal :: "bytes \<Rightarrow> flagKind option" where
  "broker_formal name = map_option fst (map_of broker_flags name)"

definition broker_setter :: "bytes \<Rightarrow> bytes \<Rightarrow> brokerOptions \<Rightarrow> brokerOptions result" where
  "broker_setter name v opts =
     (case map_of broker_flags name of
        None \<Rightarrow> Inl (ErrText (str ''no such flag -'' @ name))
      | Some (kind, setter) \<Rightarrow> setter v opts)"

definition roleCount :: "brokerOptions \<Rightarrow> nat" where
  "roleCount opts =
     length (filter (\<lambda>b. b) [bo_supervisor opts, bo_worker opts, bo_socketHost opts, bo_socketBridge opts, bo_socketOwner opts])"

definition broker_checked :: "brokerOptions \<Rightarrow> brokerOptions result" where
  "broker_checked opts =
     (if bo_endpoint opts = [] \<or> bo_tokenHex opts = [] then Inl (ErrText (str ''endpoint and token-hex are required''))
      else if bo_socketHost opts \<and> bo_ownerEndpoint opts = [] then Inl (ErrText (str ''owner-endpoint is required for socket-host mode''))
      else if bo_socketBridge opts \<and> bo_ownerEndpoint opts = [] then Inl (ErrText (str ''owner-endpoint is required for socket-bridge mode''))
      else if 1 < roleCount opts
      then Inl (ErrText (str ''worker, socket-host, socket-bridge, and socket-owner modes are mutually exclusive''))
      else if hex_DecodeString (bo_tokenHex opts) = None then Inl (ErrText (str ''token-hex: invalid hexadecimal''))
      else Inr opts)"

definition load_token :: "(bytes \<Rightarrow> bytes result) \<Rightarrow> brokerOptions \<Rightarrow> brokerOptions result" where
  "load_token load opts =
     (if bo_tokenFile opts \<noteq> [] then rbind (load (bo_tokenFile opts)) (\<lambda>loaded. Inr (opts\<lparr>bo_tokenHex := loaded\<rparr>)) else Inr opts)"

definition broker_defaults :: "bytes \<Rightarrow> bytes \<Rightarrow> bytes \<Rightarrow> brokerOptions" where
  "broker_defaults endpoint tokenVariable proxyVariable =
     \<lparr>bo_endpoint = endpoint, bo_tokenHex = tokenVariable, bo_tokenFile = [], bo_upstreamProxy = proxyVariable, bo_supervisor = False,
      bo_worker = False, bo_socketHost = False, bo_socketBridge = False, bo_socketOwner = False, bo_ownerEndpoint = []\<rparr>"

definition broker_parseOptions ::
  "(bytes \<Rightarrow> bytes result) \<Rightarrow> bytes \<Rightarrow> bytes \<Rightarrow> bytes \<Rightarrow> bytes list \<Rightarrow> brokerOptions result" where
  "broker_parseOptions load endpoint tokenVariable proxyVariable args =
     rbind (flag_Parse broker_formal broker_setter args (broker_defaults endpoint tokenVariable proxyVariable)) (\<lambda>(given, rest).
       if rest \<noteq> [] then Inl (ErrText (str ''unexpected arguments: '' @ strings_Join rest (str '' '')))
       else rbind (load_token load given) broker_checked)"

section \<open>The control endpoint\<close>

definition pipePrefix :: bytes where
  "pipePrefix = [92, 92, 46, 92] @ str ''pipe'' @ [92]"

definition deriveEndpoint :: "bytes \<Rightarrow> bytes \<Rightarrow> bytes" where
  "deriveEndpoint endpoint suffix =
     (if HasPrefix endpoint pipePrefix then endpoint @ str ''-'' @ suffix else endpoint @ str ''.'' @ suffix)"

definition equalTokenHex :: "bytes \<Rightarrow> bytes \<Rightarrow> bool" where
  "equalTokenHex provided expected =
     (case (hex_DecodeString provided, hex_DecodeString expected) of
        (Some p, Some e) \<Rightarrow> p \<noteq> [] \<and> length p = length e \<and> p = e
      | _ \<Rightarrow> False)"

text \<open>\<open>ReadString\<close> up to the line end through a \<open>LimitReader\<close>; the flag says whether the line end was read.\<close>

definition limited_line :: "nat \<Rightarrow> bytes \<Rightarrow> bytes \<times> bool" where
  "limited_line limit input =
     (let s = take limit input in
      case IndexByte s 10 of Some n \<Rightarrow> (take (Suc n) s, True) | None \<Rightarrow> (s, False))"

text \<open>The handler of \<open>serveWorkerControl\<close>: its reply, and whether it stops the role.\<close>

definition control_reply :: "bytes \<Rightarrow> bytes \<Rightarrow> bytes \<Rightarrow> bytes \<times> bool" where
  "control_reply tokenHex role request =
     (let fields = Fields (fst (limited_line 128 request)) in
      if length fields = 3 \<and> fields ! 0 = str ''PING'' \<and> fields ! 2 = role \<and> equalTokenHex (fields ! 1) tokenHex
      then (str ''PONG'' @ [10], False)
      else if length fields = 1 \<and> fields ! 0 = str ''STOP'' then (str ''OK'' @ [10], True)
      else (str ''ERR'' @ [10], False))"

definition errRoleTokenMismatch :: goerr where
  "errRoleTokenMismatch = ErrText (str ''broker role token mismatch'')"

definition ping_request :: "bytes \<Rightarrow> bytes \<Rightarrow> bytes" where
  "ping_request tokenHex role = str ''PING '' @ tokenHex @ str '' '' @ role @ [10]"

text \<open>\<open>probeRole\<close>: the error of the dial, the error of the write, and the bytes that the other side answers (\<open>None\<close> is nil).\<close>

definition probeRole :: "goerr option \<Rightarrow> goerr option \<Rightarrow> bytes \<Rightarrow> goerr option" where
  "probeRole dialErr writeErr answer =
     (case dialErr of
        Some err \<Rightarrow> Some err
      | None \<Rightarrow>
          (case writeErr of
             Some err \<Rightarrow> Some err
           | None \<Rightarrow>
               (case limited_line 64 answer of
                  (line, False) \<Rightarrow> Some IoEOF
                | (line, True) \<Rightarrow>
                    if TrimSpace line \<noteq> str ''PONG''
                    then if TrimSpace line = str ''ERR'' then Some errRoleTokenMismatch
                         else Some (ErrText (str ''unexpected control probe response '' @ Quote (TrimSpace line)))
                    else None)))"

text \<open>A probe against the handler of a role.\<close>

definition probe_against :: "bytes \<Rightarrow> bytes \<Rightarrow> bytes \<Rightarrow> bytes \<Rightarrow> goerr option" where
  "probe_against tokenHex role ownToken ownRole = probeRole None None (fst (control_reply ownToken ownRole (ping_request tokenHex role)))"

definition broker_roles :: "bytes list" where
  "broker_roles = [str ''frontend'', str ''worker'', str ''socket-host-v2'', str ''socket-bridge'', str ''socket-owner'']"

section \<open>A probe against a role\<close>

definition word :: "bytes \<Rightarrow> bool" where
  "word s \<longleftrightarrow> s \<noteq> [] \<and> list_all (\<lambda>b. \<not> is_space b) s"

lemma Fields_space: "is_space b \<Longrightarrow> Fields (b # s) = Fields s"
  by (simp add: Fields.simps [of "b # s"] Fields.simps [of s])

lemma Fields_blank: "Fields [] = []"
  by (simp add: Fields.simps)

lemma Fields_word:
  assumes "word a" "r = [] \<or> is_space (hd r)"
  shows "Fields (a @ r) = a # Fields r"
proof -
  have d: "dropWhile is_space (a @ r) = a @ r" using assms(1) by (cases a) (auto simp: word_def)
  have "takeWhile (\<lambda>b. \<not> is_space b) (a @ r) = a" "dropWhile (\<lambda>b. \<not> is_space b) (a @ r) = r"
    using assms by (cases r; simp add: word_def list_all_iff takeWhile_append dropWhile_append)+
  then show ?thesis using d assms(1) by (simp add: Fields.simps [of "a @ r"] word_def Let_def)
qed

lemma Fields_two: "word a \<Longrightarrow> word b \<Longrightarrow> Fields (a @ 32 # b) = [a, b]"
  using Fields_word [of b "[]"] Fields_word [of a "32 # b"] by (simp add: Fields_space Fields_blank is_space_def)

lemma Fields_three:
  "word a \<Longrightarrow> word b \<Longrightarrow> word c \<Longrightarrow> r = [] \<or> r = [10] \<Longrightarrow> Fields (a @ 32 # b @ 32 # c @ r) = [a, b, c]"
proof -
  assume w: "word a" "word b" "word c" and r: "r = [] \<or> r = [10]"
  have s: "is_space 32" "is_space 10" by (simp_all add: is_space_def)
  have "Fields r = []" using r s(2) Fields_space [of 10 "[]"] Fields_blank by auto
  then have "Fields (c @ r) = [c]" using Fields_word [OF w(3), of r] r s(2) by auto
  then have "Fields (32 # c @ r) = [c]" using Fields_space [OF s(1)] by simp
  then have "Fields (b @ 32 # c @ r) = [b, c]" using Fields_word [OF w(2), of "32 # c @ r"] s(1) by simp
  then show ?thesis using Fields_word [OF w(1), of "32 # b @ 32 # c @ r"] Fields_space [OF s(1)] s(1) by simp
qed

lemma hex_word: "hex_DecodeString s = Some t \<Longrightarrow> t \<noteq> [] \<Longrightarrow> word s"
proof -
  assume s: "hex_DecodeString s = Some t" and t: "t \<noteq> []"
  have "hex_DecodeString s = Some t \<Longrightarrow> \<forall>b \<in> set s. digit_of b \<noteq> None" for s t
    by (induction s arbitrary: t rule: hex_DecodeString.induct) (auto split: option.splits)
  then have "\<forall>b \<in> set s. \<not> is_space b" using s by (fastforce simp: digit_of_def is_space_def split: if_splits)
  moreover have "s \<noteq> []" using s t by auto
  ultimately show ?thesis by (simp add: word_def list_all_iff)
qed

lemma word_no_newline: "word s \<Longrightarrow> 10 \<notin> set s"
  by (auto simp: word_def list_all_iff is_space_def)

lemma role_word: "role \<in> set broker_roles \<Longrightarrow> word role"
proof -
  have "list_all word broker_roles" by code_simp
  then show "role \<in> set broker_roles \<Longrightarrow> word role" by (simp add: list_all_iff)
qed

lemma role_not_prefix: "role \<in> set broker_roles \<Longrightarrow> own \<in> set broker_roles \<Longrightarrow> n < length role \<Longrightarrow> take n role \<noteq> own"
proof -
  have "list_all (\<lambda>role. list_all (\<lambda>n. take n role \<notin> set broker_roles) [0..<length role]) broker_roles" by code_simp
  then show "role \<in> set broker_roles \<Longrightarrow> own \<in> set broker_roles \<Longrightarrow> n < length role \<Longrightarrow> take n role \<noteq> own"
    by (auto simp: list_all_iff)
qed

lemma ping_split: "ping_request tok role = str ''PING'' @ 32 # tok @ 32 # role @ [10]"
  by (simp add: ping_request_def str_def)

lemma ping_word: "word (str ''PING'')"
  by code_simp

definition ping_matches :: "bytes \<Rightarrow> bytes \<Rightarrow> bytes list \<Rightarrow> bool" where
  "ping_matches own ownRole fs \<longleftrightarrow>
     length fs = 3 \<and> fs ! 0 = str ''PING'' \<and> fs ! 2 = ownRole \<and> equalTokenHex (fs ! 1) own"

lemma probe_reply:
  assumes "\<not> (length fs = 1 \<and> fs ! 0 = str ''STOP'')" "Fields (fst (limited_line 128 (ping_request tok role))) = fs"
  shows "probe_against tok role own ownRole = (if ping_matches own ownRole fs then None else Some errRoleTokenMismatch)"
proof -
  have pong: "probeRole None None (str ''PONG'' @ [10]) = None" by code_simp
  have err: "probeRole None None (str ''ERR'' @ [10]) = Some errRoleTokenMismatch" by code_simp
  show ?thesis
    using assms by (auto simp: probe_against_def control_reply_def ping_matches_def pong err Let_def)
qed

lemma limited_line_none: "10 \<notin> set (take n s) \<Longrightarrow> limited_line n s = (take n s, False)"
  by (simp add: limited_line_def IndexByte_None [THEN iffD2] Let_def)

lemma limited_line_some: "take n s = a @ 10 # r \<Longrightarrow> 10 \<notin> set a \<Longrightarrow> limited_line n s = (a @ [10], True)"
  by (simp add: limited_line_def IndexByte_append Let_def)

lemma take_front: "n \<le> length a \<Longrightarrow> take n (a @ b) = take n a"
  by simp

lemma take_exact: "length a = n \<Longrightarrow> take n (a @ b) = a"
  by simp

text \<open>What the handler sees of a request that is too long.\<close>

lemma truncated_fields:
  assumes "word tok" "role \<in> set broker_roles" "n < length (ping_request tok role) - 1" "5 < n"
  shows "\<exists>fs. Fields (take n (ping_request tok role)) = fs \<and> \<not> length fs = 1
    \<and> (own \<in> set broker_roles \<longrightarrow> \<not> ping_matches t own fs)"
proof -
  let ?p = "str ''PING''"
  have lp: "length ?p = 4" by simp
  show ?thesis
  proof (cases "n \<le> 5 + length tok + 1")
    case True
    define t where "t = take (n - 5) tok"
    have wt: "word t" using assms(1,4) by (auto simp: word_def t_def list_all_iff dest: in_set_takeD)
    have "take n (ping_request tok role) = ?p @ 32 # t @ (if n = 5 + length tok + 1 then [32] else [])"
      using True assms(4) by (auto simp: ping_split take_Cons' t_def eval_nat_numeral)
    then have "Fields (take n (ping_request tok role)) = [?p, t]"
      using Fields_two [OF ping_word wt] Fields_word [OF wt, of "[32]"] Fields_word [OF ping_word, of "32 # t @ [32]"]
      by (simp add: Fields_space Fields_blank is_space_def)
    then show ?thesis by (simp add: ping_matches_def)
  next
    case False
    define k where "k = n - (6 + length tok)"
    have k: "0 < k" "k < length role" "n = 6 + length tok + k" using False assms(3) by (simp_all add: k_def ping_split)
    have wr: "word (take k role)" using role_word [OF assms(2)] k by (auto simp: word_def list_all_iff dest: in_set_takeD)
    have "take n (ping_request tok role) = ?p @ 32 # tok @ 32 # take k role @ []"
      using k by (simp add: ping_split take_Cons')
    then have "Fields (take n (ping_request tok role)) = [?p, tok, take k role]"
      using Fields_three [OF ping_word assms(1) wr, of "[]"] by simp
    then show ?thesis using role_not_prefix [OF assms(2) _ k(2)] by (auto simp: ping_matches_def)
  qed
qed

text \<open>
  C36: a role is reused only by a broker with the same token.  For a token in hexadecimal, a probe against the control endpoint
  of a role succeeds exactly when the other side has the same role and the same token bytes and the request fits into the
  129 bytes of a line; in every other case it reports a token mismatch.  So a token of more than about fifty bytes is
  reported as a mismatch even to a broker that has it.
\<close>
theorem control_probe_exact:
  assumes "hex_DecodeString tok = Some t" "t \<noteq> []" "role \<in> set broker_roles" "ownRole \<in> set broker_roles"
  shows "probe_against tok role own ownRole =
    (if role = ownRole \<and> hex_DecodeString own = Some t \<and> length (ping_request tok role) \<le> 129 then None else Some errRoleTokenMismatch)"
proof -
  have w: "word tok" "word role" using hex_word [OF assms(1,2)] role_word [OF assms(3)] .
  let ?body = "str ''PING'' @ 32 # tok @ 32 # role"
  have body: "ping_request tok role = ?body @ [10]" "10 \<notin> set ?body"
    using word_no_newline [OF w(1)] word_no_newline [OF w(2)] by (simp_all add: ping_split str_def)
  have eq: "equalTokenHex tok own \<longleftrightarrow> hex_DecodeString own = Some t"
    using assms(1,2) by (auto simp: equalTokenHex_def split: option.split)
  show ?thesis
  proof (cases "length (ping_request tok role) \<le> 129")
    case True
    have "Fields (fst (limited_line 128 (ping_request tok role))) = [str ''PING'', tok, role]"
    proof (cases "length (ping_request tok role) = 129")
      case True
      then have "length ?body = 128" by (simp add: body(1))
      then have "take 128 (ping_request tok role) = ?body" unfolding body(1) by (rule take_exact)
      then have "limited_line 128 (ping_request tok role) = (?body, False)" using limited_line_none [of 128 "ping_request tok role"] body(2) by simp
      then show ?thesis using Fields_three [OF ping_word w, of "[]"] by simp
    next
      case False
      with \<open>length (ping_request tok role) \<le> 129\<close> have "take 128 (ping_request tok role) = ?body @ [10]" by (simp add: body(1))
      then have "limited_line 128 (ping_request tok role) = (?body @ [10], True)"
        using body(2) by (rule limited_line_some)
      then show ?thesis using Fields_three [OF ping_word w, of "[10]"] by simp
    qed
    from probe_reply [OF _ this, of own ownRole] True show ?thesis by (simp add: ping_matches_def eq)
  next
    case False
    then have "128 \<le> length ?body" by (simp add: body(1))
    then have "take 128 (ping_request tok role) = take 128 ?body" unfolding body(1) by (rule take_front)
    moreover have "10 \<notin> set (take 128 ?body)" using body(2) by (meson in_set_takeD)
    ultimately have line: "fst (limited_line 128 (ping_request tok role)) = take 128 (ping_request tok role)"
      using limited_line_none [of 128 "ping_request tok role"] by simp
    obtain fs where f: "Fields (take 128 (ping_request tok role)) = fs" "length fs \<noteq> 1" "\<not> ping_matches own ownRole fs"
      using truncated_fields [OF w(1) assms(3), of 128 ownRole own] False assms(4) by auto
    from probe_reply [of fs tok role own ownRole] f line False show ?thesis by simp
  qed
qed

theorem control_probe_exact_witness:
  "probe_against (str ''0aFF'') (str ''worker'') (str ''0Aff'') (str ''worker'') = None"
proof -
  have h: "hex_DecodeString (str ''0aFF'') = Some [10, 255]" "hex_DecodeString (str ''0Aff'') = Some [10, 255]" by code_simp+
  have r: "str ''worker'' \<in> set broker_roles" by code_simp
  from control_probe_exact [OF h(1) _ r r, of "str ''0Aff''"] h(2) show ?thesis by (simp add: ping_request_def)
qed

end
