(* ===== verification/BrokerChildren.thy ===== *)
theory BrokerChildren
  imports BrokerControl
begin

text \<open>
  The arguments with which one role of the broker starts the next (src/cmd/win-broker/roles.go, supervisor.go), and what the child
  makes of them.
\<close>

section \<open>Arguments\<close>

definition proxy_args :: "brokerOptions \<Rightarrow> bytes list" where
  "proxy_args opts = (if bo_upstreamProxy opts \<noteq> [] then [str ''-upstream-proxy'', bo_upstreamProxy opts] else [])"

definition frontendArgs :: "brokerOptions \<Rightarrow> bytes list" where
  "frontendArgs opts = [str ''-endpoint'', bo_endpoint opts] @ tokenArgs opts @ proxy_args opts"

definition worker_args :: "brokerOptions \<Rightarrow> bytes \<Rightarrow> bytes list" where
  "worker_args opts endpoint = [str ''-worker'', str ''-endpoint'', endpoint] @ tokenArgs opts @ proxy_args opts"

definition owner_args :: "brokerOptions \<Rightarrow> bytes \<Rightarrow> bytes list" where
  "owner_args opts endpoint = [str ''-socket-owner'', str ''-endpoint'', endpoint] @ tokenArgs opts @ proxy_args opts"

definition host_args :: "brokerOptions \<Rightarrow> bytes \<Rightarrow> bytes \<Rightarrow> bytes list" where
  "host_args opts endpoint ownerEndpoint =
     [str ''-socket-host'', str ''-endpoint'', endpoint, str ''-owner-endpoint'', ownerEndpoint] @ tokenArgs opts"

section \<open>Parsing them\<close>

text \<open>A flag with one dash and no sign in its name.\<close>

definition flag_word :: "bytes \<Rightarrow> bool" where
  "flag_word name \<longleftrightarrow> name \<noteq> [] \<and> hd name \<noteq> dash \<and> equals_sign \<notin> set name"

lemma flag_arg_word: "flag_word name \<Longrightarrow> flag_arg ((dash # name) # rest) = FlagGiven name None rest"
proof -
  assume w: "flag_word name"
  then obtain b s where n: "name = b # s" "b \<noteq> dash" "b \<noteq> equals_sign" "equals_sign \<notin> set s"
    by (cases name) (auto simp: flag_word_def)
  then have "IndexByte s equals_sign = None" by (simp add: IndexByte_None)
  then show ?thesis using n by (simp add: flag_arg_def flag_name_def Let_def)
qed

lemma flag_Parse_value:
  assumes "flag_word name" "formal name = Some ValueFlag" "setter name v vars = Inr vars'"
  shows "flag_Parse formal setter ((dash # name) # v # rest) vars = flag_Parse formal setter rest vars'"
  by (subst flag_Parse.simps) (simp add: flag_arg_word [OF assms(1)] assms(2,3))

lemma flag_Parse_bool:
  assumes "flag_word name" "formal name = Some BoolFlag" "setter name (str ''true'') vars = Inr vars'"
  shows "flag_Parse formal setter ((dash # name) # rest) vars = flag_Parse formal setter rest vars'"
  by (subst flag_Parse.simps) (simp add: flag_arg_word [OF assms(1)] assms(2,3))

lemma flag_Parse_end: "flag_Parse formal setter [] vars = Inr (vars, [])"
  by (subst flag_Parse.simps) (simp add: flag_arg_def)

abbreviation broker_parse :: "bytes list \<Rightarrow> brokerOptions \<Rightarrow> (brokerOptions \<times> bytes list) result" where
  "broker_parse \<equiv> flag_Parse broker_formal broker_setter"

lemma broker_value_flags:
  "broker_parse (str ''-endpoint'' # v # rest) opts = broker_parse rest (opts\<lparr>bo_endpoint := v\<rparr>)"
  "broker_parse (str ''-token-hex'' # v # rest) opts = broker_parse rest (opts\<lparr>bo_tokenHex := v\<rparr>)"
  "broker_parse (str ''-token-file'' # v # rest) opts = broker_parse rest (opts\<lparr>bo_tokenFile := v\<rparr>)"
  "broker_parse (str ''-upstream-proxy'' # v # rest) opts = broker_parse rest (opts\<lparr>bo_upstreamProxy := v\<rparr>)"
  "broker_parse (str ''-owner-endpoint'' # v # rest) opts = broker_parse rest (opts\<lparr>bo_ownerEndpoint := v\<rparr>)"
proof -
  have step: "broker_parse (arg # v # rest) opts = broker_parse rest (g v opts)"
    if "arg = dash # name" "flag_word name" "map_of broker_flags name = Some (ValueFlag, \<lambda>v opts. Inr (g v opts))" for arg name g
    using flag_Parse_value [of name broker_formal broker_setter v opts] that by (simp add: broker_formal_def broker_setter_def)
  show "broker_parse (str ''-endpoint'' # v # rest) opts = broker_parse rest (opts\<lparr>bo_endpoint := v\<rparr>)"
    by (rule step [where name = "str ''endpoint''"]) (simp_all add: flag_word_def broker_flags_def str_def)
  show "broker_parse (str ''-token-hex'' # v # rest) opts = broker_parse rest (opts\<lparr>bo_tokenHex := v\<rparr>)"
    by (rule step [where name = "str ''token-hex''"]) (simp_all add: flag_word_def broker_flags_def str_def)
  show "broker_parse (str ''-token-file'' # v # rest) opts = broker_parse rest (opts\<lparr>bo_tokenFile := v\<rparr>)"
    by (rule step [where name = "str ''token-file''"]) (simp_all add: flag_word_def broker_flags_def str_def)
  show "broker_parse (str ''-upstream-proxy'' # v # rest) opts = broker_parse rest (opts\<lparr>bo_upstreamProxy := v\<rparr>)"
    by (rule step [where name = "str ''upstream-proxy''"]) (simp_all add: flag_word_def broker_flags_def str_def)
  show "broker_parse (str ''-owner-endpoint'' # v # rest) opts = broker_parse rest (opts\<lparr>bo_ownerEndpoint := v\<rparr>)"
    by (rule step [where name = "str ''owner-endpoint''"]) (simp_all add: flag_word_def broker_flags_def str_def)
qed

lemma broker_bool_flags:
  "broker_parse (str ''-worker'' # rest) opts = broker_parse rest (opts\<lparr>bo_worker := True\<rparr>)"
  "broker_parse (str ''-socket-owner'' # rest) opts = broker_parse rest (opts\<lparr>bo_socketOwner := True\<rparr>)"
  "broker_parse (str ''-socket-host'' # rest) opts = broker_parse rest (opts\<lparr>bo_socketHost := True\<rparr>)"
proof -
  have b: "ParseBool (str ''true'') = Some True" by code_simp
  have step: "broker_parse (arg # rest) opts = broker_parse rest (g True opts)"
    if "arg = dash # name" "flag_word name" "map_of broker_flags name = Some (BoolFlag, \<lambda>v opts. bool_flag v (\<lambda>b. g b opts))" for arg name g
    using flag_Parse_bool [of name broker_formal broker_setter opts] that
    by (simp add: broker_formal_def broker_setter_def bool_flag_def b)
  show "broker_parse (str ''-worker'' # rest) opts = broker_parse rest (opts\<lparr>bo_worker := True\<rparr>)"
    by (rule step [where name = "str ''worker''"]) (simp_all add: flag_word_def broker_flags_def str_def)
  show "broker_parse (str ''-socket-owner'' # rest) opts = broker_parse rest (opts\<lparr>bo_socketOwner := True\<rparr>)"
    by (rule step [where name = "str ''socket-owner''"]) (simp_all add: flag_word_def broker_flags_def str_def)
  show "broker_parse (str ''-socket-host'' # rest) opts = broker_parse rest (opts\<lparr>bo_socketHost := True\<rparr>)"
    by (rule step [where name = "str ''socket-host''"]) (simp_all add: flag_word_def broker_flags_def str_def)
qed

lemmas broker_flag_steps = broker_value_flags broker_bool_flags flag_Parse_end

text \<open>What \<open>parseOptions\<close> promises.\<close>

definition broker_ok :: "(bytes \<Rightarrow> bytes result) \<Rightarrow> brokerOptions \<Rightarrow> bool" where
  "broker_ok load opts \<longleftrightarrow> bo_endpoint opts \<noteq> [] \<and> (\<exists>t. hex_DecodeString (bo_tokenHex opts) = Some t \<and> t \<noteq> [])
     \<and> (bo_tokenFile opts \<noteq> [] \<longrightarrow> load (bo_tokenFile opts) = Inr (bo_tokenHex opts))
     \<and> roleCount opts \<le> 1 \<and> (bo_socketHost opts \<or> bo_socketBridge opts \<longrightarrow> bo_ownerEndpoint opts \<noteq> [])"

lemma hex_decode_nonempty: "hex_DecodeString s = Some t \<Longrightarrow> s \<noteq> [] \<Longrightarrow> t \<noteq> []"
  by (cases s rule: hex_DecodeString.cases) (auto split: option.splits if_splits)

lemma broker_checked_iff:
  "broker_checked opts = Inr r \<longleftrightarrow> r = opts \<and> bo_endpoint opts \<noteq> [] \<and> bo_tokenHex opts \<noteq> []
     \<and> (bo_socketHost opts \<or> bo_socketBridge opts \<longrightarrow> bo_ownerEndpoint opts \<noteq> []) \<and> roleCount opts \<le> 1
     \<and> hex_DecodeString (bo_tokenHex opts) \<noteq> None"
  by (auto simp: broker_checked_def)

lemma broker_ok_checked: "broker_ok load opts \<Longrightarrow> broker_checked opts = Inr opts"
  by (auto simp: broker_ok_def broker_checked_iff)

lemma parse_broker_ok:
  assumes "broker_parseOptions load e0 tv pv args = Inr opts"
  shows "broker_ok load opts"
proof -
  obtain given where g: "load_token load given = Inr opts" and c: "broker_checked opts = Inr opts"
    using assms by (auto simp: broker_parseOptions_def rbind_eq_Inr broker_checked_iff split: if_splits)
  have "bo_tokenFile opts \<noteq> [] \<longrightarrow> load (bo_tokenFile opts) = Inr (bo_tokenHex opts)"
    using g by (auto simp: load_token_def rbind_eq_Inr split: if_splits)
  then show ?thesis using c hex_decode_nonempty by (auto simp: broker_ok_def broker_checked_iff)
qed

text \<open>
  What the options of a child should be: \<open>child_expected\<close> has the given endpoint and upstream proxy and takes only the token and the
  token file from the parent; \<open>child_proxy\<close> is the parent's proxy, or the child's variable when the parent has none.
\<close>

definition child_proxy :: "brokerOptions \<Rightarrow> bytes \<Rightarrow> bytes" where
  "child_proxy opts variable = (if bo_upstreamProxy opts = [] then variable else bo_upstreamProxy opts)"

definition child_expected :: "brokerOptions \<Rightarrow> bytes \<Rightarrow> bytes \<Rightarrow> brokerOptions" where
  "child_expected opts endpoint proxy =
     (broker_defaults endpoint (bo_tokenHex opts) proxy)\<lparr>bo_tokenFile := bo_tokenFile opts\<rparr>"

text \<open>
  C37: the arguments of a child process always give it its endpoint, the token of its parent and its role.  For options that
  \<open>parseOptions\<close> accepted, the arguments for a frontend, a worker, a socket owner and a socket host are parsed without error, whatever
  environment the child sees, and give it exactly the endpoint it is started for, the parent's token (through the parent's token
  file, when there is one), its one role, and the endpoint of the owner for a socket host.  The upstream proxy is not always the
  parent's: a frontend, a worker and a socket owner get it when it is not empty and take the variable of their own environment
  otherwise, even where an empty flag of the parent had overridden that variable; a socket host always takes the variable.
\<close>
theorem child_arguments:
  assumes "broker_parseOptions load e0 tv pv args = Inr opts" "endpoint \<noteq> []" "ownerEndpoint \<noteq> []"
  shows "broker_parseOptions load e1 tv1 pv1 (frontendArgs opts) = Inr (child_expected opts (bo_endpoint opts) (child_proxy opts pv1))
    \<and> broker_parseOptions load e1 tv1 pv1 (worker_args opts endpoint) = Inr ((child_expected opts endpoint (child_proxy opts pv1))\<lparr>bo_worker := True\<rparr>)
    \<and> broker_parseOptions load e1 tv1 pv1 (owner_args opts endpoint)
        = Inr ((child_expected opts endpoint (child_proxy opts pv1))\<lparr>bo_socketOwner := True\<rparr>)
    \<and> broker_parseOptions load e1 tv1 pv1 (host_args opts endpoint ownerEndpoint)
        = Inr ((child_expected opts endpoint pv1)\<lparr>bo_socketHost := True, bo_ownerEndpoint := ownerEndpoint\<rparr>)"
proof -
  have ok: "broker_ok load opts" using assms(1) by (rule parse_broker_ok)
  have t: "bo_tokenHex opts \<noteq> []" "hex_DecodeString (bo_tokenHex opts) \<noteq> None" "bo_endpoint opts \<noteq> []"
    using ok by (auto simp: broker_ok_def)
  have load: "bo_tokenFile opts \<noteq> [] \<longrightarrow> load (bo_tokenFile opts) = Inr (bo_tokenHex opts)" using ok by (simp add: broker_ok_def)
  note defs = broker_parseOptions_def broker_defaults_def child_expected_def child_proxy_def proxy_args_def tokenArgs_def
    broker_flag_steps load_token_def broker_checked_iff roleCount_def
  show ?thesis
    using t load assms(2,3)
    by (cases "bo_tokenFile opts = []"; cases "bo_upstreamProxy opts = []")
       (simp_all add: frontendArgs_def worker_args_def owner_args_def host_args_def defs)
qed

theorem child_arguments_witness:
  "\<exists>opts. broker_parseOptions (\<lambda>_. Inl OsErrNotExist) (str ''e'') (str ''ab'') [] [] = Inr opts
     \<and> broker_parseOptions (\<lambda>_. Inl OsErrNotExist) [] [] [] (worker_args opts (str ''w''))
        = Inr ((child_expected opts (str ''w'') (child_proxy opts []))\<lparr>bo_worker := True\<rparr>)"
proof -
  have "hex_DecodeString (str ''ab'') = Some [171]" by code_simp
  then have p: "broker_parseOptions (\<lambda>_. Inl OsErrNotExist) (str ''e'') (str ''ab'') [] [] = Inr (broker_defaults (str ''e'') (str ''ab'') [])"
    by (simp add: broker_parseOptions_def flag_Parse_end load_token_def broker_checked_def broker_defaults_def roleCount_def)
  have e: "str ''w'' \<noteq> []" by simp
  from child_arguments [OF p e e, of "[]" "[]" "[]"] p show ?thesis by blast
qed

end
