(* ===== verification/BrokerRoles.thy ===== *)
theory BrokerRoles
  imports BrokerChildren
begin

text \<open>
  The processes of the broker command (src/cmd/win-broker/roles.go): how a role makes sure that the next one runs, the worker with
  its socket owner and socket host, and the supervisor of the worker in the frontend.  Probes, processes and timers are
  arguments; the events name what happens to the child processes.
\<close>

section \<open>Waiting for a child\<close>

text \<open>How a round of a polling loop ends: the next poll, the context, the deadline, or the exit of the child.\<close>

datatype pollEnd = PollAgain | PollCancelled goerr | PollDeadline | PollExited

text \<open>\<open>stopConflictingRole\<close>: the answers to its probes with the end of each round; \<open>None\<close> while it polls.\<close>

fun stopConflictingRole :: "bytes \<Rightarrow> (goerr option \<times> pollEnd) list \<Rightarrow> goerr option option" where
  "stopConflictingRole endpoint [] = None"
| "stopConflictingRole endpoint ((probe, e) # rounds) =
     (if (case probe of None \<Rightarrow> False | Some err \<Rightarrow> \<not> err_is err errRoleTokenMismatch) then Some None
      else case e of
        PollCancelled err \<Rightarrow> Some (Some err)
      | PollDeadline \<Rightarrow> Some (Some (ErrText (str ''broker role with mismatched token did not stop: '' @ endpoint)))
      | _ \<Rightarrow> stopConflictingRole endpoint rounds)"

datatype childEvent =
    StopRequested bytes
  | ChildStarted "bytes list"
  | ChildKilled
  | ChildReaped
  | ChildExited

datatype ensured = Reused | Running | EnsureFailed goerr

record ensureEnv =
  en_probe :: "goerr option"
  en_conflict :: "(goerr option \<times> pollEnd) list"
  en_executable :: "goerr option"
  en_start :: "goerr option"
  en_ready :: "(goerr option \<times> pollEnd) list"

text \<open>
  The loop that waits for a started child.  \<open>watched\<close> tells whether the loop also watches the exit of the child; otherwise the
  child is waited for when it is killed.
\<close>

fun await_child :: "bytes \<Rightarrow> bool \<Rightarrow> (goerr option \<times> pollEnd) list \<Rightarrow> (childEvent list \<times> ensured) option" where
  "await_child name watched [] = None"
| "await_child name watched ((probe, e) # rounds) =
     (let killed = (if watched then [ChildKilled] else [ChildKilled, ChildReaped]) in
      if probe = None then Some ([], Running)
      else case e of
        PollCancelled err \<Rightarrow> Some (killed, EnsureFailed err)
      | PollDeadline \<Rightarrow> Some (killed, EnsureFailed (ErrText (str ''broker '' @ name @ str '' did not become ready'')))
      | PollExited \<Rightarrow>
          if watched then Some ([ChildExited], EnsureFailed (ErrText (str ''broker '' @ name @ str '' exited before becoming ready'')))
          else await_child name watched rounds
      | PollAgain \<Rightarrow> await_child name watched rounds)"

definition ensure_child ::
  "bytes \<Rightarrow> bool \<Rightarrow> bytes \<Rightarrow> bytes list \<Rightarrow> ensureEnv \<Rightarrow> (childEvent list \<times> ensured) option" where
  "ensure_child name watched endpoint args env =
     (case en_probe env of
        None \<Rightarrow> Some ([], Reused)
      | Some err \<Rightarrow>
          let conflict = err_is err errRoleTokenMismatch;
              requested = (if conflict then [StopRequested endpoint] else [])
          in (case (if conflict then stopConflictingRole endpoint (en_conflict env) else Some None) of
                None \<Rightarrow> None
              | Some (Some stopErr) \<Rightarrow> Some (requested, EnsureFailed stopErr)
              | Some None \<Rightarrow>
                  (case en_executable env of
                     Some e \<Rightarrow> Some (requested, EnsureFailed (ErrWrapped (str ''locate broker executable: '' @ error_text e) e))
                   | None \<Rightarrow>
                       (case en_start env of
                          Some e \<Rightarrow> Some (requested, EnsureFailed (ErrWrapped (str ''start broker '' @ name @ str '': '' @ error_text e) e))
                        | None \<Rightarrow>
                            (case await_child name watched (en_ready env) of
                               None \<Rightarrow> None
                             | Some (events, r) \<Rightarrow> Some (requested @ [ChildStarted args] @ events, r))))))"

definition ensureWorker :: "brokerOptions \<Rightarrow> bytes \<Rightarrow> ensureEnv \<Rightarrow> (childEvent list \<times> ensured) option" where
  "ensureWorker opts endpoint env = ensure_child (str ''worker'') False endpoint (worker_args opts endpoint) env"

definition ensureSocketOwner :: "brokerOptions \<Rightarrow> bytes \<Rightarrow> ensureEnv \<Rightarrow> (childEvent list \<times> ensured) option" where
  "ensureSocketOwner opts endpoint env = ensure_child (str ''socket owner'') True endpoint (owner_args opts endpoint) env"

definition ensureSocketHost :: "brokerOptions \<Rightarrow> bytes \<Rightarrow> bytes \<Rightarrow> ensureEnv \<Rightarrow> (childEvent list \<times> ensured) option" where
  "ensureSocketHost opts endpoint ownerEndpoint env =
     ensure_child (str ''socket host bridge'') True endpoint (host_args opts endpoint ownerEndpoint) env"

section \<open>The worker role\<close>

datatype workerEvent = OwnerEvent childEvent | HostEvent childEvent | WorkerListening | WorkerControl | WorkerClosed

record workerEnv =
  wk_owner :: ensureEnv
  wk_host :: ensureEnv
  wk_listen :: "goerr option"
  wk_control :: "goerr option"
  wk_serve :: "goerr option"

text \<open>The deferred cleanup: a child that this worker started is asked to stop and killed.\<close>

definition stop_started :: "bytes \<Rightarrow> ensured \<Rightarrow> childEvent list" where
  "stop_started endpoint r = (if r = Running then [StopRequested endpoint, ChildKilled] else [])"

definition runWorker :: "brokerOptions \<Rightarrow> workerEnv \<Rightarrow> (workerEvent list \<times> goerr option) option" where
  "runWorker opts env =
     (let ownerEndpoint = deriveEndpoint (bo_endpoint opts) (str ''owner''); hostEndpoint = deriveEndpoint (bo_endpoint opts) (str ''host'') in
      case ensureSocketOwner opts ownerEndpoint (wk_owner env) of
        None \<Rightarrow> None
      | Some (ownerEvents, EnsureFailed err) \<Rightarrow> Some (map OwnerEvent ownerEvents, Some err)
      | Some (ownerEvents, owner) \<Rightarrow>
          (case ensureSocketHost opts hostEndpoint ownerEndpoint (wk_host env) of
             None \<Rightarrow> None
           | Some (hostEvents, EnsureFailed err) \<Rightarrow>
               Some (map OwnerEvent ownerEvents @ map HostEvent hostEvents @ map OwnerEvent (stop_started ownerEndpoint owner), Some err)
           | Some (hostEvents, host) \<Rightarrow>
               let before = map OwnerEvent ownerEvents @ map HostEvent hostEvents;
                   after = map HostEvent (stop_started hostEndpoint host) @ map OwnerEvent (stop_started ownerEndpoint owner)
               in (case wk_listen env of
                     Some err \<Rightarrow> Some (before @ after, Some (ErrWrapped (str ''listen '' @ bo_endpoint opts @ str '': '' @ error_text err) err))
                   | None \<Rightarrow>
                       (case wk_control env of
                          Some err \<Rightarrow> Some (before @ [WorkerListening, WorkerClosed] @ after,
                                        Some (ErrWrapped (str ''listen worker control: '' @ error_text err) err))
                        | None \<Rightarrow> Some (before @ [WorkerListening, WorkerControl, WorkerClosed, WorkerClosed] @ after, wk_serve env)))))"

section \<open>The supervisor of the worker\<close>

text \<open>
  Processes are numbers.  \<open>wz_cmd\<close> is the worker the supervisor owns, \<open>wz_watched\<close> the processes whose exit a goroutine waits
  for; the other fields record what happened to them: \<open>wz_killed\<close> are those for which \<open>Kill\<close> was called, whether or not they
  have ended yet.  \<open>ensureMu\<close> makes the calls of \<open>ensure\<close> and \<open>stop\<close> one step each, except that the goroutines of
  \<open>watchWorker\<close> run in between.
\<close>

record workerSupervisor =
  wz_cmd :: "nat option"
  wz_watched :: "nat set"
  wz_started :: "nat set"
  wz_killed :: "nat set"
  wz_exited :: "nat set"
  wz_stopRequests :: nat

definition newWorkerSupervisor :: workerSupervisor where
  "newWorkerSupervisor = \<lparr>wz_cmd = None, wz_watched = {}, wz_started = {}, wz_killed = {}, wz_exited = {}, wz_stopRequests = 0\<rparr>"

definition stopOwnedWorker :: "workerSupervisor \<Rightarrow> workerSupervisor" where
  "stopOwnedWorker s =
     (case wz_cmd s of
        None \<Rightarrow> s
      | Some p \<Rightarrow> s\<lparr>wz_cmd := None, wz_killed := insert p (wz_killed s)\<rparr>)"

text \<open>
  \<open>ensure\<close> with the process \<open>p\<close> that \<open>ensureWorker\<close> starts, if it does; \<open>None\<close> while that waits.  A worker that did not become
  ready has been killed and waited for.
\<close>

definition started :: "childEvent list \<Rightarrow> bool" where
  "started events \<longleftrightarrow> (\<exists>args. ChildStarted args \<in> set events)"

definition gone :: "childEvent list \<Rightarrow> bool" where
  "gone events \<longleftrightarrow> ChildKilled \<in> set events \<or> ChildExited \<in> set events"

definition note_child :: "nat \<Rightarrow> childEvent list \<Rightarrow> workerSupervisor \<Rightarrow> workerSupervisor" where
  "note_child p events s =
     (if started events
      then s\<lparr>wz_started := insert p (wz_started s), wz_killed := (if gone events then insert p (wz_killed s) else wz_killed s),
             wz_exited := (if ChildReaped \<in> set events then insert p (wz_exited s) else wz_exited s)\<rparr>
      else s)"

definition supervisor_ensure ::
  "brokerOptions \<Rightarrow> bytes \<Rightarrow> goerr option \<Rightarrow> ensureEnv \<Rightarrow> nat \<Rightarrow> workerSupervisor \<Rightarrow> (workerSupervisor \<times> goerr option) option" where
  "supervisor_ensure opts endpoint probe env p s =
     (if probe = None then Some (s, None)
      else let s1 = stopOwnedWorker s in
        (case ensureWorker opts endpoint env of
           None \<Rightarrow> None
         | Some (events, EnsureFailed err) \<Rightarrow> Some (note_child p events s1, Some err)
         | Some (events, Reused) \<Rightarrow> Some (note_child p events s1, None)
         | Some (events, Running) \<Rightarrow>
             let s2 = note_child p events s1 in Some (s2\<lparr>wz_cmd := Some p, wz_watched := insert p (wz_watched s2)\<rparr>, None)))"

definition watchWorker :: "nat \<Rightarrow> workerSupervisor \<Rightarrow> workerSupervisor" where
  "watchWorker p s =
     s\<lparr>wz_cmd := (if wz_cmd s = Some p then None else wz_cmd s), wz_watched := wz_watched s - {p}, wz_exited := insert p (wz_exited s)\<rparr>"

definition supervisor_stop :: "workerSupervisor \<Rightarrow> workerSupervisor" where
  "supervisor_stop s = stopOwnedWorker (s\<lparr>wz_stopRequests := Suc (wz_stopRequests s)\<rparr>)"

text \<open>\<open>bridge\<close>: whether the two ends are connected, with what \<open>ensure\<close> does when the first dial fails.\<close>

definition supervisor_bridge ::
  "brokerOptions \<Rightarrow> bytes \<Rightarrow> goerr option \<Rightarrow> goerr option \<Rightarrow> ensureEnv \<Rightarrow> nat \<Rightarrow> goerr option \<Rightarrow> workerSupervisor
     \<Rightarrow> (workerSupervisor \<times> bool) option" where
  "supervisor_bridge opts endpoint dialErr probe env p dialErr2 s =
     (if dialErr = None then Some (s, True)
      else case supervisor_ensure opts endpoint probe env p s of
        None \<Rightarrow> None
      | Some (s', Some err) \<Rightarrow> Some (s', False)
      | Some (s', None) \<Rightarrow> Some (s', dialErr2 = None))"

inductive supervisor_step :: "workerSupervisor \<Rightarrow> workerSupervisor \<Rightarrow> bool" where
  ensure: "supervisor_step s s'" if "p \<notin> wz_started s" "supervisor_ensure opts endpoint probe env p s = Some (s', err)"
| bridge: "supervisor_step s s'"
    if "p \<notin> wz_started s" "supervisor_bridge opts endpoint dialErr probe env p dialErr2 s = Some (s', connected)"
| exit: "supervisor_step s (watchWorker p s)" if "p \<in> wz_watched s"
| stop: "supervisor_step s (supervisor_stop s)"

section \<open>No child is left behind\<close>

text \<open>A child that runs was started and is not gone; a child that failed is gone, when it was started at all.\<close>

definition ensured_ok :: "childEvent list \<Rightarrow> ensured \<Rightarrow> bool" where
  "ensured_ok events r \<longleftrightarrow>
     (r = Running \<longrightarrow> started events \<and> \<not> gone events) \<and> (r = Reused \<longrightarrow> events = [])
     \<and> (started events \<and> r \<noteq> Running \<longrightarrow> gone events) \<and> (gone events \<longrightarrow> started events)"

lemma await_child_outcome:
  "await_child name watched rounds = Some (events, r) \<Longrightarrow>
     \<not> started events \<and> r \<noteq> Reused \<and> (r = Running \<longrightarrow> events = []) \<and> (r \<noteq> Running \<longrightarrow> gone events)"
  by (induction name watched rounds rule: await_child.induct)
     (auto simp: started_def gone_def Let_def split: if_splits pollEnd.splits)

lemma ensure_child_outcome:
  assumes "ensure_child name watched endpoint args env = Some (events, r)"
  shows "ensured_ok events r"
proof (cases "en_probe env")
  case (Some err)
  define requested where "requested = (if err_is err errRoleTokenMismatch then [StopRequested endpoint] else [])"
  have q: "\<not> started requested" "\<not> gone requested" by (simp_all add: requested_def started_def gone_def)
  have "(events = requested \<and> (\<exists>e. r = EnsureFailed e))
      \<or> (\<exists>later. await_child name watched (en_ready env) = Some (later, r) \<and> events = requested @ ChildStarted args # later)"
    using assms Some by (auto simp: ensure_child_def Let_def requested_def [symmetric] split: option.splits if_splits)
  then show ?thesis
  proof (elim disjE exE conjE)
    fix later assume a: "await_child name watched (en_ready env) = Some (later, r)" "events = requested @ ChildStarted args # later"
    have s: "started events" "gone events \<longleftrightarrow> gone later" using a(2) q by (auto simp: started_def gone_def)
    show ?thesis using await_child_outcome [OF a(1)] s by (auto simp: ensured_ok_def gone_def)
  qed (use q in \<open>auto simp: ensured_ok_def\<close>)
qed (use assms in \<open>auto simp: ensure_child_def started_def gone_def ensured_ok_def\<close>)

lemma await_child_ends:
  "(probe, PollDeadline) \<in> set rounds \<Longrightarrow> await_child name watched rounds \<noteq> None"
  by (induction name watched rounds rule: await_child.induct) (auto simp: Let_def split: pollEnd.split)

definition owner_events :: "workerEvent list \<Rightarrow> childEvent list" where
  "owner_events events = concat (map (\<lambda>e. case e of OwnerEvent c \<Rightarrow> [c] | _ \<Rightarrow> []) events)"

definition host_events :: "workerEvent list \<Rightarrow> childEvent list" where
  "host_events events = concat (map (\<lambda>e. case e of HostEvent c \<Rightarrow> [c] | _ \<Rightarrow> []) events)"

lemma worker_events_simps [simp]:
  "owner_events [] = []" "host_events [] = []" "owner_events (a @ b) = owner_events a @ owner_events b" "host_events (a @ b) = host_events a @ host_events b"
  "owner_events (e # b) = (case e of OwnerEvent c \<Rightarrow> [c] | _ \<Rightarrow> []) @ owner_events b"
  "host_events (e # b) = (case e of HostEvent c \<Rightarrow> [c] | _ \<Rightarrow> []) @ host_events b"
  "owner_events (map OwnerEvent cs) = cs" "owner_events (map HostEvent cs) = []"
  "host_events (map HostEvent cs) = cs" "host_events (map OwnerEvent cs) = []"
  by (simp_all add: owner_events_def host_events_def) (induction cs; simp)+

lemma gone_append: "gone (a @ b) \<longleftrightarrow> gone a \<or> gone b" "started (a @ b) \<longleftrightarrow> started a \<or> started b"
  by (auto simp: gone_def started_def)

definition balanced :: "childEvent list \<Rightarrow> bool" where
  "balanced events \<longleftrightarrow> (started events \<longleftrightarrow> gone events)"

lemma stopped_child: "ensured_ok events r \<Longrightarrow> balanced (events @ stop_started endpoint r)"
  by (auto simp: ensured_ok_def balanced_def stop_started_def gone_append) (auto simp: gone_def started_def)

lemma failed_child: "ensured_ok events (EnsureFailed e) \<Longrightarrow> balanced events"
  by (auto simp: ensured_ok_def balanced_def)

text \<open>
  A worker takes down exactly the children it started.  When \<open>runWorker\<close> returns, on any path, the socket owner and the socket host
  are balanced: each has been started by it just when it has been killed or has exited; so none is left behind, and a process that was
  found running with the right token is never killed.
\<close>
lemma worker_children:
  assumes "runWorker opts env = Some (events, r)"
  shows "balanced (owner_events events) \<and> balanced (host_events events)"
proof -
  let ?oe = "deriveEndpoint (bo_endpoint opts) (str ''owner'')"
  let ?he = "deriveEndpoint (bo_endpoint opts) (str ''host'')"
  obtain ov o_r where ow: "ensureSocketOwner opts ?oe (wk_owner env) = Some (ov, o_r)"
    using assms by (cases "ensureSocketOwner opts ?oe (wk_owner env)") (auto simp: runWorker_def Let_def)
  have o_ok: "ensured_ok ov o_r" using ow unfolding ensureSocketOwner_def by (rule ensure_child_outcome)
  have none: "balanced []" by (simp add: balanced_def started_def gone_def)
  show ?thesis
  proof (cases "\<exists>e. o_r = EnsureFailed e")
    case True
    then have "events = map OwnerEvent ov" using assms ow by (auto simp: runWorker_def Let_def)
    then show ?thesis using True o_ok failed_child none by auto
  next
    case False
    have "ensureSocketHost opts ?he ?oe (wk_host env) \<noteq> None"
    proof
      assume "ensureSocketHost opts ?he ?oe (wk_host env) = None"
      then show False using assms ow False by (cases o_r) (simp_all add: runWorker_def Let_def)
    qed
    then obtain hv h_r where ho: "ensureSocketHost opts ?he ?oe (wk_host env) = Some (hv, h_r)" by auto
    have h_ok: "ensured_ok hv h_r" using ho unfolding ensureSocketHost_def by (rule ensure_child_outcome)
    have "owner_events events = ov @ stop_started ?oe o_r"
      using assms ow ho False by (cases o_r; cases h_r) (auto simp: runWorker_def Let_def split: option.splits)
    moreover have "host_events events = (if \<exists>e. h_r = EnsureFailed e then hv else hv @ stop_started ?he h_r)"
      using assms ow ho False by (cases o_r; cases h_r) (auto simp: runWorker_def Let_def split: option.splits)
    ultimately show ?thesis using stopped_child [OF o_ok] stopped_child [OF h_ok] failed_child h_ok by auto
  qed
qed

section \<open>One worker at a time\<close>

definition supervisor_inv :: "workerSupervisor \<Rightarrow> bool" where
  "supervisor_inv s \<longleftrightarrow>
     (case wz_cmd s of None \<Rightarrow> True | Some p \<Rightarrow> p \<in> wz_started s \<and> p \<in> wz_watched s \<and> p \<notin> wz_killed s \<and> p \<notin> wz_exited s)
     \<and> (\<forall>p \<in> wz_started s. p \<in> wz_killed s \<or> p \<in> wz_exited s \<or> wz_cmd s = Some p)
     \<and> wz_watched s \<union> wz_exited s = wz_started s \<and> wz_watched s \<inter> wz_exited s = {} \<and> wz_killed s \<subseteq> wz_started s"

lemma inv_stopOwned: "supervisor_inv s \<Longrightarrow> supervisor_inv (stopOwnedWorker s) \<and> wz_cmd (stopOwnedWorker s) = None \<and> wz_started (stopOwnedWorker s) = wz_started s"
  by (auto simp: supervisor_inv_def stopOwnedWorker_def split: option.splits)

text \<open>The loop that does not watch its child waits for it after the kill.\<close>

lemma await_child_reaped:
  "await_child name watched rounds = Some (events, r) \<Longrightarrow> \<not> watched \<Longrightarrow> ChildReaped \<in> set events \<longleftrightarrow> r \<noteq> Running"
  by (induction name watched rounds rule: await_child.induct) (auto simp: Let_def split: if_splits pollEnd.splits)

lemma ensureWorker_reaped:
  assumes "ensureWorker opts endpoint env = Some (events, r)" "started events"
  shows "ChildReaped \<in> set events \<longleftrightarrow> r \<noteq> Running"
  using assms
  by (auto simp: ensureWorker_def ensure_child_def started_def Let_def dest: await_child_reaped split: option.splits if_splits)

lemma inv_note_child:
  assumes "supervisor_inv s" "wz_cmd s = None" "p \<notin> wz_started s" "ensureWorker opts endpoint env = Some (events, r)"
  shows "r \<noteq> Running \<Longrightarrow> supervisor_inv (note_child p events s)"
    and "r = Running \<Longrightarrow> supervisor_inv ((note_child p events s)\<lparr>wz_cmd := Some p, wz_watched := insert p (wz_watched (note_child p events s))\<rparr>)"
proof -
  have ok: "ensured_ok events r" using assms(4) ensure_child_outcome by (simp add: ensureWorker_def)
  note reaped = ensureWorker_reaped [OF assms(4)]
  show "supervisor_inv (note_child p events s)" if "r \<noteq> Running"
    using assms(1-3) ok reaped that by (auto simp: note_child_def supervisor_inv_def ensured_ok_def)
  show "supervisor_inv ((note_child p events s)\<lparr>wz_cmd := Some p, wz_watched := insert p (wz_watched (note_child p events s))\<rparr>)"
    if "r = Running"
    using assms(1-3) ok reaped that by (auto simp: note_child_def supervisor_inv_def ensured_ok_def)
qed

lemma inv_ensure:
  assumes "supervisor_inv s" "p \<notin> wz_started s" "supervisor_ensure opts endpoint probe env p s = Some (s', err)"
  shows "supervisor_inv s'"
proof (cases "probe = None")
  case False
  let ?t = "stopOwnedWorker s"
  have t: "supervisor_inv ?t" "wz_cmd ?t = None" "p \<notin> wz_started ?t" using inv_stopOwned [OF assms(1)] assms(2) by simp_all
  obtain events r where e: "ensureWorker opts endpoint env = Some (events, r)"
    using assms(3) False by (cases "ensureWorker opts endpoint env") (auto simp: supervisor_ensure_def Let_def)
  show ?thesis
    using assms(3) False e inv_note_child [OF t e] by (cases r) (auto simp: supervisor_ensure_def Let_def)
qed (use assms in \<open>simp add: supervisor_ensure_def\<close>)

lemma supervisor_inv_step: "supervisor_step s s' \<Longrightarrow> supervisor_inv s \<Longrightarrow> supervisor_inv s'"
proof (induction rule: supervisor_step.induct)
  case (ensure p s opts endpoint probe env s' err)
  then show ?case using inv_ensure by blast
next
  case (bridge p s opts endpoint dialErr probe env dialErr2 s' connected)
  then show ?case using inv_ensure [of s p opts endpoint probe env]
    by (auto simp: supervisor_bridge_def split: if_splits prod.splits option.splits)
next
  case (exit p s)
  then show ?case by (auto simp: supervisor_inv_def watchWorker_def split: option.splits if_splits)
next
  case (stop s)
  then have "supervisor_inv (s\<lparr>wz_stopRequests := Suc (wz_stopRequests s)\<rparr>)" by (simp add: supervisor_inv_def split: option.splits)
  then show ?case using inv_stopOwned by (simp add: supervisor_stop_def)
qed

text \<open>
  C35: the frontend never has two workers of its own.  Under any interleaving of connections that ensure the worker, exits of
  workers, and the final stop, every worker the frontend has started and neither killed nor seen exit is the one it owns;
  that one is watched by a goroutine; and after a stop none is left.
\<close>
theorem frontend_one_worker:
  assumes "supervisor_step\<^sup>*\<^sup>* newWorkerSupervisor s"
  shows "wz_started s - wz_killed s - wz_exited s = set_option (wz_cmd s) \<and> set_option (wz_cmd s) \<subseteq> wz_watched s
    \<and> wz_started (supervisor_stop s) = wz_killed (supervisor_stop s) \<union> wz_exited (supervisor_stop s)"
proof -
  have inv: "supervisor_inv s"
    using assms
  proof (induction rule: rtranclp_induct)
    case base
    show ?case by (simp add: supervisor_inv_def newWorkerSupervisor_def)
  next
    case (step s s')
    then show ?case using supervisor_inv_step by blast
  qed
  have st: "supervisor_inv (supervisor_stop s)" by (rule supervisor_inv_step [OF supervisor_step.stop inv])
  have "wz_cmd (supervisor_stop s) = None" by (simp add: supervisor_stop_def stopOwnedWorker_def split: option.split)
  then have "wz_started (supervisor_stop s) = wz_killed (supervisor_stop s) \<union> wz_exited (supervisor_stop s)"
    using st by (auto simp: supervisor_inv_def)
  moreover have "wz_started s - wz_killed s - wz_exited s = set_option (wz_cmd s) \<and> set_option (wz_cmd s) \<subseteq> wz_watched s"
    using inv by (auto simp: supervisor_inv_def split: option.splits)
  ultimately show ?thesis by blast
qed

definition ready_env :: ensureEnv where
  "ready_env = \<lparr>en_probe = Some IoEOF, en_conflict = [], en_executable = None, en_start = None, en_ready = [(Some IoEOF, PollAgain), (None, PollAgain)]\<rparr>"

theorem frontend_one_worker_witness:
  "\<exists>s. supervisor_step\<^sup>*\<^sup>* newWorkerSupervisor s \<and> wz_cmd s = Some 4 \<and> wz_started s - wz_killed s - wz_exited s = {4}"
proof -
  let ?opts = "broker_defaults (str ''e'') (str ''ab'') []"
  have ne: "IoEOF \<noteq> errRoleTokenMismatch" by (simp add: errRoleTokenMismatch_def)
  have "\<exists>s. supervisor_ensure ?opts (str ''w'') (Some IoEOF) ready_env 4 newWorkerSupervisor = Some (s, None) \<and> wz_cmd s = Some 4"
    by (simp add: supervisor_ensure_def ensureWorker_def ensure_child_def ready_env_def ne Let_def)
  then obtain s where s: "supervisor_ensure ?opts (str ''w'') (Some IoEOF) ready_env 4 newWorkerSupervisor = Some (s, None)" "wz_cmd s = Some 4"
    by blast
  have "supervisor_step\<^sup>*\<^sup>* newWorkerSupervisor s"
    by (rule r_into_rtranclp, rule supervisor_step.ensure [OF _ s(1)]) (simp add: newWorkerSupervisor_def)
  with s(2) frontend_one_worker [of s] show ?thesis by (intro exI [of _ s]) simp
qed

end
