(* ===== verification/BrokerSupervisor.thy ===== *)
theory BrokerSupervisor
  imports BrokerRoles
begin

text \<open>
  The supervisor of the broker's frontend (src/cmd/win-broker/supervisor.go) and the roles that serve an endpoint
  (roles.go).  The rounds of the loops carry what the operating system answers.
\<close>

section \<open>The supervisor\<close>

abbreviation supervisorInitialDelay :: int where "supervisorInitialDelay \<equiv> 2000000000"
abbreviation supervisorMaxDelay :: int where "supervisorMaxDelay \<equiv> 30000000000"
abbreviation supervisorStablePeriod :: int where "supervisorStablePeriod \<equiv> 60000000000"

definition nextSupervisorDelay :: "int \<Rightarrow> int" where
  "nextSupervisorDelay current =
     (if current \<le> 0 then supervisorInitialDelay
      else if supervisorMaxDelay \<le> current \<or> supervisorMaxDelay div 2 < current then supervisorMaxDelay
      else current * 2)"

text \<open>What waiting for the frontend returns; the exit code of a process that a signal ended is -1.\<close>

datatype frontendExit = FrontendNil | FrontendStatus int | FrontendSignalled | FrontendLost

definition processExitCode :: "frontendExit \<Rightarrow> int" where
  "processExitCode e = (case e of FrontendNil \<Rightarrow> 0 | FrontendStatus code \<Rightarrow> code | FrontendSignalled \<Rightarrow> - 1 | FrontendLost \<Rightarrow> 1)"

text \<open>\<open>waitForEndpointExit\<close> over the ticks: whether the endpoint is still reachable, or \<open>None\<close> when the context is done.\<close>

fun waitForEndpointExit :: "bool option list \<Rightarrow> bool option" where
  "waitForEndpointExit [] = None"
| "waitForEndpointExit (None # ticks) = Some False"
| "waitForEndpointExit (Some reachable # ticks) = (if reachable then waitForEndpointExit ticks else Some True)"

text \<open>\<open>acquireSupervisorLock\<close> over its attempts: the error of \<open>Listen\<close> and the error of the context after the wait.\<close>

fun acquireSupervisorLock :: "(goerr option \<times> goerr option) list \<Rightarrow> unit result option" where
  "acquireSupervisorLock [] = None"
| "acquireSupervisorLock ((listenErr, ctxErr) # attempts) =
     (if listenErr = None then Some (Inr ())
      else case ctxErr of Some err \<Rightarrow> Some (Inl err) | None \<Rightarrow> acquireSupervisorLock attempts)"

datatype frontendEvent =
    AwaitFrontend
  | RequestStop
  | FrontendStarted "bytes list"
  | FrontendInterrupted
  | FrontendKilled
  | FrontendReaped
  | Standby
  | RestartIn int

record supervisorRound =
  vr_existing :: bool
  vr_probe :: "goerr option"
  vr_start :: "goerr option"
  vr_exit :: "frontendExit option"
  vr_ctxErr :: "goerr option"
  vr_signalErr :: "goerr option"
  vr_timely :: bool
  vr_reachable :: bool
  vr_standbyErr :: "goerr option"
  vr_elapsed :: int
  vr_timerErr :: "goerr option"

definition waitForExistingFrontend :: "supervisorRound \<Rightarrow> frontendEvent list" where
  "waitForExistingFrontend r =
     (if \<not> vr_existing r then []
      else (case vr_probe r of
              None \<Rightarrow> []
            | Some err \<Rightarrow> if err_is err errRoleTokenMismatch then [RequestStop] else []) @ [AwaitFrontend])"

definition stopChild :: "supervisorRound \<Rightarrow> frontendEvent list" where
  "stopChild r =
     (if vr_signalErr r \<noteq> None then [FrontendKilled, FrontendReaped]
      else FrontendInterrupted # (if vr_timely r then [FrontendReaped] else [FrontendKilled, FrontendReaped]))"

text \<open>
  The loop of \<open>runSupervisor\<close> after the lock; the result is \<open>None\<close> while it runs.  The error of a context that is done during
  the run of the frontend is \<open>vr_ctxErr\<close>.
\<close>

fun supervisor_loop :: "brokerOptions \<Rightarrow> int \<Rightarrow> supervisorRound list \<Rightarrow> frontendEvent list \<times> goerr option option" where
  "supervisor_loop opts delay [] = ([], None)"
| "supervisor_loop opts delay (r # rounds) =
     (let waited = waitForExistingFrontend r in
      case vr_start r of
        Some err \<Rightarrow> (waited, Some (Some (ErrWrapped (str ''start broker frontend: '' @ error_text err) err)))
      | None \<Rightarrow>
          let begun = waited @ [FrontendStarted (frontendArgs opts)] in
          (case vr_exit r of
             None \<Rightarrow> (begun @ stopChild r, Some (Some (case vr_ctxErr r of Some err \<Rightarrow> err | None \<Rightarrow> ContextCanceled)))
           | Some e \<Rightarrow>
               let ended = begun @ [FrontendReaped]; exitCode = processExitCode e in
               if vr_ctxErr r \<noteq> None then (ended, Some (vr_ctxErr r))
               else if exitCode = 0 then (ended, Some None)
               else if exitCode = 2 then (ended, Some (Some (ErrText (str ''broker frontend exited with configuration status 2''))))
               else if vr_reachable r
               then if vr_standbyErr r \<noteq> None then (ended @ [Standby], Some (vr_standbyErr r))
                    else (case supervisor_loop opts supervisorInitialDelay rounds of (events, out) \<Rightarrow> (ended @ [Standby] @ events, out))
               else let d = (if supervisorStablePeriod \<le> vr_elapsed r then supervisorInitialDelay else delay) in
                 (case vr_timerErr r of
                    Some err \<Rightarrow> (ended @ [RestartIn d], Some (Some err))
                  | None \<Rightarrow>
                      (case supervisor_loop opts (nextSupervisorDelay d) rounds of (events, out) \<Rightarrow> (ended @ [RestartIn d] @ events, out)))))"

definition runSupervisor ::
  "brokerOptions \<Rightarrow> goerr option \<Rightarrow> (goerr option \<times> goerr option) list \<Rightarrow> supervisorRound list
     \<Rightarrow> frontendEvent list \<times> goerr option option" where
  "runSupervisor opts executableErr attempts rounds =
     (case executableErr of
        Some err \<Rightarrow> ([], Some (Some (ErrWrapped (str ''locate broker executable: '' @ error_text err) err)))
      | None \<Rightarrow>
          (case acquireSupervisorLock attempts of
             None \<Rightarrow> ([], None)
           | Some (Inl err) \<Rightarrow> ([], Some (Some err))
           | Some (Inr _) \<Rightarrow> supervisor_loop opts supervisorInitialDelay rounds))"

section \<open>Roles that serve an endpoint\<close>

text \<open>The listeners of a role are closed in the reverse order.\<close>

datatype roleEvent = RoleListening bytes | RoleClosed bytes | RoleServing bytes | RoleMonitoring bytes | WorkerStopped | LinkClosed

definition runFrontend :: "brokerOptions \<Rightarrow> goerr option \<Rightarrow> goerr option \<Rightarrow> goerr option \<Rightarrow> goerr option \<Rightarrow> roleEvent list \<times> goerr option" where
  "runFrontend opts listenErr controlErr ensureErr serveErr =
     (let endpoint = bo_endpoint opts; control = deriveEndpoint endpoint (str ''control'') in
      case listenErr of
        Some err \<Rightarrow> ([], Some (ErrWrapped (str ''listen '' @ endpoint @ str '': '' @ error_text err) err))
      | None \<Rightarrow>
          (case controlErr of
             Some err \<Rightarrow> ([RoleListening endpoint, RoleClosed endpoint], Some (ErrWrapped (str ''listen frontend control: '' @ error_text err) err))
           | None \<Rightarrow>
               (case ensureErr of
                  Some err \<Rightarrow> ([RoleListening endpoint, RoleListening control, RoleClosed control, RoleClosed endpoint], Some err)
                | None \<Rightarrow>
                    ([RoleListening endpoint, RoleListening control, RoleServing endpoint, WorkerStopped, RoleClosed control, RoleClosed endpoint],
                     serveErr))))"

definition runSocketBridge :: "brokerOptions \<Rightarrow> goerr option \<Rightarrow> goerr option \<Rightarrow> goerr option \<Rightarrow> roleEvent list \<times> goerr option" where
  "runSocketBridge opts listenErr controlErr serveErr =
     (let endpoint = bo_endpoint opts; control = deriveEndpoint endpoint (str ''control'') in
      if bo_ownerEndpoint opts = [] then ([], Some (ErrText (str ''socket bridge owner endpoint is required'')))
      else case listenErr of
        Some err \<Rightarrow> ([], Some (ErrWrapped (str ''listen '' @ endpoint @ str '': '' @ error_text err) err))
      | None \<Rightarrow>
          (case controlErr of
             Some err \<Rightarrow> ([RoleListening endpoint, RoleClosed endpoint], Some (ErrWrapped (str ''listen socket bridge control: '' @ error_text err) err))
           | None \<Rightarrow>
               ([RoleListening endpoint, RoleListening control, RoleMonitoring (bo_ownerEndpoint opts), RoleServing endpoint,
                 RoleClosed control, RoleClosed endpoint], serveErr)))"

text \<open>\<open>runSocketOwner\<close>: the checks on the token, the registry and the proxy come before the listeners.\<close>

definition owner_result :: "goerr option \<Rightarrow> goerr option \<Rightarrow> goerr option" where
  "owner_result serveErr serverErr =
     (case (serveErr, serverErr) of
        (None, Some e) \<Rightarrow> if \<not> err_is e ContextCanceled \<and> \<not> err_is e ErrLinkClosed then Some e else None
      | _ \<Rightarrow> serveErr)"

definition runSocketOwner ::
  "brokerOptions \<Rightarrow> goerr option \<Rightarrow> goerr option \<Rightarrow> goerr option \<Rightarrow> goerr option \<Rightarrow> goerr option \<Rightarrow> goerr option
     \<Rightarrow> roleEvent list \<times> goerr option" where
  "runSocketOwner opts registryErr upstreamErr listenErr controlErr serveErr serverErr =
     (let endpoint = bo_endpoint opts; control = deriveEndpoint endpoint (str ''control'') in
      if (case hex_DecodeString (bo_tokenHex opts) of None \<Rightarrow> True | Some token \<Rightarrow> token = [])
      then ([], Some (ErrText (str ''attach token must be non-empty hexadecimal'')))
      else case registryErr of
        Some err \<Rightarrow> ([], Some (ErrWrapped (str ''attach registry: '' @ error_text err) err))
      | None \<Rightarrow>
      (case upstreamErr of
         Some err \<Rightarrow> ([], Some (ErrWrapped (str ''upstream proxy: '' @ error_text err) err))
       | None \<Rightarrow>
      (case listenErr of
         Some err \<Rightarrow> ([], Some (ErrWrapped (str ''listen '' @ endpoint @ str '': '' @ error_text err) err))
       | None \<Rightarrow>
      (case controlErr of
         Some err \<Rightarrow> ([RoleListening endpoint, RoleClosed endpoint], Some (ErrWrapped (str ''listen worker control: '' @ error_text err) err))
       | None \<Rightarrow>
           ([RoleListening endpoint, RoleListening control, RoleServing endpoint, LinkClosed, RoleClosed control, RoleClosed endpoint],
            owner_result serveErr serverErr)))))"

text \<open>\<open>monitorSocketHost\<close> over its ticks: the answer of the probe, or \<open>None\<close> when the context is done; whether it stops the role.\<close>

fun monitorSocketHost :: "goerr option option list \<Rightarrow> bool option" where
  "monitorSocketHost [] = None"
| "monitorSocketHost (None # ticks) = Some False"
| "monitorSocketHost (Some probe # ticks) = (if probe = None then monitorSocketHost ticks else Some True)"

section \<open>One frontend at a time\<close>

text \<open>Whether a frontend runs after the events, when starts and ends alternate.\<close>

fun one_frontend :: "bool \<Rightarrow> frontendEvent list \<Rightarrow> bool option" where
  "one_frontend running [] = Some running"
| "one_frontend running (FrontendStarted args # events) = (if running then None else one_frontend True events)"
| "one_frontend running (FrontendReaped # events) = (if running then one_frontend False events else None)"
| "one_frontend running (FrontendKilled # events) = (if running then one_frontend running events else None)"
| "one_frontend running (e # events) = one_frontend running events"

lemma one_frontend_append: "one_frontend b (xs @ ys) = (case one_frontend b xs of None \<Rightarrow> None | Some b' \<Rightarrow> one_frontend b' ys)"
  by (induction b xs rule: one_frontend.induct) auto

lemma one_frontend_waited: "one_frontend False (waitForExistingFrontend r) = Some False"
  by (auto simp: waitForExistingFrontend_def split: option.split)

lemma one_frontend_stop: "one_frontend True (stopChild r) = Some False"
  by (auto simp: stopChild_def)

fun restart_delays :: "frontendEvent list \<Rightarrow> int list" where
  "restart_delays [] = []"
| "restart_delays (RestartIn d # events) = d # restart_delays events"
| "restart_delays (e # events) = restart_delays events"

lemma restart_delays_append: "restart_delays (xs @ ys) = restart_delays xs @ restart_delays ys"
  by (induction xs rule: restart_delays.induct) auto

lemma restart_delays_parts: "restart_delays (waitForExistingFrontend r) = []" "restart_delays (stopChild r) = []"
  by (auto simp: waitForExistingFrontend_def stopChild_def split: option.split)

lemmas frontend_simps = one_frontend_append one_frontend_waited one_frontend_stop restart_delays_append restart_delays_parts

lemma next_supervisor_delay:
  "supervisorInitialDelay \<le> d \<Longrightarrow> d \<le> supervisorMaxDelay \<Longrightarrow>
     supervisorInitialDelay \<le> nextSupervisorDelay d \<and> nextSupervisorDelay d \<le> supervisorMaxDelay"
  by (simp add: nextSupervisorDelay_def)

lemma supervisor_loop_ok:
  assumes "supervisor_loop opts delay rounds = (events, out)" "supervisorInitialDelay \<le> delay" "delay \<le> supervisorMaxDelay"
  shows "one_frontend False events = Some False \<and> list_all (\<lambda>d. supervisorInitialDelay \<le> d \<and> d \<le> supervisorMaxDelay) (restart_delays events)
    \<and> (out = Some None \<longrightarrow> (\<exists>r e. r \<in> set rounds \<and> vr_exit r = Some e \<and> processExitCode e = 0))"
  using assms
proof (induction opts delay rounds arbitrary: events rule: supervisor_loop.induct)
  case (2 opts delay r rounds)
  define d where "d = (if supervisorStablePeriod \<le> vr_elapsed r then supervisorInitialDelay else delay)"
  have d: "supervisorInitialDelay \<le> d" "d \<le> supervisorMaxDelay" using "2.prems"(2,3) by (simp_all add: d_def)
  show ?case
  proof (cases "vr_start r = None \<and> vr_exit r \<noteq> None")
    case False
    then show ?thesis using "2.prems"(1)
      by (cases "vr_start r"; cases "vr_exit r") (auto simp: frontend_simps Let_def)
  next
    case True
    then obtain e where e: "vr_start r = None" "vr_exit r = Some e" by auto
    let ?ended = "waitForExistingFrontend r @ [FrontendStarted (frontendArgs opts), FrontendReaped]"
    consider (stop) "events = ?ended" "out \<noteq> None" "out = Some None \<longrightarrow> processExitCode e = 0"
      | (standby) "events = ?ended @ [Standby]" "out \<noteq> Some None"
      | (again) later where "events = ?ended @ Standby # later" "supervisor_loop opts supervisorInitialDelay rounds = (later, out)"
          "vr_ctxErr r = None" "processExitCode e \<noteq> 0" "processExitCode e \<noteq> 2" "vr_reachable r" "vr_standbyErr r = None"
      | (timer) "events = ?ended @ [RestartIn d]" "out \<noteq> Some None"
      | (restart) later where "events = ?ended @ RestartIn d # later" "supervisor_loop opts (nextSupervisorDelay d) rounds = (later, out)"
          "vr_ctxErr r = None" "processExitCode e \<noteq> 0" "processExitCode e \<noteq> 2" "\<not> vr_reachable r" "vr_timerErr r = None"
      using "2.prems"(1) e
      by (auto simp: Let_def d_def [symmetric] split: if_splits option.splits prod.splits)
    then show ?thesis
    proof cases
      case again
      from "2.IH"(1) [OF refl e(1) refl e(2) refl refl _ again(4,5,6) _ again(2)] again(3,7)
      show ?thesis using again(1) by (auto simp: frontend_simps)
    next
      case restart
      from "2.IH"(2) [OF refl e(1) refl e(2) refl refl _ restart(4,5,6) d_def restart(7,2)] restart(3) next_supervisor_delay [OF d]
      show ?thesis using restart(1) d by (auto simp: frontend_simps)
    qed (use e d in \<open>auto simp: frontend_simps\<close>)
  qed
qed simp

text \<open>
  C38: the supervisor runs one frontend at a time and leaves none behind.  Whatever the frontends and the system do, a frontend is
  started only after the previous one has been waited for, none is killed after that, and whenever the supervisor has returned
  no frontend is running; every delay lies between two and thirty seconds; and it ends without an error only when a frontend
  has exited with status 0.
\<close>
theorem supervisor_one_frontend:
  assumes "runSupervisor opts executableErr attempts rounds = (events, out)"
  shows "one_frontend False events = Some False
    \<and> list_all (\<lambda>d. supervisorInitialDelay \<le> d \<and> d \<le> supervisorMaxDelay) (restart_delays events)
    \<and> (out = Some None \<longrightarrow> (\<exists>r e. r \<in> set rounds \<and> vr_exit r = Some e \<and> processExitCode e = 0))"
proof (cases "executableErr = None \<and> acquireSupervisorLock attempts = Some (Inr ())")
  case True
  then have "supervisor_loop opts supervisorInitialDelay rounds = (events, out)" using assms by (simp add: runSupervisor_def)
  then show ?thesis by (rule supervisor_loop_ok) simp_all
next
  case False
  then show ?thesis using assms by (auto simp: runSupervisor_def split: option.splits sum.splits)
qed

definition crash_round :: supervisorRound where
  "crash_round = \<lparr>vr_existing = False, vr_probe = None, vr_start = None, vr_exit = Some (FrontendStatus 1), vr_ctxErr = None, vr_signalErr = None,
     vr_timely = True, vr_reachable = False, vr_standbyErr = None, vr_elapsed = 0, vr_timerErr = None\<rparr>"

theorem supervisor_one_frontend_witness:
  "\<exists>events. runSupervisor (broker_defaults (str ''e'') (str ''ab'') []) None [(None, None)] [crash_round, crash_round\<lparr>vr_exit := Some FrontendNil\<rparr>]
     = (events, Some None) \<and> restart_delays events = [2000000000] \<and> one_frontend False events = Some False"
proof -
  have "case runSupervisor (broker_defaults (str ''e'') (str ''ab'') []) None [(None, None)] [crash_round, crash_round\<lparr>vr_exit := Some FrontendNil\<rparr>]
     of (events, out) \<Rightarrow> out = Some None \<and> restart_delays events = [2000000000]"
    by (simp add: runSupervisor_def crash_round_def processExitCode_def waitForExistingFrontend_def Let_def)
  then obtain events where e: "runSupervisor (broker_defaults (str ''e'') (str ''ab'') []) None [(None, None)]
      [crash_round, crash_round\<lparr>vr_exit := Some FrontendNil\<rparr>] = (events, Some None)" "restart_delays events = [2000000000]"
    by (auto split: prod.splits)
  with supervisor_one_frontend [OF e(1)] show ?thesis by blast
qed

end
