(* ===== verification/Spec2Isabelle.thy ===== *)
theory Spec2Isabelle
  imports Diagnostic RelayServerSafety AttachHandshake Broker FlowControl Socks5Props ListenAddr NetServe
    Forward AutoWatchSteps ListenOwners UpstreamProps
    Connector Config HttpProxy ProxyRun StatusCommand BrokerSupervisor
begin

text \<open>
  A verification library of wsl-win-relay, a relay that lets programs in a WSL distribution use the
  network of the Windows host and the other way round.  A process on each side speaks a framed
  protocol over a byte stream: the Windows side (\<open>relay.Server\<close>) dials, listens and exchanges
  datagrams on behalf of the WSL side (\<open>relay.Client\<close>), which exposes that service as a SOCKS5 proxy,
  an HTTP proxy, port forwards and automatic forwards.  The byte stream may be replaced while the
  client lives: a broker keeps the registry of long-lived resources, a connector attaches to it with
  a token and an epoch, and the framed link switches from one transport to the next.

  \<^bold>\<open>Conventions.\<close>  Go strings and byte slices are \<open>byte list\<close>; fixed-width integers are words;
  \<open>(T, error)\<close> is \<open>goerr + T\<close>; a struct is a \<open>record\<close> with prefixed field names.  A sequential function
  is a HOL function with the state passed explicitly.  A goroutine is modelled by its critical
  sections: every stretch of code between two blocking calls is one operation, and an \<open>inductive\<close>
  step relation interleaves the operations of all goroutines.  The outcome of a blocking call (what
  the network delivers, which case of a \<open>select\<close> is ready, what a dialer answers, what the clock
  says) is an argument of the operation or of the step, so the theorems hold for every environment.
  A call that waits repeatedly takes the list of its wake-ups; the result is \<open>None\<close> while the list is
  exhausted and the call still waits.  There is no other fuel: all loops are structural or have a
  termination proof.

  \<^bold>\<open>Theories\<close>, with the files they model under src/internal and src/cmd.

  \<^item> \<open>Prelude\<close>, \<open>Bytes\<close>, \<open>Codec\<close>, \<open>GoIO\<close>, \<open>GoText\<close>, \<open>GoNet\<close>, \<open>GoNetText\<close>: errors and results,
    big-endian codecs, byte-stream endpoints with the retry loops around \<open>Write\<close> (locale \<open>io_writer\<close>),
    and what the program uses of the packages \<open>strings\<close>, \<open>strconv\<close>, \<open>hex\<close> and \<open>net\<close>.  \<open>GoNetText\<close> shows
    that \<open>ParseIP\<close> inverts \<open>IP.String\<close>.
  \<^item> \<open>Protocol\<close> (protocol/*.go): frames, validation, the reader and the writer, datagram, window and
    capability payloads.  Frame streams survive fragmented writes, whatever \<open>Read\<close> returns is valid, a
    bad header is rejected before its payload is read, the codecs are exact inverses.
  \<^item> \<open>Diagnostic\<close> (diagnostic/text.go): bounded, valid UTF-8 error texts.
  \<^item> \<open>FlowWindow\<close>, \<open>Registry\<close>, \<open>RelayServer\<close>, \<open>RelayServerInv\<close>, \<open>RelayServerSafety\<close> (relay/window.go,
    limits.go, server.go): the server with all handlers and goroutines.  In every reachable state
    the resource limits hold, slots are accounted for, and an object that left its table has had its
    socket closed; shutdown releases everything; of the queues of its streams only a full one makes the dispatcher wait,
    for a HALF_CLOSE.
  \<^item> \<open>RelayClient\<close>, \<open>ClientTables\<close>, \<open>RelayClientInv\<close>, \<open>RelayClientSafety\<close> (relay/client.go): the client
    with its streams, packet connections and reverse listeners.  The tables are four
    interpretations of the locale \<open>id_table\<close>.  Limits and frame validity are invariants; writes
    deliver exact prefixes and complete when there is credit; reads drain after a half-close;
    failing the client releases every caller, and once its maps are emptied at most one inbound stream is
    still entered.
  \<^item> \<open>FlowControl\<close>: client and server composed over two frame queues.  Upstream credit is conserved;
    downstream the server overdraws its window and then resets a correct client.
  \<^item> \<open>FramedLink\<close>, \<open>Generations\<close>, \<open>AttachRegistry\<close>, \<open>SortedTable\<close>, \<open>AttachWire\<close>, \<open>AttachHandshake\<close>
    (transport/framed, transport/attach): the replaceable link, the registry of generations, the
    attach protocol.  Frames never mix transports, stale cleanups are harmless, epochs are never
    reused, both sides of a handshake agree, and nothing is attached without the token.
  \<^item> \<open>Broker\<close> (broker/broker.go): entries, summaries, connection tracking and the accept loops.
  \<^item> \<open>Socks5\<close>, \<open>Socks5Props\<close> (socks5/server.go): address and packet codecs, the handshake,
    \<open>ServeConn\<close> and the packet loops of a UDP association.
  \<^item> \<open>ListenAddr\<close> (listenaddr), \<open>NetServe\<close> (netserve, netutil), \<open>Forward\<close> (forward): automatic listen
    addresses, bounded serving, address resolution, and sets of port forwards.
  \<^item> \<open>AutoScan\<close> (autoforward/proc.go): the scanner of the kernel's socket tables.
  \<^item> \<open>AutoStatus\<close>, \<open>AutoWatch\<close>, \<open>AutoWatchSteps\<close> (autoforward/status.go, watcher.go): the status document
    and its atomic publication, the watcher of WSL listeners with its retry policy, and the
    interleaving of a round's goroutines with \<open>Reset\<close>.  No handle of a Windows mapping is lost or closed
    twice, and none from before a reset stays active.

  \<^item> \<open>ListenControl\<close>, \<open>ListenLeases\<close>, \<open>ListenOwners\<close> (listencontrol/server.go): the leases of strict
    listeners with the requests of the control socket; the interleaving of handlers, reaper, shutdown and
    rebind, in which no Windows reservation is lost and all limits hold; the refinement of an abstract map of
    owners.

  \<^item> \<open>Upstream\<close>, \<open>UpstreamProps\<close> (upstream/dialer.go): HTTP CONNECT and SOCKS5 through a proxy of the Windows
    host.  The SOCKS5 client is connected back to back with the front end of \<open>Socks5\<close>; the HTTP client
    reads exactly the response and at most 64 KiB.

  \<^item> \<open>Connector\<close> (connector/connector.go): the connector's dial with its retry loop against a clock, which always
    ends, no later than its window plus the last attempt.

  \<^item> \<open>Config\<close> (config/config.go): the configuration file; \<open>Load\<close> accepts exactly the well-formed ones.

  \<^item> \<open>HttpHeaders\<close>, \<open>HttpStream\<close>, \<open>HttpProxy\<close> (httpproxy/server.go): hop-by-hop headers, the streams that keep
    pipelined requests apart and limit their headers (over a locale for \<open>io.Reader\<close>), and the events of a
    connection with plain requests and tunnels.

  The commands under src/cmd put these parts together.

  \<^item> \<open>GoFlag\<close>: what the commands use of the packages \<open>flag\<close> and \<open>strconv\<close>, a parser over a table of flags.

  \<^item> \<open>SessionDialer\<close> (wsl-proxy/session.go): the dialer that the local proxies share while relay sessions come and go.
    Its critical sections interleave; no operation sleeps through a change of the session.

  \<^item> \<open>ProxyPorts\<close>, \<open>ProxyOptions\<close> (wsl-proxy/main.go): port sets, and the options with every flag and check.  A
    configuration file is honoured exactly, and automatic forwarding never competes with an explicit mapping.

  \<^item> \<open>ProxySession\<close> (wsl-proxy/main.go, persistent.go): the supervisor with its restart delays, a session with a relay
    process, and the connectors of a persistent client.  Every handle is closed once, and mappings are
    never kept for another peer.

  \<^item> \<open>ProxyEnv\<close>, \<open>ProxyRun\<close> (wsl-proxy/main.go, listen_status.go): the environment of a connector, the status
    file of the listeners, and \<open>run\<close>, which starts all services or none and releases what it took.

  \<^item> \<open>BrokerControl\<close>, \<open>BrokerChildren\<close>, \<open>BrokerRoles\<close>, \<open>BrokerSupervisor\<close> (win-broker/*.go): options, token file and control
    endpoint of the broker, the arguments of its child processes, its roles, and the supervisors of the
    worker and of the frontend.  A role is reused only with the same token, children get their endpoint, their role and
    the token of their parent, and no second worker or frontend is left running.

  \<^item> \<open>StatusCommand\<close> (wsl-status/main.go): options, resolution and table of the status command.

  \<^bold>\<open>Not modelled.\<close>  The operating system behind sockets, pipes, files and processes is an argument of
  the operations, as are the clock, random numbers, \<open>time.ParseDuration\<close> and the JSON decoder.  Copying bytes
  between two connections (\<open>io.Copy\<close>), logging and signals are left out; so are local IPC and stdio
  transports, which are system calls only, and the main functions of win-relay and win-connector, which
  parse flags and call the modelled server and connector.  How long the relay server waits to write a frame, to
  resolve an address or to open a socket is not modelled either: these complete within one step.

\<close>

end
